(* ===== verification/Prelude.thy ===== *)
theory Prelude
  imports Main "HOL-Library.List_Lexorder" "HOL-Library.Char_ord"
begin

text \<open>
  Shared vocabulary of the development: the error type every modelled operation returns, the
  error monad the translated functions are written in, the list operations the Python sources
  use on every artifact (\<^verbatim>\<open>sorted(set(...))\<close>, directory lookups, duplicate tests), and the
  simplification collections that carry the component proofs.
\<close>

subsection \<open>Errors\<close>

text \<open>
  A \<^verbatim>\<open>raise SystemExit(...)\<close> of the sources is \<open>SystemExit reason\<close>, where the reason names
  the check that failed (the text of the message is diagnostic only); the errors of the session
  modules are subclasses of \<^verbatim>\<open>ValueError\<close>. The other constructors are
  the exceptions of the language that the translated code can meet on unexpected values;
  \<open>NoReturn\<close> stands for a loop of the code that never ends.
\<close>

datatype reason =
    UnknownFields | MissingFields | NotClosed | NotAnObject | BadEnum | BadIdentifier
  | BadSha | BadList | BadText | BadContract | BadInteger | BadCardinality | BadScope
  | BadBinding | BadTime | BadRank | BadPath | DigestMismatch | Missing | Conflict
  | Circular | Stale | NotReservable | CasConflict | NotActive | ExpiredGrant
  | Insufficient | Forged | EscapesBoundary | NotSettled | IdempotencyConflict
  | BadTransition | BadAccounting | BadEvidence | BadRoute | Sealed

datatype error =
    SystemExit reason | ValueError reason | TypeError | KeyError | AssertionError | OverflowError | NoReturn

type_synonym 'a res = "error + 'a"

definition bindE :: "'a res \<Rightarrow> ('a \<Rightarrow> 'b res) \<Rightarrow> 'b res" where
  "bindE m f = (case m of Inl e \<Rightarrow> Inl e | Inr x \<Rightarrow> f x)"

abbreviation fail :: "reason \<Rightarrow> 'a res" where
  "fail r \<equiv> Inl (SystemExit r)"

abbreviation refuse :: "reason \<Rightarrow> 'a res" where
  "refuse r \<equiv> Inl (ValueError r)"

fun mapE :: "('a \<Rightarrow> 'b res) \<Rightarrow> 'a list \<Rightarrow> 'b list res" where
  "mapE f [] = Inr []"
| "mapE f (x # xs) = bindE (f x) (\<lambda>y. bindE (mapE f xs) (\<lambda>ys. Inr (y # ys)))"

named_theorems result_simps \<open>rewriting of successful runs of the error monad\<close>

lemma bindE_simps [simp]:
  "bindE (Inl e) f = Inl e"
  "bindE (Inr x) f = f x"
  by (simp_all add: bindE_def)

lemma bindE_cong [fundef_cong]:
  "m = m' \<Longrightarrow> (\<And>x. m' = Inr x \<Longrightarrow> f x = g x) \<Longrightarrow> bindE m f = bindE m' g"
  by (cases m') simp_all

lemma bindE_eq_Inr [result_simps]:
  "bindE m f = Inr y \<longleftrightarrow> (\<exists>x. m = Inr x \<and> f x = Inr y)"
  by (cases m) auto

lemma bindE_eq_Inl:
  "bindE m f = Inl e \<longleftrightarrow> m = Inl e \<or> (\<exists>x. m = Inr x \<and> f x = Inl e)"
  by (cases m) auto

lemma if_raise_eq_Inr [result_simps]:
  "(if c then Inl e else r) = Inr y \<longleftrightarrow> \<not> c \<and> r = Inr y"
  by simp

lemma if_pass_eq_Inr [result_simps]:
  "(if c then r else Inl e) = Inr y \<longleftrightarrow> c \<and> r = Inr y"
  by simp

lemma Inr_collapse [result_simps]: "Inr x = Inr y \<longleftrightarrow> x = y"
  by simp

lemma mapE_eq_Inr:
  "mapE f xs = Inr ys \<longleftrightarrow> list_all2 (\<lambda>x y. f x = Inr y) xs ys"
proof (induction xs arbitrary: ys)
  case Nil
  then show ?case by auto
next
  case (Cons x xs)
  then show ?case by (cases ys) (auto simp: bindE_eq_Inr)
qed

lemma mapE_length: "mapE f xs = Inr ys \<Longrightarrow> length ys = length xs"
  by (auto simp: mapE_eq_Inr dest: list_all2_lengthD)

lemma mapE_map_Inr: "(\<And>x. x \<in> set xs \<Longrightarrow> f (g x) = Inr x) \<Longrightarrow> mapE f (map g xs) = Inr xs"
  by (induction xs) auto

lemma mapE_set: "mapE f xs = Inr ys \<Longrightarrow> y \<in> set ys \<Longrightarrow> \<exists>x \<in> set xs. f x = Inr y"
proof (induction xs arbitrary: ys)
  case Nil
  then show ?case by simp
next
  case (Cons x xs)
  then show ?case by (auto simp: bindE_eq_Inr)
qed

lemma mapE_again:
  assumes "mapE f vs = Inr xs" and "\<And>v x. f v = Inr x \<Longrightarrow> f (render x) = Inr x" and "set ys = set xs"
  shows "mapE f (map render ys) = Inr ys"
  using assms by (intro mapE_map_Inr) (auto dest: mapE_set)

subsection \<open>Sorted lists without duplicates\<close>

text \<open>\<^verbatim>\<open>sorted(set(values))\<close>\<close>

definition sort_uniq :: "'a::linorder list \<Rightarrow> 'a list" where
  "sort_uniq xs = sort (remdups xs)"

lemma set_sort_uniq [simp]: "set (sort_uniq xs) = set xs"
  by (simp add: sort_uniq_def)

lemma distinct_sort_uniq [simp]: "distinct (sort_uniq xs)"
  by (simp add: sort_uniq_def)

lemma sorted_sort_uniq [simp]: "sorted (sort_uniq xs)"
  by (simp add: sort_uniq_def)

lemma sort_uniq_idem: "sorted xs \<Longrightarrow> distinct xs \<Longrightarrow> sort_uniq xs = xs"
  by (simp add: sort_uniq_def distinct_remdups_id sorted_sort_id)

lemma sort_uniq_sort_uniq [simp]: "sort_uniq (sort_uniq xs) = sort_uniq xs"
  by (simp add: sort_uniq_idem)

lemma sort_uniq_Nil_iff [simp]: "sort_uniq xs = [] \<longleftrightarrow> xs = []"
  using set_sort_uniq [of xs] by (metis set_empty)

lemma length_sort_uniq_le: "length (sort_uniq xs) \<le> length xs"
  by (simp add: sort_uniq_def length_remdups_leq)

lemma length_sort_uniq_eq: "length (sort_uniq xs) = length xs \<longleftrightarrow> distinct xs"
  by (simp add: sort_uniq_def length_remdups_eq)

lemma sort_uniq_cong_set: "set xs = set ys \<Longrightarrow> sort_uniq xs = sort_uniq ys"
  by (rule sorted_distinct_set_unique) simp_all

lemma distinct_map_sort_key: "distinct (map k (sort_key k xs)) \<longleftrightarrow> distinct (map k xs)"
  by (simp add: distinct_map)

lemma sort_key_again: "sort_key k (sort_key k xs) = sort_key k xs"
  by (rule sort_key_id_if_sorted) simp

subsection \<open>Directories: association lists keyed by artifact name\<close>

text \<open>
  A directory of artifacts is an association list from artifact names to contents. Reading a
  missing name is \<open>None\<close>; writing replaces the entry of that name.
\<close>

type_synonym 'v dir = "(string \<times> 'v) list"

fun dput :: "string \<Rightarrow> 'v \<Rightarrow> 'v dir \<Rightarrow> 'v dir" where
  "dput k v [] = [(k, v)]"
| "dput k v ((k', v') # d) = (if k = k' then (k, v) # d else (k', v') # dput k v d)"

lemma map_of_dput [simp]: "map_of (dput k v d) = (map_of d)(k \<mapsto> v)"
  by (induction d) (auto simp: fun_eq_iff)

lemma dput_keys: "fst ` set (dput k v d) = insert k (fst ` set d)"
  by (simp only: dom_map_of_conv_image_fst [symmetric] map_of_dput) simp

lemma dput_distinct: "distinct (map fst d) \<Longrightarrow> distinct (map fst (dput k v d))"
  by (induction d) (auto simp: dput_keys)

lemma dput_fresh: "k \<notin> fst ` set d \<Longrightarrow> dput k v d = d @ [(k, v)]"
  by (induction d) auto

subsection \<open>Validators as normalizations\<close>

text \<open>
  The contract modules validate a raw document by rewriting it to a closed normal form, and the
  rest of the code stores, digests and re-validates that form. The interface a validator promises
  to its clients: the normal form, written back as a document, is accepted and is a fixed point.
\<close>

locale normalizer =
  fixes norm :: "'raw \<Rightarrow> 'a res"
    and render :: "'a \<Rightarrow> 'raw"
  assumes again: "norm v = Inr a \<Longrightarrow> norm (render a) = Inr a"
begin

lemma render_inj:
  assumes "norm v = Inr a" and "norm w = Inr b" and "render a = render b"
  shows "a = b"
proof -
  from again [OF assms(1)] have "Inr a = norm (render b)" by (simp only: assms(3))
  also from assms(2) have "\<dots> = Inr b" by (rule again)
  finally show ?thesis by (rule sum.inject(2) [THEN iffD1])
qed

lemma digest_binds:
  assumes "inj digest" and "norm v = Inr a" and "norm w = Inr b"
    and "digest (render a) = digest (render b)"
  shows "a = b"
  using assms(2,3) injD [OF assms(1,4)] by (rule render_inj)

lemma stable: "norm v = Inr a \<Longrightarrow> bindE (norm v) (\<lambda>x. norm (render x)) = Inr a"
  by (simp add: again)

end

end
