(* ===== verification/Python_Value.thy ===== *)
theory Python_Value
  imports Prelude
begin

text \<open>
  The values the sources compute with: parsed JSON documents and the Python operations on them
  (truth value, \<^verbatim>\<open>str\<close>, \<^verbatim>\<open>repr\<close>, \<^verbatim>\<open>dict.get\<close>, \<^verbatim>\<open>str.strip\<close>, \<^verbatim>\<open>str.lower\<close>,
  \<^verbatim>\<open>str.removeprefix\<close>, \<^verbatim>\<open>str.split\<close>), and the regular expressions of the contracts as
  decision functions. A Python string is a list of code points below 256; a JSON number is an
  integer. A \<^verbatim>\<open>dict\<close> is the list of its items, read by key.
\<close>

subsection \<open>JSON values\<close>

datatype json =
    JNull
  | JBool bool
  | JInt int
  | JStr string
  | JList "json list"
  | JObj "(string \<times> json) list"

type_synonym obj = "(string \<times> json) list"

text \<open>\<^verbatim>\<open>value.get(key)\<close>, and \<^verbatim>\<open>value[key]\<close> where the code has checked that the key is present\<close>

definition jat :: "obj \<Rightarrow> string \<Rightarrow> json" where
  "jat d k = (case map_of d k of None \<Rightarrow> JNull | Some v \<Rightarrow> v)"

definition jkeys :: "obj \<Rightarrow> string list" where
  "jkeys d = map fst d"

fun truthy :: "json \<Rightarrow> bool" where
  "truthy JNull = False"
| "truthy (JBool b) = b"
| "truthy (JInt n) = (n \<noteq> 0)"
| "truthy (JStr s) = (s \<noteq> [])"
| "truthy (JList xs) = (xs \<noteq> [])"
| "truthy (JObj d) = (d \<noteq> [])"

text \<open>Values a Python \<^verbatim>\<open>set\<close> or \<^verbatim>\<open>dict\<close> key test accepts; the others raise \<^verbatim>\<open>TypeError\<close>\<close>

fun hashable :: "json \<Rightarrow> bool" where
  "hashable (JList _) = False"
| "hashable (JObj _) = False"
| "hashable _ = True"

text \<open>Comparison with an integer; for Python \<^verbatim>\<open>True\<close> is 1 and \<^verbatim>\<open>False\<close> is 0\<close>

definition equals_int :: "json \<Rightarrow> int \<Rightarrow> bool" where
  "equals_int v n = (case v of JInt m \<Rightarrow> m = n | JBool b \<Rightarrow> (if b then 1 else 0) = n | _ \<Rightarrow> False)"

definition opt_str :: "string option \<Rightarrow> json" where
  "opt_str x = (case x of None \<Rightarrow> JNull | Some s \<Rightarrow> JStr s)"

subsection \<open>Characters and strings\<close>

definition code :: "char \<Rightarrow> nat" where
  "code c = of_char c"

definition is_space :: "char \<Rightarrow> bool" where
  "is_space c = (let n = code c in
     (9 \<le> n \<and> n \<le> 13) \<or> (28 \<le> n \<and> n \<le> 32) \<or> n = 133 \<or> n = 160)"

definition is_digit :: "char \<Rightarrow> bool" where
  "is_digit c = (48 \<le> code c \<and> code c \<le> 57)"

definition is_lower :: "char \<Rightarrow> bool" where
  "is_lower c = (97 \<le> code c \<and> code c \<le> 122)"

definition is_upper :: "char \<Rightarrow> bool" where
  "is_upper c = (65 \<le> code c \<and> code c \<le> 90)"

definition is_alnum :: "char \<Rightarrow> bool" where
  "is_alnum c = (is_digit c \<or> is_lower c \<or> is_upper c)"

definition lower_char :: "char \<Rightarrow> char" where
  "lower_char c = (let n = code c in
     if is_upper c \<or> (192 \<le> n \<and> n \<le> 222 \<and> n \<noteq> 215) then char_of (n + 32) else c)"

definition lower :: "string \<Rightarrow> string" where
  "lower s = map lower_char s"

definition strip :: "string \<Rightarrow> string" where
  "strip s = rev (dropWhile is_space (rev (dropWhile is_space s)))"

definition starts_with :: "string \<Rightarrow> string \<Rightarrow> bool" where
  "starts_with s p = (take (length p) s = p)"

definition ends_with :: "string \<Rightarrow> string \<Rightarrow> bool" where
  "ends_with s p = (length p \<le> length s \<and> drop (length s - length p) s = p)"

definition removeprefix :: "string \<Rightarrow> string \<Rightarrow> string" where
  "removeprefix p s = (if starts_with s p then drop (length p) s else s)"

text \<open>\<^verbatim>\<open>s.split(c)\<close> for a one-character separator: never empty\<close>

fun split_on :: "char \<Rightarrow> string \<Rightarrow> string list" where
  "split_on c [] = [[]]"
| "split_on c (x # xs) =
     (if x = c then [] # split_on c xs
      else (case split_on c xs of [] \<Rightarrow> [[x]] | w # ws \<Rightarrow> (x # w) # ws))"

fun join :: "string \<Rightarrow> string list \<Rightarrow> string" where
  "join sep [] = []"
| "join sep [w] = w"
| "join sep (w # v # ws) = w @ sep @ join sep (v # ws)"

subsection \<open>\<^verbatim>\<open>str\<close> and \<^verbatim>\<open>repr\<close>\<close>

definition digit_char :: "nat \<Rightarrow> char" where
  "digit_char n = ''0123456789abcdef'' ! n"

fun show_nat :: "nat \<Rightarrow> string" where
  "show_nat n = (if n < 10 then [digit_char n] else show_nat (n div 10) @ [digit_char (n mod 10)])"

declare show_nat.simps [simp del]

definition show_int :: "int \<Rightarrow> string" where
  "show_int n = (if n < 0 then CHR ''-'' # show_nat (nat (- n)) else show_nat (nat n))"

definition is_printable :: "char \<Rightarrow> bool" where
  "is_printable c = (let n = code c in (32 \<le> n \<and> n \<le> 126) \<or> (161 \<le> n \<and> n \<noteq> 173))"

definition repr_char :: "char \<Rightarrow> char \<Rightarrow> string" where
  "repr_char q c =
     (if c = q \<or> c = CHR 0x5C then [CHR 0x5C, c]
      else if c = CHR 0x0A then [CHR 0x5C, CHR ''n'']
      else if c = CHR 0x0D then [CHR 0x5C, CHR ''r'']
      else if c = CHR 0x09 then [CHR 0x5C, CHR ''t'']
      else if is_printable c then [c]
      else [CHR 0x5C, CHR ''x'', digit_char (code c div 16), digit_char (code c mod 16)])"

definition repr_str :: "string \<Rightarrow> string" where
  "repr_str s =
     (let q = (if CHR 0x27 \<in> set s \<and> CHR 0x22 \<notin> set s then CHR 0x22 else CHR 0x27)
      in [q] @ concat (map (repr_char q) s) @ [q])"

fun py_repr :: "json \<Rightarrow> string" where
  "py_repr JNull = ''None''"
| "py_repr (JBool b) = (if b then ''True'' else ''False'')"
| "py_repr (JInt n) = show_int n"
| "py_repr (JStr s) = repr_str s"
| "py_repr (JList xs) = ''['' @ join '', '' (map py_repr xs) @ '']''"
| "py_repr (JObj d) = ''{'' @ join '', '' (map (\<lambda>(k, v). repr_str k @ '': '' @ py_repr v) d) @ ''}''"

definition py_str :: "json \<Rightarrow> string" where
  "py_str v = (case v of JStr s \<Rightarrow> s | _ \<Rightarrow> py_repr v)"

text \<open>\<^verbatim>\<open>str(value or "")\<close>\<close>

definition str_or_empty :: "json \<Rightarrow> string" where
  "str_or_empty v = (if truthy v then py_str v else [])"

lemma py_str_JStr [simp]: "py_str (JStr s) = s"
  by (simp add: py_str_def)

lemma str_or_empty_JStr [simp]: "str_or_empty (JStr s) = s"
  by (simp add: str_or_empty_def)

lemma str_or_empty_JNull [simp]: "str_or_empty JNull = []"
  by (simp add: str_or_empty_def)

subsection \<open>The regular expressions of the contracts\<close>

definition ident_char :: "char \<Rightarrow> bool" where
  "ident_char c = (is_alnum c \<or> c \<in> set ''._:-'')"

text \<open>\<^verbatim>\<open>^[A-Za-z0-9][A-Za-z0-9._:-]{0,127}$\<close> matched against the whole string\<close>

definition is_identifier :: "string \<Rightarrow> bool" where
  "is_identifier s =
     (case s of [] \<Rightarrow> False
      | c # cs \<Rightarrow> is_alnum c \<and> length cs \<le> 127 \<and> list_all ident_char cs)"

definition is_cap_segment :: "string \<Rightarrow> bool" where
  "is_cap_segment s =
     (case s of [] \<Rightarrow> False
      | c # cs \<Rightarrow> is_lower c \<and> list_all (\<lambda>x. is_lower x \<or> is_digit x \<or> x \<in> set ''_-'') cs)"

text \<open>\<^verbatim>\<open>^[a-z][a-z0-9_-]*(?:\.[a-z][a-z0-9_-]*)+$\<close>\<close>

definition is_capability :: "string \<Rightarrow> bool" where
  "is_capability s = (let ws = split_on (CHR ''.'') s in 2 \<le> length ws \<and> list_all is_cap_segment ws)"

definition is_hex :: "char \<Rightarrow> bool" where
  "is_hex c = (is_digit c \<or> (97 \<le> code c \<and> code c \<le> 102))"

text \<open>\<^verbatim>\<open>^[0-9a-f]{64}$\<close>\<close>

definition is_sha :: "string \<Rightarrow> bool" where
  "is_sha s = (length s = 64 \<and> list_all is_hex s)"

subsection \<open>Facts about strings and lookups\<close>

lemma jat_Cons [simp]: "jat ((k, v) # d) k' = (if k' = k then v else jat d k')"
  by (simp add: jat_def)

lemma jat_Nil [simp]: "jat [] k = JNull"
  by (simp add: jat_def)

lemma show_nat_hd: "hd (show_nat n) \<in> set ''0123456789'' \<and> show_nat n \<noteq> []"
proof (induction n rule: show_nat.induct)
  case (1 n)
  show ?case
  proof (cases "n < 10")
    case True
    then have "n \<in> {0,1,2,3,4,5,6,7,8,9}" by auto
    with True show ?thesis by (auto simp: show_nat.simps [of n] digit_char_def)
  next
    case False
    with 1 show ?thesis by (auto simp: show_nat.simps [of n])
  qed
qed

lemma py_repr_hd:
  "\<not> (\<exists>s. v = JStr s) \<Longrightarrow> py_repr v \<noteq> [] \<and> hd (py_repr v) \<in> set ''NTF-0123456789[{''"
  using show_nat_hd by (cases v) (auto simp: show_int_def)

lemma str_or_empty_eq_JStr:
  "str_or_empty v = s \<Longrightarrow> s \<noteq> [] \<Longrightarrow> hd s \<notin> set ''NTF-0123456789[{'' \<Longrightarrow> v = JStr s"
  using py_repr_hd [of v] by (cases v) (auto simp: str_or_empty_def py_str_def split: if_splits)

lemma code_not_space: "is_alnum c \<Longrightarrow> \<not> is_space c"
  by (auto simp: is_alnum_def is_digit_def is_lower_def is_upper_def is_space_def Let_def)

lemma ident_char_not_space: "ident_char c \<Longrightarrow> \<not> is_space c"
proof -
  assume "ident_char c"
  then have "is_alnum c \<or> c \<in> set ''._:-''" by (simp only: ident_char_def)
  then show ?thesis
  proof
    assume "is_alnum c"
    then show ?thesis by (rule code_not_space)
  next
    assume "c \<in> set ''._:-''"
    then show ?thesis by (auto simp: is_space_def code_def)
  qed
qed

lemma dropWhile_id: "(\<And>x. x \<in> set xs \<Longrightarrow> \<not> P x) \<Longrightarrow> dropWhile P xs = xs"
  by (cases xs) auto

lemma strip_no_space: "list_all (\<lambda>c. \<not> is_space c) s \<Longrightarrow> strip s = s"
  unfolding strip_def list_all_iff
  by (subst dropWhile_id [of s], blast) (subst dropWhile_id [of "rev s"], auto)

lemma strip_strip [simp]: "strip (strip s) = strip s"
proof -
  let ?t = "dropWhile is_space s"
  let ?u = "dropWhile is_space (rev ?t)"
  have "dropWhile is_space (rev ?u) = rev ?u"
  proof (cases "?u = []")
    case True
    show ?thesis unfolding True by simp
  next
    case False
    then obtain pre where "rev ?t = pre @ ?u" by (metis takeWhile_dropWhile_id)
    then have t: "?t = rev ?u @ rev pre" by (metis rev_append rev_rev_ident)
    have hd_pre: "xs = rev ys @ zs \<Longrightarrow> ys \<noteq> [] \<Longrightarrow> hd xs = hd (rev ys)" for xs ys zs :: string
      by simp
    from t False have "hd ?t = hd (rev ?u)" by (rule hd_pre)
    moreover from False have "?t \<noteq> []" by (metis dropWhile.simps(1) rev.simps(1))
    then have "\<not> is_space (hd ?t)" by (rule hd_dropWhile)
    ultimately show ?thesis using False by (metis dropWhile_eq_self_iff)
  qed
  then have "strip (strip s) = rev (dropWhile is_space ?u)" by (simp add: strip_def)
  also have "\<dots> = strip s" by (simp add: strip_def)
  finally show ?thesis .
qed

lemma strip_identifier: "is_identifier s \<Longrightarrow> strip s = s"
  by (rule strip_no_space)
     (auto simp: is_identifier_def list_all_iff code_not_space ident_char_not_space split: list.splits)

lemma lower_sha: "is_sha s \<Longrightarrow> lower s = s"
proof -
  have "is_hex c \<Longrightarrow> lower_char c = c" for c
    by (auto simp: is_hex_def lower_char_def is_digit_def is_upper_def Let_def)
  then show "is_sha s \<Longrightarrow> lower s = s"
    by (auto simp: lower_def is_sha_def list_all_iff intro: map_idI)
qed

lemma removeprefix_sha: "is_sha s \<Longrightarrow> removeprefix ''sha256:'' s = s"
proof -
  assume s: "is_sha s"
  then obtain c cs where cs: "s = c # cs" "is_hex c" by (cases s) (auto simp: is_sha_def)
  then have "c \<noteq> CHR ''s''" by (auto simp: is_hex_def is_digit_def code_def)
  with cs show ?thesis by (simp add: removeprefix_def starts_with_def)
qed

end
