(* ===== verification/Request_Contract.thy ===== *)
theory Request_Contract
  imports Python_Value
begin

text \<open>
  The closed authority-request contract of
  \<^verbatim>\<open>manage-agent-authority/scripts/manage_agent_authority/contracts.py\<close>: its enumerations, the field
  validators every other contract shares (\<^verbatim>\<open>_closed\<close>, \<^verbatim>\<open>_required\<close>, \<^verbatim>\<open>_enum\<close>,
  \<^verbatim>\<open>_identifier\<close>, \<^verbatim>\<open>_sha\<close>, \<^verbatim>\<open>_capabilities\<close>, \<^verbatim>\<open>_binding\<close>), the subject validator and
  \<^verbatim>\<open>validate_request\<close>, which turns a raw JSON object into a normalized request record. The record
  is the closed dictionary the code returns; \<open>request_json\<close> writes that dictionary back as JSON.
\<close>

subsection \<open>Enumerations\<close>

datatype source_rank = S0 | S1 | S2 | S3 | S4
datatype risk_tier = R0 | R1 | R2 | R3
datatype decision_class = D0 | D1 | D2 | D3
datatype cardinality =
  Single_use | Bounded_reusable | Task_lease | Improvement_lease | Standing_policy
datatype intent_type =
  Grant_authority | Ratify_goal_truth | Accept_risk_or_cost | Supply_external_input
  | Select_design_option
datatype mutation_class = Observe | Local_mutation | External_mutation | Destructive
datatype reversibility = Reversible | Conditionally_reversible | Irreversible
datatype external_input =
  Ext_not_required | Ext_available | Ext_missing_supplyable | Ext_missing_unsupplyable
  | Ext_unverified
datatype goal_truth = Aligned | Blocked | Gt_unverified
datatype separate_decision = Not_required | Resolved | Unresolved | Sd_unverified

definition SOURCE_RANKS :: "(string \<times> source_rank) list" where
  "SOURCE_RANKS = [(''S0'', S0), (''S1'', S1), (''S2'', S2), (''S3'', S3), (''S4'', S4)]"

definition RISK_TIERS :: "(string \<times> risk_tier) list" where
  "RISK_TIERS = [(''R0'', R0), (''R1'', R1), (''R2'', R2), (''R3'', R3)]"

definition DECISION_CLASSES :: "(string \<times> decision_class) list" where
  "DECISION_CLASSES = [(''D0'', D0), (''D1'', D1), (''D2'', D2), (''D3'', D3)]"

definition CARDINALITIES :: "(string \<times> cardinality) list" where
  "CARDINALITIES = [(''single_use'', Single_use), (''bounded_reusable'', Bounded_reusable),
     (''task_lease'', Task_lease), (''improvement_lease'', Improvement_lease),
     (''standing_policy'', Standing_policy)]"

definition INTENT_TYPES :: "(string \<times> intent_type) list" where
  "INTENT_TYPES = [(''grant_authority'', Grant_authority), (''ratify_goal_truth'', Ratify_goal_truth),
     (''accept_risk_or_cost'', Accept_risk_or_cost),
     (''supply_external_input'', Supply_external_input),
     (''select_design_option'', Select_design_option)]"

definition MUTATION_CLASSES :: "(string \<times> mutation_class) list" where
  "MUTATION_CLASSES = [(''observe'', Observe), (''local_mutation'', Local_mutation),
     (''external_mutation'', External_mutation), (''destructive'', Destructive)]"

definition REVERSIBILITY :: "(string \<times> reversibility) list" where
  "REVERSIBILITY = [(''reversible'', Reversible),
     (''conditionally_reversible'', Conditionally_reversible), (''irreversible'', Irreversible)]"

definition EXTERNAL_INPUT :: "(string \<times> external_input) list" where
  "EXTERNAL_INPUT = [(''not_required'', Ext_not_required), (''available'', Ext_available),
     (''missing_supplyable'', Ext_missing_supplyable),
     (''missing_unsupplyable'', Ext_missing_unsupplyable), (''unverified'', Ext_unverified)]"

definition GOAL_TRUTH :: "(string \<times> goal_truth) list" where
  "GOAL_TRUTH = [(''aligned'', Aligned), (''blocked'', Blocked), (''unverified'', Gt_unverified)]"

definition SEPARATE_DECISION_STATUS :: "(string \<times> separate_decision) list" where
  "SEPARATE_DECISION_STATUS = [(''not_required'', Not_required), (''resolved'', Resolved),
     (''unresolved'', Unresolved), (''unverified'', Sd_unverified)]"

text \<open>The name under which a member is written back to JSON\<close>

definition enum_name :: "(string \<times> 'a) list \<Rightarrow> 'a \<Rightarrow> string" where
  "enum_name t x = (case filter (\<lambda>p. snd p = x) t of [] \<Rightarrow> [] | p # _ \<Rightarrow> fst p)"

lemmas enum_tables =
  SOURCE_RANKS_def RISK_TIERS_def DECISION_CLASSES_def CARDINALITIES_def INTENT_TYPES_def
  MUTATION_CLASSES_def REVERSIBILITY_def EXTERNAL_INPUT_def GOAL_TRUTH_def
  SEPARATE_DECISION_STATUS_def

fun rank_value :: "source_rank \<Rightarrow> nat" where
  "rank_value S0 = 0"
| "rank_value S1 = 1"
| "rank_value S2 = 2"
| "rank_value S3 = 3"
| "rank_value S4 = 4"

fun risk_value :: "risk_tier \<Rightarrow> nat" where
  "risk_value R0 = 0"
| "risk_value R1 = 1"
| "risk_value R2 = 2"
| "risk_value R3 = 3"

text \<open>Whether a grant of one cardinality serves a request of another\<close>

fun cardinality_covers :: "cardinality \<Rightarrow> cardinality \<Rightarrow> bool" where
  "cardinality_covers g Single_use = True"
| "cardinality_covers g Bounded_reusable = (g \<in> {Bounded_reusable, Standing_policy})"
| "cardinality_covers g Task_lease = (g \<in> {Task_lease, Standing_policy})"
| "cardinality_covers g Improvement_lease = (g \<in> {Improvement_lease, Standing_policy})"
| "cardinality_covers g Standing_policy = (g = Standing_policy)"

subsection \<open>Field validators\<close>

definition closed_keys :: "obj \<Rightarrow> string list \<Rightarrow> unit res" where
  "closed_keys d allowed =
     (if list_all (\<lambda>k. k \<in> set allowed) (jkeys d) then Inr () else fail UnknownFields)"

definition required_keys :: "obj \<Rightarrow> string list \<Rightarrow> unit res" where
  "required_keys d fields =
     (if list_all (\<lambda>f. f \<in> set (jkeys d)) fields then Inr () else fail MissingFields)"

definition enum_field :: "json \<Rightarrow> (string \<times> 'a) list \<Rightarrow> 'a res" where
  "enum_field v table =
     (case map_of table (str_or_empty v) of None \<Rightarrow> fail BadEnum | Some x \<Rightarrow> Inr x)"

definition identifier_field :: "json \<Rightarrow> string res" where
  "identifier_field v =
     (let s = strip (str_or_empty v) in if is_identifier s then Inr s else fail BadIdentifier)"

definition nullable_identifier :: "json \<Rightarrow> string option res" where
  "nullable_identifier v =
     (if v = JNull then Inr None else bindE (identifier_field v) (\<lambda>s. Inr (Some s)))"

definition sha_field :: "json \<Rightarrow> string res" where
  "sha_field v =
     (let s = lower (removeprefix ''sha256:'' (str_or_empty v))
      in if is_sha s then Inr s else fail BadSha)"

definition capabilities_field :: "json \<Rightarrow> string list res" where
  "capabilities_field v =
     (case v of
        JList xs \<Rightarrow>
          if xs = [] then fail BadList
          else (let normalized = sort_uniq (map py_str xs)
                in if length normalized \<noteq> length xs \<or> \<not> list_all is_capability normalized
                   then fail BadList else Inr normalized)
      | _ \<Rightarrow> fail BadList)"

definition path_like_unsafe :: "string \<Rightarrow> bool" where
  "path_like_unsafe s =
     (starts_with s ''/'' \<or> CHR ''*'' \<in> set s \<or> ''..'' \<in> set (split_on (CHR ''/'') s))"

record binding =
  b_ref :: string
  b_sha256 :: string

definition BINDING_KEYS :: "string list" where
  "BINDING_KEYS = [''ref'', ''sha256'']"

definition binding_field :: "json \<Rightarrow> binding res" where
  "binding_field v =
     (case v of
        JObj d \<Rightarrow>
          bindE (closed_keys d BINDING_KEYS) (\<lambda>_.
          bindE (required_keys d BINDING_KEYS) (\<lambda>_.
          let ref = strip (str_or_empty (jat d ''ref'')) in
          if ref = [] \<or> path_like_unsafe ref then fail BadBinding
          else bindE (sha_field (jat d ''sha256'')) (\<lambda>sha.
            Inr \<lparr>b_ref = ref, b_sha256 = sha\<rparr>)))
      | _ \<Rightarrow> fail NotAnObject)"

definition binding_json :: "binding \<Rightarrow> json" where
  "binding_json b = JObj [(''ref'', JStr (b_ref b)), (''sha256'', JStr (b_sha256 b))]"

definition opt_binding_json :: "binding option \<Rightarrow> json" where
  "opt_binding_json b = (case b of None \<Rightarrow> JNull | Some x \<Rightarrow> binding_json x)"

subsection \<open>Subjects\<close>

record subject =
  sub_kind :: string
  sub_ref :: string
  sub_digest :: string
  sub_revision :: string

definition SUBJECT_KEYS :: "string list" where
  "SUBJECT_KEYS = [''kind'', ''ref'', ''digest'', ''revision'']"

definition validate_subject :: "json \<Rightarrow> subject res" where
  "validate_subject v =
     (case v of
        JObj d \<Rightarrow>
          bindE (closed_keys d SUBJECT_KEYS) (\<lambda>_.
          bindE (required_keys d SUBJECT_KEYS) (\<lambda>_.
          bindE (identifier_field (jat d ''kind'')) (\<lambda>kind.
          let ref = strip (str_or_empty (jat d ''ref''));
              revision = strip (str_or_empty (jat d ''revision'')) in
          if ref = [] \<or> 512 < length ref \<or> CHR ''*'' \<in> set ref then fail BadText
          else if revision = [] \<or> 256 < length revision \<or> CHR ''*'' \<in> set revision
          then fail BadText
          else bindE (sha_field (jat d ''digest'')) (\<lambda>digest.
            Inr \<lparr>sub_kind = kind, sub_ref = ref, sub_digest = digest,
                 sub_revision = revision\<rparr>))))
      | _ \<Rightarrow> fail NotAnObject)"

definition subject_json :: "subject \<Rightarrow> json" where
  "subject_json s = JObj [(''kind'', JStr (sub_kind s)), (''ref'', JStr (sub_ref s)),
     (''digest'', JStr (sub_digest s)), (''revision'', JStr (sub_revision s))]"

subsection \<open>Requests\<close>

record request_context =
  rc_external_input_status :: external_input
  rc_goal_truth_status :: goal_truth
  rc_risk_acceptance_status :: separate_decision
  rc_design_selection_status :: separate_decision
  rc_external_input_evidence :: "binding option"
  rc_risk_acceptance_evidence :: "binding option"
  rc_design_selection_evidence :: "binding option"

record request =
  rq_request_id :: string
  rq_skill_id :: string
  rq_skill_version :: string
  rq_operation_id :: string
  rq_operation_version :: string
  rq_cycle_id :: "string option"
  rq_task_id :: "string option"
  rq_pack_id :: "string option"
  rq_attempt_id :: "string option"
  rq_actor_rank :: source_rank
  rq_subject :: subject
  rq_required_capabilities :: "string list"
  rq_effect_class :: string
  rq_data_class :: string
  rq_mutation_class :: mutation_class
  rq_reversibility :: reversibility
  rq_risk_tier :: risk_tier
  rq_decision_class :: decision_class
  rq_intent_type :: intent_type
  rq_cardinality_requested :: cardinality
  rq_use_budget_requested :: int
  rq_reservation_units :: "int option"
  rq_idempotency_key :: string
  rq_context :: request_context
  rq_composition_receipt :: "binding option"

definition REQUIRED_REQUEST_KEYS :: "string list" where
  "REQUIRED_REQUEST_KEYS =
    [''schema_version'', ''request_kind'', ''request_id'', ''skill_id'', ''skill_version'',
     ''operation_id'', ''operation_version'', ''cycle_id'', ''task_id'', ''pack_id'',
     ''attempt_id'', ''actor_rank'', ''subject'', ''required_capabilities'', ''effect_class'',
     ''data_class'', ''mutation_class'', ''reversibility'', ''risk_tier'', ''decision_class'',
     ''intent_type'', ''cardinality_requested'', ''use_budget_requested'',
     ''idempotency_key'', ''context'', ''composition_receipt'']"

definition REQUEST_KEYS :: "string list" where
  "REQUEST_KEYS = ''reservation_units'' # REQUIRED_REQUEST_KEYS"

definition CONTEXT_KEYS :: "string list" where
  "CONTEXT_KEYS =
    [''external_input_status'', ''goal_truth_status'', ''risk_acceptance_status'',
     ''design_selection_status'', ''external_input_evidence'', ''risk_acceptance_evidence'',
     ''design_selection_evidence'']"

text \<open>Dispatch units: the explicit field, or the whole budget for requests written before it\<close>

definition reservation_units :: "request \<Rightarrow> int" where
  "reservation_units r =
     (case rq_reservation_units r of None \<Rightarrow> rq_use_budget_requested r | Some u \<Rightarrow> u)"

definition positive_int_field :: "json \<Rightarrow> int res" where
  "positive_int_field v =
     (case v of JInt n \<Rightarrow> (if n < 1 then fail BadInteger else Inr n) | _ \<Rightarrow> fail BadInteger)"

text \<open>The budget, the optional unit count and the units in force\<close>

definition request_budget :: "obj \<Rightarrow> (int \<times> int option \<times> int) res" where
  "request_budget d =
     bindE (positive_int_field (jat d ''use_budget_requested'')) (\<lambda>budget.
     bindE (if jat d ''reservation_units'' = JNull then Inr None
            else bindE (positive_int_field (jat d ''reservation_units'')) (\<lambda>n. Inr (Some n)))
       (\<lambda>raw_units.
     let units = (case raw_units of None \<Rightarrow> budget | Some n \<Rightarrow> n) in
     if budget < units then fail BadInteger else Inr (budget, raw_units, units)))"

definition composition_field :: "json \<Rightarrow> binding option res" where
  "composition_field v =
     (if v = JNull then Inr None
      else case v of
        JObj d \<Rightarrow>
          bindE (closed_keys d BINDING_KEYS) (\<lambda>_.
          bindE (required_keys d BINDING_KEYS) (\<lambda>_.
          bindE (sha_field (jat d ''sha256'')) (\<lambda>sha.
            Inr (Some \<lparr>b_ref = py_str (jat d ''ref''), b_sha256 = sha\<rparr>))))
      | _ \<Rightarrow> fail NotAnObject)"

text \<open>One entry of the evidence loop: evidence is bound exactly when the status rests on it\<close>

definition evidence_field :: "bool \<Rightarrow> json \<Rightarrow> binding option res" where
  "evidence_field required candidate =
     (if required \<and> candidate = JNull then fail BadEvidence
      else if \<not> required \<and> candidate \<noteq> JNull then fail BadEvidence
      else if candidate = JNull then Inr None
      else bindE (binding_field candidate) (\<lambda>b. Inr (Some b)))"

definition request_evidence ::
  "obj \<Rightarrow> (binding option \<times> binding option \<times> binding option) res" where
  "request_evidence c =
     (if \<not> hashable (jat c ''external_input_status'') then Inl TypeError
      else
        bindE (evidence_field
                 (jat c ''external_input_status'' \<in>
                    {JStr ''available'', JStr ''missing_supplyable'', JStr ''missing_unsupplyable''})
                 (jat c ''external_input_evidence'')) (\<lambda>e1.
        bindE (evidence_field (jat c ''risk_acceptance_status'' = JStr ''resolved'')
                 (jat c ''risk_acceptance_evidence'')) (\<lambda>e2.
        bindE (evidence_field (jat c ''design_selection_status'' = JStr ''resolved'')
                 (jat c ''design_selection_evidence'')) (\<lambda>e3.
        Inr (e1, e2, e3)))))"

definition request_cardinality ::
  "cardinality \<Rightarrow> int \<Rightarrow> int \<Rightarrow> string option \<Rightarrow> string option \<Rightarrow> unit res" where
  "request_cardinality crd budget units task_id pack_id =
     (if crd = Single_use \<and> budget \<noteq> 1 then fail BadCardinality
      else if crd = Single_use \<and> units \<noteq> 1 then fail BadCardinality
      else if crd = Task_lease \<and> task_id = None then fail BadCardinality
      else if crd = Improvement_lease \<and> pack_id = None then fail BadCardinality
      else Inr ())"

definition request_statuses ::
  "obj \<Rightarrow> binding option \<times> binding option \<times> binding option \<Rightarrow> request_context res" where
  "request_statuses c ev =
     bindE (enum_field (jat c ''external_input_status'') EXTERNAL_INPUT) (\<lambda>ext.
     bindE (enum_field (jat c ''goal_truth_status'') GOAL_TRUTH) (\<lambda>gt.
     bindE (enum_field (jat c ''risk_acceptance_status'') SEPARATE_DECISION_STATUS) (\<lambda>risk.
     bindE (enum_field (jat c ''design_selection_status'') SEPARATE_DECISION_STATUS) (\<lambda>design.
     Inr \<lparr>rc_external_input_status = ext, rc_goal_truth_status = gt,
          rc_risk_acceptance_status = risk, rc_design_selection_status = design,
          rc_external_input_evidence = fst ev, rc_risk_acceptance_evidence = fst (snd ev),
          rc_design_selection_evidence = snd (snd ev)\<rparr>))))"

definition validate_request :: "obj \<Rightarrow> request res" where
  "validate_request d =
     bindE (closed_keys d REQUEST_KEYS) (\<lambda>_.
     bindE (required_keys d REQUIRED_REQUEST_KEYS) (\<lambda>_.
     if jat d ''schema_version'' \<noteq> JInt 2 \<or> jat d ''request_kind'' \<noteq> JStr ''authority_operation''
     then fail BadContract
     else case jat d ''context'' of
       JObj c \<Rightarrow>
         bindE (closed_keys c CONTEXT_KEYS) (\<lambda>_.
         bindE (required_keys c CONTEXT_KEYS) (\<lambda>_.
         bindE (request_budget d) (\<lambda>(budget, raw_units, units).
         bindE (enum_field (jat d ''cardinality_requested'') CARDINALITIES) (\<lambda>crd.
         bindE (nullable_identifier (jat d ''task_id'')) (\<lambda>task_id.
         bindE (nullable_identifier (jat d ''pack_id'')) (\<lambda>pack_id.
         bindE (request_cardinality crd budget units task_id pack_id) (\<lambda>_.
         bindE (composition_field (jat d ''composition_receipt'')) (\<lambda>composition.
         bindE (request_evidence c) (\<lambda>evidence.
         bindE (identifier_field (jat d ''request_id'')) (\<lambda>request_id.
         bindE (identifier_field (jat d ''skill_id'')) (\<lambda>skill_id.
         bindE (identifier_field (jat d ''skill_version'')) (\<lambda>skill_version.
         bindE (identifier_field (jat d ''operation_id'')) (\<lambda>operation_id.
         bindE (identifier_field (jat d ''operation_version'')) (\<lambda>operation_version.
         bindE (nullable_identifier (jat d ''cycle_id'')) (\<lambda>cycle_id.
         bindE (nullable_identifier (jat d ''attempt_id'')) (\<lambda>attempt_id.
         bindE (enum_field (jat d ''actor_rank'') SOURCE_RANKS) (\<lambda>actor_rank.
         bindE (validate_subject (jat d ''subject'')) (\<lambda>subject.
         bindE (capabilities_field (jat d ''required_capabilities'')) (\<lambda>capabilities.
         bindE (identifier_field (jat d ''effect_class'')) (\<lambda>effect_class.
         bindE (identifier_field (jat d ''data_class'')) (\<lambda>data_class.
         bindE (enum_field (jat d ''mutation_class'') MUTATION_CLASSES) (\<lambda>mutation.
         bindE (enum_field (jat d ''reversibility'') REVERSIBILITY) (\<lambda>reversibility.
         bindE (enum_field (jat d ''risk_tier'') RISK_TIERS) (\<lambda>risk_tier.
         bindE (enum_field (jat d ''decision_class'') DECISION_CLASSES) (\<lambda>decision_class.
         bindE (enum_field (jat d ''intent_type'') INTENT_TYPES) (\<lambda>intent_type.
         bindE (identifier_field (jat d ''idempotency_key'')) (\<lambda>idempotency_key.
         bindE (request_statuses c evidence) (\<lambda>context.
         Inr \<lparr>rq_request_id = request_id, rq_skill_id = skill_id,
              rq_skill_version = skill_version, rq_operation_id = operation_id,
              rq_operation_version = operation_version, rq_cycle_id = cycle_id,
              rq_task_id = task_id, rq_pack_id = pack_id, rq_attempt_id = attempt_id,
              rq_actor_rank = actor_rank, rq_subject = subject,
              rq_required_capabilities = capabilities, rq_effect_class = effect_class,
              rq_data_class = data_class, rq_mutation_class = mutation,
              rq_reversibility = reversibility, rq_risk_tier = risk_tier,
              rq_decision_class = decision_class, rq_intent_type = intent_type,
              rq_cardinality_requested = crd, rq_use_budget_requested = budget,
              rq_reservation_units = raw_units, rq_idempotency_key = idempotency_key,
              rq_context = context, rq_composition_receipt = composition\<rparr>))))))))))))))))))))))))))))
     | _ \<Rightarrow> fail NotAnObject))"

definition context_json :: "request_context \<Rightarrow> obj" where
  "context_json c =
    [(''external_input_status'', JStr (enum_name EXTERNAL_INPUT (rc_external_input_status c))),
     (''goal_truth_status'', JStr (enum_name GOAL_TRUTH (rc_goal_truth_status c))),
     (''risk_acceptance_status'',
        JStr (enum_name SEPARATE_DECISION_STATUS (rc_risk_acceptance_status c))),
     (''design_selection_status'',
        JStr (enum_name SEPARATE_DECISION_STATUS (rc_design_selection_status c))),
     (''external_input_evidence'', opt_binding_json (rc_external_input_evidence c)),
     (''risk_acceptance_evidence'', opt_binding_json (rc_risk_acceptance_evidence c)),
     (''design_selection_evidence'', opt_binding_json (rc_design_selection_evidence c))]"

text \<open>The normalized dictionary the validator returns, as JSON\<close>

definition request_json :: "request \<Rightarrow> obj" where
  "request_json r =
    [(''schema_version'', JInt 2), (''request_kind'', JStr ''authority_operation''),
     (''request_id'', JStr (rq_request_id r)), (''skill_id'', JStr (rq_skill_id r)),
     (''skill_version'', JStr (rq_skill_version r)),
     (''operation_id'', JStr (rq_operation_id r)),
     (''operation_version'', JStr (rq_operation_version r)),
     (''cycle_id'', opt_str (rq_cycle_id r)), (''task_id'', opt_str (rq_task_id r)),
     (''pack_id'', opt_str (rq_pack_id r)), (''attempt_id'', opt_str (rq_attempt_id r)),
     (''actor_rank'', JStr (enum_name SOURCE_RANKS (rq_actor_rank r))),
     (''subject'', subject_json (rq_subject r)),
     (''required_capabilities'', JList (map JStr (rq_required_capabilities r))),
     (''effect_class'', JStr (rq_effect_class r)), (''data_class'', JStr (rq_data_class r)),
     (''mutation_class'', JStr (enum_name MUTATION_CLASSES (rq_mutation_class r))),
     (''reversibility'', JStr (enum_name REVERSIBILITY (rq_reversibility r))),
     (''risk_tier'', JStr (enum_name RISK_TIERS (rq_risk_tier r))),
     (''decision_class'', JStr (enum_name DECISION_CLASSES (rq_decision_class r))),
     (''intent_type'', JStr (enum_name INTENT_TYPES (rq_intent_type r))),
     (''cardinality_requested'', JStr (enum_name CARDINALITIES (rq_cardinality_requested r))),
     (''use_budget_requested'', JInt (rq_use_budget_requested r)),
     (''idempotency_key'', JStr (rq_idempotency_key r)),
     (''context'', JObj (context_json (rq_context r))),
     (''composition_receipt'', opt_binding_json (rq_composition_receipt r))]
    @ (case rq_reservation_units r of None \<Rightarrow> [] | Some u \<Rightarrow> [(''reservation_units'', JInt u)])"

subsection \<open>Validation is a normalization\<close>

text \<open>
  Each field validator maps the value it accepts to a normal form that it accepts unchanged. The
  lemmas compose to the request: a stored normalized request validates again to itself, which
  \<^verbatim>\<open>evaluate\<close>, \<^verbatim>\<open>reserve\<close> and \<^verbatim>\<open>validate_decision_artifact\<close> rely on.
\<close>

lemma enum_field_name [simp]:
  "enum_field (JStr (enum_name SOURCE_RANKS r)) SOURCE_RANKS = Inr r"
  "enum_field (JStr (enum_name RISK_TIERS rt)) RISK_TIERS = Inr rt"
  "enum_field (JStr (enum_name DECISION_CLASSES dc)) DECISION_CLASSES = Inr dc"
  "enum_field (JStr (enum_name CARDINALITIES cd)) CARDINALITIES = Inr cd"
  "enum_field (JStr (enum_name INTENT_TYPES it)) INTENT_TYPES = Inr it"
  "enum_field (JStr (enum_name MUTATION_CLASSES mc)) MUTATION_CLASSES = Inr mc"
  "enum_field (JStr (enum_name REVERSIBILITY rv)) REVERSIBILITY = Inr rv"
  "enum_field (JStr (enum_name EXTERNAL_INPUT ei)) EXTERNAL_INPUT = Inr ei"
  "enum_field (JStr (enum_name GOAL_TRUTH gt)) GOAL_TRUTH = Inr gt"
  "enum_field (JStr (enum_name SEPARATE_DECISION_STATUS sd)) SEPARATE_DECISION_STATUS = Inr sd"
  subgoal by (cases r) (simp_all add: enum_field_def enum_name_def enum_tables)
  subgoal by (cases rt) (simp_all add: enum_field_def enum_name_def enum_tables)
  subgoal by (cases dc) (simp_all add: enum_field_def enum_name_def enum_tables)
  subgoal by (cases cd) (simp_all add: enum_field_def enum_name_def enum_tables)
  subgoal by (cases it) (simp_all add: enum_field_def enum_name_def enum_tables)
  subgoal by (cases mc) (simp_all add: enum_field_def enum_name_def enum_tables)
  subgoal by (cases rv) (simp_all add: enum_field_def enum_name_def enum_tables)
  subgoal by (cases ei) (simp_all add: enum_field_def enum_name_def enum_tables)
  subgoal by (cases gt) (simp_all add: enum_field_def enum_name_def enum_tables)
  subgoal by (cases sd) (simp_all add: enum_field_def enum_name_def enum_tables)
  done

lemma identifier_field_again: "identifier_field v = Inr s \<Longrightarrow> identifier_field (JStr s) = Inr s"
  by (auto simp: identifier_field_def Let_def strip_identifier split: if_splits)

lemma nullable_identifier_again:
  "nullable_identifier v = Inr x \<Longrightarrow> nullable_identifier (opt_str x) = Inr x"
  by (auto simp: nullable_identifier_def opt_str_def bindE_eq_Inr identifier_field_again
      split: if_splits option.splits)

lemma sha_field_again: "sha_field v = Inr s \<Longrightarrow> sha_field (JStr s) = Inr s"
  by (auto simp: sha_field_def Let_def lower_sha removeprefix_sha split: if_splits)

lemma capabilities_field_again:
  "capabilities_field v = Inr xs \<Longrightarrow> capabilities_field (JList (map JStr xs)) = Inr xs"
  by (auto simp: capabilities_field_def Let_def o_def split: json.splits if_splits)

lemma binding_field_again: "binding_field v = Inr b \<Longrightarrow> binding_field (binding_json b) = Inr b"
  by (auto simp: binding_field_def binding_json_def bindE_eq_Inr Let_def closed_keys_def
      required_keys_def BINDING_KEYS_def jkeys_def jat_def sha_field_again
      split: json.splits if_splits)

lemma validate_subject_again:
  "validate_subject v = Inr s \<Longrightarrow> validate_subject (subject_json s) = Inr s"
  by (auto simp: validate_subject_def subject_json_def bindE_eq_Inr Let_def closed_keys_def
      required_keys_def SUBJECT_KEYS_def jkeys_def jat_def sha_field_again identifier_field_again
      split: json.splits if_splits)

lemma composition_field_again:
  "composition_field v = Inr x \<Longrightarrow> composition_field (opt_binding_json x) = Inr x"
  by (auto simp: composition_field_def opt_binding_json_def binding_json_def bindE_eq_Inr
      closed_keys_def required_keys_def BINDING_KEYS_def jkeys_def jat_def sha_field_again
      split: json.splits if_splits)


lemma request_json_fields:
  "jat (request_json r) ''schema_version'' = JInt 2"
  "jat (request_json r) ''request_kind'' = JStr ''authority_operation''"
  "jat (request_json r) ''request_id'' = JStr (rq_request_id r)"
  "jat (request_json r) ''skill_id'' = JStr (rq_skill_id r)"
  "jat (request_json r) ''skill_version'' = JStr (rq_skill_version r)"
  "jat (request_json r) ''operation_id'' = JStr (rq_operation_id r)"
  "jat (request_json r) ''operation_version'' = JStr (rq_operation_version r)"
  "jat (request_json r) ''cycle_id'' = opt_str (rq_cycle_id r)"
  "jat (request_json r) ''task_id'' = opt_str (rq_task_id r)"
  "jat (request_json r) ''pack_id'' = opt_str (rq_pack_id r)"
  "jat (request_json r) ''attempt_id'' = opt_str (rq_attempt_id r)"
  "jat (request_json r) ''actor_rank'' = JStr (enum_name SOURCE_RANKS (rq_actor_rank r))"
  "jat (request_json r) ''subject'' = subject_json (rq_subject r)"
  "jat (request_json r) ''required_capabilities'' = JList (map JStr (rq_required_capabilities r))"
  "jat (request_json r) ''effect_class'' = JStr (rq_effect_class r)"
  "jat (request_json r) ''data_class'' = JStr (rq_data_class r)"
  "jat (request_json r) ''mutation_class'' = JStr (enum_name MUTATION_CLASSES (rq_mutation_class r))"
  "jat (request_json r) ''reversibility'' = JStr (enum_name REVERSIBILITY (rq_reversibility r))"
  "jat (request_json r) ''risk_tier'' = JStr (enum_name RISK_TIERS (rq_risk_tier r))"
  "jat (request_json r) ''decision_class'' = JStr (enum_name DECISION_CLASSES (rq_decision_class r))"
  "jat (request_json r) ''intent_type'' = JStr (enum_name INTENT_TYPES (rq_intent_type r))"
  "jat (request_json r) ''cardinality_requested'' =
     JStr (enum_name CARDINALITIES (rq_cardinality_requested r))"
  "jat (request_json r) ''use_budget_requested'' = JInt (rq_use_budget_requested r)"
  "jat (request_json r) ''reservation_units'' =
     (case rq_reservation_units r of None \<Rightarrow> JNull | Some u \<Rightarrow> JInt u)"
  "jat (request_json r) ''idempotency_key'' = JStr (rq_idempotency_key r)"
  "jat (request_json r) ''context'' = JObj (context_json (rq_context r))"
  "jat (request_json r) ''composition_receipt'' = opt_binding_json (rq_composition_receipt r)"
  by (simp_all add: request_json_def split: option.split)

lemma request_json_closed:
  "closed_keys (request_json r) REQUEST_KEYS = Inr ()"
  "required_keys (request_json r) REQUIRED_REQUEST_KEYS = Inr ()"
  by (simp_all add: request_json_def closed_keys_def required_keys_def jkeys_def REQUEST_KEYS_def
      REQUIRED_REQUEST_KEYS_def split: option.split)

lemma context_json_fields:
  "jat (context_json c) ''external_input_status'' =
     JStr (enum_name EXTERNAL_INPUT (rc_external_input_status c))"
  "jat (context_json c) ''goal_truth_status'' = JStr (enum_name GOAL_TRUTH (rc_goal_truth_status c))"
  "jat (context_json c) ''risk_acceptance_status'' =
     JStr (enum_name SEPARATE_DECISION_STATUS (rc_risk_acceptance_status c))"
  "jat (context_json c) ''design_selection_status'' =
     JStr (enum_name SEPARATE_DECISION_STATUS (rc_design_selection_status c))"
  "jat (context_json c) ''external_input_evidence'' = opt_binding_json (rc_external_input_evidence c)"
  "jat (context_json c) ''risk_acceptance_evidence'' = opt_binding_json (rc_risk_acceptance_evidence c)"
  "jat (context_json c) ''design_selection_evidence'' =
     opt_binding_json (rc_design_selection_evidence c)"
  by (simp_all add: context_json_def)

lemma context_json_closed:
  "closed_keys (context_json c) CONTEXT_KEYS = Inr ()"
  "required_keys (context_json c) CONTEXT_KEYS = Inr ()"
  by (simp_all add: context_json_def closed_keys_def required_keys_def jkeys_def CONTEXT_KEYS_def)

lemma enum_field_raw:
  "enum_field v EXTERNAL_INPUT = Inr ei \<Longrightarrow> v = JStr (enum_name EXTERNAL_INPUT ei)"
  "enum_field v SEPARATE_DECISION_STATUS = Inr sd \<Longrightarrow> v = JStr (enum_name SEPARATE_DECISION_STATUS sd)"
  subgoal by (rule str_or_empty_eq_JStr)
    (auto simp: enum_field_def enum_name_def EXTERNAL_INPUT_def split: option.splits if_splits)
  subgoal by (rule str_or_empty_eq_JStr)
    (auto simp: enum_field_def enum_name_def SEPARATE_DECISION_STATUS_def split: option.splits if_splits)
  done

lemma opt_binding_json_Null [simp]: "opt_binding_json x = JNull \<longleftrightarrow> x = None"
  by (simp add: opt_binding_json_def binding_json_def split: option.split)

lemma evidence_field_again:
  "evidence_field req v = Inr e \<Longrightarrow> evidence_field req (opt_binding_json e) = Inr e"
  by (auto simp: evidence_field_def bindE_eq_Inr opt_binding_json_def binding_field_again
      binding_json_def [THEN arg_cong [where f = "\<lambda>j. j = JNull"]] split: if_splits)

lemma request_budget_again:
  "request_budget d = Inr (b, raw, u) \<Longrightarrow> jat d' ''use_budget_requested'' = JInt b \<Longrightarrow>
   jat d' ''reservation_units'' = (case raw of None \<Rightarrow> JNull | Some n \<Rightarrow> JInt n) \<Longrightarrow>
   request_budget d' = Inr (b, raw, u)"
  by (auto simp: request_budget_def positive_int_field_def bindE_eq_Inr Let_def
      split: json.splits if_splits option.splits)

lemma request_statuses_again:
  "request_statuses c ev = Inr x \<Longrightarrow> request_statuses (context_json x) ev = Inr x"
  by (auto simp: request_statuses_def bindE_eq_Inr context_json_fields)

lemma request_evidence_again:
  assumes "request_evidence c = Inr ev" and "request_statuses c ev = Inr x"
  shows "request_evidence (context_json x) = Inr ev"
proof -
  obtain e1 e2 e3 where ev: "ev = (e1, e2, e3)" by (cases ev) auto
  from assms(2) have raw:
    "jat c ''external_input_status'' = JStr (enum_name EXTERNAL_INPUT (rc_external_input_status x))"
    "jat c ''risk_acceptance_status'' =
       JStr (enum_name SEPARATE_DECISION_STATUS (rc_risk_acceptance_status x))"
    "jat c ''design_selection_status'' =
       JStr (enum_name SEPARATE_DECISION_STATUS (rc_design_selection_status x))"
    and evs: "rc_external_input_evidence x = e1" "rc_risk_acceptance_evidence x = e2"
      "rc_design_selection_evidence x = e3"
    by (auto simp: request_statuses_def bindE_eq_Inr ev dest: enum_field_raw)
  from assms(1) show ?thesis
    by (auto simp: request_evidence_def bindE_eq_Inr context_json_fields raw evs ev
        evidence_field_again)
qed


text \<open>
  What acceptance amounts to, field by field: the request \<open>r\<close> is returned for the object \<open>d\<close>
  whose context object is \<open>c\<close>, with \<open>u\<close> dispatch units and the evidence triple \<open>ev\<close>.
\<close>

definition request_accepted ::
  "obj \<Rightarrow> obj \<Rightarrow> int \<Rightarrow> binding option \<times> binding option \<times> binding option \<Rightarrow> request \<Rightarrow> bool" where
  "request_accepted d c u ev r \<longleftrightarrow>
     closed_keys d REQUEST_KEYS = Inr () \<and>
     required_keys d REQUIRED_REQUEST_KEYS = Inr () \<and>
     jat d ''schema_version'' = JInt 2 \<and>
     jat d ''request_kind'' = JStr ''authority_operation'' \<and>
     jat d ''context'' = JObj c \<and>
     closed_keys c CONTEXT_KEYS = Inr () \<and>
     required_keys c CONTEXT_KEYS = Inr () \<and>
     request_budget d = Inr (rq_use_budget_requested r, rq_reservation_units r, u) \<and>
     enum_field (jat d ''cardinality_requested'') CARDINALITIES = Inr (rq_cardinality_requested r) \<and>
     nullable_identifier (jat d ''task_id'') = Inr (rq_task_id r) \<and>
     nullable_identifier (jat d ''pack_id'') = Inr (rq_pack_id r) \<and>
     request_cardinality (rq_cardinality_requested r) (rq_use_budget_requested r) u
       (rq_task_id r) (rq_pack_id r) = Inr () \<and>
     composition_field (jat d ''composition_receipt'') = Inr (rq_composition_receipt r) \<and>
     request_evidence c = Inr ev \<and>
     identifier_field (jat d ''request_id'') = Inr (rq_request_id r) \<and>
     identifier_field (jat d ''skill_id'') = Inr (rq_skill_id r) \<and>
     identifier_field (jat d ''skill_version'') = Inr (rq_skill_version r) \<and>
     identifier_field (jat d ''operation_id'') = Inr (rq_operation_id r) \<and>
     identifier_field (jat d ''operation_version'') = Inr (rq_operation_version r) \<and>
     nullable_identifier (jat d ''cycle_id'') = Inr (rq_cycle_id r) \<and>
     nullable_identifier (jat d ''attempt_id'') = Inr (rq_attempt_id r) \<and>
     enum_field (jat d ''actor_rank'') SOURCE_RANKS = Inr (rq_actor_rank r) \<and>
     validate_subject (jat d ''subject'') = Inr (rq_subject r) \<and>
     capabilities_field (jat d ''required_capabilities'') = Inr (rq_required_capabilities r) \<and>
     identifier_field (jat d ''effect_class'') = Inr (rq_effect_class r) \<and>
     identifier_field (jat d ''data_class'') = Inr (rq_data_class r) \<and>
     enum_field (jat d ''mutation_class'') MUTATION_CLASSES = Inr (rq_mutation_class r) \<and>
     enum_field (jat d ''reversibility'') REVERSIBILITY = Inr (rq_reversibility r) \<and>
     enum_field (jat d ''risk_tier'') RISK_TIERS = Inr (rq_risk_tier r) \<and>
     enum_field (jat d ''decision_class'') DECISION_CLASSES = Inr (rq_decision_class r) \<and>
     enum_field (jat d ''intent_type'') INTENT_TYPES = Inr (rq_intent_type r) \<and>
     identifier_field (jat d ''idempotency_key'') = Inr (rq_idempotency_key r) \<and>
     request_statuses c ev = Inr (rq_context r)"

lemma request_acceptedI: "request_accepted d c u ev r \<Longrightarrow> validate_request d = Inr r"
  by (simp add: validate_request_def request_accepted_def)

lemma request_acceptedE:
  assumes "validate_request d = Inr r"
  obtains c u ev where "request_accepted d c u ev r"
proof -
  from assms obtain c where c: "jat d ''context'' = JObj c"
    by (auto simp: validate_request_def result_simps split: json.splits)
  with assms obtain b raw u where budget: "request_budget d = Inr (b, raw, u)"
    by (auto simp: validate_request_def result_simps)
  note facts = assms [unfolded validate_request_def c json.case budget bindE_simps prod.case
    result_simps]
  from facts have "\<exists>ev. request_accepted d c u ev r"
    unfolding request_accepted_def
    by (elim exE conjE) (rule exI, (simp only: c budget request.select_convs), auto)
  with that show thesis by blast
qed

lemma request_accepted_again:
  assumes "request_accepted d c u ev r"
  shows "request_accepted (request_json r) (context_json (rq_context r)) u ev r"
  using assms
  unfolding request_accepted_def
  apply (elim conjE, intro conjI)
  apply (simp_all (no_asm) only: request_json_fields request_json_closed context_json_closed
      enum_field_name)
  apply (erule identifier_field_again nullable_identifier_again validate_subject_again
      capabilities_field_again composition_field_again request_statuses_again
      request_budget_again | rule request_json_fields | assumption
    | (rule request_evidence_again; assumption))+
  done

lemma validate_request_idem:
  assumes "validate_request d = Inr r"
  shows "validate_request (request_json r) = Inr r"
  using assms by (rule request_acceptedE) (blast intro: request_acceptedI request_accepted_again)

interpretation request_form: normalizer validate_request request_json
  by unfold_locales (rule validate_request_idem)

end
