(* ===== verification/Datetime.thy ===== *)
theory Datetime
  imports Python_Value
begin

text \<open>
  Time stamps: the aware \<^verbatim>\<open>datetime\<close> values that \<^verbatim>\<open>parse_time\<close> of \<^verbatim>\<open>canonical.py\<close> builds, the
  documented grammar of \<^verbatim>\<open>datetime.fromisoformat\<close> for the project's minimum Python (3.10:
  \<^verbatim>\<open>YYYY-MM-DD*HH[:MM[:SS[.fff[fff]]]][+HH:MM[:SS[.ffffff]]]\<close>), \<^verbatim>\<open>isoformat\<close>, and the order of
  aware values by the instant they denote.
\<close>

record datetime =
  dt_year :: nat
  dt_month :: nat
  dt_day :: nat
  dt_hour :: nat
  dt_minute :: nat
  dt_second :: nat
  dt_micro :: nat
  dt_offset :: int \<comment> \<open>offset from UTC in microseconds\<close>

subsection \<open>The calendar\<close>

definition is_leap :: "nat \<Rightarrow> bool" where
  "is_leap y = (y mod 4 = 0 \<and> (y mod 100 \<noteq> 0 \<or> y mod 400 = 0))"

definition days_in_month :: "nat \<Rightarrow> nat \<Rightarrow> nat" where
  "days_in_month y m = (if m = 2 then (if is_leap y then 29 else 28)
     else if m \<in> {4, 6, 9, 11} then 30 else 31)"

definition ordinal :: "nat \<Rightarrow> nat \<Rightarrow> nat \<Rightarrow> int" where
  "ordinal y m d =
     (let p = int y - 1 in p * 365 + p div 4 - p div 100 + p div 400)
     + int (sum_list (map (days_in_month y) [1..<m])) + int d"

definition valid_datetime :: "datetime \<Rightarrow> bool" where
  "valid_datetime t =
     (1 \<le> dt_year t \<and> dt_year t \<le> 9999 \<and> 1 \<le> dt_month t \<and> dt_month t \<le> 12 \<and>
      1 \<le> dt_day t \<and> dt_day t \<le> days_in_month (dt_year t) (dt_month t) \<and>
      dt_hour t \<le> 23 \<and> dt_minute t \<le> 59 \<and> dt_second t \<le> 59 \<and> dt_micro t \<le> 999999 \<and>
      \<bar>dt_offset t\<bar> < 86400000000)"

text \<open>Microseconds on the UTC time line; aware values compare by it\<close>

definition instant :: "datetime \<Rightarrow> int" where
  "instant t =
     ((((ordinal (dt_year t) (dt_month t) (dt_day t) * 24 + int (dt_hour t)) * 60
        + int (dt_minute t)) * 60 + int (dt_second t)) * 1000000 + int (dt_micro t))
     - dt_offset t"

subsection \<open>Parsing\<close>

definition digits_value :: "string \<Rightarrow> nat option" where
  "digits_value s =
     (if list_all is_digit s then Some (foldl (\<lambda>a c. a * 10 + (code c - 48)) 0 s) else None)"

definition field_at :: "string \<Rightarrow> nat \<Rightarrow> nat \<Rightarrow> nat option" where
  "field_at s i k = digits_value (take k (drop i s))"

definition parse_date :: "string \<Rightarrow> (nat \<times> nat \<times> nat) option" where
  "parse_date s =
     (if s ! 4 = CHR ''-'' \<and> s ! 7 = CHR ''-'' then
        (case (field_at s 0 4, field_at s 5 2, field_at s 8 2) of
           (Some y, Some m, Some d) \<Rightarrow> Some (y, m, d) | _ \<Rightarrow> None)
      else None)"

text \<open>\<^verbatim>\<open>_parse_hh_mm_ss_ff\<close>\<close>

definition parse_clock :: "string \<Rightarrow> (nat \<times> nat \<times> nat \<times> nat) option" where
  "parse_clock s =
     (let n = length s in
      if n \<in> {2, 5, 8, 12, 15} \<and> (5 \<le> n \<longrightarrow> s ! 2 = CHR '':'') \<and> (8 \<le> n \<longrightarrow> s ! 5 = CHR '':'')
         \<and> (12 \<le> n \<longrightarrow> s ! 8 = CHR ''.'')
      then (case (field_at s 0 2, if 5 \<le> n then field_at s 3 2 else Some 0,
                  if 8 \<le> n then field_at s 6 2 else Some 0,
                  if n = 12 then map_option (\<lambda>f. f * 1000) (field_at s 9 3)
                  else if n = 15 then field_at s 9 6 else Some 0) of
              (Some h, Some m, Some sec, Some f) \<Rightarrow> Some (h, m, sec, f) | _ \<Rightarrow> None)
      else None)"

definition clock_micros :: "nat \<times> nat \<times> nat \<times> nat \<Rightarrow> int" where
  "clock_micros = (\<lambda>(h, m, s, f). ((int h * 60 + int m) * 60 + int s) * 1000000 + int f)"

text \<open>The offset after the sign; the zone must lie strictly within a day of UTC\<close>

definition parse_offset :: "int \<Rightarrow> string \<Rightarrow> int option" where
  "parse_offset sign s =
     (if length s \<in> {5, 8, 15} then
        (case parse_clock s of
           Some c \<Rightarrow> if clock_micros c < 86400000000 then Some (sign * clock_micros c) else None
         | None \<Rightarrow> None)
      else None)"

text \<open>The result is \<open>None\<close> for a \<^verbatim>\<open>ValueError\<close>; the offset is \<open>None\<close> for a naive value\<close>

definition parse_clock_zone :: "string \<Rightarrow> ((nat \<times> nat \<times> nat \<times> nat) \<times> int option) option" where
  "parse_clock_zone s =
     (let cut = (\<lambda>c. takeWhile (\<lambda>x. x \<noteq> c) s); rest = (\<lambda>c. tl (dropWhile (\<lambda>x. x \<noteq> c) s)) in
      if CHR ''-'' \<in> set s then
        (case (parse_clock (cut (CHR ''-'')), parse_offset (- 1) (rest (CHR ''-''))) of
           (Some c, Some z) \<Rightarrow> Some (c, Some z) | _ \<Rightarrow> None)
      else if CHR ''+'' \<in> set s then
        (case (parse_clock (cut (CHR ''+'')), parse_offset 1 (rest (CHR ''+''))) of
           (Some c, Some z) \<Rightarrow> Some (c, Some z) | _ \<Rightarrow> None)
      else map_option (\<lambda>c. (c, None)) (parse_clock s))"

text \<open>Aware results only: \<^verbatim>\<open>parse_time\<close> rejects a value without a zone\<close>

definition fromisoformat :: "string \<Rightarrow> datetime option" where
  "fromisoformat s =
     (if length s < 11 then None
      else case (parse_date (take 10 s), parse_clock_zone (drop 11 s)) of
        (Some (y, m, d), Some ((hh, mm, ss, ff), Some z)) \<Rightarrow>
          let t = \<lparr>dt_year = y, dt_month = m, dt_day = d, dt_hour = hh, dt_minute = mm,
                   dt_second = ss, dt_micro = ff, dt_offset = z\<rparr>
          in if valid_datetime t then Some t else None
      | _ \<Rightarrow> None)"

definition parse_time :: "json \<Rightarrow> datetime res" where
  "parse_time v =
     (let raw = strip (str_or_empty v) in
      if raw = [] then fail BadTime
      else case fromisoformat (concat (map (\<lambda>c. if c = CHR ''Z'' then ''+00:00'' else [c]) raw)) of
             None \<Rightarrow> fail BadTime | Some t \<Rightarrow> Inr t)"

subsection \<open>Printing\<close>

definition pad2 :: "nat \<Rightarrow> string" where
  "pad2 n = [digit_char (n div 10), digit_char (n mod 10)]"

definition pad4 :: "nat \<Rightarrow> string" where
  "pad4 n = pad2 (n div 100) @ pad2 (n mod 100)"

definition pad6 :: "nat \<Rightarrow> string" where
  "pad6 n = pad2 (n div 10000) @ pad4 (n mod 10000)"

definition offset_string :: "int \<Rightarrow> string" where
  "offset_string z =
     (let n = nat \<bar>z\<bar>; secs = n div 1000000; us = n mod 1000000;
          h = secs div 3600; m = (secs div 60) mod 60; s = secs mod 60 in
      (if z < 0 then ''-'' else ''+'') @ pad2 h @ '':'' @ pad2 m
      @ (if s = 0 \<and> us = 0 then [] else '':'' @ pad2 s @ (if us = 0 then [] else ''.'' @ pad6 us)))"

definition isoformat :: "datetime \<Rightarrow> string" where
  "isoformat t =
     pad4 (dt_year t) @ ''-'' @ pad2 (dt_month t) @ ''-'' @ pad2 (dt_day t) @ ''T''
     @ pad2 (dt_hour t) @ '':'' @ pad2 (dt_minute t) @ '':'' @ pad2 (dt_second t)
     @ (if dt_micro t = 0 then [] else ''.'' @ pad6 (dt_micro t)) @ offset_string (dt_offset t)"

subsection \<open>Printing and parsing agree\<close>

lemma digit_char_facts:
  assumes "k < 10"
  shows "code (digit_char k) = 48 + k" and "is_digit (digit_char k)"
    and "digit_char k \<noteq> CHR ''Z''" "digit_char k \<noteq> CHR ''-''" "digit_char k \<noteq> CHR ''+''"
    and "\<not> is_space (digit_char k)"
proof -
  have "k \<in> {0,1,2,3,4,5,6,7,8,9}" using assms by auto
  then show "code (digit_char k) = 48 + k" "is_digit (digit_char k)"
    "digit_char k \<noteq> CHR ''Z''" "digit_char k \<noteq> CHR ''-''" "digit_char k \<noteq> CHR ''+''" "\<not> is_space (digit_char k)"
    by (auto simp: digit_char_def code_def is_digit_def is_space_def)
qed

lemma digits_value_append:
  "digits_value xs = Some a \<Longrightarrow> digits_value ys = Some b \<Longrightarrow>
   digits_value (xs @ ys) = Some (a * 10 ^ length ys + b)"
proof -
  have fold: "foldl (\<lambda>a c. a * 10 + (code c - 48)) n ys
    = n * 10 ^ length ys + foldl (\<lambda>a c. a * 10 + (code c - 48)) 0 ys" for n ys
  proof (induction ys arbitrary: n)
    case Nil then show ?case by simp
  next
    case (Cons y ys)
    show ?case by (simp add: Cons [of "n * 10 + (code y - 48)"] Cons [of "code y - 48"] algebra_simps)
  qed
  assume "digits_value xs = Some a" "digits_value ys = Some b"
  then show ?thesis
    by (auto simp: digits_value_def fold [of "foldl _ _ xs"] split: if_splits)
qed

lemma length_pad [simp]: "length (pad2 n) = 2" "length (pad4 n) = 4" "length (pad6 n) = 6"
  by (simp_all add: pad2_def pad4_def pad6_def)

lemma digits_value_pad2: "n < 100 \<Longrightarrow> digits_value (pad2 n) = Some n"
  by (simp add: digits_value_def pad2_def digit_char_facts)

lemma digits_value_pad4: "n < 10000 \<Longrightarrow> digits_value (pad4 n) = Some n"
  using digits_value_append [OF digits_value_pad2 digits_value_pad2, of "n div 100" "n mod 100"]
  by (simp add: pad4_def)

lemma digits_value_pad6: "n < 1000000 \<Longrightarrow> digits_value (pad6 n) = Some n"
  using digits_value_append [OF digits_value_pad2 digits_value_pad4, of "n div 10000" "n mod 10000"]
  by (simp add: pad6_def)

lemma parse_clock_text:
  assumes "h < 100" "m < 100" "s < 100"
  shows "parse_clock (pad2 h @ '':'' @ pad2 m) = Some (h, m, 0, 0)"
    and "parse_clock (pad2 h @ '':'' @ pad2 m @ '':'' @ pad2 s) = Some (h, m, s, 0)"
    and "f < 1000000 \<Longrightarrow> parse_clock (pad2 h @ '':'' @ pad2 m @ '':'' @ pad2 s @ ''.'' @ pad6 f) = Some (h, m, s, f)"
  using assms
  by (simp_all add: parse_clock_def field_at_def digits_value_pad2 digits_value_pad6 nth_append)


definition plain :: "string \<Rightarrow> bool" where
  "plain s = list_all (\<lambda>c. c \<noteq> CHR ''Z'' \<and> c \<noteq> CHR ''-'' \<and> c \<noteq> CHR ''+'' \<and> \<not> is_space c) s"

lemma plain_append [simp]: "plain (xs @ ys) = (plain xs \<and> plain ys)"
  by (simp add: plain_def)

lemma plain_Cons_sep [simp]:
  "plain (CHR '':'' # s) = plain s" "plain (CHR ''.'' # s) = plain s" "plain []"
  by (simp_all add: plain_def is_space_def code_def)

lemma plain_pad2: "n < 100 \<Longrightarrow> plain (pad2 n)"
  by (simp add: plain_def pad2_def digit_char_facts)

lemma plain_pad4: "n < 10000 \<Longrightarrow> plain (pad4 n)"
  by (simp add: pad4_def plain_pad2)

lemma plain_pad6: "n < 1000000 \<Longrightarrow> plain (pad6 n)"
  by (simp add: pad6_def plain_pad2 plain_pad4)

lemma offset_split:
  fixes n :: nat
  assumes "n < 86400000000"
  defines "secs \<equiv> n div 1000000"
  shows "n = ((secs div 3600 * 60 + secs div 60 mod 60) * 60 + secs mod 60) * 1000000 + n mod 1000000"
    and "secs div 3600 < 24"
proof -
  have hm: "secs div 3600 * 60 + secs div 60 mod 60 = secs div 60"
    using div_mult_mod_eq [of "secs div 60" 60] div_mult2_eq [of secs 60 60] by simp
  have "(secs div 3600 * 60 + secs div 60 mod 60) * 60 + secs mod 60 = secs"
    unfolding hm by (rule div_mult_mod_eq)
  then show "n = ((secs div 3600 * 60 + secs div 60 mod 60) * 60 + secs mod 60) * 1000000
      + n mod 1000000"
    by (simp only: secs_def div_mult_mod_eq)
  have "secs < 86400" using assms(1) unfolding secs_def by (intro less_mult_imp_div_less) simp
  then show "secs div 3600 < 24" by (intro less_mult_imp_div_less) simp
qed

lemma offset_string_cases:
  assumes "\<bar>z\<bar> < 86400000000"
  obtains c body where "offset_string z = c # body" and "plain body"
    and "c = (if z < 0 then CHR ''-'' else CHR ''+'')"
    and "parse_offset (if z < 0 then - 1 else 1) body = Some z"
proof -
  define n where "n = nat \<bar>z\<bar>"
  define secs where "secs = n div 1000000"
  define us where "us = n mod 1000000"
  let ?h = "secs div 3600" and ?m = "secs div 60 mod 60" and ?s = "secs mod 60"
  have n: "n < 86400000000" using assms by (simp add: n_def)
  have h: "?h < 24" and eq: "n = ((?h * 60 + ?m) * 60 + ?s) * 1000000 + us"
    using offset_split [OF n] by (simp_all add: secs_def us_def)
  have us: "us < 1000000" by (simp add: us_def)
  have z: "z = (if z < 0 then - 1 else 1) * int n" by (simp add: n_def)
  have mic: "clock_micros (?h, ?m, ?s, us) = int n"
    by (simp only: clock_micros_def prod.case eq of_nat_add of_nat_mult of_nat_numeral)
  have lt: "int n < 86400000000" using n by simp
  define body where "body = pad2 ?h @ '':'' @ pad2 ?m
      @ (if ?s = 0 \<and> us = 0 then [] else '':'' @ pad2 ?s @ (if us = 0 then [] else ''.'' @ pad6 us))"
  have os: "offset_string z = (if z < 0 then CHR ''-'' else CHR ''+'') # body"
    by (simp add: offset_string_def Let_def body_def n_def secs_def us_def)
  have "parse_clock body = Some (?h, ?m, ?s, us)"
    using h us parse_clock_text(1,2) [of ?h ?m ?s] parse_clock_text(3) [of ?h ?m ?s us] by (auto simp: body_def)
  moreover have "length body \<in> {5, 8, 15}" by (simp add: body_def)
  ultimately have "parse_offset sign body = Some (sign * int n)" for sign
    using lt by (simp add: parse_offset_def mic)
  then have "parse_offset (if z < 0 then - 1 else 1) body = Some z" using z by metis
  moreover have "plain body" using h us by (simp add: body_def plain_pad2 plain_pad6)
  ultimately show thesis using that os by blast
qed

lemma sign_cut:
  assumes "plain xs" and "c = CHR ''-'' \<or> c = CHR ''+''"
  shows "takeWhile (\<lambda>x. x \<noteq> c) (xs @ c # ys) = xs" and "tl (dropWhile (\<lambda>x. x \<noteq> c) (xs @ c # ys)) = ys"
proof -
  have all: "\<forall>x \<in> set xs. x \<noteq> c" using assms by (auto simp: plain_def list_all_iff)
  then show "takeWhile (\<lambda>x. x \<noteq> c) (xs @ c # ys) = xs" by (simp add: takeWhile_append2)
  from all show "tl (dropWhile (\<lambda>x. x \<noteq> c) (xs @ c # ys)) = ys" by (simp add: dropWhile_append2)
qed

lemma parse_clock_zone_text:
  assumes "plain ck" and "parse_clock ck = Some c" and "\<bar>z\<bar> < 86400000000"
  shows "parse_clock_zone (ck @ offset_string z) = Some (c, Some z)"
proof -
  from assms(3) obtain sg body where os: "offset_string z = sg # body" and pb: "plain body"
    and sg: "sg = (if z < 0 then CHR ''-'' else CHR ''+'')"
    and po: "parse_offset (if z < 0 then - 1 else 1) body = Some z"
    by (rule offset_string_cases)
  have no: "CHR ''-'' \<notin> set ck" "CHR ''-'' \<notin> set body" "CHR ''+'' \<notin> set ck"
    using assms(1) pb by (auto simp: plain_def list_all_iff)
  show ?thesis
    using assms(1,2) no po sign_cut [of ck sg body]
    by (auto simp: parse_clock_zone_def os sg Let_def)
qed

lemma fromisoformat_isoformat:
  assumes "valid_datetime t"
  shows "fromisoformat (isoformat t) = Some t"
proof -
  have r: "dt_year t < 10000" "dt_month t < 100" "dt_day t < 100" "dt_hour t < 100"
    "dt_minute t < 100" "dt_second t < 100" "dt_micro t < 1000000" "\<bar>dt_offset t\<bar> < 86400000000"
    using assms by (auto simp: valid_datetime_def days_in_month_def split: if_splits)
  let ?date = "pad4 (dt_year t) @ ''-'' @ pad2 (dt_month t) @ ''-'' @ pad2 (dt_day t)"
  let ?clock = "pad2 (dt_hour t) @ '':'' @ pad2 (dt_minute t) @ '':'' @ pad2 (dt_second t)
     @ (if dt_micro t = 0 then [] else ''.'' @ pad6 (dt_micro t))"
  have iso: "isoformat t = ?date @ ''T'' @ ?clock @ offset_string (dt_offset t)"
    by (simp add: isoformat_def)
  have d: "parse_date ?date = Some (dt_year t, dt_month t, dt_day t)"
    using r by (simp add: parse_date_def field_at_def digits_value_pad2 digits_value_pad4 nth_append)
  have pc: "plain ?clock" using r by (simp add: plain_pad2 plain_pad6)
  have "parse_clock ?clock = Some (dt_hour t, dt_minute t, dt_second t, dt_micro t)"
    using r parse_clock_text(2,3) by auto
  with pc r(8) have z: "parse_clock_zone (?clock @ offset_string (dt_offset t)) =
      Some ((dt_hour t, dt_minute t, dt_second t, dt_micro t), Some (dt_offset t))"
    by (metis parse_clock_zone_text)
  have "take 10 (isoformat t) = ?date" "drop 11 (isoformat t) = ?clock @ offset_string (dt_offset t)"
    "\<not> length (isoformat t) < 11"
    by (simp_all add: iso)
  moreover have "\<lparr>dt_year = dt_year t, dt_month = dt_month t, dt_day = dt_day t,
      dt_hour = dt_hour t, dt_minute = dt_minute t, dt_second = dt_second t,
      dt_micro = dt_micro t, dt_offset = dt_offset t\<rparr> = t"
    by simp
  ultimately show ?thesis using d z assms
    by (simp only: fromisoformat_def Let_def option.case prod.case if_True if_False)
qed

lemma isoformat_chars:
  assumes "valid_datetime t"
  shows "list_all (\<lambda>c. c \<noteq> CHR ''Z'' \<and> \<not> is_space c) (isoformat t)" and "isoformat t \<noteq> []"
proof -
  have r: "dt_year t < 10000" "dt_month t < 100" "dt_day t < 100" "dt_hour t < 100"
    "dt_minute t < 100" "dt_second t < 100" "dt_micro t < 1000000" "\<bar>dt_offset t\<bar> < 86400000000"
    using assms by (auto simp: valid_datetime_def days_in_month_def split: if_splits)
  from r(8) obtain sg body where os: "offset_string (dt_offset t) = sg # body" "plain body"
    "sg = (if dt_offset t < 0 then CHR ''-'' else CHR ''+'')"
    by (rule offset_string_cases)
  have sp: "plain xs \<Longrightarrow> list_all (\<lambda>c. c \<noteq> CHR ''Z'' \<and> \<not> is_space c) xs" for xs
    by (auto simp: plain_def list_all_iff)
  show "list_all (\<lambda>c. c \<noteq> CHR ''Z'' \<and> \<not> is_space c) (isoformat t)"
    using r os by (simp add: isoformat_def sp plain_pad2 plain_pad4 plain_pad6)
      (auto simp: is_space_def code_def)
  show "isoformat t \<noteq> []" by (simp add: isoformat_def pad4_def pad2_def)
qed

lemma parse_time_valid: "parse_time v = Inr t \<Longrightarrow> valid_datetime t"
  by (auto simp: parse_time_def fromisoformat_def Let_def split: if_splits option.splits prod.splits)

lemma parse_time_isoformat:
  assumes "valid_datetime t"
  shows "parse_time (JStr (isoformat t)) = Inr t"
proof -
  have "strip (isoformat t) = isoformat t"
    using isoformat_chars(1) [OF assms] by (intro strip_no_space) (auto simp: list_all_iff)
  moreover have "concat (map (\<lambda>c. if c = CHR ''Z'' then ''+00:00'' else [c]) xs) = xs"
    if "list_all (\<lambda>c. c \<noteq> CHR ''Z'' \<and> \<not> is_space c) xs" for xs
    using that by (induction xs) auto
  ultimately show ?thesis
    using isoformat_chars [OF assms] fromisoformat_isoformat [OF assms] by (simp add: parse_time_def)
qed

lemma isoformat_inj:
  "valid_datetime a \<Longrightarrow> valid_datetime b \<Longrightarrow> isoformat a = isoformat b \<Longrightarrow> a = b"
  using fromisoformat_isoformat by (metis option.inject)

lemma parse_time_again: "parse_time v = Inr t \<Longrightarrow> parse_time (JStr (isoformat t)) = Inr t"
  by (rule parse_time_isoformat) (rule parse_time_valid)

end
