(* ===== verification/Grant_Contract.thy ===== *)
theory Grant_Contract
  imports Request_Contract Datetime
begin

text \<open>
  The authority-grant contract of \<^verbatim>\<open>contracts.py\<close> and \<^verbatim>\<open>grant_contract_fields.py\<close>:
  \<^verbatim>\<open>_grant_scope\<close>, \<^verbatim>\<open>_grant_lifetime\<close>, \<^verbatim>\<open>_grant_issuer_decisions\<close>,
  \<^verbatim>\<open>_grant_materialization\<close> and \<^verbatim>\<open>validate_grant\<close>. The normalized dictionary the code returns
  is the record \<open>grant\<close>; its times are kept as the aware values that their ISO strings denote, and
  \<open>grant_json\<close> writes the dictionary back.
\<close>

record operation_scope =
  os_operation_id :: string
  os_operation_version :: string
  os_skill_id :: string
  os_skill_version :: string

text \<open>Schema versions 2, 3 and 4; the last two carry the request digest and a receipt path\<close>

datatype materialization =
    Schema2
  | Schema3 (mat_request_sha256: string) (mat_ref: string)
  | Schema4 (mat_request_sha256: string) (mat_ref: string)

record grant =
  g_grant_id :: string
  g_lineage_id :: string
  g_parent_grant_id :: "string option"
  g_issuer_rank :: source_rank
  g_holder_rank :: source_rank
  g_capabilities :: "string list"
  g_subjects :: "subject list"
  g_operations :: "operation_scope list"
  g_risk_ceiling :: risk_tier
  g_decision_classes :: "string list"
  g_cardinality :: cardinality
  g_max_uses :: "int option"
  g_not_before :: datetime
  g_expires_at :: "datetime option"
  g_session_id :: "string option"
  g_task_id :: "string option"
  g_improvement_id :: "string option"
  g_source_approval :: binding
  g_policy_snapshot :: binding
  g_created_at :: datetime
  g_idempotency_key :: string
  g_materialization :: materialization

definition GRANT_KEYS :: "string list" where
  "GRANT_KEYS =
    [''schema_version'', ''artifact_kind'', ''grant_id'', ''lineage_id'', ''parent_grant_id'',
     ''issuer_rank'', ''holder_rank'', ''capabilities'', ''subjects'', ''operations'',
     ''risk_ceiling'', ''decision_classes'', ''cardinality'', ''max_uses'', ''not_before'',
     ''expires_at'', ''session_id'', ''task_id'', ''improvement_id'', ''source_approval'',
     ''policy_snapshot'', ''created_at'', ''idempotency_key'']"

definition GRANT_V3_KEYS :: "string list" where
  "GRANT_V3_KEYS = GRANT_KEYS @ [''request_sha256'', ''root_materialization_ref'']"

definition GRANT_V4_KEYS :: "string list" where
  "GRANT_V4_KEYS = GRANT_KEYS @ [''request_sha256'', ''activation_materialization_ref'']"

definition OPERATION_SCOPE_KEYS :: "string list" where
  "OPERATION_SCOPE_KEYS = [''skill_id'', ''skill_version'', ''operation_id'', ''operation_version'']"

subsection \<open>Scope\<close>

text \<open>\<^verbatim>\<open>tuple(item.values())\<close> of the normalized dictionaries, in their insertion order\<close>

definition subject_key :: "subject \<Rightarrow> string list" where
  "subject_key s = [sub_kind s, sub_ref s, sub_digest s, sub_revision s]"

definition operation_key :: "operation_scope \<Rightarrow> string list" where
  "operation_key x = [os_operation_id x, os_operation_version x, os_skill_id x, os_skill_version x]"

definition operation_field :: "json \<Rightarrow> operation_scope res" where
  "operation_field v =
     (case v of
        JObj d \<Rightarrow>
          bindE (closed_keys d OPERATION_SCOPE_KEYS) (\<lambda>_.
          bindE (required_keys d OPERATION_SCOPE_KEYS) (\<lambda>_.
          bindE (identifier_field (jat d ''operation_id'')) (\<lambda>oi.
          bindE (identifier_field (jat d ''operation_version'')) (\<lambda>ov.
          bindE (identifier_field (jat d ''skill_id'')) (\<lambda>si.
          bindE (identifier_field (jat d ''skill_version'')) (\<lambda>sv.
            Inr \<lparr>os_operation_id = oi, os_operation_version = ov, os_skill_id = si,
                 os_skill_version = sv\<rparr>))))))
      | _ \<Rightarrow> fail NotAnObject)"

definition operation_json :: "operation_scope \<Rightarrow> json" where
  "operation_json x = JObj
     [(''operation_id'', JStr (os_operation_id x)),
      (''operation_version'', JStr (os_operation_version x)),
      (''skill_id'', JStr (os_skill_id x)), (''skill_version'', JStr (os_skill_version x))]"

definition nonempty_list_field :: "json \<Rightarrow> json list res" where
  "nonempty_list_field v = (case v of JList xs \<Rightarrow> (if xs = [] then fail BadScope else Inr xs)
     | _ \<Rightarrow> fail BadScope)"

definition grant_scope :: "obj \<Rightarrow> (subject list \<times> operation_scope list) res" where
  "grant_scope d =
     bindE (nonempty_list_field (jat d ''subjects'')) (\<lambda>raw_subjects.
     bindE (mapE validate_subject raw_subjects) (\<lambda>subjects.
     if \<not> distinct (map subject_key subjects) then fail BadScope
     else
       bindE (nonempty_list_field (jat d ''operations'')) (\<lambda>raw_operations.
       bindE (mapE operation_field raw_operations) (\<lambda>operations.
       Inr (subjects, operations)))))"

subsection \<open>Lifetime, ranks and materialization\<close>

definition max_uses_field :: "json \<Rightarrow> int option res" where
  "max_uses_field v =
     (case v of JNull \<Rightarrow> Inr None
      | JInt n \<Rightarrow> (if n < 1 then fail BadInteger else Inr (Some n))
      | _ \<Rightarrow> fail BadInteger)"

definition expires_field :: "json \<Rightarrow> datetime option res" where
  "expires_field v =
     (if v = JNull then Inr None else bindE (parse_time v) (\<lambda>t. Inr (Some t)))"

definition grant_lifetime :: "obj \<Rightarrow> (cardinality \<times> int option \<times> datetime \<times> datetime option) res" where
  "grant_lifetime d =
     bindE (enum_field (jat d ''cardinality'') CARDINALITIES) (\<lambda>crd.
     bindE (max_uses_field (jat d ''max_uses'')) (\<lambda>max_uses.
     if crd = Single_use \<and> max_uses \<noteq> Some 1 then fail BadCardinality
     else if crd = Bounded_reusable \<and> max_uses = None then fail BadCardinality
     else if crd = Task_lease \<and> \<not> truthy (jat d ''task_id'') then fail BadCardinality
     else if crd = Improvement_lease \<and> \<not> truthy (jat d ''improvement_id'') then fail BadCardinality
     else
       bindE (parse_time (jat d ''not_before'')) (\<lambda>not_before.
       bindE (expires_field (jat d ''expires_at'')) (\<lambda>expires_at.
       if (case expires_at of None \<Rightarrow> False | Some e \<Rightarrow> instant e \<le> instant not_before)
       then fail BadTime
       else Inr (crd, max_uses, not_before, expires_at)))))"

definition grant_issuer_decisions :: "obj \<Rightarrow> (source_rank \<times> source_rank \<times> string list) res" where
  "grant_issuer_decisions d =
     bindE (enum_field (jat d ''issuer_rank'') SOURCE_RANKS) (\<lambda>issuer.
     bindE (enum_field (jat d ''holder_rank'') SOURCE_RANKS) (\<lambda>holder.
     if rank_value issuer \<le> rank_value holder then fail BadRank
     else case jat d ''decision_classes'' of
       JList decisions \<Rightarrow>
         if decisions = [] then fail BadList
         else (let normalized = sort_uniq (map py_str decisions) in
           if length normalized \<noteq> length decisions
              \<or> \<not> list_all (\<lambda>x. x \<in> set (map fst DECISION_CLASSES)) normalized
           then fail BadList else Inr (issuer, holder, normalized))
     | _ \<Rightarrow> fail BadList))"

definition receipt_path_field :: "string \<Rightarrow> json \<Rightarrow> string res" where
  "receipt_path_field pre v =
     (let reference = strip (str_or_empty v) in
      if reference = [] \<or> path_like_unsafe reference \<or> \<not> starts_with reference pre
         \<or> \<not> ends_with reference ''/receipt.json''
      then fail BadPath else Inr reference)"

definition grant_materialization :: "obj \<Rightarrow> json \<Rightarrow> materialization res" where
  "grant_materialization d version =
     (if version \<notin> {JInt 3, JInt 4} then Inr Schema2
      else
        bindE (sha_field (jat d ''request_sha256'')) (\<lambda>sha.
        if version = JInt 3 then
          bindE (receipt_path_field ''.task/authorization/root_grant_materializations/''
                   (jat d ''root_materialization_ref'')) (\<lambda>reference.
            Inr (Schema3 sha reference))
        else
          bindE (receipt_path_field ''.task/authorization/authority_interaction_activations/''
                   (jat d ''activation_materialization_ref'')) (\<lambda>reference.
            Inr (Schema4 sha reference))))"

subsection \<open>The grant\<close>

definition grant_expected_keys :: "json \<Rightarrow> string list" where
  "grant_expected_keys version =
     (if version = JInt 2 then GRANT_KEYS else if version = JInt 3 then GRANT_V3_KEYS
      else if version = JInt 4 then GRANT_V4_KEYS else [])"

definition validate_grant :: "obj \<Rightarrow> grant res" where
  "validate_grant d =
     (let version = jat d ''schema_version'' in
     bindE (closed_keys d (grant_expected_keys version)) (\<lambda>_.
     bindE (required_keys d (grant_expected_keys version)) (\<lambda>_.
     if version \<notin> {JInt 2, JInt 3, JInt 4} \<or> jat d ''artifact_kind'' \<noteq> JStr ''authority_grant''
     then fail BadContract
     else
     bindE (grant_scope d) (\<lambda>(subjects, operations).
     bindE (grant_lifetime d) (\<lambda>(crd, max_uses, not_before, expires_at).
     bindE (grant_issuer_decisions d) (\<lambda>(issuer, holder, decisions).
     bindE (identifier_field (jat d ''grant_id'')) (\<lambda>grant_id.
     bindE (identifier_field (jat d ''lineage_id'')) (\<lambda>lineage_id.
     bindE (nullable_identifier (jat d ''parent_grant_id'')) (\<lambda>parent_grant_id.
     bindE (capabilities_field (jat d ''capabilities'')) (\<lambda>capabilities.
     bindE (enum_field (jat d ''risk_ceiling'') RISK_TIERS) (\<lambda>risk_ceiling.
     bindE (nullable_identifier (jat d ''session_id'')) (\<lambda>session_id.
     bindE (nullable_identifier (jat d ''task_id'')) (\<lambda>task_id.
     bindE (nullable_identifier (jat d ''improvement_id'')) (\<lambda>improvement_id.
     bindE (binding_field (jat d ''source_approval'')) (\<lambda>source_approval.
     bindE (binding_field (jat d ''policy_snapshot'')) (\<lambda>policy_snapshot.
     bindE (parse_time (jat d ''created_at'')) (\<lambda>created_at.
     bindE (identifier_field (jat d ''idempotency_key'')) (\<lambda>idempotency_key.
     bindE (grant_materialization d version) (\<lambda>materialization.
     Inr \<lparr>g_grant_id = grant_id, g_lineage_id = lineage_id, g_parent_grant_id = parent_grant_id,
          g_issuer_rank = issuer, g_holder_rank = holder, g_capabilities = capabilities,
          g_subjects = sort_key subject_key subjects,
          g_operations = sort_key operation_key operations, g_risk_ceiling = risk_ceiling,
          g_decision_classes = decisions, g_cardinality = crd, g_max_uses = max_uses,
          g_not_before = not_before, g_expires_at = expires_at, g_session_id = session_id,
          g_task_id = task_id, g_improvement_id = improvement_id,
          g_source_approval = source_approval, g_policy_snapshot = policy_snapshot,
          g_created_at = created_at, g_idempotency_key = idempotency_key,
          g_materialization = materialization\<rparr>)))))))))))))))))))"

definition opt_int :: "int option \<Rightarrow> json" where
  "opt_int x = (case x of None \<Rightarrow> JNull | Some n \<Rightarrow> JInt n)"

definition opt_time :: "datetime option \<Rightarrow> json" where
  "opt_time x = (case x of None \<Rightarrow> JNull | Some t \<Rightarrow> JStr (isoformat t))"

definition grant_version :: "grant \<Rightarrow> int" where
  "grant_version g = (case g_materialization g of Schema2 \<Rightarrow> 2 | Schema3 _ _ \<Rightarrow> 3 | Schema4 _ _ \<Rightarrow> 4)"

definition materialization_json :: "materialization \<Rightarrow> obj" where
  "materialization_json m =
     (case m of Schema2 \<Rightarrow> []
      | Schema3 sha reference \<Rightarrow>
          [(''request_sha256'', JStr sha), (''root_materialization_ref'', JStr reference)]
      | Schema4 sha reference \<Rightarrow>
          [(''request_sha256'', JStr sha), (''activation_materialization_ref'', JStr reference)])"

definition grant_json :: "grant \<Rightarrow> obj" where
  "grant_json g =
    [(''schema_version'', JInt (grant_version g)),
     (''artifact_kind'', JStr ''authority_grant''),
     (''grant_id'', JStr (g_grant_id g)),
     (''lineage_id'', JStr (g_lineage_id g)),
     (''parent_grant_id'', opt_str (g_parent_grant_id g)),
     (''issuer_rank'', JStr (enum_name SOURCE_RANKS (g_issuer_rank g))),
     (''holder_rank'', JStr (enum_name SOURCE_RANKS (g_holder_rank g))),
     (''capabilities'', JList (map JStr (g_capabilities g))),
     (''subjects'', JList (map subject_json (g_subjects g))),
     (''operations'', JList (map operation_json (g_operations g))),
     (''risk_ceiling'', JStr (enum_name RISK_TIERS (g_risk_ceiling g))),
     (''decision_classes'', JList (map JStr (g_decision_classes g))),
     (''cardinality'', JStr (enum_name CARDINALITIES (g_cardinality g))),
     (''max_uses'', opt_int (g_max_uses g)),
     (''not_before'', JStr (isoformat (g_not_before g))),
     (''expires_at'', opt_time (g_expires_at g)),
     (''session_id'', opt_str (g_session_id g)),
     (''task_id'', opt_str (g_task_id g)),
     (''improvement_id'', opt_str (g_improvement_id g)),
     (''source_approval'', binding_json (g_source_approval g)),
     (''policy_snapshot'', binding_json (g_policy_snapshot g)),
     (''created_at'', JStr (isoformat (g_created_at g))),
     (''idempotency_key'', JStr (g_idempotency_key g))]
    @ materialization_json (g_materialization g)"

text \<open>\<^verbatim>\<open>root_grant_request_binding_covers\<close>; \<open>H\<close> is \<^verbatim>\<open>object_sha256\<close>\<close>

definition root_grant_request_binding_covers :: "(json \<Rightarrow> string) \<Rightarrow> grant \<Rightarrow> request \<Rightarrow> bool" where
  "root_grant_request_binding_covers H g r =
     (case g_materialization g of Schema2 \<Rightarrow> True
      | Schema3 sha _ \<Rightarrow> sha = H (JObj (request_json r))
      | Schema4 sha _ \<Rightarrow> sha = H (JObj (request_json r)))"

subsection \<open>The normal form is a fixed point\<close>

lemma operation_field_again: "operation_field v = Inr x \<Longrightarrow> operation_field (operation_json x) = Inr x"
  by (auto simp: operation_field_def operation_json_def bindE_eq_Inr closed_keys_def required_keys_def
      OPERATION_SCOPE_KEYS_def jkeys_def jat_def identifier_field_again split: json.splits if_splits)

lemma nonempty_list_field_eq: "nonempty_list_field v = Inr xs \<longleftrightarrow> v = JList xs \<and> xs \<noteq> []"
  by (auto simp: nonempty_list_field_def split: json.splits if_splits)

lemma grant_scope_again:
  assumes "grant_scope d = Inr (ss, xs)"
    and "jat d' ''subjects'' = JList (map subject_json (sort_key subject_key ss))"
    and "jat d' ''operations'' = JList (map operation_json (sort_key operation_key xs))"
  shows "grant_scope d' = Inr (sort_key subject_key ss, sort_key operation_key xs)"
proof -
  from assms(1) obtain vs ws where "mapE validate_subject vs = Inr ss" "vs \<noteq> []"
    and "mapE operation_field ws = Inr xs" "ws \<noteq> []" and dist: "distinct (map subject_key ss)"
    by (auto simp: grant_scope_def result_simps nonempty_list_field_eq)
  then have "mapE validate_subject (map subject_json (sort_key subject_key ss)) = Inr (sort_key subject_key ss)"
    and "mapE operation_field (map operation_json (sort_key operation_key xs)) = Inr (sort_key operation_key xs)"
    and "ss \<noteq> []" "xs \<noteq> []"
    by (auto intro!: mapE_again dest: validate_subject_again operation_field_again mapE_length)
  moreover from \<open>ss \<noteq> []\<close> \<open>xs \<noteq> []\<close> have "sort_key subject_key ss \<noteq> []" "sort_key operation_key xs \<noteq> []"
    by (metis set_empty set_sort)+
  ultimately show ?thesis
    by (simp add: grant_scope_def assms(2,3) nonempty_list_field_def distinct_map_sort_key dist)
qed

lemma opt_fields_again:
  "max_uses_field v = Inr x \<Longrightarrow> max_uses_field (opt_int x) = Inr x"
  "expires_field w = Inr y \<Longrightarrow> expires_field (opt_time y) = Inr y"
  by (auto simp: max_uses_field_def opt_int_def expires_field_def opt_time_def bindE_eq_Inr
      parse_time_again split: json.splits if_splits option.splits)

lemma identifier_field_nonempty: "identifier_field v = Inr s \<Longrightarrow> s \<noteq> []"
  by (auto simp: identifier_field_def is_identifier_def Let_def split: if_splits list.splits)

lemma nullable_identifier_truthy:
  "nullable_identifier v = Inr x \<Longrightarrow> truthy v \<Longrightarrow> truthy (opt_str x)"
  by (auto simp: nullable_identifier_def opt_str_def bindE_eq_Inr dest: identifier_field_nonempty
      split: if_splits)

lemma grant_lifetime_again:
  assumes "grant_lifetime d = Inr (crd, mu, nb, ex)"
    and "nullable_identifier (jat d ''task_id'') = Inr t" "nullable_identifier (jat d ''improvement_id'') = Inr i"
    and "jat d' ''cardinality'' = JStr (enum_name CARDINALITIES crd)" "jat d' ''max_uses'' = opt_int mu"
    and "jat d' ''not_before'' = JStr (isoformat nb)" "jat d' ''expires_at'' = opt_time ex"
    and "jat d' ''task_id'' = opt_str t" "jat d' ''improvement_id'' = opt_str i"
  shows "grant_lifetime d' = Inr (crd, mu, nb, ex)"
proof -
  note facts = assms(1) [unfolded grant_lifetime_def result_simps prod.inject]
  from facts have f: "max_uses_field (jat d ''max_uses'') = Inr mu" "expires_field (jat d ''expires_at'') = Inr ex"
    "parse_time (jat d ''not_before'') = Inr nb"
    by auto
  have t: "crd = Task_lease \<Longrightarrow> truthy (opt_str t)" "crd = Improvement_lease \<Longrightarrow> truthy (opt_str i)"
    using facts assms(2,3) by (auto dest: nullable_identifier_truthy)
  show ?thesis
    unfolding grant_lifetime_def assms(4-9)
    using facts t
    by (auto simp: opt_fields_again(1) [OF f(1)] opt_fields_again(2) [OF f(2)] parse_time_again [OF f(3)])
qed

lemma grant_issuer_decisions_again:
  assumes "grant_issuer_decisions d = Inr (ir, hr, ds)"
    and "jat d' ''issuer_rank'' = JStr (enum_name SOURCE_RANKS ir)"
    and "jat d' ''holder_rank'' = JStr (enum_name SOURCE_RANKS hr)"
    and "jat d' ''decision_classes'' = JList (map JStr ds)"
  shows "grant_issuer_decisions d' = Inr (ir, hr, ds)"
proof (cases "jat d ''decision_classes''")
  case (JList xs)
  with assms(1) show ?thesis
    unfolding grant_issuer_decisions_def assms(2-4) by (auto simp: result_simps Let_def o_def)
qed (use assms(1) in \<open>simp_all add: grant_issuer_decisions_def result_simps\<close>)

lemma receipt_path_field_again: "receipt_path_field p v = Inr s \<Longrightarrow> receipt_path_field p (JStr s) = Inr s"
  by (auto simp: receipt_path_field_def Let_def split: if_splits)

lemma grant_materialization_again:
  assumes "grant_materialization d v = Inr m" and "v \<in> {JInt 2, JInt 3, JInt 4}"
    and "\<And>k. k \<in> {''request_sha256'', ''root_materialization_ref'', ''activation_materialization_ref''} \<Longrightarrow>
       jat d' k = jat (materialization_json m) k"
  shows "grant_materialization d' v = Inr m"
    and "v = JInt (case m of Schema2 \<Rightarrow> 2 | Schema3 _ _ \<Rightarrow> 3 | Schema4 _ _ \<Rightarrow> 4)"
proof -
  note fields = assms(3) [of "''request_sha256''", simplified] assms(3) [of "''root_materialization_ref''", simplified]
    assms(3) [of "''activation_materialization_ref''", simplified]
  note fs = grant_materialization_def bindE_eq_Inr materialization_json_def sha_field_again
      receipt_path_field_again
  from assms(1,2) have "grant_materialization d' v = Inr m \<and> v = JInt (case m of Schema2 \<Rightarrow> 2 | Schema3 _ _ \<Rightarrow> 3 | Schema4 _ _ \<Rightarrow> 4)"
    by (elim insertE emptyE) (auto simp: fs fields)
  then show "grant_materialization d' v = Inr m"
    and "v = JInt (case m of Schema2 \<Rightarrow> 2 | Schema3 _ _ \<Rightarrow> 3 | Schema4 _ _ \<Rightarrow> 4)" by auto
qed


lemma grant_json_fields:
  "jat (grant_json g) ''schema_version'' = JInt (grant_version g)"
  "jat (grant_json g) ''artifact_kind'' = JStr ''authority_grant''"
  "jat (grant_json g) ''grant_id'' = JStr (g_grant_id g)"
  "jat (grant_json g) ''lineage_id'' = JStr (g_lineage_id g)"
  "jat (grant_json g) ''parent_grant_id'' = opt_str (g_parent_grant_id g)"
  "jat (grant_json g) ''issuer_rank'' = JStr (enum_name SOURCE_RANKS (g_issuer_rank g))"
  "jat (grant_json g) ''holder_rank'' = JStr (enum_name SOURCE_RANKS (g_holder_rank g))"
  "jat (grant_json g) ''capabilities'' = JList (map JStr (g_capabilities g))"
  "jat (grant_json g) ''subjects'' = JList (map subject_json (g_subjects g))"
  "jat (grant_json g) ''operations'' = JList (map operation_json (g_operations g))"
  "jat (grant_json g) ''risk_ceiling'' = JStr (enum_name RISK_TIERS (g_risk_ceiling g))"
  "jat (grant_json g) ''decision_classes'' = JList (map JStr (g_decision_classes g))"
  "jat (grant_json g) ''cardinality'' = JStr (enum_name CARDINALITIES (g_cardinality g))"
  "jat (grant_json g) ''max_uses'' = opt_int (g_max_uses g)"
  "jat (grant_json g) ''not_before'' = JStr (isoformat (g_not_before g))"
  "jat (grant_json g) ''expires_at'' = opt_time (g_expires_at g)"
  "jat (grant_json g) ''session_id'' = opt_str (g_session_id g)"
  "jat (grant_json g) ''task_id'' = opt_str (g_task_id g)"
  "jat (grant_json g) ''improvement_id'' = opt_str (g_improvement_id g)"
  "jat (grant_json g) ''source_approval'' = binding_json (g_source_approval g)"
  "jat (grant_json g) ''policy_snapshot'' = binding_json (g_policy_snapshot g)"
  "jat (grant_json g) ''created_at'' = JStr (isoformat (g_created_at g))"
  "jat (grant_json g) ''idempotency_key'' = JStr (g_idempotency_key g)"
  by (simp_all add: grant_json_def)

lemma grant_json_materialization:
  "k \<in> {''request_sha256'', ''root_materialization_ref'', ''activation_materialization_ref''} \<Longrightarrow>
   jat (grant_json g) k = jat (materialization_json (g_materialization g)) k"
  by (elim insertE emptyE) (simp_all add: grant_json_def)

lemma grant_json_closed:
  "closed_keys (grant_json g) (grant_expected_keys (JInt (grant_version g))) = Inr ()"
  "required_keys (grant_json g) (grant_expected_keys (JInt (grant_version g))) = Inr ()"
  by (simp_all add: grant_json_def closed_keys_def required_keys_def jkeys_def grant_version_def
      grant_expected_keys_def GRANT_KEYS_def GRANT_V3_KEYS_def GRANT_V4_KEYS_def
      materialization_json_def split: materialization.split)

definition grant_accepted ::
  "obj \<Rightarrow> subject list \<Rightarrow> operation_scope list \<Rightarrow> grant \<Rightarrow> bool" where
  "grant_accepted d ss xs g \<longleftrightarrow>
     closed_keys d (grant_expected_keys (jat d ''schema_version'')) = Inr () \<and>
     required_keys d (grant_expected_keys (jat d ''schema_version'')) = Inr () \<and>
     jat d ''schema_version'' \<in> {JInt 2, JInt 3, JInt 4} \<and>
     jat d ''artifact_kind'' = JStr ''authority_grant'' \<and>
     grant_scope d = Inr (ss, xs) \<and>
     g_subjects g = sort_key subject_key ss \<and>
     g_operations g = sort_key operation_key xs \<and>
     grant_lifetime d = Inr (g_cardinality g, g_max_uses g, g_not_before g, g_expires_at g) \<and>
     grant_issuer_decisions d = Inr (g_issuer_rank g, g_holder_rank g, g_decision_classes g) \<and>
     identifier_field (jat d ''grant_id'') = Inr (g_grant_id g) \<and>
     identifier_field (jat d ''lineage_id'') = Inr (g_lineage_id g) \<and>
     nullable_identifier (jat d ''parent_grant_id'') = Inr (g_parent_grant_id g) \<and>
     capabilities_field (jat d ''capabilities'') = Inr (g_capabilities g) \<and>
     enum_field (jat d ''risk_ceiling'') RISK_TIERS = Inr (g_risk_ceiling g) \<and>
     nullable_identifier (jat d ''session_id'') = Inr (g_session_id g) \<and>
     nullable_identifier (jat d ''task_id'') = Inr (g_task_id g) \<and>
     nullable_identifier (jat d ''improvement_id'') = Inr (g_improvement_id g) \<and>
     binding_field (jat d ''source_approval'') = Inr (g_source_approval g) \<and>
     binding_field (jat d ''policy_snapshot'') = Inr (g_policy_snapshot g) \<and>
     parse_time (jat d ''created_at'') = Inr (g_created_at g) \<and>
     identifier_field (jat d ''idempotency_key'') = Inr (g_idempotency_key g) \<and>
     grant_materialization d (jat d ''schema_version'') = Inr (g_materialization g)"

lemma grant_acceptedI: "grant_accepted d ss xs g \<Longrightarrow> validate_grant d = Inr g"
  unfolding validate_grant_def grant_accepted_def Let_def
  by (cases g) (elim conjE, simp)

lemma grant_acceptedE:
  assumes "validate_grant d = Inr g"
  obtains ss xs where "grant_accepted d ss xs g"
proof -
  from assms obtain ss xs where scope: "grant_scope d = Inr (ss, xs)"
    by (auto simp: validate_grant_def result_simps Let_def)
  with assms obtain c m n e where life: "grant_lifetime d = Inr (c, m, n, e)"
    by (auto simp: validate_grant_def result_simps Let_def)
  with scope assms obtain ir hr ds where iss: "grant_issuer_decisions d = Inr (ir, hr, ds)"
    by (auto simp: validate_grant_def result_simps Let_def)
  note facts = assms [unfolded validate_grant_def Let_def scope life iss bindE_simps prod.case result_simps]
  from facts have "grant_accepted d ss xs g"
    unfolding grant_accepted_def
    by (elim exE conjE) (simp only: scope life iss, auto)
  with that show thesis by blast
qed

lemma grant_accepted_again:
  assumes "grant_accepted d ss xs g"
  shows "grant_accepted (grant_json g) (g_subjects g) (g_operations g) g"
proof -
  from assms have mat: "grant_materialization d (jat d ''schema_version'') = Inr (g_materialization g)"
    and v: "jat d ''schema_version'' \<in> {JInt 2, JInt 3, JInt 4}"
    and sub: "g_subjects g = sort_key subject_key ss" and op: "g_operations g = sort_key operation_key xs"
    by (simp_all add: grant_accepted_def)
  have m: "grant_materialization (grant_json g) (jat d ''schema_version'') = Inr (g_materialization g)"
    "jat d ''schema_version'' = JInt (case g_materialization g of Schema2 \<Rightarrow> 2
       | Schema3 _ _ \<Rightarrow> 3 | Schema4 _ _ \<Rightarrow> 4)"
    by (rule grant_materialization_again [OF mat v], erule grant_json_materialization)+
  have so: "g_subjects g = sort_key subject_key (g_subjects g)"
    "g_operations g = sort_key operation_key (g_operations g)"
    by (simp_all only: sub op sort_key_again)
  have ver: "jat d ''schema_version'' = JInt (grant_version g)"
    using m(2) by (simp add: grant_version_def)
  have scope: "grant_scope (grant_json g) = Inr (g_subjects g, g_operations g)"
    unfolding sub op
  proof (rule grant_scope_again)
    from assms show "grant_scope d = Inr (ss, xs)" by (simp add: grant_accepted_def)
  qed (simp_all add: grant_json_fields sub op)
  show ?thesis
    using assms m(1) v scope so
    unfolding grant_accepted_def ver grant_json_fields
    apply (elim conjE, intro conjI)
    apply (simp_all (no_asm) only: grant_json_closed enum_field_name)
    apply (assumption | erule identifier_field_again nullable_identifier_again binding_field_again
        capabilities_field_again parse_time_again
      | (erule grant_lifetime_again; (assumption | rule grant_json_fields))
      | (erule grant_issuer_decisions_again; rule grant_json_fields))+
    done
qed

lemma validate_grant_idem:
  assumes "validate_grant d = Inr g"
  shows "validate_grant (grant_json g) = Inr g"
  using assms by (rule grant_acceptedE) (blast intro: grant_acceptedI grant_accepted_again)

interpretation grant_form: normalizer validate_grant grant_json
  by unfold_locales (rule validate_grant_idem)

end
