(* ===== verification/Operations.thy ===== *)
theory Operations
  imports Grant_Contract
begin

text \<open>
  Operation manifests (\<^verbatim>\<open>operations.py\<close>): the closed manifest of a skill, its normalization
  \<^verbatim>\<open>validate_manifest\<close>, and \<^verbatim>\<open>load_operation\<close>, which finds the entry of a request. A file
  below a directory is what one read of it gives: absent, rejected by the path checks of
  \<^verbatim>\<open>resolve_workspace_path\<close> (a symbolic link or an escape), or a digest with the parsed document
  (\<open>None\<close> when the bytes are not readable JSON).
\<close>

subsection \<open>Files\<close>

datatype file_entry = Absent | Unsafe | File (file_sha256: string) (file_json: "json option")

type_synonym files = "string \<Rightarrow> file_entry"

text \<open>
  \<^verbatim>\<open>resolve_workspace_path\<close> followed by \<^verbatim>\<open>sha256_file\<close>, for a regular file that must exist;
  \<open>verify_binding\<close> compares the digest with the bound one
\<close>

definition read_file :: "files \<Rightarrow> string \<Rightarrow> (string \<times> json option) res" where
  "read_file fs ref =
     (if strip ref = [] \<or> starts_with (strip ref) ''/'' then fail BadPath
      else case fs (strip ref) of
        Unsafe \<Rightarrow> fail EscapesBoundary
      | Absent \<Rightarrow> fail Missing
      | File sha j \<Rightarrow> Inr (sha, j))"

definition verify_binding :: "files \<Rightarrow> binding \<Rightarrow> json option res" where
  "verify_binding fs b =
     bindE (read_file fs (b_ref b)) (\<lambda>r.
     if fst r \<noteq> b_sha256 b then fail DigestMismatch else Inr (snd r))"

subsection \<open>Manifests\<close>

datatype applicability = App_required | App_conditional | App_none
datatype mechanism = Mech_none | Mech_grant | Mech_typed_source_approval | Mech_bound_lifecycle_artifact

definition APPLICABILITY :: "(string \<times> applicability) list" where
  "APPLICABILITY = [(''required'', App_required), (''conditional'', App_conditional), (''none'', App_none)]"

definition AUTHORIZATION_MECHANISMS :: "(string \<times> mechanism) list" where
  "AUTHORIZATION_MECHANISMS = [(''none'', Mech_none), (''grant'', Mech_grant),
     (''typed_source_approval'', Mech_typed_source_approval),
     (''bound_lifecycle_artifact'', Mech_bound_lifecycle_artifact)]"

record operation =
  op_operation_id :: string
  op_operation_version :: string
  op_mutation_class :: mutation_class
  op_required_capabilities :: "string list"
  op_source_rank_floor :: source_rank
  op_risk_floor :: risk_tier
  op_decision_class :: decision_class
  op_effect_classes :: "string list"
  op_data_classes :: "string list"
  op_reversibility :: reversibility
  op_subject_kinds :: "string list"
  op_authority_applicability :: applicability
  op_authorization_mechanism :: mechanism

record manifest =
  mf_skill_id :: string
  mf_skill_version :: string
  mf_operations :: "operation list"

definition MANIFEST_KEYS :: "string list" where
  "MANIFEST_KEYS = [''schema_version'', ''manifest_kind'', ''skill_id'', ''skill_version'', ''operations'']"

definition OPERATION_KEYS :: "string list" where
  "OPERATION_KEYS =
    [''operation_id'', ''operation_version'', ''mutation_class'', ''required_capabilities'',
     ''source_rank_floor'', ''risk_floor'', ''decision_class'', ''effect_classes'',
     ''data_classes'', ''reversibility'', ''subject_kinds'', ''authority_applicability'',
     ''authorization_mechanism'']"

text \<open>The extra and missing test that the manifest and the context validators share\<close>

definition exact_keys :: "obj \<Rightarrow> string list \<Rightarrow> unit res" where
  "exact_keys d ks =
     (if list_all (\<lambda>k. k \<in> set ks) (jkeys d) \<and> list_all (\<lambda>k. k \<in> set (jkeys d)) ks
      then Inr () else fail NotClosed)"

text \<open>\<^verbatim>\<open>_strings\<close> without and with the capability pattern; \<^verbatim>\<open>_exact_strings\<close> is the former\<close>

definition exact_strings :: "json \<Rightarrow> string list res" where
  "exact_strings v =
     (case v of
        JList xs \<Rightarrow>
          if xs = [] then fail BadList
          else (let normalized = sort_uniq (map py_str xs) in
            if length normalized \<noteq> length xs \<or> list_ex (\<lambda>s. s = [] \<or> CHR ''*'' \<in> set s) normalized
            then fail BadList else Inr normalized)
      | _ \<Rightarrow> fail BadList)"

definition capability_strings :: "json \<Rightarrow> string list res" where
  "capability_strings v =
     bindE (exact_strings v) (\<lambda>xs. if list_all is_capability xs then Inr xs else fail BadList)"

text \<open>An enumeration read with \<^verbatim>\<open>str(value)\<close>\<close>

definition enum_str :: "json \<Rightarrow> (string \<times> 'a) list \<Rightarrow> 'a res" where
  "enum_str v table = (case map_of table (py_str v) of None \<Rightarrow> fail BadEnum | Some x \<Rightarrow> Inr x)"

text \<open>One entry of the loop over the operations; \<open>seen\<close> holds the identities met so far\<close>

definition manifest_entry :: "(string \<times> string) list \<Rightarrow> json \<Rightarrow> operation res" where
  "manifest_entry seen v =
     (case v of
        JObj d \<Rightarrow>
          bindE (exact_keys d OPERATION_KEYS) (\<lambda>_.
          let oid = str_or_empty (jat d ''operation_id'');
              ov = str_or_empty (jat d ''operation_version'') in
          if oid = [] \<or> ov = [] \<or> (oid, ov) \<in> set seen then fail BadIdentifier
          else
          bindE (enum_str (jat d ''mutation_class'') MUTATION_CLASSES) (\<lambda>mutation.
          bindE (enum_str (jat d ''source_rank_floor'') SOURCE_RANKS) (\<lambda>rank.
          bindE (enum_str (jat d ''risk_floor'') RISK_TIERS) (\<lambda>risk.
          bindE (enum_str (jat d ''decision_class'') DECISION_CLASSES) (\<lambda>decision.
          bindE (enum_str (jat d ''reversibility'') REVERSIBILITY) (\<lambda>rev.
          bindE (enum_str (jat d ''authority_applicability'') APPLICABILITY) (\<lambda>app.
          bindE (enum_str (jat d ''authorization_mechanism'') AUTHORIZATION_MECHANISMS) (\<lambda>mech.
          if (app = App_none) \<noteq> (mech = Mech_none) then fail Conflict
          else
          bindE (capability_strings (jat d ''required_capabilities'')) (\<lambda>caps.
          bindE (exact_strings (jat d ''effect_classes'')) (\<lambda>effects.
          bindE (exact_strings (jat d ''data_classes'')) (\<lambda>datas.
          bindE (exact_strings (jat d ''subject_kinds'')) (\<lambda>kinds.
          Inr \<lparr>op_operation_id = oid, op_operation_version = ov, op_mutation_class = mutation,
               op_required_capabilities = caps, op_source_rank_floor = rank, op_risk_floor = risk,
               op_decision_class = decision, op_effect_classes = effects,
               op_data_classes = datas, op_reversibility = rev, op_subject_kinds = kinds,
               op_authority_applicability = app, op_authorization_mechanism = mech\<rparr>))))))))))))
      | _ \<Rightarrow> fail NotAnObject)"

fun manifest_entries :: "(string \<times> string) list \<Rightarrow> json list \<Rightarrow> operation list res" where
  "manifest_entries seen [] = Inr []"
| "manifest_entries seen (v # vs) =
     bindE (manifest_entry seen v) (\<lambda>e.
     bindE (manifest_entries ((op_operation_id e, op_operation_version e) # seen) vs) (\<lambda>es.
     Inr (e # es)))"

definition operation_identity :: "operation \<Rightarrow> string list" where
  "operation_identity e = [op_operation_id e, op_operation_version e]"

definition validate_manifest :: "obj \<Rightarrow> manifest res" where
  "validate_manifest d =
     bindE (exact_keys d MANIFEST_KEYS) (\<lambda>_.
     if jat d ''schema_version'' \<noteq> JInt 2 \<or> jat d ''manifest_kind'' \<noteq> JStr ''authority_operations''
     then fail BadContract
     else
       let skill_id = str_or_empty (jat d ''skill_id'');
           skill_version = str_or_empty (jat d ''skill_version'') in
       if skill_id = [] \<or> skill_version = [] then fail BadIdentifier
       else case jat d ''operations'' of
         JList vs \<Rightarrow>
           if vs = [] then fail BadList
           else bindE (manifest_entries [] vs) (\<lambda>es.
             Inr \<lparr>mf_skill_id = skill_id, mf_skill_version = skill_version,
                  mf_operations = sort_key operation_identity es\<rparr>)
       | _ \<Rightarrow> fail BadList)"

text \<open>
  \<^verbatim>\<open>load_operation\<close>: the entry for the identity and the binding of the manifest file. A missing
  file gives neither; a manifest of another skill or version gives its binding only.
\<close>

definition load_operation ::
  "files \<Rightarrow> string \<Rightarrow> string \<Rightarrow> string \<Rightarrow> string \<Rightarrow> (operation option \<times> binding option) res" where
  "load_operation skills skill_id skill_version operation_id operation_version =
     (let ref = skill_id @ ''/authority.operations.json'' in
      case skills ref of
        Unsafe \<Rightarrow> fail EscapesBoundary
      | Absent \<Rightarrow> Inr (None, None)
      | File sha (Some (JObj d)) \<Rightarrow>
          bindE (validate_manifest d) (\<lambda>m.
          let b = Some \<lparr>b_ref = ref, b_sha256 = sha\<rparr> in
          if mf_skill_id m \<noteq> skill_id \<or> mf_skill_version m \<noteq> skill_version then Inr (None, b)
          else Inr (List.find (\<lambda>e. op_operation_id e = operation_id
                                   \<and> op_operation_version e = operation_version) (mf_operations m), b))
      | File sha _ \<Rightarrow> fail NotAnObject)"

subsection \<open>Facts\<close>

lemma exact_keys_iff: "exact_keys d ks = Inr () \<longleftrightarrow> set (jkeys d) = set ks"
  by (auto simp: exact_keys_def list_all_iff)

lemma exact_stringsD:
  assumes "exact_strings v = Inr xs"
  shows "sorted xs" "distinct xs" "xs \<noteq> []" "\<forall>s \<in> set xs. s \<noteq> [] \<and> CHR ''*'' \<notin> set s"
proof -
  from assms obtain ys where v: "v = JList ys" by (cases v) (auto simp: exact_strings_def)
  with assms show "sorted xs" "distinct xs" "xs \<noteq> []" "\<forall>s \<in> set xs. s \<noteq> [] \<and> CHR ''*'' \<notin> set s"
    by (auto simp: exact_strings_def Let_def list_ex_iff split: if_splits) metis
qed

lemma exact_strings_again: "exact_strings v = Inr xs \<Longrightarrow> exact_strings (JList (map JStr xs)) = Inr xs"
proof -
  assume a: "exact_strings v = Inr xs"
  then obtain ys where v: "v = JList ys" by (cases v) (auto simp: exact_strings_def)
  with a show ?thesis by (auto simp: exact_strings_def Let_def o_def split: if_splits)
qed

text \<open>The identities of a manifest are distinct, so a lookup is unambiguous\<close>

lemma manifest_entry_identity:
  assumes "manifest_entry seen v = Inr e"
  shows "(op_operation_id e, op_operation_version e) \<notin> set seen"
    and "(op_authority_applicability e = App_none) = (op_authorization_mechanism e = Mech_none)"
proof -
  from assms obtain d where v: "v = JObj d" by (cases v) (auto simp: manifest_entry_def)
  note facts = assms [unfolded manifest_entry_def v json.case Let_def result_simps]
  from facts show "(op_operation_id e, op_operation_version e) \<notin> set seen" by auto
  from facts show "(op_authority_applicability e = App_none) = (op_authorization_mechanism e = Mech_none)"
    by auto
qed

lemma manifest_entries_distinct:
  "manifest_entries seen vs = Inr es \<Longrightarrow>
   distinct (map (\<lambda>e. (op_operation_id e, op_operation_version e)) es) \<and>
   set (map (\<lambda>e. (op_operation_id e, op_operation_version e)) es) \<inter> set seen = {}"
proof (induction vs arbitrary: seen es)
  case Nil
  then show ?case by simp
next
  case (Cons v vs)
  then obtain e es' where e: "manifest_entry seen v = Inr e" and es: "es = e # es'"
    and r: "manifest_entries ((op_operation_id e, op_operation_version e) # seen) vs = Inr es'"
    by (auto simp: bindE_eq_Inr)
  from Cons.IH [OF r] manifest_entry_identity(1) [OF e] show ?case by (auto simp: es)
qed

end
