(* ===== verification/Eval_Context.thy ===== *)
theory Eval_Context
  imports Operations
begin

text \<open>
  The evaluation context of \<^verbatim>\<open>evaluation_context.py\<close>: the session ceiling and the goal autonomy
  envelope (\<^verbatim>\<open>_normalize_evaluation_context\<close>), the check of the bound source and evidence files,
  and \<^verbatim>\<open>context_decision\<close>, the part of the evaluation that needs no grant.
\<close>

record session_ceiling =
  sc_capabilities :: "string list"
  sc_risk_ceiling :: risk_tier
  sc_mutation_classes :: "string list"
  sc_evidence_id :: string

record envelope =
  en_envelope_id :: string
  en_capabilities :: "string list"
  en_risk_ceiling :: risk_tier
  en_decision_classes :: "string list"
  en_subjects :: "string list"
  en_operations :: "string list"
  en_source_binding :: binding

record eval_context =
  ec_session_ceiling :: session_ceiling
  ec_goal_autonomy_envelope :: envelope

definition EVALUATION_CONTEXT_KEYS :: "string list" where
  "EVALUATION_CONTEXT_KEYS =
     [''schema_version'', ''context_kind'', ''session_ceiling'', ''goal_autonomy_envelope'']"

definition SESSION_KEYS :: "string list" where
  "SESSION_KEYS = [''capabilities'', ''risk_ceiling'', ''mutation_classes'', ''evidence_id'']"

definition ENVELOPE_KEYS :: "string list" where
  "ENVELOPE_KEYS = [''envelope_id'', ''capabilities'', ''risk_ceiling'', ''decision_classes'',
     ''subjects'', ''operations'', ''source_binding'']"

definition is_str :: "json \<Rightarrow> bool" where
  "is_str v = (case v of JStr _ \<Rightarrow> True | _ \<Rightarrow> False)"

text \<open>A non-empty list of strings, kept as it is; the uniqueness test comes later in the code\<close>

definition string_list :: "json \<Rightarrow> string list res" where
  "string_list v =
     (case v of
        JList xs \<Rightarrow> if xs = [] \<or> \<not> list_all is_str xs then fail BadList else Inr (map py_str xs)
      | _ \<Rightarrow> fail BadList)"

definition known_strings :: "json \<Rightarrow> (string \<times> 'a) list \<Rightarrow> string list res" where
  "known_strings v table =
     bindE (exact_strings v) (\<lambda>xs.
     if list_all (\<lambda>x. x \<in> set (map fst table)) xs then Inr xs else fail BadEnum)"

definition source_binding_field :: "json \<Rightarrow> binding res" where
  "source_binding_field v =
     (case v of
        JObj d \<Rightarrow>
          bindE (exact_keys d BINDING_KEYS) (\<lambda>_.
          let ref = strip (str_or_empty (jat d ''ref'')); sha = strip (str_or_empty (jat d ''sha256'')) in
          if ref = [] \<or> starts_with ref ''/'' \<or> ''..'' \<in> set (split_on (CHR ''/'') ref)
             \<or> CHR ''*'' \<in> set ref \<or> \<not> is_sha sha
          then fail BadBinding else Inr \<lparr>b_ref = ref, b_sha256 = sha\<rparr>)
      | _ \<Rightarrow> fail NotAnObject)"

definition opaque_id :: "json \<Rightarrow> string res" where
  "opaque_id v = (let s = strip (str_or_empty v) in if s = [] then fail BadIdentifier else Inr s)"

definition normalize_axes :: "obj \<Rightarrow> obj \<Rightarrow> eval_context res" where
  "normalize_axes session envelope =
     bindE (exact_keys session SESSION_KEYS) (\<lambda>_.
     bindE (exact_keys envelope ENVELOPE_KEYS) (\<lambda>_.
     bindE (known_strings (jat session ''mutation_classes'') MUTATION_CLASSES) (\<lambda>mutation_classes.
     bindE (known_strings (jat envelope ''decision_classes'') DECISION_CLASSES) (\<lambda>decision_classes.
     bindE (string_list (jat envelope ''subjects'')) (\<lambda>subjects.
     bindE (string_list (jat envelope ''operations'')) (\<lambda>operations.
     if \<not> distinct subjects \<or> \<not> distinct operations then fail BadScope
     else
     bindE (source_binding_field (jat envelope ''source_binding'')) (\<lambda>source_binding.
     bindE (enum_str (jat session ''risk_ceiling'') RISK_TIERS) (\<lambda>session_risk.
     bindE (enum_str (jat envelope ''risk_ceiling'') RISK_TIERS) (\<lambda>envelope_risk.
     bindE (opaque_id (jat session ''evidence_id'')) (\<lambda>evidence_id.
     bindE (opaque_id (jat envelope ''envelope_id'')) (\<lambda>envelope_id.
     bindE (exact_strings (jat session ''capabilities'')) (\<lambda>session_capabilities.
     bindE (exact_strings (jat envelope ''capabilities'')) (\<lambda>envelope_capabilities.
     Inr \<lparr>ec_session_ceiling =
            \<lparr>sc_capabilities = session_capabilities, sc_risk_ceiling = session_risk,
             sc_mutation_classes = mutation_classes, sc_evidence_id = evidence_id\<rparr>,
          ec_goal_autonomy_envelope =
            \<lparr>en_envelope_id = envelope_id, en_capabilities = envelope_capabilities,
             en_risk_ceiling = envelope_risk, en_decision_classes = decision_classes,
             en_subjects = sort_uniq subjects, en_operations = sort_uniq operations,
             en_source_binding = source_binding\<rparr>\<rparr>)))))))))))))"

definition normalize_evaluation_context :: "obj \<Rightarrow> eval_context res" where
  "normalize_evaluation_context d =
     bindE (exact_keys d EVALUATION_CONTEXT_KEYS) (\<lambda>_.
     if jat d ''schema_version'' \<noteq> JInt 2 \<or> jat d ''context_kind'' \<noteq> JStr ''authority_evaluation''
     then fail BadContract
     else case (jat d ''session_ceiling'', jat d ''goal_autonomy_envelope'') of
       (JObj session, JObj envelope) \<Rightarrow> normalize_axes session envelope
     | _ \<Rightarrow> fail NotAnObject)"

definition session_json :: "session_ceiling \<Rightarrow> obj" where
  "session_json s =
    [(''capabilities'', JList (map JStr (sc_capabilities s))),
     (''risk_ceiling'', JStr (enum_name RISK_TIERS (sc_risk_ceiling s))),
     (''mutation_classes'', JList (map JStr (sc_mutation_classes s))),
     (''evidence_id'', JStr (sc_evidence_id s))]"

definition envelope_json :: "envelope \<Rightarrow> obj" where
  "envelope_json e =
    [(''envelope_id'', JStr (en_envelope_id e)),
     (''capabilities'', JList (map JStr (en_capabilities e))),
     (''risk_ceiling'', JStr (enum_name RISK_TIERS (en_risk_ceiling e))),
     (''decision_classes'', JList (map JStr (en_decision_classes e))),
     (''subjects'', JList (map JStr (en_subjects e))),
     (''operations'', JList (map JStr (en_operations e))),
     (''source_binding'', binding_json (en_source_binding e))]"

definition eval_context_json :: "eval_context \<Rightarrow> obj" where
  "eval_context_json c =
    [(''schema_version'', JInt 2), (''context_kind'', JStr ''authority_evaluation''),
     (''session_ceiling'', JObj (session_json (ec_session_ceiling c))),
     (''goal_autonomy_envelope'', JObj (envelope_json (ec_goal_autonomy_envelope c)))]"

subsection \<open>Bound files\<close>

definition validate_evaluation_context :: "files \<Rightarrow> obj \<Rightarrow> eval_context res" where
  "validate_evaluation_context fs d =
     bindE (normalize_evaluation_context d) (\<lambda>c.
     bindE (verify_binding fs (en_source_binding (ec_goal_autonomy_envelope c))) (\<lambda>_. Inr c))"

definition verify_evidence :: "files \<Rightarrow> binding option \<Rightarrow> unit res" where
  "verify_evidence fs b =
     (case b of None \<Rightarrow> Inr () | Some x \<Rightarrow> bindE (verify_binding fs x) (\<lambda>_. Inr ()))"

definition verify_request_evidence :: "files \<Rightarrow> request \<Rightarrow> unit res" where
  "verify_request_evidence fs r =
     (let c = rq_context r in
      bindE (verify_evidence fs (rc_external_input_evidence c)) (\<lambda>_.
      bindE (verify_evidence fs (rc_risk_acceptance_evidence c)) (\<lambda>_.
      verify_evidence fs (rc_design_selection_evidence c))))"

subsection \<open>Decisions that need no grant\<close>

datatype decision =
    Allowed | Approval_required | Denied | Waiting_external_input | Capability_unavailable
  | Blocked_by_goal_truth | Classification_repair | Decision_conflict | Not_applicable

definition DECISIONS :: "(string \<times> decision) list" where
  "DECISIONS = [(''allowed'', Allowed), (''approval_required'', Approval_required),
     (''denied'', Denied), (''waiting_external_input'', Waiting_external_input),
     (''capability_unavailable'', Capability_unavailable),
     (''blocked_by_goal_truth'', Blocked_by_goal_truth),
     (''classification_repair'', Classification_repair), (''conflict'', Decision_conflict),
     (''not_applicable'', Not_applicable)]"

definition envelope_operation_key :: "request \<Rightarrow> string" where
  "envelope_operation_key r =
     join '':'' [rq_skill_id r, rq_skill_version r, rq_operation_id r, rq_operation_version r]"

definition context_decision :: "request \<Rightarrow> eval_context \<Rightarrow> (decision \<times> string list) option" where
  "context_decision r ctx =
     (let c = rq_context r; ceiling = ec_session_ceiling ctx; env = ec_goal_autonomy_envelope ctx in
      if rc_external_input_status c = Ext_missing_supplyable
      then Some (Waiting_external_input, [''external_input_missing_supplyable''])
      else if rc_external_input_status c = Ext_missing_unsupplyable
      then Some (Waiting_external_input, [''external_input_unsupplyable_route_local_or_descope''])
      else if rc_external_input_status c = Ext_unverified
      then Some (Classification_repair, [''external_input_availability_unverified''])
      else if rc_goal_truth_status c = Blocked
      then Some (Blocked_by_goal_truth, [''goal_truth_blocks_subject_operation''])
      else if rc_goal_truth_status c = Gt_unverified
      then Some (Classification_repair, [''goal_truth_alignment_unverified''])
      else if rq_intent_type r = Supply_external_input
      then Some (Not_applicable, [''external_input_supply_is_not_authority_grant''])
      else if rq_intent_type r = Ratify_goal_truth
      then Some (Approval_required, [''goal_truth_ratification_requires_goal_owner_decision''])
      else if rq_intent_type r = Accept_risk_or_cost
      then Some (Approval_required, [''risk_cost_acceptance_is_separate_from_authority''])
      else if rq_intent_type r = Select_design_option
      then Some (Approval_required, [''design_selection_is_separate_from_authority''])
      else if rc_risk_acceptance_status c = Sd_unverified
      then Some (Classification_repair, [''risk_acceptance_status_unverified''])
      else if risk_value R2 \<le> risk_value (rq_risk_tier r) \<and> rc_risk_acceptance_status c = Unresolved
      then Some (Approval_required, [''risk_acceptance_unresolved''])
      else if rc_design_selection_status c = Sd_unverified
      then Some (Classification_repair, [''design_selection_status_unverified''])
      else if rq_decision_class r \<in> {D0, D1} \<and> rc_design_selection_status c = Unresolved
      then Some (Approval_required, [''goal_or_design_decision_unresolved''])
      else if \<not> set (rq_required_capabilities r) \<subseteq> set (sc_capabilities ceiling)
      then Some (Capability_unavailable, [''outside_session_capability_ceiling''])
      else if \<not> set (rq_required_capabilities r) \<subseteq> set (en_capabilities env)
      then Some (Blocked_by_goal_truth, [''outside_goal_autonomy_capability_envelope''])
      else if enum_name MUTATION_CLASSES (rq_mutation_class r) \<notin> set (sc_mutation_classes ceiling)
      then Some (Capability_unavailable, [''outside_session_mutation_ceiling''])
      else if risk_value (rq_risk_tier r) > risk_value (sc_risk_ceiling ceiling)
      then Some (Capability_unavailable, [''outside_session_risk_ceiling''])
      else if risk_value (rq_risk_tier r) > risk_value (en_risk_ceiling env)
      then Some (Blocked_by_goal_truth, [''outside_goal_autonomy_risk_ceiling''])
      else if envelope_operation_key r \<notin> set (en_operations env)
              \<or> sub_digest (rq_subject r) \<notin> set (en_subjects env)
      then Some (Blocked_by_goal_truth, [''outside_goal_autonomy_exact_scope''])
      else if enum_name DECISION_CLASSES (rq_decision_class r) \<notin> set (en_decision_classes env)
      then Some (Blocked_by_goal_truth, [''outside_goal_autonomy_decision_class''])
      else None)"

subsection \<open>The contract of the context check\<close>

text \<open>Inside both ceilings with every separate decision settled: what is left to a grant\<close>

definition inside_session :: "request \<Rightarrow> session_ceiling \<Rightarrow> bool" where
  "inside_session r s \<longleftrightarrow>
     set (rq_required_capabilities r) \<subseteq> set (sc_capabilities s) \<and>
     risk_value (rq_risk_tier r) \<le> risk_value (sc_risk_ceiling s) \<and>
     enum_name MUTATION_CLASSES (rq_mutation_class r) \<in> set (sc_mutation_classes s)"

definition inside_envelope :: "request \<Rightarrow> envelope \<Rightarrow> bool" where
  "inside_envelope r e \<longleftrightarrow>
     set (rq_required_capabilities r) \<subseteq> set (en_capabilities e) \<and>
     risk_value (rq_risk_tier r) \<le> risk_value (en_risk_ceiling e) \<and>
     envelope_operation_key r \<in> set (en_operations e) \<and>
     sub_digest (rq_subject r) \<in> set (en_subjects e) \<and>
     enum_name DECISION_CLASSES (rq_decision_class r) \<in> set (en_decision_classes e)"

definition decisions_settled :: "request \<Rightarrow> bool" where
  "decisions_settled r \<longleftrightarrow>
     rc_external_input_status (rq_context r) \<in> {Ext_not_required, Ext_available} \<and>
     rc_goal_truth_status (rq_context r) = Aligned \<and>
     rq_intent_type r = Grant_authority \<and>
     (rc_risk_acceptance_status (rq_context r) \<in> {Not_required, Resolved} \<or>
      rc_risk_acceptance_status (rq_context r) = Unresolved \<and> rq_risk_tier r \<in> {R0, R1}) \<and>
     (rc_design_selection_status (rq_context r) \<in> {Not_required, Resolved} \<or>
      rc_design_selection_status (rq_context r) = Unresolved \<and> rq_decision_class r \<in> {D2, D3})"

definition context_permits :: "request \<Rightarrow> eval_context \<Rightarrow> bool" where
  "context_permits r ctx \<longleftrightarrow>
     decisions_settled r \<and> inside_session r (ec_session_ceiling ctx) \<and>
     inside_envelope r (ec_goal_autonomy_envelope ctx)"

lemma risk_value_R2: "risk_value R2 \<le> risk_value t \<longleftrightarrow> t \<notin> {R0, R1}"
  by (cases t) simp_all

lemma external_cases: "e \<in> {Ext_not_required, Ext_available} \<longleftrightarrow>
    e \<noteq> Ext_missing_supplyable \<and> e \<noteq> Ext_missing_unsupplyable \<and> e \<noteq> Ext_unverified"
  by (cases e) simp_all

lemma goal_truth_cases: "t = Aligned \<longleftrightarrow> t \<noteq> Blocked \<and> t \<noteq> Gt_unverified"
  by (cases t) simp_all

lemma intent_cases: "i = Grant_authority \<longleftrightarrow> i \<noteq> Supply_external_input \<and> i \<noteq> Ratify_goal_truth
    \<and> i \<noteq> Accept_risk_or_cost \<and> i \<noteq> Select_design_option"
  by (cases i) simp_all

lemma separate_cases: "(s \<in> {Not_required, Resolved} \<or> s = Unresolved \<and> P) \<longleftrightarrow>
    s \<noteq> Sd_unverified \<and> \<not> (\<not> P \<and> s = Unresolved)"
  by (cases s) simp_all

lemma decision_class_cases: "k \<in> {D2, D3} \<longleftrightarrow> k \<notin> {D0, D1}"
  by (cases k) simp_all

lemma decisions_settled_iff: "decisions_settled r \<longleftrightarrow>
    (let c = rq_context r in
     rc_external_input_status c \<noteq> Ext_missing_supplyable \<and>
     rc_external_input_status c \<noteq> Ext_missing_unsupplyable \<and>
     rc_external_input_status c \<noteq> Ext_unverified \<and>
     rc_goal_truth_status c \<noteq> Blocked \<and> rc_goal_truth_status c \<noteq> Gt_unverified \<and>
     rq_intent_type r \<noteq> Supply_external_input \<and> rq_intent_type r \<noteq> Ratify_goal_truth \<and>
     rq_intent_type r \<noteq> Accept_risk_or_cost \<and> rq_intent_type r \<noteq> Select_design_option \<and>
     rc_risk_acceptance_status c \<noteq> Sd_unverified \<and>
     \<not> (risk_value R2 \<le> risk_value (rq_risk_tier r) \<and> rc_risk_acceptance_status c = Unresolved) \<and>
     rc_design_selection_status c \<noteq> Sd_unverified \<and>
     \<not> (rq_decision_class r \<in> {D0, D1} \<and> rc_design_selection_status c = Unresolved))"
  unfolding decisions_settled_def external_cases goal_truth_cases intent_cases separate_cases
    decision_class_cases risk_value_R2 Let_def
  by blast

lemma if_Some_eq_None: "(if b then Some x else y) = None \<longleftrightarrow> \<not> b \<and> y = None"
  by simp

lemma context_decision_None: "context_decision r ctx = None \<longleftrightarrow> context_permits r ctx"
  unfolding context_decision_def context_permits_def inside_session_def inside_envelope_def
    decisions_settled_iff Let_def if_Some_eq_None
  by auto

lemma context_decision_class:
  "context_decision r ctx = Some (d, reasons) \<Longrightarrow>
   d \<in> {Waiting_external_input, Classification_repair, Blocked_by_goal_truth, Not_applicable,
        Approval_required, Capability_unavailable} \<and> length reasons = 1"
  unfolding context_decision_def Let_def by (auto split: if_split_asm)

subsection \<open>The normal form is a fixed point\<close>

lemma string_list_again:
  assumes "string_list v = Inr xs" and "distinct xs"
  shows "string_list (JList (map JStr (sort_uniq xs))) = Inr (sort_uniq xs)"
proof -
  have "xs \<noteq> []"
    using assms(1) by (auto simp: string_list_def split: json.splits if_splits)
  then show ?thesis by (simp add: string_list_def o_def list_all_iff is_str_def)
qed

lemma known_strings_again:
  "known_strings v t = Inr xs \<Longrightarrow> known_strings (JList (map JStr xs)) t = Inr xs"
  by (auto simp: known_strings_def bindE_eq_Inr exact_strings_again split: if_splits)

lemma is_sha_strip: "is_sha s \<Longrightarrow> strip s = s"
  by (rule strip_no_space)
     (auto simp: is_sha_def list_all_iff is_hex_def is_digit_def is_space_def Let_def)

lemma source_binding_again:
  "source_binding_field v = Inr b \<Longrightarrow> source_binding_field (binding_json b) = Inr b"
  by (auto simp: source_binding_field_def binding_json_def bindE_eq_Inr Let_def exact_keys_def
      BINDING_KEYS_def jkeys_def jat_def is_sha_strip split: json.splits if_splits)

lemma opaque_id_again: "opaque_id v = Inr s \<Longrightarrow> opaque_id (JStr s) = Inr s"
  by (auto simp: opaque_id_def Let_def split: if_splits)

lemma enum_str_name [simp]: "enum_str (JStr (enum_name RISK_TIERS t)) RISK_TIERS = Inr t"
  by (cases t) (simp_all add: enum_str_def enum_name_def RISK_TIERS_def)

lemma session_json_fields:
  "exact_keys (session_json s) SESSION_KEYS = Inr ()"
  "jat (session_json s) ''capabilities'' = JList (map JStr (sc_capabilities s))"
  "jat (session_json s) ''risk_ceiling'' = JStr (enum_name RISK_TIERS (sc_risk_ceiling s))"
  "jat (session_json s) ''mutation_classes'' = JList (map JStr (sc_mutation_classes s))"
  "jat (session_json s) ''evidence_id'' = JStr (sc_evidence_id s)"
  by (simp_all add: session_json_def exact_keys_def SESSION_KEYS_def jkeys_def)

lemma envelope_json_fields:
  "exact_keys (envelope_json e) ENVELOPE_KEYS = Inr ()"
  "jat (envelope_json e) ''envelope_id'' = JStr (en_envelope_id e)"
  "jat (envelope_json e) ''capabilities'' = JList (map JStr (en_capabilities e))"
  "jat (envelope_json e) ''risk_ceiling'' = JStr (enum_name RISK_TIERS (en_risk_ceiling e))"
  "jat (envelope_json e) ''decision_classes'' = JList (map JStr (en_decision_classes e))"
  "jat (envelope_json e) ''subjects'' = JList (map JStr (en_subjects e))"
  "jat (envelope_json e) ''operations'' = JList (map JStr (en_operations e))"
  "jat (envelope_json e) ''source_binding'' = binding_json (en_source_binding e)"
  by (simp_all add: envelope_json_def exact_keys_def ENVELOPE_KEYS_def jkeys_def)

lemma normalize_axes_again:
  assumes "normalize_axes s e = Inr c"
  shows "normalize_axes (session_json (ec_session_ceiling c))
           (envelope_json (ec_goal_autonomy_envelope c)) = Inr c"
proof -
  note facts = assms [unfolded normalize_axes_def result_simps]
  from facts obtain ss xs where
    f: "known_strings (jat s ''mutation_classes'') MUTATION_CLASSES
         = Inr (sc_mutation_classes (ec_session_ceiling c))"
      "known_strings (jat e ''decision_classes'') DECISION_CLASSES
         = Inr (en_decision_classes (ec_goal_autonomy_envelope c))"
      "source_binding_field (jat e ''source_binding'')
         = Inr (en_source_binding (ec_goal_autonomy_envelope c))"
      "opaque_id (jat s ''evidence_id'') = Inr (sc_evidence_id (ec_session_ceiling c))"
      "opaque_id (jat e ''envelope_id'') = Inr (en_envelope_id (ec_goal_autonomy_envelope c))"
      "exact_strings (jat s ''capabilities'') = Inr (sc_capabilities (ec_session_ceiling c))"
      "exact_strings (jat e ''capabilities'') = Inr (en_capabilities (ec_goal_autonomy_envelope c))"
    and l: "string_list (jat e ''subjects'') = Inr ss" "distinct ss"
      "string_list (jat e ''operations'') = Inr xs" "distinct xs"
      "en_subjects (ec_goal_autonomy_envelope c) = sort_uniq ss"
      "en_operations (ec_goal_autonomy_envelope c) = sort_uniq xs"
    by (elim exE conjE) auto
  note again = known_strings_again [OF f(1)] known_strings_again [OF f(2)]
    source_binding_again [OF f(3)] opaque_id_again [OF f(4)] opaque_id_again [OF f(5)]
    exact_strings_again [OF f(6)] exact_strings_again [OF f(7)]
    string_list_again [OF l(1,2)] string_list_again [OF l(3,4)]
  show ?thesis
    unfolding normalize_axes_def session_json_fields envelope_json_fields
    by (simp add: again l(5,6))
qed

lemma normalize_evaluation_context_again:
  assumes "normalize_evaluation_context d = Inr c"
  shows "normalize_evaluation_context (eval_context_json c) = Inr c"
proof -
  from assms obtain s e where "normalize_axes s e = Inr c"
    by (auto simp: normalize_evaluation_context_def bindE_eq_Inr split: json.splits if_splits)
  then show ?thesis
    by (simp add: normalize_evaluation_context_def eval_context_json_def exact_keys_def
        EVALUATION_CONTEXT_KEYS_def jkeys_def normalize_axes_again)
qed

interpretation context_form: normalizer normalize_evaluation_context eval_context_json
  by unfold_locales (rule normalize_evaluation_context_again)

end
