(* ===== verification/Canonical.thy ===== *)
theory Canonical
  imports Datetime
begin

text \<open>
  \<^verbatim>\<open>canonical_bytes\<close> and \<^verbatim>\<open>object_sha256\<close> of \<^verbatim>\<open>canonical.py\<close>: \<^verbatim>\<open>json.dumps\<close> with sorted keys,
  compact separators and non-ASCII characters kept, then UTF-8. Every identity and every binding of
  the authority store is a digest of these bytes, so the result that matters is that the bytes
  determine the document up to the order of its keys.
\<close>

subsection \<open>Serialization\<close>

text \<open>The short escapes of the encoder; other control characters become \<^verbatim>\<open>\u00xx\<close>\<close>

definition esc_table :: "(char \<times> char) list" where
  "esc_table = [(CHR 0x22, CHR 0x22), (CHR 0x5C, CHR 0x5C), (CHR 0x0A, CHR ''n''),
     (CHR 0x0D, CHR ''r''), (CHR 0x09, CHR ''t''), (CHR 0x0C, CHR ''f''), (CHR 0x08, CHR ''b'')]"

definition esc_char :: "char \<Rightarrow> string" where
  "esc_char c =
     (case map_of esc_table c of
        Some x \<Rightarrow> [CHR 0x5C, x]
      | None \<Rightarrow>
          if code c < 32
          then [CHR 0x5C, CHR ''u'', CHR ''0'', CHR ''0'',
                digit_char (code c div 16), digit_char (code c mod 16)]
          else [c])"

definition quote :: "string \<Rightarrow> string" where
  "quote s = CHR 0x22 # concat (map esc_char s) @ [CHR 0x22]"

fun dumps :: "json \<Rightarrow> string" where
  "dumps JNull = ''null''"
| "dumps (JBool b) = (if b then ''true'' else ''false'')"
| "dumps (JInt n) = show_int n"
| "dumps (JStr s) = quote s"
| "dumps (JList xs) = ''['' @ join '','' (map dumps xs) @ '']''"
| "dumps (JObj d) = ''{'' @ join '','' (map (\<lambda>(k, v). quote k @ '':'' @ dumps v) d) @ ''}''"

text \<open>\<^verbatim>\<open>sort_keys=True\<close>\<close>

fun canon :: "json \<Rightarrow> json" where
  "canon (JList xs) = JList (map canon xs)"
| "canon (JObj d) = JObj (sort_key fst (map (\<lambda>(k, v). (k, canon v)) d))"
| "canon v = v"

definition utf8_char :: "char \<Rightarrow> string" where
  "utf8_char c = (if code c < 128 then [c]
     else [char_of (192 + code c div 64), char_of (128 + code c mod 64)])"

definition utf8 :: "string \<Rightarrow> string" where
  "utf8 s = concat (map utf8_char s)"

definition canonical_bytes :: "json \<Rightarrow> string" where
  "canonical_bytes v = utf8 (dumps (canon v))"

text \<open>\<open>sha\<close> is \<^verbatim>\<open>hashlib.sha256(...).hexdigest()\<close>\<close>

definition object_sha256 :: "(string \<Rightarrow> string) \<Rightarrow> json \<Rightarrow> string" where
  "object_sha256 sha v = sha (canonical_bytes v)"

subsection \<open>The bytes determine the document\<close>

lemma code_inj: "code c = code d \<longleftrightarrow> c = d"
  by (simp add: code_def)

lemma digit_char_inj: "m < 16 \<Longrightarrow> n < 16 \<Longrightarrow> digit_char m = digit_char n \<longleftrightarrow> m = n"
proof -
  have "distinct ''0123456789abcdef''" by simp
  then show "m < 16 \<Longrightarrow> n < 16 \<Longrightarrow> digit_char m = digit_char n \<longleftrightarrow> m = n"
    unfolding digit_char_def by (subst nth_eq_iff_index_eq) simp_all
qed

lemma esc_table_inj:
  "map_of esc_table c = Some x \<Longrightarrow> map_of esc_table d = Some x \<Longrightarrow> c = d"
  by (auto simp: esc_table_def split: if_splits)

lemma esc_table_facts: "map_of esc_table c = Some x \<Longrightarrow> x \<noteq> CHR ''u''"
  "map_of esc_table c = None \<Longrightarrow> c \<noteq> CHR 0x22 \<and> c \<noteq> CHR 0x5C"
  by (auto simp: esc_table_def split: if_splits)

lemma esc_char_cases:
  obtains (plain) "esc_char c = [c]" "c \<noteq> CHR 0x22" "c \<noteq> CHR 0x5C"
  | (short) x where "esc_char c = [CHR 0x5C, x]" "x \<noteq> CHR ''u''" "map_of esc_table c = Some x"
  | (control) "esc_char c = [CHR 0x5C, CHR ''u'', CHR ''0'', CHR ''0'',
       digit_char (code c div 16), digit_char (code c mod 16)]" "code c < 32"
proof (cases "map_of esc_table c")
  case None
  with esc_table_facts(2) [OF None] show ?thesis
    using that(1,3) by (cases "code c < 32") (simp_all add: esc_char_def)
next
  case (Some x)
  with esc_table_facts(1) [OF Some] show ?thesis using that(2) by (simp add: esc_char_def)
qed

lemma esc_char_prefix:
  assumes "esc_char c @ r = esc_char d @ s"
  shows "c = d \<and> r = s"
proof (cases c rule: esc_char_cases)
  case plain
  with assms show ?thesis by (cases d rule: esc_char_cases) auto
next
  case (short x)
  with assms show ?thesis by (cases d rule: esc_char_cases) (auto dest: esc_table_inj)
next
  case control
  show ?thesis
  proof (cases d rule: esc_char_cases)
    case control': control
    from assms control control' have "code c div 16 = code d div 16" "code c mod 16 = code d mod 16" "r = s"
      by (simp_all add: digit_char_inj)
    then show ?thesis by (metis code_inj div_mult_mod_eq)
  qed (use assms control in auto)
qed

lemma quote_body_prefix:
  "concat (map esc_char s) @ CHR 0x22 # r = concat (map esc_char t) @ CHR 0x22 # u \<Longrightarrow> s = t \<and> r = u"
proof (induction s arbitrary: t)
  case Nil
  show ?case
  proof (cases t)
    case (Cons d t')
    with Nil show ?thesis by (cases d rule: esc_char_cases) auto
  qed (use Nil in simp)
next
  case (Cons c s)
  show ?case
  proof (cases t)
    case Nil
    with Cons.prems show ?thesis by (cases c rule: esc_char_cases) auto
  next
    case t: (Cons d t')
    with Cons.prems have "esc_char c @ (concat (map esc_char s) @ CHR 0x22 # r)
        = esc_char d @ (concat (map esc_char t') @ CHR 0x22 # u)" by simp
    from esc_char_prefix [OF this] Cons.IH [of t'] t show ?thesis by simp
  qed
qed

lemma quote_prefix: "quote s @ r = quote t @ u \<Longrightarrow> s = t \<and> r = u"
  using quote_body_prefix [of s r t u] by (simp add: quote_def)

lemma digits_value_digit: "n < 10 \<Longrightarrow> digits_value [digit_char n] = Some n"
  by (simp add: digits_value_def digit_char_facts)

lemma digits_show_nat: "digits_value (show_nat n) = Some n"
proof (induction n rule: show_nat.induct)
  case (1 n)
  show ?case
  proof (cases "n < 10")
    case True
    then show ?thesis by (simp add: show_nat.simps [of n] digits_value_digit)
  next
    case False
    have "digits_value (show_nat (n div 10) @ [digit_char (n mod 10)]) = Some (n div 10 * 10 ^ 1 + n mod 10)"
      using digits_value_append [OF 1 [OF False] digits_value_digit [of "n mod 10"]] by simp
    with False show ?thesis by (simp only: show_nat.simps [of n] if_False power_one_right div_mult_mod_eq)
  qed
qed

lemma show_nat_digits: "list_all is_digit (show_nat n)"
  using digits_show_nat [of n] by (auto simp: digits_value_def split: if_splits)

text \<open>A printed value ends where a separator or the end of the text follows\<close>

definition stops :: "string \<Rightarrow> bool" where
  "stops r = (r = [] \<or> hd r \<in> set '',]}'')"

lemma stops_simps [simp]: "stops []" "stops (CHR '','' # r)" "stops (CHR '']'' # r)" "stops (CHR ''}'' # r)"
  by (simp_all add: stops_def)

lemma stops_not_digit: "stops r \<Longrightarrow> takeWhile is_digit r = []"
  by (cases r) (auto simp: stops_def is_digit_def code_def)

lemma show_nat_prefix:
  assumes "show_nat m @ r = show_nat n @ s" and "stops r" "stops s"
  shows "m = n \<and> r = s"
proof -
  have "takeWhile is_digit (show_nat k @ t) = show_nat k" if "stops t" for k t
    using show_nat_digits [of k] stops_not_digit [OF that]
    by (simp add: takeWhile_append2 list_all_iff)
  then have "show_nat m = show_nat n" using assms by metis
  then show ?thesis using assms(1) digits_show_nat by (metis option.inject same_append_eq)
qed

lemma show_int_prefix:
  assumes "show_int m @ r = show_int n @ s" and "stops r" "stops s"
  shows "m = n \<and> r = s"
proof -
  have hd: "hd (show_nat k @ t) \<noteq> CHR ''-''" for k t
    using show_nat_hd [of k] by (auto simp: hd_append)
  have sign: "m < 0 \<longleftrightarrow> n < 0"
    using assms(1) hd by (auto simp: show_int_def split: if_splits) (metis list.sel(1))+
  show ?thesis
  proof (cases "m < 0")
    case True
    with sign assms show ?thesis
      using show_nat_prefix [of "nat (- m)" r "nat (- n)" s] by (auto simp: show_int_def)
  next
    case False
    with sign assms show ?thesis
      using show_nat_prefix [of "nat m" r "nat n" s] by (auto simp: show_int_def)
  qed
qed

definition readable :: "json \<Rightarrow> bool" where
  "readable v \<longleftrightarrow> (\<forall>w r s. dumps v @ r = dumps w @ s \<longrightarrow> stops r \<longrightarrow> stops s \<longrightarrow> v = w \<and> r = s)"

lemma join_Cons: "join sep (w # ws) = w @ concat (map (\<lambda>v. sep @ v) ws)"
  by (induction ws arbitrary: w) auto


lemma elements_prefix:
  assumes "\<And>x y r s. x \<in> set xs \<Longrightarrow> f x @ r = g y @ s \<Longrightarrow> stops r \<Longrightarrow> stops s \<Longrightarrow> P x y \<and> r = s"
    and "concat (map (\<lambda>v. '','' @ f v) xs) @ c # r = concat (map (\<lambda>v. '','' @ g v) ys) @ c # s"
    and "c = CHR '']'' \<or> c = CHR ''}''"
  shows "list_all2 P xs ys \<and> r = s"
  using assms(1,2)
proof (induction xs arbitrary: ys)
  case Nil
  with assms(3) show ?case by (cases ys) auto
next
  case (Cons x xs)
  from Cons.prems(2) assms(3) obtain y ys' where ys: "ys = y # ys'" by (cases ys) auto
  let ?r = "concat (map (\<lambda>v. '','' @ f v) xs) @ c # r" and ?s = "concat (map (\<lambda>v. '','' @ g v) ys') @ c # s"
  from Cons.prems(2) ys have eq: "f x @ ?r = g y @ ?s" by simp
  have st: "stops ?r" "stops ?s" using assms(3) by (cases xs; cases ys'; auto)+
  from Cons.prems(1) [OF _ eq st] have P: "P x y" and rest: "?r = ?s" by simp_all
  from Cons.IH [OF Cons.prems(1) rest] P ys show ?case by auto
qed

lemma join_prefix:
  assumes elem: "\<And>x y r s. x \<in> set xs \<Longrightarrow> f x @ r = g y @ s \<Longrightarrow> stops r \<Longrightarrow> stops s \<Longrightarrow> P x y \<and> r = s"
    and eq: "join '','' (map f xs) @ c # r = join '','' (map g ys) @ c # s"
    and c: "c = CHR '']'' \<or> c = CHR ''}''"
    and ne: "\<And>x. x \<in> set xs \<Longrightarrow> f x \<noteq> [] \<and> hd (f x) \<noteq> c" "\<And>y. y \<in> set ys \<Longrightarrow> g y \<noteq> [] \<and> hd (g y) \<noteq> c"
  shows "list_all2 P xs ys \<and> r = s"
proof (cases xs; cases ys)
  fix x xs' y ys' assume xs: "xs = x # xs'" and ys: "ys = y # ys'"
  let ?r = "concat (map (\<lambda>v. '','' @ f v) xs') @ c # r" and ?s = "concat (map (\<lambda>v. '','' @ g v) ys') @ c # s"
  from eq xs ys have eq': "f x @ ?r = g y @ ?s" by (simp add: join_Cons o_def)
  have st: "stops ?r" "stops ?s" using c by (cases xs'; cases ys'; auto)+
  from elem [OF _ eq' st] xs have "P x y" and rest: "?r = ?s" by simp_all
  moreover have "list_all2 P xs' ys' \<and> r = s"
    by (rule elements_prefix [OF elem rest c]) (simp_all add: xs)
  ultimately show ?thesis by (simp add: xs ys)
next
  fix y ys' assume xs: "xs = []" and ys: "ys = y # ys'"
  with eq ne(2) [of y] show ?thesis by (cases "g y") (auto simp: join_Cons)
next
  fix x xs' assume xs: "xs = x # xs'" and ys: "ys = []"
  with eq ne(1) [of x] show ?thesis by (cases "f x") (auto simp: join_Cons)
qed (use eq in simp)

lemma quote_hd [simp]: "quote s \<noteq> []" "hd (quote s) = CHR 0x22"
  by (simp_all add: quote_def)

fun head_class :: "json \<Rightarrow> string" where
  "head_class JNull = ''n''"
| "head_class (JBool b) = (if b then ''t'' else ''f'')"
| "head_class (JInt n) = ''-0123456789''"
| "head_class (JStr s) = [CHR 0x22]"
| "head_class (JList xs) = ''[''"
| "head_class (JObj d) = ''{''"

lemma show_int_hd: "show_int n \<noteq> [] \<and> hd (show_int n) \<in> set ''-0123456789''"
  using show_nat_hd [of "nat n"] by (auto simp: show_int_def)

lemma dumps_head: "dumps v \<noteq> [] \<and> hd (dumps v) \<in> set (head_class v)"
  using show_int_hd by (cases v) (simp_all add: quote_def)

lemma dumps_hd: "dumps v \<noteq> [] \<and> hd (dumps v) \<noteq> CHR '']''"
  using dumps_head [of v] by (cases v) auto

lemma head_class_disjoint:
  "set (head_class v) \<inter> set (head_class w) \<noteq> {} \<Longrightarrow>
   (v = JNull \<and> w = JNull) \<or> (\<exists>b. v = JBool b \<and> w = JBool b) \<or>
   (\<exists>m n. v = JInt m \<and> w = JInt n) \<or> (\<exists>s t. v = JStr s \<and> w = JStr t) \<or>
   (\<exists>xs ys. v = JList xs \<and> w = JList ys) \<or> (\<exists>d e. v = JObj d \<and> w = JObj e)"
  by (cases v; cases w) (simp_all split: if_splits)

lemma same_head: "dumps v @ r = dumps w @ s \<Longrightarrow> set (head_class v) \<inter> set (head_class w) \<noteq> {}"
  using dumps_head [of v] dumps_head [of w] by (metis disjoint_iff hd_append2)

lemma list_all2_eq_iff: "list_all2 (\<lambda>x y. x = y) xs ys \<longleftrightarrow> xs = ys"
  by (simp add: list.rel_eq)

lemma readable_leaf:
  assumes "\<And>w r s. dumps v @ r = dumps w @ s \<Longrightarrow> set (head_class v) \<inter> set (head_class w) \<noteq> {} \<Longrightarrow>
    stops r \<Longrightarrow> stops s \<Longrightarrow> v = w \<and> r = s"
  shows "readable v"
  unfolding readable_def by (intro allI impI) (rule assms [OF _ same_head])

lemma readable_all: "readable v"
proof (induction v)
  case (JList xs)
  show ?case unfolding readable_def
  proof (intro allI impI)
    fix w r s assume eq: "dumps (JList xs) @ r = dumps w @ s" and "stops r" "stops s"
    from head_class_disjoint [OF same_head [OF eq]] obtain ys where w: "w = JList ys" by auto
    from eq w have "join '','' (map dumps xs) @ CHR '']'' # r = join '','' (map dumps ys) @ CHR '']'' # s"
      by simp
    then have "list_all2 (\<lambda>x y. x = y) xs ys \<and> r = s"
      by (rule join_prefix [rotated]) (use JList dumps_hd in \<open>auto simp: readable_def\<close>)
    with w show "JList xs = w \<and> r = s" by (simp add: list_all2_eq_iff)
  qed
next
  case (JObj d)
  let ?f = "\<lambda>(k, v). quote k @ '':'' @ dumps v"
  show ?case unfolding readable_def
  proof (intro allI impI)
    fix w r s assume eq: "dumps (JObj d) @ r = dumps w @ s" and "stops r" "stops s"
    from head_class_disjoint [OF same_head [OF eq]] obtain e where w: "w = JObj e" by auto
    have elem: "x = y \<and> r = s"
      if x: "x \<in> set d" and xy: "?f x @ r = ?f y @ s" and st: "stops r" "stops s" for x y r s
    proof -
      obtain k v l u where p: "x = (k, v)" "y = (l, u)" by (cases x, cases y)
      from xy p have "quote k @ (CHR '':'' # dumps v @ r) = quote l @ (CHR '':'' # dumps u @ s)" by simp
      from quote_prefix [OF this] have kl: "k = l" and rest: "dumps v @ r = dumps u @ s" by simp_all
      from JObj x p have "readable v" by auto
      with rest st have "v = u \<and> r = s" by (simp add: readable_def)
      with kl p show ?thesis by simp
    qed
    have hd: "?f x \<noteq> [] \<and> hd (?f x) \<noteq> CHR ''}''" for x by (cases x) (simp add: quote_def)
    from eq w have "join '','' (map ?f d) @ CHR ''}'' # r = join '','' (map ?f e) @ CHR ''}'' # s" by simp
    then have "list_all2 (\<lambda>x y. x = y) d e \<and> r = s"
      by (rule join_prefix [rotated]) (use elem hd in blast)+
    with w show "JObj d = w \<and> r = s" by (simp add: list_all2_eq_iff)
  qed
next
  case JNull
  show ?case by (rule readable_leaf) (drule head_class_disjoint, auto)
next
  case (JBool b)
  show ?case by (rule readable_leaf) (drule head_class_disjoint, auto)
next
  case (JInt n)
  show ?case
    by (rule readable_leaf) (drule head_class_disjoint, auto dest: show_int_prefix simp del: head_class.simps)
next
  case (JStr s)
  show ?case by (rule readable_leaf) (drule head_class_disjoint, auto dest: quote_prefix)
qed

lemma dumps_inj: "dumps v = dumps w \<Longrightarrow> v = w"
  using readable_all [of v] unfolding readable_def by (metis append_Nil2 stops_simps(1))

lemma utf8_prefix:
  assumes "utf8_char c @ r = utf8_char d @ s"
  shows "c = d \<and> r = s"
proof -
  have b: "code c < 256" for c by (simp add: code_def)
  have q: "code c div 64 < 4" for c using b [of c] by (intro less_mult_imp_div_less) simp
  have h: "code (char_of (192 + code c div 64)) = 192 + code c div 64"
    "code (char_of (128 + code c mod 64)) = 128 + code c mod 64" for c
    using q [of c] mod_less_divisor [of 64 "code c"] by (simp_all add: code_def)
  consider "code c < 128" "code d < 128" | "code c < 128" "\<not> code d < 128"
    | "\<not> code c < 128" "code d < 128" | "\<not> code c < 128" "\<not> code d < 128" by blast
  then show ?thesis
  proof cases
    case 4
    with assms have "char_of (192 + code c div 64) = (char_of (192 + code d div 64) :: char)"
      "char_of (128 + code c mod 64) = (char_of (128 + code d mod 64) :: char)" and rs: "r = s"
      by (simp_all add: utf8_char_def)
    from arg_cong [OF this(1), of code] arg_cong [OF this(2), of code]
    have "code c div 64 = code d div 64" "code c mod 64 = code d mod 64"
      unfolding h by simp_all
    then have "code c = code d" by (metis div_mult_mod_eq)
    with rs show ?thesis by (simp add: code_inj)
  qed (use assms h [of c] h [of d] in \<open>auto simp: utf8_char_def\<close>)
qed

lemma utf8_char_nonempty: "utf8_char c \<noteq> []"
  by (simp add: utf8_char_def)

lemma utf8_inj: "utf8 s = utf8 t \<Longrightarrow> s = t"
proof (induction s arbitrary: t)
  case Nil
  then show ?case by (cases t) (simp_all add: utf8_def utf8_char_nonempty)
next
  case (Cons c s)
  then obtain d t' where t: "t = d # t'" by (cases t) (auto simp: utf8_def utf8_char_nonempty)
  from Cons.prems t have "utf8_char c @ utf8 s = utf8_char d @ utf8 t'" by (simp add: utf8_def)
  from utf8_prefix [OF this] Cons.IH t show ?case by simp
qed

lemma canonical_bytes_eq: "canonical_bytes v = canonical_bytes w \<longleftrightarrow> canon v = canon w"
  by (auto simp: canonical_bytes_def dest!: utf8_inj dumps_inj)

text \<open>Documents with the same canonical form agree on every field\<close>

lemma canon_fields:
  assumes "canon (JObj d) = canon (JObj e)" and "distinct (map fst d)" "distinct (map fst e)"
  shows "canon (jat d k) = canon (jat e k)"
proof -
  let ?c = "\<lambda>d. map (\<lambda>(k, v). (k, canon v)) d"
  have keys: "map fst (?c d) = map fst d" for d by (simp add: comp_def case_prod_unfold)
  have look: "map_of (?c d) k = map_option canon (map_of d k)" for d by (simp add: map_of_map)
  from assms(1) have "sort_key fst (?c d) = sort_key fst (?c e)" by simp
  then have "set (sort_key fst (?c d)) = set (sort_key fst (?c e))" by (rule arg_cong)
  then have "set (?c d) = set (?c e)" by (simp only: set_sort)
  then have "map_of (?c d) = map_of (?c e)"
    by (intro map_of_inject_set [THEN iffD2]) (simp_all only: keys assms(2,3))
  then have "map_option canon (map_of d k) = map_option canon (map_of e k)"
    unfolding look [symmetric] by simp
  then show ?thesis by (auto simp: jat_def split: option.splits)
qed

end
