(* ===== verification/Grant_Store.thy ===== *)
theory Grant_Store
  imports Eval_Context Canonical
begin

text \<open>
  The grant store of \<^verbatim>\<open>artifact_store.py\<close>: immutable grant documents and their mutable state
  projections, \<^verbatim>\<open>load_grant\<close> and \<^verbatim>\<open>list_grants\<close>, the delegation check \<^verbatim>\<open>_validate_child\<close>,
  the registration of a compiled grant, the effective state of plan-bound root grants
  (\<^verbatim>\<open>root_grant_visibility.py\<close>), the walk to the ancestors of a grant
  (\<^verbatim>\<open>evaluator._lineage_records\<close>) and the state validator of \<^verbatim>\<open>projection_io.py\<close>.
\<close>

subsection \<open>Grant states\<close>

datatype grant_status = Draft | Active | Reserved_status | Suspended | Revoked | Expired | Exhausted

definition GRANT_STATUSES :: "(string \<times> grant_status) list" where
  "GRANT_STATUSES = [(''draft'', Draft), (''active'', Active), (''reserved'', Reserved_status),
     (''suspended'', Suspended), (''revoked'', Revoked), (''expired'', Expired),
     (''exhausted'', Exhausted)]"

record gstate =
  gs_grant_id :: string
  gs_grant_sha256 :: string
  gs_status :: grant_status
  gs_remaining_uses :: "int option"
  gs_reserved_uses :: int
  gs_consumed_uses :: int
  gs_version :: int
  gs_last_event_id :: "string option"

definition GRANT_STATE_KEYS :: "string list" where
  "GRANT_STATE_KEYS = [''schema_version'', ''artifact_kind'', ''grant_id'', ''grant_sha256'',
     ''status'', ''remaining_uses'', ''reserved_uses'', ''consumed_uses'', ''version'',
     ''last_event_id'']"

definition gstate_json :: "gstate \<Rightarrow> obj" where
  "gstate_json s =
    [(''schema_version'', JInt 2), (''artifact_kind'', JStr ''authority_grant_state''),
     (''grant_id'', JStr (gs_grant_id s)), (''grant_sha256'', JStr (gs_grant_sha256 s)),
     (''status'', JStr (enum_name GRANT_STATUSES (gs_status s))),
     (''remaining_uses'', opt_int (gs_remaining_uses s)),
     (''reserved_uses'', JInt (gs_reserved_uses s)),
     (''consumed_uses'', JInt (gs_consumed_uses s)),
     (''version'', JInt (gs_version s)), (''last_event_id'', opt_str (gs_last_event_id s))]"

subsection \<open>Reservation states and projections\<close>

datatype reservation_status = Rs_reserved | Rs_consumed | Rs_released | Rs_quarantined

definition RESERVATION_STATUSES :: "(string \<times> reservation_status) list" where
  "RESERVATION_STATUSES = [(''reserved'', Rs_reserved), (''consumed'', Rs_consumed),
     (''released'', Rs_released), (''quarantined_unknown_effect'', Rs_quarantined)]"

record rstate =
  rs_reservation_id :: string
  rs_status :: reservation_status
  rs_version :: int
  rs_last_event_id :: string

text \<open>
  The files below the state directory: \<^verbatim>\<open>state/grants/<id>.json\<close> and
  \<^verbatim>\<open>state/reservations/<id>.json\<close>. A reference stands for the path, which determines it.
\<close>

datatype sref = Grant_ref string | Reservation_ref string

datatype pstate = GS gstate | RS rstate

subsection \<open>The environment and the store\<close>

text \<open>
  What the authority code reads besides its own store: the workspace and the skills directory, the
  hash behind \<^verbatim>\<open>object_sha256\<close>, the assets of a root-grant materialization receipt (\<open>None\<close> when the
  receipt does not exist), the eligibility of a mode-activation child, and the two checks of a
  source approval (the one of a transition distinguishes prospective from historical use).
\<close>

record env =
  env_files :: files
  env_skills :: files
  env_sha256 :: "string \<Rightarrow> string"
  env_receipts :: "string \<Rightarrow> (grant \<times> string) list res option"
  env_activation :: "grant \<Rightarrow> datetime \<Rightarrow> bool"
  env_source_for_grant :: "json option \<Rightarrow> grant \<Rightarrow> unit res"
  env_source_for_transition :: "bool \<Rightarrow> json option \<Rightarrow> grant \<Rightarrow> string \<Rightarrow> unit res"

definition env_digest :: "env \<Rightarrow> json \<Rightarrow> string" where
  "env_digest E v = object_sha256 (env_sha256 E) v"

text \<open>Grant documents with the digest of their file, and state projections, by grant id\<close>

record store =
  st_grants :: "(obj \<times> string) dir"
  st_proj :: "sref \<Rightarrow> pstate option"

definition state_of :: "store \<Rightarrow> string \<Rightarrow> gstate option" where
  "state_of st gid = (case st_proj st (Grant_ref gid) of Some (GS s) \<Rightarrow> Some s | _ \<Rightarrow> None)"

type_synonym grant_record = "grant \<times> string \<times> gstate"

definition effective_root_grant_state :: "env \<Rightarrow> grant \<Rightarrow> string \<Rightarrow> gstate \<Rightarrow> gstate res" where
  "effective_root_grant_state E g sha s =
     (case g_materialization g of
        Schema3 _ ref \<Rightarrow>
          (case env_receipts E ref of
             None \<Rightarrow> Inr (s\<lparr>gs_status := Draft\<rparr>)
           | Some assets \<Rightarrow>
               bindE assets (\<lambda>xs.
               let matching = filter (\<lambda>a. g_grant_id (fst a) = g_grant_id g) xs in
               if length matching \<noteq> 1 \<or> matching \<noteq> [(g, sha)] then fail Forged else Inr s))
      | _ \<Rightarrow> Inr s)"

definition load_grant :: "env \<Rightarrow> store \<Rightarrow> string \<Rightarrow> grant_record res" where
  "load_grant E st gid =
     (case (map_of (st_grants st) gid, state_of st gid) of
        (Some (d, sha), Some s) \<Rightarrow>
          bindE (validate_grant d) (\<lambda>g.
          if gs_grant_sha256 s \<noteq> sha then fail DigestMismatch
          else bindE (effective_root_grant_state E g sha s) (\<lambda>s'. Inr (g, sha, s')))
      | _ \<Rightarrow> fail Missing)"

text \<open>The grant files in the order of \<^verbatim>\<open>sorted(directory.glob("*.json"))\<close>\<close>

definition grant_ids :: "store \<Rightarrow> string list" where
  "grant_ids st = sort_key (\<lambda>gid. gid @ ''.json'') (map fst (st_grants st))"

definition list_one :: "env \<Rightarrow> store \<Rightarrow> datetime option \<Rightarrow> string \<Rightarrow> grant_record list res" where
  "list_one E st evaluated_at gid =
     bindE (case evaluated_at of
              None \<Rightarrow> Inr False
            | Some at \<Rightarrow>
                (case map_of (st_grants st) gid of
                   None \<Rightarrow> fail Missing
                 | Some (d, _) \<Rightarrow>
                     bindE (validate_grant d) (\<lambda>g. Inr (instant at < instant (g_created_at g)))))
       (\<lambda>skip. if skip then Inr [] else bindE (load_grant E st gid) (\<lambda>r. Inr [r]))"

definition list_grants :: "env \<Rightarrow> store \<Rightarrow> datetime option \<Rightarrow> grant_record list res" where
  "list_grants E st evaluated_at =
     bindE (mapE (list_one E st evaluated_at) (grant_ids st)) (\<lambda>xss. Inr (concat xss))"

subsection \<open>Lineage\<close>

text \<open>
  The loop of \<^verbatim>\<open>_lineage_records\<close>: the ancestors from the parent upwards. It ends because every
  round adds a stored grant to \<open>seen\<close>.
\<close>

lemma load_grant_stored: "load_grant E st p = Inr r \<Longrightarrow> p \<in> fst ` set (st_grants st)"
  by (auto simp: load_grant_def dest!: map_of_SomeD split: option.splits prod.splits)
     (force intro: rev_image_eqI)

function lineage_from :: "env \<Rightarrow> store \<Rightarrow> string list \<Rightarrow> string option \<Rightarrow> grant_record list res" where
  "lineage_from E st seen None = Inr []"
| "lineage_from E st seen (Some p) =
     (if p \<in> set seen then fail Circular
      else bindE (load_grant E st p) (\<lambda>r.
           bindE (lineage_from E st (p # seen) (g_parent_grant_id (fst r))) (\<lambda>rs.
           Inr (r # rs))))"
  by pat_completeness auto

termination
proof (relation "measure (\<lambda>(E, st, seen, p). card (fst ` set (st_grants st) - set seen))")
  show "wf (measure (\<lambda>(E :: env, st :: store, seen, p :: string option).
      card (fst ` set (st_grants st) - set seen)))" by simp
next
  fix E st seen p r
  assume "p \<notin> set seen" and "load_grant E st p = Inr r"
  then have "p \<in> fst ` set (st_grants st) - set seen" by (blast dest: load_grant_stored)
  moreover have "fst ` set (st_grants st) - set (p # seen) = fst ` set (st_grants st) - set seen - {p}"
    by auto
  ultimately show "((E, st, p # seen, g_parent_grant_id (fst r)), E, st, seen, Some p)
      \<in> measure (\<lambda>(E, st, seen, p). card (fst ` set (st_grants st) - set seen))"
    by (simp add: card_Diff1_less del: card_Diff_insert)
qed

definition lineage_records :: "env \<Rightarrow> store \<Rightarrow> grant \<Rightarrow> grant_record list res" where
  "lineage_records E st g = lineage_from E st [g_grant_id g] (g_parent_grant_id g)"

subsection \<open>Delegation\<close>

definition scope_set :: "(json \<Rightarrow> string) \<Rightarrow> json list \<Rightarrow> string set" where
  "scope_set H items = set (map H items)"

definition validate_child :: "(json \<Rightarrow> string) \<Rightarrow> grant \<Rightarrow> gstate \<Rightarrow> grant \<Rightarrow> unit res" where
  "validate_child H parent parent_state child =
     (if gs_status parent_state \<noteq> Active then fail NotActive
      else if g_parent_grant_id child \<noteq> Some (g_grant_id parent)
              \<or> g_lineage_id child \<noteq> g_lineage_id parent then fail Conflict
      else if g_issuer_rank child \<noteq> g_holder_rank parent then fail BadRank
      else if rank_value (g_issuer_rank child) \<ge> rank_value (g_issuer_rank parent) then fail BadRank
      else if \<not> set (g_capabilities child) \<subseteq> set (g_capabilities parent) then fail BadScope
      else if \<not> scope_set H (map subject_json (g_subjects child)) \<subseteq> scope_set H (map subject_json (g_subjects parent))
      then fail BadScope
      else if \<not> scope_set H (map operation_json (g_operations child)) \<subseteq> scope_set H (map operation_json (g_operations parent))
      then fail BadScope
      else if risk_value (g_risk_ceiling child) > risk_value (g_risk_ceiling parent) then fail BadScope
      else if \<not> set (g_decision_classes child) \<subseteq> set (g_decision_classes parent) then fail BadScope
      else if \<not> cardinality_covers (g_cardinality parent) (g_cardinality child) then fail BadCardinality
      else if instant (g_not_before child) < instant (g_not_before parent) then fail BadTime
      else if (case g_expires_at parent of None \<Rightarrow> False
               | Some pe \<Rightarrow> (case g_expires_at child of None \<Rightarrow> True
                            | Some ce \<Rightarrow> instant ce > instant pe)) then fail BadTime
      else if (case g_max_uses parent of None \<Rightarrow> False
               | Some pb \<Rightarrow> (case g_max_uses child of None \<Rightarrow> True | Some cb \<Rightarrow> cb > pb))
      then fail BadScope
      else if g_task_id parent \<noteq> None \<and> g_task_id child \<noteq> g_task_id parent then fail BadScope
      else if g_improvement_id parent \<noteq> None \<and> g_improvement_id child \<noteq> g_improvement_id parent
      then fail BadScope
      else if g_session_id parent \<noteq> None \<and> g_session_id child \<noteq> g_session_id parent then fail BadScope
      else Inr ())"

subsection \<open>Registration\<close>

definition initial_state :: "grant \<Rightarrow> string \<Rightarrow> gstate" where
  "initial_state g sha =
     \<lparr>gs_grant_id = g_grant_id g, gs_grant_sha256 = sha, gs_status = Active,
      gs_remaining_uses = g_max_uses g, gs_reserved_uses = 0, gs_consumed_uses = 0,
      gs_version = 0, gs_last_event_id = None\<rparr>"

definition grant_ref :: "string \<Rightarrow> string" where
  "grant_ref gid = ''.task/authorization/grants/'' @ gid @ ''.json''"

text \<open>
  The authority checks of a new grant: a delegated grant must be a child of its parent and bind the
  parent document as its source; a root grant is checked against its source approval.
\<close>

definition check_new_grant :: "env \<Rightarrow> store \<Rightarrow> json option \<Rightarrow> grant \<Rightarrow> unit res" where
  "check_new_grant E st source g =
     (case g_parent_grant_id g of
        Some pid \<Rightarrow>
          bindE (load_grant E st pid) (\<lambda>(parent, parent_digest, parent_state).
          bindE (validate_child (env_digest E) parent parent_state g) (\<lambda>_.
          if g_source_approval g \<noteq> \<lparr>b_ref = grant_ref pid, b_sha256 = parent_digest\<rparr>
          then fail BadBinding else Inr ()))
      | None \<Rightarrow> env_source_for_grant E source g)"

text \<open>
  \<^verbatim>\<open>_register_compiled_grant\<close>, after the projections were recovered. \<open>register_checked\<close> is the
  part that only reads: an existing pair is replayed only when the document is the same. A new grant
  gets a fresh state; \<open>file_digest\<close> gives the digest of the file that the immutable write
  publishes.
\<close>

definition register_checked ::
  "env \<Rightarrow> store \<Rightarrow> obj \<Rightarrow> string option \<Rightarrow> (grant \<times> grant_record option) res" where
  "register_checked E st raw parent_id =
     bindE (validate_grant raw) (\<lambda>g.
     if parent_id \<noteq> g_parent_grant_id g then fail Conflict
     else
     bindE (verify_binding (env_files E) (g_source_approval g)) (\<lambda>source.
     bindE (verify_binding (env_files E) (g_policy_snapshot g)) (\<lambda>_.
     (case (map_of (st_grants st) (g_grant_id g), state_of st (g_grant_id g)) of
        (None, None) \<Rightarrow> bindE (check_new_grant E st source g) (\<lambda>_. Inr (g, None))
      | (Some (d, sha), Some s) \<Rightarrow>
          bindE (validate_grant d) (\<lambda>existing.
          if existing \<noteq> g \<or> gs_grant_sha256 s \<noteq> sha then fail Conflict
          else bindE (effective_root_grant_state E existing sha s) (\<lambda>s'.
            Inr (g, Some (existing, sha, s'))))
      | _ \<Rightarrow> fail Missing))))"

definition register_compiled_grant ::
  "env \<Rightarrow> (obj \<Rightarrow> string) \<Rightarrow> store \<Rightarrow> obj \<Rightarrow> string option \<Rightarrow> grant_record res \<times> store" where
  "register_compiled_grant E file_digest st raw parent_id =
     (case register_checked E st raw parent_id of
        Inl e \<Rightarrow> (Inl e, st)
      | Inr (g, Some r) \<Rightarrow> (Inr r, st)
      | Inr (g, None) \<Rightarrow>
          (let sha = file_digest (grant_json g); s = initial_state g sha in
           (Inr (g, sha, s),
            st\<lparr>st_grants := dput (g_grant_id g) (grant_json g, sha) (st_grants st),
               st_proj := (st_proj st)(Grant_ref (g_grant_id g) \<mapsto> GS s)\<rparr>)))"

subsection \<open>State validation\<close>

definition nonnegative_int :: "json \<Rightarrow> int res" where
  "nonnegative_int v =
     (case v of JInt n \<Rightarrow> (if n < 0 then fail BadInteger else Inr n) | _ \<Rightarrow> fail BadInteger)"

definition exact_identifier :: "json \<Rightarrow> string res" where
  "exact_identifier v =
     (case v of JStr s \<Rightarrow> (if is_identifier s then Inr s else fail BadIdentifier)
      | _ \<Rightarrow> fail BadIdentifier)"

definition closed_obj :: "json \<Rightarrow> string list \<Rightarrow> obj res" where
  "closed_obj v ks =
     (case v of JObj d \<Rightarrow> bindE (exact_keys d ks) (\<lambda>_. Inr d) | _ \<Rightarrow> fail NotAnObject)"

text \<open>The budget clauses of \<^verbatim>\<open>validate_grant_state\<close>\<close>

definition accounting_ok :: "int option \<Rightarrow> gstate \<Rightarrow> bool" where
  "accounting_ok max_uses s =
     ((case max_uses of
         None \<Rightarrow> gs_remaining_uses s = None
       | Some m \<Rightarrow> (case gs_remaining_uses s of None \<Rightarrow> False
                    | Some rem \<Rightarrow> rem + gs_consumed_uses s = m \<and> gs_reserved_uses s \<le> rem)) \<and>
      (gs_status s = Exhausted \<longrightarrow> gs_remaining_uses s = Some 0) \<and>
      (gs_status s \<in> {Active, Suspended} \<longrightarrow> gs_remaining_uses s \<noteq> Some 0))"

definition validate_grant_state :: "json \<Rightarrow> grant \<Rightarrow> string \<Rightarrow> gstate res" where
  "validate_grant_state v g sha =
     bindE (closed_obj v GRANT_STATE_KEYS) (\<lambda>d.
     if jat d ''schema_version'' \<noteq> JInt 2 \<or> jat d ''artifact_kind'' \<noteq> JStr ''authority_grant_state''
        \<or> jat d ''grant_id'' \<noteq> JStr (g_grant_id g) \<or> jat d ''grant_sha256'' \<noteq> JStr sha
     then fail BadContract
     else if \<not> hashable (jat d ''status'') then Inl TypeError
     else
     bindE (case jat d ''status'' of JStr t \<Rightarrow> enum_str (JStr t) GRANT_STATUSES | _ \<Rightarrow> fail BadContract)
       (\<lambda>status.
     bindE (if jat d ''remaining_uses'' = JNull then Inr None
            else bindE (nonnegative_int (jat d ''remaining_uses'')) (\<lambda>n. Inr (Some n))) (\<lambda>remaining.
     bindE (nonnegative_int (jat d ''reserved_uses'')) (\<lambda>reserved.
     bindE (nonnegative_int (jat d ''consumed_uses'')) (\<lambda>consumed.
     bindE (nonnegative_int (jat d ''version'')) (\<lambda>version.
     bindE (if jat d ''last_event_id'' = JNull then Inr None
            else bindE (exact_identifier (jat d ''last_event_id'')) (\<lambda>e. Inr (Some e))) (\<lambda>last.
     let s = \<lparr>gs_grant_id = g_grant_id g, gs_grant_sha256 = sha, gs_status = status,
              gs_remaining_uses = remaining, gs_reserved_uses = reserved,
              gs_consumed_uses = consumed, gs_version = version, gs_last_event_id = last\<rparr> in
     if accounting_ok (g_max_uses g) s then Inr s else fail BadAccounting)))))))"

subsection \<open>Delegation only narrows authority\<close>

text \<open>A parent and child order: the interface that the lineage arguments rest on\<close>

locale lineage_order =
  fixes below :: "'a \<Rightarrow> 'a \<Rightarrow> bool"
  assumes refl: "below x x"
    and trans: "below x y \<Longrightarrow> below y z \<Longrightarrow> below x z"
begin

lemma chain: "successively below (x # xs) \<Longrightarrow> y \<in> set xs \<Longrightarrow> below x y"
proof (induction xs arbitrary: x)
  case Nil
  then show ?case by simp
next
  case (Cons z zs)
  then have "below x z" "successively below (z # zs)" by simp_all
  with Cons.IH Cons.prems(2) show ?case by (auto intro: trans)
qed

lemma chain_refl: "successively below (x # xs) \<Longrightarrow> y \<in> set (x # xs) \<Longrightarrow> below x y"
  using chain [of x xs y] refl [of x] by auto

end

definition bounded_by :: "('a \<Rightarrow> 'a \<Rightarrow> bool) \<Rightarrow> 'a option \<Rightarrow> 'a option \<Rightarrow> bool" where
  "bounded_by le x bound =
     (case bound of None \<Rightarrow> True | Some b \<Rightarrow> (case x of None \<Rightarrow> False | Some a \<Rightarrow> le a b))"

text \<open>Everything a child grant allows is allowed by its parent\<close>

definition attenuates :: "grant \<Rightarrow> grant \<Rightarrow> bool" where
  "attenuates c p \<longleftrightarrow>
     g_lineage_id c = g_lineage_id p \<and>
     rank_value (g_issuer_rank c) \<le> rank_value (g_issuer_rank p) \<and>
     set (g_capabilities c) \<subseteq> set (g_capabilities p) \<and>
     set (g_subjects c) \<subseteq> set (g_subjects p) \<and>
     set (g_operations c) \<subseteq> set (g_operations p) \<and>
     risk_value (g_risk_ceiling c) \<le> risk_value (g_risk_ceiling p) \<and>
     set (g_decision_classes c) \<subseteq> set (g_decision_classes p) \<and>
     cardinality_covers (g_cardinality p) (g_cardinality c) \<and>
     instant (g_not_before p) \<le> instant (g_not_before c) \<and>
     bounded_by (\<lambda>a b. instant a \<le> instant b) (g_expires_at c) (g_expires_at p) \<and>
     bounded_by (\<le>) (g_max_uses c) (g_max_uses p) \<and>
     bounded_by (=) (g_task_id c) (g_task_id p) \<and>
     bounded_by (=) (g_improvement_id c) (g_improvement_id p) \<and>
     bounded_by (=) (g_session_id c) (g_session_id p)"

lemma bounded_by_refl: "(\<And>a. le a a) \<Longrightarrow> bounded_by le x x"
  by (cases x) (simp_all add: bounded_by_def)

lemma bounded_by_trans:
  assumes "\<And>a b c. le a b \<Longrightarrow> le b c \<Longrightarrow> le a c" and "bounded_by le x y" "bounded_by le y z"
  shows "bounded_by le x z"
  using assms(2,3) unfolding bounded_by_def by (auto split: option.splits intro: assms(1))

lemma bounded_by_eq: "bounded_by (=) x y \<longleftrightarrow> y = None \<or> x = y"
  by (cases x; cases y) (auto simp: bounded_by_def)

lemma cardinality_covers_refl: "cardinality_covers k k"
  by (cases k) simp_all

lemma cardinality_covers_trans:
  "cardinality_covers a b \<Longrightarrow> cardinality_covers b c \<Longrightarrow> cardinality_covers a c"
  by (cases c; cases b) auto

interpretation attenuation: lineage_order attenuates
proof unfold_locales
  show "attenuates x x" for x
    by (simp add: attenuates_def bounded_by_refl cardinality_covers_refl)
next
  fix x y z assume "attenuates x y" "attenuates y z"
  then show "attenuates x z"
    unfolding attenuates_def
    by (elim conjE, intro conjI)
       ((rule bounded_by_trans; (assumption | simp)) | blast intro: cardinality_covers_trans | simp)+
qed

lemma subject_canon_inj: "canon (subject_json s) = canon (subject_json t) \<Longrightarrow> s = t"
  by (cases s; cases t) (simp add: subject_json_def)

lemma operation_canon_inj: "canon (operation_json s) = canon (operation_json t) \<Longrightarrow> s = t"
  by (cases s; cases t) (simp add: operation_json_def)

lemma scope_digest_inj:
  assumes "inj sha"
  shows "object_sha256 sha (subject_json s) = object_sha256 sha (subject_json t) \<Longrightarrow> s = t"
    and "object_sha256 sha (operation_json x) = object_sha256 sha (operation_json y) \<Longrightarrow> x = y"
  using assms
  by (auto simp: object_sha256_def inj_eq canonical_bytes_eq dest: subject_canon_inj operation_canon_inj)

lemma scope_set_subset:
  assumes "scope_set H (map f xs) \<subseteq> scope_set H (map f ys)" and "\<And>x y. H (f x) = H (f y) \<Longrightarrow> x = y"
  shows "set xs \<subseteq> set ys"
proof
  fix x assume "x \<in> set xs"
  with assms(1) have "H (f x) \<in> (\<lambda>y. H (f y)) ` set ys" by (auto simp: scope_set_def)
  with assms(2) show "x \<in> set ys" by blast
qed

lemma validate_child_attenuates:
  assumes inj: "inj (env_sha256 E)" and ok: "validate_child (env_digest E) p ps c = Inr ()"
  shows "attenuates c p" and "rank_value (g_issuer_rank c) < rank_value (g_issuer_rank p)"
    and "g_parent_grant_id c = Some (g_grant_id p)" and "gs_status ps = Active"
proof -
  note facts = ok [unfolded validate_child_def result_simps]
  from facts show "rank_value (g_issuer_rank c) < rank_value (g_issuer_rank p)"
    "g_parent_grant_id c = Some (g_grant_id p)" "gs_status ps = Active" by auto
  from facts have sub: "scope_set (env_digest E) (map subject_json (g_subjects c))
      \<subseteq> scope_set (env_digest E) (map subject_json (g_subjects p))"
    and ops: "scope_set (env_digest E) (map operation_json (g_operations c))
      \<subseteq> scope_set (env_digest E) (map operation_json (g_operations p))" by simp_all
  have s: "set (g_subjects c) \<subseteq> set (g_subjects p)" "set (g_operations c) \<subseteq> set (g_operations p)"
    by (rule scope_set_subset [OF sub], erule scope_digest_inj [OF inj, folded env_digest_def])
       (rule scope_set_subset [OF ops], erule scope_digest_inj [OF inj, folded env_digest_def])
  from facts have e: "\<not> (case g_expires_at p of None \<Rightarrow> False
      | Some pe \<Rightarrow> (case g_expires_at c of None \<Rightarrow> True | Some ce \<Rightarrow> instant ce > instant pe))"
    and m: "\<not> (case g_max_uses p of None \<Rightarrow> False
      | Some pb \<Rightarrow> (case g_max_uses c of None \<Rightarrow> True | Some cb \<Rightarrow> cb > pb))" by simp_all
  from e have e': "bounded_by (\<lambda>a b. instant a \<le> instant b) (g_expires_at c) (g_expires_at p)"
    by (auto simp: bounded_by_def split: option.splits)
  from m have m': "bounded_by (\<le>) (g_max_uses c) (g_max_uses p)"
    by (auto simp: bounded_by_def split: option.splits)
  from facts have k: "g_lineage_id c = g_lineage_id p" "set (g_capabilities c) \<subseteq> set (g_capabilities p)"
    "set (g_decision_classes c) \<subseteq> set (g_decision_classes p)"
    "cardinality_covers (g_cardinality p) (g_cardinality c)" by simp_all
  from facts have le: "rank_value (g_issuer_rank c) \<le> rank_value (g_issuer_rank p)"
    "risk_value (g_risk_ceiling c) \<le> risk_value (g_risk_ceiling p)"
    "instant (g_not_before p) \<le> instant (g_not_before c)" by auto
  from facts have b: "bounded_by (=) (g_task_id c) (g_task_id p)"
    "bounded_by (=) (g_improvement_id c) (g_improvement_id p)"
    "bounded_by (=) (g_session_id c) (g_session_id p)" by (auto simp: bounded_by_eq)
  show "attenuates c p"
    unfolding attenuates_def using k s e' m' le b by (intro conjI) assumption+
qed


subsection \<open>Well-formed stores\<close>

definition grant_of :: "store \<Rightarrow> string \<Rightarrow> (grant \<times> string) option" where
  "grant_of st gid =
     (case map_of (st_grants st) gid of
        None \<Rightarrow> None
      | Some (d, sha) \<Rightarrow> (case validate_grant d of Inl _ \<Rightarrow> None | Inr g \<Rightarrow> Some (g, sha)))"

definition link_ok :: "store \<Rightarrow> grant \<Rightarrow> bool" where
  "link_ok st g =
     (case g_parent_grant_id g of
        None \<Rightarrow> True
      | Some pid \<Rightarrow>
          (case grant_of st pid of
             None \<Rightarrow> False
           | Some (p, _) \<Rightarrow> attenuates g p \<and> rank_value (g_issuer_rank g) < rank_value (g_issuer_rank p)))"

definition state_ok :: "grant \<Rightarrow> string \<Rightarrow> gstate \<Rightarrow> bool" where
  "state_ok g sha s =
     (gs_grant_id s = g_grant_id g \<and> gs_grant_sha256 s = sha \<and> accounting_ok (g_max_uses g) s \<and>
      0 \<le> gs_reserved_uses s \<and> 0 \<le> gs_consumed_uses s \<and> 0 \<le> gs_version s)"

definition entry_ok :: "store \<Rightarrow> string \<Rightarrow> bool" where
  "entry_ok st gid =
     (case grant_of st gid of
        None \<Rightarrow> False
      | Some (g, sha) \<Rightarrow>
          g_grant_id g = gid \<and> link_ok st g \<and>
          (case state_of st gid of None \<Rightarrow> False | Some s \<Rightarrow> state_ok g sha s))"

definition wf_store :: "store \<Rightarrow> bool" where
  "wf_store st = list_all (entry_ok st) (map fst (st_grants st))"

lemma grant_of_stored: "grant_of st gid = Some x \<Longrightarrow> gid \<in> fst ` set (st_grants st)"
  by (auto simp: grant_of_def dest!: map_of_SomeD split: option.splits) (force intro: rev_image_eqI)

lemma wf_storeD:
  assumes "wf_store st" and "grant_of st gid = Some (g, sha)"
  obtains s where "state_of st gid = Some s" "state_ok g sha s" "g_grant_id g = gid" "link_ok st g"
  using assms grant_of_stored [OF assms(2)]
  by (fastforce simp: wf_store_def list_all_iff entry_ok_def split: option.splits)

lemma load_grant_grant_of:
  "load_grant E st gid = Inr (g, sha, s) \<Longrightarrow> grant_of st gid = Some (g, sha)"
  by (auto simp: load_grant_def grant_of_def result_simps split: option.splits)

lemma effective_state_status:
  "effective_root_grant_state E g sha s = Inr s' \<Longrightarrow>
   s' = s \<or> s' = s\<lparr>gs_status := Draft\<rparr> \<and> gs_status s' = Draft"
  by (auto simp: effective_root_grant_state_def result_simps Let_def split: materialization.splits
      option.splits if_splits)

lemma load_grant_state:
  assumes "load_grant E st gid = Inr (g, sha, s)" and "gs_status s \<noteq> Draft"
  shows "state_of st gid = Some s"
  using assms by (auto simp: load_grant_def result_simps dest!: effective_state_status split: option.splits)

lemma validate_grant_ranks:
  assumes "validate_grant d = Inr g"
  shows "rank_value (g_holder_rank g) < rank_value (g_issuer_rank g)"
proof -
  from assms obtain ss xs where "grant_accepted d ss xs g" by (rule grant_acceptedE)
  then have "grant_issuer_decisions d = Inr (g_issuer_rank g, g_holder_rank g, g_decision_classes g)"
    by (simp add: grant_accepted_def)
  from this [unfolded grant_issuer_decisions_def result_simps]
  show ?thesis by (cases "jat d ''decision_classes''") (auto simp: result_simps Let_def)
qed

lemma grant_of_validated: "grant_of st gid = Some (g, sha) \<Longrightarrow> \<exists>d. validate_grant d = Inr g"
  by (auto simp: grant_of_def split: option.splits sum.splits)

text \<open>
  The walk to the root of a lineage: every step reaches a grant of a strictly higher issuer rank, so
  the walk never meets a grant twice and is at most three steps long.
\<close>

definition loads :: "env \<Rightarrow> store \<Rightarrow> bool" where
  "loads E st = list_all (\<lambda>gid. case load_grant E st gid of Inl _ \<Rightarrow> False | Inr _ \<Rightarrow> True)
     (map fst (st_grants st))"

lemma loadsD:
  assumes "loads E st" and "grant_of st gid = Some (g, sha)"
  obtains s where "load_grant E st gid = Inr (g, sha, s)"
proof -
  from assms(1) grant_of_stored [OF assms(2)] obtain r where r: "load_grant E st gid = Inr r"
    by (cases "load_grant E st gid") (force simp: loads_def list_all_iff)+
  obtain g' sha' s where "r = (g', sha', s)" by (cases r)
  with r load_grant_grant_of assms(2) that show thesis by fastforce
qed

lemma lineage_from_chain:
  assumes "wf_store st" and "grant_of st (g_grant_id g) = Some (g, sha)"
    and "lineage_from E st seen (g_parent_grant_id g) = Inr recs"
  shows "successively attenuates (g # map fst recs)
    \<and> length recs + rank_value (g_issuer_rank g) \<le> 4"
  using assms(2,3)
proof (induction recs arbitrary: g sha seen)
  case Nil
  show ?case by (cases "g_issuer_rank g") simp_all
next
  case (Cons r recs)
  from Cons.prems(2) obtain pid where pid: "g_parent_grant_id g = Some pid"
    and load: "load_grant E st pid = Inr r"
    and rest: "lineage_from E st (pid # seen) (g_parent_grant_id (fst r)) = Inr recs"
    by (cases "g_parent_grant_id g") (auto simp: bindE_eq_Inr split: if_splits)
  obtain p psha s where r: "r = (p, psha, s)" by (cases r)
  with load have p: "grant_of st pid = Some (p, psha)" by (auto dest: load_grant_grant_of)
  from wf_storeD [OF assms(1) p] have id: "g_grant_id p = pid" by blast
  from wf_storeD [OF assms(1) Cons.prems(1)] have "link_ok st g" by blast
  with pid p have "attenuates g p" "rank_value (g_issuer_rank g) < rank_value (g_issuer_rank p)"
    by (simp_all add: link_ok_def)
  with Cons.IH [of p psha "pid # seen"] p id rest r show ?case by simp
qed

lemma lineage_from_returns:
  assumes "wf_store st" and "loads E st" and "grant_of st (g_grant_id g) = Some (g, sha)"
    and "\<And>x. x \<in> set seen \<Longrightarrow> \<exists>h hs. grant_of st x = Some (h, hs)
      \<and> rank_value (g_issuer_rank h) \<le> rank_value (g_issuer_rank g)"
  shows "\<exists>recs. lineage_from E st seen (g_parent_grant_id g) = Inr recs"
  using assms(3,4)
proof (induction "4 - rank_value (g_issuer_rank g)" arbitrary: g sha seen rule: less_induct)
  case less
  show ?case
  proof (cases "g_parent_grant_id g")
    case None
    then show ?thesis by simp
  next
    case (Some pid)
    from wf_storeD [OF assms(1) less.prems(1)] have "link_ok st g" by blast
    with Some obtain p psha where p: "grant_of st pid = Some (p, psha)"
      and lt: "rank_value (g_issuer_rank g) < rank_value (g_issuer_rank p)"
      by (auto simp: link_ok_def split: option.splits)
    have le4: "rank_value (g_issuer_rank p) \<le> 4" by (cases "g_issuer_rank p") simp_all
    have fresh: "pid \<notin> set seen" using less.prems(2) p lt by fastforce
    from wf_storeD [OF assms(1) p] have pid: "g_grant_id p = pid" by blast
    have seen': "\<exists>h hs. grant_of st x = Some (h, hs)
        \<and> rank_value (g_issuer_rank h) \<le> rank_value (g_issuer_rank p)" if "x \<in> set (pid # seen)" for x
    proof (cases "x = pid")
      case False
      with that less.prems(2) lt show ?thesis by fastforce
    qed (use p in auto)
    from loadsD [OF assms(2) p] obtain s where load: "load_grant E st pid = Inr (p, psha, s)" by blast
    have dec: "4 - rank_value (g_issuer_rank p) < 4 - rank_value (g_issuer_rank g)" using lt le4 by simp
    have "grant_of st (g_grant_id p) = Some (p, psha)" using p pid by simp
    from less.hyps [OF dec this seen'] obtain recs where
      "lineage_from E st (pid # seen) (g_parent_grant_id p) = Inr recs" by blast
    with Some fresh load show ?thesis by simp
  qed
qed


lemma lineage_length:
  assumes "wf_store st" and "grant_of st (g_grant_id g) = Some (g, sha)"
    and "lineage_records E st g = Inr recs"
  shows "length recs \<le> 3"
proof -
  from grant_of_validated [OF assms(2)] validate_grant_ranks
  have "0 < rank_value (g_issuer_rank g)" by fastforce
  moreover have "length recs + rank_value (g_issuer_rank g) \<le> 4"
    using lineage_from_chain [OF assms(1,2) assms(3) [unfolded lineage_records_def]] by blast
  ultimately show ?thesis by simp
qed

subsection \<open>Registration keeps the store well formed\<close>

lemma validate_grant_max_uses:
  assumes "validate_grant d = Inr g"
  shows "g_max_uses g \<noteq> Some 0" and "g_max_uses g = Some m \<Longrightarrow> 1 \<le> m"
proof -
  from assms obtain ss xs where "grant_accepted d ss xs g" by (rule grant_acceptedE)
  then have "grant_lifetime d = Inr (g_cardinality g, g_max_uses g, g_not_before g, g_expires_at g)"
    by (simp add: grant_accepted_def)
  from this [unfolded grant_lifetime_def result_simps prod.inject]
  have "max_uses_field (jat d ''max_uses'') = Inr (g_max_uses g)" by auto
  then show "g_max_uses g \<noteq> Some 0" and "g_max_uses g = Some m \<Longrightarrow> 1 \<le> m"
    by (auto simp: max_uses_field_def split: json.splits if_splits)
qed

lemma initial_state_ok:
  assumes "validate_grant d = Inr g"
  shows "state_ok g sha (initial_state g sha)"
  using validate_grant_max_uses [OF assms]
  by (auto simp: state_ok_def initial_state_def accounting_ok_def split: option.splits)

lemma check_new_grant_link:
  assumes "g_parent_grant_id g = None \<or> inj (env_sha256 E)" and "check_new_grant E st src g = Inr ()"
  shows "link_ok st g"
proof (cases "g_parent_grant_id g")
  case None
  then show ?thesis by (simp add: link_ok_def)
next
  case (Some pid)
  with assms(2) obtain p psha ps where load: "load_grant E st pid = Inr (p, psha, ps)"
    and child: "validate_child (env_digest E) p ps g = Inr ()"
    by (auto simp: check_new_grant_def result_simps)
  from load have "grant_of st pid = Some (p, psha)" by (rule load_grant_grant_of)
  moreover have "inj (env_sha256 E)" using assms(1) Some by simp
  ultimately show ?thesis using Some validate_child_attenuates [OF _ child] by (simp add: link_ok_def)
qed

lemma grant_of_dput:
  "grant_of (st\<lparr>st_grants := dput gid (d, sha) (st_grants st), st_proj := x\<rparr>) k =
     (if k = gid then (case validate_grant d of Inl _ \<Rightarrow> None | Inr g \<Rightarrow> Some (g, sha)) else grant_of st k)"
  by (simp add: grant_of_def)

lemma register_checked_fresh:
  assumes "register_checked E st raw pid = Inr (g, None)"
  shows "validate_grant raw = Inr g" and "\<exists>src. verify_binding (env_files E) (g_source_approval g) = Inr src \<and> check_new_grant E st src g = Inr ()"
    and "map_of (st_grants st) (g_grant_id g) = None" and "state_of st (g_grant_id g) = None"
    and "g_parent_grant_id g = pid"
proof -
  have none: "x = None" if "\<forall>a b. x \<noteq> Some (a, b)" for x :: "('a \<times> 'b) option"
    using that by (cases x) auto
  from assms have "validate_grant raw = Inr g \<and> (\<exists>src. verify_binding (env_files E) (g_source_approval g) = Inr src \<and> check_new_grant E st src g = Inr ()) \<and>
    map_of (st_grants st) (g_grant_id g) = None \<and> state_of st (g_grant_id g) = None \<and> g_parent_grant_id g = pid"
    by (auto simp: register_checked_def result_simps none split: option.splits prod.splits)
  then show "validate_grant raw = Inr g" and "\<exists>src. verify_binding (env_files E) (g_source_approval g) = Inr src \<and> check_new_grant E st src g = Inr ()"
    and "map_of (st_grants st) (g_grant_id g) = None" and "state_of st (g_grant_id g) = None"
    and "g_parent_grant_id g = pid"
    by blast+
qed

lemma register_cases:
  assumes "register_compiled_grant E fd st raw pid = (res, st')"
  obtains (unchanged) "st' = st"
  | (fresh) g where "res = Inr (g, fd (grant_json g), initial_state g (fd (grant_json g)))"
      "register_checked E st raw pid = Inr (g, None)"
      "st' = st\<lparr>st_grants := dput (g_grant_id g) (grant_json g, fd (grant_json g)) (st_grants st),
                st_proj := (st_proj st)(Grant_ref (g_grant_id g) \<mapsto> GS (initial_state g (fd (grant_json g))))\<rparr>"
  using assms
  by (auto simp: register_compiled_grant_def Let_def split: sum.splits option.splits prod.splits)

lemma link_ok_mono:
  assumes "link_ok st h" and "\<And>k x. grant_of st k = Some x \<Longrightarrow> grant_of st' k = Some x"
  shows "link_ok st' h"
proof (cases "g_parent_grant_id h")
  case (Some pid)
  with assms(1) obtain x where "grant_of st pid = Some x" by (auto simp: link_ok_def split: option.splits)
  with assms(2) [OF this] assms(1) Some show ?thesis by (simp add: link_ok_def)
qed (simp add: link_ok_def)

lemma register_wf:
  assumes "pid = None \<or> inj (env_sha256 E)" and "wf_store st" and "register_compiled_grant E fd st raw pid = (res, st')"
  shows "wf_store st'"
  using assms(3)
proof (cases rule: register_cases)
  case unchanged
  with assms(2) show ?thesis by simp
next
  case (fresh g)
  note new = register_checked_fresh [OF fresh(2)]
  let ?gid = "g_grant_id g" and ?sha = "fd (grant_json g)"
  have idem: "validate_grant (grant_json g) = Inr g" using new(1) by (rule validate_grant_idem)
  from new(2,5) assms(1) check_new_grant_link have link: "link_ok st g" by blast
  have notin: "?gid \<notin> fst ` set (st_grants st)" using new(3) by (simp add: map_of_eq_None_iff)
  have here: "grant_of st' ?gid = Some (g, ?sha)" by (simp add: fresh(3) grant_of_dput idem)
  have old: "grant_of st' k = grant_of st k" "state_of st' k = state_of st k"
    if "k \<noteq> ?gid" for k using that by (simp_all add: fresh(3) grant_of_dput state_of_def)
  have mono: "grant_of st' k = Some x" if "grant_of st k = Some x" for k x
  proof -
    from grant_of_stored [OF that] notin have "k \<noteq> ?gid" by blast
    with that old(1) show ?thesis by simp
  qed
  have "entry_ok st' ?gid"
    using here link_ok_mono [OF link mono] initial_state_ok [OF new(1)] by (simp add: entry_ok_def fresh(3) state_of_def)
  moreover have "entry_ok st' k" if k: "k \<in> fst ` set (st_grants st)" for k
  proof -
    from k notin have ne: "k \<noteq> ?gid" by blast
    from k assms(2) have "entry_ok st k" by (auto simp: wf_store_def list_all_iff)
    then show ?thesis
      unfolding entry_ok_def old [OF ne] by (auto split: option.splits intro: link_ok_mono [OF _ mono])
  qed
  moreover have "fst ` set (st_grants st') = insert ?gid (fst ` set (st_grants st))"
    by (simp add: fresh(3) dput_keys)
  ultimately show ?thesis using assms(2) by (auto simp: wf_store_def list_all_iff)
qed

end
