(* ===== verification/Evaluator.thy ===== *)
theory Evaluator
  imports Grant_Store
begin

text \<open>
  The evaluator: \<^verbatim>\<open>evaluator.py\<close> (\<^verbatim>\<open>manifest_reasons\<close>, \<^verbatim>\<open>_covers\<close>, \<^verbatim>\<open>_lineage_covers\<close>,
  \<^verbatim>\<open>_grant_decision\<close>, \<^verbatim>\<open>evaluate\<close>) with the modules it composes: grant compositions
  (\<^verbatim>\<open>composition.py\<close>), near-miss diagnostics (\<^verbatim>\<open>grant_diagnostics.py\<close>), the authority
  fingerprint (\<^verbatim>\<open>decision_integrity.py\<close>) and the approval projection
  (\<^verbatim>\<open>approval_projection.py\<close>).
\<close>

subsection \<open>The manifest check\<close>

fun mutation_order :: "mutation_class \<Rightarrow> nat" where
  "mutation_order Observe = 0"
| "mutation_order Local_mutation = 1"
| "mutation_order External_mutation = 2"
| "mutation_order Destructive = 3"

fun reversibility_order :: "reversibility \<Rightarrow> nat" where
  "reversibility_order Reversible = 0"
| "reversibility_order Conditionally_reversible = 1"
| "reversibility_order Irreversible = 2"

definition manifest_reasons :: "request \<Rightarrow> operation \<Rightarrow> string list" where
  "manifest_reasons r e =
     (if set (op_required_capabilities e) \<subseteq> set (rq_required_capabilities r) then []
      else [''request_understates_manifest_capabilities'']) @
     (if risk_value (rq_risk_tier r) < risk_value (op_risk_floor e)
      then [''request_understates_manifest_risk''] else []) @
     (if mutation_order (rq_mutation_class r) < mutation_order (op_mutation_class e)
      then [''request_understates_manifest_mutation''] else []) @
     (if reversibility_order (rq_reversibility r) < reversibility_order (op_reversibility e)
      then [''request_overstates_reversibility''] else []) @
     (if rq_decision_class r \<noteq> op_decision_class e then [''decision_class_mismatch''] else []) @
     (if rq_effect_class r \<notin> set (op_effect_classes e) then [''effect_class_not_manifested''] else []) @
     (if rq_data_class r \<notin> set (op_data_classes e) then [''data_class_not_manifested''] else []) @
     (if sub_kind (rq_subject r) \<notin> set (op_subject_kinds e) then [''subject_kind_not_manifested''] else [])"

subsection \<open>Coverage by one grant\<close>

definition request_operation :: "request \<Rightarrow> operation_scope" where
  "request_operation r =
     \<lparr>os_operation_id = rq_operation_id r, os_operation_version = rq_operation_version r,
      os_skill_id = rq_skill_id r, os_skill_version = rq_skill_version r\<rparr>"

definition schema4_eligible :: "env \<Rightarrow> grant \<Rightarrow> datetime \<Rightarrow> bool" where
  "schema4_eligible E g at =
     (case g_materialization g of Schema4 _ _ \<Rightarrow> env_activation E g at | _ \<Rightarrow> True)"

definition expired_at :: "grant \<Rightarrow> datetime \<Rightarrow> bool" where
  "expired_at g at = (case g_expires_at g of None \<Rightarrow> False | Some e \<Rightarrow> instant e \<le> instant at)"

text \<open>An optional scope field binds only when it is present\<close>

definition scope_mismatch :: "string option \<Rightarrow> string option \<Rightarrow> bool" where
  "scope_mismatch bound actual = (bound \<noteq> None \<and> bound \<noteq> actual)"

definition budget_short :: "grant \<Rightarrow> request \<Rightarrow> bool" where
  "budget_short g r = (case g_max_uses g of None \<Rightarrow> False | Some m \<Rightarrow> m < rq_use_budget_requested r)"

definition units_short :: "gstate \<Rightarrow> request \<Rightarrow> bool" where
  "units_short s r =
     (case gs_remaining_uses s of None \<Rightarrow> False
      | Some available \<Rightarrow> available - gs_reserved_uses s < reservation_units r)"

definition covers ::
  "env \<Rightarrow> request \<Rightarrow> grant \<Rightarrow> gstate \<Rightarrow> datetime \<Rightarrow> source_rank \<Rightarrow> string \<Rightarrow> bool" where
  "covers E r g s at rank_floor session_id =
     (if \<not> schema4_eligible E g at then False
      else if gs_status s \<noteq> Active \<or> g_holder_rank g \<noteq> rq_actor_rank r then False
      else if \<not> root_grant_request_binding_covers (env_digest E) g r then False
      else if instant (g_not_before g) > instant at then False
      else if expired_at g at then False
      else if rank_value (g_issuer_rank g) < rank_value rank_floor then False
      else if \<not> set (rq_required_capabilities r) \<subseteq> set (g_capabilities g) then False
      else if rq_subject r \<notin> set (g_subjects g) then False
      else if request_operation r \<notin> set (g_operations g) then False
      else if risk_value (rq_risk_tier r) > risk_value (g_risk_ceiling g) then False
      else if enum_name DECISION_CLASSES (rq_decision_class r) \<notin> set (g_decision_classes g) then False
      else if \<not> cardinality_covers (g_cardinality g) (rq_cardinality_requested r) then False
      else if scope_mismatch (g_session_id g) (Some session_id) then False
      else if scope_mismatch (g_task_id g) (rq_task_id r) then False
      else if scope_mismatch (g_improvement_id g) (rq_pack_id r) then False
      else if g_cardinality g = Task_lease \<and> g_task_id g \<noteq> rq_task_id r then False
      else if g_cardinality g = Improvement_lease \<and> g_improvement_id g \<noteq> rq_pack_id r then False
      else if budget_short g r then False
      else if units_short s r then False
      else True)"

subsection \<open>Coverage by the ancestors\<close>

definition ancestor_covers :: "env \<Rightarrow> request \<Rightarrow> datetime \<Rightarrow> string \<Rightarrow> grant_record \<Rightarrow> bool" where
  "ancestor_covers E r at session_id rec =
     (let g = fst rec; s = snd (snd rec) in
      if \<not> schema4_eligible E g at then False
      else if gs_status s \<noteq> Active then False
      else if \<not> root_grant_request_binding_covers (env_digest E) g r then False
      else if instant (g_not_before g) > instant at then False
      else if expired_at g at then False
      else if scope_mismatch (g_session_id g) (Some session_id) then False
      else if scope_mismatch (g_task_id g) (rq_task_id r) then False
      else if scope_mismatch (g_improvement_id g) (rq_pack_id r) then False
      else if budget_short g r then False
      else if units_short s r then False
      else True)"

definition lineage_covers :: "env \<Rightarrow> grant_record list \<Rightarrow> request \<Rightarrow> datetime \<Rightarrow> string \<Rightarrow> bool" where
  "lineage_covers E recs r at session_id = list_all (ancestor_covers E r at session_id) recs"

subsection \<open>Compositions\<close>

record composition =
  cp_composition_id :: string
  cp_request_sha256 :: string
  cp_grant_ids :: "string list"
  cp_source_approval :: binding
  cp_created_at :: datetime
  cp_idempotency_key :: string

definition COMPOSITION_KEYS :: "string list" where
  "COMPOSITION_KEYS = [''schema_version'', ''artifact_kind'', ''composition_id'', ''request_sha256'',
     ''grant_ids'', ''source_approval'', ''created_at'', ''idempotency_key'']"

definition composition_ids :: "json \<Rightarrow> string list res" where
  "composition_ids v =
     (case v of
        JList xs \<Rightarrow>
          if length xs < 2 then fail BadList
          else (let normalized = sort_uniq (map py_str xs) in
            if map JStr normalized \<noteq> xs then fail BadList else Inr normalized)
      | _ \<Rightarrow> fail BadList)"

definition validate_composition :: "obj \<Rightarrow> composition res" where
  "validate_composition d =
     bindE (exact_keys d COMPOSITION_KEYS) (\<lambda>_.
     if jat d ''schema_version'' \<noteq> JInt 2
        \<or> jat d ''artifact_kind'' \<noteq> JStr ''authority_grant_composition''
     then fail BadContract
     else
     bindE (composition_ids (jat d ''grant_ids'')) (\<lambda>ids.
     case jat d ''source_approval'' of
       JObj src \<Rightarrow>
         if set (jkeys src) \<noteq> set BINDING_KEYS then fail BadBinding
         else bindE (parse_time (jat d ''created_at'')) (\<lambda>created.
           Inr \<lparr>cp_composition_id = py_str (jat d ''composition_id''),
                cp_request_sha256 = py_str (jat d ''request_sha256''), cp_grant_ids = ids,
                cp_source_approval = \<lparr>b_ref = py_str (jat src ''ref''),
                  b_sha256 = py_str (jat src ''sha256'')\<rparr>,
                cp_created_at = created,
                cp_idempotency_key = py_str (jat d ''idempotency_key'')\<rparr>)
     | _ \<Rightarrow> fail BadBinding))"

definition load_bound_composition :: "files \<Rightarrow> binding \<Rightarrow> string \<Rightarrow> composition res" where
  "load_bound_composition fs b request_sha =
     bindE (verify_binding fs b) (\<lambda>doc.
     case doc of
       Some (JObj d) \<Rightarrow>
         bindE (validate_composition d) (\<lambda>c.
         if cp_request_sha256 c \<noteq> request_sha then fail BadBinding
         else bindE (verify_binding fs (cp_source_approval c)) (\<lambda>_. Inr c))
     | _ \<Rightarrow> fail NotAnObject)"

definition composed_grant_covers ::
  "env \<Rightarrow> request \<Rightarrow> datetime \<Rightarrow> source_rank \<Rightarrow> string \<Rightarrow> grant_record \<Rightarrow> bool" where
  "composed_grant_covers E r at rank_floor session_id rec =
     (let g = fst rec; s = snd (snd rec) in
      if gs_status s \<noteq> Active \<or> g_holder_rank g \<noteq> rq_actor_rank r
         \<or> \<not> root_grant_request_binding_covers (env_digest E) g r then False
      else if instant (g_not_before g) > instant at then False
      else if expired_at g at then False
      else if rank_value (g_issuer_rank g) < rank_value rank_floor
              \<or> rq_subject r \<notin> set (g_subjects g) then False
      else if request_operation r \<notin> set (g_operations g)
              \<or> risk_value (rq_risk_tier r) > risk_value (g_risk_ceiling g) then False
      else if \<not> cardinality_covers (g_cardinality g) (rq_cardinality_requested r) then False
      else if scope_mismatch (g_session_id g) (Some session_id) then False
      else if scope_mismatch (g_task_id g) (rq_task_id r) then False
      else if scope_mismatch (g_improvement_id g) (rq_pack_id r) then False
      else if enum_name DECISION_CLASSES (rq_decision_class r) \<notin> set (g_decision_classes g) then False
      else if units_short s r then False
      else True)"

definition composition_covers ::
  "env \<Rightarrow> request \<Rightarrow> grant_record list \<Rightarrow> datetime \<Rightarrow> source_rank \<Rightarrow> string \<Rightarrow> bool" where
  "composition_covers E r recs at rank_floor session_id =
     (list_all (composed_grant_covers E r at rank_floor session_id) recs \<and>
      set (rq_required_capabilities r) \<subseteq> set (concat (map (\<lambda>rec. g_capabilities (fst rec)) recs)))"

subsection \<open>Near misses\<close>

definition near_miss_checks ::
  "env \<Rightarrow> request \<Rightarrow> datetime \<Rightarrow> source_rank \<Rightarrow> string \<Rightarrow> grant_record \<Rightarrow> (string \<times> bool) list" where
  "near_miss_checks E r at rank_floor session_id rec =
     (let g = fst rec; s = snd (snd rec) in
      [(''covering_grant_inactive'', gs_status s \<noteq> Active),
       (''covering_grant_holder_mismatch'', g_holder_rank g \<noteq> rq_actor_rank r),
       (''covering_root_grant_exact_request_mismatch'',
          \<not> root_grant_request_binding_covers (env_digest E) g r),
       (''covering_grant_not_yet_valid'', instant (g_not_before g) > instant at),
       (''covering_grant_expired'', expired_at g at),
       (''covering_grant_source_rank_insufficient'',
          rank_value (g_issuer_rank g) < rank_value rank_floor),
       (''covering_grant_capability_mismatch'',
          \<not> set (rq_required_capabilities r) \<subseteq> set (g_capabilities g)),
       (''covering_grant_subject_mismatch'', rq_subject r \<notin> set (g_subjects g)),
       (''covering_grant_operation_mismatch'', request_operation r \<notin> set (g_operations g)),
       (''covering_grant_risk_ceiling_insufficient'',
          risk_value (rq_risk_tier r) > risk_value (g_risk_ceiling g)),
       (''covering_grant_decision_class_mismatch'',
          enum_name DECISION_CLASSES (rq_decision_class r) \<notin> set (g_decision_classes g)),
       (''covering_grant_cardinality_mismatch'',
          \<not> cardinality_covers (g_cardinality g) (rq_cardinality_requested r)),
       (''covering_grant_session_scope_mismatch'', scope_mismatch (g_session_id g) (Some session_id)),
       (''covering_grant_task_scope_mismatch'', scope_mismatch (g_task_id g) (rq_task_id r)),
       (''covering_grant_improvement_scope_mismatch'', scope_mismatch (g_improvement_id g) (rq_pack_id r)),
       (''covering_grant_budget_scope_insufficient'', budget_short g r),
       (''covering_grant_dispatch_units_unavailable'', units_short s r)])"

definition near_miss_reasons ::
  "env \<Rightarrow> request \<Rightarrow> grant_record list \<Rightarrow> datetime \<Rightarrow> source_rank \<Rightarrow> string \<Rightarrow> string list" where
  "near_miss_reasons E r recs at rank_floor session_id =
     (if recs = [] then [''no_authority_grants_registered'']
      else sort_uniq (concat (map (\<lambda>rec.
             map fst (filter snd (near_miss_checks E r at rank_floor session_id rec))) recs)))"

subsection \<open>The grant decision\<close>

record grant_binding =
  gb_grant_id :: string
  gb_grant_sha256 :: string
  gb_state_version :: int
  gb_policy_snapshot :: binding

definition selected_binding :: "grant_record \<Rightarrow> grant_binding" where
  "selected_binding rec =
     \<lparr>gb_grant_id = g_grant_id (fst rec), gb_grant_sha256 = fst (snd rec),
      gb_state_version = gs_version (snd (snd rec)), gb_policy_snapshot = g_policy_snapshot (fst rec)\<rparr>"

record verdict =
  vd_decision :: decision
  vd_reasons :: "string list"
  vd_selected :: "grant_binding list"
  vd_lineage :: "grant_binding list"

definition no_grants :: "decision \<Rightarrow> string list \<Rightarrow> verdict" where
  "no_grants d reasons = \<lparr>vd_decision = d, vd_reasons = reasons, vd_selected = [], vd_lineage = []\<rparr>"

text \<open>The candidates: records that cover the request, each with its ancestors when those cover it\<close>

definition candidate ::
  "env \<Rightarrow> store \<Rightarrow> request \<Rightarrow> datetime \<Rightarrow> source_rank \<Rightarrow> string \<Rightarrow> grant_record
   \<Rightarrow> (grant_record \<times> grant_record list) list res" where
  "candidate E st r at rank_floor session_id rec =
     (if \<not> covers E r (fst rec) (snd (snd rec)) at rank_floor session_id then Inr []
      else bindE (lineage_records E st (fst rec)) (\<lambda>lineage.
        if lineage_covers E lineage r at session_id then Inr [(rec, lineage)] else Inr []))"

text \<open>Least authority first: risk, then the sizes of the scope, then the identifier\<close>

definition candidate_before :: "grant \<Rightarrow> grant \<Rightarrow> bool" where
  "candidate_before a b =
     (let ka = [risk_value (g_risk_ceiling a), length (g_capabilities a), length (g_subjects a),
                length (g_operations a)];
          kb = [risk_value (g_risk_ceiling b), length (g_capabilities b), length (g_subjects b),
                length (g_operations b)]
      in ka < kb \<or> ka = kb \<and> g_grant_id a < g_grant_id b)"

text \<open>The head of the stable sort: the first record that no later one precedes\<close>

fun first_candidate ::
  "grant_record \<times> grant_record list \<Rightarrow> (grant_record \<times> grant_record list) list
   \<Rightarrow> grant_record \<times> grant_record list" where
  "first_candidate best [] = best"
| "first_candidate best (c # cs) =
     first_candidate (if candidate_before (fst (fst c)) (fst (fst best)) then c else best) cs"

definition composition_decision ::
  "env \<Rightarrow> store \<Rightarrow> request \<Rightarrow> binding \<Rightarrow> operation \<Rightarrow> datetime \<Rightarrow> string \<Rightarrow> grant_record list
   \<Rightarrow> verdict res" where
  "composition_decision E st r receipt op at session_id recs =
     bindE (load_bound_composition (env_files E) receipt
              (env_digest E (JObj (request_json (r\<lparr>rq_composition_receipt := None\<rparr>))))) (\<lambda>c.
     let by_id = map_of (rev (map (\<lambda>rec. (g_grant_id (fst rec), rec)) recs)) in
     if list_ex (\<lambda>gid. by_id gid = None) (cp_grant_ids c)
     then Inr (no_grants Decision_conflict [''composition_grant_missing''])
     else
       let composed = map (\<lambda>gid. the (by_id gid)) (cp_grant_ids c) in
       bindE (mapE (\<lambda>rec. lineage_records E st (fst rec)) composed) (\<lambda>lineages.
       if \<not> composition_covers E r composed at (op_source_rank_floor op) session_id
          \<or> \<not> list_all (\<lambda>l. lineage_covers E l r at session_id) lineages
       then Inr (no_grants Decision_conflict [''composition_no_longer_covers_request''])
       else
         let entries = map (\<lambda>rec. (g_grant_id (fst rec), selected_binding rec)) (concat lineages);
             lineage_by_id = map_of (rev entries)
         in Inr \<lparr>vd_decision = Allowed, vd_reasons = [], vd_selected = map selected_binding composed,
                 vd_lineage = map (\<lambda>gid. the (lineage_by_id gid)) (sort_uniq (map fst entries))\<rparr>))"

definition grant_decision ::
  "env \<Rightarrow> store \<Rightarrow> request \<Rightarrow> operation \<Rightarrow> datetime \<Rightarrow> string \<Rightarrow> verdict res" where
  "grant_decision E st r op at session_id =
     bindE (list_grants E st (Some at)) (\<lambda>recs.
     bindE (mapE (candidate E st r at (op_source_rank_floor op) session_id) recs) (\<lambda>cs.
     case concat cs of
       c # rest \<Rightarrow>
         (let chosen = first_candidate c rest in
          Inr \<lparr>vd_decision = Allowed, vd_reasons = [], vd_selected = [selected_binding (fst chosen)],
               vd_lineage = map selected_binding (snd chosen)\<rparr>)
     | [] \<Rightarrow>
         (case rq_composition_receipt r of
            None \<Rightarrow>
              Inr (no_grants Approval_required
                ([''no_single_covering_active_grant'']
                 @ near_miss_reasons E r recs at (op_source_rank_floor op) session_id))
          | Some receipt \<Rightarrow> composition_decision E st r receipt op at session_id recs)))"

subsection \<open>Coverage\<close>

lemma if_guard: "(if b then False else x) \<longleftrightarrow> \<not> b \<and> x"
  by simp

lemma covers_iff:
  "covers E r g s at rank_floor session_id \<longleftrightarrow>
     schema4_eligible E g at \<and> gs_status s = Active \<and> g_holder_rank g = rq_actor_rank r \<and>
     root_grant_request_binding_covers (env_digest E) g r \<and>
     instant (g_not_before g) \<le> instant at \<and> \<not> expired_at g at \<and>
     rank_value rank_floor \<le> rank_value (g_issuer_rank g) \<and>
     set (rq_required_capabilities r) \<subseteq> set (g_capabilities g) \<and>
     rq_subject r \<in> set (g_subjects g) \<and> request_operation r \<in> set (g_operations g) \<and>
     risk_value (rq_risk_tier r) \<le> risk_value (g_risk_ceiling g) \<and>
     enum_name DECISION_CLASSES (rq_decision_class r) \<in> set (g_decision_classes g) \<and>
     cardinality_covers (g_cardinality g) (rq_cardinality_requested r) \<and>
     \<not> scope_mismatch (g_session_id g) (Some session_id) \<and>
     \<not> scope_mismatch (g_task_id g) (rq_task_id r) \<and>
     \<not> scope_mismatch (g_improvement_id g) (rq_pack_id r) \<and>
     \<not> (g_cardinality g = Task_lease \<and> g_task_id g \<noteq> rq_task_id r) \<and>
     \<not> (g_cardinality g = Improvement_lease \<and> g_improvement_id g \<noteq> rq_pack_id r) \<and>
     \<not> budget_short g r \<and> \<not> units_short s r"
  unfolding covers_def if_guard by (simp add: not_less)

lemma ancestor_covers_iff:
  "ancestor_covers E r at session_id (g, sha, s) \<longleftrightarrow>
     schema4_eligible E g at \<and> gs_status s = Active \<and>
     root_grant_request_binding_covers (env_digest E) g r \<and>
     instant (g_not_before g) \<le> instant at \<and> \<not> expired_at g at \<and>
     \<not> scope_mismatch (g_session_id g) (Some session_id) \<and>
     \<not> scope_mismatch (g_task_id g) (rq_task_id r) \<and>
     \<not> scope_mismatch (g_improvement_id g) (rq_pack_id r) \<and>
     \<not> budget_short g r \<and> \<not> units_short s r"
  unfolding ancestor_covers_def by (simp add: not_less)

lemma composed_grant_covers_iff:
  "composed_grant_covers E r at rank_floor session_id (g, sha, s) \<longleftrightarrow>
     gs_status s = Active \<and> g_holder_rank g = rq_actor_rank r \<and>
     root_grant_request_binding_covers (env_digest E) g r \<and>
     instant (g_not_before g) \<le> instant at \<and> \<not> expired_at g at \<and>
     rank_value rank_floor \<le> rank_value (g_issuer_rank g) \<and>
     rq_subject r \<in> set (g_subjects g) \<and> request_operation r \<in> set (g_operations g) \<and>
     risk_value (rq_risk_tier r) \<le> risk_value (g_risk_ceiling g) \<and>
     cardinality_covers (g_cardinality g) (rq_cardinality_requested r) \<and>
     \<not> scope_mismatch (g_session_id g) (Some session_id) \<and>
     \<not> scope_mismatch (g_task_id g) (rq_task_id r) \<and>
     \<not> scope_mismatch (g_improvement_id g) (rq_pack_id r) \<and>
     enum_name DECISION_CLASSES (rq_decision_class r) \<in> set (g_decision_classes g) \<and>
     \<not> units_short s r"
  unfolding composed_grant_covers_def if_guard Let_def by (simp add: not_less) blast

text \<open>A single covering grant is a composition of one\<close>

lemma covers_composed:
  "covers E r g s at fl sid \<Longrightarrow> composed_grant_covers E r at fl sid (g, sha, s)"
  by (simp add: covers_iff composed_grant_covers_iff)

text \<open>What every grant behind an allowed decision satisfies\<close>

definition in_force :: "env \<Rightarrow> store \<Rightarrow> request \<Rightarrow> datetime \<Rightarrow> string \<Rightarrow> grant_record \<Rightarrow> bool" where
  "in_force E st r at session_id rec \<longleftrightarrow>
     (let g = fst rec; s = snd (snd rec) in
      load_grant E st (g_grant_id g) = Inr rec \<and> gs_status s = Active \<and>
      root_grant_request_binding_covers (env_digest E) g r \<and>
      instant (g_not_before g) \<le> instant at \<and> \<not> expired_at g at \<and>
      \<not> scope_mismatch (g_session_id g) (Some session_id) \<and>
      \<not> scope_mismatch (g_task_id g) (rq_task_id r) \<and>
      \<not> scope_mismatch (g_improvement_id g) (rq_pack_id r) \<and> \<not> units_short s r)"

text \<open>What the selected grants add: the exact scope of the request\<close>

definition scope_permits :: "request \<Rightarrow> source_rank \<Rightarrow> grant \<Rightarrow> bool" where
  "scope_permits r rank_floor g \<longleftrightarrow>
     g_holder_rank g = rq_actor_rank r \<and> rank_value rank_floor \<le> rank_value (g_issuer_rank g) \<and>
     rq_subject r \<in> set (g_subjects g) \<and> request_operation r \<in> set (g_operations g) \<and>
     risk_value (rq_risk_tier r) \<le> risk_value (g_risk_ceiling g) \<and>
     enum_name DECISION_CLASSES (rq_decision_class r) \<in> set (g_decision_classes g) \<and>
     cardinality_covers (g_cardinality g) (rq_cardinality_requested r)"

subsection \<open>Records come from the store\<close>

lemma load_grant_id:
  assumes "wf_store st" and "load_grant E st gid = Inr (g, sha, s)"
  shows "g_grant_id g = gid"
  using wf_storeD [OF assms(1) load_grant_grant_of [OF assms(2)]] by blast

lemma list_grants_loaded:
  assumes "list_grants E st at = Inr recs" and "rec \<in> set recs"
  shows "\<exists>gid. load_grant E st gid = Inr rec"
proof -
  from assms(1) obtain xss where "mapE (list_one E st at) (grant_ids st) = Inr xss" and "recs = concat xss"
    by (auto simp: list_grants_def bindE_eq_Inr)
  with assms(2) obtain xs gid where "rec \<in> set xs" and "list_one E st at gid = Inr xs"
    by (auto dest: mapE_set)
  then show ?thesis by (auto simp: list_one_def bindE_eq_Inr split: if_splits)
qed

lemma lineage_from_loaded:
  assumes "lineage_from E st seen p = Inr recs" and "rec \<in> set recs"
  shows "\<exists>gid. load_grant E st gid = Inr rec"
  using assms
proof (induction recs arbitrary: seen p)
  case Nil
  then show ?case by simp
next
  case (Cons x xs)
  then show ?case by (cases p) (auto simp: bindE_eq_Inr split: if_splits)
qed

lemma loaded_in_force:
  assumes "wf_store st" and "\<exists>gid. load_grant E st gid = Inr rec"
  shows "load_grant E st (g_grant_id (fst rec)) = Inr rec"
  using assms load_grant_id by (cases rec) fastforce

lemma lineage_in_force:
  assumes "wf_store st" and "lineage_records E st g = Inr l" and "lineage_covers E l r at sid"
    and "rec \<in> set l"
  shows "in_force E st r at sid rec"
proof -
  have "load_grant E st (g_grant_id (fst rec)) = Inr rec"
    using loaded_in_force [OF assms(1) lineage_from_loaded] assms(2,4) by (simp add: lineage_records_def)
  moreover have "ancestor_covers E r at sid rec" using assms(3,4) by (simp add: lineage_covers_def list_all_iff)
  ultimately show ?thesis by (cases rec) (simp add: in_force_def ancestor_covers_iff)
qed

lemma composed_in_force:
  assumes "wf_store st" and "\<exists>gid. load_grant E st gid = Inr rec"
    and "composed_grant_covers E r at fl sid rec"
  shows "in_force E st r at sid rec \<and> scope_permits r fl (fst rec)"
  using loaded_in_force [OF assms(1,2)] assms(3)
  by (cases rec) (simp add: in_force_def scope_permits_def composed_grant_covers_iff)


subsection \<open>The choice among candidates\<close>

lemma lex_not_less_trans:
  fixes x y z :: "'a::linorder" and u v w :: "'b::linorder"
  assumes "\<not> (x < y \<or> x = y \<and> u < v)" and "\<not> (y < z \<or> y = z \<and> v < w)"
  shows "\<not> (x < z \<or> x = z \<and> u < w)"
  using assms by (auto simp: not_less intro: order_trans)

lemma not_before_trans:
  "\<not> candidate_before a b \<Longrightarrow> \<not> candidate_before b c \<Longrightarrow> \<not> candidate_before a c"
  unfolding candidate_before_def Let_def by (rule lex_not_less_trans)

lemma before_asym: "candidate_before a b \<Longrightarrow> \<not> candidate_before b a"
  unfolding candidate_before_def Let_def by auto

lemma first_candidate_least:
  "first_candidate b cs \<in> set (b # cs) \<and>
   (\<forall>c \<in> set (b # cs). \<not> candidate_before (fst (fst c)) (fst (fst (first_candidate b cs))))"
proof (induction cs arbitrary: b)
  case Nil
  then show ?case using before_asym by auto
next
  case (Cons c cs)
  let ?n = "if candidate_before (fst (fst c)) (fst (fst b)) then c else b"
  let ?best = "fst (fst (first_candidate ?n cs))"
  from Cons.IH [of ?n] have mem: "first_candidate ?n cs \<in> set (?n # cs)"
    and least: "\<And>x. x \<in> set (?n # cs) \<Longrightarrow> \<not> candidate_before (fst (fst x)) ?best" by blast+
  have n: "\<not> candidate_before (fst (fst ?n)) ?best" by (rule least) simp
  have b: "\<not> candidate_before (fst (fst b)) (fst (fst ?n))"
    "\<not> candidate_before (fst (fst c)) (fst (fst ?n))" using before_asym by auto
  have "\<not> candidate_before (fst (fst x)) ?best" if "x \<in> set (b # c # cs)" for x
    using that least [of x] not_before_trans [OF b(1) n] not_before_trans [OF b(2) n] by auto
  moreover have "first_candidate ?n cs \<in> set (b # c # cs)" using mem by (auto split: if_splits)
  ultimately show ?case by (simp only: first_candidate.simps) blast
qed

subsection \<open>Candidates\<close>

lemma candidate_eq:
  assumes "candidate E st r at fl sid rec = Inr xs" and "(x, l) \<in> set xs"
  shows "x = rec" and "covers E r (fst rec) (snd (snd rec)) at fl sid"
    and "lineage_records E st (fst rec) = Inr l" and "lineage_covers E l r at sid"
  using assms by (auto simp: candidate_def bindE_eq_Inr split: if_splits)

lemma candidates_sound:
  assumes "mapE (candidate E st r at fl sid) recs = Inr cs" and "(x, l) \<in> set (concat cs)"
  shows "x \<in> set recs" and "covers E r (fst x) (snd (snd x)) at fl sid"
    and "lineage_records E st (fst x) = Inr l" and "lineage_covers E l r at sid"
proof -
  from assms obtain xs rec where "(x, l) \<in> set xs" "rec \<in> set recs" "candidate E st r at fl sid rec = Inr xs"
    by (auto dest: mapE_set)
  from candidate_eq [OF this(3,1)] this(2) show "x \<in> set recs" "covers E r (fst x) (snd (snd x)) at fl sid"
    "lineage_records E st (fst x) = Inr l" "lineage_covers E l r at sid" by simp_all
qed

lemma mapE_mem: "mapE f xs = Inr ys \<Longrightarrow> x \<in> set xs \<Longrightarrow> \<exists>y \<in> set ys. f x = Inr y"
  by (induction xs arbitrary: ys) (auto simp: bindE_eq_Inr)

lemma candidates_complete:
  assumes "mapE (candidate E st r at fl sid) recs = Inr cs" and "x \<in> set recs"
    and "covers E r (fst x) (snd (snd x)) at fl sid" and "lineage_records E st (fst x) = Inr l"
    and "lineage_covers E l r at sid"
  shows "(x, l) \<in> set (concat cs)"
proof -
  from assms(3-5) have "candidate E st r at fl sid x = Inr [(x, l)]" by (simp add: candidate_def)
  moreover from mapE_mem [OF assms(1,2)] obtain ys where "ys \<in> set cs"
    "candidate E st r at fl sid x = Inr ys" by blast
  ultimately show ?thesis by (auto intro: bexI [of _ ys])
qed

subsection \<open>Soundness of the grant decision\<close>

text \<open>
  The grants of an allowed verdict: bound records of the store that are in force, of which the
  selected ones permit the scope of the request and together hold its capabilities, and whose
  ancestors are all bound.
\<close>

definition authorized ::
  "env \<Rightarrow> store \<Rightarrow> request \<Rightarrow> operation \<Rightarrow> datetime \<Rightarrow> string \<Rightarrow> verdict \<Rightarrow> bool" where
  "authorized E st r op at sid v \<longleftrightarrow>
     (\<exists>sel anc. sel \<noteq> [] \<and> vd_selected v = map selected_binding sel \<and>
        set (vd_lineage v) = selected_binding ` set anc \<and>
        (\<forall>rec \<in> set sel \<union> set anc. in_force E st r at sid rec) \<and>
        (\<forall>rec \<in> set sel. scope_permits r (op_source_rank_floor op) (fst rec)) \<and>
        set (rq_required_capabilities r) \<subseteq> (\<Union>rec \<in> set sel. set (g_capabilities (fst rec))) \<and>
        (\<forall>rec \<in> set sel. \<exists>l. lineage_records E st (fst rec) = Inr l \<and> set l \<subseteq> set anc))"

lemma authorizedI:
  assumes "sel \<noteq> []" and "vd_selected v = map selected_binding sel"
    and "set (vd_lineage v) = selected_binding ` set anc"
    and "\<And>rec. rec \<in> set sel \<Longrightarrow> in_force E st r at sid rec \<and> scope_permits r (op_source_rank_floor op) (fst rec)"
    and "\<And>rec. rec \<in> set anc \<Longrightarrow> in_force E st r at sid rec"
    and "set (rq_required_capabilities r) \<subseteq> (\<Union>rec \<in> set sel. set (g_capabilities (fst rec)))"
    and "\<And>rec. rec \<in> set sel \<Longrightarrow> \<exists>l. lineage_records E st (fst rec) = Inr l \<and> set l \<subseteq> set anc"
  shows "authorized E st r op at sid v"
  unfolding authorized_def using assms by (intro exI [of _ sel] exI [of _ anc]) auto

lemma map_of_rev_last:
  assumes "inj_on fst (set xs)" and "(k, v) \<in> set xs"
  shows "map_of (rev xs) k = Some v"
proof -
  from assms(2) obtain w where w: "map_of (rev xs) k = Some w"
    by (metis image_eqI map_of_eq_None_iff not_None_eq set_rev fst_conv)
  then have "(k, w) \<in> set xs" by (metis map_of_SomeD set_rev)
  from inj_onD [OF assms(1) _ this assms(2)] have "w = v" by simp
  with w show ?thesis by simp
qed


lemma composition_ids_facts:
  assumes "composition_ids v = Inr ids"
  shows "2 \<le> length ids" "sorted ids" "distinct ids"
proof -
  from assms obtain xs where v: "v = JList xs" by (cases v) (auto simp: composition_ids_def)
  with assms have "2 \<le> length xs" "map JStr ids = xs" "ids = sort_uniq (map py_str xs)"
    by (auto simp: composition_ids_def Let_def split: if_splits)
  then show "2 \<le> length ids" "sorted ids" "distinct ids" by (metis length_map, simp_all)
qed

lemma load_bound_composition_ids:
  assumes "load_bound_composition fs b sha = Inr c"
  shows "2 \<le> length (cp_grant_ids c)"
proof -
  from assms obtain doc where "verify_binding fs b = Inr doc" by (auto simp: load_bound_composition_def bindE_eq_Inr)
  with assms obtain d where d: "validate_composition d = Inr c"
    by (cases "case doc of Some (JObj d) \<Rightarrow> Some d | _ \<Rightarrow> None")
       (auto simp: load_bound_composition_def bindE_eq_Inr split: option.splits json.splits if_splits)
  note run = d [unfolded validate_composition_def result_simps]
  from run obtain src where "jat d ''source_approval'' = JObj src"
    by (cases "jat d ''source_approval''") auto
  with run obtain v where "composition_ids v = Inr (cp_grant_ids c)" by (auto simp: result_simps)
  then show ?thesis by (rule composition_ids_facts)
qed

lemma bindings_of_loaded:
  assumes "\<And>rec. rec \<in> set recs \<Longrightarrow> load_grant E st (g_grant_id (fst rec)) = Inr rec"
  shows "(\<lambda>gid. the (map_of (rev (map (\<lambda>rec. (g_grant_id (fst rec), selected_binding rec)) recs)) gid))
      ` (\<lambda>rec. g_grant_id (fst rec)) ` set recs = selected_binding ` set recs"
proof -
  have inj: "inj_on fst ((\<lambda>rec. (g_grant_id (fst rec), selected_binding rec)) ` set recs)"
  proof (rule inj_onI, elim imageE)
    fix x y a b assume "fst x = fst y" and x: "x = (g_grant_id (fst a), selected_binding a)" "a \<in> set recs"
      and y: "y = (g_grant_id (fst b), selected_binding b)" "b \<in> set recs"
    then have "g_grant_id (fst a) = g_grant_id (fst b)" by simp
    with assms [OF x(2)] assms [OF y(2)] have "a = b" by (metis sum.inject(2))
    with x y show "x = y" by simp
  qed
  have "map_of (rev (map (\<lambda>rec. (g_grant_id (fst rec), selected_binding rec)) recs)) (g_grant_id (fst rec))
      = Some (selected_binding rec)" if "rec \<in> set recs" for rec
    using inj that by (intro map_of_rev_last) auto
  then show ?thesis by (auto simp: image_image)
qed

lemma composition_decision_sound:
  assumes wf: "wf_store st" and recs: "\<And>rec. rec \<in> set recs \<Longrightarrow> \<exists>gid. load_grant E st gid = Inr rec"
    and res: "composition_decision E st r receipt op at sid recs = Inr v" and "vd_decision v = Allowed"
  shows "authorized E st r op at sid v"
proof -
  let ?by = "map_of (rev (map (\<lambda>rec. (g_grant_id (fst rec), rec)) recs))"
  from res obtain c where c: "load_bound_composition (env_files E) receipt
      (env_digest E (JObj (request_json (r\<lparr>rq_composition_receipt := None\<rparr>)))) = Inr c"
    by (auto simp: composition_decision_def bindE_eq_Inr)
  let ?composed = "map (\<lambda>gid. the (?by gid)) (cp_grant_ids c)"
  note run = res [unfolded composition_decision_def c bindE_simps Let_def]
  from run assms(4) have found: "\<And>gid. gid \<in> set (cp_grant_ids c) \<Longrightarrow> ?by gid \<noteq> None"
    by (auto simp: no_grants_def list_ex_iff split: if_splits)
  from run assms(4) obtain lineages where
    ls: "mapE (\<lambda>rec. lineage_records E st (fst rec)) ?composed = Inr lineages"
    and cov: "composition_covers E r ?composed at (op_source_rank_floor op) sid"
    and lcov: "list_all (\<lambda>l. lineage_covers E l r at sid) lineages"
    and v: "v = \<lparr>vd_decision = Allowed, vd_reasons = [], vd_selected = map selected_binding ?composed,
        vd_lineage = map (\<lambda>gid. the (map_of (rev (map (\<lambda>rec. (g_grant_id (fst rec), selected_binding rec))
          (concat lineages))) gid))
          (sort_uniq (map fst (map (\<lambda>rec. (g_grant_id (fst rec), selected_binding rec)) (concat lineages))))\<rparr>"
    by (auto simp: no_grants_def bindE_eq_Inr split: if_splits)
  have loaded: "\<exists>gid. load_grant E st gid = Inr rec" if "rec \<in> set ?composed" for rec
  proof -
    from that found obtain gid where "?by gid = Some rec" by force
    then have "rec \<in> set recs" by (auto dest!: map_of_SomeD)
    then show ?thesis by (rule recs)
  qed
  have comp: "composed_grant_covers E r at (op_source_rank_floor op) sid rec" if "rec \<in> set ?composed" for rec
    using cov that unfolding composition_covers_def list_all_iff by blast
  have lin: "\<exists>l. l \<in> set lineages \<and> lineage_records E st (fst rec) = Inr l" if "rec \<in> set ?composed" for rec
    using mapE_mem [OF ls that] by blast
  have anc: "in_force E st r at sid rec" if mem: "rec \<in> set (concat lineages)" for rec
  proof -
    from mem obtain l where l: "l \<in> set lineages" "rec \<in> set l" by auto
    from mapE_set [OF ls l(1)] obtain x :: grant_record where "lineage_records E st (fst x) = Inr l" by blast
    with l lcov show ?thesis by (intro lineage_in_force [OF wf]) (auto simp: list_all_iff)
  qed
  show ?thesis
  proof (rule authorizedI [where sel = ?composed and anc = "concat lineages"])
    show "?composed \<noteq> []" using load_bound_composition_ids [OF c] by auto
    show "set (vd_lineage v) = selected_binding ` set (concat lineages)"
      using bindings_of_loaded [of "concat lineages" E st] anc
      by (simp add: v in_force_def Let_def image_image)
    show "set (rq_required_capabilities r) \<subseteq> (\<Union>rec \<in> set ?composed. set (g_capabilities (fst rec)))"
      using cov by (simp add: composition_covers_def)
    show "vd_selected v = map selected_binding ?composed" by (simp add: v)
    show "in_force E st r at sid rec \<and> scope_permits r (op_source_rank_floor op) (fst rec)"
      if "rec \<in> set ?composed" for rec
      by (rule composed_in_force [OF wf loaded [OF that] comp [OF that]])
    show "in_force E st r at sid rec" if "rec \<in> set (concat lineages)" for rec
      using that by (rule anc)
    show "\<exists>l. lineage_records E st (fst rec) = Inr l \<and> set l \<subseteq> set (concat lineages)"
      if mem: "rec \<in> set ?composed" for rec
    proof -
      from lin [OF mem] obtain l where "l \<in> set lineages" "lineage_records E st (fst rec) = Inr l" by blast
      then show ?thesis by auto
    qed
  qed
qed

text \<open>Nothing is allowed except by grants that are in force and permit the request\<close>

lemma grant_decision_sound:
  assumes wf: "wf_store st" and res: "grant_decision E st r op at sid = Inr v" and "vd_decision v = Allowed"
  shows "authorized E st r op at sid v"
proof -
  from res obtain recs cs where recs: "list_grants E st (Some at) = Inr recs"
    and cs: "mapE (candidate E st r at (op_source_rank_floor op) sid) recs = Inr cs"
    by (auto simp: grant_decision_def bindE_eq_Inr)
  note loaded = list_grants_loaded [OF recs]
  note run = res [unfolded grant_decision_def recs cs bindE_simps]
  show ?thesis
  proof (cases "concat cs")
    case (Cons c rest)
    obtain x l where xl: "first_candidate c rest = (x, l)" by (cases "first_candidate c rest")
    with first_candidate_least [of c rest] Cons have mem: "(x, l) \<in> set (concat cs)" by simp
    note x = candidates_sound [OF cs mem]
    from run Cons xl have v: "v = \<lparr>vd_decision = Allowed, vd_reasons = [],
        vd_selected = [selected_binding x], vd_lineage = map selected_binding l\<rparr>"
      by (simp add: Let_def)
    have comp: "composed_grant_covers E r at (op_source_rank_floor op) sid x"
      using covers_composed [OF x(2)] by (cases x) simp
    show ?thesis
    proof (rule authorizedI [where sel = "[x]" and anc = l])
      show "set (rq_required_capabilities r) \<subseteq> (\<Union>rec \<in> set [x]. set (g_capabilities (fst rec)))"
        using x(2) by (simp add: covers_iff)
    qed (use v x(3) lineage_in_force [OF wf x(3,4)] composed_in_force [OF wf loaded [OF x(1)] comp]
      in auto)
  next
    case Nil
    with run assms(3) obtain receipt where
      "composition_decision E st r receipt op at sid recs = Inr v"
      by (auto simp: no_grants_def split: option.splits)
    with composition_decision_sound [OF wf loaded] assms(3) show ?thesis by blast
  qed
qed

subsection \<open>Least authority, completeness and diagnostics\<close>

text \<open>The chosen grant is minimal among the grants that would do\<close>

lemma grant_decision_least:
  assumes "list_grants E st (Some at) = Inr recs"
    and "mapE (candidate E st r at (op_source_rank_floor op) sid) recs = Inr cs"
    and "(x, l) \<in> set (concat cs)"
  obtains best lin where "grant_decision E st r op at sid =
      Inr \<lparr>vd_decision = Allowed, vd_reasons = [], vd_selected = [selected_binding best],
           vd_lineage = map selected_binding lin\<rparr>"
    and "(best, lin) \<in> set (concat cs)" and "\<not> candidate_before (fst x) (fst best)"
proof -
  from assms(3) obtain c rest where cs: "concat cs = c # rest" by (cases "concat cs") auto
  obtain best lin where b: "first_candidate c rest = (best, lin)" by (cases "first_candidate c rest")
  from first_candidate_least [of c rest] assms(3) cs b
  have "(best, lin) \<in> set (concat cs)" "\<not> candidate_before (fst x) (fst best)" by fastforce+
  moreover have "grant_decision E st r op at sid =
      Inr \<lparr>vd_decision = Allowed, vd_reasons = [], vd_selected = [selected_binding best],
           vd_lineage = map selected_binding lin\<rparr>"
    by (simp add: grant_decision_def assms(1,2) cs b Let_def)
  ultimately show thesis by (rule that [rotated 1]) 
qed

lemma mapE_total: "(\<And>x. x \<in> set xs \<Longrightarrow> \<exists>y. f x = Inr y) \<Longrightarrow> \<exists>ys. mapE f xs = Inr ys"
proof (induction xs)
  case (Cons x xs)
  then obtain y ys where "f x = Inr y" "mapE f xs = Inr ys" by fastforce
  then show ?case by simp
qed simp

lemma candidate_total:
  assumes "wf_store st" and "loads E st" and "load_grant E st (g_grant_id (fst rec)) = Inr rec"
  shows "\<exists>xs. candidate E st r at fl sid rec = Inr xs"
proof -
  obtain g sha s where rec: "rec = (g, sha, s)" by (cases rec)
  with assms(3) have g: "grant_of st (g_grant_id g) = Some (g, sha)" by (auto dest: load_grant_grant_of)
  have "\<exists>recs. lineage_from E st [g_grant_id g] (g_parent_grant_id g) = Inr recs"
    using g by (intro lineage_from_returns [OF assms(1,2) g]) auto
  with rec show ?thesis by (auto simp: candidate_def lineage_records_def)
qed

lemma list_one_total:
  assumes "loads E st" and "gid \<in> fst ` set (st_grants st)" and "wf_store st"
  shows "\<exists>xs. list_one E st at gid = Inr xs"
proof -
  from assms(2,3) obtain g sha where g: "grant_of st gid = Some (g, sha)"
    by (auto simp: wf_store_def list_all_iff entry_ok_def split: option.splits)
  from loadsD [OF assms(1) this] obtain s where "load_grant E st gid = Inr (g, sha, s)" by blast
  with g show ?thesis
    by (cases at) (auto simp: list_one_def grant_of_def split: option.splits sum.splits)
qed

lemma list_grants_total:
  assumes "wf_store st" and "loads E st"
  shows "\<exists>recs. list_grants E st at = Inr recs"
proof -
  have "\<exists>xss. mapE (list_one E st at) (grant_ids st) = Inr xss"
    using assms by (intro mapE_total list_one_total) (auto simp: grant_ids_def)
  then show ?thesis by (auto simp: list_grants_def)
qed

text \<open>A covering grant in force is never overlooked\<close>

lemma grant_decision_complete:
  assumes "wf_store st" and "loads E st" and "list_grants E st (Some at) = Inr recs" and "x \<in> set recs"
    and "covers E r (fst x) (snd (snd x)) at (op_source_rank_floor op) sid"
    and "lineage_records E st (fst x) = Inr l" and "lineage_covers E l r at sid"
  shows "\<exists>v. grant_decision E st r op at sid = Inr v \<and> vd_decision v = Allowed"
proof -
  have "\<exists>cs. mapE (candidate E st r at (op_source_rank_floor op) sid) recs = Inr cs"
    using loaded_in_force [OF assms(1) list_grants_loaded [OF assms(3)]]
    by (intro mapE_total candidate_total [OF assms(1,2)])
  then obtain cs where cs: "mapE (candidate E st r at (op_source_rank_floor op) sid) recs = Inr cs" by blast
  from grant_decision_least [OF assms(3) cs candidates_complete [OF cs assms(4-7)]]
  show ?thesis by (metis verdict.select_convs(1))
qed

text \<open>A validated lease carries the scope it leases\<close>

lemma validate_grant_lease:
  assumes "validate_grant d = Inr g"
  shows "g_cardinality g = Task_lease \<Longrightarrow> g_task_id g \<noteq> None"
    and "g_cardinality g = Improvement_lease \<Longrightarrow> g_improvement_id g \<noteq> None"
proof -
  from assms obtain ss xs where acc: "grant_accepted d ss xs g" by (rule grant_acceptedE)
  then have life: "grant_lifetime d = Inr (g_cardinality g, g_max_uses g, g_not_before g, g_expires_at g)"
    and ids: "nullable_identifier (jat d ''task_id'') = Inr (g_task_id g)"
      "nullable_identifier (jat d ''improvement_id'') = Inr (g_improvement_id g)"
    by (simp_all add: grant_accepted_def)
  from life [unfolded grant_lifetime_def result_simps prod.inject]
  have t: "g_cardinality g = Task_lease \<Longrightarrow> truthy (jat d ''task_id'')"
    "g_cardinality g = Improvement_lease \<Longrightarrow> truthy (jat d ''improvement_id'')" by auto
  show "g_cardinality g = Task_lease \<Longrightarrow> g_task_id g \<noteq> None"
    using nullable_identifier_truthy [OF ids(1)] t(1) by (auto simp: opt_str_def split: option.splits)
  show "g_cardinality g = Improvement_lease \<Longrightarrow> g_improvement_id g \<noteq> None"
    using nullable_identifier_truthy [OF ids(2)] t(2) by (auto simp: opt_str_def split: option.splits)
qed

lemma filter_snd_Nil: "filter snd xs = [] \<longleftrightarrow> list_all (\<lambda>p. \<not> snd p) xs"
  by (simp add: filter_empty_conv list_all_iff)

lemma near_miss_exact:
  assumes "validate_grant d = Inr g"
  shows "covers E r g s at fl sid \<longleftrightarrow>
    schema4_eligible E g at \<and> filter snd (near_miss_checks E r at fl sid (g, sha, s)) = []"
  using validate_grant_lease [OF assms]
  unfolding covers_iff filter_snd_Nil near_miss_checks_def Let_def
  by (simp add: not_less) (auto simp: scope_mismatch_def)

end
