(* ===== verification/Decision.thy ===== *)
theory Decision
  imports Evaluator
begin

text \<open>
  The decision artifact: \<^verbatim>\<open>evaluate\<close> of \<^verbatim>\<open>evaluator.py\<close>, the fingerprint of
  \<^verbatim>\<open>decision_integrity.py\<close>, the approval projection of \<^verbatim>\<open>approval_projection.py\<close> and the
  identity of the published decision (\<^verbatim>\<open>decision_publication.py\<close>).
\<close>

subsection \<open>The authority fingerprint\<close>

definition grant_binding_json :: "grant_binding \<Rightarrow> json" where
  "grant_binding_json b = JObj
     [(''grant_id'', JStr (gb_grant_id b)), (''grant_sha256'', JStr (gb_grant_sha256 b)),
      (''state_version'', JInt (gb_state_version b)),
      (''policy_snapshot'', binding_json (gb_policy_snapshot b))]"

definition request_operation_json :: "request \<Rightarrow> json" where
  "request_operation_json r = JObj
     [(''skill_id'', JStr (rq_skill_id r)), (''skill_version'', JStr (rq_skill_version r)),
      (''operation_id'', JStr (rq_operation_id r)),
      (''operation_version'', JStr (rq_operation_version r))]"

definition session_projection :: "request \<Rightarrow> session_ceiling \<Rightarrow> json" where
  "session_projection r s = JObj
     [(''capabilities_permit'', JBool (set (rq_required_capabilities r) \<subseteq> set (sc_capabilities s))),
      (''risk_permits'', JBool (risk_value (rq_risk_tier r) \<le> risk_value (sc_risk_ceiling s))),
      (''mutation_permits'',
         JBool (enum_name MUTATION_CLASSES (rq_mutation_class r) \<in> set (sc_mutation_classes s)))]"

definition goal_projection :: "request \<Rightarrow> envelope \<Rightarrow> json" where
  "goal_projection r e = JObj
     [(''capabilities_permit'', JBool (set (rq_required_capabilities r) \<subseteq> set (en_capabilities e))),
      (''risk_permits'', JBool (risk_value (rq_risk_tier r) \<le> risk_value (en_risk_ceiling e))),
      (''decision_permits'',
         JBool (enum_name DECISION_CLASSES (rq_decision_class r) \<in> set (en_decision_classes e))),
      (''subject_permits'', JBool (sub_digest (rq_subject r) \<in> set (en_subjects e))),
      (''operation_permits'', JBool (envelope_operation_key r \<in> set (en_operations e)))]"

definition typed_decision_projection :: "request \<Rightarrow> json" where
  "typed_decision_projection r =
     (let c = rq_context r;
          high_risk = (risk_value R2 \<le> risk_value (rq_risk_tier r));
          design_decision = (rq_decision_class r \<in> {D0, D1}) in
      JObj
       [(''external_input_status'', JStr (enum_name EXTERNAL_INPUT (rc_external_input_status c))),
        (''external_input_evidence'', opt_binding_json (rc_external_input_evidence c)),
        (''risk_acceptance_status'',
           JStr (if high_risk then enum_name SEPARATE_DECISION_STATUS (rc_risk_acceptance_status c)
                 else ''not_applicable'')),
        (''risk_acceptance_evidence'',
           if high_risk then opt_binding_json (rc_risk_acceptance_evidence c) else JNull),
        (''design_selection_status'',
           JStr (if design_decision
                 then enum_name SEPARATE_DECISION_STATUS (rc_design_selection_status c)
                 else ''not_applicable'')),
        (''design_selection_evidence'',
           if design_decision then opt_binding_json (rc_design_selection_evidence c) else JNull)])"

definition fingerprint_payload ::
  "request \<Rightarrow> eval_context \<Rightarrow> binding option \<Rightarrow> grant_binding list \<Rightarrow> grant_binding list \<Rightarrow> json" where
  "fingerprint_payload r ctx manifest selected lineage = JObj
     [(''operation'', request_operation_json r),
      (''subject'', subject_json (rq_subject r)),
      (''capabilities'', JList (map JStr (rq_required_capabilities r))),
      (''manifest'', opt_binding_json manifest),
      (''session_projection'', session_projection r (ec_session_ceiling ctx)),
      (''goal_projection'', goal_projection r (ec_goal_autonomy_envelope ctx)),
      (''typed_decision_projection'', typed_decision_projection r),
      (''selected_grants'', JList (map grant_binding_json selected)),
      (''lineage_grants'', JList (map grant_binding_json lineage))]"

definition effective_authority_fingerprint ::
  "(json \<Rightarrow> string) \<Rightarrow> request \<Rightarrow> eval_context \<Rightarrow> binding option \<Rightarrow> grant_binding list
   \<Rightarrow> grant_binding list \<Rightarrow> string" where
  "effective_authority_fingerprint H r ctx manifest selected lineage =
     H (fingerprint_payload r ctx manifest selected lineage)"

subsection \<open>The approval projection\<close>

definition projected_intent :: "request \<Rightarrow> string list \<Rightarrow> intent_type" where
  "projected_intent r reasons =
     (if ''risk_acceptance_unresolved'' \<in> set reasons then Accept_risk_or_cost
      else if ''goal_or_design_decision_unresolved'' \<in> set reasons then Select_design_option
      else rq_intent_type r)"

definition safe_alternative :: "request \<Rightarrow> string list \<Rightarrow> string" where
  "safe_alternative r reasons =
     (if ''risk_acceptance_unresolved'' \<in> set reasons then ''resolve_risk_acceptance_or_reduce_risk''
      else if ''goal_or_design_decision_unresolved'' \<in> set reasons
      then ''select_bounded_design_or_use_ratified_default''
      else if rq_intent_type r = Ratify_goal_truth
      then ''request_goal_owner_ratification_or_preserve_current_gt''
      else ''request_narrowest_covering_grant_or_proceed_read_only'')"

definition excluded_effects :: "intent_type \<Rightarrow> string list" where
  "excluded_effects i =
     (let own = (case i of
          Accept_risk_or_cost \<Rightarrow> ''accept_risk_or_cost''
        | Ratify_goal_truth \<Rightarrow> ''change_goal_truth''
        | Select_design_option \<Rightarrow> ''select_design_option''
        | Supply_external_input \<Rightarrow> ''supply_external_input''
        | Grant_authority \<Rightarrow> [])
      in filter (\<lambda>e. e \<noteq> own)
        [''accept_risk_or_cost'', ''add_capabilities'', ''broaden_subject_or_operation'',
         ''change_goal_truth'', ''increase_risk_or_irreversibility'', ''reuse_beyond_scope_or_budget'',
         ''select_design_option'', ''supply_external_input''])"

definition approval_scope :: "request \<Rightarrow> eval_context \<Rightarrow> obj" where
  "approval_scope r ctx =
     [(''cardinality'', JStr (enum_name CARDINALITIES (rq_cardinality_requested r))),
      (''use_budget'', JInt (rq_use_budget_requested r)),
      (''session_id'', JStr (sc_evidence_id (ec_session_ceiling ctx))),
      (''cycle_id'', opt_str (rq_cycle_id r)),
      (''task_id'', opt_str (rq_task_id r)),
      (''improvement_id'', opt_str (rq_pack_id r)),
      (''attempt_id'', opt_str (rq_attempt_id r))]
     @ (case rq_reservation_units r of None \<Rightarrow> [] | Some u \<Rightarrow> [(''reservation_units'', JInt u)])"

definition approval_core :: "request \<Rightarrow> eval_context \<Rightarrow> string list \<Rightarrow> obj" where
  "approval_core r ctx reasons =
     [(''schema_version'', JInt 2),
      (''artifact_kind'', JStr ''authority_approval_projection''),
      (''typed_intent'', JStr (enum_name INTENT_TYPES (projected_intent r reasons))),
      (''request_id'', JStr (rq_request_id r)),
      (''operation'', request_operation_json r),
      (''subject'', subject_json (rq_subject r)),
      (''capabilities'', JList (map JStr (rq_required_capabilities r))),
      (''effect'', JObj
         [(''effect_class'', JStr (rq_effect_class r)), (''data_class'', JStr (rq_data_class r)),
          (''mutation_class'', JStr (enum_name MUTATION_CLASSES (rq_mutation_class r))),
          (''reversibility'', JStr (enum_name REVERSIBILITY (rq_reversibility r))),
          (''risk_tier'', JStr (enum_name RISK_TIERS (rq_risk_tier r))),
          (''decision_class'', JStr (enum_name DECISION_CLASSES (rq_decision_class r)))]),
      (''scope'', JObj (approval_scope r ctx)),
      (''excluded_effects'', JList (map JStr (excluded_effects (projected_intent r reasons)))),
      (''safe_alternative'', JStr (safe_alternative r reasons)),
      (''reason_codes'', JList (map JStr (sort reasons))),
      (''exact_replay_key'', JStr (rq_idempotency_key r))]"

definition build_approval_projection ::
  "(json \<Rightarrow> string) \<Rightarrow> request \<Rightarrow> eval_context \<Rightarrow> string list \<Rightarrow> obj" where
  "build_approval_projection H r ctx reasons =
     (let core = approval_core r ctx reasons in
      (''projection_id'', JStr (''authp-'' @ take 24 (H (JObj core)))) # core)"

subsection \<open>Evaluation\<close>

record decision_artifact =
  da_request :: request
  da_request_sha256 :: string
  da_evaluation_context :: eval_context
  da_evaluation_context_sha256 :: string
  da_decision :: decision
  da_reason_codes :: "string list"
  da_approval_projection :: "obj option"
  da_selected_grants :: "grant_binding list"
  da_lineage_grants :: "grant_binding list"
  da_operation_manifest :: "binding option"
  da_fingerprint :: string
  da_evaluated_at :: datetime

text \<open>The verdict of the branches of \<^verbatim>\<open>evaluate\<close> before the artifact is built\<close>

definition verdict_of ::
  "env \<Rightarrow> store \<Rightarrow> request \<Rightarrow> eval_context \<Rightarrow> datetime \<Rightarrow> operation option \<Rightarrow> verdict res" where
  "verdict_of E st r ctx at operation =
     (case operation of
        None \<Rightarrow>
          Inr (if rq_mutation_class r = Observe
               then no_grants Classification_repair [''operation_manifest_missing'']
               else no_grants Denied [''unknown_mutating_operation_fail_closed''])
      | Some op \<Rightarrow>
          (let reasons = manifest_reasons r op in
           if reasons \<noteq> [] then Inr (no_grants Decision_conflict reasons)
           else if op_authorization_mechanism op = Mech_none
           then Inr (no_grants Not_applicable [''operation_manifest_marks_authority_not_applicable''])
           else if op_authorization_mechanism op = Mech_typed_source_approval
           then Inr (no_grants Not_applicable [''operation_requires_typed_source_approval_verifier''])
           else if op_authorization_mechanism op = Mech_bound_lifecycle_artifact
           then Inr (no_grants Not_applicable [''operation_requires_bound_lifecycle_artifact_verifier''])
           else (case context_decision r ctx of
                   Some (d, rs) \<Rightarrow> Inr (no_grants d rs)
                 | None \<Rightarrow> grant_decision E st r op at (sc_evidence_id (ec_session_ceiling ctx)))))"

definition decision_of ::
  "(json \<Rightarrow> string) \<Rightarrow> request \<Rightarrow> eval_context \<Rightarrow> binding option \<Rightarrow> datetime \<Rightarrow> verdict
   \<Rightarrow> decision_artifact" where
  "decision_of H r ctx manifest at v =
     \<lparr>da_request = r, da_request_sha256 = H (JObj (request_json r)),
      da_evaluation_context = ctx,
      da_evaluation_context_sha256 = H (JObj (eval_context_json ctx)),
      da_decision = vd_decision v, da_reason_codes = sort (vd_reasons v),
      da_approval_projection =
        (if vd_decision v = Approval_required
         then Some (build_approval_projection H r ctx (vd_reasons v)) else None),
      da_selected_grants = vd_selected v, da_lineage_grants = vd_lineage v,
      da_operation_manifest = manifest,
      da_fingerprint = effective_authority_fingerprint H r ctx manifest (vd_selected v) (vd_lineage v),
      da_evaluated_at = at\<rparr>"

definition evaluate :: "env \<Rightarrow> store \<Rightarrow> obj \<Rightarrow> obj \<Rightarrow> json \<Rightarrow> decision_artifact res" where
  "evaluate E st raw_request raw_context evaluated_at =
     bindE (validate_request raw_request) (\<lambda>r.
     bindE (verify_request_evidence (env_files E) r) (\<lambda>_.
     bindE (validate_evaluation_context (env_files E) raw_context) (\<lambda>ctx.
     bindE (parse_time evaluated_at) (\<lambda>at.
     bindE (load_operation (env_skills E) (rq_skill_id r) (rq_skill_version r) (rq_operation_id r)
              (rq_operation_version r)) (\<lambda>found.
     bindE (verdict_of E st r ctx at (fst found)) (\<lambda>v.
     Inr (decision_of (env_digest E) r ctx (snd found) at v)))))))"

subsection \<open>Publication\<close>

definition decision_core :: "decision_artifact \<Rightarrow> obj" where
  "decision_core a =
     [(''schema_version'', JInt 2),
      (''artifact_kind'', JStr ''authority_decision''),
      (''request'', JObj (request_json (da_request a))),
      (''request_sha256'', JStr (da_request_sha256 a)),
      (''evaluation_context'', JObj (eval_context_json (da_evaluation_context a))),
      (''evaluation_context_sha256'', JStr (da_evaluation_context_sha256 a)),
      (''decision'', JStr (enum_name DECISIONS (da_decision a))),
      (''reason_codes'', JList (map JStr (da_reason_codes a))),
      (''approval_projection'', (case da_approval_projection a of None \<Rightarrow> JNull | Some p \<Rightarrow> JObj p)),
      (''selected_grants'', JList (map grant_binding_json (da_selected_grants a))),
      (''lineage_grants'', JList (map grant_binding_json (da_lineage_grants a))),
      (''operation_manifest'', opt_binding_json (da_operation_manifest a)),
      (''effective_authority_fingerprint'', JStr (da_fingerprint a)),
      (''evaluated_at'', JStr (isoformat (da_evaluated_at a)))]"

definition decision_id :: "(json \<Rightarrow> string) \<Rightarrow> decision_artifact \<Rightarrow> string" where
  "decision_id H a = ''authd-'' @ take 24 (H (JObj (decision_core a)))"

text \<open>Every field except the identity and the time: what \<^verbatim>\<open>reserve\<close> compares\<close>

definition stable_decision_projection :: "decision_artifact \<Rightarrow> obj" where
  "stable_decision_projection a = filter (\<lambda>p. fst p \<noteq> ''evaluated_at'') (decision_core a)"

subsection \<open>Soundness of evaluation\<close>

lemma context_never_allows: "context_decision r ctx = Some (d, rs) \<Longrightarrow> d \<noteq> Allowed"
  by (auto dest: context_decision_class)

lemma verdict_allowed:
  assumes "wf_store st" and "verdict_of E st r ctx at operation = Inr v" and "vd_decision v = Allowed"
  obtains op where "operation = Some op" and "manifest_reasons r op = []"
    and "op_authorization_mechanism op = Mech_grant" and "context_permits r ctx"
    and "authorized E st r op at (sc_evidence_id (ec_session_ceiling ctx)) v"
proof -
  from assms(2,3) obtain op where op: "operation = Some op"
    by (auto simp: verdict_of_def no_grants_def split: option.splits if_splits)
  note run = assms(2) [unfolded verdict_of_def op option.case Let_def]
  from run assms(3) have m: "manifest_reasons r op = []" "op_authorization_mechanism op = Mech_grant"
    by (cases "op_authorization_mechanism op"; auto simp: no_grants_def split: if_splits)+
  from run m assms(3) have none: "context_decision r ctx = None"
    by (auto simp: no_grants_def dest: context_never_allows split: option.splits)
  with run m have "grant_decision E st r op at (sc_evidence_id (ec_session_ceiling ctx)) = Inr v" by simp
  from grant_decision_sound [OF assms(1) this assms(3)] none m op that show thesis
    by (simp add: context_decision_None)
qed

lemma evaluate_steps:
  assumes "evaluate E st raw ctx_raw t = Inr a"
  obtains r ctx at op mb v where "validate_request raw = Inr r" "verify_request_evidence (env_files E) r = Inr ()"
    "validate_evaluation_context (env_files E) ctx_raw = Inr ctx" "parse_time t = Inr at"
    "load_operation (env_skills E) (rq_skill_id r) (rq_skill_version r) (rq_operation_id r)
       (rq_operation_version r) = Inr (op, mb)"
    "verdict_of E st r ctx at op = Inr v" "a = decision_of (env_digest E) r ctx mb at v"
  using assms that unfolding evaluate_def result_simps by (elim exE conjE) (metis prod.collapse old.unit.exhaust)

lemma decision_of_fields [simp]:
  "da_request (decision_of H r ctx mb at v) = r"
  "da_evaluation_context (decision_of H r ctx mb at v) = ctx"
  "da_decision (decision_of H r ctx mb at v) = vd_decision v"
  "da_reason_codes (decision_of H r ctx mb at v) = sort (vd_reasons v)"
  "da_selected_grants (decision_of H r ctx mb at v) = vd_selected v"
  "da_lineage_grants (decision_of H r ctx mb at v) = vd_lineage v"
  "da_operation_manifest (decision_of H r ctx mb at v) = mb"
  "da_evaluated_at (decision_of H r ctx mb at v) = at"
  by (simp_all add: decision_of_def)

text \<open>Evaluating the recorded request and context again gives the recorded decision\<close>

lemma evaluate_again:
  assumes "evaluate E st raw ctx_raw t = Inr a"
  shows "evaluate E st (request_json (da_request a)) (eval_context_json (da_evaluation_context a)) t = Inr a"
proof -
  from assms obtain r ctx at op mb v where run: "validate_request raw = Inr r"
    "verify_request_evidence (env_files E) r = Inr ()"
    "validate_evaluation_context (env_files E) ctx_raw = Inr ctx" "parse_time t = Inr at"
    "load_operation (env_skills E) (rq_skill_id r) (rq_skill_version r) (rq_operation_id r)
       (rq_operation_version r) = Inr (op, mb)"
    "verdict_of E st r ctx at op = Inr v" "a = decision_of (env_digest E) r ctx mb at v"
    by (rule evaluate_steps)
  have "validate_evaluation_context (env_files E) (eval_context_json ctx) = Inr ctx"
    using run(3) by (auto simp: validate_evaluation_context_def bindE_eq_Inr context_form.again)
  with run request_form.again [OF run(1)] show ?thesis by (simp add: evaluate_def)
qed

subsection \<open>The shape of a decision\<close>

text \<open>
  The clauses that \<^verbatim>\<open>validate_decision_artifact\<close> checks of the reason codes and the bindings:
  an allowed decision has no reasons and binds grants; any other has reasons and binds none.
\<close>

definition verdict_shape :: "verdict \<Rightarrow> bool" where
  "verdict_shape v \<longleftrightarrow> distinct (vd_reasons v) \<and>
     (if vd_decision v = Allowed then vd_reasons v = [] \<and> vd_selected v \<noteq> []
      else vd_reasons v \<noteq> [] \<and> vd_selected v = [] \<and> vd_lineage v = [])"

lemma near_miss_codes:
  "set (map fst (near_miss_checks E r at fl sid rec)) \<inter> {''no_single_covering_active_grant''} = {}"
  by (simp add: near_miss_checks_def Let_def)

lemma near_miss_reasons_fresh:
  "distinct (near_miss_reasons E r recs at fl sid)"
  "''no_single_covering_active_grant'' \<notin> set (near_miss_reasons E r recs at fl sid)"
  using near_miss_codes [of E r at fl sid] by (auto simp: near_miss_reasons_def)

lemma manifest_reasons_distinct: "distinct (manifest_reasons r op)"
  by (simp add: manifest_reasons_def)

lemma composition_decision_shape:
  assumes "composition_decision E st r receipt op at sid recs = Inr v"
  shows "verdict_shape v"
proof -
  from assms obtain c where c: "load_bound_composition (env_files E) receipt
      (env_digest E (JObj (request_json (r\<lparr>rq_composition_receipt := None\<rparr>)))) = Inr c"
    by (auto simp: composition_decision_def bindE_eq_Inr)
  then have "cp_grant_ids c \<noteq> []" by (auto dest: load_bound_composition_ids)
  with assms c show ?thesis
    by (auto simp: composition_decision_def bindE_eq_Inr verdict_shape_def no_grants_def Let_def
        split: if_splits)
qed

lemma grant_decision_shape:
  assumes "grant_decision E st r op at sid = Inr v"
  shows "verdict_shape v"
proof -
  from assms obtain recs cs where recs: "list_grants E st (Some at) = Inr recs"
    and cs: "mapE (candidate E st r at (op_source_rank_floor op) sid) recs = Inr cs"
    by (auto simp: grant_decision_def bindE_eq_Inr)
  note run = assms [unfolded grant_decision_def recs cs bindE_simps]
  show ?thesis
  proof (cases "concat cs")
    case Nil
    with run near_miss_reasons_fresh [of E r recs at "op_source_rank_floor op" sid] show ?thesis
      by (auto simp: verdict_shape_def no_grants_def dest: composition_decision_shape [unfolded verdict_shape_def]
          split: option.splits)
  next
    case (Cons c rest)
    with run show ?thesis by (auto simp: verdict_shape_def Let_def)
  qed
qed

lemma verdict_of_shape:
  assumes "verdict_of E st r ctx at operation = Inr v"
  shows "verdict_shape v"
proof -
  have plain: "verdict_shape (no_grants d rs)" if "distinct rs" "rs \<noteq> []" "d \<noteq> Allowed" for d rs
    using that by (simp add: verdict_shape_def no_grants_def)
  have ctx: "verdict_shape (no_grants d rs)" if "context_decision r ctx = Some (d, rs)" for d rs
    using context_decision_class [OF that] by (intro plain) (cases rs; auto)+
  show ?thesis
  proof (cases operation)
    case None
    with assms show ?thesis by (auto simp: verdict_of_def intro!: plain split: if_splits)
  next
    case (Some op)
    with assms show ?thesis
      by (auto simp: verdict_of_def Let_def manifest_reasons_distinct intro: plain ctx
          dest: grant_decision_shape split: if_splits option.splits)
  qed
qed


subsection \<open>What a fingerprint binds\<close>

lemma canon_leaf [simp]:
  "canon (opt_str x) = opt_str x" "canon (JList (map JStr xs)) = JList (map JStr xs)"
  by (simp_all add: opt_str_def o_def split: option.split)

lemma map_JStr_inj [simp]: "map JStr xs = map JStr ys \<longleftrightarrow> xs = ys"
  by (rule inj_map_eq_map) (simp add: inj_def)

lemma binding_canon_inj: "canon (binding_json b) = canon (binding_json c) \<Longrightarrow> b = c"
  by (cases b; cases c) (simp add: binding_json_def)

lemma grant_binding_canon_inj: "canon (grant_binding_json b) = canon (grant_binding_json c) \<Longrightarrow> b = c"
proof -
  assume a: "canon (grant_binding_json b) = canon (grant_binding_json c)"
  have "distinct (map fst [(''grant_id'', x), (''grant_sha256'', y), (''state_version'', z), (''policy_snapshot'', w)])"
    for x y z w :: json by simp
  note f = canon_fields [OF a [unfolded grant_binding_json_def] this this]
  from f [of "''grant_id''"] f [of "''grant_sha256''"] f [of "''state_version''"] f [of "''policy_snapshot''"]
  show "b = c" by (auto dest: binding_canon_inj intro: grant_binding.equality)
qed

lemma canon_list_inj:
  assumes "canon (JList (map f xs)) = canon (JList (map f ys))" and "\<And>x y. canon (f x) = canon (f y) \<Longrightarrow> x = y"
  shows "xs = ys"
proof -
  from assms(1) have "map (\<lambda>x. canon (f x)) xs = map (\<lambda>x. canon (f x)) ys" by (simp add: o_def)
  with assms(2) show ?thesis by (metis inj_map_eq_map injI)
qed

lemma fingerprint_binds_grants:
  assumes "inj sha"
    and "effective_authority_fingerprint (object_sha256 sha) r ctx mb sel lin
       = effective_authority_fingerprint (object_sha256 sha) r' ctx' mb' sel' lin'"
  shows "sel = sel' \<and> lin = lin' \<and> rq_subject r = rq_subject r'
    \<and> rq_required_capabilities r = rq_required_capabilities r'"
proof -
  from assms have c: "canon (fingerprint_payload r ctx mb sel lin) = canon (fingerprint_payload r' ctx' mb' sel' lin')"
    by (simp add: effective_authority_fingerprint_def object_sha256_def inj_eq canonical_bytes_eq)
  have d: "distinct (map fst [(''operation'', x1), (''subject'', x2), (''capabilities'', x3), (''manifest'', x4),
      (''session_projection'', x5), (''goal_projection'', x6), (''typed_decision_projection'', x7),
      (''selected_grants'', x8), (''lineage_grants'', x9)])" for x1 x2 x3 x4 x5 x6 x7 x8 x9 :: json by simp
  note f = canon_fields [OF c [unfolded fingerprint_payload_def] d d]
  have "sel = sel'" using f [of "''selected_grants''"] by (intro canon_list_inj [OF _ grant_binding_canon_inj]) simp_all
  moreover have "lin = lin'" using f [of "''lineage_grants''"] by (intro canon_list_inj [OF _ grant_binding_canon_inj]) simp_all
  moreover have "rq_subject r = rq_subject r'" using f [of "''subject''"] by (simp add: subject_canon_inj)
  moreover have "rq_required_capabilities r = rq_required_capabilities r'" using f [of "''capabilities''"] by (simp add: o_def)
  ultimately show ?thesis by simp
qed

end
