(* ===== verification/Recovery.thy ===== *)
theory Recovery
  imports Prelude "HOL-Library.Multiset"
begin

text \<open>
  The write-ahead recovery of \<^verbatim>\<open>projection_recovery.py\<close>. Every authority operation publishes an
  immutable intent with the exact before and after states of the projections it changes, and then
  applies the changes one file at a time. \<^verbatim>\<open>recover_projection_intents\<close> finishes interrupted
  intents before the next operation. Projections are compared by their canonical bytes in the code;
  here the states are values of an arbitrary type, and a missing file is \<open>None\<close>.
\<close>

record ('r, 'v) change =
  ch_ref :: 'r
  ch_before :: "'v option"
  ch_after :: 'v

type_synonym ('r, 'v) projections = "'r \<Rightarrow> 'v option"

text \<open>An intent: the path of its artifact and its validated changes\<close>

type_synonym ('r, 'v) intent = "string \<times> ('r, 'v) change list"

subsection \<open>Applying changes\<close>

fun apply_each :: "('r, 'v) change list \<Rightarrow> ('r, 'v) projections \<Rightarrow> unit res \<times> ('r, 'v) projections" where
  "apply_each [] p = (Inr (), p)"
| "apply_each (c # cs) p =
     (if p (ch_ref c) = Some (ch_after c) then apply_each cs p
      else if p (ch_ref c) \<noteq> ch_before c then (fail Conflict, p)
      else apply_each cs (p(ch_ref c \<mapsto> ch_after c)))"

definition apply_projection_changes ::
  "('r, 'v) change list \<Rightarrow> ('r, 'v) projections \<Rightarrow> unit res \<times> ('r, 'v) projections" where
  "apply_projection_changes cs p = (if cs = [] then (fail BadList, p) else apply_each cs p)"

subsection \<open>The state graph\<close>

text \<open>
  The edges of one projection, from the state before to the state after. Two intents that leave or
  enter the same state compete; the code tells duplicate, competing and converging intents apart
  only in the message.
\<close>

type_synonym 'v edges = "('v option \<times> 'v) list"
type_synonym ('r, 'v) graph = "('r \<times> 'v option \<times> 'v) list"

definition edges_at :: "('r, 'v) graph \<Rightarrow> 'r \<Rightarrow> 'v edges" where
  "edges_at g r = map snd (filter (\<lambda>e. fst e = r) g)"

fun state_graph_from :: "('r, 'v) graph \<Rightarrow> ('r, 'v) change list \<Rightarrow> ('r, 'v) graph res" where
  "state_graph_from g [] = Inr g"
| "state_graph_from g (c # cs) =
     (if list_ex (\<lambda>e. fst e = ch_before c) (edges_at g (ch_ref c)) then fail Conflict
      else if list_ex (\<lambda>e. snd e = ch_after c) (edges_at g (ch_ref c)) then fail Conflict
      else state_graph_from ((ch_ref c, ch_before c, ch_after c) # g) cs)"

definition state_graph :: "('r, 'v) intent list \<Rightarrow> ('r, 'v) graph res" where
  "state_graph intents = state_graph_from [] (concat (map snd intents))"

text \<open>\<^verbatim>\<open>_reachable\<close>: follow the edges until the target, a dead end or a state seen before\<close>

function reachable_from :: "'v edges \<Rightarrow> 'v option list \<Rightarrow> 'v option \<Rightarrow> 'v option \<Rightarrow> bool" where
  "reachable_from es seen cur target =
     (if cur \<in> set seen then False
      else case map_of es cur of
        None \<Rightarrow> False
      | Some nxt \<Rightarrow> if Some nxt = target then True else reachable_from es (cur # seen) (Some nxt) target)"
  by pat_completeness auto

termination
proof (relation "measure (\<lambda>(es, seen, cur, target). card (fst ` set es - set seen))")
  fix es :: "'v edges" and seen cur target nxt
  assume "cur \<notin> set seen" and "map_of es cur = Some nxt"
  then have "cur \<in> fst ` set es - set seen" by (force dest: map_of_SomeD)
  moreover have "fst ` set es - set (cur # seen) = fst ` set es - set seen - {cur}" by auto
  ultimately show "((es, cur # seen, Some nxt, target), es, seen, cur, target)
      \<in> measure (\<lambda>(es, seen, cur, target). card (fst ` set es - set seen))"
    by (simp add: card_Diff1_less del: card_Diff_insert)
qed simp

definition reachable :: "'v edges \<Rightarrow> 'v option \<Rightarrow> 'v option \<Rightarrow> bool" where
  "reachable es start target = reachable_from es [] start target"

text \<open>\<^verbatim>\<open>_changes_settled\<close>: every projection is at the state after the change or at a descendant\<close>

definition change_settled :: "('r, 'v) graph \<Rightarrow> ('r, 'v) projections \<Rightarrow> ('r, 'v) change \<Rightarrow> bool" where
  "change_settled g p c =
     (p (ch_ref c) = Some (ch_after c) \<or>
      reachable (edges_at g (ch_ref c)) (Some (ch_after c)) (p (ch_ref c)))"

definition changes_settled :: "('r, 'v) graph \<Rightarrow> ('r, 'v) projections \<Rightarrow> ('r, 'v) change list \<Rightarrow> bool" where
  "changes_settled g p cs = list_all (change_settled g p) cs"

subsection \<open>Recovery\<close>

text \<open>The inner loop over the changes of one intent: \<open>None\<close> when the intent is blocked\<close>

fun applicable :: "('r, 'v) graph \<Rightarrow> ('r, 'v) projections \<Rightarrow> ('r, 'v) change list \<Rightarrow> ('r, 'v) change list option" where
  "applicable g p [] = Some []"
| "applicable g p (c # cs) =
     (if p (ch_ref c) = ch_before c then map_option (\<lambda>xs. c # xs) (applicable g p cs)
      else if change_settled g p c then applicable g p cs
      else None)"

text \<open>One pass over the pending intents: the deferred ones, the recovered paths, and whether any
  intent was finished\<close>

fun recover_round ::
  "('r, 'v) graph \<Rightarrow> ('r, 'v) intent list \<Rightarrow> ('r, 'v) projections
   \<Rightarrow> (('r, 'v) intent list \<times> string list \<times> bool) res \<times> ('r, 'v) projections" where
  "recover_round g [] p = (Inr ([], [], False), p)"
| "recover_round g ((path, cs) # is) p =
     (case applicable g p cs of
        None \<Rightarrow>
          (case recover_round g is p of
             (Inl e, p') \<Rightarrow> (Inl e, p')
           | (Inr (deferred, recovered, progressed), p') \<Rightarrow>
               (Inr ((path, cs) # deferred, recovered, progressed), p'))
      | Some [] \<Rightarrow>
          (case recover_round g is p of
             (Inl e, p') \<Rightarrow> (Inl e, p')
           | (Inr (deferred, recovered, progressed), p') \<Rightarrow> (Inr (deferred, recovered, True), p'))
      | Some (x # xs) \<Rightarrow>
          (case apply_projection_changes (x # xs) p of
             (Inl e, p') \<Rightarrow> (Inl e, p')
           | (Inr _, p') \<Rightarrow>
               (case recover_round g is p' of
                  (Inl e, p'') \<Rightarrow> (Inl e, p'')
                | (Inr (deferred, recovered, progressed), p'') \<Rightarrow>
                    (Inr (deferred, path # recovered, True), p''))))"

lemma recover_round_length:
  "recover_round g is p = (Inr (deferred, recovered, progressed), p') \<Longrightarrow>
   length deferred \<le> length is \<and> (progressed \<longrightarrow> length deferred < length is)"
proof (induction g "is" p arbitrary: deferred recovered progressed p' rule: recover_round.induct)
  case (1 g p)
  then show ?case by simp
next
  case (2 g path cs "is" p)
  show ?case
    using 2 by (fastforce split: option.splits list.splits prod.splits sum.splits)
qed

function recover_loop ::
  "('r, 'v) graph \<Rightarrow> ('r, 'v) intent list \<Rightarrow> string list \<Rightarrow> ('r, 'v) projections \<Rightarrow> string list res \<times> ('r, 'v) projections" where
  "recover_loop g pending recovered p =
     (if pending = [] then (Inr recovered, p)
      else case recover_round g pending p of
        (Inl e, p') \<Rightarrow> (Inl e, p')
      | (Inr (deferred, found, progressed), p') \<Rightarrow>
          if deferred = [] then (Inr (recovered @ found), p')
          else if \<not> progressed then (fail Conflict, p')
          else recover_loop g deferred (recovered @ found) p')"
  by pat_completeness auto

termination
  by (relation "measure (\<lambda>(g, pending, recovered, p). length pending)")
     (auto dest: recover_round_length [OF sym])

declare recover_loop.simps [simp del]

text \<open>The intents are the validated ones, in the order of \<^verbatim>\<open>_load_intents\<close>\<close>

definition recover_projection_intents ::
  "('r, 'v) intent list \<Rightarrow> ('r, 'v) projections \<Rightarrow> string list res \<times> ('r, 'v) projections" where
  "recover_projection_intents intents p =
     (case state_graph intents of
        Inl e \<Rightarrow> (Inl e, p)
      | Inr g \<Rightarrow> recover_loop g intents [] p)"

text \<open>\<^verbatim>\<open>_validated_settled_intents\<close>\<close>

definition validated_settled_intents :: "('r, 'v) intent list \<Rightarrow> ('r, 'v) projections \<Rightarrow> string list res" where
  "validated_settled_intents intents p =
     bindE (state_graph intents) (\<lambda>g.
     if list_all (\<lambda>i. changes_settled g p (snd i)) intents then Inr (map fst intents)
     else fail NotSettled)"

declare reachable_from.simps [simp del]

subsection \<open>Reachability\<close>

definition edge_rel :: "('r, 'v) graph \<Rightarrow> 'r \<Rightarrow> ('v option \<times> 'v option) set" where
  "edge_rel g r = {(x, Some y) | x y. map_of (edges_at g r) x = Some y}"

lemma reachable_from_sound:
  "reachable_from es seen cur target \<Longrightarrow> (cur, target) \<in> {(x, Some y) | x y. map_of es x = Some y}\<^sup>+"
proof (induction es seen cur target rule: reachable_from.induct)
  case (1 es seen cur target)
  from "1.prems" obtain nxt where nxt: "cur \<notin> set seen" "map_of es cur = Some nxt"
    and rest: "Some nxt = target \<or> reachable_from es (cur # seen) (Some nxt) target"
    by (subst (asm) reachable_from.simps) (auto split: if_splits option.splits)
  have edge: "(cur, Some nxt) \<in> {(x, Some y) | x y. map_of es x = Some y}" using nxt(2) by simp
  show ?case
  proof (cases "Some nxt = target")
    case True
    with edge show ?thesis by (simp add: r_into_trancl')
  next
    case False
    with "1.IH" [OF nxt False] rest have "(Some nxt, target) \<in> {(x, Some y) | x y. map_of es x = Some y}\<^sup>+"
      by blast
    with edge show ?thesis by (rule trancl_into_trancl2)
  qed
qed

text \<open>The walk meets every state of the path: the states seen are farther from the target\<close>

lemma reachable_from_complete:
  fixes es :: "'v edges" and target :: "'v option"
  defines "R \<equiv> {(x, Some y) | x y. map_of es x = Some y}"
  assumes "(cur, target) \<in> R ^^ Suc n" and "\<forall>m < n. (cur, target) \<notin> R ^^ Suc m"
    and "\<forall>s \<in> set seen. \<forall>m \<le> n. (s, target) \<notin> R ^^ Suc m"
  shows "reachable_from es seen cur target"
  using assms(2-4)
proof (induction n arbitrary: cur seen)
  case 0
  then have "cur \<notin> set seen" and "(cur, target) \<in> R" by auto
  then show ?case by (subst reachable_from.simps) (auto simp: R_def)
next
  case (Suc n)
  from Suc.prems(1,3) have fresh: "cur \<notin> set seen" by blast
  from Suc.prems(1) obtain nxt where e: "(cur, nxt) \<in> R" and rest: "(nxt, target) \<in> R ^^ Suc n"
    by (metis relpow_Suc_D2)
  from e obtain y where y: "nxt = Some y" "map_of es cur = Some y" by (auto simp: R_def)
  have far: "\<forall>m < n. (nxt, target) \<notin> R ^^ Suc m"
    using Suc.prems(2) e by (meson Suc_less_eq relpow_Suc_I2)
  have "\<forall>s \<in> set (cur # seen). \<forall>m \<le> n. (s, target) \<notin> R ^^ Suc m"
    using Suc.prems(2,3) by (auto simp: le_imp_less_Suc)
  from Suc.IH [OF rest far this] fresh y show ?case
    by (subst reachable_from.simps) simp
qed

lemma reachable_iff: "reachable (edges_at g r) x y \<longleftrightarrow> (x, y) \<in> (edge_rel g r)\<^sup>+"
proof
  show "reachable (edges_at g r) x y \<Longrightarrow> (x, y) \<in> (edge_rel g r)\<^sup>+"
    unfolding reachable_def edge_rel_def by (rule reachable_from_sound)
next
  let ?P = "\<lambda>n. (x, y) \<in> edge_rel g r ^^ Suc n"
  assume "(x, y) \<in> (edge_rel g r)\<^sup>+"
  then have "\<exists>n. ?P n" by (metis Suc_pred' trancl_power)
  then have "?P (LEAST n. ?P n)" by (rule LeastI_ex)
  moreover have "\<forall>m < (LEAST n. ?P n). \<not> ?P m" using not_less_Least by blast
  ultimately show "reachable (edges_at g r) x y"
    unfolding reachable_def
    by (intro reachable_from_complete [where n = "LEAST n. ?P n"]) (simp_all add: edge_rel_def)
qed

lemma change_settled_iff:
  "change_settled g p c \<longleftrightarrow> (Some (ch_after c), p (ch_ref c)) \<in> (edge_rel g (ch_ref c))\<^sup>*"
  by (auto simp: change_settled_def reachable_iff rtrancl_eq_or_trancl)

subsection \<open>Graphs of intents\<close>

definition graph_has :: "('r, 'v) graph \<Rightarrow> ('r, 'v) change list \<Rightarrow> bool" where
  "graph_has g cs \<longleftrightarrow> (\<forall>c \<in> set cs. (ch_before c, Some (ch_after c)) \<in> edge_rel g (ch_ref c))"

definition keys_distinct :: "('r, 'v) change list \<Rightarrow> bool" where
  "keys_distinct cs \<longleftrightarrow> distinct (map (\<lambda>c. (ch_ref c, ch_before c)) cs)"

lemma edges_at_Cons [simp]:
  "edges_at ((r, e) # g) r' = (if r = r' then e # edges_at g r' else edges_at g r')"
  by (simp add: edges_at_def)

lemma state_graph_from_keeps:
  "state_graph_from g cs = Inr g' \<Longrightarrow> map_of (edges_at g r) x = Some y \<Longrightarrow>
   map_of (edges_at g' r) x = Some y"
proof (induction cs arbitrary: g)
  case (Cons c cs)
  let ?g = "(ch_ref c, ch_before c, ch_after c) # g"
  from Cons.prems(1) have fresh: "\<forall>e \<in> set (edges_at g (ch_ref c)). fst e \<noteq> ch_before c"
    and rest: "state_graph_from ?g cs = Inr g'" by (auto simp: list_ex_iff split: if_splits)
  from Cons.prems(2) have "(x, y) \<in> set (edges_at g r)" by (rule map_of_SomeD)
  with fresh have "r = ch_ref c \<Longrightarrow> x \<noteq> ch_before c" by auto
  with Cons.prems(2) have "map_of (edges_at ?g r) x = Some y" by auto
  with rest show ?case by (rule Cons.IH)
qed simp

lemma state_graph_from_has:
  assumes "state_graph_from g cs = Inr g'"
  shows "graph_has g' cs \<and> keys_distinct cs \<and>
    (\<forall>c \<in> set cs. ch_before c \<notin> fst ` set (edges_at g (ch_ref c)))"
  using assms
proof (induction cs arbitrary: g)
  case Nil
  then show ?case by (simp add: graph_has_def keys_distinct_def)
next
  case (Cons c cs)
  let ?g = "(ch_ref c, ch_before c, ch_after c) # g"
  from Cons.prems have fresh: "ch_before c \<notin> fst ` set (edges_at g (ch_ref c))"
    and rest: "state_graph_from ?g cs = Inr g'"
    by (auto simp: list_ex_iff split: if_splits)
  from state_graph_from_keeps [OF rest, of "ch_ref c" "ch_before c" "ch_after c"]
  have "(ch_before c, Some (ch_after c)) \<in> edge_rel g' (ch_ref c)" by (simp add: edge_rel_def)
  moreover from Cons.IH [OF rest] have "graph_has g' cs" "keys_distinct cs"
    and away: "\<forall>d \<in> set cs. ch_before d \<notin> fst ` set (edges_at ?g (ch_ref d))" by simp_all
  moreover from away have "(ch_ref c, ch_before c) \<notin> (\<lambda>d. (ch_ref d, ch_before d)) ` set cs" by force
  moreover from away have "\<forall>d \<in> set cs. ch_before d \<notin> fst ` set (edges_at g (ch_ref d))"
    by (auto split: if_splits)
  ultimately show ?case using fresh by (simp add: graph_has_def keys_distinct_def)
qed

lemma state_graph_has:
  assumes "state_graph intents = Inr g" and "i \<in> set intents"
  shows "graph_has g (snd i) \<and> keys_distinct (snd i)"
proof -
  have f: "graph_has g (concat (map snd intents))" "keys_distinct (concat (map snd intents))"
    using state_graph_from_has [OF assms(1) [unfolded state_graph_def]] by simp_all
  from assms(2) obtain xs ys where "intents = xs @ i # ys" by (meson split_list)
  with f show ?thesis by (auto simp: graph_has_def keys_distinct_def)
qed

subsection \<open>One intent\<close>

lemma applicable_facts:
  assumes "applicable g p cs = Some xs"
  shows "set xs = {c \<in> set cs. p (ch_ref c) = ch_before c}"
    and "c \<in> set cs \<Longrightarrow> p (ch_ref c) = ch_before c \<or> change_settled g p c"
    and "keys_distinct cs \<Longrightarrow> distinct (map ch_ref xs)"
proof -
  show s: "set xs = {c \<in> set cs. p (ch_ref c) = ch_before c}"
    using assms by (induction cs arbitrary: xs) (auto split: if_splits)
  show "c \<in> set cs \<Longrightarrow> p (ch_ref c) = ch_before c \<or> change_settled g p c"
    using assms by (induction cs arbitrary: xs) (auto split: if_splits)
  show "keys_distinct cs \<Longrightarrow> distinct (map ch_ref xs)"
    using assms
  proof (induction cs arbitrary: xs)
    case (Cons c cs)
    then obtain ys where ys: "applicable g p cs = Some ys" and xs: "xs = ys \<or> (xs = c # ys \<and> p (ch_ref c) = ch_before c)"
      by (auto split: if_splits)
    have sub: "set ys = {d \<in> set cs. p (ch_ref d) = ch_before d}"
      using ys by (induction cs arbitrary: ys) (auto split: if_splits)
    from Cons ys have "distinct (map ch_ref ys)" by (simp add: keys_distinct_def)
    moreover have "ch_ref c \<notin> ch_ref ` set ys" if "p (ch_ref c) = ch_before c"
      using that Cons.prems(1) sub by (force simp: keys_distinct_def)
    ultimately show ?case using xs by auto
  qed simp
qed

text \<open>Applying ready changes to distinct projections succeeds and sets each of them\<close>

lemma apply_each_ready:
  assumes "distinct (map ch_ref xs)" and "\<And>c. c \<in> set xs \<Longrightarrow> p (ch_ref c) = ch_before c"
  shows "fst (apply_each xs p) = Inr ()"
    and "c \<in> set xs \<Longrightarrow> snd (apply_each xs p) (ch_ref c) = Some (ch_after c)"
    and "r \<notin> ch_ref ` set xs \<Longrightarrow> snd (apply_each xs p) r = p r"
proof -
  have "fst (apply_each xs p) = Inr () \<and>
    (\<forall>c \<in> set xs. snd (apply_each xs p) (ch_ref c) = Some (ch_after c)) \<and>
    (\<forall>r. r \<notin> ch_ref ` set xs \<longrightarrow> snd (apply_each xs p) r = p r)"
    using assms
  proof (induction xs arbitrary: p)
    case (Cons x xs)
    have before: "p (ch_ref x) = ch_before x" using Cons.prems(2) by simp
    define q where "q = (if p (ch_ref x) = Some (ch_after x) then p else p(ch_ref x \<mapsto> ch_after x))"
    have step: "apply_each (x # xs) p = apply_each xs q" using before by (simp add: q_def)
    have q: "q (ch_ref x) = Some (ch_after x)" "\<And>r. r \<noteq> ch_ref x \<Longrightarrow> q r = p r" by (simp_all add: q_def)
    have notin: "ch_ref x \<notin> ch_ref ` set xs" using Cons.prems(1) by simp
    have other: "ch_ref c \<noteq> ch_ref x" if "c \<in> set xs" for c
      using imageI [OF that, of ch_ref] notin by metis
    have "distinct (map ch_ref xs)" "\<And>c. c \<in> set xs \<Longrightarrow> q (ch_ref c) = ch_before c"
      using Cons.prems q(2) other by simp_all
    from Cons.IH [OF this] have IH: "fst (apply_each xs q) = Inr ()"
      "\<And>c. c \<in> set xs \<Longrightarrow> snd (apply_each xs q) (ch_ref c) = Some (ch_after c)"
      "\<And>r. r \<notin> ch_ref ` set xs \<Longrightarrow> snd (apply_each xs q) r = q r" by blast+
    with notin q show ?case unfolding step by auto
  qed simp
  then show "fst (apply_each xs p) = Inr ()"
    and "c \<in> set xs \<Longrightarrow> snd (apply_each xs p) (ch_ref c) = Some (ch_after c)"
    and "r \<notin> ch_ref ` set xs \<Longrightarrow> snd (apply_each xs p) r = p r" by blast+
qed

text \<open>The effect of one unblocked intent\<close>

definition fire :: "('r, 'v) graph \<Rightarrow> ('r, 'v) projections \<Rightarrow> ('r, 'v) change list \<Rightarrow> ('r, 'v) projections" where
  "fire g p cs = snd (apply_each (filter (\<lambda>c. p (ch_ref c) = ch_before c) cs) p)"

lemma applicable_filter:
  "applicable g p cs = Some xs \<Longrightarrow> xs = filter (\<lambda>c. p (ch_ref c) = ch_before c) cs"
  by (induction cs arbitrary: xs) (auto split: if_splits)

lemma fire_facts:
  assumes "applicable g p cs = Some xs" and "keys_distinct cs" and "graph_has g cs"
  shows "apply_each xs p = (Inr (), fire g p cs)"
    and "(p r, fire g p cs r) \<in> (edge_rel g r)\<^sup>*"
    and "changes_settled g (fire g p cs) cs"
proof -
  have xs: "xs = filter (\<lambda>c. p (ch_ref c) = ch_before c) cs" using assms(1) by (rule applicable_filter)
  note dist = applicable_facts(3) [OF assms(1,2)]
  have pre: "\<And>c. c \<in> set xs \<Longrightarrow> p (ch_ref c) = ch_before c" using xs by simp
  note ap = apply_each_ready [OF dist, of p, OF pre]
  show run: "apply_each xs p = (Inr (), fire g p cs)"
    using ap(1) by (simp add: fire_def xs prod_eq_iff)
  have set_eq: "fire g p cs (ch_ref c) = Some (ch_after c)" if "c \<in> set xs" for c
    using ap(2) that run by simp
  have keep: "fire g p cs r = p r" if "r \<notin> ch_ref ` set xs" for r using ap(3) that run by simp
  have adv: "(p r, fire g p cs r) \<in> (edge_rel g r)\<^sup>*" for r
  proof (cases "r \<in> ch_ref ` set xs")
    case True
    then obtain c where c: "c \<in> set xs" "r = ch_ref c" by auto
    with xs assms(3) have "(p r, Some (ch_after c)) \<in> edge_rel g r" by (auto simp: graph_has_def)
    with set_eq [OF c(1)] c show ?thesis by auto
  qed (simp add: keep)
  then show "(p r, fire g p cs r) \<in> (edge_rel g r)\<^sup>*" .
  show "changes_settled g (fire g p cs) cs"
    unfolding changes_settled_def list_all_iff
  proof
    fix c assume c: "c \<in> set cs"
    show "change_settled g (fire g p cs) c"
    proof (cases "c \<in> set xs")
      case True
      with set_eq show ?thesis by (simp add: change_settled_def)
    next
      case False
      with c xs applicable_facts(2) [OF assms(1) c] have "change_settled g p c" by auto
      with adv [of "ch_ref c"] show ?thesis by (auto simp: change_settled_iff)
    qed
  qed
qed


subsection \<open>Rounds\<close>

definition recoverable :: "('r, 'v) graph \<Rightarrow> ('r, 'v) intent list \<Rightarrow> bool" where
  "recoverable g is \<longleftrightarrow> (\<forall>i \<in> set is. graph_has g (snd i) \<and> keys_distinct (snd i))"

lemma settled_forward:
  assumes "changes_settled g p cs" and "\<And>r. (p r, p' r) \<in> (edge_rel g r)\<^sup>*"
  shows "changes_settled g p' cs"
  using assms by (auto simp: changes_settled_def list_all_iff change_settled_iff intro: rtrancl_trans)

text \<open>
  A round never fails half way, moves every projection only along the graph, leaves every intent
  settled or deferred, and reports progress exactly when it finished an intent.
\<close>

lemma recover_round_facts:
  assumes "recoverable g is"
  obtains deferred found progressed p' where
    "recover_round g is p = (Inr (deferred, found, progressed), p')"
    and "\<And>r. (p r, p' r) \<in> (edge_rel g r)\<^sup>*"
    and "set deferred \<subseteq> set is"
    and "\<And>i. i \<in> set is \<Longrightarrow> i \<notin> set deferred \<Longrightarrow> changes_settled g p' (snd i)"
    and "progressed \<longleftrightarrow> length deferred < length is"
proof -
  have "\<exists>deferred found progressed p'. recover_round g is p = (Inr (deferred, found, progressed), p') \<and>
      (\<forall>r. (p r, p' r) \<in> (edge_rel g r)\<^sup>*) \<and> set deferred \<subseteq> set is \<and>
      (\<forall>i \<in> set is. i \<in> set deferred \<or> changes_settled g p' (snd i)) \<and>
      (progressed \<longleftrightarrow> length deferred < length is)"
    using assms
  proof (induction "is" arbitrary: p)
    case Nil
    then show ?case by auto
  next
    case (Cons i "is")
    obtain path cs where i: "i = (path, cs)" by (cases i)
    from Cons.prems i have here: "graph_has g cs" "keys_distinct cs" and rest: "recoverable g is"
      by (simp_all add: recoverable_def)
    show ?case
    proof (cases "applicable g p cs")
      case None
      from Cons.IH [OF rest, of p] obtain d f pr p' where run: "recover_round g is p = (Inr (d, f, pr), p')"
        and facts: "\<forall>r. (p r, p' r) \<in> (edge_rel g r)\<^sup>*" "set d \<subseteq> set is"
          "\<forall>i \<in> set is. i \<in> set d \<or> changes_settled g p' (snd i)" "pr \<longleftrightarrow> length d < length is" by blast
      show ?thesis
        by (rule exI [of _ "i # d"], rule exI [of _ f], rule exI [of _ pr], rule exI [of _ p'])
           (use None i run facts in auto)
    next
      case (Some xs)
      note ff = fire_facts [OF Some here(2,1)]
      let ?q = "fire g p cs"
      from Cons.IH [OF rest, of ?q] obtain d f pr p' where run: "recover_round g is ?q = (Inr (d, f, pr), p')"
        and facts: "\<forall>r. (?q r, p' r) \<in> (edge_rel g r)\<^sup>*" "set d \<subseteq> set is"
          "\<forall>i \<in> set is. i \<in> set d \<or> changes_settled g p' (snd i)" "pr \<longleftrightarrow> length d < length is" by blast
      have "length d \<le> length is" using recover_round_length [OF run] by simp
      moreover have "changes_settled g p' cs" using facts(1) by (intro settled_forward [OF ff(3)]) blast
      moreover have adv: "(p r, p' r) \<in> (edge_rel g r)\<^sup>*" for r
        using ff(2) [of r] facts(1) by (blast intro: rtrancl_trans)
      moreover have "recover_round g (i # is) p = (Inr (d, (if xs = [] then f else path # f), True), p')"
      proof (cases xs)
        case Nil
        with ff(1) have "?q = p" by simp
        with Some Nil run i show ?thesis by simp
      next
        case (Cons y ys)
        with ff(1) Some run i show ?thesis by (simp add: apply_projection_changes_def)
      qed
      ultimately show ?thesis
        by (intro exI [of _ d] exI [of _ "if xs = [] then f else path # f"] exI [of _ True] exI [of _ p'])
           (use i facts in auto)
    qed
  qed
  then show thesis using that by blast
qed

subsection \<open>Whole recovery\<close>

lemma recover_loop_facts:
  assumes "recoverable g is"
  shows "(\<forall>r. (p r, snd (recover_loop g is rec p) r) \<in> (edge_rel g r)\<^sup>*) \<and>
    (\<forall>out. fst (recover_loop g is rec p) = Inr out \<longrightarrow>
       (\<forall>i \<in> set is. changes_settled g (snd (recover_loop g is rec p)) (snd i)))"
  using assms
proof (induction g "is" rec p rule: recover_loop.induct)
  case (1 g pending rec p)
  show ?case
  proof (cases "pending = []")
    case True
    then show ?thesis by (simp add: recover_loop.simps [of g "[]"])
  next
    case False
    from recover_round_facts [OF "1.prems", of p] obtain d f pr p' where
      run: "recover_round g pending p = (Inr (d, f, pr), p')"
      and adv: "\<And>r. (p r, p' r) \<in> (edge_rel g r)\<^sup>*" and sub: "set d \<subseteq> set pending"
      and settled: "\<And>i. i \<in> set pending \<Longrightarrow> i \<notin> set d \<Longrightarrow> changes_settled g p' (snd i)"
      and pr: "pr \<longleftrightarrow> length d < length pending" by blast
    consider "d = []" | "d \<noteq> []" "\<not> pr" | "d \<noteq> []" "pr" by blast
    then show ?thesis
    proof cases
      case 1
      with False run adv settled show ?thesis by (simp add: recover_loop.simps [of g pending])
    next
      case 2
      with False run adv show ?thesis by (simp add: recover_loop.simps [of g pending])
    next
      case 3
      have rec: "recoverable g d" using "1.prems" sub by (auto simp: recoverable_def)
      from "1.IH" [OF False run [symmetric] refl refl refl] 3 rec
      have IH: "\<And>r. (p' r, snd (recover_loop g d (rec @ f) p') r) \<in> (edge_rel g r)\<^sup>*"
        "\<And>out i. fst (recover_loop g d (rec @ f) p') = Inr out \<Longrightarrow> i \<in> set d \<Longrightarrow>
          changes_settled g (snd (recover_loop g d (rec @ f) p')) (snd i)" by blast+
      have eq: "recover_loop g pending rec p = recover_loop g d (rec @ f) p'"
        using False run 3 by (simp add: recover_loop.simps [of g pending])
      show ?thesis unfolding eq
        using IH adv settled by (meson rtrancl_trans settled_forward)
    qed
  qed
qed


lemma state_graph_recoverable: "state_graph is = Inr g \<Longrightarrow> recoverable g is"
  by (simp add: recoverable_def state_graph_has)

text \<open>A successful recovery leaves every intent settled\<close>

lemma recover_settles:
  assumes "recover_projection_intents is p = (Inr out, p')"
  shows "validated_settled_intents is p' = Inr (map fst is)"
proof -
  from assms obtain g where g: "state_graph is = Inr g" and run: "recover_loop g is [] p = (Inr out, p')"
    by (auto simp: recover_projection_intents_def split: sum.splits)
  from recover_loop_facts [OF state_graph_recoverable [OF g], of p "[]"] run
  have "list_all (\<lambda>i. changes_settled g p' (snd i)) is" by (simp add: list_all_iff)
  with g show ?thesis by (simp add: validated_settled_intents_def)
qed

lemma graph_edges:
  assumes "state_graph_from g0 cs = Inr g" and "(x, y) \<in> edge_rel g r"
  shows "(x, y) \<in> edge_rel g0 r \<or> (\<exists>c \<in> set cs. ch_ref c = r \<and> x = ch_before c \<and> y = Some (ch_after c))"
  using assms
proof (induction cs arbitrary: g0)
  case (Cons c cs)
  then have "state_graph_from ((ch_ref c, ch_before c, ch_after c) # g0) cs = Inr g" by (auto split: if_splits)
  from Cons.IH [OF this Cons.prems(2)] show ?case by (auto simp: edge_rel_def split: if_splits)
qed simp

text \<open>Recovery writes nothing but states that an intent announced, whatever its outcome\<close>

lemma recover_writes:
  assumes "recover_projection_intents is p = (res, p')"
  shows "p' r = p r \<or> (\<exists>i \<in> set is. \<exists>c \<in> set (snd i). ch_ref c = r \<and> p' r = Some (ch_after c))"
proof (cases "state_graph is")
  case (Inl e)
  with assms show ?thesis by (simp add: recover_projection_intents_def)
next
  case (Inr g)
  with assms have "(p r, p' r) \<in> (edge_rel g r)\<^sup>*"
    using recover_loop_facts [OF state_graph_recoverable [OF Inr], of p "[]"]
    by (auto simp: recover_projection_intents_def)
  then show ?thesis
  proof (cases rule: rtranclE)
    case (step y)
    from graph_edges [OF Inr [unfolded state_graph_def] step(2)] show ?thesis
      by (auto simp: edge_rel_def edges_at_def)
  qed simp
qed

subsection \<open>Crash recovery\<close>

text \<open>
  A lawful history: every intent was ready when it was published, names each projection once, and
  raises the version of every projection it changes. Its replay is the state the store would have
  without crashes.
\<close>

definition ready :: "('r, 'v) projections \<Rightarrow> ('r, 'v) intent \<Rightarrow> bool" where
  "ready p i \<longleftrightarrow> distinct (map ch_ref (snd i)) \<and> (\<forall>c \<in> set (snd i). p (ch_ref c) = ch_before c)"

definition post :: "('r, 'v) projections \<Rightarrow> ('r, 'v) intent \<Rightarrow> ('r, 'v) projections" where
  "post p i = (\<lambda>r. case map_of (map (\<lambda>c. (ch_ref c, ch_after c)) (snd i)) r of
     None \<Rightarrow> p r | Some v \<Rightarrow> Some v)"

fun lawful :: "('v option \<Rightarrow> nat) \<Rightarrow> ('r, 'v) projections \<Rightarrow> ('r, 'v) intent list \<Rightarrow> bool" where
  "lawful rank p [] = True"
| "lawful rank p (i # h) =
     (ready p i \<and> (\<forall>c \<in> set (snd i). rank (ch_before c) < rank (Some (ch_after c))) \<and>
      lawful rank (post p i) h)"

fun replay :: "('r, 'v) projections \<Rightarrow> ('r, 'v) intent list \<Rightarrow> ('r, 'v) projections" where
  "replay p [] = p"
| "replay p (i # h) = replay (post p i) h"

text \<open>The state a crash can leave: each projection has reached some point of the history\<close>

definition crash_state :: "('r, 'v) projections \<Rightarrow> ('r, 'v) intent list \<Rightarrow> ('r, 'v) projections \<Rightarrow> bool" where
  "crash_state p h q \<longleftrightarrow> (\<forall>r. \<exists>k \<le> length h. q r = replay p (take k h) r)"

lemma post_other: "r \<notin> ch_ref ` set (snd i) \<Longrightarrow> post p i r = p r"
proof -
  have "fst ` set (map (\<lambda>c. (ch_ref c, ch_after c)) (snd i)) = ch_ref ` set (snd i)" by force
  then have "r \<notin> ch_ref ` set (snd i) \<Longrightarrow> map_of (map (\<lambda>c. (ch_ref c, ch_after c)) (snd i)) r = None"
    by (simp only: map_of_eq_None_iff) simp
  then show "r \<notin> ch_ref ` set (snd i) \<Longrightarrow> post p i r = p r" by (simp add: post_def)
qed

lemma post_changed:
  assumes "distinct (map ch_ref (snd i))" and "c \<in> set (snd i)"
  shows "post p i (ch_ref c) = Some (ch_after c)"
proof -
  have "map_of (map (\<lambda>c. (ch_ref c, ch_after c)) (snd i)) (ch_ref c) = Some (ch_after c)"
    using assms by (intro map_of_is_SomeI) (auto simp: comp_def)
  then show ?thesis by (simp add: post_def)
qed

lemma replay_append: "replay p (h @ h') = replay (replay p h) h'"
  by (induction h arbitrary: p) auto

lemma replay_take_Suc:
  "k < length h \<Longrightarrow> replay p (take (Suc k) h) = post (replay p (take k h)) (h ! k)"
  by (simp add: take_Suc_conv_app_nth replay_append)

lemma lawful_nth:
  "lawful rank p h \<Longrightarrow> k < length h \<Longrightarrow>
   ready (replay p (take k h)) (h ! k) \<and>
   (\<forall>c \<in> set (snd (h ! k)). rank (ch_before c) < rank (Some (ch_after c)))"
proof (induction h arbitrary: p k)
  case (Cons i h)
  then show ?case by (cases k) auto
qed simp

lemma history_step:
  assumes "lawful rank p h" and "k < length h"
  shows "c \<in> set (snd (h ! k)) \<Longrightarrow> replay p (take k h) (ch_ref c) = ch_before c"
    and "c \<in> set (snd (h ! k)) \<Longrightarrow> replay p (take (Suc k) h) (ch_ref c) = Some (ch_after c)"
    and "c \<in> set (snd (h ! k)) \<Longrightarrow> rank (ch_before c) < rank (Some (ch_after c))"
    and "r \<notin> ch_ref ` set (snd (h ! k)) \<Longrightarrow> replay p (take (Suc k) h) r = replay p (take k h) r"
  using lawful_nth [OF assms]
  by (simp_all add: ready_def replay_take_Suc [OF assms(2)] post_changed post_other)

lemma history_rank_step:
  assumes "lawful rank p h" and "k < length h"
  shows "replay p (take (Suc k) h) r = replay p (take k h) r \<or>
    rank (replay p (take k h) r) < rank (replay p (take (Suc k) h) r)"
proof (cases "r \<in> ch_ref ` set (snd (h ! k))")
  case True
  then obtain c where "c \<in> set (snd (h ! k))" "r = ch_ref c" by auto
  with history_step(1-3) [OF assms] show ?thesis by metis
next
  case False
  with history_step(4) [OF assms] show ?thesis by blast
qed

lemma history_rank:
  assumes "lawful rank p h" and "j \<le> k" and "k \<le> length h"
  shows "replay p (take k h) r = replay p (take j h) r \<or>
    rank (replay p (take j h) r) < rank (replay p (take k h) r)"
  using assms(2,3)
proof (induction k rule: dec_induct)
  case (step n)
  then have IH: "replay p (take n h) r = replay p (take j h) r \<or>
    rank (replay p (take j h) r) < rank (replay p (take n h) r)" by simp
  have "replay p (take (Suc n) h) r = replay p (take n h) r \<or>
    rank (replay p (take n h) r) < rank (replay p (take (Suc n) h) r)"
    using step.prems by (intro history_rank_step [OF assms(1)]) simp
  with IH show ?case by (elim disjE) simp_all
qed simp

lemma history_rank_eq:
  assumes "lawful rank p h" and "j \<le> length h" "k \<le> length h"
    and "rank (replay p (take j h) r) \<le> rank (replay p (take k h) r)" and "k \<le> j"
  shows "replay p (take j h) r = replay p (take k h) r"
  using history_rank [OF assms(1,5,2), of r] assms(4) by auto

subsubsection \<open>The graph of a history\<close>

lemma state_graph_from_total:
  assumes "distinct (map (\<lambda>c. (ch_ref c, ch_before c)) cs)" and "distinct (map (\<lambda>c. (ch_ref c, ch_after c)) cs)"
    and "\<And>c e. c \<in> set cs \<Longrightarrow> e \<in> set (edges_at g (ch_ref c)) \<Longrightarrow> fst e \<noteq> ch_before c \<and> snd e \<noteq> ch_after c"
  shows "\<exists>g'. state_graph_from g cs = Inr g'"
  using assms
proof (induction cs arbitrary: g)
  case (Cons c cs)
  let ?g = "(ch_ref c, ch_before c, ch_after c) # g"
  have "\<exists>g'. state_graph_from ?g cs = Inr g'"
  proof (rule Cons.IH)
    fix d e assume d: "d \<in> set cs" and e: "e \<in> set (edges_at ?g (ch_ref d))"
    have "(ch_ref c, ch_before c) \<noteq> (ch_ref d, ch_before d)" "(ch_ref c, ch_after c) \<noteq> (ch_ref d, ch_after d)"
      using Cons.prems(1,2) d by (metis (no_types, lifting) distinct.simps(2) image_eqI list.set_map list.simps(9))+
    with e Cons.prems(3) [of d e] d show "fst e \<noteq> ch_before d \<and> snd e \<noteq> ch_after d"
      by (auto split: if_splits)
  qed (use Cons.prems in simp_all)
  moreover have "\<not> list_ex (\<lambda>e. fst e = ch_before c) (edges_at g (ch_ref c))"
    "\<not> list_ex (\<lambda>e. snd e = ch_after c) (edges_at g (ch_ref c))"
    using Cons.prems(3) [of c] by (auto simp: list_ex_iff)
  ultimately show ?case by simp
qed simp

lemma lawful_changes:
  assumes "lawful rank p h" and "c \<in> set (concat (map snd h))"
  shows "rank (p (ch_ref c)) \<le> rank (ch_before c) \<and> rank (ch_before c) < rank (Some (ch_after c))"
  using assms
proof (induction h arbitrary: p)
  case (Cons i h)
  show ?case
  proof (cases "c \<in> set (snd i)")
    case True
    with Cons.prems(1) show ?thesis by (simp add: ready_def)
  next
    case False
    with Cons have IH: "rank (post p i (ch_ref c)) \<le> rank (ch_before c) \<and> rank (ch_before c) < rank (Some (ch_after c))"
      by auto
    have "rank (p (ch_ref c)) \<le> rank (post p i (ch_ref c))"
    proof (cases "ch_ref c \<in> ch_ref ` set (snd i)")
      case True
      then obtain d where d: "d \<in> set (snd i)" "ch_ref c = ch_ref d" by auto
      with Cons.prems(1) show ?thesis by (simp add: ready_def post_changed less_imp_le)
    qed (simp add: post_other)
    with IH show ?thesis by simp
  qed
qed simp

lemma lawful_distinct:
  assumes "lawful rank p h"
  shows "distinct (map (\<lambda>c. (ch_ref c, ch_before c)) (concat (map snd h))) \<and>
    distinct (map (\<lambda>c. (ch_ref c, ch_after c)) (concat (map snd h)))"
  using assms
proof (induction h arbitrary: p)
  case (Cons i h)
  have refs: "distinct (map ch_ref (snd i))" using Cons.prems by (simp add: ready_def)
  have apart: "ch_before d \<noteq> ch_before c \<and> ch_after d \<noteq> ch_after c"
    if d: "d \<in> set (snd i)" and c: "c \<in> set (concat (map snd h))" and eq: "ch_ref d = ch_ref c" for c d
  proof -
    from Cons.prems have "rank (post p i (ch_ref c)) \<le> rank (ch_before c)" "rank (ch_before c) < rank (Some (ch_after c))"
      using lawful_changes [of rank "post p i" h c] c by auto
    moreover have "post p i (ch_ref c) = Some (ch_after d)" using post_changed [OF refs d] eq by simp
    moreover have "rank (ch_before d) < rank (Some (ch_after d))" using Cons.prems d by simp
    ultimately show ?thesis by auto
  qed
  have "distinct (map (\<lambda>c. (ch_ref c, ch_before c)) (snd i))" "distinct (map (\<lambda>c. (ch_ref c, ch_after c)) (snd i))"
    using refs by (auto simp: distinct_map inj_on_def)
  moreover have "(\<lambda>c. (ch_ref c, ch_before c)) ` set (snd i) \<inter>
      (\<lambda>c. (ch_ref c, ch_before c)) ` set (concat (map snd h)) = {}"
    "(\<lambda>c. (ch_ref c, ch_after c)) ` set (snd i) \<inter>
      (\<lambda>c. (ch_ref c, ch_after c)) ` set (concat (map snd h)) = {}" using apart by fastforce+
  moreover from Cons.prems have "distinct (map (\<lambda>c. (ch_ref c, ch_before c)) (concat (map snd h))) \<and>
    distinct (map (\<lambda>c. (ch_ref c, ch_after c)) (concat (map snd h)))" by (intro Cons.IH [of "post p i"]) simp
  ultimately show ?case by simp
qed simp


lemma mset_concat_perm: "mset is = mset h \<Longrightarrow> mset (concat (map snd is)) = mset (concat (map snd h))"
proof -
  assume "mset is = mset h"
  then have "mset (map (mset \<circ> snd) is) = mset (map (mset \<circ> snd) h)" by simp
  then have "sum_mset (mset (map (mset \<circ> snd) is)) = sum_mset (mset (map (mset \<circ> snd) h))" by (rule arg_cong)
  then show ?thesis by (simp only: sum_mset_sum_list mset_concat map_map)
qed

lemma history_graph:
  assumes "lawful rank p h" and "mset is = mset h"
  obtains g where "state_graph is = Inr g" and "recoverable g is"
    and "\<And>x y r. (x, y) \<in> edge_rel g r \<Longrightarrow>
      \<exists>c \<in> set (concat (map snd h)). ch_ref c = r \<and> x = ch_before c \<and> y = Some (ch_after c)"
proof -
  let ?cs = "concat (map snd is)"
  have perm: "mset ?cs = mset (concat (map snd h))" using assms(2) by (rule mset_concat_perm)
  have "distinct (map f ?cs) = distinct (map f (concat (map snd h)))" for f :: "('b, 'a) change \<Rightarrow> 'z"
    using perm by (intro mset_eq_imp_distinct_iff) (simp only: mset_map)
  with lawful_distinct [OF assms(1)] have d: "distinct (map (\<lambda>c. (ch_ref c, ch_before c)) ?cs)"
    "distinct (map (\<lambda>c. (ch_ref c, ch_after c)) ?cs)" by blast+
  have "\<exists>g. state_graph_from [] ?cs = Inr g"
    by (rule state_graph_from_total [OF d]) (simp add: edges_at_def)
  then obtain g where g: "state_graph_from [] ?cs = Inr g" by blast
  have "\<exists>c \<in> set (concat (map snd h)). ch_ref c = r \<and> x = ch_before c \<and> y = Some (ch_after c)"
    if e: "(x, y) \<in> edge_rel g r" for x y r
  proof -
    have "set ?cs = set (concat (map snd h))" using perm by (metis set_mset_mset)
    with graph_edges [OF g e] show ?thesis by (auto simp: edge_rel_def edges_at_def)
  qed
  with g that show thesis by (simp add: state_graph_def state_graph_recoverable)
qed


subsubsection \<open>Settlement by version\<close>

lemma edge_rank:
  assumes "lawful rank p h" and "\<And>x y r. (x, y) \<in> edge_rel g r \<Longrightarrow>
      \<exists>c \<in> set (concat (map snd h)). ch_ref c = r \<and> x = ch_before c \<and> y = Some (ch_after c)"
  shows "(x, y) \<in> (edge_rel g r)\<^sup>* \<Longrightarrow> rank x \<le> rank y"
proof (induction rule: rtrancl_induct)
  case (step y z)
  from assms(2) [OF step(2)] obtain c where "c \<in> set (concat (map snd h))" "y = ch_before c" "z = Some (ch_after c)"
    by blast
  with lawful_changes [OF assms(1)] step(3) show ?case by fastforce
qed simp

lemma history_path:
  assumes "lawful rank p h" and "\<And>k. k < length h \<Longrightarrow> graph_has g (snd (h ! k))" and "j \<le> k" and "k \<le> length h"
  shows "(replay p (take j h) r, replay p (take k h) r) \<in> (edge_rel g r)\<^sup>*"
  using assms(3,4)
proof (induction k rule: dec_induct)
  case (step n)
  then have n: "n < length h" by simp
  have "(replay p (take n h) r, replay p (take (Suc n) h) r) \<in> (edge_rel g r)\<^sup>*"
  proof (cases "r \<in> ch_ref ` set (snd (h ! n))")
    case True
    then obtain c where c: "c \<in> set (snd (h ! n))" "r = ch_ref c" by auto
    with assms(2) [OF n] have "(ch_before c, Some (ch_after c)) \<in> edge_rel g r" by (simp add: graph_has_def)
    with c history_step(1,2) [OF assms(1) n c(1)] show ?thesis by auto
  next
    case False
    with history_step(4) [OF assms(1) n] show ?thesis by simp
  qed
  with step show ?case by (simp add: rtrancl_trans)
qed simp

text \<open>The facts that hold of a crash state during recovery\<close>

definition on_history :: "('v option \<Rightarrow> nat) \<Rightarrow> ('r, 'v) projections \<Rightarrow> ('r, 'v) intent list \<Rightarrow> ('r, 'v) graph \<Rightarrow> bool" where
  "on_history rank p h g \<longleftrightarrow> lawful rank p h \<and> (\<forall>k < length h. graph_has g (snd (h ! k))) \<and>
     (\<forall>x y r. (x, y) \<in> edge_rel g r \<longrightarrow>
        (\<exists>c \<in> set (concat (map snd h)). ch_ref c = r \<and> x = ch_before c \<and> y = Some (ch_after c)))"

lemma settled_rank:
  assumes "on_history rank p h g" and "crash_state p h q" and "k < length h" and "c \<in> set (snd (h ! k))"
  shows "change_settled g q c \<longleftrightarrow> rank (Some (ch_after c)) \<le> rank (q (ch_ref c))"
proof
  from assms(1) have law: "lawful rank p h" by (simp add: on_history_def)
  show "change_settled g q c \<Longrightarrow> rank (Some (ch_after c)) \<le> rank (q (ch_ref c))"
    unfolding change_settled_iff using assms(1) by (intro edge_rank [OF law, of g]) (auto simp: on_history_def)
  assume le: "rank (Some (ch_after c)) \<le> rank (q (ch_ref c))"
  note after = history_step(2) [OF law assms(3,4)]
  from assms(2) obtain m where m: "m \<le> length h" "q (ch_ref c) = replay p (take m h) (ch_ref c)"
    by (auto simp: crash_state_def)
  show "change_settled g q c"
  proof (cases "Suc k \<le> m")
    case True
    have "(replay p (take (Suc k) h) (ch_ref c), replay p (take m h) (ch_ref c)) \<in> (edge_rel g (ch_ref c))\<^sup>*"
      by (rule history_path [OF law]) (use assms(1) True m in \<open>auto simp: on_history_def\<close>)
    with after m show ?thesis by (simp add: change_settled_iff)
  next
    case False
    have "replay p (take (Suc k) h) (ch_ref c) = replay p (take m h) (ch_ref c)"
      by (rule history_rank_eq [OF law]) (use False m assms(3) le after in auto)
    with after m show ?thesis by (simp add: change_settled_def)
  qed
qed

text \<open>An intent whose predecessors are settled is not blocked\<close>

lemma predecessors_settled:
  assumes "on_history rank p h g" and "crash_state p h q" and "k \<le> length h"
    and "\<And>j. j < k \<Longrightarrow> changes_settled g q (snd (h ! j))"
  shows "rank (replay p (take k h) r) \<le> rank (q r)"
  using assms(3,4)
proof (induction k)
  case 0
  from assms(2) obtain m where m: "m \<le> length h" "q r = replay p (take m h) r" by (auto simp: crash_state_def)
  from assms(1) history_rank [of rank p h 0 m r] m show ?case by (auto simp: on_history_def)
next
  case (Suc k)
  then have k: "k < length h" and law: "lawful rank p h" using assms(1) by (simp_all add: on_history_def)
  show ?case
  proof (cases "r \<in> ch_ref ` set (snd (h ! k))")
    case True
    then obtain c where c: "c \<in> set (snd (h ! k))" "r = ch_ref c" by auto
    with Suc.prems(2) [of k] have "change_settled g q c" by (simp add: changes_settled_def list_all_iff)
    with settled_rank [OF assms(1,2) k c(1)] history_step(2) [OF law k c(1)] c show ?thesis by simp
  next
    case False
    with history_step(4) [OF law k] Suc show ?thesis by simp
  qed
qed

lemma applicable_not_None:
  "(\<And>c. c \<in> set cs \<Longrightarrow> p (ch_ref c) = ch_before c \<or> change_settled g p c) \<Longrightarrow> applicable g p cs \<noteq> None"
  by (induction cs) auto

lemma unblocked:
  assumes "on_history rank p h g" and "crash_state p h q" and "k < length h"
    and "\<And>j. j < k \<Longrightarrow> changes_settled g q (snd (h ! j))"
  shows "applicable g q (snd (h ! k)) \<noteq> None"
proof (rule applicable_not_None)
  fix c assume c: "c \<in> set (snd (h ! k))"
  from assms(1) have law: "lawful rank p h" by (simp add: on_history_def)
  from assms(2) obtain m where m: "m \<le> length h" "q (ch_ref c) = replay p (take m h) (ch_ref c)"
    by (auto simp: crash_state_def)
  have ge: "rank (replay p (take k h) (ch_ref c)) \<le> rank (q (ch_ref c))"
    using predecessors_settled [OF assms(1,2)] assms(3,4) by simp
  show "q (ch_ref c) = ch_before c \<or> change_settled g q c"
  proof (cases "m \<le> k")
    case True
    have "replay p (take k h) (ch_ref c) = replay p (take m h) (ch_ref c)"
      by (rule history_rank_eq [OF law]) (use True m assms(3) ge in auto)
    with history_step(1) [OF law assms(3) c] m show ?thesis by simp
  next
    case False
    with history_rank [OF law, of "Suc k" m "ch_ref c"] m history_step(2) [OF law assms(3) c]
    have "rank (Some (ch_after c)) \<le> rank (q (ch_ref c))" by auto
    with settled_rank [OF assms(1-3) c] show ?thesis by simp
  qed
qed


subsubsection \<open>Recovery reaches the end of the history\<close>

lemma fire_crash_state:
  assumes "on_history rank p h g" and "crash_state p h q" and "k < length h"
    and "applicable g q (snd (h ! k)) = Some xs"
  shows "crash_state p h (fire g q (snd (h ! k)))"
  unfolding crash_state_def
proof
  fix r
  let ?cs = "snd (h ! k)"
  from assms(1) have law: "lawful rank p h" by (simp add: on_history_def)
  from lawful_nth [OF law assms(3)] have "distinct (map ch_ref ?cs)" by (simp add: ready_def)
  then have dist: "distinct (map ch_ref (filter (\<lambda>c. q (ch_ref c) = ch_before c) ?cs))"
    by (simp add: distinct_map_filter)
  note ap = apply_each_ready(2,3) [OF dist, of q, simplified]
  show "\<exists>j \<le> length h. fire g q ?cs r = replay p (take j h) r"
  proof (cases "r \<in> ch_ref ` {c \<in> set ?cs. q (ch_ref c) = ch_before c}")
    case True
    then obtain c where c: "c \<in> set ?cs" "q (ch_ref c) = ch_before c" "r = ch_ref c" by auto
    then have "fire g q ?cs r = Some (ch_after c)" using ap(1) by (simp add: fire_def)
    with history_step(2) [OF law assms(3) c(1)] c(3) assms(3) show ?thesis by (intro exI [of _ "Suc k"]) simp
  next
    case False
    with ap(2) have "fire g q ?cs r = q r" by (simp add: fire_def)
    with assms(2) show ?thesis by (simp add: crash_state_def)
  qed
qed

lemma recover_round_blocked:
  assumes "applicable g q (snd i) = None" and "recover_round g (i # is) q = (Inr (d, f, pr), q')"
  obtains d' where "recover_round g is q = (Inr (d', f, pr), q')" and "d = i # d'"
  using assms by (cases i) (auto split: prod.splits sum.splits)

lemma recover_round_fired:
  assumes "recoverable g (i # is)" and "applicable g q (snd i) = Some xs"
    and "recover_round g (i # is) q = (Inr (d, f, pr), q')"
  obtains f' pr' where "recover_round g is (fire g q (snd i)) = (Inr (d, f', pr'), q')" and "pr"
proof -
  obtain path cs where i: "i = (path, cs)" by (cases i)
  from assms(1,2) i have "apply_each xs q = (Inr (), fire g q cs)"
    by (intro fire_facts(1)) (simp_all add: recoverable_def)
  with assms(2,3) i that show thesis
    by (cases xs) (auto simp: apply_projection_changes_def split: prod.splits sum.splits)
qed

lemma recover_round_crash:
  assumes hist: "on_history rank p h g"
  shows "recoverable g is \<Longrightarrow> set is \<subseteq> set h \<Longrightarrow> crash_state p h q \<Longrightarrow>
    recover_round g is q = (Inr (d, f, pr), q') \<Longrightarrow> crash_state p h q'"
proof (induction "is" arbitrary: q d f pr)
  case (Cons i "is")
  have rest: "recoverable g is" "set is \<subseteq> set h" using Cons.prems(1,2) by (simp_all add: recoverable_def)
  show ?case
  proof (cases "applicable g q (snd i)")
    case None
    from Cons.prems(4) obtain d' where "recover_round g is q = (Inr (d', f, pr), q')"
      by (rule recover_round_blocked [OF None])
    then show ?thesis by (rule Cons.IH [OF rest Cons.prems(3)])
  next
    case (Some xs)
    from Cons.prems(2) obtain k where "k < length h" "i = h ! k" by (auto simp: in_set_conv_nth)
    with fire_crash_state [OF hist Cons.prems(3)] Some have fired: "crash_state p h (fire g q (snd i))" by blast
    from Cons.prems(4) obtain f' pr' where "recover_round g is (fire g q (snd i)) = (Inr (d, f', pr'), q')"
      by (rule recover_round_fired [OF Cons.prems(1) Some])
    then show ?thesis by (rule Cons.IH [OF rest fired])
  qed
qed simp

text \<open>A round that starts from a crash state finishes at least one intent\<close>

lemma recover_round_progress:
  assumes hist: "on_history rank p h g" and k: "k < length h"
  shows "recoverable g is \<Longrightarrow> crash_state p h q \<Longrightarrow> h ! k \<in> set is \<Longrightarrow>
    (\<And>j. j < k \<Longrightarrow> changes_settled g q (snd (h ! j))) \<Longrightarrow>
    recover_round g is q = (Inr (d, f, pr), q') \<Longrightarrow> pr"
proof (induction "is" arbitrary: d f pr)
  case (Cons i "is")
  show ?case
  proof (cases "applicable g q (snd i)")
    case None
    with unblocked [OF hist Cons.prems(2) k] Cons.prems(3,4) have "h ! k \<in> set is" by auto
    moreover have "recoverable g is" using Cons.prems(1) by (simp add: recoverable_def)
    moreover from Cons.prems(5) obtain d' where "recover_round g is q = (Inr (d', f, pr), q')"
      by (rule recover_round_blocked [OF None])
    ultimately show ?thesis using Cons.IH Cons.prems(2,4) by blast
  next
    case (Some xs)
    from Cons.prems(5) show ?thesis by (rule recover_round_fired [OF Cons.prems(1) Some])
  qed
qed simp

text \<open>Some pending intent has all its predecessors settled\<close>

lemma next_intent:
  assumes "is \<noteq> []" and "set is \<subseteq> set h"
    and "\<And>i. i \<in> set h \<Longrightarrow> i \<notin> set is \<Longrightarrow> changes_settled g q (snd i)"
  obtains k where "k < length h" "h ! k \<in> set is" "\<And>j. j < k \<Longrightarrow> changes_settled g q (snd (h ! j))"
proof -
  let ?P = "\<lambda>k. k < length h \<and> h ! k \<in> set is"
  from assms(1,2) have "\<exists>k. ?P k" by (metis in_set_conv_nth list.set_sel(1) subsetD)
  then have least: "?P (LEAST k. ?P k)" by (rule LeastI_ex)
  have "changes_settled g q (snd (h ! j))" if "j < (LEAST k. ?P k)" for j
  proof -
    from that least have "j < length h" by linarith
    with not_less_Least [OF that] have "h ! j \<in> set h" "h ! j \<notin> set is" by auto
    then show ?thesis by (rule assms(3))
  qed
  with least that show thesis by blast
qed

lemma recover_loop_returns:
  assumes hist: "on_history rank p h g"
  shows "recoverable g is \<Longrightarrow> set is \<subseteq> set h \<Longrightarrow> crash_state p h q \<Longrightarrow>
    (\<And>i. i \<in> set h \<Longrightarrow> i \<notin> set is \<Longrightarrow> changes_settled g q (snd i)) \<Longrightarrow>
    \<exists>out q'. recover_loop g is rec q = (Inr out, q') \<and> crash_state p h q' \<and>
      (\<forall>i \<in> set h. changes_settled g q' (snd i))"
proof (induction "length is" arbitrary: "is" rec q rule: less_induct)
  case less
  show ?case
  proof (cases "is = []")
    case True
    with less.prems show ?thesis by (simp add: recover_loop.simps [of g "[]"])
  next
    case False
    from recover_round_facts [OF less.prems(1), of q] obtain d f pr q' where
      run: "recover_round g is q = (Inr (d, f, pr), q')"
      and adv: "\<And>r. (q r, q' r) \<in> (edge_rel g r)\<^sup>*" and sub: "set d \<subseteq> set is"
      and settled: "\<And>i. i \<in> set is \<Longrightarrow> i \<notin> set d \<Longrightarrow> changes_settled g q' (snd i)"
      and shorter: "pr \<longleftrightarrow> length d < length is" by blast
    have crash: "crash_state p h q'" by (rule recover_round_crash [OF hist less.prems(1-3) run])
    have rest: "changes_settled g q' (snd i)" if i: "i \<in> set h" "i \<notin> set d" for i
    proof (cases "i \<in> set is")
      case False
      with less.prems(4) i have "changes_settled g q (snd i)" by blast
      then show ?thesis by (rule settled_forward [OF _ adv])
    qed (use settled i in blast)
    from next_intent [OF False less.prems(2,4)] obtain k where "k < length h" "h ! k \<in> set is"
      "\<And>j. j < k \<Longrightarrow> changes_settled g q (snd (h ! j))" by blast
    from recover_round_progress [OF hist this(1) less.prems(1,3) this(2,3) run] have pr by blast
    show ?thesis
    proof (cases "d = []")
      case True
      with False run crash rest show ?thesis by (simp add: recover_loop.simps [of g "is"])
    next
      case d: False
      have "recoverable g d" "set d \<subseteq> set h" using less.prems(1,2) sub by (auto simp: recoverable_def)
      from less.hyps [OF _ this crash rest, of "rec @ f"] shorter \<open>pr\<close> False run d
      show ?thesis by (simp add: recover_loop.simps [of g "is"])
    qed
  qed
qed

text \<open>
  Recovery after a crash: whatever point each projection had reached, and in whatever order the
  intents are read back, recovery returns and the projections are those of the full history.
\<close>

lemma crash_recovery:
  assumes "lawful rank p h" and "mset is = mset h" and "crash_state p h q"
  shows "\<exists>out. recover_projection_intents is q = (Inr out, replay p h)"
proof -
  from history_graph [OF assms(1,2)] obtain g where g: "state_graph is = Inr g" "recoverable g is"
    and edges: "\<And>x y r. (x, y) \<in> edge_rel g r \<Longrightarrow>
      \<exists>c \<in> set (concat (map snd h)). ch_ref c = r \<and> x = ch_before c \<and> y = Some (ch_after c)" by metis
  have sets: "set is = set h" using assms(2) by (metis set_mset_mset)
  have hist: "on_history rank p h g"
    using assms(1) g(2) edges sets nth_mem by (auto simp: on_history_def recoverable_def)
  from recover_loop_returns [OF hist g(2), of q "[]"] sets assms(3) obtain out q' where
    run: "recover_loop g is [] q = (Inr out, q')" and crash: "crash_state p h q'"
    and settled: "\<forall>i \<in> set h. changes_settled g q' (snd i)" by auto
  have "q' r = replay p h r" for r
  proof -
    have le: "rank (replay p (take (length h) h) r) \<le> rank (q' r)"
      by (rule predecessors_settled [OF hist crash]) (use settled in auto)
    from crash obtain m where m: "m \<le> length h" "q' r = replay p (take m h) r" by (auto simp: crash_state_def)
    have "replay p (take (length h) h) r = replay p (take m h) r"
      by (rule history_rank_eq [OF assms(1)]) (use m le in auto)
    with m show ?thesis by simp
  qed
  with g run show ?thesis by (auto simp: recover_projection_intents_def fun_eq_iff)
qed

end
