(* ===== verification/Reservation.thy ===== *)
theory Reservation
  imports Decision Recovery
begin

text \<open>
  Decision and reservation artifacts and their validation: \<^verbatim>\<open>projection_reservations.py\<close>
  (\<^verbatim>\<open>validate_decision_artifact\<close>, \<^verbatim>\<open>validate_reservation\<close>), the parent closure of
  \<^verbatim>\<open>grant_lineage_validation.py\<close>, and the checks of \<^verbatim>\<open>lifecycle_preflight.py\<close> that run before
  and after a reservation. An artifact is the closed record of its fields; the clauses that only
  test the JSON shape of a field are the types of the record.
\<close>

subsection \<open>Grant artifacts\<close>

definition load_grant_artifact :: "store \<Rightarrow> string \<Rightarrow> (grant \<times> string) res" where
  "load_grant_artifact st gid =
     (if \<not> is_identifier gid then fail BadIdentifier
      else case map_of (st_grants st) gid of
        None \<Rightarrow> fail Missing
      | Some (d, sha) \<Rightarrow>
          bindE (validate_grant d) (\<lambda>g.
          if g_grant_id g \<noteq> gid then fail Conflict else Inr (g, sha)))"

text \<open>\<^verbatim>\<open>binding\<close> and \<^verbatim>\<open>verify_file_binding\<close> of \<^verbatim>\<open>projection_io.py\<close>\<close>

definition binding_ok :: "binding \<Rightarrow> bool" where
  "binding_ok b \<longleftrightarrow> strip (b_ref b) \<noteq> [] \<and> \<not> starts_with (strip (b_ref b)) ''/''
     \<and> ''..'' \<notin> set (split_on (CHR ''/'') (strip (b_ref b))) \<and> CHR ''*'' \<notin> set (b_ref b)
     \<and> is_sha (b_sha256 b)"

definition verify_file_binding :: "files \<Rightarrow> binding \<Rightarrow> unit res" where
  "verify_file_binding fs b =
     (if \<not> binding_ok b then fail BadBinding else bindE (verify_binding fs b) (\<lambda>_. Inr ()))"

subsection \<open>The parent closure of a decision\<close>

definition binding_matches :: "grant_binding \<Rightarrow> grant \<times> string \<Rightarrow> bool" where
  "binding_matches b x \<longleftrightarrow> gb_grant_sha256 b = snd x \<and> gb_policy_snapshot b = g_policy_snapshot (fst x)"

text \<open>The inner loop: the ancestors of one selected grant, by identifier\<close>

lemma load_grant_artifact_stored: "load_grant_artifact st p = Inr x \<Longrightarrow> p \<in> fst ` set (st_grants st)"
  by (auto simp: load_grant_artifact_def dest!: map_of_SomeD split: if_splits option.splits)
     (force intro: rev_image_eqI)

function ancestors_from ::
  "store \<Rightarrow> string list \<Rightarrow> string option \<Rightarrow> (string \<times> grant \<times> string) list res" where
  "ancestors_from st seen None = Inr []"
| "ancestors_from st seen (Some p) =
     (if p \<in> set seen then fail Circular
      else bindE (load_grant_artifact st p) (\<lambda>x.
           bindE (ancestors_from st (p # seen) (g_parent_grant_id (fst x))) (\<lambda>xs.
           Inr ((p, x) # xs))))"
  by pat_completeness auto

termination
proof (relation "measure (\<lambda>(st, seen, p). card (fst ` set (st_grants st) - set seen))")
  fix st seen p x
  assume "p \<notin> set seen" and "load_grant_artifact st p = Inr x"
  then have "p \<in> fst ` set (st_grants st) - set seen" by (blast dest: load_grant_artifact_stored)
  moreover have "fst ` set (st_grants st) - set (p # seen) = fst ` set (st_grants st) - set seen - {p}"
    by auto
  ultimately show "((st, p # seen, g_parent_grant_id (fst x)), st, seen, Some p)
      \<in> measure (\<lambda>(st, seen, p). card (fst ` set (st_grants st) - set seen))"
    by (simp add: card_Diff1_less del: card_Diff_insert)
qed simp

definition selected_artifact :: "store \<Rightarrow> grant_binding \<Rightarrow> (string \<times> grant \<times> string) res" where
  "selected_artifact st b =
     bindE (load_grant_artifact st (gb_grant_id b)) (\<lambda>x.
     if \<not> binding_matches b x then fail BadBinding else Inr (gb_grant_id b, x))"

text \<open>
  \<^verbatim>\<open>validate_decision_grant_closure\<close>: the bound ancestors are exactly the ancestors of the selected
  grants that are not themselves selected
\<close>

definition validate_decision_grant_closure ::
  "env \<Rightarrow> store \<Rightarrow> decision_artifact \<Rightarrow> request \<Rightarrow> unit res" where
  "validate_decision_grant_closure E st a r =
     (if da_fingerprint a \<noteq> effective_authority_fingerprint (env_digest E) r (da_evaluation_context a)
           (da_operation_manifest a) (da_selected_grants a) (da_lineage_grants a)
      then fail Forged
      else if da_decision a \<noteq> Allowed then Inr ()
      else
        bindE (mapE (selected_artifact st) (da_selected_grants a)) (\<lambda>selected.
        bindE (mapE (\<lambda>s. ancestors_from st [fst s] (g_parent_grant_id (fst (snd s)))) selected) (\<lambda>walks.
        let expected = filter (\<lambda>x. fst x \<notin> set (map fst selected)) (concat walks) in
        if set (map gb_grant_id (da_lineage_grants a)) \<noteq> set (map fst expected) then fail Forged
        else if \<not> list_all (\<lambda>b. case map_of expected (gb_grant_id b) of
                    None \<Rightarrow> False | Some x \<Rightarrow> binding_matches b x) (da_lineage_grants a)
        then fail BadBinding
        else if \<not> list_all (\<lambda>x. root_grant_request_binding_covers (env_digest E) (fst (snd x)) r)
                    (selected @ expected)
        then fail Forged else Inr ())))"

subsection \<open>Decision artifacts\<close>

text \<open>The loop over the selected and the ancestor bindings; \<open>seen\<close> holds the identifiers so far\<close>

fun validate_grant_bindings :: "env \<Rightarrow> store \<Rightarrow> string list \<Rightarrow> grant_binding list \<Rightarrow> unit res" where
  "validate_grant_bindings E st seen [] = Inr ()"
| "validate_grant_bindings E st seen (b # bs) =
     (if \<not> is_identifier (gb_grant_id b) then fail BadIdentifier
      else if \<not> is_sha (gb_grant_sha256 b) then fail BadSha
      else if gb_state_version b < 0 then fail BadInteger
      else
        bindE (verify_file_binding (env_files E) (gb_policy_snapshot b)) (\<lambda>_.
        bindE (load_grant_artifact st (gb_grant_id b)) (\<lambda>x.
        if \<not> binding_matches b x then fail BadBinding
        else if gb_grant_id b \<in> set seen then fail Conflict
        else validate_grant_bindings E st (gb_grant_id b # seen) bs)))"

definition validate_decision_artifact ::
  "env \<Rightarrow> store \<Rightarrow> string \<Rightarrow> decision_artifact \<Rightarrow> unit res" where
  "validate_decision_artifact E st did a =
     (let H = env_digest E; r = da_request a; ctx = da_evaluation_context a;
          bindings = da_selected_grants a @ da_lineage_grants a in
      if did \<noteq> decision_id H a then fail DigestMismatch
      else
      bindE (validate_request (request_json r)) (\<lambda>r'.
      if r' \<noteq> r \<or> da_request_sha256 a \<noteq> H (JObj (request_json r)) then fail BadBinding
      else
      bindE (verify_request_evidence (env_files E) r) (\<lambda>_.
      bindE (normalize_evaluation_context (eval_context_json ctx)) (\<lambda>ctx'.
      if ctx' \<noteq> ctx \<or> da_evaluation_context_sha256 a \<noteq> H (JObj (eval_context_json ctx))
      then fail BadBinding
      else if da_reason_codes a \<noteq> sort_uniq (da_reason_codes a) \<or> [] \<in> set (da_reason_codes a)
              \<or> (da_decision a = Allowed) \<noteq> (da_reason_codes a = [])
      then fail BadText
      else if da_approval_projection a \<noteq>
              (if da_decision a = Approval_required
               then Some (build_approval_projection H r ctx (da_reason_codes a)) else None)
      then fail Forged
      else if (case da_operation_manifest a of None \<Rightarrow> False | Some m \<Rightarrow> \<not> binding_ok m)
      then fail BadBinding
      else if \<not> is_sha (da_fingerprint a) then fail BadSha
      else
      bindE (validate_grant_bindings E st [] bindings) (\<lambda>_.
      if (da_decision a = Allowed) \<noteq> (bindings \<noteq> []) then fail BadContract
      else validate_decision_grant_closure E st a r)))))"

subsection \<open>Reservations\<close>

record grant_use =
  gu_grant_id :: string
  gu_grant_sha256 :: string
  gu_units :: int
  gu_state_version_before :: int
  gu_state_version_after :: int

record reservation =
  rv_reservation_id :: string
  rv_request_id :: string
  rv_request_sha256 :: string
  rv_decision :: binding
  rv_fingerprint :: string
  rv_grant_uses :: "grant_use list"
  rv_state_changes :: "(sref, pstate) change list"
  rv_reserved_at :: datetime
  rv_idempotency_key :: string

definition reservation_id :: "(json \<Rightarrow> string) \<Rightarrow> string \<Rightarrow> string \<Rightarrow> string" where
  "reservation_id H request_sha key =
     ''authz-'' @ take 24 (H (JObj [(''request'', JStr request_sha), (''key'', JStr key)]))"

definition reserved_rstate :: "string \<Rightarrow> rstate" where
  "reserved_rstate rid = \<lparr>rs_reservation_id = rid, rs_status = Rs_reserved, rs_version = 0,
     rs_last_event_id = rid\<rparr>"

definition reserved_gstate :: "string \<Rightarrow> int \<Rightarrow> gstate \<Rightarrow> gstate" where
  "reserved_gstate event units s =
     s\<lparr>gs_reserved_uses := gs_reserved_uses s + units, gs_version := gs_version s + 1,
       gs_last_event_id := Some event\<rparr>"

definition change_at :: "(sref, pstate) change list \<Rightarrow> sref \<Rightarrow> (sref, pstate) change option" where
  "change_at cs r = List.find (\<lambda>c. ch_ref c = r) cs"

text \<open>\<^verbatim>\<open>validate_grant_state\<close> on a state of the projection type\<close>

definition grant_state_ok :: "grant \<Rightarrow> string \<Rightarrow> gstate \<Rightarrow> bool" where
  "grant_state_ok g sha s =
     (validate_grant_state (JObj (gstate_json s)) g sha = Inr s)"

subsection \<open>Preflight\<close>

definition subject_preflight :: "env \<Rightarrow> request \<Rightarrow> unit res" where
  "subject_preflight E r =
     bindE (read_file (env_files E) (sub_ref (rq_subject r))) (\<lambda>x.
     if fst x \<noteq> sub_digest (rq_subject r) then fail Stale else Inr ())"

definition verify_manifest :: "env \<Rightarrow> decision_artifact \<Rightarrow> unit res" where
  "verify_manifest E a =
     (let r = da_request a in
      bindE (load_operation (env_skills E) (rq_skill_id r) (rq_skill_version r) (rq_operation_id r)
               (rq_operation_version r)) (\<lambda>found.
      if snd found \<noteq> da_operation_manifest a then fail Stale else Inr ()))"

text \<open>
  One binding of \<^verbatim>\<open>validate_selected_grants\<close>. The expected version is the bound one, or the
  version recorded for the grant, and then only a lower version conflicts.
\<close>

definition validate_selected_grant ::
  "env \<Rightarrow> store \<Rightarrow> (string \<Rightarrow> int option) option \<Rightarrow> request \<Rightarrow> datetime \<Rightarrow> grant_binding
   \<Rightarrow> grant_record res" where
  "validate_selected_grant E st expected_versions r now b =
     bindE (load_grant E st (gb_grant_id b)) (\<lambda>(g, sha, s).
     if sha \<noteq> gb_grant_sha256 b then fail Stale
     else if \<not> root_grant_request_binding_covers (env_digest E) g r then fail Forged
     else
     bindE (case expected_versions of
              None \<Rightarrow> Inr (gs_version s \<noteq> gb_state_version b)
            | Some f \<Rightarrow> (case f (g_grant_id g) of None \<Rightarrow> Inl KeyError
                         | Some expected \<Rightarrow> Inr (gs_version s < expected))) (\<lambda>version_conflict.
     if version_conflict then fail CasConflict
     else if gs_status s \<noteq> Active then fail NotActive
     else if expired_at g now then fail ExpiredGrant
     else bindE (verify_binding (env_files E) (g_policy_snapshot g)) (\<lambda>_. Inr (g, sha, s))))"

definition validate_selected_grants ::
  "env \<Rightarrow> store \<Rightarrow> (string \<Rightarrow> int option) option \<Rightarrow> request \<Rightarrow> datetime \<Rightarrow> grant_binding list
   \<Rightarrow> grant_record list res" where
  "validate_selected_grants E st expected_versions r now bs =
     mapE (validate_selected_grant E st expected_versions r now) bs"

text \<open>\<^verbatim>\<open>decision_grant_bindings\<close>: selected and ancestor bindings merged and sorted by identifier\<close>

fun merge_bindings :: "grant_binding dir \<Rightarrow> grant_binding list \<Rightarrow> grant_binding dir res" where
  "merge_bindings d [] = Inr d"
| "merge_bindings d (b # bs) =
     (if (case map_of d (gb_grant_id b) of None \<Rightarrow> False | Some e \<Rightarrow> e \<noteq> b) then fail Conflict
      else merge_bindings (dput (gb_grant_id b) b d) bs)"

definition decision_grant_bindings :: "decision_artifact \<Rightarrow> grant_binding list res" where
  "decision_grant_bindings a =
     bindE (merge_bindings [] (da_selected_grants a @ da_lineage_grants a)) (\<lambda>d.
     Inr (map snd (sort_key fst d)))"

definition verify_bound_decision_evidence :: "env \<Rightarrow> decision_artifact \<Rightarrow> unit res" where
  "verify_bound_decision_evidence E a =
     bindE (validate_evaluation_context (env_files E) (eval_context_json (da_evaluation_context a))) (\<lambda>_.
     verify_request_evidence (env_files E) (da_request a))"

end
