(* ===== verification/Scenario.thy ===== *)
theory Scenario
  imports Reservation
begin

text \<open>
  One concrete workspace, on which the properties are instantiated: a skill with one operation, a
  root grant and a delegated child, a request of the child's holder and its evaluation context. The
  digests of files are fixed texts.
\<close>

definition sha_a :: string where "sha_a = replicate 64 (CHR ''a'')"
definition sha_b :: string where "sha_b = replicate 64 (CHR ''b'')"

definition file_b :: "string \<Rightarrow> binding" where
  "file_b ref = \<lparr>b_ref = ref, b_sha256 = sha_a\<rparr>"

definition day :: "nat \<Rightarrow> datetime" where
  "day n = \<lparr>dt_year = 2026, dt_month = 1, dt_day = n, dt_hour = 0, dt_minute = 0, dt_second = 0,
     dt_micro = 0, dt_offset = 0\<rparr>"

definition the_subject :: subject where
  "the_subject = \<lparr>sub_kind = ''file'', sub_ref = ''notes.md'', sub_digest = sha_a, sub_revision = ''1''\<rparr>"

definition the_request :: request where
  "the_request =
    \<lparr>rq_request_id = ''rq'', rq_skill_id = ''sk'', rq_skill_version = ''1'', rq_operation_id = ''op'',
     rq_operation_version = ''1'', rq_cycle_id = None, rq_task_id = None, rq_pack_id = None,
     rq_attempt_id = None, rq_actor_rank = S1, rq_subject = the_subject,
     rq_required_capabilities = [''file.write''], rq_effect_class = ''edit'', rq_data_class = ''text'',
     rq_mutation_class = Local_mutation, rq_reversibility = Reversible, rq_risk_tier = R1,
     rq_decision_class = D2, rq_intent_type = Grant_authority,
     rq_cardinality_requested = Single_use, rq_use_budget_requested = 1, rq_reservation_units = None,
     rq_idempotency_key = ''key'',
     rq_context = \<lparr>rc_external_input_status = Ext_not_required, rc_goal_truth_status = Aligned,
       rc_risk_acceptance_status = Not_required, rc_design_selection_status = Not_required,
       rc_external_input_evidence = None, rc_risk_acceptance_evidence = None,
       rc_design_selection_evidence = None\<rparr>,
     rq_composition_receipt = None\<rparr>"

definition the_context :: eval_context where
  "the_context =
    \<lparr>ec_session_ceiling = \<lparr>sc_capabilities = [''file.write''], sc_risk_ceiling = R2,
       sc_mutation_classes = [''local_mutation''], sc_evidence_id = ''ev''\<rparr>,
     ec_goal_autonomy_envelope = \<lparr>en_envelope_id = ''en'', en_capabilities = [''file.write''],
       en_risk_ceiling = R1, en_decision_classes = [''D2''], en_subjects = [sha_a],
       en_operations = [''sk:1:op:1''], en_source_binding = file_b ''goal.json''\<rparr>\<rparr>"

definition the_root :: grant where
  "the_root =
    \<lparr>g_grant_id = ''root'', g_lineage_id = ''lin'', g_parent_grant_id = None, g_issuer_rank = S3,
     g_holder_rank = S2, g_capabilities = [''file.write''], g_subjects = [the_subject],
     g_operations = [\<lparr>os_operation_id = ''op'', os_operation_version = ''1'', os_skill_id = ''sk'',
       os_skill_version = ''1''\<rparr>],
     g_risk_ceiling = R2, g_decision_classes = [''D2''], g_cardinality = Bounded_reusable,
     g_max_uses = Some 3, g_not_before = day 1, g_expires_at = Some (day 20), g_session_id = None,
     g_task_id = None, g_improvement_id = None, g_source_approval = file_b ''approval.json'',
     g_policy_snapshot = file_b ''policy.json'', g_created_at = day 1, g_idempotency_key = ''k'',
     g_materialization = Schema2\<rparr>"

definition the_child :: grant where
  "the_child = the_root
    \<lparr>g_grant_id := ''child'', g_parent_grant_id := Some ''root'', g_issuer_rank := S2,
     g_holder_rank := S1, g_risk_ceiling := R1, g_max_uses := Some 2, g_expires_at := Some (day 10),
     g_source_approval := \<lparr>b_ref = grant_ref ''root'', b_sha256 = sha_a\<rparr>,
     g_idempotency_key := ''k2''\<rparr>"

definition the_manifest :: obj where
  "the_manifest =
    [(''schema_version'', JInt 2), (''manifest_kind'', JStr ''authority_operations''),
     (''skill_id'', JStr ''sk''), (''skill_version'', JStr ''1''),
     (''operations'', JList [JObj
       [(''operation_id'', JStr ''op''), (''operation_version'', JStr ''1''),
        (''mutation_class'', JStr ''local_mutation''), (''required_capabilities'', JList [JStr ''file.write'']),
        (''source_rank_floor'', JStr ''S2''), (''risk_floor'', JStr ''R1''),
        (''decision_class'', JStr ''D2''), (''effect_classes'', JList [JStr ''edit'']),
        (''data_classes'', JList [JStr ''text'']), (''reversibility'', JStr ''reversible''),
        (''subject_kinds'', JList [JStr ''file'']), (''authority_applicability'', JStr ''required''),
        (''authorization_mechanism'', JStr ''grant'')]])]"

definition the_files :: files where
  "the_files ref =
     (if ref \<in> set [''notes.md'', ''goal.json'', ''approval.json'', ''policy.json'', grant_ref ''root'',
        ''result.json'']
      then File sha_a (Some (JObj [])) else Absent)"

definition the_env :: env where
  "the_env =
    \<lparr>env_files = the_files,
     env_skills = (\<lambda>ref. if ref = ''sk/authority.operations.json'' then File sha_b (Some (JObj the_manifest))
       else Absent),
     env_sha256 = (\<lambda>s. s), env_receipts = (\<lambda>_. None), env_activation = (\<lambda>_ _. True),
     env_source_for_grant = (\<lambda>_ _. Inr ()), env_source_for_transition = (\<lambda>_ _ _ _. Inr ())\<rparr>"

definition the_store :: store where
  "the_store =
    \<lparr>st_grants = [(''root'', grant_json the_root, sha_a), (''child'', grant_json the_child, sha_b)],
     st_proj = [Grant_ref ''root'' \<mapsto> GS (initial_state the_root sha_a),
                Grant_ref ''child'' \<mapsto> GS (initial_state the_child sha_b)]\<rparr>"

lemma the_request_ok: "validate_request (request_json the_request) = Inr the_request"
  by code_simp

lemma the_context_ok: "normalize_evaluation_context (eval_context_json the_context) = Inr the_context"
  by code_simp

lemma day_time: "1 \<le> n \<Longrightarrow> n \<le> 31 \<Longrightarrow> parse_time (JStr (isoformat (day n))) = Inr (day n)"
  by (rule parse_time_isoformat) (simp add: valid_datetime_def day_def days_in_month_def)

lemma instant_day: "instant (day m) \<le> instant (day n) \<longleftrightarrow> m \<le> n"
  by (simp add: instant_def day_def ordinal_def)

text \<open>A grant with the scope of the root and its own identity, ranks, ceiling and lifetime\<close>

definition scoped :: "grant \<Rightarrow> bool" where
  "scoped g \<longleftrightarrow> g_lineage_id g = ''lin'' \<and> g_capabilities g = [''file.write''] \<and> g_subjects g = [the_subject]
     \<and> g_operations g = g_operations the_root \<and> g_decision_classes g = [''D2'']
     \<and> g_cardinality g = Bounded_reusable \<and> g_not_before g = day 1 \<and> g_session_id g = None
     \<and> g_task_id g = None \<and> g_improvement_id g = None \<and> g_policy_snapshot g = file_b ''policy.json''
     \<and> g_created_at g = day 1 \<and> g_materialization g = Schema2"

lemma scope_facts:
  "capabilities_field (JList (map JStr [''file.write''])) = Inr [''file.write'']"
  "mapE validate_subject (map subject_json [the_subject]) = Inr [the_subject]"
  "mapE operation_field (map operation_json (g_operations the_root)) = Inr (g_operations the_root)"
  "binding_field (binding_json (file_b ''policy.json'')) = Inr (file_b ''policy.json'')"
  "identifier_field (JStr ''lin'') = Inr ''lin''"
  by code_simp+

lemma ids: "is_identifier s \<Longrightarrow> identifier_field (JStr s) = Inr s"
  by (simp add: identifier_field_def strip_identifier)

lemma scoped_grant:
  assumes g: "scoped g" and "is_identifier (g_grant_id g)" and "is_identifier (g_idempotency_key g)"
    and "case g_parent_grant_id g of None \<Rightarrow> True | Some p \<Rightarrow> is_identifier p"
    and "rank_value (g_holder_rank g) < rank_value (g_issuer_rank g)"
    and "g_max_uses g = Some m" "1 \<le> m" and "g_expires_at g = Some (day n)" "2 \<le> n" "n \<le> 31"
    and "binding_field (binding_json (g_source_approval g)) = Inr (g_source_approval g)"
  shows "validate_grant (grant_json g) = Inr g"
proof (rule grant_acceptedI [of _ "[the_subject]" "g_operations the_root"], unfold grant_accepted_def, intro conjI)
  show "closed_keys (grant_json g) (grant_expected_keys (jat (grant_json g) ''schema_version'')) = Inr ()"
    "required_keys (grant_json g) (grant_expected_keys (jat (grant_json g) ''schema_version'')) = Inr ()"
    unfolding grant_json_fields by (rule grant_json_closed)+
  show "grant_scope (grant_json g) = Inr ([the_subject], g_operations the_root)"
    using g scope_facts(2,3)
    by (simp add: grant_scope_def grant_json_fields scoped_def nonempty_list_field_def the_root_def)
  show "grant_lifetime (grant_json g) = Inr (g_cardinality g, g_max_uses g, g_not_before g, g_expires_at g)"
    using assms by (simp add: grant_lifetime_def grant_json_fields scoped_def opt_int_def opt_time_def
      max_uses_field_def expires_field_def day_time instant_day enum_field_name)
  show "grant_issuer_decisions (grant_json g) = Inr (g_issuer_rank g, g_holder_rank g, g_decision_classes g)"
    using assms by (simp add: grant_issuer_decisions_def grant_json_fields enum_field_name scoped_def
      sort_uniq_def DECISION_CLASSES_def)
  show "nullable_identifier (jat (grant_json g) ''parent_grant_id'') = Inr (g_parent_grant_id g)"
    using assms(4) ids by (simp add: grant_json_fields nullable_identifier_def opt_str_def split: option.splits)
  show "grant_materialization (grant_json g) (jat (grant_json g) ''schema_version'') = Inr (g_materialization g)"
    using g by (simp add: grant_materialization_def grant_json_fields grant_version_def scoped_def)
qed (use assms scope_facts ids in \<open>simp_all add: grant_json_fields scoped_def enum_field_name grant_version_def
      day_time nullable_identifier_def opt_str_def the_root_def strip_identifier\<close>)

lemma the_root_ok: "validate_grant (grant_json the_root) = Inr the_root"
proof (rule scoped_grant [where m = 3 and n = 20])
  show "binding_field (binding_json (g_source_approval the_root)) = Inr (g_source_approval the_root)" by code_simp
qed (simp_all add: scoped_def the_root_def, code_simp+)

lemma the_child_ok: "validate_grant (grant_json the_child) = Inr the_child"
proof (rule scoped_grant [where m = 2 and n = 10])
  show "binding_field (binding_json (g_source_approval the_child)) = Inr (g_source_approval the_child)" by code_simp
qed (simp_all add: scoped_def the_child_def the_root_def, code_simp+)

subsection \<open>The store\<close>

lemma the_grant_of:
  "grant_of the_store ''root'' = Some (the_root, sha_a)"
  "grant_of the_store ''child'' = Some (the_child, sha_b)"
  by (simp_all add: grant_of_def the_store_def the_root_ok the_child_ok)

lemma the_state_of:
  "state_of the_store ''root'' = Some (initial_state the_root sha_a)"
  "state_of the_store ''child'' = Some (initial_state the_child sha_b)"
  by (simp_all add: state_of_def the_store_def)

lemma the_load:
  "load_grant the_env the_store ''root'' = Inr (the_root, sha_a, initial_state the_root sha_a)"
  "load_grant the_env the_store ''child'' = Inr (the_child, sha_b, initial_state the_child sha_b)"
  using the_root_ok the_child_ok the_state_of
  by (simp_all add: load_grant_def effective_root_grant_state_def initial_state_def the_store_def)
     (simp_all add: the_root_def the_child_def)

lemma the_attenuation: "attenuates the_child the_root"
  by (simp add: attenuates_def the_child_def the_root_def instant_day bounded_by_def)

lemma the_wf: "wf_store the_store"
proof -
  have "state_ok the_root sha_a (initial_state the_root sha_a)" "state_ok the_child sha_b (initial_state the_child sha_b)"
    by (rule initial_state_ok [OF the_root_ok] initial_state_ok [OF the_child_ok])+
  moreover have "link_ok the_store the_root" "link_ok the_store the_child"
    using the_attenuation the_grant_of(1) by (simp_all add: link_ok_def the_root_def the_child_def)
  moreover have "g_grant_id the_root = ''root''" "g_grant_id the_child = ''child''"
    by (simp_all add: the_root_def the_child_def)
  moreover have "map fst (st_grants the_store) = [''root'', ''child'']" by (simp add: the_store_def)
  ultimately show ?thesis
    by (simp add: wf_store_def entry_ok_def the_grant_of the_state_of)
qed

lemma the_loads: "loads the_env the_store"
proof -
  have "map fst (st_grants the_store) = [''root'', ''child'']" by (simp add: the_store_def)
  then show ?thesis by (simp add: loads_def the_load)
qed

lemma the_grant_ids: "grant_ids the_store = [''child'', ''root'']"
proof -
  have "map fst (st_grants the_store) = [''root'', ''child'']" by (simp add: the_store_def)
  moreover have "sort_key (\<lambda>gid. gid @ ''.json'') [''root'', ''child''] = [''child'', ''root'']" by code_simp
  ultimately show ?thesis by (simp add: grant_ids_def)
qed

lemma the_list: "list_grants the_env the_store (Some (day 5)) =
    Inr [(the_child, sha_b, initial_state the_child sha_b), (the_root, sha_a, initial_state the_root sha_a)]"
proof -
  have "map_of (st_grants the_store) ''root'' = Some (grant_json the_root, sha_a)"
    "map_of (st_grants the_store) ''child'' = Some (grant_json the_child, sha_b)" by (simp_all add: the_store_def)
  moreover have "\<not> instant (day 5) < instant (day 1)" using instant_day [of 1 5] by simp
  ultimately show ?thesis
    by (simp add: list_grants_def the_grant_ids list_one_def the_root_ok the_child_ok the_load)
       (simp add: the_root_def the_child_def)
qed

subsection \<open>The evaluation\<close>

definition the_operation :: operation where
  "the_operation = \<lparr>op_operation_id = ''op'', op_operation_version = ''1'',
     op_mutation_class = Local_mutation, op_required_capabilities = [''file.write''],
     op_source_rank_floor = S2, op_risk_floor = R1, op_decision_class = D2,
     op_effect_classes = [''edit''], op_data_classes = [''text''], op_reversibility = Reversible,
     op_subject_kinds = [''file''], op_authority_applicability = App_required,
     op_authorization_mechanism = Mech_grant\<rparr>"

definition the_manifest_binding :: binding where
  "the_manifest_binding = \<lparr>b_ref = ''sk/authority.operations.json'', b_sha256 = sha_b\<rparr>"

lemma the_manifest_ok: "validate_manifest the_manifest =
    Inr \<lparr>mf_skill_id = ''sk'', mf_skill_version = ''1'', mf_operations = [the_operation]\<rparr>"
  by code_simp

lemma the_load_operation:
  "load_operation (env_skills the_env) ''sk'' ''1'' ''op'' ''1'' = Inr (Some the_operation, Some the_manifest_binding)"
  by (simp add: load_operation_def the_env_def the_manifest_ok the_manifest_binding_def the_operation_def)

definition the_verdict :: verdict where
  "the_verdict = \<lparr>vd_decision = Allowed, vd_reasons = [],
     vd_selected = [selected_binding (the_child, sha_b, initial_state the_child sha_b)],
     vd_lineage = [selected_binding (the_root, sha_a, initial_state the_root sha_a)]\<rparr>"

lemma the_lineage:
  "lineage_records the_env the_store the_child = Inr [(the_root, sha_a, initial_state the_root sha_a)]"
proof -
  have "g_grant_id the_child = ''child''" "g_parent_grant_id the_child = Some ''root''"
    "g_parent_grant_id the_root = None" by (simp_all add: the_child_def the_root_def)
  then show ?thesis by (simp add: lineage_records_def the_load)
qed

lemma the_covers:
  "covers the_env the_request the_child (initial_state the_child sha_b) (day 5) S2 ''ev''"
  "\<not> covers the_env the_request the_root (initial_state the_root sha_a) (day 5) S2 ''ev''"
  "ancestor_covers the_env the_request (day 5) ''ev'' (the_root, sha_a, initial_state the_root sha_a)"
  unfolding covers_iff ancestor_covers_iff
  by (simp_all add: schema4_eligible_def initial_state_def the_child_def the_root_def the_request_def
    root_grant_request_binding_covers_def expired_at_def instant_day request_operation_def
    scope_mismatch_def budget_short_def units_short_def reservation_units_def DECISION_CLASSES_def enum_name_def)

lemma the_grant_decision:
  "grant_decision the_env the_store the_request the_operation (day 5) ''ev'' = Inr the_verdict"
proof -
  have fl: "op_source_rank_floor the_operation = S2" by (simp add: the_operation_def)
  have "candidate the_env the_store the_request (day 5) S2 ''ev'' (the_child, sha_b, initial_state the_child sha_b) =
    Inr [((the_child, sha_b, initial_state the_child sha_b), [(the_root, sha_a, initial_state the_root sha_a)])]"
    "candidate the_env the_store the_request (day 5) S2 ''ev'' (the_root, sha_a, initial_state the_root sha_a) = Inr []"
    using the_covers by (simp_all add: candidate_def the_lineage lineage_covers_def)
  then show ?thesis by (simp add: grant_decision_def the_list fl the_verdict_def)
qed

lemma the_context_permits: "context_permits the_request the_context"
  by code_simp

lemma the_files_ok:
  "verify_request_evidence (env_files the_env) the_request = Inr ()"
  "validate_evaluation_context (env_files the_env) (eval_context_json the_context) = Inr the_context"
proof -
  show "verify_request_evidence (env_files the_env) the_request = Inr ()"
    by (simp add: verify_request_evidence_def the_request_def verify_evidence_def)
  have "verify_binding (env_files the_env) (en_source_binding (ec_goal_autonomy_envelope the_context)) =
    Inr (Some (JObj []))" by code_simp
  then show "validate_evaluation_context (env_files the_env) (eval_context_json the_context) = Inr the_context"
    by (simp add: validate_evaluation_context_def the_context_ok)
qed

definition the_decision :: decision_artifact where
  "the_decision = decision_of (env_digest the_env) the_request the_context (Some the_manifest_binding) (day 5) the_verdict"

lemma the_verdict_of:
  "verdict_of the_env the_store the_request the_context (day 5) (Some the_operation) = Inr the_verdict"
proof -
  have "manifest_reasons the_request the_operation = []" by code_simp
  moreover have "context_decision the_request the_context = None"
    using the_context_permits by (simp add: context_decision_None)
  moreover have "op_authorization_mechanism the_operation = Mech_grant" by (simp add: the_operation_def)
  moreover have "sc_evidence_id (ec_session_ceiling the_context) = ''ev''" by (simp add: the_context_def)
  ultimately show ?thesis by (simp add: verdict_of_def the_grant_decision)
qed

lemma the_evaluation:
  "evaluate the_env the_store (request_json the_request) (eval_context_json the_context)
     (JStr (isoformat (day 5))) = Inr the_decision"
proof -
  have op: "load_operation (env_skills the_env) (rq_skill_id the_request) (rq_skill_version the_request)
      (rq_operation_id the_request) (rq_operation_version the_request) =
      Inr (Some the_operation, Some the_manifest_binding)"
    using the_load_operation by (simp add: the_request_def)
  show ?thesis
    by (simp add: evaluate_def the_request_ok the_files_ok day_time op the_verdict_of the_decision_def)
qed

subsection \<open>Registration of the child\<close>

definition root_store :: store where
  "root_store = \<lparr>st_grants = [(''root'', grant_json the_root, sha_a)],
     st_proj = [Grant_ref ''root'' \<mapsto> GS (initial_state the_root sha_a)]\<rparr>"

lemma child_fields:
  "g_grant_id the_child = ''child''" "g_parent_grant_id the_child = Some ''root''"
  "g_source_approval the_child = \<lparr>b_ref = grant_ref ''root'', b_sha256 = sha_a\<rparr>"
  by (simp_all add: the_child_def)

lemma root_fields: "g_grant_id the_root = ''root''" "g_parent_grant_id the_root = None"
  "g_materialization the_root = Schema2"
  by (simp_all add: the_root_def)

lemma root_grant: "grant_of root_store ''root'' = Some (the_root, sha_a)"
  by (simp add: grant_of_def root_store_def the_root_ok)

lemma root_wf: "wf_store root_store"
proof -
  have "map fst (st_grants root_store) = [''root'']" by (simp add: root_store_def)
  moreover have "state_of root_store ''root'' = Some (initial_state the_root sha_a)"
    by (simp add: state_of_def root_store_def)
  moreover have "state_ok the_root sha_a (initial_state the_root sha_a)" by (rule initial_state_ok [OF the_root_ok])
  ultimately show ?thesis
    by (simp add: wf_store_def entry_ok_def root_grant root_fields link_ok_def)
qed

lemma the_delegation:
  "validate_child (env_digest the_env) the_root (initial_state the_root sha_a) the_child = Inr ()"
  using instant_day by (simp add: validate_child_def initial_state_def scope_set_def the_child_def the_root_def
    not_less)

lemma the_registration:
  "register_checked the_env root_store (grant_json the_child) (Some ''root'') = Inr (the_child, None)"
proof -
  have files: "verify_binding (env_files the_env) (g_source_approval the_child) = Inr (Some (JObj []))"
    "verify_binding (env_files the_env) (g_policy_snapshot the_child) = Inr (Some (JObj []))" by code_simp+
  have st: "map_of (st_grants root_store) ''child'' = None" "state_of root_store ''child'' = None"
    "map_of (st_grants root_store) ''root'' = Some (grant_json the_root, sha_a)"
    "state_of root_store ''root'' = Some (initial_state the_root sha_a)"
    by (simp_all add: root_store_def state_of_def)
  have "gs_grant_sha256 (initial_state the_root sha_a) = sha_a" by (simp add: initial_state_def)
  then have "load_grant the_env root_store ''root'' = Inr (the_root, sha_a, initial_state the_root sha_a)"
    by (simp add: load_grant_def st the_root_ok effective_root_grant_state_def root_fields)
  then have "check_new_grant the_env root_store (Some (JObj [])) the_child = Inr ()"
    by (simp add: check_new_grant_def child_fields the_delegation)
  then show ?thesis using files st the_child_ok by (simp add: register_checked_def child_fields)
qed

end
