(* ===== verification/Workspace.thy ===== *)
theory Workspace
  imports Reservation
begin

text \<open>
  The artifacts below \<^verbatim>\<open>.task/authorization\<close> as one state: decisions, reservations, the receipts
  and events that settle them, verifications and execution results, next to the grant store. Each
  directory maps the stem of a file name to the typed document and, where other artifacts bind it,
  the digest of its bytes. The theory also holds the bound lookups (\<^verbatim>\<open>load_bound_decision\<close>,
  \<^verbatim>\<open>load_reservation\<close>) and the validation of stored reservations.
\<close>

subsection \<open>File bytes\<close>

text \<open>\<^verbatim>\<open>json.dumps(value, ensure_ascii=False, indent=2, sort_keys=True)\<close> on a document in key order\<close>

definition newline :: "nat \<Rightarrow> string" where
  "newline n = CHR 0x0A # replicate n (CHR '' '')"

fun dumps_indent :: "nat \<Rightarrow> json \<Rightarrow> string" where
  "dumps_indent n (JList xs) =
     (if xs = [] then ''[]''
      else ''['' @ newline (n + 2) @ join ('','' @ newline (n + 2)) (map (dumps_indent (n + 2)) xs)
           @ newline n @ '']'')"
| "dumps_indent n (JObj d) =
     (if d = [] then ''{}''
      else ''{'' @ newline (n + 2)
           @ join ('','' @ newline (n + 2)) (map (\<lambda>(k, v). quote k @ '': '' @ dumps_indent (n + 2) v) d)
           @ newline n @ ''}'')"
| "dumps_indent n v = dumps v"

text \<open>The digest of the file that \<^verbatim>\<open>write_immutable_json\<close> and \<^verbatim>\<open>write_json_atomic\<close> write\<close>

definition file_digest :: "env \<Rightarrow> obj \<Rightarrow> string" where
  "file_digest E d = env_sha256 E (utf8 (dumps_indent 0 (canon (JObj d)) @ [CHR 0x0A]))"

subsection \<open>References\<close>

definition artifact_ref :: "string \<Rightarrow> string \<Rightarrow> string" where
  "artifact_ref directory stem = ''.task/authorization/'' @ directory @ ''/'' @ stem @ ''.json''"

definition state_ref :: "sref \<Rightarrow> string" where
  "state_ref r = (case r of Grant_ref i \<Rightarrow> artifact_ref ''state/grants'' i
     | Reservation_ref i \<Rightarrow> artifact_ref ''state/reservations'' i)"

text \<open>An existing file of one of the directories, by its workspace-relative reference\<close>

definition find_ref :: "string \<Rightarrow> 'v dir \<Rightarrow> string \<Rightarrow> (string \<times> 'v) res" where
  "find_ref directory d ref =
     (case List.find (\<lambda>e. artifact_ref directory (fst e) = strip ref) d of
        None \<Rightarrow> fail Missing
      | Some e \<Rightarrow> Inr e)"

subsection \<open>Documents\<close>

definition rstate_json :: "rstate \<Rightarrow> obj" where
  "rstate_json s =
    [(''schema_version'', JInt 2), (''artifact_kind'', JStr ''authority_reservation_state''),
     (''reservation_id'', JStr (rs_reservation_id s)),
     (''status'', JStr (enum_name RESERVATION_STATUSES (rs_status s))),
     (''version'', JInt (rs_version s)), (''last_event_id'', JStr (rs_last_event_id s))]"

definition pstate_json :: "pstate \<Rightarrow> json" where
  "pstate_json s = (case s of GS g \<Rightarrow> JObj (gstate_json g) | RS r \<Rightarrow> JObj (rstate_json r))"

definition change_json :: "(sref, pstate) change \<Rightarrow> json" where
  "change_json c = JObj
    [(''ref'', JStr (state_ref (ch_ref c))),
     (''before'', (case ch_before c of None \<Rightarrow> JNull | Some s \<Rightarrow> pstate_json s)),
     (''after'', pstate_json (ch_after c))]"

definition grant_use_json :: "grant_use \<Rightarrow> json" where
  "grant_use_json u = JObj
    [(''grant_id'', JStr (gu_grant_id u)), (''grant_sha256'', JStr (gu_grant_sha256 u)),
     (''units'', JInt (gu_units u)), (''state_version_before'', JInt (gu_state_version_before u)),
     (''state_version_after'', JInt (gu_state_version_after u))]"

definition reservation_json :: "reservation \<Rightarrow> obj" where
  "reservation_json rv =
    [(''schema_version'', JInt 2), (''artifact_kind'', JStr ''authority_reservation''),
     (''reservation_id'', JStr (rv_reservation_id rv)), (''request_id'', JStr (rv_request_id rv)),
     (''request_sha256'', JStr (rv_request_sha256 rv)), (''decision'', binding_json (rv_decision rv)),
     (''effective_authority_fingerprint'', JStr (rv_fingerprint rv)),
     (''grant_uses'', JList (map grant_use_json (rv_grant_uses rv))),
     (''state_changes'', JList (map change_json (rv_state_changes rv))),
     (''reserved_at'', JStr (isoformat (rv_reserved_at rv))),
     (''idempotency_key'', JStr (rv_idempotency_key rv))]"

record use_receipt =
  ur_receipt_id :: string
  ur_reservation :: binding
  ur_execution_result :: binding
  ur_typed :: "(binding \<times> binding) option" \<comment> \<open>owner result and pre-commit verification\<close>
  ur_consumed_at :: datetime
  ur_grant_versions_after :: "(string \<times> int) list"
  ur_state_changes :: "(sref, pstate) change list"
  ur_idempotency_key :: string

datatype effect_status = Not_started | Verified_no_effect | Unknown_effect

record release_receipt =
  rr_receipt_id :: string
  rr_reservation :: binding
  rr_no_effect_evidence :: binding
  rr_effect_status :: effect_status
  rr_release_applied :: bool
  rr_released_at :: datetime
  rr_idempotency_key :: string
  rr_state_changes :: "(sref, pstate) change list"

datatype outcome = Confirmed_effect | Confirmed_no_effect | Still_unknown

record reconciliation_receipt =
  qr_receipt_id :: string
  qr_reservation :: binding
  qr_effect_evidence :: binding
  qr_pre_commit_verification :: "binding option"
  qr_outcome :: outcome
  qr_reconciled_at :: datetime
  qr_grant_versions_after :: "(string \<times> int) list"
  qr_idempotency_key :: string
  qr_state_changes :: "(sref, pstate) change list"

datatype transition = To_revoked | To_suspended | To_expired | To_reactivated

record transition_event =
  te_event_id :: string
  te_root_grant_id :: string
  te_transition :: transition
  te_source_approval :: binding
  te_transitioned_at :: string
  te_affected_before :: "(string \<times> grant_status \<times> int) list"
  te_affected_grant_ids :: "string list"
  te_state_changes :: "(sref, pstate) change list"

record grant_view =
  gv_grant_id :: string
  gv_grant_sha256 :: string
  gv_state_version :: int
  gv_status :: grant_status
  gv_remaining_uses :: "int option"
  gv_reserved_uses :: int

record verification =
  vf_stage :: string
  vf_reservation :: binding
  vf_state_ref :: string
  vf_state_sha256 :: string
  vf_state_version :: int
  vf_state_status :: reservation_status
  vf_grant_states :: "grant_view list"
  vf_request_id :: string
  vf_fingerprint :: string
  vf_verified_at :: datetime

text \<open>Schema version 3 is the one with an owner validation\<close>

record execution_result =
  er_reservation :: binding
  er_pre_commit_verification :: binding
  er_owner_result :: binding
  er_owner_validation :: "binding option"
  er_subject_before :: subject
  er_subject_after :: binding
  er_expected_subject_after :: string
  er_completed_at :: datetime

record evidence =
  ev_reservation :: binding
  ev_operation :: "string list"
  ev_subject_before :: subject
  ev_observed_subject :: binding
  ev_outcome :: outcome
  ev_owner_result :: "binding option"
  ev_observed_at :: datetime

subsection \<open>The workspace\<close>

record ws =
  ws_store :: store
  ws_decisions :: "(string \<times> decision_artifact \<times> string) dir"
  ws_reservations :: "(reservation \<times> string) dir"
  ws_use_receipts :: "use_receipt dir"
  ws_release_receipts :: "release_receipt dir"
  ws_reconciliation_receipts :: "reconciliation_receipt dir"
  ws_events :: "transition_event dir"
  ws_verifications :: "(string \<times> verification \<times> string) dir"
  ws_execution_results :: "(string \<times> execution_result \<times> string) dir"
  ws_evidence :: "(string \<times> evidence \<times> string) dir"

definition proj :: "ws \<Rightarrow> sref \<Rightarrow> pstate option" where
  "proj w = st_proj (ws_store w)"

definition set_proj :: "(sref \<Rightarrow> pstate option) \<Rightarrow> ws \<Rightarrow> ws" where
  "set_proj p w = w\<lparr>ws_store := (ws_store w)\<lparr>st_proj := p\<rparr>\<rparr>"

definition rstate_of :: "ws \<Rightarrow> string \<Rightarrow> rstate option" where
  "rstate_of w rid = (case proj w (Reservation_ref rid) of Some (RS s) \<Rightarrow> Some s | _ \<Rightarrow> None)"

subsection \<open>Bound decisions and stored reservations\<close>

definition load_bound_decision ::
  "env \<Rightarrow> ws \<Rightarrow> string \<Rightarrow> string \<Rightarrow> (string \<times> string \<times> decision_artifact) res" where
  "load_bound_decision E w ref digest =
     bindE (find_ref ''decisions'' (ws_decisions w) ref) (\<lambda>(k, did, a, sha).
     if sha \<noteq> digest then fail DigestMismatch
     else if da_request_sha256 a \<noteq> env_digest E (JObj (request_json (da_request a))) then fail BadBinding
     else if da_evaluation_context_sha256 a \<noteq> env_digest E (JObj (eval_context_json (da_evaluation_context a)))
     then fail BadBinding
     else Inr (k, did, a))"

text \<open>\<^verbatim>\<open>load_bound_json\<close> on a decision binding\<close>

definition bound_decision :: "ws \<Rightarrow> binding \<Rightarrow> (string \<times> string \<times> decision_artifact) res" where
  "bound_decision w b =
     (if \<not> binding_ok b then fail BadBinding
      else bindE (find_ref ''decisions'' (ws_decisions w) (b_ref b)) (\<lambda>(k, did, a, sha).
        if sha \<noteq> b_sha256 b then fail DigestMismatch else Inr (k, did, a)))"

text \<open>\<^verbatim>\<open>validate_decision_artifact\<close> at a path: the file name is the decision identifier\<close>

definition validate_decision_at ::
  "env \<Rightarrow> store \<Rightarrow> string \<Rightarrow> string \<Rightarrow> decision_artifact \<Rightarrow> unit res" where
  "validate_decision_at E st k did a =
     (if \<not> is_identifier did then fail BadIdentifier
      else if k \<noteq> did then fail BadPath
      else validate_decision_artifact E st did a)"

text \<open>\<^verbatim>\<open>_validate_decision\<close>\<close>

definition validate_reserved_decision ::
  "env \<Rightarrow> store \<Rightarrow> string \<Rightarrow> string \<Rightarrow> decision_artifact \<Rightarrow> grant_binding list res" where
  "validate_reserved_decision E st k did a =
     bindE (validate_decision_at E st k did a) (\<lambda>_.
     if da_decision a \<noteq> Allowed then fail NotReservable
     else let bindings = da_selected_grants a @ da_lineage_grants a in
       bindE (mapE (\<lambda>gid. bindE (load_grant_artifact st gid) (\<lambda>x.
                if root_grant_request_binding_covers (env_digest E) (fst x) (da_request a)
                then Inr () else fail Forged)) (sort (map gb_grant_id bindings))) (\<lambda>_.
       Inr bindings))"

text \<open>The exact grant change of an intent: the states before and after, both valid for the grant\<close>

definition grant_change :: "store \<Rightarrow> (sref, pstate) change list \<Rightarrow> string \<Rightarrow> (gstate \<times> gstate) res" where
  "grant_change st cs gid =
     bindE (load_grant_artifact st gid) (\<lambda>x.
     case change_at cs (Grant_ref gid) of
       None \<Rightarrow> fail Missing
     | Some c \<Rightarrow>
         (case (ch_before c, ch_after c) of
            (Some (GS before), GS after) \<Rightarrow>
              if \<not> grant_state_ok (fst x) (snd x) before \<or> \<not> grant_state_ok (fst x) (snd x) after
              then fail BadAccounting else Inr (before, after)
          | _ \<Rightarrow> fail Missing))"

definition validate_use ::
  "store \<Rightarrow> reservation \<Rightarrow> request \<Rightarrow> grant_binding list \<Rightarrow> grant_use \<Rightarrow> unit res" where
  "validate_use st rv r bindings u =
     bindE (load_grant_artifact st (gu_grant_id u)) (\<lambda>x.
     if snd x \<noteq> gu_grant_sha256 u then fail DigestMismatch
     else case List.find (\<lambda>b. gb_grant_id b = gu_grant_id u) bindings of
       None \<Rightarrow> Inl KeyError
     | Some b \<Rightarrow>
         if gb_grant_sha256 b \<noteq> snd x \<or> gb_state_version b \<noteq> gu_state_version_before u
            \<or> gu_units u \<noteq> reservation_units r
         then fail BadBinding
         else bindE (grant_change st (rv_state_changes rv) (gu_grant_id u)) (\<lambda>(before, after).
           if gs_status before \<noteq> Active \<or> gs_version before \<noteq> gu_state_version_before u
              \<or> after \<noteq> reserved_gstate (rv_reservation_id rv) (gu_units u) before
              \<or> gs_version after \<noteq> gu_state_version_after u
           then fail Forged else Inr ()))"

definition grant_use_ok :: "grant_use \<Rightarrow> bool" where
  "grant_use_ok u = (is_identifier (gu_grant_id u) \<and> is_sha (gu_grant_sha256 u) \<and> 0 < gu_units u
     \<and> 0 \<le> gu_state_version_before u \<and> gu_state_version_after u = gu_state_version_before u + 1)"

text \<open>\<^verbatim>\<open>intent_changes\<close>: some changes, no state twice\<close>

definition intent_changes :: "(sref, pstate) change list \<Rightarrow> unit res" where
  "intent_changes cs =
     (if cs = [] then fail BadList else if \<not> distinct (map ch_ref cs) then fail Conflict else Inr ())"

definition validate_reservation :: "env \<Rightarrow> ws \<Rightarrow> string \<Rightarrow> reservation \<Rightarrow> unit res" where
  "validate_reservation E w k rv =
     (let st = ws_store w; uses = rv_grant_uses rv; cs = rv_state_changes rv; rid = rv_reservation_id rv in
      if \<not> is_identifier rid then fail BadIdentifier
      else if k \<noteq> rid then fail BadPath
      else if \<not> is_identifier (rv_idempotency_key rv) then fail BadIdentifier
      else
      bindE (bound_decision w (rv_decision rv)) (\<lambda>(dk, did, a).
      bindE (validate_reserved_decision E st dk did a) (\<lambda>bindings.
      if rid \<noteq> reservation_id (env_digest E) (da_request_sha256 a) (rv_idempotency_key rv)
      then fail DigestMismatch
      else if rv_request_id rv \<noteq> rq_request_id (da_request a)
              \<or> rv_request_sha256 rv \<noteq> da_request_sha256 a \<or> rv_fingerprint rv \<noteq> da_fingerprint a
      then fail BadBinding
      else if uses = [] then fail BadList
      else if \<not> list_all grant_use_ok uses then fail BadInteger
      else if \<not> distinct (map gu_grant_id uses) then fail Conflict
      else if set (map gu_grant_id uses) \<noteq> set (map gb_grant_id bindings) then fail Conflict
      else
      bindE (intent_changes cs) (\<lambda>_.
      bindE (mapE (validate_use st rv (da_request a) bindings) uses) (\<lambda>_.
      if (case change_at cs (Reservation_ref rid) of
            None \<Rightarrow> True
          | Some c \<Rightarrow> ch_before c \<noteq> None \<or> ch_after c \<noteq> RS (reserved_rstate rid))
         \<or> set (map ch_ref cs) \<noteq> set (Reservation_ref rid # map (\<lambda>u. Grant_ref (gu_grant_id u)) uses)
      then fail Forged else Inr ())))))"

text \<open>\<^verbatim>\<open>load_bound_reservation\<close>\<close>

definition load_bound_reservation :: "env \<Rightarrow> ws \<Rightarrow> binding \<Rightarrow> reservation res" where
  "load_bound_reservation E w b =
     (if \<not> binding_ok b then fail BadBinding
      else bindE (find_ref ''reservations'' (ws_reservations w) (b_ref b)) (\<lambda>(k, rv, sha).
        if sha \<noteq> b_sha256 b then fail DigestMismatch
        else bindE (validate_reservation E w k rv) (\<lambda>_.
          if strip (b_ref b) \<noteq> artifact_ref ''reservations'' (rv_reservation_id rv) then fail BadPath
          else Inr rv)))"

text \<open>\<^verbatim>\<open>load_reservation\<close> of the lifecycle, with the current state\<close>

definition load_reservation :: "env \<Rightarrow> ws \<Rightarrow> string \<Rightarrow> string \<Rightarrow> (string \<times> reservation \<times> rstate) res" where
  "load_reservation E w ref digest =
     bindE (find_ref ''reservations'' (ws_reservations w) ref) (\<lambda>(k, rv, sha).
     if sha \<noteq> digest then fail DigestMismatch
     else bindE (validate_reservation E w k rv) (\<lambda>_.
       case rstate_of w (rv_reservation_id rv) of
         None \<Rightarrow> fail Missing
       | Some s \<Rightarrow> Inr (k, rv, s)))"

end
