(* ===== verification/Execution_Results.thy ===== *)
theory Execution_Results
  imports Workspace
begin

text \<open>
  The evidence that settles a reservation: pre-commit verifications and typed execution results
  (\<^verbatim>\<open>execution_results.py\<close>), the receipts of registered owners (\<^verbatim>\<open>registered_release.py\<close>, with the
  registry of \<^verbatim>\<open>owner_validator_registry.py\<close>) and reconciliation evidence
  (\<^verbatim>\<open>projection_reconciliation.py\<close>). The validators of the owners run in other processes and are
  parameters, the fields of \<open>owner\<close>.
\<close>

subsection \<open>Owners\<close>

record owner_receipt =
  or_outcome :: string
  or_subject_ref :: string
  or_subject_after_sha256 :: string
  or_owner_result :: "binding option"
  or_pre_commit_verification :: "binding option"
  or_receipt_sha256 :: string

text \<open>
  \<open>ow_read\<close> reads and bounds a receipt (\<^verbatim>\<open>read_bound_owner_validation_receipt\<close>); \<open>ow_validate\<close> checks
  its envelope against request, owner result, reservation and verification
  (\<^verbatim>\<open>validate_owner_validation_receipt\<close>, historical phase); \<open>ow_invoke\<close> runs the registered validator
  of the owner.
\<close>

record owner =
  ow_read :: "binding \<Rightarrow> owner_receipt res"
  ow_validate :: "owner_receipt \<Rightarrow> request \<Rightarrow> binding \<Rightarrow> binding \<Rightarrow> binding \<Rightarrow> unit res"
  ow_invoke :: "request \<Rightarrow> binding \<Rightarrow> binding \<Rightarrow> binding \<Rightarrow> owner_receipt res"

definition OWNER_VALIDATORS :: "string list list" where
  "OWNER_VALIDATORS =
    [[''manage-task-state-index'', ''2.0.0'', ''mutate_task_state_index'', ''1''],
     [''orchestrate-task-cycle'', ''2.0.0'', ''publish_selected_successor_topology'', ''1''],
     [''orchestrate-task-cycle'', ''2.0.0'', ''settle_selected_successor_task_state'', ''1''],
     [''orchestrate-task-cycle'', ''2.0.0'', ''apply_selection_publication_retention'', ''1''],
     [''orchestrate-task-cycle'', ''2.0.0'', ''restore_selection_publication_retention'', ''1'']]"

definition owner_operation :: "request \<Rightarrow> string list res" where
  "owner_operation r =
     (let identity = [rq_skill_id r, rq_skill_version r, rq_operation_id r, rq_operation_version r] in
      if [] \<in> set identity then fail BadIdentifier else Inr identity)"

definition registered_release_required :: "env \<Rightarrow> ws \<Rightarrow> reservation \<Rightarrow> bool res" where
  "registered_release_required E w rv =
     bindE (load_bound_decision E w (b_ref (rv_decision rv)) (b_sha256 (rv_decision rv))) (\<lambda>(_, _, a).
     bindE (owner_operation (da_request a)) (\<lambda>identity. Inr (identity \<in> set OWNER_VALIDATORS)))"

definition owner_validation_ref :: "owner_receipt \<Rightarrow> string" where
  "owner_validation_ref c =
     ''.task/authorization/owner_validations/owner-validation-'' @ or_receipt_sha256 c @ ''.json''"

definition load_owner_validation_receipt ::
  "owner \<Rightarrow> binding \<Rightarrow> request \<Rightarrow> binding \<Rightarrow> binding \<Rightarrow> binding \<Rightarrow> owner_receipt res" where
  "load_owner_validation_receipt W b r owner_result rb pre_commit =
     bindE (ow_read W b) (\<lambda>c.
     bindE (ow_validate W c r owner_result rb pre_commit) (\<lambda>_.
     if b_ref b \<noteq> owner_validation_ref c then fail BadPath else Inr c))"

subsection \<open>Pre-commit verifications\<close>

definition grant_view_json :: "grant_view \<Rightarrow> json" where
  "grant_view_json v = JObj
    [(''grant_id'', JStr (gv_grant_id v)), (''grant_sha256'', JStr (gv_grant_sha256 v)),
     (''state_version'', JInt (gv_state_version v)),
     (''status'', JStr (enum_name GRANT_STATUSES (gv_status v))),
     (''remaining_uses'', opt_int (gv_remaining_uses v)), (''reserved_uses'', JInt (gv_reserved_uses v))]"

definition verification_core :: "verification \<Rightarrow> obj" where
  "verification_core v =
    [(''schema_version'', JInt 2), (''artifact_kind'', JStr ''authority_verification''),
     (''stage'', JStr (vf_stage v)), (''reservation'', binding_json (vf_reservation v)),
     (''reservation_state'', JObj
        [(''ref'', JStr (vf_state_ref v)), (''sha256'', JStr (vf_state_sha256 v)),
         (''version'', JInt (vf_state_version v)),
         (''status'', JStr (enum_name RESERVATION_STATUSES (vf_state_status v)))]),
     (''grant_states'', JList (map grant_view_json (vf_grant_states v))),
     (''request_id'', JStr (vf_request_id v)),
     (''effective_authority_fingerprint'', JStr (vf_fingerprint v)),
     (''verified_at'', JStr (isoformat (vf_verified_at v)))]"

definition verification_id :: "(json \<Rightarrow> string) \<Rightarrow> verification \<Rightarrow> string" where
  "verification_id H v = ''authv-'' @ take 24 (H (JObj (verification_core v)))"

definition validate_pre_commit_verification ::
  "env \<Rightarrow> ws \<Rightarrow> reservation \<Rightarrow> binding \<Rightarrow> binding \<Rightarrow> int \<Rightarrow> bool \<Rightarrow> verification res" where
  "validate_pre_commit_verification E w rv rb b expected_version require_current_state =
     bindE (find_ref ''verifications'' (ws_verifications w) (b_ref b)) (\<lambda>(k, vid, v, sha).
     let expected_id = verification_id (env_digest E) v; ref = Reservation_ref (rv_reservation_id rv) in
     if sha \<noteq> b_sha256 b then fail DigestMismatch
     else if vf_stage v \<noteq> ''pre_commit'' then fail BadContract
     else if vid \<noteq> expected_id \<or> b_ref b \<noteq> artifact_ref ''verifications'' expected_id then fail BadPath
     else if vf_reservation v \<noteq> rb then fail BadBinding
     else if vf_state_ref v \<noteq> state_ref ref \<or> vf_state_version v \<noteq> expected_version
             \<or> vf_state_status v \<noteq> Rs_reserved \<or> vf_request_id v \<noteq> rv_request_id rv
             \<or> vf_fingerprint v \<noteq> rv_fingerprint rv
     then fail CasConflict
     else if require_current_state
     then (case rstate_of w (rv_reservation_id rv) of
             None \<Rightarrow> fail Missing
           | Some s \<Rightarrow> if file_digest E (rstate_json s) \<noteq> vf_state_sha256 v then fail Stale else Inr v)
     else Inr v)"

definition resolve_pre_commit_verification ::
  "env \<Rightarrow> ws \<Rightarrow> reservation \<Rightarrow> binding \<Rightarrow> binding option \<Rightarrow> int \<Rightarrow> binding res" where
  "resolve_pre_commit_verification E w rv rb b expected_version =
     (case b of
        None \<Rightarrow> fail Missing
      | Some vb \<Rightarrow>
          bindE (validate_pre_commit_verification E w rv rb vb expected_version True) (\<lambda>_. Inr vb))"

subsection \<open>Execution results\<close>

definition execution_result_core :: "execution_result \<Rightarrow> obj" where
  "execution_result_core x =
    [(''schema_version'', JInt (if er_owner_validation x = None then 2 else 3)),
     (''artifact_kind'', JStr ''authority_execution_result''),
     (''reservation'', binding_json (er_reservation x)),
     (''pre_commit_verification'', binding_json (er_pre_commit_verification x)),
     (''owner_result'', binding_json (er_owner_result x))]
    @ (case er_owner_validation x of None \<Rightarrow> [] | Some b \<Rightarrow> [(''owner_validation'', binding_json b)])
    @ [(''effect_status'', JStr ''confirmed_effect''),
       (''subject_before'', subject_json (er_subject_before x)),
       (''subject_after'', binding_json (er_subject_after x)),
       (''expected_subject_after_sha256'', JStr (er_expected_subject_after x)),
       (''completed_at'', JStr (isoformat (er_completed_at x)))]"

definition result_id :: "(json \<Rightarrow> string) \<Rightarrow> execution_result \<Rightarrow> string" where
  "result_id H x = ''authr-'' @ take 24 (H (JObj (execution_result_core x)))"

text \<open>The document is an object; the owner's schema stays opaque\<close>

definition read_bound_object :: "files \<Rightarrow> binding \<Rightarrow> obj res" where
  "read_bound_object fs b =
     bindE (verify_binding fs b) (\<lambda>doc. case doc of Some (JObj d) \<Rightarrow> Inr d | _ \<Rightarrow> fail NotAnObject)"

text \<open>
  \<^verbatim>\<open>write_immutable_json\<close>: an existing file with other bytes conflicts, one with the same bytes is
  left alone
\<close>

definition publish_immutable :: "string \<Rightarrow> 'v \<Rightarrow> 'v dir \<Rightarrow> 'v dir res" where
  "publish_immutable k v d =
     (case map_of d k of
        None \<Rightarrow> Inr (dput k v d)
      | Some e \<Rightarrow> if e = v then Inr d else fail Conflict)"

definition result_after ::
  "env \<Rightarrow> owner \<Rightarrow> decision_artifact \<Rightarrow> binding \<Rightarrow> binding \<Rightarrow> binding \<Rightarrow> string option \<Rightarrow> binding option
   \<Rightarrow> binding res" where
  "result_after E W a rb vb owner_result expected_after owner_validation =
     (let subject_before = rq_subject (da_request a) in
      case owner_validation of
        None \<Rightarrow>
          bindE (read_file (env_files E) (sub_ref subject_before)) (\<lambda>x.
          case expected_after of
            None \<Rightarrow> fail Missing
          | Some expected \<Rightarrow>
              if fst x \<noteq> expected then fail Stale
              else Inr \<lparr>b_ref = sub_ref subject_before, b_sha256 = fst x\<rparr>)
      | Some ov \<Rightarrow>
          bindE (load_owner_validation_receipt W ov (da_request a) owner_result rb vb) (\<lambda>c.
          if or_outcome c \<noteq> ''confirmed_effect'' then fail BadEvidence
          else Inr \<lparr>b_ref = or_subject_ref c, b_sha256 = or_subject_after_sha256 c\<rparr>))"

definition create_execution_result ::
  "env \<Rightarrow> owner \<Rightarrow> ws \<Rightarrow> decision_artifact \<Rightarrow> binding \<Rightarrow> binding \<Rightarrow> binding \<Rightarrow> json \<Rightarrow> string option
   \<Rightarrow> binding option \<Rightarrow> (binding \<times> ws) res" where
  "create_execution_result E W w a rb vb owner_result completed_at expected_after owner_validation =
     bindE (read_bound_object (env_files E) owner_result) (\<lambda>_.
     bindE (result_after E W a rb vb owner_result expected_after owner_validation) (\<lambda>after.
     bindE (parse_time completed_at) (\<lambda>t.
     let x = \<lparr>er_reservation = rb, er_pre_commit_verification = vb, er_owner_result = owner_result,
              er_owner_validation = owner_validation, er_subject_before = rq_subject (da_request a),
              er_subject_after = after, er_expected_subject_after = b_sha256 after,
              er_completed_at = t\<rparr>;
         rid = result_id (env_digest E) x;
         sha = file_digest E ((''result_id'', JStr rid) # execution_result_core x) in
     bindE (publish_immutable rid (rid, x, sha) (ws_execution_results w)) (\<lambda>d.
     Inr (\<lparr>b_ref = artifact_ref ''execution_results'' rid, b_sha256 = sha\<rparr>,
          w\<lparr>ws_execution_results := d\<rparr>)))))"

definition validate_execution_result ::
  "env \<Rightarrow> owner \<Rightarrow> ws \<Rightarrow> binding \<Rightarrow> reservation \<Rightarrow> binding \<Rightarrow> binding \<Rightarrow> subject \<Rightarrow> execution_result res" where
  "validate_execution_result E W w b rv rb vb expected_subject_before =
     bindE (find_ref ''execution_results'' (ws_execution_results w) (b_ref b)) (\<lambda>(k, rid, x, sha).
     let expected_id = result_id (env_digest E) x in
     if sha \<noteq> b_sha256 b then fail DigestMismatch
     else if rid \<noteq> expected_id \<or> b_ref b \<noteq> artifact_ref ''execution_results'' expected_id
             \<or> er_reservation x \<noteq> rb \<or> er_pre_commit_verification x \<noteq> vb
     then fail BadBinding
     else if er_subject_before x \<noteq> expected_subject_before then fail BadBinding
     else if b_sha256 (er_subject_after x) \<noteq> er_expected_subject_after x
             \<or> (er_owner_validation x = None \<and> b_ref (er_subject_after x) \<noteq> sub_ref (er_subject_before x))
     then fail BadEvidence
     else
     bindE (verify_binding (env_files E) (er_owner_result x)) (\<lambda>_.
     case er_owner_validation x of
       None \<Rightarrow> Inr x
     | Some ov \<Rightarrow>
         bindE (find_ref ''decisions'' (ws_decisions w) (b_ref (rv_decision rv))) (\<lambda>(_, _, a, dsha).
         if dsha \<noteq> b_sha256 (rv_decision rv) then fail DigestMismatch
         else
         bindE (load_owner_validation_receipt W ov (da_request a) (er_owner_result x) rb vb) (\<lambda>c.
         if or_outcome c \<noteq> ''confirmed_effect'' \<or> or_subject_after_sha256 c \<noteq> er_expected_subject_after x
            \<or> or_subject_ref c \<noteq> b_ref (er_subject_after x)
         then fail BadEvidence else Inr x))))"

subsection \<open>Registered owners\<close>

definition validate_registered_owner_receipt ::
  "env \<Rightarrow> owner \<Rightarrow> ws \<Rightarrow> reservation \<Rightarrow> binding \<Rightarrow> binding \<Rightarrow> int \<Rightarrow> bool \<Rightarrow> string list
   \<Rightarrow> (binding \<times> binding) option \<Rightarrow> owner_receipt res" where
  "validate_registered_owner_receipt E W w rv rb owner_validation expected_version require_current_state
       expected_outcomes inputs =
     bindE (load_bound_decision E w (b_ref (rv_decision rv)) (b_sha256 (rv_decision rv))) (\<lambda>(_, _, a).
     bindE (owner_operation (da_request a)) (\<lambda>identity.
     if identity \<notin> set OWNER_VALIDATORS then fail BadRoute
     else
     bindE (ow_read W owner_validation) (\<lambda>c.
     bindE (case inputs of
              Some i \<Rightarrow> Inr i
            | None \<Rightarrow> (case (or_owner_result c, or_pre_commit_verification c) of
                (Some x, Some y) \<Rightarrow> Inr (x, y) | _ \<Rightarrow> fail Missing)) (\<lambda>(owner_result, pre_commit).
     bindE (ow_validate W c (da_request a) owner_result rb pre_commit) (\<lambda>_.
     bindE (validate_pre_commit_verification E w rv rb pre_commit expected_version require_current_state)
       (\<lambda>_.
     bindE (ow_invoke W (da_request a) owner_result rb pre_commit) (\<lambda>recomputed.
     if recomputed \<noteq> c then fail Stale
     else if or_outcome c \<notin> set expected_outcomes then fail BadEvidence
     else Inr c)))))))"

definition validate_registered_release ::
  "env \<Rightarrow> owner \<Rightarrow> ws \<Rightarrow> reservation \<Rightarrow> binding \<Rightarrow> binding \<Rightarrow> effect_status \<Rightarrow> int \<Rightarrow> bool \<Rightarrow> unit res" where
  "validate_registered_release E W w rv rb evidence_binding status expected_version require_current_state =
     (case status of
        Not_started \<Rightarrow> fail BadRoute
      | Verified_no_effect \<Rightarrow>
          bindE (validate_registered_owner_receipt E W w rv rb evidence_binding expected_version
            require_current_state [''confirmed_no_effect''] None) (\<lambda>_. Inr ())
      | Unknown_effect \<Rightarrow>
          bindE (validate_registered_owner_receipt E W w rv rb evidence_binding expected_version
            require_current_state [''unknown_effect''] None) (\<lambda>_. Inr ()))"

subsection \<open>Reconciliation evidence\<close>

definition OUTCOMES :: "(string \<times> outcome) list" where
  "OUTCOMES = [(''confirmed_effect'', Confirmed_effect), (''confirmed_no_effect'', Confirmed_no_effect),
     (''still_unknown'', Still_unknown)]"

definition evidence_core :: "evidence \<Rightarrow> obj" where
  "evidence_core e =
    [(''schema_version'', JInt 2), (''artifact_kind'', JStr ''authority_effect_reconciliation_evidence''),
     (''reservation'', binding_json (ev_reservation e)),
     (''operation'', JObj (zip [''skill_id'', ''skill_version'', ''operation_id'', ''operation_version'']
        (map JStr (ev_operation e)))),
     (''subject_before'', subject_json (ev_subject_before e)),
     (''observed_subject'', binding_json (ev_observed_subject e)),
     (''outcome'', JStr (enum_name OUTCOMES (ev_outcome e))),
     (''owner_result'', opt_binding_json (ev_owner_result e)),
     (''observed_at'', JStr (isoformat (ev_observed_at e)))]"

definition evidence_id :: "(json \<Rightarrow> string) \<Rightarrow> evidence \<Rightarrow> string" where
  "evidence_id H e = ''authe-'' @ take 24 (H (JObj (evidence_core e)))"

text \<open>An owner result is typed when it names its schema version and its kind\<close>

definition typed_owner_result :: "obj \<Rightarrow> bool" where
  "typed_owner_result d =
     ((case jat d ''schema_version'' of JInt _ \<Rightarrow> True | JBool _ \<Rightarrow> True | _ \<Rightarrow> False) \<and>
      (case jat d ''artifact_kind'' of JStr s \<Rightarrow> s \<noteq> [] | _ \<Rightarrow> False))"

definition settled_owner_result :: "files \<Rightarrow> binding option \<Rightarrow> outcome \<Rightarrow> unit res" where
  "settled_owner_result fs b out =
     (case (out, b) of
        (Still_unknown, None) \<Rightarrow> Inr ()
      | (Still_unknown, Some _) \<Rightarrow> fail BadEvidence
      | (_, None) \<Rightarrow> fail BadEvidence
      | (_, Some x) \<Rightarrow>
          if \<not> binding_ok x then fail BadBinding
          else bindE (read_bound_object fs x) (\<lambda>d.
            if typed_owner_result d then Inr () else fail BadEvidence))"

definition validate_reconciliation_evidence ::
  "env \<Rightarrow> ws \<Rightarrow> binding \<Rightarrow> reservation \<Rightarrow> binding \<Rightarrow> outcome \<Rightarrow> bool \<Rightarrow> unit res" where
  "validate_reconciliation_evidence E w b rv rb out require_current_subject =
     (if \<not> binding_ok b then fail BadBinding
      else bindE (find_ref ''reconciliation_evidence'' (ws_evidence w) (b_ref b)) (\<lambda>(k, eid, e, sha).
      if sha \<noteq> b_sha256 b then fail DigestMismatch
      else if eid \<noteq> evidence_id (env_digest E) e
              \<or> strip (b_ref b) \<noteq> artifact_ref ''reconciliation_evidence'' (evidence_id (env_digest E) e)
              \<or> ev_reservation e \<noteq> rb \<or> ev_outcome e \<noteq> out
      then fail BadEvidence
      else
      bindE (bound_decision w (rv_decision rv)) (\<lambda>(_, _, a).
      let r = da_request a; observed = ev_observed_subject e in
      if ev_operation e \<noteq> [rq_skill_id r, rq_skill_version r, rq_operation_id r, rq_operation_version r]
         \<or> ev_subject_before e \<noteq> rq_subject r
      then fail BadBinding
      else if b_ref observed \<noteq> sub_ref (rq_subject r) \<or> \<not> is_sha (b_sha256 observed) then fail BadBinding
      else if out = Confirmed_no_effect \<and> b_sha256 observed \<noteq> sub_digest (rq_subject r)
      then fail BadEvidence
      else
      bindE (if require_current_subject then verify_file_binding (env_files E) observed else Inr ()) (\<lambda>_.
      settled_owner_result (env_files E) (ev_owner_result e) out))))"

end
