(* ===== verification/Descendants.thy ===== *)
theory Descendants
  imports Workspace
begin

text \<open>
  The grants below a grant. A terminal transition affects all of them:
  \<^verbatim>\<open>descendant_ids\<close> of \<^verbatim>\<open>artifact_store.py\<close> computes the list when the transition is published,
  \<^verbatim>\<open>_descendants\<close> of \<^verbatim>\<open>projection_transitions.py\<close> when it is validated again during recovery. The
  first follows parent links without remembering what it met; the second reports a circular
  lineage.
\<close>

type_synonym parents = "(string \<times> string option) list"

definition children :: "parents \<Rightarrow> string \<Rightarrow> string list" where
  "children pm parent = sort (map fst (filter (\<lambda>e. snd e = Some parent) pm))"

text \<open>
  The loop of \<^verbatim>\<open>descendant_ids\<close>. Without a cycle every grant enters the frontier once, so one round
  per grant and one for the start suffice; running out of rounds means that the loop of the code
  does not end.
\<close>

fun descendants_loop :: "nat \<Rightarrow> parents \<Rightarrow> string list \<Rightarrow> string list \<Rightarrow> string list res" where
  "descendants_loop n pm acc [] = Inr acc"
| "descendants_loop 0 pm acc (p # frontier) = Inl NoReturn"
| "descendants_loop (Suc n) pm acc (p # frontier) =
     descendants_loop n pm (acc @ children pm p) (frontier @ children pm p)"

definition parents_of :: "grant_record list \<Rightarrow> parents" where
  "parents_of recs = map (\<lambda>r. (g_grant_id (fst r), g_parent_grant_id (fst r))) recs"

definition descendant_ids :: "env \<Rightarrow> store \<Rightarrow> string \<Rightarrow> string list res" where
  "descendant_ids E st gid =
     bindE (list_grants E st None) (\<lambda>recs.
     let pm = parents_of recs in descendants_loop (Suc (length pm)) pm [] [gid])"

text \<open>\<^verbatim>\<open>_all_grants\<close>: every grant document, under its own name\<close>

definition all_grants :: "store \<Rightarrow> (string \<times> grant) list res" where
  "all_grants st =
     mapE (\<lambda>gid. case map_of (st_grants st) gid of
        None \<Rightarrow> fail Missing
      | Some (d, _) \<Rightarrow>
          bindE (validate_grant d) (\<lambda>g.
          if g_grant_id g \<noteq> gid then fail Conflict else Inr (gid, g))) (grant_ids st)"

text \<open>The loop of \<^verbatim>\<open>_descendants\<close>; its inner loop raises at the first child that was seen\<close>

fun visit_children :: "string list \<Rightarrow> string list \<Rightarrow> string list res" where
  "visit_children seen [] = Inr seen"
| "visit_children seen (c # cs) =
     (if c \<in> set seen then fail Circular else visit_children (c # seen) cs)"

lemma set_children: "set (children pm p) = {c. (c, Some p) \<in> set pm}"
  by (force simp: children_def)

lemma visit_children_seen:
  "visit_children seen cs = Inr seen' \<Longrightarrow>
   set seen' = set seen \<union> set cs \<and> distinct cs \<and> set cs \<inter> set seen = {}"
  by (induction seen cs rule: visit_children.induct) (auto split: if_splits)

function descendants_seen :: "parents \<Rightarrow> string list \<Rightarrow> string list \<Rightarrow> string list \<Rightarrow> string list res" where
  "descendants_seen pm acc seen [] = Inr acc"
| "descendants_seen pm acc seen (p # frontier) =
     bindE (visit_children seen (children pm p)) (\<lambda>seen'.
     descendants_seen pm (acc @ children pm p) seen' (frontier @ children pm p))"
  by pat_completeness auto

termination
proof (relation "measure (\<lambda>(pm, acc, seen, frontier). card (fst ` set pm - set seen) + length frontier)")
  fix pm acc seen p frontier seen'
  assume "visit_children seen (children pm p) = Inr seen'"
  from visit_children_seen [OF this] have s: "set seen' = set seen \<union> set (children pm p)"
    and d: "distinct (children pm p)" "set (children pm p) \<inter> set seen = {}" by simp_all
  have sub: "set (children pm p) \<subseteq> fst ` set pm - set seen" using d(2) by (force simp: set_children)
  have "fst ` set pm - set seen' = (fst ` set pm - set seen) - set (children pm p)" using s by auto
  then have "card (fst ` set pm - set seen') = card (fst ` set pm - set seen) - length (children pm p)"
    using sub d(1) by (simp add: card_Diff_subset distinct_card)
  moreover have "length (children pm p) \<le> card (fst ` set pm - set seen)"
    using card_mono [OF _ sub] d(1) by (simp add: distinct_card)
  ultimately show "((pm, acc @ children pm p, seen', frontier @ children pm p), pm, acc, seen, p # frontier)
      \<in> measure (\<lambda>(pm, acc, seen, frontier). card (fst ` set pm - set seen) + length frontier)"
    by simp
qed simp

definition descendants_checked :: "(string \<times> grant) list \<Rightarrow> string \<Rightarrow> string list res" where
  "descendants_checked grants gid =
     descendants_seen (map (\<lambda>e. (fst e, g_parent_grant_id (snd e))) grants) [] [gid] [gid]"

subsection \<open>Both walks agree on a forest\<close>

text \<open>
  Without duplicate names and with a measure that falls from parent to child, the queue of the walk
  is the tail of everything found, so no grant is met twice.
\<close>

definition forest :: "parents \<Rightarrow> (string \<Rightarrow> nat) \<Rightarrow> bool" where
  "forest pm r \<longleftrightarrow> distinct (map fst pm) \<and> (\<forall>c p. (c, Some p) \<in> set pm \<longrightarrow> r c < r p)"

text \<open>The state of a walk from \<open>gid\<close>: what was found, split into the visited part and the queue\<close>

definition walk_ok :: "parents \<Rightarrow> (string \<Rightarrow> nat) \<Rightarrow> string \<Rightarrow> string list \<Rightarrow> string list \<Rightarrow> string list \<Rightarrow> bool" where
  "walk_ok pm r gid acc visited frontier \<longleftrightarrow>
     gid # acc = visited @ frontier \<and> distinct (gid # acc) \<and> (\<forall>c \<in> set acc. r c < r gid) \<and>
     set acc = {c. \<exists>p \<in> set visited. (c, Some p) \<in> set pm}"

lemma distinct_children: "distinct (map fst pm) \<Longrightarrow> distinct (children pm p)"
  by (simp add: children_def distinct_map_filter)

lemma parent_unique: "distinct (map fst pm) \<Longrightarrow> (c, x) \<in> set pm \<Longrightarrow> (c, y) \<in> set pm \<Longrightarrow> x = y"
  by (rule eq_key_imp_eq_value)

lemma walk_step:
  assumes "forest pm r" and "walk_ok pm r gid acc visited (p # frontier)"
  shows "walk_ok pm r gid (acc @ children pm p) (visited @ [p]) (frontier @ children pm p)"
    and "set (children pm p) \<inter> set (gid # acc) = {}"
proof -
  from assms(1) have f: "distinct (map fst pm)" "\<And>c p. (c, Some p) \<in> set pm \<Longrightarrow> r c < r p"
    by (simp_all add: forest_def)
  from assms(2) have w: "gid # acc = visited @ p # frontier" "distinct (gid # acc)" "\<And>c. c \<in> set acc \<Longrightarrow> r c < r gid"
      "set acc = {c. \<exists>p \<in> set visited. (c, Some p) \<in> set pm}"
    by (unfold walk_ok_def) blast+
  have p: "p = gid \<or> p \<in> set acc" using w(1) by (metis in_set_conv_decomp set_ConsD)
  have pn: "p \<notin> set visited" using w(1,2) by (metis disjoint_iff distinct_append list.set_intros(1))
  have down: "r c < r gid" if "c \<in> set (children pm p)" for c
    using that f(2) [of c p] p w(3) [of p] by (auto simp: set_children)
  have new: "c \<notin> set acc" if "c \<in> set (children pm p)" for c
  proof
    assume "c \<in> set acc"
    with w(4) obtain q where "q \<in> set visited" "(c, Some q) \<in> set pm" by auto
    with that parent_unique [OF f(1)] pn show False by (auto simp: set_children)
  qed
  show disj: "set (children pm p) \<inter> set (gid # acc) = {}" using new down by auto
  have "gid # (acc @ children pm p) = (visited @ [p]) @ (frontier @ children pm p)" using w(1) by simp
  moreover have "distinct (gid # (acc @ children pm p))"
    using w(2) disj distinct_children [OF f(1), of p] by auto
  moreover have "set (acc @ children pm p) = {c. \<exists>q \<in> set (visited @ [p]). (c, Some q) \<in> set pm}"
    using w(4) by (auto simp: set_children)
  ultimately show "walk_ok pm r gid (acc @ children pm p) (visited @ [p]) (frontier @ children pm p)"
    using w(3) down unfolding walk_ok_def by auto
qed

lemma walk_length:
  assumes "forest pm r" and "walk_ok pm r gid acc visited frontier"
  shows "length visited + length frontier \<le> Suc (length pm)"
proof -
  from assms(2) have "set acc \<subseteq> fst ` set pm" "distinct acc" "length visited + length frontier = Suc (length acc)"
    by (force simp: walk_ok_def dest: arg_cong [where f = length])+
  moreover from this have "length acc \<le> length pm"
    by (metis card_image_le card_length card_mono distinct_card finite_imageI finite_set le_trans)
  ultimately show ?thesis by simp
qed

lemma descendants_loop_result:
  assumes "forest pm r" and "walk_ok pm r gid acc visited frontier" and "Suc (length pm) \<le> n + length visited"
  shows "\<exists>ds visited'. descendants_loop n pm acc frontier = Inr ds \<and> walk_ok pm r gid ds visited' []"
  using assms
proof (induction n pm acc frontier arbitrary: visited rule: descendants_loop.induct)
  case (2 pm acc p frontier)
  from walk_length [OF "2.prems"(1,2)] "2.prems"(3) show ?case by simp
next
  case (3 n pm acc p frontier)
  from "3.IH" [OF "3.prems"(1) walk_step(1) [OF "3.prems"(1,2)]] "3.prems"(3) show ?case by simp
qed auto

lemma visit_children_fresh:
  "distinct cs \<Longrightarrow> set cs \<inter> set seen = {} \<Longrightarrow> visit_children seen cs = Inr (rev cs @ seen)"
  by (induction cs arbitrary: seen) auto

lemma descendants_seen_result:
  assumes "forest pm r" and "walk_ok pm r gid acc visited frontier" and "set seen = set (gid # acc)"
    and "descendants_loop n pm acc frontier = Inr ds"
  shows "descendants_seen pm acc seen frontier = Inr ds"
  using assms
proof (induction n pm acc frontier arbitrary: visited seen rule: descendants_loop.induct)
  case (3 n pm acc p frontier)
  note step = walk_step [OF "3.prems"(1,2)]
  have "visit_children seen (children pm p) = Inr (rev (children pm p) @ seen)"
    using step(2) "3.prems"(1,3) by (intro visit_children_fresh) (auto simp: forest_def distinct_children)
  with "3.IH" [OF "3.prems"(1) step(1), of "rev (children pm p) @ seen"] "3.prems"(3,4) show ?case by auto
qed auto

text \<open>Both walks return the descendants, each once\<close>

lemma walks_agree:
  assumes "forest pm r"
  obtains ds where "descendants_loop (Suc (length pm)) pm [] [gid] = Inr ds"
    "descendants_seen pm [] [gid] [gid] = Inr ds" "distinct (gid # ds)" "\<And>c. c \<in> set ds \<Longrightarrow> r c < r gid"
    "\<And>c. c \<in> set ds \<longleftrightarrow> (\<exists>p \<in> set (gid # ds). (c, Some p) \<in> set pm)"
proof -
  have start: "walk_ok pm r gid [] [] [gid]" by (simp add: walk_ok_def)
  from descendants_loop_result [OF assms start, of "Suc (length pm)"] obtain ds visited where
    ds: "descendants_loop (Suc (length pm)) pm [] [gid] = Inr ds" "walk_ok pm r gid ds visited []"
    by (auto simp del: descendants_loop.simps)
  from descendants_seen_result [OF assms start _ ds(1)] have "descendants_seen pm [] [gid] [gid] = Inr ds" by simp
  moreover from ds(2) have "gid # ds = visited" "distinct (gid # ds)" "\<And>c. c \<in> set ds \<Longrightarrow> r c < r gid"
    "set ds = {c. \<exists>p \<in> set visited. (c, Some p) \<in> set pm}" unfolding walk_ok_def by (elim conjE; simp)+
  ultimately show thesis using ds(1) by (intro that) blast+
qed

subsection \<open>Well-formed stores\<close>

definition issuer_rank_of :: "store \<Rightarrow> string \<Rightarrow> nat" where
  "issuer_rank_of st gid = (case grant_of st gid of None \<Rightarrow> 0 | Some (g, _) \<Rightarrow> rank_value (g_issuer_rank g))"

definition parent_links :: "store \<Rightarrow> parents" where
  "parent_links st = map (\<lambda>gid. (gid, case grant_of st gid of None \<Rightarrow> None | Some (g, _) \<Rightarrow> g_parent_grant_id g)) (grant_ids st)"

lemma set_grant_ids [simp]: "set (grant_ids st) = fst ` set (st_grants st)"
  by (simp add: grant_ids_def)

lemma wf_store_grant:
  assumes "wf_store st" and "gid \<in> fst ` set (st_grants st)"
  obtains g sha where "grant_of st gid = Some (g, sha)" "g_grant_id g = gid" "link_ok st g"
  using assms by (fastforce simp: wf_store_def list_all_iff entry_ok_def split: option.splits)

lemma parent_links_forest:
  assumes "wf_store st" and "distinct (map fst (st_grants st))"
  shows "forest (parent_links st) (issuer_rank_of st)"
  unfolding forest_def
proof (intro conjI allI impI)
  have "mset (grant_ids st) = mset (map fst (st_grants st))" by (simp add: grant_ids_def)
  then have "distinct (grant_ids st)" using assms(2) by (metis mset_eq_imp_distinct_iff)
  then show "distinct (map fst (parent_links st))" by (simp add: parent_links_def comp_def)
next
  fix c p assume "(c, Some p) \<in> set (parent_links st)"
  then obtain g sha where c: "c \<in> fst ` set (st_grants st)" "grant_of st c = Some (g, sha)" "g_parent_grant_id g = Some p"
    by (force simp: parent_links_def split: option.splits)
  from assms(1) c(1) obtain g' sha' where "grant_of st c = Some (g', sha')" "link_ok st g'" by (rule wf_store_grant)
  with c show "issuer_rank_of st c < issuer_rank_of st p"
    by (auto simp: link_ok_def issuer_rank_of_def split: option.splits)
qed

lemma list_grants_parents:
  assumes "wf_store st" and "list_grants E st None = Inr recs"
  shows "parents_of recs = parent_links st"
proof -
  from assms(2) obtain xss where x: "mapE (list_one E st None) (grant_ids st) = Inr xss" "recs = concat xss"
    by (auto simp: list_grants_def result_simps)
  have "parents_of (concat xss) = map (\<lambda>gid. (gid, case grant_of st gid of None \<Rightarrow> None | Some (g, _) \<Rightarrow> g_parent_grant_id g)) gids"
    if "list_all2 (\<lambda>gid xs. list_one E st None gid = Inr xs) gids xss" "set gids \<subseteq> fst ` set (st_grants st)" for gids
    using that
  proof (induction gids xss rule: list_all2_induct)
    case (Cons gid gids xs xss)
    then obtain g sha s where l: "load_grant E st gid = Inr (g, sha, s)" "xs = [(g, sha, s)]"
      by (auto simp: list_one_def result_simps)
    from Cons.prems have "gid \<in> fst ` set (st_grants st)" by simp
    with assms(1) obtain g' sha' where "grant_of st gid = Some (g', sha')" "g_grant_id g' = gid" by (rule wf_store_grant)
    with l load_grant_grant_of [OF l(1)] Cons show ?case by (simp add: parents_of_def)
  qed (simp add: parents_of_def)
  from this [OF x(1) [unfolded mapE_eq_Inr]] x(2) show ?thesis by (simp add: parent_links_def)
qed

lemma all_grants_wf:
  assumes "wf_store st"
  shows "all_grants st = Inr (map (\<lambda>gid. (gid, fst (the (grant_of st gid)))) (grant_ids st))"
proof -
  have one: "(case map_of (st_grants st) gid of
        None \<Rightarrow> fail Missing
      | Some (d, _) \<Rightarrow>
          bindE (validate_grant d) (\<lambda>g.
          if g_grant_id g \<noteq> gid then fail Conflict else Inr (gid, g))) = Inr (gid, fst (the (grant_of st gid)))"
    if "gid \<in> fst ` set (st_grants st)" for gid
  proof -
    from assms that obtain g sha where "grant_of st gid = Some (g, sha)" "g_grant_id g = gid" by (rule wf_store_grant)
    then show ?thesis by (auto simp: grant_of_def split: option.splits sum.splits)
  qed
  show ?thesis unfolding all_grants_def mapE_eq_Inr
    by (simp add: list_all2_map2 list_all2_same one)
qed

text \<open>The published list of affected grants is the list that recovery computes again\<close>

lemma descendant_walks:
  assumes "wf_store st" and "distinct (map fst (st_grants st))" and "list_grants E st None = Inr recs"
  obtains ds where "descendant_ids E st gid = Inr ds"
    "\<And>grants. all_grants st = Inr grants \<Longrightarrow> descendants_checked grants gid = Inr ds"
    "distinct (gid # ds)" "set ds \<subseteq> fst ` set (st_grants st)"
    "\<And>c. c \<in> set ds \<longleftrightarrow> (\<exists>p \<in> set (gid # ds). (c, Some p) \<in> set (parent_links st))"
proof -
  from walks_agree [OF parent_links_forest [OF assms(1,2)], of gid] obtain ds where
    ds: "descendants_loop (Suc (length (parent_links st))) (parent_links st) [] [gid] = Inr ds"
      "descendants_seen (parent_links st) [] [gid] [gid] = Inr ds" "distinct (gid # ds)"
      "\<And>c. c \<in> set ds \<longleftrightarrow> (\<exists>p \<in> set (gid # ds). (c, Some p) \<in> set (parent_links st))" by metis
  have pm: "map (\<lambda>e. (fst e, g_parent_grant_id (snd e))) (map (\<lambda>gid. (gid, fst (the (grant_of st gid)))) (grant_ids st))
      = parent_links st"
  proof -
    have "g_parent_grant_id (fst (the (grant_of st gid))) =
        (case grant_of st gid of None \<Rightarrow> None | Some (g, _) \<Rightarrow> g_parent_grant_id g)"
      if "gid \<in> fst ` set (st_grants st)" for gid
      using assms(1) that by (rule wf_store_grant) simp
    then show ?thesis by (simp add: parent_links_def)
  qed
  have "descendant_ids E st gid = Inr ds"
    using assms(3) ds(1) list_grants_parents [OF assms(1,3)] by (simp add: descendant_ids_def Let_def)
  moreover have "descendants_checked grants gid = Inr ds" if "all_grants st = Inr grants" for grants
    using that ds(2) pm by (simp add: all_grants_wf [OF assms(1)] descendants_checked_def del: map_map)
  moreover have "set ds \<subseteq> fst ` set (st_grants st)"
  proof
    fix c assume "c \<in> set ds"
    then obtain p where "(c, Some p) \<in> set (parent_links st)" using ds(4) [of c] by blast
    then show "c \<in> fst ` set (st_grants st)" by (auto simp: parent_links_def)
  qed
  ultimately show thesis by (rule that [OF _ _ ds(3) _ ds(4)])
qed

text \<open>On a forest a set that contains exactly the children of \<open>gid\<close> and of its members is the set of all descendants\<close>

definition child_links :: "parents \<Rightarrow> (string \<times> string) set" where
  "child_links pm = {(p, c). (c, Some p) \<in> set pm}"

lemma forest_closure:
  assumes "forest pm r" and cl: "\<And>c. c \<in> D \<longleftrightarrow> (\<exists>p \<in> insert gid D. (c, Some p) \<in> set pm)"
  shows "c \<in> D \<longleftrightarrow> (gid, c) \<in> (child_links pm)\<^sup>+"
proof
  have "child_links pm \<subseteq> (\<lambda>e. (the (snd e), fst e)) ` set pm" by (force simp: child_links_def)
  then have "finite (child_links pm)" by (rule finite_subset) simp
  moreover have "acyclic (child_links pm)"
  proof -
    have "child_links pm \<subseteq> (measure r)\<inverse>" using assms(1) by (auto simp: child_links_def forest_def)
    moreover have "acyclic ((measure r)\<inverse>)" by (simp add: wf_acyclic)
    ultimately show ?thesis by (rule acyclic_subset [rotated])
  qed
  ultimately have wf: "wf (child_links pm)" by (rule finite_acyclic_wf)
  show "c \<in> D \<Longrightarrow> (gid, c) \<in> (child_links pm)\<^sup>+"
    using wf
  proof (induction c rule: wf_induct_rule)
    case (less c)
    then obtain p where p: "p \<in> insert gid D" "(p, c) \<in> child_links pm" using cl [of c] by (auto simp: child_links_def)
    with less.IH show ?case by (auto intro: trancl_into_trancl)
  qed
  show "(gid, c) \<in> (child_links pm)\<^sup>+ \<Longrightarrow> c \<in> D"
  proof (induction rule: trancl_induct)
    case (base c)
    then show ?case using cl [THEN iffD2, of c] by (auto simp: child_links_def)
  next
    case (step p c)
    then show ?case using cl [THEN iffD2, of c] by (auto simp: child_links_def)
  qed
qed

end
