(* ===== verification/Intents.thy ===== *)
theory Intents
  imports Execution_Results Descendants
begin

text \<open>
  Validation of the published intents, and recovery of the whole workspace. Before any new action
  the code validates every reservation, receipt and transition event again
  (\<^verbatim>\<open>projection_receipts.py\<close>, \<^verbatim>\<open>projection_reconciliation.py\<close>, \<^verbatim>\<open>projection_transitions.py\<close>) and
  finishes the interrupted ones (\<^verbatim>\<open>_load_intents\<close> and \<^verbatim>\<open>recover_projection_intents\<close> of
  \<^verbatim>\<open>projection_recovery.py\<close>).
\<close>

subsection \<open>State updates\<close>

definition consumed_gstate :: "string \<Rightarrow> int \<Rightarrow> gstate \<Rightarrow> gstate" where
  "consumed_gstate event units s =
     (let new_remaining = map_option (\<lambda>r. r - units) (gs_remaining_uses s) in
      s\<lparr>gs_remaining_uses := new_remaining, gs_reserved_uses := gs_reserved_uses s - units,
        gs_consumed_uses := gs_consumed_uses s + units,
        gs_status := (if new_remaining = Some 0 then Exhausted else Active),
        gs_version := gs_version s + 1, gs_last_event_id := Some event\<rparr>)"

definition released_gstate :: "string \<Rightarrow> int \<Rightarrow> gstate \<Rightarrow> gstate" where
  "released_gstate event units s =
     s\<lparr>gs_reserved_uses := gs_reserved_uses s - units, gs_version := gs_version s + 1,
       gs_last_event_id := Some event\<rparr>"

definition transition_gstate :: "string \<Rightarrow> grant_status \<Rightarrow> gstate \<Rightarrow> gstate" where
  "transition_gstate event status s =
     s\<lparr>gs_status := status, gs_version := gs_version s + 1, gs_last_event_id := Some event\<rparr>"

definition settled_rstate :: "string \<Rightarrow> reservation_status \<Rightarrow> rstate \<Rightarrow> rstate" where
  "settled_rstate event status s =
     s\<lparr>rs_status := status, rs_version := rs_version s + 1, rs_last_event_id := event\<rparr>"

definition release_status :: "effect_status \<Rightarrow> reservation_status" where
  "release_status e = (if e = Unknown_effect then Rs_quarantined else Rs_released)"

definition outcome_status :: "outcome \<Rightarrow> reservation_status" where
  "outcome_status out = (case out of Confirmed_effect \<Rightarrow> Rs_consumed
     | Confirmed_no_effect \<Rightarrow> Rs_released | Still_unknown \<Rightarrow> Rs_quarantined)"

definition transition_status :: "transition \<Rightarrow> grant_status" where
  "transition_status t = (case t of To_revoked \<Rightarrow> Revoked | To_suspended \<Rightarrow> Suspended
     | To_expired \<Rightarrow> Expired | To_reactivated \<Rightarrow> Active)"

definition terminal_transition :: "transition \<Rightarrow> bool" where
  "terminal_transition t = (t \<in> {To_revoked, To_expired})"

text \<open>The status a grant must have for a transition that starts at it\<close>

definition transition_source_ok :: "transition \<Rightarrow> grant_status \<Rightarrow> bool" where
  "transition_source_ok t s =
     (case t of To_reactivated \<Rightarrow> s = Suspended | To_suspended \<Rightarrow> s = Active
      | _ \<Rightarrow> s \<in> {Active, Suspended})"

text \<open>The identifier of a receipt is the digest of the reservation and the idempotency key\<close>

definition settlement_id :: "(json \<Rightarrow> string) \<Rightarrow> string \<Rightarrow> string \<Rightarrow> string \<Rightarrow> string" where
  "settlement_id H prefix reservation_sha key =
     prefix @ take 24 (H (JObj [(''reservation'', JStr reservation_sha), (''key'', JStr key)]))"

subsection \<open>Reservation states\<close>

definition validate_reservation_state :: "string \<Rightarrow> rstate \<Rightarrow> bool" where
  "validate_reservation_state rid s =
     (rs_reservation_id s = rid \<and> 0 \<le> rs_version s \<and> is_identifier (rs_last_event_id s))"

definition reservation_change :: "(sref, pstate) change list \<Rightarrow> string \<Rightarrow> (rstate \<times> rstate) res" where
  "reservation_change cs rid =
     (case change_at cs (Reservation_ref rid) of
        None \<Rightarrow> fail Missing
      | Some c \<Rightarrow>
          (case (ch_before c, ch_after c) of
             (Some (RS before), RS after) \<Rightarrow>
               if \<not> validate_reservation_state rid before \<or> \<not> validate_reservation_state rid after
               then fail BadContract else Inr (before, after)
           | _ \<Rightarrow> fail Missing))"

definition use_refs :: "grant_use list \<Rightarrow> sref list" where
  "use_refs uses = map (\<lambda>u. Grant_ref (gu_grant_id u)) uses"

text \<open>\<^verbatim>\<open>_require_exact_terminal_projection\<close>\<close>

definition exact_terminal :: "ws \<Rightarrow> (sref, pstate) change list \<Rightarrow> bool" where
  "exact_terminal w cs = list_all (\<lambda>c. proj w (ch_ref c) = Some (ch_after c)) cs"

subsection \<open>Use receipts\<close>

definition validate_typed_use_receipt ::
  "env \<Rightarrow> owner \<Rightarrow> ws \<Rightarrow> bool \<Rightarrow> use_receipt \<Rightarrow> reservation \<Rightarrow> binding \<Rightarrow> binding \<Rightarrow> bool res" where
  "validate_typed_use_receipt E W w legacy ur rv owner_result pre_commit =
     (let rb = ur_reservation ur in
      bindE (bound_decision w (rv_decision rv)) (\<lambda>(_, _, a).
      bindE (validate_pre_commit_verification E w rv rb pre_commit 0 False) (\<lambda>_.
      bindE (validate_execution_result E W w (ur_execution_result ur) rv rb pre_commit
               (rq_subject (da_request a))) (\<lambda>x.
      if er_owner_result x \<noteq> owner_result then fail BadBinding
      else
      bindE (registered_release_required E w rv) (\<lambda>registered.
      if \<not> registered then (if er_owner_validation x \<noteq> None then fail BadRoute else Inr False)
      else case er_owner_validation x of
        None \<Rightarrow> if legacy then Inr True else fail BadRoute
      | Some ov \<Rightarrow>
          bindE (validate_registered_owner_receipt E W w rv rb ov 0 False [''confirmed_effect'']
                   (Some (owner_result, pre_commit))) (\<lambda>_. Inr False))))))"

definition validate_use_settlement_evidence ::
  "env \<Rightarrow> owner \<Rightarrow> ws \<Rightarrow> bool \<Rightarrow> use_receipt \<Rightarrow> reservation \<Rightarrow> bool res" where
  "validate_use_settlement_evidence E W w legacy ur rv =
     (case ur_typed ur of
        Some (owner_result, pre_commit) \<Rightarrow>
          validate_typed_use_receipt E W w legacy ur rv owner_result pre_commit
      | None \<Rightarrow>
          bindE (registered_release_required E w rv) (\<lambda>registered.
          if registered \<and> \<not> legacy then fail BadRoute
          else bindE (verify_file_binding (env_files E) (ur_execution_result ur)) (\<lambda>_. Inr registered)))"

definition use_settled ::
  "store \<Rightarrow> (sref, pstate) change list \<Rightarrow> string \<Rightarrow> (string \<times> int) list \<Rightarrow> grant_use \<Rightarrow> unit res" where
  "use_settled st cs receipt_id versions u =
     bindE (grant_change st cs (gu_grant_id u)) (\<lambda>(before, after).
     if gs_reserved_uses before < gu_units u
        \<or> (case gs_remaining_uses before of None \<Rightarrow> False | Some rem \<Rightarrow> rem < gu_units u)
     then fail Insufficient
     else if gs_status before \<noteq> Active \<or> after \<noteq> consumed_gstate receipt_id (gu_units u) before
             \<or> map_of versions (gu_grant_id u) \<noteq> Some (gs_version after)
     then fail Forged else Inr ())"

definition validate_use_receipt ::
  "env \<Rightarrow> owner \<Rightarrow> ws \<Rightarrow> bool \<Rightarrow> string \<Rightarrow> use_receipt \<Rightarrow> unit res" where
  "validate_use_receipt E W w legacy k ur =
     (let st = ws_store w; cs = ur_state_changes ur; receipt_id = ur_receipt_id ur;
          versions = ur_grant_versions_after ur in
      if \<not> is_identifier receipt_id then fail BadIdentifier
      else if k \<noteq> receipt_id then fail BadPath
      else
      bindE (load_bound_reservation E w (ur_reservation ur)) (\<lambda>rv.
      if \<not> is_identifier (ur_idempotency_key ur) then fail BadIdentifier
      else if receipt_id \<noteq> settlement_id (env_digest E) ''authu-'' (b_sha256 (ur_reservation ur))
                (ur_idempotency_key ur)
      then fail DigestMismatch
      else
      bindE (validate_use_settlement_evidence E W w legacy ur rv) (\<lambda>registered_legacy.
      if set (map fst versions) \<noteq> set (map gu_grant_id (rv_grant_uses rv)) then fail BadList
      else
      bindE (intent_changes cs) (\<lambda>_.
      bindE (mapE (use_settled st cs receipt_id versions) (rv_grant_uses rv)) (\<lambda>_.
      bindE (reservation_change cs (rv_reservation_id rv)) (\<lambda>(before, after).
      if before \<noteq> reserved_rstate (rv_reservation_id rv)
         \<or> after \<noteq> settled_rstate receipt_id Rs_consumed before
         \<or> set (map ch_ref cs) \<noteq> set (Reservation_ref (rv_reservation_id rv) # use_refs (rv_grant_uses rv))
      then fail Forged
      else if registered_legacy \<and> \<not> exact_terminal w cs then fail NotSettled
      else Inr ()))))))"

subsection \<open>Release receipts\<close>

definition release_settled :: "store \<Rightarrow> (sref, pstate) change list \<Rightarrow> string \<Rightarrow> grant_use \<Rightarrow> unit res" where
  "release_settled st cs receipt_id u =
     bindE (grant_change st cs (gu_grant_id u)) (\<lambda>(before, after).
     if gs_reserved_uses before < gu_units u then fail Insufficient
     else if gs_status before \<noteq> Active \<or> after \<noteq> released_gstate receipt_id (gu_units u) before
     then fail Forged else Inr ())"

text \<open>\<^verbatim>\<open>_validate_registered_release_evidence\<close>\<close>

definition claims_owner_validation :: "binding \<Rightarrow> json option \<Rightarrow> bool" where
  "claims_owner_validation b doc =
     (starts_with (b_ref b) ''.task/authorization/owner_validations/owner-validation-''
      \<or> (case doc of Some (JObj d) \<Rightarrow> jat d ''artifact_kind'' = JStr ''owner_validation_receipt''
         | _ \<Rightarrow> False))"

definition validate_registered_release_evidence ::
  "env \<Rightarrow> owner \<Rightarrow> ws \<Rightarrow> bool \<Rightarrow> release_receipt \<Rightarrow> reservation \<Rightarrow> int \<Rightarrow> bool res" where
  "validate_registered_release_evidence E W w legacy rr rv expected_version =
     bindE (registered_release_required E w rv) (\<lambda>registered.
     if \<not> registered then Inr False
     else if \<not> binding_ok (rr_no_effect_evidence rr) then fail BadBinding
     else
     bindE (verify_binding (env_files E) (rr_no_effect_evidence rr)) (\<lambda>doc.
     if legacy \<and> \<not> claims_owner_validation (rr_no_effect_evidence rr) doc then Inr True
     else bindE (validate_registered_release E W w rv (rr_reservation rr) (rr_no_effect_evidence rr)
                   (rr_effect_status rr) expected_version False) (\<lambda>_. Inr False)))"

definition validate_release_receipt ::
  "env \<Rightarrow> owner \<Rightarrow> ws \<Rightarrow> bool \<Rightarrow> string \<Rightarrow> release_receipt \<Rightarrow> unit res" where
  "validate_release_receipt E W w legacy k rr =
     (let st = ws_store w; cs = rr_state_changes rr; receipt_id = rr_receipt_id rr;
          released = (rr_effect_status rr \<noteq> Unknown_effect) in
      if \<not> is_identifier receipt_id then fail BadIdentifier
      else if k \<noteq> receipt_id then fail BadPath
      else
      bindE (load_bound_reservation E w (rr_reservation rr)) (\<lambda>rv.
      if \<not> is_identifier (rr_idempotency_key rr) then fail BadIdentifier
      else if receipt_id \<noteq> settlement_id (env_digest E) ''authx-'' (b_sha256 (rr_reservation rr))
                (rr_idempotency_key rr)
      then fail DigestMismatch
      else
      bindE (registered_release_required E w rv) (\<lambda>registered.
      bindE (if registered then Inr () else verify_file_binding (env_files E) (rr_no_effect_evidence rr)) (\<lambda>_.
      if rr_release_applied rr \<noteq> released then fail BadContract
      else
      bindE (intent_changes cs) (\<lambda>_.
      bindE (if released then mapE (release_settled st cs receipt_id) (rv_grant_uses rv) else Inr []) (\<lambda>_.
      bindE (reservation_change cs (rv_reservation_id rv)) (\<lambda>(before, after).
      if before \<noteq> reserved_rstate (rv_reservation_id rv)
         \<or> after \<noteq> settled_rstate receipt_id (release_status (rr_effect_status rr)) before
         \<or> set (map ch_ref cs) \<noteq> set (Reservation_ref (rv_reservation_id rv)
             # (if released then use_refs (rv_grant_uses rv) else []))
      then fail Forged
      else
      bindE (validate_registered_release_evidence E W w legacy rr rv (rs_version before))
        (\<lambda>registered_legacy.
      if registered_legacy \<and> \<not> exact_terminal w cs then fail NotSettled else Inr ()))))))))"

subsection \<open>Reconciliation receipts\<close>

definition reconcile_gstate :: "outcome \<Rightarrow> string \<Rightarrow> int \<Rightarrow> gstate \<Rightarrow> gstate" where
  "reconcile_gstate out receipt_id units s =
     (if out = Confirmed_effect then consumed_gstate receipt_id units s else released_gstate receipt_id units s)"

definition reconcile_settled ::
  "store \<Rightarrow> (sref, pstate) change list \<Rightarrow> outcome \<Rightarrow> string \<Rightarrow> (string \<times> int) list \<Rightarrow> grant_use \<Rightarrow> unit res" where
  "reconcile_settled st cs out receipt_id versions u =
     bindE (grant_change st cs (gu_grant_id u)) (\<lambda>(before, after).
     if gs_status before \<noteq> Active \<or> gs_reserved_uses before < gu_units u then fail Insufficient
     else if after \<noteq> reconcile_gstate out receipt_id (gu_units u) before
             \<or> map_of versions (gu_grant_id u) \<noteq> Some (gs_version after)
     then fail Forged else Inr ())"

definition validate_reconciliation_receipt ::
  "env \<Rightarrow> ws \<Rightarrow> string \<Rightarrow> reconciliation_receipt \<Rightarrow> unit res" where
  "validate_reconciliation_receipt E w k qr =
     (let st = ws_store w; cs = qr_state_changes qr; receipt_id = qr_receipt_id qr; out = qr_outcome qr;
          versions = qr_grant_versions_after qr; rb = qr_reservation qr in
      if \<not> is_identifier receipt_id then fail BadIdentifier
      else if k \<noteq> receipt_id then fail BadPath
      else
      bindE (load_bound_reservation E w rb) (\<lambda>rv.
      if \<not> is_identifier (qr_idempotency_key qr) then fail BadIdentifier
      else if receipt_id \<noteq> settlement_id (env_digest E) ''authq-'' (b_sha256 rb) (qr_idempotency_key qr)
      then fail DigestMismatch
      else
      bindE (validate_reconciliation_evidence E w (qr_effect_evidence qr) rv rb out False) (\<lambda>_.
      bindE (case (out, qr_pre_commit_verification qr) of
               (Confirmed_effect, None) \<Rightarrow> fail Missing
             | (Confirmed_effect, Some vb) \<Rightarrow>
                 bindE (validate_pre_commit_verification E w rv rb vb 0 False) (\<lambda>_. Inr ())
             | (_, None) \<Rightarrow> Inr ()
             | (_, Some _) \<Rightarrow> fail BadEvidence) (\<lambda>_.
      if set (map fst versions) \<noteq> (if out \<noteq> Still_unknown then set (map gu_grant_id (rv_grant_uses rv)) else {})
      then fail BadList
      else
      bindE (intent_changes cs) (\<lambda>_.
      bindE (if out \<noteq> Still_unknown
             then mapE (reconcile_settled st cs out receipt_id versions) (rv_grant_uses rv)
             else Inr []) (\<lambda>_.
      bindE (reservation_change cs (rv_reservation_id rv)) (\<lambda>(before, after).
      if rs_status before \<noteq> Rs_quarantined
         \<or> after \<noteq> settled_rstate receipt_id (outcome_status out) before
         \<or> set (map ch_ref cs) \<noteq> set (Reservation_ref (rv_reservation_id rv)
             # (if out \<noteq> Still_unknown then use_refs (rv_grant_uses rv) else []))
      then fail Forged else Inr ())))))))"

subsection \<open>Transition events\<close>

definition transition_settled ::
  "store \<Rightarrow> transition_event \<Rightarrow> nat \<Rightarrow> string \<times> (string \<times> grant_status \<times> int) \<Rightarrow> unit res" where
  "transition_settled st te index x =
     (let target = fst x; rec = snd x in
      if fst rec \<noteq> target then fail BadBinding
      else if snd (snd rec) < 0 then fail BadInteger
      else
      bindE (grant_change st (te_state_changes te) target) (\<lambda>(before, after).
      if rec \<noteq> (target, gs_status before, gs_version before) then fail BadBinding
      else if after \<noteq> transition_gstate (te_event_id te) (transition_status (te_transition te)) before
      then fail Forged
      else if index = 0 \<and> \<not> transition_source_ok (te_transition te) (gs_status before)
      then fail BadTransition else Inr ()))"

definition expired_by :: "grant \<Rightarrow> datetime \<Rightarrow> bool" where
  "expired_by g at = (case g_expires_at g of None \<Rightarrow> False | Some e \<Rightarrow> instant e \<le> instant at)"

definition validate_transition :: "env \<Rightarrow> ws \<Rightarrow> string \<Rightarrow> transition_event \<Rightarrow> unit res" where
  "validate_transition E w k te =
     (let st = ws_store w; cs = te_state_changes te; root = te_root_grant_id te in
      if \<not> is_identifier (te_event_id te) then fail BadIdentifier
      else if k \<noteq> te_event_id te then fail BadPath
      else if \<not> is_identifier root then fail BadIdentifier
      else if \<not> binding_ok (te_source_approval te) then fail BadBinding
      else
      bindE (verify_binding (env_files E) (te_source_approval te)) (\<lambda>source.
      bindE (parse_time (JStr (te_transitioned_at te))) (\<lambda>at.
      bindE (all_grants st) (\<lambda>grants.
      case map_of grants root of
        None \<Rightarrow> fail Missing
      | Some g \<Rightarrow>
          bindE (env_source_for_transition E False source g (te_transitioned_at te)) (\<lambda>_.
          if te_transition te = To_expired \<and> \<not> expired_by g at then fail BadTime
          else if te_transition te = To_reactivated \<and> expired_by g at then fail BadTime
          else
          bindE (if terminal_transition (te_transition te) then descendants_checked grants root else Inr [])
            (\<lambda>below.
          let targets = root # below in
          if te_affected_grant_ids te \<noteq> targets then fail Forged
          else if length (te_affected_before te) \<noteq> length targets then fail BadList
          else
          bindE (intent_changes cs) (\<lambda>_.
          bindE (mapE (\<lambda>(i, x). transition_settled st te i x)
                   (zip [0..<length targets] (zip targets (te_affected_before te)))) (\<lambda>_.
          if set (map ch_ref cs) \<noteq> set (map Grant_ref targets) then fail Forged else Inr ()))))))))"

subsection \<open>Loading and recovering\<close>

text \<open>The entries of a directory in the order of \<^verbatim>\<open>sorted(path.iterdir())\<close>\<close>

definition entries :: "'v dir \<Rightarrow> (string \<times> 'v) list" where
  "entries d = sort_key (\<lambda>e. fst e @ ''.json'') d"

definition intent_path :: "string \<Rightarrow> string \<Rightarrow> string" where
  "intent_path directory k = directory @ ''/'' @ k"

definition reservation_intents :: "ws \<Rightarrow> (sref, pstate) intent list" where
  "reservation_intents w =
     map (\<lambda>(k, rv, _). (intent_path ''reservations'' k, rv_state_changes rv)) (entries (ws_reservations w))"

definition use_intents :: "ws \<Rightarrow> (sref, pstate) intent list" where
  "use_intents w =
     map (\<lambda>(k, ur). (intent_path ''use_receipts'' k, ur_state_changes ur)) (entries (ws_use_receipts w))"

definition release_intents :: "ws \<Rightarrow> (sref, pstate) intent list" where
  "release_intents w =
     map (\<lambda>(k, rr). (intent_path ''release_receipts'' k, rr_state_changes rr))
       (entries (ws_release_receipts w))"

definition reconciliation_intents :: "ws \<Rightarrow> (sref, pstate) intent list" where
  "reconciliation_intents w =
     map (\<lambda>(k, qr). (intent_path ''reconciliation_receipts'' k, qr_state_changes qr))
       (entries (ws_reconciliation_receipts w))"

definition event_intents :: "ws \<Rightarrow> (sref, pstate) intent list" where
  "event_intents w =
     map (\<lambda>(k, te). (intent_path ''events'' k, te_state_changes te)) (entries (ws_events w))"

text \<open>The intents in the order of \<^verbatim>\<open>INTENT_DIRECTORIES\<close>\<close>

definition intents_of :: "ws \<Rightarrow> (sref, pstate) intent list" where
  "intents_of w = reservation_intents w @ use_intents w @ release_intents w @ reconciliation_intents w
     @ event_intents w"

definition validate_intents :: "env \<Rightarrow> owner \<Rightarrow> ws \<Rightarrow> bool \<Rightarrow> unit res" where
  "validate_intents E W w legacy =
     bindE (mapE (\<lambda>(k, rv, _). validate_reservation E w k rv) (entries (ws_reservations w))) (\<lambda>_.
     bindE (mapE (\<lambda>(k, ur). validate_use_receipt E W w legacy k ur) (entries (ws_use_receipts w))) (\<lambda>_.
     bindE (mapE (\<lambda>(k, rr). validate_release_receipt E W w legacy k rr) (entries (ws_release_receipts w))) (\<lambda>_.
     bindE (mapE (\<lambda>(k, qr). validate_reconciliation_receipt E w k qr)
              (entries (ws_reconciliation_receipts w))) (\<lambda>_.
     bindE (mapE (\<lambda>(k, te). validate_transition E w k te) (entries (ws_events w))) (\<lambda>_.
     Inr ())))))"

definition load_intents :: "env \<Rightarrow> owner \<Rightarrow> ws \<Rightarrow> bool \<Rightarrow> (sref, pstate) intent list res" where
  "load_intents E W w legacy = bindE (validate_intents E W w legacy) (\<lambda>_. Inr (intents_of w))"

definition recover :: "env \<Rightarrow> owner \<Rightarrow> ws \<Rightarrow> string list res \<times> ws" where
  "recover E W w =
     (case load_intents E W w True of
        Inl e \<Rightarrow> (Inl e, w)
      | Inr intents \<Rightarrow>
          (let r = recover_projection_intents intents (proj w) in (fst r, set_proj (snd r) w)))"

text \<open>
  \<^verbatim>\<open>validated_settled_intent\<close>: all intents settled, and the one asked for valid without the
  compatibility for historical receipts; \<open>again\<close> is its validation
\<close>

definition validated_settled_intent :: "env \<Rightarrow> owner \<Rightarrow> ws \<Rightarrow> unit res \<Rightarrow> unit res" where
  "validated_settled_intent E W w again =
     bindE (load_intents E W w True) (\<lambda>intents.
     bindE (validated_settled_intents intents (proj w)) (\<lambda>_. again))"

end
