(* ===== verification/Lifecycle.thy ===== *)
theory Lifecycle
  imports Intents
begin

text \<open>
  The operations on a workspace: registering grants, publishing decisions and verifications,
  reserving, consuming, releasing and reconciling uses, and grant transitions (\<^verbatim>\<open>lifecycle.py\<close>,
  \<^verbatim>\<open>settlement_lifecycle.py\<close>, \<^verbatim>\<open>reconciliation.py\<close>, \<^verbatim>\<open>reconciliation_evidence.py\<close>,
  \<^verbatim>\<open>verification_publication.py\<close>, \<^verbatim>\<open>decision_publication.py\<close> and \<^verbatim>\<open>transition_grants\<close> of
  \<^verbatim>\<open>artifact_store.py\<close>). An operation returns its result or error together with the workspace it
  leaves, so a raise keeps the files written before it. Every operation runs under the authority
  lock, starts by recovering, and ends by publishing an intent and applying its changes.
\<close>

subsection \<open>State and errors\<close>

type_synonym 'a op = "'a res \<times> ws"

definition bindS :: "'a op \<Rightarrow> ('a \<Rightarrow> ws \<Rightarrow> 'b op) \<Rightarrow> 'b op" where
  "bindS m f = (case m of (Inl e, w) \<Rightarrow> (Inl e, w) | (Inr x, w) \<Rightarrow> f x w)"

text \<open>A check that only reads\<close>

definition liftS :: "'a res \<Rightarrow> ws \<Rightarrow> 'a op" where
  "liftS r w = (r, w)"

text \<open>Applying the changes of a published intent, then returning \<open>x\<close>\<close>

definition commit :: "(sref, pstate) change list \<Rightarrow> 'a \<Rightarrow> ws \<Rightarrow> 'a op" where
  "commit cs x w =
     (let r = apply_projection_changes cs (proj w) in (bindE (fst r) (\<lambda>_. Inr x), set_proj (snd r) w))"

subsection \<open>Grants and decisions\<close>

text \<open>\<^verbatim>\<open>_register_compiled_grant\<close> with its recovery\<close>

definition register_grant :: "env \<Rightarrow> owner \<Rightarrow> ws \<Rightarrow> obj \<Rightarrow> string option \<Rightarrow> grant_record op" where
  "register_grant E W w raw parent_id =
     bindS (liftS (bindE (validate_grant raw) (\<lambda>g.
        if parent_id \<noteq> g_parent_grant_id g then fail Conflict
        else bindE (verify_binding (env_files E) (g_source_approval g)) (\<lambda>_.
             bindE (verify_binding (env_files E) (g_policy_snapshot g)) (\<lambda>_. Inr ())))) w) (\<lambda>_ w.
     bindS (recover E W w) (\<lambda>_ w.
     let r = register_compiled_grant E (file_digest E) (ws_store w) raw parent_id in
     (fst r, w\<lparr>ws_store := snd r\<rparr>)))"

definition evaluate_and_publish :: "env \<Rightarrow> ws \<Rightarrow> obj \<Rightarrow> obj \<Rightarrow> json \<Rightarrow> (decision_artifact \<times> binding) op" where
  "evaluate_and_publish E w raw_request raw_context evaluated_at =
     bindS (liftS (evaluate E (ws_store w) raw_request raw_context evaluated_at) w) (\<lambda>a w.
     let did = decision_id (env_digest E) a;
         sha = file_digest E ((''decision_id'', JStr did) # decision_core a) in
     bindS (liftS (publish_immutable did (did, a, sha) (ws_decisions w)) w) (\<lambda>d w.
     (Inr (a, \<lparr>b_ref = artifact_ref ''decisions'' did, b_sha256 = sha\<rparr>), w\<lparr>ws_decisions := d\<rparr>)))"

subsection \<open>Reservation\<close>

definition load_reservable_decision ::
  "env \<Rightarrow> ws \<Rightarrow> string \<Rightarrow> string \<Rightarrow> string \<Rightarrow> (string \<times> decision_artifact \<times> string) res" where
  "load_reservable_decision E w ref digest key =
     bindE (load_bound_decision E w ref digest) (\<lambda>(k, did, a).
     bindE (validate_decision_at E (ws_store w) k did a) (\<lambda>_.
     if da_decision a \<noteq> Allowed \<or> da_selected_grants a = [] then fail NotReservable
     else Inr (k, a, reservation_id (env_digest E) (da_request_sha256 a) key)))"

text \<open>One pass of the loop over the records: the use and the change of the grant\<close>

definition reserve_one :: "string \<Rightarrow> int \<Rightarrow> grant_record \<Rightarrow> (grant_use \<times> (sref, pstate) change) res" where
  "reserve_one rid units x =
     (let g = fst x; s = snd (snd x) in
      if (case gs_remaining_uses s of None \<Rightarrow> False | Some rem \<Rightarrow> rem - gs_reserved_uses s < units)
      then fail Insufficient
      else Inr (\<lparr>gu_grant_id = g_grant_id g, gu_grant_sha256 = gs_grant_sha256 s, gu_units = units,
                 gu_state_version_before = gs_version s, gu_state_version_after = gs_version s + 1\<rparr>,
                \<lparr>ch_ref = Grant_ref (g_grant_id g), ch_before = Some (GS s),
                 ch_after = GS (reserved_gstate rid units s)\<rparr>))"

text \<open>Everything between recovery and publication of a new reservation\<close>

definition plan_reservation ::
  "env \<Rightarrow> ws \<Rightarrow> binding \<Rightarrow> decision_artifact \<Rightarrow> string \<Rightarrow> json \<Rightarrow> string \<Rightarrow> reservation res" where
  "plan_reservation E w decision a rid reserved_at key =
     (let st = ws_store w; r = da_request a in
      bindE (subject_preflight E r) (\<lambda>_.
      bindE (verify_manifest E a) (\<lambda>_.
      bindE (evaluate E st (request_json r) (eval_context_json (da_evaluation_context a)) reserved_at) (\<lambda>fresh.
      if da_decision fresh \<noteq> Allowed \<or> stable_decision_projection fresh \<noteq> stable_decision_projection a
      then fail Stale
      else
      bindE (decision_grant_bindings a) (\<lambda>bindings.
      bindE (parse_time reserved_at) (\<lambda>at.
      bindE (validate_selected_grants E st None r at bindings) (\<lambda>records.
      bindE (mapE (reserve_one rid (reservation_units r)) records) (\<lambda>xs.
      Inr \<lparr>rv_reservation_id = rid, rv_request_id = rq_request_id r,
           rv_request_sha256 = da_request_sha256 a, rv_decision = decision,
           rv_fingerprint = da_fingerprint a, rv_grant_uses = map fst xs,
           rv_state_changes = map snd xs @
             [\<lparr>ch_ref = Reservation_ref rid, ch_before = None, ch_after = RS (reserved_rstate rid)\<rparr>],
           rv_reserved_at = at, rv_idempotency_key = key\<rparr>))))))))"

text \<open>The replay of a reservation that exists\<close>

definition replay_reservation ::
  "env \<Rightarrow> owner \<Rightarrow> ws \<Rightarrow> binding \<Rightarrow> string \<Rightarrow> string \<Rightarrow> reservation \<times> string
   \<Rightarrow> (reservation \<times> binding \<times> rstate) res" where
  "replay_reservation E W w decision rid key x =
     bindE (validated_settled_intent E W w (validate_reservation E w rid (fst x))) (\<lambda>_.
     bindE (validate_reservation E w rid (fst x)) (\<lambda>_.
     if rv_decision (fst x) \<noteq> decision \<or> rv_idempotency_key (fst x) \<noteq> key then fail Conflict
     else case rstate_of w rid of
       None \<Rightarrow> fail Missing
     | Some s \<Rightarrow> Inr (fst x, \<lparr>b_ref = artifact_ref ''reservations'' rid, b_sha256 = snd x\<rparr>, s)))"

definition publish_reservation ::
  "env \<Rightarrow> reservation \<Rightarrow> ws \<Rightarrow> (reservation \<times> binding \<times> rstate) op" where
  "publish_reservation E rv w =
     (let rid = rv_reservation_id rv; sha = file_digest E (reservation_json rv) in
      commit (rv_state_changes rv)
        (rv, \<lparr>b_ref = artifact_ref ''reservations'' rid, b_sha256 = sha\<rparr>, reserved_rstate rid)
        (w\<lparr>ws_reservations := dput rid (rv, sha) (ws_reservations w)\<rparr>))"

definition reserve ::
  "env \<Rightarrow> owner \<Rightarrow> ws \<Rightarrow> string \<Rightarrow> string \<Rightarrow> json \<Rightarrow> string \<Rightarrow> (reservation \<times> binding \<times> rstate) op" where
  "reserve E W w ref digest reserved_at key =
     bindS (liftS (load_reservable_decision E w ref digest key) w) (\<lambda>(k, a, rid) w.
     let decision = \<lparr>b_ref = artifact_ref ''decisions'' k, b_sha256 = digest\<rparr> in
     bindS (recover E W w) (\<lambda>_ w.
     case map_of (ws_reservations w) rid of
       Some x \<Rightarrow> liftS (replay_reservation E W w decision rid key x) w
     | None \<Rightarrow>
         bindS (liftS (plan_reservation E w decision a rid reserved_at key) w) (\<lambda>rv w.
         publish_reservation E rv w)))"

subsection \<open>Verification\<close>

definition validate_stored_reservation :: "env \<Rightarrow> ws \<Rightarrow> reservation \<Rightarrow> unit res" where
  "validate_stored_reservation E w rv =
     (case map_of (ws_reservations w) (rv_reservation_id rv) of
        None \<Rightarrow> fail Missing
      | Some (stored, _) \<Rightarrow>
          if stored \<noteq> rv then fail Conflict else validate_reservation E w (rv_reservation_id rv) stored)"

definition grant_view_of :: "grant_record \<Rightarrow> grant_view" where
  "grant_view_of x =
     (let g = fst x; sha = fst (snd x); s = snd (snd x) in
      \<lparr>gv_grant_id = g_grant_id g, gv_grant_sha256 = sha, gv_state_version = gs_version s,
       gv_status = gs_status s, gv_remaining_uses = gs_remaining_uses s,
       gv_reserved_uses = gs_reserved_uses s\<rparr>)"

text \<open>The reservation still holds its units at the grant\<close>

definition units_held :: "grant_use list \<Rightarrow> grant_record \<Rightarrow> unit res" where
  "units_held uses x =
     (case List.find (\<lambda>u. gu_grant_id u = g_grant_id (fst x)) uses of
        None \<Rightarrow> Inl KeyError
      | Some u \<Rightarrow> if gs_reserved_uses (snd (snd x)) < gu_units u then fail BadAccounting else Inr ())"

definition verify_reservation ::
  "env \<Rightarrow> ws \<Rightarrow> reservation \<Rightarrow> rstate \<Rightarrow> json \<Rightarrow> int \<Rightarrow> bool \<Rightarrow> (decision_artifact \<times> grant_view list) res" where
  "verify_reservation E w rv s verified_at expected_version verify_subject =
     bindE (validate_stored_reservation E w rv) (\<lambda>_.
     if rs_status s \<noteq> Rs_reserved \<or> rs_version s \<noteq> expected_version then fail CasConflict
     else
     bindE (load_bound_decision E w (b_ref (rv_decision rv)) (b_sha256 (rv_decision rv))) (\<lambda>(_, _, a).
     bindE (if verify_subject then subject_preflight E (da_request a) else Inr ()) (\<lambda>_.
     bindE (verify_manifest E a) (\<lambda>_.
     bindE (verify_bound_decision_evidence E a) (\<lambda>_.
     let versions = map_of (rev (map (\<lambda>u. (gu_grant_id u, gu_state_version_after u)) (rv_grant_uses rv))) in
     bindE (decision_grant_bindings a) (\<lambda>bindings.
     bindE (parse_time verified_at) (\<lambda>at.
     bindE (validate_selected_grants E (ws_store w) (Some versions) (da_request a) at bindings) (\<lambda>records.
     bindE (mapE (units_held (rv_grant_uses rv)) records) (\<lambda>_.
     Inr (a, map grant_view_of records))))))))))"

text \<open>\<^verbatim>\<open>verify_reservation_with_recovery\<close>, which also returns the digest of the state file\<close>

definition verify_reservation_with_recovery ::
  "env \<Rightarrow> owner \<Rightarrow> ws \<Rightarrow> string \<Rightarrow> string \<Rightarrow> json \<Rightarrow> int
   \<Rightarrow> (reservation \<times> rstate \<times> decision_artifact \<times> grant_view list \<times> string) op" where
  "verify_reservation_with_recovery E W w ref digest verified_at expected_version =
     bindS (recover E W w) (\<lambda>_ w.
     bindS (liftS (load_reservation E w ref digest) w) (\<lambda>(k, rv, s) w.
     bindS (liftS (verify_reservation E w rv s verified_at expected_version True) w) (\<lambda>(a, views) w.
     (Inr (rv, s, a, views, file_digest E (rstate_json s)), w))))"

definition verify_and_publish ::
  "env \<Rightarrow> owner \<Rightarrow> ws \<Rightarrow> string \<Rightarrow> string \<Rightarrow> string \<Rightarrow> json \<Rightarrow> int \<Rightarrow> (verification \<times> binding) op" where
  "verify_and_publish E W w stage ref digest verified_at expected_version =
     (if stage \<notin> {''pre_dispatch'', ''pre_commit''} then (fail BadContract, w)
      else
      bindS (verify_reservation_with_recovery E W w ref digest verified_at expected_version)
        (\<lambda>(rv, s, a, views, state_sha) w.
      bindS (liftS (parse_time verified_at) w) (\<lambda>at w.
      let v = \<lparr>vf_stage = stage, vf_reservation = \<lparr>b_ref = ref, b_sha256 = digest\<rparr>,
               vf_state_ref = state_ref (Reservation_ref (rv_reservation_id rv)),
               vf_state_sha256 = state_sha, vf_state_version = rs_version s, vf_state_status = rs_status s,
               vf_grant_states = views, vf_request_id = rq_request_id (da_request a),
               vf_fingerprint = rv_fingerprint rv, vf_verified_at = at\<rparr>;
          vid = verification_id (env_digest E) v;
          sha = file_digest E ((''verification_id'', JStr vid) # verification_core v) in
      bindS (liftS (publish_immutable vid (vid, v, sha) (ws_verifications w)) w) (\<lambda>d w.
      (Inr (v, \<lparr>b_ref = artifact_ref ''verifications'' vid, b_sha256 = sha\<rparr>),
       w\<lparr>ws_verifications := d\<rparr>)))))"

subsection \<open>Consumption\<close>

text \<open>
  A settlement returns its receipt; the reference of the file is its identifier, and the digest of
  the receipt, which nothing else binds, is left out.
\<close>

definition reject_registered :: "env \<Rightarrow> ws \<Rightarrow> string \<Rightarrow> string \<Rightarrow> bool \<Rightarrow> unit res" where
  "reject_registered E w ref digest registered =
     bindE (load_reservation E w ref digest) (\<lambda>(_, rv, _).
     bindE (registered_release_required E w rv) (\<lambda>is_registered.
     if is_registered \<noteq> registered then fail BadRoute else Inr ()))"

text \<open>\<^verbatim>\<open>_consume_projection_changes\<close>, one use\<close>

definition settle_change :: "env \<Rightarrow> store \<Rightarrow> (int \<Rightarrow> gstate \<Rightarrow> gstate) \<Rightarrow> grant_use
  \<Rightarrow> ((string \<times> int) \<times> (sref, pstate) change) res" where
  "settle_change E st f u =
     bindE (load_grant E st (gu_grant_id u)) (\<lambda>(_, _, s).
     let updated = f (gu_units u) s in
     Inr ((gs_grant_id updated, gs_version updated),
          \<lparr>ch_ref = Grant_ref (gu_grant_id u), ch_before = Some (GS s), ch_after = GS updated\<rparr>))"

definition settle_reservation :: "string \<Rightarrow> reservation_status \<Rightarrow> rstate \<Rightarrow> string \<Rightarrow> (sref, pstate) change" where
  "settle_reservation event status s rid =
     \<lparr>ch_ref = Reservation_ref rid, ch_before = Some (RS s), ch_after = RS (settled_rstate event status s)\<rparr>"

definition consume_projection_changes ::
  "env \<Rightarrow> store \<Rightarrow> reservation \<Rightarrow> rstate \<Rightarrow> string \<Rightarrow> ((string \<times> int) list \<times> (sref, pstate) change list) res" where
  "consume_projection_changes E st rv s receipt_id =
     bindE (mapE (settle_change E st (consumed_gstate receipt_id)) (rv_grant_uses rv)) (\<lambda>xs.
     Inr (map fst xs, map snd xs @ [settle_reservation receipt_id Rs_consumed s (rv_reservation_id rv)]))"

definition replay_use_receipt ::
  "env \<Rightarrow> owner \<Rightarrow> ws \<Rightarrow> string \<Rightarrow> binding \<Rightarrow> binding option \<Rightarrow> string \<Rightarrow> use_receipt \<Rightarrow> use_receipt res" where
  "replay_use_receipt E W w receipt_id execution_result pre_commit key ur =
     bindE (validated_settled_intent E W w (validate_use_receipt E W w False receipt_id ur)) (\<lambda>_.
     if (case ur_typed ur of Some (owner_result, _) \<Rightarrow> owner_result | None \<Rightarrow> ur_execution_result ur)
          \<noteq> execution_result
        \<or> ur_idempotency_key ur \<noteq> key
        \<or> (pre_commit \<noteq> None \<and> map_option snd (ur_typed ur) \<noteq> pre_commit)
     then fail Conflict else Inr ur)"

text \<open>The checks before the execution result is published\<close>

definition check_consume ::
  "env \<Rightarrow> owner \<Rightarrow> ws \<Rightarrow> bool \<Rightarrow> reservation \<Rightarrow> rstate \<Rightarrow> binding \<Rightarrow> binding \<Rightarrow> binding option \<Rightarrow> binding option
   \<Rightarrow> json \<Rightarrow> int \<Rightarrow> (decision_artifact \<times> binding) res" where
  "check_consume E W w registered rv s rb execution_result pre_commit owner_validation consumed_at
       expected_version =
     bindE (verify_reservation E w rv s consumed_at expected_version False) (\<lambda>(a, _).
     bindE (registered_release_required E w rv) (\<lambda>is_registered.
     if registered \<noteq> is_registered then fail BadRoute
     else
     bindE (resolve_pre_commit_verification E w rv rb pre_commit expected_version) (\<lambda>vb.
     bindE (if \<not> registered then Inr ()
            else case owner_validation of
              None \<Rightarrow> Inl AssertionError
            | Some ov \<Rightarrow>
                bindE (validate_registered_owner_receipt E W w rv rb ov expected_version True
                         [''confirmed_effect''] (Some (execution_result, vb))) (\<lambda>_. Inr ())) (\<lambda>_.
     Inr (a, vb)))))"

definition make_use_receipt ::
  "env \<Rightarrow> ws \<Rightarrow> reservation \<Rightarrow> rstate \<Rightarrow> binding \<Rightarrow> binding \<Rightarrow> binding \<Rightarrow> binding \<Rightarrow> json \<Rightarrow> string \<Rightarrow> string
   \<Rightarrow> use_receipt res" where
  "make_use_receipt E w rv s rb typed_result execution_result vb consumed_at key receipt_id =
     bindE (consume_projection_changes E (ws_store w) rv s receipt_id) (\<lambda>(versions, changes).
     bindE (parse_time consumed_at) (\<lambda>at.
     Inr \<lparr>ur_receipt_id = receipt_id, ur_reservation = rb, ur_execution_result = typed_result,
          ur_typed = Some (execution_result, vb), ur_consumed_at = at, ur_grant_versions_after = versions,
          ur_state_changes = changes, ur_idempotency_key = key\<rparr>))"

definition publish_use_receipt :: "use_receipt \<Rightarrow> ws \<Rightarrow> use_receipt op" where
  "publish_use_receipt ur w =
     commit (ur_state_changes ur) ur
       (w\<lparr>ws_use_receipts := dput (ur_receipt_id ur) ur (ws_use_receipts w)\<rparr>)"

text \<open>\<^verbatim>\<open>_consume\<close>\<close>

definition consume ::
  "env \<Rightarrow> owner \<Rightarrow> ws \<Rightarrow> bool \<Rightarrow> string \<Rightarrow> string \<Rightarrow> binding \<Rightarrow> binding option \<Rightarrow> string option \<Rightarrow> binding option
   \<Rightarrow> json \<Rightarrow> int \<Rightarrow> string \<Rightarrow> use_receipt op" where
  "consume E W w registered ref digest execution_result pre_commit expected_after owner_validation
       consumed_at expected_version key =
     (let receipt_id = settlement_id (env_digest E) ''authu-'' digest key in
      bindS (liftS (bindE (verify_binding (env_files E) execution_result) (\<lambda>_.
        case owner_validation of None \<Rightarrow> Inr ()
        | Some ov \<Rightarrow> bindE (verify_binding (env_files E) ov) (\<lambda>_. Inr ()))) w) (\<lambda>_ w.
      bindS (recover E W w) (\<lambda>_ w.
      bindS (liftS (load_reservation E w ref digest) w) (\<lambda>(k, rv, s) w.
      let rb = \<lparr>b_ref = artifact_ref ''reservations'' k, b_sha256 = digest\<rparr> in
      case map_of (ws_use_receipts w) receipt_id of
        Some ur \<Rightarrow> liftS (replay_use_receipt E W w receipt_id execution_result pre_commit key ur) w
      | None \<Rightarrow>
          bindS (liftS (check_consume E W w registered rv s rb execution_result pre_commit owner_validation
                   consumed_at expected_version) w) (\<lambda>(a, vb) w.
          case create_execution_result E W w a rb vb execution_result consumed_at expected_after
                 owner_validation of
            Inl e \<Rightarrow> (Inl e, w)
          | Inr (typed_result, w) \<Rightarrow>
              bindS (liftS (make_use_receipt E w rv s rb typed_result execution_result vb consumed_at key
                       receipt_id) w) (\<lambda>ur w.
              publish_use_receipt ur w))))))"

text \<open>The public entry point of unregistered operations and the one of the owner settlement\<close>

definition consume_legacy ::
  "env \<Rightarrow> owner \<Rightarrow> ws \<Rightarrow> string \<Rightarrow> string \<Rightarrow> binding \<Rightarrow> binding option \<Rightarrow> string option \<Rightarrow> json \<Rightarrow> int \<Rightarrow> string
   \<Rightarrow> use_receipt op" where
  "consume_legacy E W w ref digest execution_result pre_commit expected_after consumed_at expected_version key =
     bindS (liftS (reject_registered E w ref digest False) w) (\<lambda>_ w.
     consume E W w False ref digest execution_result pre_commit expected_after None consumed_at
       expected_version key)"

definition consume_registered_owner ::
  "env \<Rightarrow> owner \<Rightarrow> ws \<Rightarrow> string \<Rightarrow> string \<Rightarrow> binding \<Rightarrow> binding option \<Rightarrow> binding \<Rightarrow> json \<Rightarrow> int \<Rightarrow> string
   \<Rightarrow> use_receipt op" where
  "consume_registered_owner E W w ref digest owner_result owner_validation pre_commit consumed_at
       expected_version key =
     bindS (liftS (reject_registered E w ref digest True) w) (\<lambda>_ w.
     consume E W w True ref digest owner_result (Some pre_commit) None owner_validation consumed_at
       expected_version key)"

subsection \<open>Release\<close>

definition EFFECT_STATUSES :: "(string \<times> effect_status) list" where
  "EFFECT_STATUSES = [(''not_started'', Not_started), (''verified_no_effect'', Verified_no_effect),
     (''unknown_effect'', Unknown_effect)]"

definition replay_release_receipt ::
  "env \<Rightarrow> owner \<Rightarrow> ws \<Rightarrow> string \<Rightarrow> binding \<Rightarrow> effect_status \<Rightarrow> string \<Rightarrow> release_receipt \<Rightarrow> release_receipt res" where
  "replay_release_receipt E W w event_id no_effect_evidence status key rr =
     bindE (validated_settled_intent E W w (validate_release_receipt E W w False event_id rr)) (\<lambda>_.
     if rr_idempotency_key rr \<noteq> key \<or> rr_no_effect_evidence rr \<noteq> no_effect_evidence
        \<or> rr_effect_status rr \<noteq> status
     then fail Conflict else Inr rr)"

definition make_release_receipt ::
  "env \<Rightarrow> ws \<Rightarrow> reservation \<Rightarrow> rstate \<Rightarrow> binding \<Rightarrow> binding \<Rightarrow> effect_status \<Rightarrow> json \<Rightarrow> int \<Rightarrow> string \<Rightarrow> string
   \<Rightarrow> release_receipt res" where
  "make_release_receipt E w rv s rb no_effect_evidence status released_at expected_version key event_id =
     (if rs_status s \<noteq> Rs_reserved \<or> rs_version s \<noteq> expected_version then fail CasConflict
      else
      let released = (status \<noteq> Unknown_effect) in
      bindE (if released
             then mapE (settle_change E (ws_store w) (released_gstate event_id)) (rv_grant_uses rv)
             else Inr []) (\<lambda>xs.
      bindE (parse_time released_at) (\<lambda>at.
      Inr \<lparr>rr_receipt_id = event_id, rr_reservation = rb, rr_no_effect_evidence = no_effect_evidence,
           rr_effect_status = status, rr_release_applied = released, rr_released_at = at,
           rr_idempotency_key = key,
           rr_state_changes = map snd xs @
             [settle_reservation event_id (release_status status) s (rv_reservation_id rv)]\<rparr>)))"

definition publish_release_receipt :: "release_receipt \<Rightarrow> ws \<Rightarrow> release_receipt op" where
  "publish_release_receipt rr w =
     commit (rr_state_changes rr) rr
       (w\<lparr>ws_release_receipts := dput (rr_receipt_id rr) rr (ws_release_receipts w)\<rparr>)"

text \<open>\<^verbatim>\<open>_release\<close>\<close>

definition release ::
  "env \<Rightarrow> owner \<Rightarrow> ws \<Rightarrow> bool \<Rightarrow> string \<Rightarrow> string \<Rightarrow> binding \<Rightarrow> json \<Rightarrow> int \<Rightarrow> string \<Rightarrow> string
   \<Rightarrow> release_receipt op" where
  "release E W w registered ref digest no_effect_evidence released_at expected_version key effect_status =
     (let event_id = settlement_id (env_digest E) ''authx-'' digest key in
      case map_of EFFECT_STATUSES effect_status of
        None \<Rightarrow> (fail BadContract, w)
      | Some status \<Rightarrow>
      bindS (liftS (verify_binding (env_files E) no_effect_evidence) w) (\<lambda>_ w.
      bindS (recover E W w) (\<lambda>_ w.
      bindS (liftS (load_reservation E w ref digest) w) (\<lambda>(k, rv, s) w.
      let rb = \<lparr>b_ref = artifact_ref ''reservations'' k, b_sha256 = digest\<rparr>;
          existing = map_of (ws_release_receipts w) event_id in
      bindS (liftS (bindE (registered_release_required E w rv) (\<lambda>is_registered.
        if registered \<noteq> is_registered then fail BadRoute
        else if registered
        then validate_registered_release E W w rv rb no_effect_evidence status expected_version
               (existing = None)
        else Inr ())) w) (\<lambda>_ w.
      case existing of
        Some rr \<Rightarrow> liftS (replay_release_receipt E W w event_id no_effect_evidence status key rr) w
      | None \<Rightarrow>
          bindS (liftS (make_release_receipt E w rv s rb no_effect_evidence status released_at
                   expected_version key event_id) w) (\<lambda>rr w.
          publish_release_receipt rr w))))))"

definition release_legacy ::
  "env \<Rightarrow> owner \<Rightarrow> ws \<Rightarrow> string \<Rightarrow> string \<Rightarrow> binding \<Rightarrow> json \<Rightarrow> int \<Rightarrow> string \<Rightarrow> string \<Rightarrow> release_receipt op" where
  "release_legacy E W w ref digest no_effect_evidence released_at expected_version key effect_status =
     bindS (liftS (reject_registered E w ref digest False) w) (\<lambda>_ w.
     release E W w False ref digest no_effect_evidence released_at expected_version key effect_status)"

definition release_registered_owner ::
  "env \<Rightarrow> owner \<Rightarrow> ws \<Rightarrow> string \<Rightarrow> string \<Rightarrow> binding \<Rightarrow> json \<Rightarrow> int \<Rightarrow> string \<Rightarrow> string \<Rightarrow> release_receipt op" where
  "release_registered_owner E W w ref digest owner_validation released_at expected_version key effect_status =
     bindS (liftS (reject_registered E w ref digest True) w) (\<lambda>_ w.
     release E W w True ref digest owner_validation released_at expected_version key effect_status)"

subsection \<open>Reconciliation\<close>

text \<open>\<^verbatim>\<open>_settle_grants\<close>, one use\<close>

definition settle_grant ::
  "env \<Rightarrow> store \<Rightarrow> outcome \<Rightarrow> string \<Rightarrow> grant_use \<Rightarrow> ((string \<times> int) \<times> (sref, pstate) change) res" where
  "settle_grant E st out receipt_id u =
     bindE (load_grant E st (gu_grant_id u)) (\<lambda>(_, _, s).
     let updated = reconcile_gstate out receipt_id (gu_units u) s in
     if gs_status s \<noteq> Active \<or> gs_reserved_uses s < gu_units u then fail Insufficient
     else if out = Confirmed_effect \<and>
             (case gs_remaining_uses s of None \<Rightarrow> False | Some rem \<Rightarrow> rem - gu_units u < 0)
     then fail Insufficient
     else Inr ((gu_grant_id u, gs_version updated),
               \<lparr>ch_ref = Grant_ref (gu_grant_id u), ch_before = Some (GS s), ch_after = GS updated\<rparr>))"

definition settle_grants ::
  "env \<Rightarrow> store \<Rightarrow> reservation \<Rightarrow> outcome \<Rightarrow> string
   \<Rightarrow> ((string \<times> int) list \<times> (sref, pstate) change list) res" where
  "settle_grants E st rv out receipt_id =
     (if out = Still_unknown then Inr ([], [])
      else bindE (mapE (settle_grant E st out receipt_id) (rv_grant_uses rv)) (\<lambda>xs.
           Inr (map fst xs, map snd xs)))"

definition replay_reconciliation ::
  "env \<Rightarrow> owner \<Rightarrow> ws \<Rightarrow> string \<Rightarrow> binding \<Rightarrow> outcome \<Rightarrow> binding option \<Rightarrow> string \<Rightarrow> reconciliation_receipt
   \<Rightarrow> reconciliation_receipt res" where
  "replay_reconciliation E W w receipt_id effect_evidence out pre_commit key qr =
     bindE (validated_settled_intent E W w (validate_reconciliation_receipt E w receipt_id qr)) (\<lambda>_.
     if qr_outcome qr \<noteq> out \<or> qr_effect_evidence qr \<noteq> effect_evidence
        \<or> qr_pre_commit_verification qr \<noteq> pre_commit \<or> qr_idempotency_key qr \<noteq> key
     then fail Conflict else Inr qr)"

definition make_reconciliation ::
  "env \<Rightarrow> ws \<Rightarrow> reservation \<Rightarrow> rstate \<Rightarrow> binding \<Rightarrow> binding \<Rightarrow> outcome \<Rightarrow> binding option \<Rightarrow> json \<Rightarrow> int \<Rightarrow> string
   \<Rightarrow> string \<Rightarrow> reconciliation_receipt res" where
  "make_reconciliation E w rv s rb effect_evidence out pre_commit reconciled_at expected_version key receipt_id =
     (if rs_status s \<noteq> Rs_quarantined \<or> rs_version s \<noteq> expected_version then fail CasConflict
      else
      bindE (validate_reconciliation_evidence E w effect_evidence rv rb out True) (\<lambda>_.
      bindE (case (out, pre_commit) of
               (Confirmed_effect, None) \<Rightarrow> fail Missing
             | (Confirmed_effect, Some vb) \<Rightarrow>
                 bindE (validate_pre_commit_verification E w rv rb vb 0 False) (\<lambda>_. Inr ())
             | (_, None) \<Rightarrow> Inr ()
             | (_, Some _) \<Rightarrow> fail BadEvidence) (\<lambda>_.
      bindE (settle_grants E (ws_store w) rv out receipt_id) (\<lambda>(versions, changes).
      bindE (parse_time reconciled_at) (\<lambda>at.
      Inr \<lparr>qr_receipt_id = receipt_id, qr_reservation = rb, qr_effect_evidence = effect_evidence,
           qr_pre_commit_verification = pre_commit, qr_outcome = out, qr_reconciled_at = at,
           qr_grant_versions_after = versions, qr_idempotency_key = key,
           qr_state_changes = changes @
             [settle_reservation receipt_id (outcome_status out) s (rv_reservation_id rv)]\<rparr>)))))"

definition publish_reconciliation :: "reconciliation_receipt \<Rightarrow> ws \<Rightarrow> reconciliation_receipt op" where
  "publish_reconciliation qr w =
     commit (qr_state_changes qr) qr
       (w\<lparr>ws_reconciliation_receipts := dput (qr_receipt_id qr) qr (ws_reconciliation_receipts w)\<rparr>)"

definition reconcile_quarantine ::
  "env \<Rightarrow> owner \<Rightarrow> ws \<Rightarrow> string \<Rightarrow> string \<Rightarrow> binding \<Rightarrow> string \<Rightarrow> binding option \<Rightarrow> json \<Rightarrow> int \<Rightarrow> string
   \<Rightarrow> reconciliation_receipt op" where
  "reconcile_quarantine E W w ref digest effect_evidence outcome pre_commit reconciled_at expected_version key =
     (let receipt_id = settlement_id (env_digest E) ''authq-'' digest key in
      case map_of OUTCOMES outcome of
        None \<Rightarrow> (fail BadContract, w)
      | Some out \<Rightarrow>
      bindS (recover E W w) (\<lambda>_ w.
      bindS (liftS (load_reservation E w ref digest) w) (\<lambda>(k, rv, s) w.
      let rb = \<lparr>b_ref = artifact_ref ''reservations'' k, b_sha256 = digest\<rparr> in
      case map_of (ws_reconciliation_receipts w) receipt_id of
        Some qr \<Rightarrow> liftS (replay_reconciliation E W w receipt_id effect_evidence out pre_commit key qr) w
      | None \<Rightarrow>
          bindS (liftS (make_reconciliation E w rv s rb effect_evidence out pre_commit reconciled_at
                   expected_version key receipt_id) w) (\<lambda>qr w.
          publish_reconciliation qr w))))"

text \<open>\<^verbatim>\<open>prepare_reconciliation_evidence\<close>, which runs without recovery\<close>

definition typed_owner_result_binding :: "files \<Rightarrow> binding option \<Rightarrow> outcome \<Rightarrow> unit res" where
  "typed_owner_result_binding fs b out =
     (case (out, b) of
        (Still_unknown, None) \<Rightarrow> Inr ()
      | (Still_unknown, Some _) \<Rightarrow> fail BadEvidence
      | (_, None) \<Rightarrow> fail BadEvidence
      | (_, Some x) \<Rightarrow>
          bindE (read_bound_object fs x) (\<lambda>d. if typed_owner_result d then Inr () else fail BadEvidence))"

definition make_evidence ::
  "env \<Rightarrow> ws \<Rightarrow> reservation \<Rightarrow> rstate \<Rightarrow> binding \<Rightarrow> outcome \<Rightarrow> binding option \<Rightarrow> json \<Rightarrow> int \<Rightarrow> evidence res" where
  "make_evidence E w rv s rb out owner_result observed_at expected_version =
     (if rs_status s \<noteq> Rs_quarantined \<or> rs_version s \<noteq> expected_version then fail CasConflict
      else
      bindE (typed_owner_result_binding (env_files E) owner_result out) (\<lambda>_.
      bindE (find_ref ''decisions'' (ws_decisions w) (b_ref (rv_decision rv))) (\<lambda>(_, _, a, dsha).
      if dsha \<noteq> b_sha256 (rv_decision rv) then fail DigestMismatch
      else let r = da_request a in
      bindE (read_file (env_files E) (sub_ref (rq_subject r))) (\<lambda>x.
      bindE (parse_time observed_at) (\<lambda>at.
      Inr \<lparr>ev_reservation = rb,
           ev_operation = [rq_skill_id r, rq_skill_version r, rq_operation_id r, rq_operation_version r],
           ev_subject_before = rq_subject r,
           ev_observed_subject = \<lparr>b_ref = sub_ref (rq_subject r), b_sha256 = fst x\<rparr>,
           ev_outcome = out, ev_owner_result = owner_result, ev_observed_at = at\<rparr>)))))"

definition prepare_reconciliation_evidence ::
  "env \<Rightarrow> ws \<Rightarrow> string \<Rightarrow> string \<Rightarrow> string \<Rightarrow> binding option \<Rightarrow> json \<Rightarrow> int \<Rightarrow> (evidence \<times> binding) op" where
  "prepare_reconciliation_evidence E w ref digest outcome owner_result observed_at expected_version =
     (case map_of OUTCOMES outcome of
        None \<Rightarrow> (fail BadContract, w)
      | Some out \<Rightarrow>
      bindS (liftS (load_reservation E w ref digest) w) (\<lambda>(k, rv, s) w.
      let rb = \<lparr>b_ref = artifact_ref ''reservations'' k, b_sha256 = digest\<rparr> in
      bindS (liftS (make_evidence E w rv s rb out owner_result observed_at expected_version) w) (\<lambda>e w.
      let eid = evidence_id (env_digest E) e;
          sha = file_digest E ((''evidence_id'', JStr eid) # evidence_core e);
          b = \<lparr>b_ref = artifact_ref ''reconciliation_evidence'' eid, b_sha256 = sha\<rparr> in
      bindS (liftS (publish_immutable eid (eid, e, sha) (ws_evidence w)) w) (\<lambda>d w.
      let w = w\<lparr>ws_evidence := d\<rparr> in
      bindS (liftS (validate_reconciliation_evidence E w b rv rb out True) w) (\<lambda>_ w. (Inr (e, b), w))))))"

subsection \<open>Grant transitions\<close>

definition TRANSITIONS :: "(string \<times> transition) list" where
  "TRANSITIONS = [(''revoked'', To_revoked), (''suspended'', To_suspended), (''expired'', To_expired),
     (''reactivated'', To_reactivated)]"

definition replay_transition ::
  "env \<Rightarrow> owner \<Rightarrow> ws \<Rightarrow> string \<Rightarrow> transition \<Rightarrow> string \<Rightarrow> binding \<Rightarrow> string \<Rightarrow> transition_event
   \<Rightarrow> transition_event res" where
  "replay_transition E W w gid t event_id source_approval transitioned_at te =
     bindE (validated_settled_intent E W w (validate_transition E w event_id te)) (\<lambda>_.
     if te_root_grant_id te \<noteq> gid \<or> te_transition te \<noteq> t \<or> te_source_approval te \<noteq> source_approval
        \<or> te_transitioned_at te \<noteq> transitioned_at
     then fail Conflict else Inr te)"

text \<open>One pass of the loop over the targets\<close>

definition transition_change ::
  "env \<Rightarrow> store \<Rightarrow> transition \<Rightarrow> string \<Rightarrow> string \<Rightarrow> ((string \<times> grant_status \<times> int) \<times> (sref, pstate) change) res" where
  "transition_change E st t event_id target =
     bindE (load_grant E st target) (\<lambda>(_, _, s).
     Inr ((target, gs_status s, gs_version s),
          \<lparr>ch_ref = Grant_ref target, ch_before = Some (GS s),
           ch_after = GS (transition_gstate event_id (transition_status t) s)\<rparr>))"

definition make_transition ::
  "env \<Rightarrow> ws \<Rightarrow> gstate \<Rightarrow> string \<Rightarrow> transition \<Rightarrow> string \<Rightarrow> int \<Rightarrow> binding \<Rightarrow> string \<Rightarrow> transition_event res" where
  "make_transition E w s gid t event_id expected_version source_approval transitioned_at =
     (if gs_version s \<noteq> expected_version then fail CasConflict
      else if \<not> transition_source_ok t (gs_status s) then fail BadTransition
      else
      bindE (if terminal_transition t then descendant_ids E (ws_store w) gid else Inr []) (\<lambda>below.
      bindE (mapE (transition_change E (ws_store w) t event_id) (gid # below)) (\<lambda>xs.
      Inr \<lparr>te_event_id = event_id, te_root_grant_id = gid, te_transition = t,
           te_source_approval = source_approval, te_transitioned_at = transitioned_at,
           te_affected_before = map fst xs, te_affected_grant_ids = gid # below,
           te_state_changes = map snd xs\<rparr>)))"

definition publish_transition :: "transition_event \<Rightarrow> ws \<Rightarrow> transition_event op" where
  "publish_transition te w =
     commit (te_state_changes te) te (w\<lparr>ws_events := dput (te_event_id te) te (ws_events w)\<rparr>)"

definition transition_grants ::
  "env \<Rightarrow> owner \<Rightarrow> ws \<Rightarrow> string \<Rightarrow> string \<Rightarrow> string \<Rightarrow> int \<Rightarrow> binding \<Rightarrow> string \<Rightarrow> transition_event op" where
  "transition_grants E W w gid status event_id expected_version source_approval transitioned_at =
     (case map_of TRANSITIONS status of
        None \<Rightarrow> (fail BadTransition, w)
      | Some t \<Rightarrow>
      bindS (liftS (verify_binding (env_files E) source_approval) w) (\<lambda>source w.
      bindS (recover E W w) (\<lambda>_ w.
      bindS (liftS (load_grant E (ws_store w) gid) w) (\<lambda>(g, _, s) w.
      bindS (liftS (bindE (env_source_for_transition E True source g transitioned_at) (\<lambda>_.
        bindE (parse_time (JStr transitioned_at)) (\<lambda>at.
        if t = To_expired \<and> \<not> expired_by g at then fail BadTime
        else if t = To_reactivated \<and> expired_by g at then fail BadTime
        else Inr ()))) w) (\<lambda>_ w.
      case map_of (ws_events w) event_id of
        Some te \<Rightarrow> liftS (replay_transition E W w gid t event_id source_approval transitioned_at te) w
      | None \<Rightarrow>
          bindS (liftS (make_transition E w s gid t event_id expected_version source_approval
                   transitioned_at) w) (\<lambda>te w.
          publish_transition te w))))))"

end
