(* ===== verification/Ledger.thy ===== *)
theory Ledger
  imports Lifecycle
begin

text \<open>
  The books of a workspace. Every grant state counts the uses that are reserved and the uses that
  are consumed; the reservations and their states say who holds them. This theory states that the
  two agree and that every posting of an operation (a change of some grants and one reservation)
  keeps them in agreement, with the state of every grant within its budget.
\<close>

subsection \<open>Units held and spent\<close>

definition units_at :: "reservation \<Rightarrow> string \<Rightarrow> int" where
  "units_at rv gid = sum_list (map gu_units (filter (\<lambda>u. gu_grant_id u = gid) (rv_grant_uses rv)))"

definition status_at :: "(sref \<Rightarrow> pstate option) \<Rightarrow> string \<Rightarrow> reservation_status option" where
  "status_at p rid = (case p (Reservation_ref rid) of Some (RS s) \<Rightarrow> Some (rs_status s) | _ \<Rightarrow> None)"

definition open_weight :: "reservation_status option \<Rightarrow> int" where
  "open_weight s = (if s \<in> {Some Rs_reserved, Some Rs_quarantined} then 1 else 0)"

definition spent_weight :: "reservation_status option \<Rightarrow> int" where
  "spent_weight s = (if s = Some Rs_consumed then 1 else 0)"

text \<open>The sum of the units of the reservations, weighted by their status\<close>

definition weighed ::
  "(reservation_status option \<Rightarrow> int) \<Rightarrow> (sref \<Rightarrow> pstate option) \<Rightarrow> (reservation \<times> string) dir \<Rightarrow> string \<Rightarrow> int" where
  "weighed f p rs gid = sum_list (map (\<lambda>e. f (status_at p (fst e)) * units_at (fst (snd e)) gid) rs)"

abbreviation held :: "(sref \<Rightarrow> pstate option) \<Rightarrow> (reservation \<times> string) dir \<Rightarrow> string \<Rightarrow> int" where
  "held \<equiv> weighed open_weight"

abbreviation spent :: "(sref \<Rightarrow> pstate option) \<Rightarrow> (reservation \<times> string) dir \<Rightarrow> string \<Rightarrow> int" where
  "spent \<equiv> weighed spent_weight"

definition balanced :: "(sref \<Rightarrow> pstate option) \<Rightarrow> (reservation \<times> string) dir \<Rightarrow> bool" where
  "balanced p rs = (\<forall>gid s. p (Grant_ref gid) = Some (GS s) \<longrightarrow>
     gs_reserved_uses s = held p rs gid \<and> gs_consumed_uses s = spent p rs gid)"

lemma weighed_cong:
  "(\<And>k. k \<in> fst ` set rs \<Longrightarrow> status_at p' k = status_at p k) \<Longrightarrow> weighed f p' rs gid = weighed f p rs gid"
  unfolding weighed_def by (intro arg_cong [where f = sum_list] map_cong) auto

lemma weighed_move:
  assumes "distinct (map fst rs)" and "(rid, rv, sha) \<in> set rs"
    and "\<And>k. k \<noteq> rid \<Longrightarrow> status_at p' k = status_at p k"
  shows "weighed f p' rs gid =
    weighed f p rs gid + (f (status_at p' rid) - f (status_at p rid)) * units_at rv gid"
  using assms(1,2)
proof (induction rs)
  case (Cons e rs)
  show ?case
  proof (cases "e = (rid, rv, sha)")
    case True
    with Cons.prems(1) have "weighed f p' rs gid = weighed f p rs gid"
      by (intro weighed_cong assms(3)) (auto simp: image_iff)
    with True show ?thesis by (simp add: weighed_def algebra_simps)
  next
    case False
    with Cons.prems have "fst e \<noteq> rid" by (force simp: image_iff)
    with Cons False show ?thesis by (simp add: weighed_def assms(3))
  qed
qed simp

lemma weighed_snoc_new:
  assumes "f None = 0" and "status_at p rid = None"
  shows "weighed f p (rs @ [(rid, x)]) gid = weighed f p rs gid"
  using assms by (simp add: weighed_def)

lemma weights_None [simp]: "open_weight None = 0" "spent_weight None = 0"
  by (simp_all add: open_weight_def spent_weight_def)

lemma units_at_use:
  assumes "distinct (map gu_grant_id (rv_grant_uses rv))" and "u \<in> set (rv_grant_uses rv)"
  shows "units_at rv (gu_grant_id u) = gu_units u"
proof -
  have "filter (\<lambda>v. gu_grant_id v = gu_grant_id u) us = [u]"
    if "distinct (map gu_grant_id us)" "u \<in> set us" for us
    using that by (induction us) (auto simp: filter_empty_conv image_iff)
  with assms show ?thesis by (simp add: units_at_def)
qed

lemma units_at_unused: "gid \<notin> gu_grant_id ` set (rv_grant_uses rv) \<Longrightarrow> units_at rv gid = 0"
  unfolding units_at_def by (subst filter_False) auto

subsection \<open>Well-formed books\<close>

text \<open>Reservation states belong to the published reservations and the two kinds of states are not mixed\<close>

definition ref_ok :: "(sref \<Rightarrow> pstate option) \<Rightarrow> (reservation \<times> string) dir \<Rightarrow> string \<Rightarrow> bool" where
  "ref_ok p rs rid =
     (case p (Reservation_ref rid) of
        None \<Rightarrow> rid \<notin> fst ` set rs
      | Some (RS s) \<Rightarrow> rid \<in> fst ` set rs \<and> 0 \<le> rs_version s
      | Some (GS s) \<Rightarrow> False)"

definition grant_refs_ok :: "(sref \<Rightarrow> pstate option) \<Rightarrow> bool" where
  "grant_refs_ok p \<longleftrightarrow> (\<forall>gid s. p (Grant_ref gid) \<noteq> Some (RS s))"

definition reservation_ok :: "store \<Rightarrow> string \<times> reservation \<times> string \<Rightarrow> bool" where
  "reservation_ok st e =
     (rv_reservation_id (fst (snd e)) = fst e \<and> distinct (map gu_grant_id (rv_grant_uses (fst (snd e)))) \<and>
      list_all (\<lambda>u. 0 < gu_units u \<and> gu_grant_id u \<in> fst ` set (st_grants st)) (rv_grant_uses (fst (snd e))))"

definition at_proj :: "store \<Rightarrow> (sref \<Rightarrow> pstate option) \<Rightarrow> store" where
  "at_proj st p = st\<lparr>st_proj := p\<rparr>"

definition books :: "store \<Rightarrow> (reservation \<times> string) dir \<Rightarrow> (sref \<Rightarrow> pstate option) \<Rightarrow> bool" where
  "books st rs p \<longleftrightarrow> wf_store (at_proj st p) \<and> distinct (map fst (st_grants st)) \<and> grant_refs_ok p \<and> (\<forall>rid. ref_ok p rs rid) \<and> distinct (map fst rs) \<and>
     list_all (reservation_ok st) rs \<and> balanced p rs"

lemma at_proj_simps [simp]:
  "st_grants (at_proj st p) = st_grants st" "st_proj (at_proj st p) = p"
  "at_proj (at_proj st p) q = at_proj st q" "grant_of (at_proj st p) = grant_of st"
  by (simp_all add: at_proj_def grant_of_def fun_eq_iff)

lemma link_ok_at_proj [simp]: "link_ok (at_proj st p) = link_ok st"
  by (rule ext) (simp add: link_ok_def split: option.splits)

lemma state_of_at_proj [simp]:
  "state_of (at_proj st p) gid = (case p (Grant_ref gid) of Some (GS s) \<Rightarrow> Some s | _ \<Rightarrow> None)"
  by (simp add: state_of_def)

text \<open>Only the state of a grant matters for its entry\<close>

lemma entry_ok_at_proj:
  "entry_ok (at_proj st p) gid = (\<exists>g sha s. grant_of st gid = Some (g, sha) \<and> g_grant_id g = gid \<and>
     link_ok st g \<and> p (Grant_ref gid) = Some (GS s) \<and> state_ok g sha s)"
  by (auto simp: entry_ok_def split: option.splits pstate.splits)

lemma wf_at_projI:
  assumes "\<And>gid. gid \<in> fst ` set (st_grants st) \<Longrightarrow> entry_ok (at_proj st p) gid"
  shows "wf_store (at_proj st p)"
  using assms by (auto simp: wf_store_def list_all_iff)

lemma wf_at_proj_cong:
  assumes "\<And>gid. \<exists>q. wf_store (at_proj st q) \<and> p (Grant_ref gid) = q (Grant_ref gid)"
  shows "wf_store (at_proj st p)"
proof (rule wf_at_projI)
  fix gid assume "gid \<in> fst ` set (st_grants st)"
  moreover from assms obtain q where "wf_store (at_proj st q)" "p (Grant_ref gid) = q (Grant_ref gid)" by blast
  ultimately show "entry_ok (at_proj st p) gid" by (auto simp: wf_store_def list_all_iff entry_ok_at_proj)
qed

lemma wf_state:
  assumes "wf_store (at_proj st p)" and "gid \<in> fst ` set (st_grants st)"
  obtains g sha s where "grant_of st gid = Some (g, sha)" "g_grant_id g = gid" "link_ok st g"
    "p (Grant_ref gid) = Some (GS s)" "state_ok g sha s"
  using assms by (auto simp: wf_store_def list_all_iff entry_ok_at_proj)

subsection \<open>Budgets\<close>

text \<open>What a balanced, well-formed store promises: held and spent units stay within the budget\<close>

lemma books_within_budget:
  assumes "books st rs p" and "grant_of st gid = Some (g, sha)"
  shows "0 \<le> held p rs gid" "0 \<le> spent p rs gid"
    and "g_max_uses g = Some m \<Longrightarrow> held p rs gid + spent p rs gid \<le> m"
proof -
  from assms have "gid \<in> fst ` set (st_grants st)" "wf_store (at_proj st p)" "balanced p rs"
    by (auto simp: books_def dest: grant_of_stored)
  with assms(2) obtain s where "p (Grant_ref gid) = Some (GS s)" "state_ok g sha s"
    by (elim wf_state) auto
  with \<open>balanced p rs\<close> have "gs_reserved_uses s = held p rs gid" "gs_consumed_uses s = spent p rs gid"
    "state_ok g sha s" by (auto simp: balanced_def)
  then show "0 \<le> held p rs gid" "0 \<le> spent p rs gid"
    and "g_max_uses g = Some m \<Longrightarrow> held p rs gid + spent p rs gid \<le> m"
    by (auto simp: state_ok_def accounting_ok_def split: option.splits)
qed

subsection \<open>Postings\<close>

text \<open>The changes of the used grants: every state is replaced by \<open>f\<close> of the units and the state\<close>

definition posts ::
  "(sref \<Rightarrow> pstate option) \<Rightarrow> (int \<Rightarrow> gstate \<Rightarrow> gstate) \<Rightarrow> grant_use list \<Rightarrow> (sref, pstate) change list \<Rightarrow> bool" where
  "posts p f us cs \<longleftrightarrow>
     list_all2 (\<lambda>u c. \<exists>s. p (Grant_ref (gu_grant_id u)) = Some (GS s) \<and>
       c = \<lparr>ch_ref = Grant_ref (gu_grant_id u), ch_before = Some (GS s), ch_after = GS (f (gu_units u) s)\<rparr>) us cs"

fun rank_of :: "pstate option \<Rightarrow> nat" where
  "rank_of None = 0"
| "rank_of (Some (GS s)) = Suc (nat (gs_version s))"
| "rank_of (Some (RS s)) = Suc (nat (rs_version s))"

definition final_status :: "grant_status \<Rightarrow> bool" where
  "final_status s = (s \<in> {Revoked, Expired, Exhausted})"

text \<open>
  The abstract account of a grant: the units held by open reservations and the units spent. Units
  are held within the budget, and held units are spent or freed; nothing else happens.
\<close>

inductive account_step :: "int option \<Rightarrow> int \<times> int \<Rightarrow> int \<times> int \<Rightarrow> bool" for budget where
  idle: "account_step budget a a"
| hold: "0 < n \<Longrightarrow> (\<And>m. budget = Some m \<Longrightarrow> h + s + n \<le> m) \<Longrightarrow> account_step budget (h, s) (h + n, s)"
| spend: "0 < n \<Longrightarrow> n \<le> h \<Longrightarrow> account_step budget (h, s) (h - n, s + n)"
| free: "0 < n \<Longrightarrow> n \<le> h \<Longrightarrow> account_step budget (h, s) (h - n, s)"

definition counters :: "gstate \<Rightarrow> int \<times> int" where
  "counters s = (gs_reserved_uses s, gs_consumed_uses s)"

lemma account_step_budget:
  assumes "account_step None a b" and "\<And>m. budget = Some m \<Longrightarrow> fst b + snd b \<le> m"
  shows "account_step budget a b"
  using assms(1)
proof cases
  case (hold n h s)
  then show ?thesis using assms(2) by (auto intro!: account_step.hold)
qed (auto intro: account_step.intros)

text \<open>
  A change raises the version, moves only open reservations and never back to reserved, keeps a
  final grant final, and moves the counters of a grant by a step of its account
\<close>

fun legal_move :: "pstate option \<Rightarrow> pstate \<Rightarrow> bool" where
  "legal_move None (RS s') = (rs_status s' = Rs_reserved)"
| "legal_move (Some (RS s)) (RS s') = (rs_status s \<in> {Rs_reserved, Rs_quarantined} \<and> rs_status s' \<noteq> Rs_reserved)"
| "legal_move (Some (GS s)) (GS s') =
     ((final_status (gs_status s) \<longrightarrow> final_status (gs_status s')) \<and> account_step None (counters s) (counters s'))"
| "legal_move _ _ = False"

definition raises :: "(sref, pstate) change list \<Rightarrow> bool" where
  "raises cs = (\<forall>c \<in> set cs. rank_of (ch_before c) < rank_of (Some (ch_after c)) \<and> legal_move (ch_before c) (ch_after c))"

lemma posts_Nil [simp]: "posts p f [] cs \<longleftrightarrow> cs = []"
  by (simp add: posts_def)

lemma posts_refs: "posts p f us cs \<Longrightarrow> map ch_ref cs = map (\<lambda>u. Grant_ref (gu_grant_id u)) us"
  unfolding posts_def by (induction us cs rule: list_all2_induct) auto

lemma posts_change:
  assumes "posts p f us cs" and "c \<in> set cs"
  obtains u s where "u \<in> set us" "p (Grant_ref (gu_grant_id u)) = Some (GS s)"
    "c = \<lparr>ch_ref = Grant_ref (gu_grant_id u), ch_before = Some (GS s), ch_after = GS (f (gu_units u) s)\<rparr>"
  using assms unfolding posts_def by (auto simp: list_all2_conv_all_nth in_set_conv_nth) blast

lemma posts_use:
  assumes "posts p f us cs" and "u \<in> set us" and "p (Grant_ref (gu_grant_id u)) = Some (GS s)"
  shows "\<lparr>ch_ref = Grant_ref (gu_grant_id u), ch_before = Some (GS s), ch_after = GS (f (gu_units u) s)\<rparr> \<in> set cs"
  using assms unfolding posts_def by (fastforce simp: list_all2_conv_all_nth in_set_conv_nth)

text \<open>One reservation moves from the state \<open>before\<close> to the state \<open>after\<close>\<close>

definition move :: "string \<Rightarrow> rstate option \<Rightarrow> rstate \<Rightarrow> (sref, pstate) change" where
  "move rid before after = \<lparr>ch_ref = Reservation_ref rid, ch_before = map_option RS before, ch_after = RS after\<rparr>"

lemma posting_post:
  assumes "posts p f us gcs" and "distinct (map gu_grant_id us)" and "p (Reservation_ref rid) = map_option RS before"
    and i_def: "i = (path, gcs @ [move rid before after])"
  shows "ready p i"
    and "u \<in> set us \<Longrightarrow> p (Grant_ref (gu_grant_id u)) = Some (GS s) \<Longrightarrow>
      post p i (Grant_ref (gu_grant_id u)) = Some (GS (f (gu_units u) s))"
    and "gid \<notin> gu_grant_id ` set us \<Longrightarrow> post p i (Grant_ref gid) = p (Grant_ref gid)"
    and "post p i (Reservation_ref rid) = Some (RS after)"
    and "k \<noteq> rid \<Longrightarrow> post p i (Reservation_ref k) = p (Reservation_ref k)"
proof -
  have refs: "map ch_ref (snd i) = map (\<lambda>u. Grant_ref (gu_grant_id u)) us @ [Reservation_ref rid]"
    using posts_refs [OF assms(1)] by (simp add: i_def move_def)
  then have dist: "distinct (map ch_ref (snd i))" using assms(2) by (auto simp: distinct_map inj_on_def)
  have refset: "ch_ref ` set (snd i) = (\<lambda>u. Grant_ref (gu_grant_id u)) ` set us \<union> {Reservation_ref rid}"
    using arg_cong [OF refs, of set] by auto
  show "ready p i"
    using dist assms(3) by (auto simp: ready_def i_def move_def elim!: posts_change [OF assms(1)])
  show "post p i (Grant_ref (gu_grant_id u)) = Some (GS (f (gu_units u) s))"
    if "u \<in> set us" "p (Grant_ref (gu_grant_id u)) = Some (GS s)"
    using post_changed [OF dist, of "\<lparr>ch_ref = Grant_ref (gu_grant_id u), ch_before = Some (GS s),
      ch_after = GS (f (gu_units u) s)\<rparr>" p] posts_use [OF assms(1) that] by (simp add: i_def)
  show "post p i (Reservation_ref rid) = Some (RS after)"
    using post_changed [OF dist, of "move rid before after" p] by (simp add: i_def move_def)
  show "gid \<notin> gu_grant_id ` set us \<Longrightarrow> post p i (Grant_ref gid) = p (Grant_ref gid)"
    and "k \<noteq> rid \<Longrightarrow> post p i (Reservation_ref k) = p (Reservation_ref k)"
    using post_other [of "Grant_ref gid" i p] post_other [of "Reservation_ref k" i p] by (auto simp: refset)
qed

text \<open>
  A posting keeps the books: the reservation \<open>rid\<close> moves, and the counters of its grants move with
  it. Either every use is settled, or none and the move does not touch the counters.
\<close>

definition carries :: "(int \<Rightarrow> gstate \<Rightarrow> gstate) \<Rightarrow> reservation_status option \<Rightarrow> reservation_status \<Rightarrow> bool" where
  "carries f a b \<longleftrightarrow> (\<forall>n s. gs_version (f n s) = gs_version s + 1 \<and>
     gs_reserved_uses (f n s) = gs_reserved_uses s + (open_weight (Some b) - open_weight a) * n \<and>
     gs_consumed_uses (f n s) = gs_consumed_uses s + (spent_weight (Some b) - spent_weight a) * n)"

definition neutral :: "reservation_status option \<Rightarrow> reservation_status \<Rightarrow> bool" where
  "neutral a b \<longleftrightarrow> open_weight a = open_weight (Some b) \<and> spent_weight a = spent_weight (Some b)"

lemma posting_books:
  assumes wf: "wf_store (at_proj st p)" and refs: "grant_refs_ok p" "\<And>k. k \<noteq> rid \<Longrightarrow> ref_ok p rs k"
    and dist: "distinct (map fst rs)" and rok: "list_all (reservation_ok st) rs" and bal: "balanced p rs"
    and names: "distinct (map fst (st_grants st))" and rv: "(rid, rv, sha) \<in> set rs"
    and posts: "posts p f us gcs" and before: "p (Reservation_ref rid) = map_option RS before"
    and us: "us = rv_grant_uses rv \<and> carries f (map_option rs_status before) (rs_status after) \<or>
       us = [] \<and> neutral (map_option rs_status before) (rs_status after)"
    and ok: "\<And>u g sha s. u \<in> set us \<Longrightarrow> grant_of st (gu_grant_id u) = Some (g, sha) \<Longrightarrow>
       p (Grant_ref (gu_grant_id u)) = Some (GS s) \<Longrightarrow> state_ok g sha s \<Longrightarrow> state_ok g sha (f (gu_units u) s)"
    and ver: "0 \<le> rs_version after"
    and i: "i = (path, gcs @ [move rid before after])"
  shows "books st rs (post p i)"
proof -
  have rvok: "distinct (map gu_grant_id (rv_grant_uses rv))" using rok rv by (auto simp: list_all_iff reservation_ok_def)
  with us have usd: "distinct (map gu_grant_id us)" by auto
  note q = posting_post [OF posts usd before i]
  let ?q = "post p i"
  have st_other: "status_at ?q k = status_at p k" if "k \<noteq> rid" for k using q(5) [OF that] by (simp add: status_at_def)
  have st_rid: "status_at ?q rid = Some (rs_status after)" using q(4) by (simp add: status_at_def)
  have st_before: "status_at p rid = map_option rs_status before"
    using before by (cases before) (simp_all add: status_at_def)
  have moved: "weighed w ?q rs gid = weighed w p rs gid +
      (w (Some (rs_status after)) - w (map_option rs_status before)) * units_at rv gid" for w gid
    using weighed_move [OF dist rv st_other, of w gid] by (simp add: st_rid st_before)
  have "wf_store (at_proj st ?q)"
  proof (rule wf_at_projI)
    fix gid assume "gid \<in> fst ` set (st_grants st)"
    then obtain g sha s where g: "grant_of st gid = Some (g, sha)" "g_grant_id g = gid" "link_ok st g"
      "p (Grant_ref gid) = Some (GS s)" "state_ok g sha s" by (rule wf_state [OF wf])
    show "entry_ok (at_proj st ?q) gid"
    proof (cases "gid \<in> gu_grant_id ` set us")
      case True
      then obtain u where u: "u \<in> set us" "gid = gu_grant_id u" by auto
      with g q(2) ok [OF u(1)] show ?thesis by (auto simp: entry_ok_at_proj)
    qed (use g q(3) in \<open>auto simp: entry_ok_at_proj\<close>)
  qed
  moreover have "balanced ?q rs"
    unfolding balanced_def
  proof (intro allI impI)
    fix gid s' assume s': "?q (Grant_ref gid) = Some (GS s')"
    show "gs_reserved_uses s' = held ?q rs gid \<and> gs_consumed_uses s' = spent ?q rs gid"
    proof (cases "gid \<in> gu_grant_id ` set us")
      case True
      then obtain u where u: "u \<in> set us" "gid = gu_grant_id u" by auto
      with posts obtain s where s: "p (Grant_ref gid) = Some (GS s)"
        by (auto simp: posts_def list_all2_conv_all_nth in_set_conv_nth)
      with bal have b: "gs_reserved_uses s = held p rs gid" "gs_consumed_uses s = spent p rs gid"
        by (auto simp: balanced_def)
      from u us have r: "us = rv_grant_uses rv" "carries f (map_option rs_status before) (rs_status after)" by auto
      with units_at_use [OF rvok] u have "units_at rv gid = gu_units u" by simp
      with r(2) b s' q(2) [OF u(1), of s] s u(2) show ?thesis by (simp add: moved carries_def)
    next
      case False
      with s' q(3) bal have b: "gs_reserved_uses s' = held p rs gid" "gs_consumed_uses s' = spent p rs gid"
        by (auto simp: balanced_def)
      from us False show ?thesis
        using units_at_unused [of gid rv] b by (auto simp: moved neutral_def)
    qed
  qed
  moreover have "grant_refs_ok ?q"
    unfolding grant_refs_ok_def
  proof (intro allI)
    fix gid s
    show "?q (Grant_ref gid) \<noteq> Some (RS s)"
    proof (cases "gid \<in> gu_grant_id ` set us")
      case True
      then obtain u where u: "u \<in> set us" "gid = gu_grant_id u" by auto
      with posts obtain s where "p (Grant_ref gid) = Some (GS s)"
        by (auto simp: posts_def list_all2_conv_all_nth in_set_conv_nth)
      with q(2) u show ?thesis by simp
    qed (use q(3) refs(1) in \<open>simp add: grant_refs_ok_def\<close>)
  qed
  moreover have "ref_ok ?q rs k" for k
  proof (cases "k = rid")
    case True
    with q(4) ver rv show ?thesis by (force simp: ref_ok_def)
  next
    case False
    with refs(2) q(5) show ?thesis by (simp add: ref_ok_def)
  qed
  ultimately show ?thesis using dist rok names by (simp add: books_def)
qed

lemma carries_account:
  assumes "carries f a b" and "open_weight a = 1" and "0 < n" and "n \<le> gs_reserved_uses s"
  shows "account_step None (counters s) (counters (f n s))"
proof -
  have c: "gs_reserved_uses (f n s) = gs_reserved_uses s + (open_weight (Some b) - 1) * n"
    "gs_consumed_uses (f n s) = gs_consumed_uses s + (spent_weight (Some b) - spent_weight a) * n"
    using assms(1,2) by (simp_all add: carries_def)
  have "spent_weight a = 0" using assms(2) by (auto simp: open_weight_def spent_weight_def split: if_splits)
  with c account_step.idle [of None "counters s"] account_step.spend [OF assms(3,4), of None "gs_consumed_uses s"]
    account_step.free [OF assms(3,4), of None "gs_consumed_uses s"]
  show ?thesis by (cases b) (simp_all add: counters_def open_weight_def spent_weight_def)
qed

lemma posting_raises:
  assumes "posts p f us gcs" and "\<And>n s. gs_version (f n s) = gs_version s + 1"
    and "\<And>gid s. p (Grant_ref gid) = Some (GS s) \<Longrightarrow> gid \<in> gu_grant_id ` set us \<Longrightarrow> 0 \<le> gs_version s"
    and "\<And>u s. u \<in> set us \<Longrightarrow> p (Grant_ref (gu_grant_id u)) = Some (GS s) \<Longrightarrow>
       (final_status (gs_status s) \<longrightarrow> final_status (gs_status (f (gu_units u) s))) \<and>
       account_step None (counters s) (counters (f (gu_units u) s))"
    and "case before of None \<Rightarrow> rs_status after = Rs_reserved
      | Some s \<Rightarrow> 0 \<le> rs_version s \<and> rs_version s < rs_version after \<and>
         rs_status s \<in> {Rs_reserved, Rs_quarantined} \<and> rs_status after \<noteq> Rs_reserved"
  shows "raises (gcs @ [move rid before after])"
proof -
  have "rank_of (ch_before c) < rank_of (Some (ch_after c)) \<and> legal_move (ch_before c) (ch_after c)" if "c \<in> set gcs" for c
  proof (rule posts_change [OF assms(1) that])
    fix u s assume u: "u \<in> set us" "p (Grant_ref (gu_grant_id u)) = Some (GS s)"
      and c: "c = \<lparr>ch_ref = Grant_ref (gu_grant_id u), ch_before = Some (GS s), ch_after = GS (f (gu_units u) s)\<rparr>"
    have "0 \<le> gs_version s" using assms(3) u by blast
    with assms(4) [OF u] show ?thesis by (simp add: c assms(2))
  qed
  moreover have "rank_of (ch_before (move rid before after)) < rank_of (Some (ch_after (move rid before after))) \<and>
      legal_move (ch_before (move rid before after)) (ch_after (move rid before after))"
    using assms(5) by (cases before) (auto simp: move_def)
  ultimately show ?thesis by (auto simp: raises_def)
qed

end
