(* ===== verification/Runs.thy ===== *)
theory Runs
  imports Ledger
begin

text \<open>
  Runs of a workspace: sequences of operations, each complete or interrupted by a crash. The
  invariant \<open>ledger\<close> relates the files to the history of the published intents, and holds in every
  workspace that a run from the empty one can reach.
\<close>

subsection \<open>The ledger of a workspace\<close>

text \<open>
  The published intents form a lawful history from the states \<open>p0\<close> that registration wrote; every
  projection has reached some point of it; all states on the way are well formed; and the books
  are balanced at its end.
\<close>

definition ledger :: "ws \<Rightarrow> (sref \<Rightarrow> pstate option) \<Rightarrow> (sref, pstate) intent list \<Rightarrow> bool" where
  "ledger w p0 h \<longleftrightarrow>
     lawful rank_of p0 h \<and> mset (intents_of w) = mset h \<and> crash_state p0 h (proj w) \<and>
     (\<forall>k \<le> length h. wf_store (at_proj (ws_store w) (replay p0 (take k h)))) \<and>
     books (ws_store w) (ws_reservations w) (replay p0 h)"

lemma proj_set_proj [simp]: "proj (set_proj q w) = q"
  by (simp add: proj_def set_proj_def)

lemma set_proj_simps [simp]:
  "ws_store (set_proj q w) = at_proj (ws_store w) q" "ws_decisions (set_proj q w) = ws_decisions w"
  "ws_reservations (set_proj q w) = ws_reservations w" "ws_use_receipts (set_proj q w) = ws_use_receipts w"
  "ws_release_receipts (set_proj q w) = ws_release_receipts w"
  "ws_reconciliation_receipts (set_proj q w) = ws_reconciliation_receipts w" "ws_events (set_proj q w) = ws_events w"
  "ws_verifications (set_proj q w) = ws_verifications w"
  "ws_execution_results (set_proj q w) = ws_execution_results w" "ws_evidence (set_proj q w) = ws_evidence w"
  "set_proj q (set_proj q' w) = set_proj q w"
  by (simp_all add: set_proj_def at_proj_def)

lemma intents_of_set_proj [simp]: "intents_of (set_proj q w) = intents_of w"
  by (simp add: intents_of_def reservation_intents_def use_intents_def release_intents_def
      reconciliation_intents_def event_intents_def)

lemma at_own_proj [simp]: "at_proj (ws_store w) (proj w) = ws_store w" "set_proj (proj w) w = w"
  by (simp_all add: proj_def at_proj_def set_proj_def)

lemma at_proj_eqI: "st_grants st = st_grants st' \<Longrightarrow> at_proj st p = at_proj st' p"
  by (simp add: at_proj_def)

lemma books_cong: "st_grants st = st_grants st' \<Longrightarrow> books st rs p = books st' rs p"
  by (simp add: books_def at_proj_eqI [of st st'] reservation_ok_def [abs_def])

lemma ledgerD:
  assumes "ledger w p0 h"
  shows "lawful rank_of p0 h" "mset (intents_of w) = mset h" "crash_state p0 h (proj w)"
    "books (ws_store w) (ws_reservations w) (replay p0 h)"
    and "k \<le> length h \<Longrightarrow> wf_store (at_proj (ws_store w) (replay p0 (take k h)))"
  using assms by (simp_all add: ledger_def)

text \<open>Every state of every grant is well formed, also between the writes of an operation\<close>

lemma ledger_wf:
  assumes "ledger w p0 h"
  shows "wf_store (ws_store w)"
proof -
  have "wf_store (at_proj (ws_store w) (proj w))"
  proof (rule wf_at_proj_cong)
    fix gid
    from ledgerD(3) [OF assms] obtain k where k: "k \<le> length h" "proj w (Grant_ref gid) = replay p0 (take k h) (Grant_ref gid)"
      by (auto simp: crash_state_def)
    with ledgerD(5) [OF assms k(1)]
    show "\<exists>q. wf_store (at_proj (ws_store w) q) \<and> proj w (Grant_ref gid) = q (Grant_ref gid)" by blast
  qed
  then show ?thesis by simp
qed

subsection \<open>Recovery\<close>

lemma ledger_recover:
  assumes "ledger w p0 h"
  shows "(\<exists>e. recover E W w = (Inl e, w)) \<or> (\<exists>out. recover E W w = (Inr out, set_proj (replay p0 h) w))"
proof (cases "load_intents E W w True")
  case (Inr intents)
  then have "intents = intents_of w" by (auto simp: load_intents_def result_simps)
  with Inr crash_recovery [OF ledgerD(1-3) [OF assms]] show ?thesis by (auto simp: recover_def)
qed (simp add: recover_def)

text \<open>The same artifacts, with projections that lie on the history\<close>

lemma ledger_same:
  assumes "ledger w p0 h" and "st_grants (ws_store w') = st_grants (ws_store w)"
    and "ws_reservations w' = ws_reservations w" and "mset (intents_of w') = mset (intents_of w)"
    and "crash_state p0 h (proj w')"
  shows "ledger w' p0 h"
  using assms by (simp add: ledger_def at_proj_eqI [of "ws_store w'" "ws_store w"] books_cong [OF assms(2)])

lemma crash_state_final: "crash_state p0 h (replay p0 h)"
  by (auto simp: crash_state_def intro: exI [of _ "length h"])

lemma crash_state_pointwise:
  "crash_state p0 h q \<Longrightarrow> crash_state p0 h q' \<Longrightarrow> (\<And>r. x r = q r \<or> x r = q' r) \<Longrightarrow> crash_state p0 h x"
  unfolding crash_state_def by metis

subsection \<open>Publication\<close>

lemma lawful_snoc:
  "lawful rank p (h @ [i]) \<longleftrightarrow> lawful rank p h \<and> ready (replay p h) i \<and>
     (\<forall>c \<in> set (snd i). rank (ch_before c) < rank (Some (ch_after c)))"
  by (induction h arbitrary: p) auto

lemma crash_state_extend:
  assumes "\<And>r. q r = replay p0 h r \<or> q r = post (replay p0 h) i r"
  shows "crash_state p0 (h @ [i]) q"
  unfolding crash_state_def
proof
  fix r
  have "replay p0 (take (length h) (h @ [i])) = replay p0 h"
    "replay p0 (take (Suc (length h)) (h @ [i])) = post (replay p0 h) i"
    by (simp_all add: replay_append)
  with assms [of r] show "\<exists>k \<le> length (h @ [i]). q r = replay p0 (take k (h @ [i])) r"
    by (metis le_add1 length_append length_append_singleton order_refl)
qed

text \<open>What an operation has to show of the intent it publishes in a recovered workspace\<close>

definition publishes :: "ws \<Rightarrow> ws \<Rightarrow> (sref \<Rightarrow> pstate option) \<Rightarrow> (sref, pstate) intent \<Rightarrow> bool" where
  "publishes w w' p i \<longleftrightarrow>
     st_grants (ws_store w') = st_grants (ws_store w) \<and>
     mset (intents_of w') = add_mset i (mset (intents_of w)) \<and>
     ready p i \<and> raises (snd i) \<and> books (ws_store w) (ws_reservations w') (post p i)"

lemma publishes_ledger:
  assumes "ledger w p0 h" and "publishes w w' (replay p0 h) i"
    and "\<And>r. proj w' r = replay p0 h r \<or> proj w' r = post (replay p0 h) i r"
  shows "ledger w' p0 (h @ [i])"
proof -
  note l = ledgerD [OF assms(1)] and pub = assms(2) [unfolded publishes_def raises_def]
  have "wf_store (at_proj (ws_store w') (replay p0 (take k (h @ [i]))))" if "k \<le> length (h @ [i])" for k
  proof (cases "k \<le> length h")
    case True
    with l(5) [OF True] pub show ?thesis by (simp add: at_proj_eqI [of "ws_store w'" "ws_store w"])
  next
    case False
    with that have "take k (h @ [i]) = h @ [i]" by simp
    moreover from pub have "wf_store (at_proj (ws_store w) (post (replay p0 h) i))" by (simp add: books_def)
    ultimately show ?thesis using pub by (simp add: replay_append at_proj_eqI [of "ws_store w'" "ws_store w"])
  qed
  with l pub crash_state_extend [OF assms(3)] show ?thesis
    by (simp add: ledger_def lawful_snoc replay_append books_cong [of "ws_store w'" "ws_store w"])
qed

text \<open>Applying the changes of an intent that is ready succeeds\<close>

lemma apply_ready:
  assumes "ready p i"
  shows "apply_each (snd i) p = (Inr (), post p i)"
proof -
  note a = apply_each_ready [of "snd i" p]
  from assms have d: "distinct (map ch_ref (snd i))" "\<And>c. c \<in> set (snd i) \<Longrightarrow> p (ch_ref c) = ch_before c"
    by (auto simp: ready_def)
  have "snd (apply_each (snd i) p) r = post p i r" for r
  proof (cases "r \<in> ch_ref ` set (snd i)")
    case True
    then obtain c where "c \<in> set (snd i)" "r = ch_ref c" by auto
    with a(2) [OF d] post_changed [OF d(1)] show ?thesis by simp
  next
    case False
    with a(3) [OF d] post_other [OF False] show ?thesis by simp
  qed
  with a(1) [OF d] show ?thesis by (auto simp: prod_eq_iff fun_eq_iff)
qed

lemma commit_ready:
  assumes "ready (proj w) (path, cs)" and "cs \<noteq> []"
  shows "commit cs x w = (Inr x, set_proj (post (proj w) (path, cs)) w)"
  using apply_ready [OF assms(1)] assms(2) by (simp add: commit_def apply_projection_changes_def Let_def)

lemma mset_entries_dput:
  assumes "map_of d k = None"
  shows "mset (map f (entries (dput k v d))) = add_mset (f (k, v)) (mset (map f (entries d)))"
  using assms by (simp add: entries_def dput_fresh map_of_eq_None_iff)

subsection \<open>Loading in a recovered workspace\<close>

lemma load_visible:
  assumes "books st rs p" and "load_grant E (at_proj st p) gid = Inr (g, sha, s)"
    and "gs_status s \<noteq> Draft \<or> state_of (at_proj st p) gid = Some s"
  shows "p (Grant_ref gid) = Some (GS s)" "grant_of st gid = Some (g, sha)" "g_grant_id g = gid" "state_ok g sha s"
    "gid \<in> fst ` set (st_grants st)"
proof -
  have st: "state_of (at_proj st p) gid = Some s" using assms(3) load_grant_state [OF assms(2)] by blast
  then show s: "p (Grant_ref gid) = Some (GS s)" by (simp split: option.splits pstate.splits)
  show g: "grant_of st gid = Some (g, sha)" using load_grant_grant_of [OF assms(2)] by simp
  then show i: "gid \<in> fst ` set (st_grants st)" by (rule grant_of_stored)
  have "wf_store (at_proj st p)" using assms(1) by (simp add: books_def)
  from wf_state [OF this i] g s show "g_grant_id g = gid" "state_ok g sha s" by (metis option.inject pstate.inject(1) prod.inject)+
qed

lemma load_reservation_facts:
  assumes "load_reservation E w ref digest = Inr (k, rv, s)"
  shows "(k, rv, digest) \<in> set (ws_reservations w)" "validate_reservation E w k rv = Inr ()"
    "rv_reservation_id rv = k" "proj w (Reservation_ref k) = Some (RS s)"
proof -
  from assms obtain sha where f: "List.find (\<lambda>e. artifact_ref ''reservations'' (fst e) = strip ref) (ws_reservations w)
      = Some (k, rv, sha)"
    and rest: "sha = digest" "validate_reservation E w k rv = Inr ()" "rstate_of w (rv_reservation_id rv) = Some s"
    by (auto simp: load_reservation_def find_ref_def result_simps split: option.splits)
  from f show "(k, rv, digest) \<in> set (ws_reservations w)" using rest(1) by (auto simp: find_Some_iff in_set_conv_nth)
  show v: "validate_reservation E w k rv = Inr ()" by (rule rest(2))
  then show i: "rv_reservation_id rv = k" by (auto simp: validate_reservation_def Let_def result_simps)
  from rest(3) i show "proj w (Reservation_ref k) = Some (RS s)"
    by (auto simp: rstate_of_def split: option.splits pstate.splits)
qed

lemma member_le_sum:
  fixes f :: "'a \<Rightarrow> int"
  assumes "\<And>x. x \<in> set xs \<Longrightarrow> 0 \<le> f x" and "y \<in> set xs"
  shows "f y \<le> sum_list (map f xs)"
  using assms
proof (induction xs)
  case (Cons x xs)
  moreover have "0 \<le> sum_list (map f xs)" using Cons.prems(1) by (intro sum_list_nonneg) auto
  ultimately show ?case by fastforce
qed simp

text \<open>An open reservation is counted in the reserved uses of its grants\<close>

lemma held_ge:
  assumes "books st rs p" and "(k, rv, sha) \<in> set rs" and "u \<in> set (rv_grant_uses rv)"
    and "open_weight (status_at p k) = 1"
  shows "gu_units u \<le> held p rs (gu_grant_id u)"
proof -
  let ?t = "\<lambda>e. open_weight (status_at p (fst e)) * units_at (fst (snd e)) (gu_grant_id u)"
  have rok: "reservation_ok st e" if "e \<in> set rs" for e using assms(1) that by (auto simp: books_def list_all_iff)
  have nonneg: "0 \<le> ?t e" if "e \<in> set rs" for e
  proof -
    have "0 \<le> units_at (fst (snd e)) (gu_grant_id u)"
      unfolding units_at_def using rok [OF that]
      by (intro sum_list_nonneg) (auto simp: reservation_ok_def list_all_iff less_imp_le)
    then show ?thesis by (simp add: open_weight_def)
  qed
  have "units_at rv (gu_grant_id u) = gu_units u"
    using rok [OF assms(2)] by (intro units_at_use assms(3)) (simp add: reservation_ok_def)
  with assms(4) have "gu_units u = ?t (k, rv, sha)" by simp
  also have "\<dots> \<le> sum_list (map ?t rs)"
    using nonneg assms(2) by (rule member_le_sum)
  finally show ?thesis by (simp add: weighed_def)
qed

subsection \<open>State updates within the budget\<close>

lemma carries_reserved: "carries (reserved_gstate ev) None Rs_reserved"
  by (simp add: carries_def reserved_gstate_def open_weight_def spent_weight_def)

lemma carries_consumed: "a \<in> {Rs_reserved, Rs_quarantined} \<Longrightarrow> carries (consumed_gstate ev) (Some a) Rs_consumed"
  by (auto simp: carries_def consumed_gstate_def Let_def open_weight_def spent_weight_def)

lemma carries_released: "a \<in> {Rs_reserved, Rs_quarantined} \<Longrightarrow> carries (released_gstate ev) (Some a) Rs_released"
  by (auto simp: carries_def released_gstate_def open_weight_def spent_weight_def)

lemma neutral_quarantine: "a \<in> {Rs_reserved, Rs_quarantined} \<Longrightarrow> neutral (Some a) Rs_quarantined"
  by (auto simp: neutral_def open_weight_def spent_weight_def)

lemma reserved_state_ok:
  assumes "state_ok g sha s" and "0 < n" and "\<And>rem. gs_remaining_uses s = Some rem \<Longrightarrow> n \<le> rem - gs_reserved_uses s"
  shows "state_ok g sha (reserved_gstate ev n s)"
  using assms by (auto simp: state_ok_def reserved_gstate_def accounting_ok_def split: option.splits)

lemma consumed_state_ok:
  assumes "state_ok g sha s" and "gs_status s = Active" and "0 < n" and "n \<le> gs_reserved_uses s"
  shows "state_ok g sha (consumed_gstate ev n s)"
  using assms by (auto simp: state_ok_def consumed_gstate_def accounting_ok_def Let_def split: option.splits)

lemma released_state_ok:
  assumes "state_ok g sha s" and "0 < n" and "n \<le> gs_reserved_uses s"
  shows "state_ok g sha (released_gstate ev n s)"
  using assms by (auto simp: state_ok_def released_gstate_def accounting_ok_def split: option.splits)

lemma transition_state_ok:
  assumes "state_ok g sha s" and "st \<in> {Revoked, Expired} \<or> st \<in> {Active, Suspended} \<and> gs_status s \<in> {Active, Suspended}"
  shows "state_ok g sha (transition_gstate ev st s)"
  using assms by (auto simp: state_ok_def transition_gstate_def accounting_ok_def split: option.splits)

subsection \<open>Sequencing\<close>

lemma bindS_simps [simp]: "bindS (Inl e, w) f = (Inl e, w)" "bindS (Inr x, w) f = f x w"
  by (simp_all add: bindS_def)

lemma lift_then:
  assumes "bindS (liftS r w) f = (res, w')"
  obtains (failed) "w' = w" | (passed) x where "r = Inr x" "f x w = (res, w')"
  using assms by (cases r) (auto simp: liftS_def)

lemma recover_then:
  assumes "ledger w p0 h" and "bindS (recover E W w) f = (res, w')"
  obtains (failed) "w' = w" | (recovered) out where "f out (set_proj (replay p0 h) w) = (res, w')"
  using ledger_recover [OF assms(1), of E W] assms(2) by auto

text \<open>
  The effect of an operation on the ledger: it posts nothing, and leaves the projections as they
  are or recovered, or it publishes one intent in the recovered workspace and applies it
\<close>

definition unposted :: "ws \<Rightarrow> ws \<Rightarrow> bool" where
  "unposted w w' \<longleftrightarrow> st_grants (ws_store w') = st_grants (ws_store w) \<and>
     ws_reservations w' = ws_reservations w \<and> intents_of w' = intents_of w"

definition advance :: "ws \<Rightarrow> ws \<Rightarrow> (sref \<Rightarrow> pstate option) \<Rightarrow> bool" where
  "advance w w' p \<longleftrightarrow> unposted w w' \<and> (proj w' = proj w \<or> proj w' = p) \<or>
     (\<exists>i. publishes w w' p i \<and> proj w' = post p i)"

lemma advance_refl [simp]: "advance w w p" "advance w (set_proj p w) p"
  by (simp_all add: advance_def unposted_def)

lemma advance_publish:
  assumes "publishes (set_proj p w) w1 p (path, cs)" and "proj w1 = p" and "cs \<noteq> []"
    and "commit cs x w1 = (res, w')"
  shows "advance w w' p"
proof -
  have r: "ready p (path, cs)" using assms(1) by (simp add: publishes_def)
  with assms(2-4) commit_ready [of w1 path cs x] have w': "w' = set_proj (post p (path, cs)) w1" by simp
  have "books (at_proj (ws_store w) p) rs q = books (ws_store w) rs q" for rs q by (rule books_cong) simp
  with assms(1) have "publishes w w' p (path, cs)" by (simp add: publishes_def w')
  with w' show ?thesis by (auto simp: advance_def)
qed

subsection \<open>Reservation\<close>

lemma dput_same: "map_of d k = Some v \<Longrightarrow> dput k v d = d"
  by (induction d) (auto split: if_splits)

lemma merge_bindings_facts:
  assumes "merge_bindings d bs = Inr d'" and "distinct (map fst d)" and "\<forall>e \<in> set d. fst e = gb_grant_id (snd e)"
  shows "distinct (map fst d')" "\<forall>e \<in> set d'. fst e = gb_grant_id (snd e)" "snd ` set d' = snd ` set d \<union> set bs"
proof -
  have put: "dput (gb_grant_id b) b d = d \<and> b \<in> snd ` set d \<or> dput (gb_grant_id b) b d = d @ [(gb_grant_id b, b)]"
    if "\<forall>e. map_of d (gb_grant_id b) = Some e \<longrightarrow> e = b" for b :: grant_binding and d
  proof (cases "map_of d (gb_grant_id b)")
    case None
    then show ?thesis by (simp add: dput_fresh map_of_eq_None_iff)
  next
    case (Some e)
    with that have "map_of d (gb_grant_id b) = Some b" by simp
    then show ?thesis using dput_same [of d "gb_grant_id b" b] map_of_SomeD [of d "gb_grant_id b" b]
      by (force simp: image_iff)
  qed
  have "distinct (map fst d') \<and> (\<forall>e \<in> set d'. fst e = gb_grant_id (snd e)) \<and> snd ` set d' = snd ` set d \<union> set bs"
    using assms
  proof (induction d bs rule: merge_bindings.induct)
    case (2 d b bs)
    from "2.prems"(1) have same: "\<forall>e. map_of d (gb_grant_id b) = Some e \<longrightarrow> e = b"
      and rest: "merge_bindings (dput (gb_grant_id b) b d) bs = Inr d'"
      by (auto split: if_splits option.splits)
    have guard: "\<not> (case map_of d (gb_grant_id b) of None \<Rightarrow> False | Some e \<Rightarrow> e \<noteq> b)"
      using same by (auto split: option.splits)
    from put [OF same] "2.prems"(3) have keys: "\<forall>e \<in> set (dput (gb_grant_id b) b d). fst e = gb_grant_id (snd e)" by auto
    from "2.IH" [OF guard rest dput_distinct [OF "2.prems"(2)] keys] put [OF same] show ?case by auto
  qed simp
  then show "distinct (map fst d')" "\<forall>e \<in> set d'. fst e = gb_grant_id (snd e)" "snd ` set d' = snd ` set d \<union> set bs"
    by simp_all
qed

lemma decision_grant_bindings_facts:
  assumes "decision_grant_bindings a = Inr bs"
  shows "distinct (map gb_grant_id bs)" "set bs = set (da_selected_grants a @ da_lineage_grants a)"
proof -
  from assms obtain d where d: "merge_bindings [] (da_selected_grants a @ da_lineage_grants a) = Inr d"
    and bs: "bs = map snd (sort_key fst d)" by (auto simp: decision_grant_bindings_def result_simps)
  note m = merge_bindings_facts [OF d]
  have "map gb_grant_id bs = map fst (sort_key fst d)" using m(2) by (auto simp: bs)
  then show "distinct (map gb_grant_id bs)" using m(1) by (simp add: distinct_map_sort_key)
  show "set bs = set (da_selected_grants a @ da_lineage_grants a)" using m(3) by (auto simp: bs)
qed

lemma validate_selected_grant_loads:
  "validate_selected_grant E st vs r now b = Inr x \<Longrightarrow>
   load_grant E st (gb_grant_id b) = Inr x \<and> gs_status (snd (snd x)) = Active"
  by (auto simp: validate_selected_grant_def result_simps split: prod.splits)

lemma validate_selected_grants_facts:
  assumes "validate_selected_grants E st vs r now bs = Inr records"
  shows "list_all2 (\<lambda>b x. load_grant E st (gb_grant_id b) = Inr x \<and> gs_status (snd (snd x)) = Active) bs records"
  using assms unfolding validate_selected_grants_def mapE_eq_Inr
  by (rule list_all2_mono) (rule validate_selected_grant_loads)

lemma reserve_posts:
  assumes "mapE (reserve_one rid n) records = Inr xs"
    and "\<And>x. x \<in> set records \<Longrightarrow> p (Grant_ref (g_grant_id (fst x))) = Some (GS (snd (snd x)))"
  shows "posts p (reserved_gstate rid) (map fst xs) (map snd xs)"
    and "map gu_grant_id (map fst xs) = map (\<lambda>x. g_grant_id (fst x)) records"
    and "u \<in> set (map fst xs) \<Longrightarrow> gu_units u = n \<and> (\<exists>x \<in> set records. gu_grant_id u = g_grant_id (fst x) \<and>
      (\<forall>rem. gs_remaining_uses (snd (snd x)) = Some rem \<longrightarrow> n \<le> rem - gs_reserved_uses (snd (snd x))))"
proof -
  have "posts p (reserved_gstate rid) (map fst xs) (map snd xs) \<and>
    map gu_grant_id (map fst xs) = map (\<lambda>x. g_grant_id (fst x)) records \<and>
    (\<forall>u \<in> set (map fst xs). gu_units u = n \<and> (\<exists>x \<in> set records. gu_grant_id u = g_grant_id (fst x) \<and>
      (\<forall>rem. gs_remaining_uses (snd (snd x)) = Some rem \<longrightarrow> n \<le> rem - gs_reserved_uses (snd (snd x)))))"
    using assms unfolding mapE_eq_Inr
  proof (induction records xs rule: list_all2_induct)
    case (Cons x xs y ys)
    from Cons.hyps(1) have y: "gu_grant_id (fst y) = g_grant_id (fst x)" "gu_units (fst y) = n"
      "snd y = \<lparr>ch_ref = Grant_ref (g_grant_id (fst x)), ch_before = Some (GS (snd (snd x))),
        ch_after = GS (reserved_gstate rid n (snd (snd x)))\<rparr>"
      "\<forall>rem. gs_remaining_uses (snd (snd x)) = Some rem \<longrightarrow> n \<le> rem - gs_reserved_uses (snd (snd x))"
      by (auto simp: reserve_one_def Let_def split: if_splits option.splits)
    with Cons.IH Cons.prems show ?case by (auto simp: posts_def)
  qed (simp add: posts_def)
  then show "posts p (reserved_gstate rid) (map fst xs) (map snd xs)"
    and "map gu_grant_id (map fst xs) = map (\<lambda>x. g_grant_id (fst x)) records"
    and "u \<in> set (map fst xs) \<Longrightarrow> gu_units u = n \<and> (\<exists>x \<in> set records. gu_grant_id u = g_grant_id (fst x) \<and>
      (\<forall>rem. gs_remaining_uses (snd (snd x)) = Some rem \<longrightarrow> n \<le> rem - gs_reserved_uses (snd (snd x))))"
    by blast+
qed

lemma reservation_units_pos:
  assumes "validate_request d = Inr r"
  shows "0 < reservation_units r"
proof -
  from assms obtain c u ev where "request_accepted d c u ev r" by (rule request_acceptedE)
  then have "request_budget d = Inr (rq_use_budget_requested r, rq_reservation_units r, u)"
    by (simp add: request_accepted_def)
  then show ?thesis
    by (auto simp: request_budget_def positive_int_field_def reservation_units_def result_simps Let_def
        split: json.splits if_splits option.splits)
qed

lemma plan_reservation_facts:
  assumes "plan_reservation E w decision a rid reserved_at key = Inr rv"
  obtains bs at records xs where "decision_grant_bindings a = Inr bs"
    "validate_selected_grants E (ws_store w) None (da_request a) at bs = Inr records"
    "mapE (reserve_one rid (reservation_units (da_request a))) records = Inr xs"
    "rv_reservation_id rv = rid" "rv_grant_uses rv = map fst xs"
    "rv_state_changes rv = map snd xs @ [move rid None (reserved_rstate rid)]"
  using assms [unfolded plan_reservation_def Let_def result_simps]
  by (elim exE conjE) (rule that; (assumption | auto simp: move_def))

text \<open>The records of a plan: the stored states of different grants, all active\<close>

lemma selected_records:
  assumes "books st rs p" and "validate_selected_grants E (at_proj st p) vs r at bs = Inr records"
    and "distinct (map gb_grant_id bs)"
  shows "\<And>x. x \<in> set records \<Longrightarrow> p (Grant_ref (g_grant_id (fst x))) = Some (GS (snd (snd x))) \<and>
      grant_of st (g_grant_id (fst x)) = Some (fst x, fst (snd x)) \<and> state_ok (fst x) (fst (snd x)) (snd (snd x)) \<and>
      gs_status (snd (snd x)) = Active"
    and "map (\<lambda>x. g_grant_id (fst x)) records = map gb_grant_id bs"
proof -
  note v = validate_selected_grants_facts [OF assms(2)]
  have one: "p (Grant_ref (g_grant_id (fst x))) = Some (GS (snd (snd x))) \<and>
      grant_of st (g_grant_id (fst x)) = Some (fst x, fst (snd x)) \<and> state_ok (fst x) (fst (snd x)) (snd (snd x)) \<and>
      g_grant_id (fst x) = gb_grant_id b"
    if "load_grant E (at_proj st p) (gb_grant_id b) = Inr x \<and> gs_status (snd (snd x)) = Active" for b x
    using load_visible [OF assms(1), of E "gb_grant_id b" "fst x" "fst (snd x)" "snd (snd x)"] that by simp
  show "p (Grant_ref (g_grant_id (fst x))) = Some (GS (snd (snd x))) \<and>
      grant_of st (g_grant_id (fst x)) = Some (fst x, fst (snd x)) \<and> state_ok (fst x) (fst (snd x)) (snd (snd x)) \<and>
      gs_status (snd (snd x)) = Active" if "x \<in> set records" for x
    using mapE_set [OF assms(2) [unfolded validate_selected_grants_def] that] one
    by (blast dest: validate_selected_grant_loads)
  show "map (\<lambda>x. g_grant_id (fst x)) records = map gb_grant_id bs"
    using v
  proof (induction bs records rule: list_all2_induct)
    case (Cons b bs x xs)
    then show ?case using one [OF Cons.hyps(1)] by simp
  qed simp
qed

lemma new_reservation_books:
  assumes "books st rs p" and "map_of rs rid = None"
  shows "rid \<notin> fst ` set rs" "p (Reservation_ref rid) = None" "status_at p rid = None"
proof -
  show n: "rid \<notin> fst ` set rs" using assms(2) by (simp add: map_of_eq_None_iff)
  have "ref_ok p rs rid" using assms(1) by (simp add: books_def)
  with n show "p (Reservation_ref rid) = None" by (auto simp: ref_ok_def split: option.splits pstate.splits)
  then show "status_at p rid = None" by (simp add: status_at_def)
qed

lemma plan_reservation_posts:
  assumes bk: "books st rs p" and w: "ws_store w = at_proj st p" and new: "map_of rs rid = None"
    and req: "validate_request (request_json (da_request a)) = Inr (da_request a)"
    and plan: "plan_reservation E w decision a rid reserved_at key = Inr rv"
  shows "ready p (path, rv_state_changes rv)" "raises (rv_state_changes rv)" "rv_state_changes rv \<noteq> []"
    and "books st (dput rid (rv, sha) rs) (post p (path, rv_state_changes rv))"
proof -
  from plan obtain bs at records xs where bs: "decision_grant_bindings a = Inr bs"
    and sel: "validate_selected_grants E (at_proj st p) None (da_request a) at bs = Inr records"
    and xs: "mapE (reserve_one rid (reservation_units (da_request a))) records = Inr xs"
    and rid: "rv_reservation_id rv = rid" and uses: "rv_grant_uses rv = map fst xs"
    and cs: "rv_state_changes rv = map snd xs @ [move rid None (reserved_rstate rid)]"
    by (rule plan_reservation_facts) (simp add: w)
  note dbs = decision_grant_bindings_facts(1) [OF bs]
  note rec = selected_records [OF bk sel dbs]
  note post = reserve_posts [OF xs, of p]
  have ps: "posts p (reserved_gstate rid) (map fst xs) (map snd xs)" using post(1) rec(1) by blast
  have ids: "map gu_grant_id (map fst xs) = map gb_grant_id bs" using post(2) rec by simp
  have pos: "0 < reservation_units (da_request a)" using req by (rule reservation_units_pos)
  have unit: "gu_units u = reservation_units (da_request a) \<and> (\<exists>g sha s. grant_of st (gu_grant_id u) = Some (g, sha) \<and>
      p (Grant_ref (gu_grant_id u)) = Some (GS s) \<and> state_ok g sha s \<and>
      (\<forall>rem. gs_remaining_uses s = Some rem \<longrightarrow> gu_units u \<le> rem - gs_reserved_uses s))"
    if "u \<in> set (map fst xs)" for u
    using post(3) [OF _ that] rec(1) by metis
  note n = new_reservation_books [OF bk new]
  let ?rs = "dput rid (rv, sha) rs"
  have rs': "?rs = rs @ [(rid, rv, sha)]" using n(1) by (rule dput_fresh)
  have rok: "reservation_ok st (rid, rv, sha)"
    unfolding reservation_ok_def using rid uses ids dbs pos unit
    by (auto simp: list_all_iff dest: grant_of_stored)
  have before: "p (Reservation_ref rid) = map_option RS None" using n(2) by simp
  have d: "distinct (map gu_grant_id (map fst xs))" using ids dbs by simp
  show "ready p (path, rv_state_changes rv)" using posting_post(1) [OF ps d before refl] by (simp add: cs)
  show "rv_state_changes rv \<noteq> []" by (simp add: cs)
  show "raises (rv_state_changes rv)"
    unfolding cs
  proof (rule posting_raises [OF ps])
    show "(final_status (gs_status s) \<longrightarrow> final_status (gs_status (reserved_gstate rid (gu_units u) s))) \<and>
        account_step None (counters s) (counters (reserved_gstate rid (gu_units u) s))" if "u \<in> set (map fst xs)" for u s
      using unit [OF that] pos by (auto simp: counters_def reserved_gstate_def intro: account_step.hold)
  qed (use unit in \<open>force simp: reserved_gstate_def reserved_rstate_def state_ok_def\<close>)+
  show "books st ?rs (post p (path, rv_state_changes rv))"
    unfolding cs
  proof (rule posting_books [where p = p and rv = rv and f = "reserved_gstate rid" and us = "map fst xs"])
    show "balanced p ?rs"
      using bk n(3) by (simp add: books_def balanced_def rs' weighed_snoc_new)
    show "state_ok g sha (reserved_gstate rid (gu_units u) s)"
      if "u \<in> set (map fst xs)" "grant_of st (gu_grant_id u) = Some (g, sha)"
        "p (Grant_ref (gu_grant_id u)) = Some (GS s)" "state_ok g sha s" for u g sha s
      using that unit [OF that(1)] pos by (intro reserved_state_ok) auto
    show "ref_ok p ?rs k" if "k \<noteq> rid" for k
    proof -
      have "ref_ok p rs k" using bk by (simp add: books_def)
      with that show ?thesis by (simp add: ref_ok_def rs' split: option.splits pstate.splits)
    qed
    show "map fst xs = rv_grant_uses rv \<and> carries (reserved_gstate rid) (map_option rs_status None)
        (rs_status (reserved_rstate rid)) \<or>
      map fst xs = [] \<and> neutral (map_option rs_status None) (rs_status (reserved_rstate rid))"
      by (simp add: uses carries_reserved reserved_rstate_def)
  qed (use bk n rok ps before in \<open>auto simp: books_def rs' reserved_rstate_def\<close>)
qed

lemma load_reservable_request:
  assumes "load_reservable_decision E w ref digest key = Inr (k, a, rid)"
  shows "validate_request (request_json (da_request a)) = Inr (da_request a)"
proof -
  from assms obtain did where "validate_decision_at E (ws_store w) k did a = Inr ()"
    by (auto simp: load_reservable_decision_def result_simps split: prod.splits)
  then have "validate_decision_artifact E (ws_store w) did a = Inr ()"
    by (auto simp: validate_decision_at_def result_simps)
  then show ?thesis by (auto simp: validate_decision_artifact_def Let_def result_simps)
qed

lemma reservation_intents_publish:
  assumes "map_of (ws_reservations w) rid = None"
  shows "mset (intents_of (w\<lparr>ws_reservations := dput rid (rv, sha) (ws_reservations w)\<rparr>)) =
    add_mset (intent_path ''reservations'' rid, rv_state_changes rv) (mset (intents_of w))"
  using mset_entries_dput [OF assms, of "\<lambda>(k, rv, _). (intent_path ''reservations'' k, rv_state_changes rv)" "(rv, sha)"]
  by (simp add: intents_of_def reservation_intents_def use_intents_def release_intents_def
      reconciliation_intents_def event_intents_def)

lemma publish_reservation_advance:
  assumes "books (ws_store w) (ws_reservations w) p" and "map_of (ws_reservations w) rid = None"
    and "validate_request (request_json (da_request a)) = Inr (da_request a)"
    and plan: "plan_reservation E (set_proj p w) decision a rid reserved_at key = Inr rv"
    and run: "publish_reservation E rv (set_proj p w) = (res, w')"
  shows "advance w w' p"
proof -
  let ?sha = "file_digest E (reservation_json rv)" and ?path = "intent_path ''reservations'' rid"
  let ?w1 = "(set_proj p w)\<lparr>ws_reservations := dput rid (rv, ?sha) (ws_reservations w)\<rparr>"
  note posts = plan_reservation_posts [OF assms(1) _ assms(2,3) plan]
  have rid: "rv_reservation_id rv = rid" using plan by (rule plan_reservation_facts)
  show ?thesis
  proof (rule advance_publish)
    show "publishes (set_proj p w) ?w1 p (?path, rv_state_changes rv)"
      using posts reservation_intents_publish [of "set_proj p w" rid rv ?sha] assms(2)
      by (simp add: publishes_def books_cong [of "at_proj (ws_store w) p" "ws_store w"])
    show "proj ?w1 = p" by (simp add: proj_def)
    show "rv_state_changes rv \<noteq> []" using posts(3) by simp
    show "commit (rv_state_changes rv) (rv, \<lparr>b_ref = artifact_ref ''reservations'' rid, b_sha256 = ?sha\<rparr>,
        reserved_rstate rid) ?w1 = (res, w')"
      using run by (simp add: publish_reservation_def Let_def rid)
  qed
qed

lemma reserve_advance:
  assumes "ledger w p0 h" and "reserve E W w ref digest reserved_at key = (res, w')"
  shows "advance w w' (replay p0 h)"
  using assms(2) [unfolded reserve_def]
proof (cases rule: lift_then)
  case (passed x)
  obtain k a rid where x: "x = (k, a, rid)" by (cases x)
  note req = load_reservable_request [OF passed(1) [unfolded x]]
  from passed(2) have "bindS (recover E W w) (\<lambda>_ w. case map_of (ws_reservations w) rid of
       Some x \<Rightarrow> liftS (replay_reservation E W w \<lparr>b_ref = artifact_ref ''decisions'' k, b_sha256 = digest\<rparr> rid key x) w
     | None \<Rightarrow> bindS (liftS (plan_reservation E w \<lparr>b_ref = artifact_ref ''decisions'' k, b_sha256 = digest\<rparr> a rid
          reserved_at key) w) (\<lambda>rv w. publish_reservation E rv w)) = (res, w')" by (simp add: x Let_def)
  then show ?thesis
  proof (cases rule: recover_then [OF assms(1), consumes 1, case_names failed recovered])
    case (recovered out)
    show ?thesis
    proof (cases "map_of (ws_reservations w) rid")
      case None
      with recovered have "bindS (liftS (plan_reservation E (set_proj (replay p0 h) w)
          \<lparr>b_ref = artifact_ref ''decisions'' k, b_sha256 = digest\<rparr> a rid reserved_at key) (set_proj (replay p0 h) w))
          (\<lambda>rv w. publish_reservation E rv w) = (res, w')" by simp
      then show ?thesis
      proof (cases rule: lift_then)
        case (passed rv)
        from publish_reservation_advance [OF ledgerD(4) [OF assms(1)] None req passed] show ?thesis .
      qed simp
    qed (use recovered in \<open>auto simp: liftS_def\<close>)
  qed simp
qed simp

subsection \<open>Settlement\<close>

lemma settled_not_reserved [simp]: "release_status e \<noteq> Rs_reserved" "outcome_status out \<noteq> Rs_reserved"
  by (simp_all add: release_status_def outcome_status_def split: outcome.splits)

lemma settle_reservation_move: "settle_reservation ev b s k = move k (Some s) (settled_rstate ev b s)"
  by (simp add: settle_reservation_def move_def)

lemma settlement_advance:
  assumes bk: "books (ws_store w) (ws_reservations w) p" and rv: "(k, rv, sha) \<in> set (ws_reservations w)"
    and s: "p (Reservation_ref k) = Some (RS s)"
    and posts: "posts p f us gcs" and f: "\<And>n s. gs_version (f n s) = gs_version s + 1"
    and us: "us = rv_grant_uses rv \<and> carries f (Some (rs_status s)) b \<or> us = [] \<and> neutral (Some (rs_status s)) b"
    and ok: "\<And>u g sha s. u \<in> set us \<Longrightarrow> grant_of (ws_store w) (gu_grant_id u) = Some (g, sha) \<Longrightarrow>
       p (Grant_ref (gu_grant_id u)) = Some (GS s) \<Longrightarrow> state_ok g sha s \<Longrightarrow> state_ok g sha (f (gu_units u) s)"
    and fin: "\<And>u s. u \<in> set us \<Longrightarrow> p (Grant_ref (gu_grant_id u)) = Some (GS s) \<Longrightarrow>
       final_status (gs_status s) \<Longrightarrow> final_status (gs_status (f (gu_units u) s))"
    and held: "rs_status s \<in> {Rs_reserved, Rs_quarantined}" and b: "b \<noteq> Rs_reserved"
    and w1: "st_grants (ws_store w1) = st_grants (ws_store w)" "proj w1 = p" "ws_reservations w1 = ws_reservations w"
      "mset (intents_of w1) = add_mset (path, gcs @ [settle_reservation ev b s k]) (mset (intents_of w))"
    and run: "commit (gcs @ [settle_reservation ev b s k]) x w1 = (res, w')"
  shows "advance w w' p"
proof -
  let ?a = "settled_rstate ev b s" and ?cs = "gcs @ [settle_reservation ev b s k]"
  have rok: "list_all (reservation_ok (ws_store w)) (ws_reservations w)" and wf: "wf_store (at_proj (ws_store w) p)"
    using bk by (simp_all add: books_def)
  have ver: "0 \<le> rs_version s"
  proof -
    have "ref_ok p (ws_reservations w) k" using bk by (simp add: books_def)
    with s show ?thesis by (simp add: ref_ok_def)
  qed
  have before: "p (Reservation_ref k) = map_option RS (Some s)" using s by simp
  have d: "distinct (map gu_grant_id us)" using us rok rv by (auto simp: list_all_iff reservation_ok_def)
  have used: "gid \<in> fst ` set (st_grants (ws_store w))" if "gid \<in> gu_grant_id ` set us" for gid
    using us that rok rv by (auto simp: list_all_iff reservation_ok_def)
  have "ready p (path, ?cs)"
    using posting_post(1) [OF posts d before refl] by (simp add: settle_reservation_move)
  moreover have "raises ?cs"
    unfolding settle_reservation_move
  proof (rule posting_raises [OF posts f])
    fix gid s' assume s': "p (Grant_ref gid) = Some (GS s')" "gid \<in> gu_grant_id ` set us"
    from wf_state [OF wf used [OF s'(2)]] s'(1) show "0 \<le> gs_version s'" by (auto simp: state_ok_def)
  next
    fix u s' assume u: "u \<in> set us" "p (Grant_ref (gu_grant_id u)) = Some (GS s')"
    have c: "us = rv_grant_uses rv" "carries f (Some (rs_status s)) b" using us u(1) by auto
    have "open_weight (status_at p k) = 1" using s held by (auto simp: status_at_def open_weight_def)
    from held_ge [OF bk rv _ this] u bk have "gu_units u \<le> gs_reserved_uses s'"
      by (auto simp: c(1) books_def balanced_def)
    moreover have "0 < gu_units u" using rok rv u(1) c(1) by (auto simp: list_all_iff reservation_ok_def)
    ultimately have "account_step None (counters s') (counters (f (gu_units u) s'))"
      using held by (intro carries_account [OF c(2)]) (auto simp: open_weight_def)
    with fin [OF u] show "(final_status (gs_status s') \<longrightarrow> final_status (gs_status (f (gu_units u) s'))) \<and>
        account_step None (counters s') (counters (f (gu_units u) s'))" by blast
  qed (use ver b held in \<open>simp add: settled_rstate_def\<close>)
  moreover have "books (ws_store w) (ws_reservations w) (post p (path, ?cs))"
    unfolding settle_reservation_move
    by (rule posting_books [where p = p and rv = rv and f = f and us = us and gcs = gcs and before = "Some s" and after = ?a])
       (use bk rv posts before us ok ver in \<open>simp_all add: books_def settled_rstate_def\<close>)
  ultimately have "publishes (set_proj p w) w1 p (path, ?cs)"
    using w1 by (simp add: publishes_def books_cong [of "at_proj (ws_store w) p" "ws_store w"])
  then show ?thesis by (rule advance_publish [OF _ w1(2) _ run]) simp
qed

text \<open>The common start of the settlements: recover, load the reservation, go on\<close>

lemma recover_load_advance:
  assumes "ledger w p0 h"
    and "bindS (recover E W w) (\<lambda>_ w. bindS (liftS (load_reservation E w ref digest) w) after) = (res, w')"
    and "\<And>k rv s. load_reservation E (set_proj (replay p0 h) w) ref digest = Inr (k, rv, s) \<Longrightarrow>
      after (k, rv, s) (set_proj (replay p0 h) w) = (res, w') \<Longrightarrow> advance w w' (replay p0 h)"
  shows "advance w w' (replay p0 h)"
  using assms(2)
proof (cases rule: recover_then [OF assms(1), consumes 1, case_names failed recovered])
  case (recovered out)
  then show ?thesis
  proof (cases rule: lift_then)
    case (passed y)
    then show ?thesis using assms(3) by (cases y) auto
  qed simp
qed simp

lemma settle_change_posts:
  assumes "mapE (settle_change E (at_proj st p) f) us = Inr xs"
    and "\<And>u g sha s. u \<in> set us \<Longrightarrow> load_grant E (at_proj st p) (gu_grant_id u) = Inr (g, sha, s) \<Longrightarrow>
      p (Grant_ref (gu_grant_id u)) = Some (GS s)"
  shows "posts p f us (map snd xs)"
  using assms unfolding mapE_eq_Inr posts_def
proof (induction us xs rule: list_all2_induct)
  case (Cons u us x xs)
  then show ?case by (auto simp: settle_change_def result_simps Let_def split: prod.splits)
qed simp

subsection \<open>Consumption\<close>

lemma reservation_uses_bound:
  assumes "validate_reservation E w k rv = Inr ()"
    and "load_bound_decision E w (b_ref (rv_decision rv)) (b_sha256 (rv_decision rv)) = Inr (dk, did, a)"
  shows "set (map gu_grant_id (rv_grant_uses rv)) = set (map gb_grant_id (da_selected_grants a @ da_lineage_grants a))"
    and "distinct (map gu_grant_id (rv_grant_uses rv))" and "u \<in> set (rv_grant_uses rv) \<Longrightarrow> 0 < gu_units u"
proof -
  from assms(1) obtain dk' did' a' bindings where a': "bound_decision w (rv_decision rv) = Inr (dk', did', a')"
    and b: "validate_reserved_decision E (ws_store w) dk' did' a' = Inr bindings"
    and uses: "set (map gu_grant_id (rv_grant_uses rv)) = set (map gb_grant_id bindings)"
      "distinct (map gu_grant_id (rv_grant_uses rv))" "list_all grant_use_ok (rv_grant_uses rv)"
    by (auto simp: validate_reservation_def Let_def result_simps split: prod.splits)
  have "a' = a" using a' assms(2)
    by (auto simp: bound_decision_def load_bound_decision_def result_simps split: prod.splits)
  with b have "bindings = da_selected_grants a @ da_lineage_grants a"
    by (auto simp: validate_reserved_decision_def Let_def result_simps)
  with uses(1) show "set (map gu_grant_id (rv_grant_uses rv)) = set (map gb_grant_id (da_selected_grants a @ da_lineage_grants a))"
    by simp
  show "distinct (map gu_grant_id (rv_grant_uses rv))" by (rule uses(2))
  show "u \<in> set (rv_grant_uses rv) \<Longrightarrow> 0 < gu_units u" using uses(3) by (auto simp: list_all_iff grant_use_ok_def)
qed

lemma find_use:
  assumes "distinct (map gu_grant_id us)" and "u \<in> set us"
  shows "List.find (\<lambda>v. gu_grant_id v = gu_grant_id u) us = Some u"
  using assms by (induction us) (auto simp: image_iff)

lemma verify_reservation_steps:
  assumes "verify_reservation E w rv s at v vs = Inr (a, views)"
  obtains dk did bs t records where "validate_reservation E w (rv_reservation_id rv) rv = Inr ()"
    "rs_status s = Rs_reserved" "rs_version s = v"
    "load_bound_decision E w (b_ref (rv_decision rv)) (b_sha256 (rv_decision rv)) = Inr (dk, did, a)"
    "decision_grant_bindings a = Inr bs"
    "validate_selected_grants E (ws_store w) (Some (map_of (rev (map (\<lambda>u. (gu_grant_id u, gu_state_version_after u))
       (rv_grant_uses rv))))) (da_request a) t bs = Inr records"
    "\<And>x. x \<in> set records \<Longrightarrow> units_held (rv_grant_uses rv) x = Inr ()"
proof -
  from assms [unfolded verify_reservation_def Let_def result_simps]
  obtain d bs t records us where st: "validate_stored_reservation E w rv = Inr ()"
    and s: "rs_status s = Rs_reserved" "rs_version s = v"
    and d: "load_bound_decision E w (b_ref (rv_decision rv)) (b_sha256 (rv_decision rv)) = Inr d" "snd (snd d) = a"
    and bs: "decision_grant_bindings a = Inr bs"
    and rec: "validate_selected_grants E (ws_store w) (Some (map_of (rev (map (\<lambda>u. (gu_grant_id u, gu_state_version_after u))
       (rv_grant_uses rv))))) (da_request a) t bs = Inr records"
    and held: "mapE (units_held (rv_grant_uses rv)) records = Inr us"
    by (auto simp: result_simps split: prod.splits)
  from st have "validate_reservation E w (rv_reservation_id rv) rv = Inr ()"
    by (auto simp: validate_stored_reservation_def split: option.splits if_splits)
  moreover have "units_held (rv_grant_uses rv) x = Inr ()" if "x \<in> set records" for x
    using held that by (auto simp: mapE_eq_Inr list_all2_conv_all_nth in_set_conv_nth)
  ultimately show thesis using that [of "fst d" "fst (snd d)" bs t records] s d bs rec by (metis prod.collapse)
qed

lemma verified_use:
  assumes "books st rs p" and "ws_store w = at_proj st p"
    and "verify_reservation E w rv s at v vs = Inr (a, views)" and "u \<in> set (rv_grant_uses rv)"
  shows "\<exists>g sha gs. p (Grant_ref (gu_grant_id u)) = Some (GS gs) \<and> gs_status gs = Active \<and>
    load_grant E (at_proj st p) (gu_grant_id u) = Inr (g, sha, gs) \<and> gu_units u \<le> gs_reserved_uses gs \<and> 0 < gu_units u"
proof (rule verify_reservation_steps [OF assms(3)])
  fix dk did bs t records
  assume v: "validate_reservation E w (rv_reservation_id rv) rv = Inr ()"
    and d: "load_bound_decision E w (b_ref (rv_decision rv)) (b_sha256 (rv_decision rv)) = Inr (dk, did, a)"
    and bs: "decision_grant_bindings a = Inr bs"
    and sel: "validate_selected_grants E (ws_store w) (Some (map_of (rev (map (\<lambda>u. (gu_grant_id u, gu_state_version_after u))
       (rv_grant_uses rv))))) (da_request a) t bs = Inr records"
    and held: "\<And>x. x \<in> set records \<Longrightarrow> units_held (rv_grant_uses rv) x = Inr ()"
  note u = reservation_uses_bound [OF v d]
  note rec = selected_records [OF assms(1) sel [unfolded assms(2)] decision_grant_bindings_facts(1) [OF bs]]
  have "gu_grant_id u \<in> set (map gb_grant_id bs)"
    using assms(4) u(1) decision_grant_bindings_facts(2) [OF bs] by auto
  then obtain x where x: "x \<in> set records" "g_grant_id (fst x) = gu_grant_id u"
    using rec(2) by (metis (no_types, lifting) image_iff list.set_map)
  have "gu_units u \<le> gs_reserved_uses (snd (snd x))"
    using held [OF x(1)] find_use [OF u(2) assms(4)] x(2) by (simp add: units_held_def split: if_splits)
  moreover have "load_grant E (at_proj st p) (gu_grant_id u) = Inr (fst x, fst (snd x), snd (snd x))"
  proof -
    from mapE_set [OF sel [unfolded validate_selected_grants_def assms(2)] x(1)] obtain b where
      "validate_selected_grant E (at_proj st p) (Some (map_of (rev (map (\<lambda>u. (gu_grant_id u, gu_state_version_after u))
        (rv_grant_uses rv))))) (da_request a) t b = Inr x" by blast
    from validate_selected_grant_loads [OF this] have "load_grant E (at_proj st p) (gb_grant_id b) = Inr x"
      "gs_status (snd (snd x)) = Active" by simp_all
    with load_visible(3) [OF assms(1), of E "gb_grant_id b" "fst x" "fst (snd x)" "snd (snd x)"] x(2)
    show ?thesis by simp
  qed
  ultimately show ?thesis using rec(1) [OF x(1)] x(2) u(3) [OF assms(4)] by (cases x) auto
qed

lemma use_intents_publish:
  assumes "map_of (ws_use_receipts w) k = None"
  shows "mset (intents_of (w\<lparr>ws_use_receipts := dput k ur (ws_use_receipts w)\<rparr>)) =
    add_mset (intent_path ''use_receipts'' k, ur_state_changes ur) (mset (intents_of w))"
  using mset_entries_dput [OF assms, of "\<lambda>(k, ur). (intent_path ''use_receipts'' k, ur_state_changes ur)" ur]
  by (simp add: intents_of_def reservation_intents_def use_intents_def release_intents_def
      reconciliation_intents_def event_intents_def)

lemma create_execution_result_frame:
  assumes "create_execution_result E W w a rb vb owner_result at ea ov = Inr (b, w')"
  shows "\<exists>d. w' = w\<lparr>ws_execution_results := d\<rparr>"
  using assms by (auto simp: create_execution_result_def Let_def result_simps)

lemma execution_results_frame [simp]:
  "proj (w\<lparr>ws_execution_results := d\<rparr>) = proj w" "intents_of (w\<lparr>ws_execution_results := d\<rparr>) = intents_of w"
  by (simp_all add: proj_def intents_of_def reservation_intents_def use_intents_def release_intents_def
      reconciliation_intents_def event_intents_def)

lemma make_use_receipt_facts:
  assumes "make_use_receipt E w rv s rb tr er vb at key receipt_id = Inr ur"
  obtains xs where "mapE (settle_change E (ws_store w) (consumed_gstate receipt_id)) (rv_grant_uses rv) = Inr xs"
    "ur_receipt_id ur = receipt_id"
    "ur_state_changes ur = map snd xs @ [settle_reservation receipt_id Rs_consumed s (rv_reservation_id rv)]"
  using assms by (auto simp: make_use_receipt_def consume_projection_changes_def result_simps)

lemma publish_use_advance:
  assumes bk: "books (ws_store w) (ws_reservations w) p"
    and load: "load_reservation E (set_proj p w) ref digest = Inr (k, rv, s)"
    and ver: "verify_reservation E (set_proj p w) rv s at v vs = Inr (a, views)"
    and new: "map_of (ws_use_receipts w) receipt_id = None"
    and make: "make_use_receipt E ((set_proj p w)\<lparr>ws_execution_results := d\<rparr>) rv s rb tr er vb at key receipt_id = Inr ur"
    and run: "publish_use_receipt ur ((set_proj p w)\<lparr>ws_execution_results := d\<rparr>) = (res, w')"
  shows "advance w w' p"
proof -
  note l = load_reservation_facts [OF load, simplified]
  from make obtain xs where
    xs: "mapE (settle_change E (at_proj (ws_store w) p) (consumed_gstate receipt_id)) (rv_grant_uses rv) = Inr xs"
    and id: "ur_receipt_id ur = receipt_id"
    and cs: "ur_state_changes ur = map snd xs @ [settle_reservation receipt_id Rs_consumed s k]"
    by (rule make_use_receipt_facts) (simp add: l(3))
  note used = verified_use [OF bk _ ver, simplified]
  have s: "rs_status s = Rs_reserved" by (rule verify_reservation_steps [OF ver])
  have posts: "posts p (consumed_gstate receipt_id) (rv_grant_uses rv) (map snd xs)"
    using settle_change_posts [OF xs] used by fastforce
  show ?thesis
  proof (rule settlement_advance [OF bk l(1,4) posts, where b = Rs_consumed and ev = receipt_id
      and ?w1.0 = "(set_proj p w)\<lparr>ws_execution_results := d, ws_use_receipts := dput receipt_id ur (ws_use_receipts w)\<rparr>"
      and path = "intent_path ''use_receipts'' receipt_id"])
    show "mset (intents_of ((set_proj p w)\<lparr>ws_execution_results := d,
        ws_use_receipts := dput receipt_id ur (ws_use_receipts w)\<rparr>)) =
      add_mset (intent_path ''use_receipts'' receipt_id, map snd xs @ [settle_reservation receipt_id Rs_consumed s k])
        (mset (intents_of w))"
      using use_intents_publish [of "(set_proj p w)\<lparr>ws_execution_results := d\<rparr>" receipt_id ur] new by (simp add: cs)
    show "commit (map snd xs @ [settle_reservation receipt_id Rs_consumed s k]) ur
        ((set_proj p w)\<lparr>ws_execution_results := d, ws_use_receipts := dput receipt_id ur (ws_use_receipts w)\<rparr>) = (res, w')"
      using run by (simp add: publish_use_receipt_def id cs)
    show "final_status (gs_status (consumed_gstate receipt_id (gu_units u) gs))"
      if "u \<in> set (rv_grant_uses rv)" "p (Grant_ref (gu_grant_id u)) = Some (GS gs)" "final_status (gs_status gs)" for u gs
      using used [OF that(1)] that(2,3) by (auto simp: final_status_def)
    show "state_ok g sha (consumed_gstate receipt_id (gu_units u) gs)"
      if "u \<in> set (rv_grant_uses rv)" "p (Grant_ref (gu_grant_id u)) = Some (GS gs)" "state_ok g sha gs" for u g sha gs
      using used [OF that(1)] that(2,3) by (intro consumed_state_ok) auto
  qed (auto simp: consumed_gstate_def Let_def carries_consumed s proj_def)
qed

lemma consume_advance:
  assumes "ledger w p0 h"
    and "consume E W w registered ref digest er pre ea ov at v key = (res, w')"
  shows "advance w w' (replay p0 h)"
proof -
  let ?p = "replay p0 h" and ?id = "settlement_id (env_digest E) ''authu-'' digest key"
  let ?w = "set_proj ?p w"
  define after where "after = (\<lambda>(k, rv, s) w. let rb = \<lparr>b_ref = artifact_ref ''reservations'' k, b_sha256 = digest\<rparr> in
      case map_of (ws_use_receipts w) ?id of
        Some ur \<Rightarrow> liftS (replay_use_receipt E W w ?id er pre key ur) w
      | None \<Rightarrow>
          bindS (liftS (check_consume E W w registered rv s rb er pre ov at v) w) (\<lambda>(a, vb) w.
          case create_execution_result E W w a rb vb er at ea ov of
            Inl e \<Rightarrow> (Inl e, w)
          | Inr (typed_result, w) \<Rightarrow>
              bindS (liftS (make_use_receipt E w rv s rb typed_result er vb at key ?id) w) (\<lambda>ur w.
              publish_use_receipt ur w)))"
  have final: "advance w w' ?p" if load: "load_reservation E ?w ref digest = Inr (k, rv, s)"
    and run: "after (k, rv, s) ?w = (res, w')" for k rv s
  proof (cases "map_of (ws_use_receipts w) ?id")
    case None
    let ?rb = "\<lparr>b_ref = artifact_ref ''reservations'' k, b_sha256 = digest\<rparr>"
    from run None have "bindS (liftS (check_consume E W ?w registered rv s ?rb er pre ov at v) ?w) (\<lambda>(a, vb) w.
          case create_execution_result E W w a ?rb vb er at ea ov of
            Inl e \<Rightarrow> (Inl e, w)
          | Inr (typed_result, w) \<Rightarrow>
              bindS (liftS (make_use_receipt E w rv s ?rb typed_result er vb at key ?id) w) (\<lambda>ur w.
              publish_use_receipt ur w)) = (res, w')" by (simp add: after_def Let_def)
    then show ?thesis
    proof (cases rule: lift_then)
      case (passed x)
      obtain a vb where x: "x = (a, vb)" by (cases x)
      from passed(1) obtain views where ver: "verify_reservation E ?w rv s at v False = Inr (a, views)"
        by (auto simp: x check_consume_def result_simps split: prod.splits)
      show ?thesis
      proof (cases "create_execution_result E W ?w a ?rb vb er at ea ov")
        case (Inl e)
        with passed(2) show ?thesis by (auto simp: x)
      next
        case (Inr y)
        then obtain tr d where y: "y = (tr, ?w\<lparr>ws_execution_results := d\<rparr>)"
          using create_execution_result_frame [of E W ?w a ?rb vb er at ea ov "fst y" "snd y"]
          by (cases y) auto
        with passed(2) Inr have "bindS (liftS (make_use_receipt E (?w\<lparr>ws_execution_results := d\<rparr>) rv s ?rb tr er vb at key ?id)
            (?w\<lparr>ws_execution_results := d\<rparr>)) (\<lambda>ur w. publish_use_receipt ur w) = (res, w')" by (simp add: x)
        then show ?thesis
        proof (cases rule: lift_then)
          case failed
          then show ?thesis by (simp add: advance_def unposted_def)
        next
          case (passed ur)
          from publish_use_advance [OF ledgerD(4) [OF assms(1)] load ver None passed] show ?thesis .
        qed
      qed
    qed simp
  qed (use run in \<open>auto simp: after_def liftS_def Let_def\<close>)
  from assms(2) have "bindS (liftS (bindE (verify_binding (env_files E) er) (\<lambda>_.
        case ov of None \<Rightarrow> Inr () | Some ov \<Rightarrow> bindE (verify_binding (env_files E) ov) (\<lambda>_. Inr ()))) w) (\<lambda>_ w.
      bindS (recover E W w) (\<lambda>_ w.
      bindS (liftS (load_reservation E w ref digest) w) after)) = (res, w')"
    unfolding consume_def Let_def after_def by (simp only: prod.case_eq_if)
  then show ?thesis
  proof (cases rule: lift_then)
    case (passed x)
    from passed(2) show ?thesis by (rule recover_load_advance [OF assms(1) _ final])
  qed simp
qed

end
