(* ===== verification/Reach.thy ===== *)
theory Reach
  imports Runs
begin

text \<open>
  Release, reconciliation, transition and registration keep the ledger, and so does every run. A
  run is a sequence of steps from the empty workspace; a step is a complete operation, or one that
  a crash stopped while it recovered or while it applied its changes.
\<close>

subsection \<open>Release\<close>

text \<open>
  A root grant is visible only through its materialization receipt. \<open>published E st gid\<close> says that
  the receipt of the grant exists, so loading the grant shows its stored state.
\<close>

definition published :: "env \<Rightarrow> store \<Rightarrow> string \<Rightarrow> bool" where
  "published E st gid =
     (case grant_of st gid of
        None \<Rightarrow> True
      | Some (g, _) \<Rightarrow> (case g_materialization g of Schema3 _ ref \<Rightarrow> env_receipts E ref \<noteq> None | _ \<Rightarrow> True))"

lemma published_load:
  assumes "published E st gid" and "load_grant E st gid = Inr (g, sha, s)"
  shows "state_of st gid = Some s"
proof -
  from load_grant_grant_of [OF assms(2)] assms(1) have vis: "\<And>a r. g_materialization g = Schema3 a r \<Longrightarrow> env_receipts E r \<noteq> None"
    by (auto simp: published_def)
  from assms(2) obtain s0 where "state_of st gid = Some s0" "effective_root_grant_state E g sha s0 = Inr s"
    by (auto simp: load_grant_def result_simps split: option.splits)
  with vis show ?thesis
    by (auto simp: effective_root_grant_state_def result_simps Let_def split: materialization.splits option.splits if_splits)
qed

lemma published_at_proj [simp]: "published E (at_proj st p) gid = published E st gid"
  by (simp add: published_def)

definition uses_published :: "env \<Rightarrow> ws \<Rightarrow> bool" where
  "uses_published E w = list_all (\<lambda>(_, rv, _). list_all (\<lambda>u. published E (ws_store w) (gu_grant_id u)) (rv_grant_uses rv))
     (ws_reservations w)"

lemma release_intents_publish:
  assumes "map_of (ws_release_receipts w) k = None"
  shows "mset (intents_of (w\<lparr>ws_release_receipts := dput k rr (ws_release_receipts w)\<rparr>)) =
    add_mset (intent_path ''release_receipts'' k, rr_state_changes rr) (mset (intents_of w))"
  using mset_entries_dput [OF assms, of "\<lambda>(k, rr). (intent_path ''release_receipts'' k, rr_state_changes rr)" rr]
  by (simp add: intents_of_def reservation_intents_def use_intents_def release_intents_def
      reconciliation_intents_def event_intents_def)

lemma make_release_receipt_facts:
  assumes "make_release_receipt E w rv s rb ne status at v key event_id = Inr rr"
  obtains us xs where "us = (if status = Unknown_effect then [] else rv_grant_uses rv)"
    "mapE (settle_change E (ws_store w) (released_gstate event_id)) us = Inr xs"
    "rs_status s = Rs_reserved" "rs_version s = v" "rr_receipt_id rr = event_id"
    "rr_state_changes rr = map snd xs @ [settle_reservation event_id (release_status status) s (rv_reservation_id rv)]"
  using assms that by (cases "status = Unknown_effect") (auto simp: make_release_receipt_def result_simps Let_def)

lemma publish_release_advance:
  assumes bk: "books (ws_store w) (ws_reservations w) p" and vis: "uses_published E w"
    and load: "load_reservation E (set_proj p w) ref digest = Inr (k, rv, s)"
    and new: "map_of (ws_release_receipts w) event_id = None"
    and make: "make_release_receipt E (set_proj p w) rv s rb ne status at v key event_id = Inr rr"
    and run: "publish_release_receipt rr (set_proj p w) = (res, w')"
  shows "advance w w' p"
proof -
  note l = load_reservation_facts [OF load, simplified]
  from make obtain us xs where us: "us = (if status = Unknown_effect then [] else rv_grant_uses rv)"
    and xs: "mapE (settle_change E (at_proj (ws_store w) p) (released_gstate event_id)) us = Inr xs"
    and s: "rs_status s = Rs_reserved" and id: "rr_receipt_id rr = event_id"
    and cs: "rr_state_changes rr = map snd xs @ [settle_reservation event_id (release_status status) s k]"
    by (rule make_release_receipt_facts) (simp add: l(3))
  have used: "u \<in> set (rv_grant_uses rv)" if "u \<in> set us" for u using that us by (auto split: if_splits)
  have "published E (ws_store w) (gu_grant_id u)" if "u \<in> set us" for u
    using vis l(1) used [OF that] by (auto simp: uses_published_def list_all_iff)
  then have posts: "posts p (released_gstate event_id) us (map snd xs)"
    by (intro settle_change_posts [OF xs] load_visible(1) [OF bk]) (auto dest: published_load [rotated])
  have held: "open_weight (status_at p k) = 1" using l(4) s by (simp add: status_at_def open_weight_def)
  have rok: "list_all (reservation_ok (ws_store w)) (ws_reservations w)" using bk by (simp add: books_def)
  show ?thesis
  proof (rule settlement_advance [OF bk l(1,4) posts, where b = "release_status status" and ev = event_id and x = rr
      and ?w1.0 = "(set_proj p w)\<lparr>ws_release_receipts := dput event_id rr (ws_release_receipts w)\<rparr>"
      and path = "intent_path ''release_receipts'' event_id"])
    show "us = rv_grant_uses rv \<and> carries (released_gstate event_id) (Some (rs_status s)) (release_status status) \<or>
        us = [] \<and> neutral (Some (rs_status s)) (release_status status)"
      using us s by (simp add: release_status_def carries_released neutral_quarantine)
    show "mset (intents_of ((set_proj p w)\<lparr>ws_release_receipts := dput event_id rr (ws_release_receipts w)\<rparr>)) =
      add_mset (intent_path ''release_receipts'' event_id,
        map snd xs @ [settle_reservation event_id (release_status status) s k]) (mset (intents_of w))"
      using release_intents_publish [of "set_proj p w" event_id rr] new by (simp add: cs)
    show "commit (map snd xs @ [settle_reservation event_id (release_status status) s k]) rr
        ((set_proj p w)\<lparr>ws_release_receipts := dput event_id rr (ws_release_receipts w)\<rparr>) = (res, w')"
      using run by (simp add: publish_release_receipt_def id cs)
    fix u g sha gs
    assume u: "u \<in> set us" "p (Grant_ref (gu_grant_id u)) = Some (GS gs)" "state_ok g sha gs"
    have "gu_units u \<le> gs_reserved_uses gs"
      using held_ge [OF bk l(1) used [OF u(1)] held] bk u(2) by (auto simp: books_def balanced_def)
    moreover have "0 < gu_units u" using rok l(1) used [OF u(1)] by (auto simp: list_all_iff reservation_ok_def)
    ultimately show "state_ok g sha (released_gstate event_id (gu_units u) gs)" using u(3) by (intro released_state_ok)
  qed (simp_all add: released_gstate_def proj_def set_proj_def s)
qed

lemma release_advance:
  assumes "ledger w p0 h" and "uses_published E w"
    and "release E W w registered ref digest ne at v key effect_status = (res, w')"
  shows "advance w w' (replay p0 h)"
proof (cases "map_of EFFECT_STATUSES effect_status")
  case None
  with assms(3) show ?thesis by (auto simp: release_def)
next
  case (Some status)
  let ?p = "replay p0 h" and ?id = "settlement_id (env_digest E) ''authx-'' digest key"
  let ?w = "set_proj ?p w"
  define after where "after = (\<lambda>(k, rv, s) w.
      let rb = \<lparr>b_ref = artifact_ref ''reservations'' k, b_sha256 = digest\<rparr>;
          existing = map_of (ws_release_receipts w) ?id in
      bindS (liftS (bindE (registered_release_required E w rv) (\<lambda>is_registered.
        if registered \<noteq> is_registered then fail BadRoute
        else if registered then validate_registered_release E W w rv rb ne status v (existing = None)
        else Inr ())) w) (\<lambda>_ w.
      case existing of
        Some rr \<Rightarrow> liftS (replay_release_receipt E W w ?id ne status key rr) w
      | None \<Rightarrow>
          bindS (liftS (make_release_receipt E w rv s rb ne status at v key ?id) w) (\<lambda>rr w.
          publish_release_receipt rr w)))"
  have final: "advance w w' ?p" if load: "load_reservation E ?w ref digest = Inr (k, rv, s)"
    and run: "after (k, rv, s) ?w = (res, w')" for k rv s
    using run [unfolded after_def Let_def prod.case]
  proof (cases rule: lift_then)
    case (passed x)
    show ?thesis
    proof (cases "map_of (ws_release_receipts w) ?id")
      case None
      from passed(2) [unfolded set_proj_simps None option.case] show ?thesis
      proof (cases rule: lift_then)
        case (passed rr)
        from publish_release_advance [OF ledgerD(4) [OF assms(1)] assms(2) load None passed] show ?thesis .
      qed simp
    qed (use passed in \<open>auto simp: liftS_def\<close>)
  qed simp
  from assms(3) Some have "bindS (liftS (verify_binding (env_files E) ne) w) (\<lambda>_ w. bindS (recover E W w) (\<lambda>_ w.
      bindS (liftS (load_reservation E w ref digest) w) after)) = (res, w')"
    unfolding release_def Let_def after_def by simp
  then show ?thesis
  proof (cases rule: lift_then)
    case (passed x)
    from passed(2) show ?thesis by (rule recover_load_advance [OF assms(1) _ final])
  qed simp
qed

subsection \<open>Reconciliation\<close>

lemma reconciliation_intents_publish:
  assumes "map_of (ws_reconciliation_receipts w) k = None"
  shows "mset (intents_of (w\<lparr>ws_reconciliation_receipts := dput k qr (ws_reconciliation_receipts w)\<rparr>)) =
    add_mset (intent_path ''reconciliation_receipts'' k, qr_state_changes qr) (mset (intents_of w))"
  using mset_entries_dput [OF assms, of "\<lambda>(k, qr). (intent_path ''reconciliation_receipts'' k, qr_state_changes qr)" qr]
  by (simp add: intents_of_def reservation_intents_def use_intents_def release_intents_def
      reconciliation_intents_def event_intents_def)

lemma make_reconciliation_facts:
  assumes "make_reconciliation E w rv s rb ee out pre at v key receipt_id = Inr qr"
  obtains us xs where "us = (if out = Still_unknown then [] else rv_grant_uses rv)"
    "mapE (settle_grant E (ws_store w) out receipt_id) us = Inr xs"
    "rs_status s = Rs_quarantined" "rs_version s = v" "qr_receipt_id qr = receipt_id"
    "qr_state_changes qr = map snd xs @ [settle_reservation receipt_id (outcome_status out) s (rv_reservation_id rv)]"
proof -
  from assms [unfolded make_reconciliation_def result_simps] obtain vc t where
    vc: "settle_grants E (ws_store w) rv out receipt_id = Inr vc"
    and s: "rs_status s = Rs_quarantined" "rs_version s = v" and id: "qr_receipt_id qr = receipt_id"
    and cs: "qr_state_changes qr = snd vc @ [settle_reservation receipt_id (outcome_status out) s (rv_reservation_id rv)]"
    by (auto simp: result_simps split: prod.splits)
  from vc obtain xs where "mapE (settle_grant E (ws_store w) out receipt_id)
      (if out = Still_unknown then [] else rv_grant_uses rv) = Inr xs" "snd vc = map snd xs"
    by (auto simp: settle_grants_def result_simps split: if_splits)
  with s id cs that show thesis by auto
qed

lemma settle_grant_posts:
  assumes "books st rs p" and "mapE (settle_grant E (at_proj st p) out receipt_id) us = Inr xs"
  shows "posts p (reconcile_gstate out receipt_id) us (map snd xs)"
    and "u \<in> set us \<Longrightarrow> p (Grant_ref (gu_grant_id u)) = Some (GS s) \<Longrightarrow>
      gs_status s = Active \<and> gu_units u \<le> gs_reserved_uses s"
proof -
  have "posts p (reconcile_gstate out receipt_id) us (map snd xs) \<and>
    (\<forall>u \<in> set us. \<forall>s. p (Grant_ref (gu_grant_id u)) = Some (GS s) \<longrightarrow>
      gs_status s = Active \<and> gu_units u \<le> gs_reserved_uses s)"
    using assms(2) unfolding mapE_eq_Inr posts_def
  proof (induction us xs rule: list_all2_induct)
    case (Cons u us x xs)
    from Cons.hyps(1) obtain g sha s where load: "load_grant E (at_proj st p) (gu_grant_id u) = Inr (g, sha, s)"
      and act: "gs_status s = Active" "gu_units u \<le> gs_reserved_uses s"
      and x: "snd x = \<lparr>ch_ref = Grant_ref (gu_grant_id u), ch_before = Some (GS s),
        ch_after = GS (reconcile_gstate out receipt_id (gu_units u) s)\<rparr>"
      by (auto simp: settle_grant_def result_simps Let_def split: prod.splits)
    from load_visible(1) [OF assms(1) load] act(1) have "p (Grant_ref (gu_grant_id u)) = Some (GS s)" by simp
    with Cons.IH act x show ?case by auto
  qed simp
  then show "posts p (reconcile_gstate out receipt_id) us (map snd xs)"
    and "u \<in> set us \<Longrightarrow> p (Grant_ref (gu_grant_id u)) = Some (GS s) \<Longrightarrow>
      gs_status s = Active \<and> gu_units u \<le> gs_reserved_uses s" by blast+
qed

lemma publish_reconciliation_advance:
  assumes bk: "books (ws_store w) (ws_reservations w) p"
    and load: "load_reservation E (set_proj p w) ref digest = Inr (k, rv, s)"
    and new: "map_of (ws_reconciliation_receipts w) receipt_id = None"
    and make: "make_reconciliation E (set_proj p w) rv s rb ee out pre at v key receipt_id = Inr qr"
    and run: "publish_reconciliation qr (set_proj p w) = (res, w')"
  shows "advance w w' p"
proof -
  note l = load_reservation_facts [OF load, simplified]
  from make obtain us xs where us: "us = (if out = Still_unknown then [] else rv_grant_uses rv)"
    and xs: "mapE (settle_grant E (at_proj (ws_store w) p) out receipt_id) us = Inr xs"
    and s: "rs_status s = Rs_quarantined" and id: "qr_receipt_id qr = receipt_id"
    and cs: "qr_state_changes qr = map snd xs @ [settle_reservation receipt_id (outcome_status out) s k]"
    by (rule make_reconciliation_facts) (simp add: l(3))
  note posts = settle_grant_posts [OF bk xs]
  have rok: "list_all (reservation_ok (ws_store w)) (ws_reservations w)" using bk by (simp add: books_def)
  show ?thesis
  proof (rule settlement_advance [OF bk l(1,4) posts(1), where b = "outcome_status out" and ev = receipt_id and x = qr
      and ?w1.0 = "(set_proj p w)\<lparr>ws_reconciliation_receipts := dput receipt_id qr (ws_reconciliation_receipts w)\<rparr>"
      and path = "intent_path ''reconciliation_receipts'' receipt_id"])
    show "us = rv_grant_uses rv \<and> carries (reconcile_gstate out receipt_id) (Some (rs_status s)) (outcome_status out) \<or>
        us = [] \<and> neutral (Some (rs_status s)) (outcome_status out)"
      using us s carries_consumed [of Rs_quarantined receipt_id] carries_released [of Rs_quarantined receipt_id]
      by (cases out) (simp_all add: outcome_status_def neutral_quarantine reconcile_gstate_def [abs_def])
    show "mset (intents_of ((set_proj p w)\<lparr>ws_reconciliation_receipts := dput receipt_id qr (ws_reconciliation_receipts w)\<rparr>)) =
      add_mset (intent_path ''reconciliation_receipts'' receipt_id,
        map snd xs @ [settle_reservation receipt_id (outcome_status out) s k]) (mset (intents_of w))"
      using reconciliation_intents_publish [of "set_proj p w" receipt_id qr] new by (simp add: cs)
    show "commit (map snd xs @ [settle_reservation receipt_id (outcome_status out) s k]) qr
        ((set_proj p w)\<lparr>ws_reconciliation_receipts := dput receipt_id qr (ws_reconciliation_receipts w)\<rparr>) = (res, w')"
      using run by (simp add: publish_reconciliation_def id cs)
    fix u g sha gs
    assume u: "u \<in> set us" "p (Grant_ref (gu_grant_id u)) = Some (GS gs)" "state_ok g sha gs"
    have "0 < gu_units u" using rok l(1) u(1) us by (auto simp: list_all_iff reservation_ok_def split: if_splits)
    with posts(2) [OF u(1,2)] u(3) show "state_ok g sha (reconcile_gstate out receipt_id (gu_units u) gs)"
      by (simp add: reconcile_gstate_def consumed_state_ok released_state_ok)
  next
    fix u gs
    assume "u \<in> set us" "p (Grant_ref (gu_grant_id u)) = Some (GS gs)" "final_status (gs_status gs)"
    with posts(2) show "final_status (gs_status (reconcile_gstate out receipt_id (gu_units u) gs))"
      by (auto simp: final_status_def)
  qed (simp_all add: s reconcile_gstate_def consumed_gstate_def released_gstate_def Let_def proj_def set_proj_def)
qed

lemma reconcile_advance:
  assumes "ledger w p0 h"
    and "reconcile_quarantine E W w ref digest ee outcome pre at v key = (res, w')"
  shows "advance w w' (replay p0 h)"
proof (cases "map_of OUTCOMES outcome")
  case None
  with assms(2) show ?thesis by (auto simp: reconcile_quarantine_def)
next
  case (Some out)
  let ?p = "replay p0 h" and ?id = "settlement_id (env_digest E) ''authq-'' digest key"
  let ?w = "set_proj ?p w"
  define after where "after = (\<lambda>(k, rv, s) w.
      let rb = \<lparr>b_ref = artifact_ref ''reservations'' k, b_sha256 = digest\<rparr> in
      case map_of (ws_reconciliation_receipts w) ?id of
        Some qr \<Rightarrow> liftS (replay_reconciliation E W w ?id ee out pre key qr) w
      | None \<Rightarrow> bindS (liftS (make_reconciliation E w rv s rb ee out pre at v key ?id) w) (\<lambda>qr w.
          publish_reconciliation qr w))"
  have final: "advance w w' ?p" if load: "load_reservation E ?w ref digest = Inr (k, rv, s)"
    and run: "after (k, rv, s) ?w = (res, w')" for k rv s
  proof (cases "map_of (ws_reconciliation_receipts w) ?id")
    case None
    from run [unfolded after_def Let_def prod.case set_proj_simps None option.case] show ?thesis
    proof (cases rule: lift_then)
      case (passed qr)
      from publish_reconciliation_advance [OF ledgerD(4) [OF assms(1)] load None passed] show ?thesis .
    qed simp
  qed (use run in \<open>auto simp: after_def liftS_def Let_def\<close>)
  from assms(2) Some have "bindS (recover E W w) (\<lambda>_ w. bindS (liftS (load_reservation E w ref digest) w) after) = (res, w')"
    unfolding reconcile_quarantine_def Let_def after_def by simp
  then show ?thesis by (rule recover_load_advance [OF assms(1) _ final])
qed

subsection \<open>Transitions\<close>

lemma event_intents_publish:
  assumes "map_of (ws_events w) k = None"
  shows "mset (intents_of (w\<lparr>ws_events := dput k te (ws_events w)\<rparr>)) =
    add_mset (intent_path ''events'' k, te_state_changes te) (mset (intents_of w))"
  using mset_entries_dput [OF assms, of "\<lambda>(k, te). (intent_path ''events'' k, te_state_changes te)" te]
  by (simp add: intents_of_def reservation_intents_def use_intents_def release_intents_def
      reconciliation_intents_def event_intents_def)

lemma transition_changes:
  assumes "books st rs p" and "mapE (transition_change E (at_proj st p) t ev) targets = Inr xs"
    and "\<And>x g sha s. x \<in> set targets \<Longrightarrow> load_grant E (at_proj st p) x = Inr (g, sha, s) \<Longrightarrow>
      gs_status s \<noteq> Draft \<or> state_of (at_proj st p) x = Some s"
  shows "map ch_ref (map snd xs) = map Grant_ref targets"
    and "c \<in> set (map snd xs) \<Longrightarrow> \<exists>x \<in> set targets. \<exists>g sha s. grant_of st x = Some (g, sha) \<and> state_ok g sha s \<and>
      load_grant E (at_proj st p) x = Inr (g, sha, s) \<and> p (Grant_ref x) = Some (GS s) \<and>
      c = \<lparr>ch_ref = Grant_ref x, ch_before = Some (GS s), ch_after = GS (transition_gstate ev (transition_status t) s)\<rparr>"
proof -
  have "map ch_ref (map snd xs) = map Grant_ref targets \<and>
    (\<forall>c \<in> set (map snd xs). \<exists>x \<in> set targets. \<exists>g sha s. grant_of st x = Some (g, sha) \<and> state_ok g sha s \<and>
      load_grant E (at_proj st p) x = Inr (g, sha, s) \<and> p (Grant_ref x) = Some (GS s) \<and>
      c = \<lparr>ch_ref = Grant_ref x, ch_before = Some (GS s), ch_after = GS (transition_gstate ev (transition_status t) s)\<rparr>)"
    using assms(2,3) unfolding mapE_eq_Inr
  proof (induction targets xs rule: list_all2_induct)
    case (Cons x targets y ys)
    from Cons.hyps(1) obtain g sha s where load: "load_grant E (at_proj st p) x = Inr (g, sha, s)"
      and y: "snd y = \<lparr>ch_ref = Grant_ref x, ch_before = Some (GS s),
        ch_after = GS (transition_gstate ev (transition_status t) s)\<rparr>"
      by (auto simp: transition_change_def result_simps split: prod.splits)
    from load_visible(1,2,4) [OF assms(1) load Cons.prems [OF _ load]] load y Cons.IH Cons.prems
    show ?case by (simp add: image_iff)
  qed simp
  then show "map ch_ref (map snd xs) = map Grant_ref targets"
    and "c \<in> set (map snd xs) \<Longrightarrow> \<exists>x \<in> set targets. \<exists>g sha s. grant_of st x = Some (g, sha) \<and> state_ok g sha s \<and>
      load_grant E (at_proj st p) x = Inr (g, sha, s) \<and> p (Grant_ref x) = Some (GS s) \<and>
      c = \<lparr>ch_ref = Grant_ref x, ch_before = Some (GS s), ch_after = GS (transition_gstate ev (transition_status t) s)\<rparr>"
    by blast+
qed

text \<open>Changing the status of grants, and nothing else, keeps the books\<close>

lemma status_change_books:
  assumes bk: "books st rs p" and d: "distinct (map ch_ref cs)"
    and cs: "\<And>c. c \<in> set cs \<Longrightarrow> \<exists>x g sha s. grant_of st x = Some (g, sha) \<and> p (Grant_ref x) = Some (GS s) \<and>
      c = \<lparr>ch_ref = Grant_ref x, ch_before = Some (GS s), ch_after = GS (transition_gstate ev ns s)\<rparr> \<and>
      state_ok g sha s \<and> state_ok g sha (transition_gstate ev ns s) \<and> (final_status (gs_status s) \<longrightarrow> final_status ns)"
  shows "ready p (path, cs)" "raises cs" "books st rs (post p (path, cs))"
proof -
  let ?q = "post p (path, cs)"
  show "ready p (path, cs)" using d cs by (fastforce simp: ready_def)
  show "raises cs" using cs by (fastforce simp: raises_def transition_gstate_def state_ok_def counters_def intro: account_step.idle)
  have res: "?q (Reservation_ref k) = p (Reservation_ref k)" for k
    using cs by (intro post_other) fastforce
  have grant: "?q (Grant_ref gid) = p (Grant_ref gid) \<or> (\<exists>g sha s. grant_of st gid = Some (g, sha) \<and>
      p (Grant_ref gid) = Some (GS s) \<and> ?q (Grant_ref gid) = Some (GS (transition_gstate ev ns s)) \<and>
      state_ok g sha (transition_gstate ev ns s))" for gid
  proof (cases "Grant_ref gid \<in> ch_ref ` set cs")
    case True
    then obtain c where c: "c \<in> set cs" "ch_ref c = Grant_ref gid" by auto
    with cs [OF c(1)] post_changed [of "(path, cs)" c p] d show ?thesis by auto
  qed (simp add: post_other)
  have st: "status_at ?q = status_at p" by (simp add: status_at_def fun_eq_iff res)
  have "wf_store (at_proj st ?q)"
  proof (rule wf_at_projI)
    fix gid assume "gid \<in> fst ` set (st_grants st)"
    moreover have "wf_store (at_proj st p)" using bk by (simp add: books_def)
    ultimately obtain g sha s where "grant_of st gid = Some (g, sha)" "g_grant_id g = gid" "link_ok st g"
      "p (Grant_ref gid) = Some (GS s)" "state_ok g sha s" using wf_state by metis
    with grant [of gid] show "entry_ok (at_proj st ?q) gid" by (auto simp: entry_ok_at_proj)
  qed
  moreover have "balanced ?q rs"
    unfolding balanced_def
  proof (intro allI impI)
    fix gid s' assume s': "?q (Grant_ref gid) = Some (GS s')"
    have b: "balanced p rs" using bk by (simp add: books_def)
    have "weighed f ?q rs gid = weighed f p rs gid" for f by (rule weighed_cong) (simp add: st)
    with grant [of gid] s' b show "gs_reserved_uses s' = held ?q rs gid \<and> gs_consumed_uses s' = spent ?q rs gid"
      by (auto simp: balanced_def transition_gstate_def)
  qed
  moreover have "grant_refs_ok ?q"
    unfolding grant_refs_ok_def using grant bk by (metis books_def grant_refs_ok_def option.inject pstate.distinct(1))
  ultimately show "books st rs ?q" using bk by (simp add: books_def ref_ok_def res)
qed

lemma make_transition_facts:
  assumes "make_transition E w s gid t ev v sa at = Inr te"
  obtains below xs where "terminal_transition t \<and> descendant_ids E (ws_store w) gid = Inr below \<or>
      \<not> terminal_transition t \<and> below = []"
    "mapE (transition_change E (ws_store w) t ev) (gid # below) = Inr xs" "transition_source_ok t (gs_status s)"
    "gs_version s = v" "te_event_id te = ev" "te_affected_grant_ids te = gid # below" "te_state_changes te = map snd xs"
proof -
  from assms [unfolded make_transition_def result_simps] obtain below xs where
    b: "(if terminal_transition t then descendant_ids E (ws_store w) gid else Inr []) = Inr below"
    and r: "mapE (transition_change E (ws_store w) t ev) (gid # below) = Inr xs" "transition_source_ok t (gs_status s)"
    "gs_version s = v" "te_event_id te = ev" "te_affected_grant_ids te = gid # below" "te_state_changes te = map snd xs"
    by (auto simp: result_simps)
  from b have "terminal_transition t \<and> descendant_ids E (ws_store w) gid = Inr below \<or> \<not> terminal_transition t \<and> below = []"
    by (auto split: if_splits)
  with r show thesis by (intro that)
qed

lemma transition_targets_distinct:
  assumes "books st rs p" and "terminal_transition t \<and> descendant_ids E (at_proj st p) gid = Inr below \<or>
      \<not> terminal_transition t \<and> below = []"
  shows "distinct (gid # below)"
  using assms(2)
proof
  assume t: "terminal_transition t \<and> descendant_ids E (at_proj st p) gid = Inr below"
  then obtain recs where r: "list_grants E (at_proj st p) None = Inr recs"
    by (auto simp: descendant_ids_def result_simps)
  from assms(1) have wf: "wf_store (at_proj st p)" "distinct (map fst (st_grants (at_proj st p)))" by (simp_all add: books_def)
  from descendant_walks [OF wf r, of gid] t show ?thesis by (metis sum.inject(2))
qed simp

text \<open>Every affected grant is allowed to take the new status\<close>

lemma transition_targets_ok:
  assumes "transition_source_ok t (gs_status s)" and "\<not> terminal_transition t \<Longrightarrow> gs_status s' = gs_status s"
    and "state_ok g sha s'"
  shows "state_ok g sha (transition_gstate ev (transition_status t) s')"
proof (rule transition_state_ok [OF assms(3)])
  show "transition_status t \<in> {Revoked, Expired} \<or>
      transition_status t \<in> {Active, Suspended} \<and> gs_status s' \<in> {Active, Suspended}"
    using assms(1,2) by (cases t) (auto simp: transition_source_ok_def transition_status_def terminal_transition_def)
qed

lemma publish_transition_advance:
  assumes bk: "books (ws_store w) (ws_reservations w) p"
    and load: "load_grant E (at_proj (ws_store w) p) gid = Inr (g, sha, s)"
    and new: "map_of (ws_events w) ev = None"
    and make: "make_transition E (set_proj p w) s gid t ev v sa at = Inr te"
    and vis: "\<And>x. x \<in> set (te_affected_grant_ids te) \<Longrightarrow> x \<noteq> gid \<Longrightarrow> published E (ws_store w) x"
    and run: "publish_transition te (set_proj p w) = (res, w')"
  shows "advance w w' p"
proof -
  from make obtain below xs where
    below: "terminal_transition t \<and> descendant_ids E (at_proj (ws_store w) p) gid = Inr below \<or> \<not> terminal_transition t \<and> below = []"
    and xs: "mapE (transition_change E (at_proj (ws_store w) p) t ev) (gid # below) = Inr xs"
    and src: "transition_source_ok t (gs_status s)" and id: "te_event_id te = ev"
    and aff: "te_affected_grant_ids te = gid # below" and cs: "te_state_changes te = map snd xs"
    by (rule make_transition_facts) simp
  have "gs_status s \<noteq> Draft" using src by (cases t) (auto simp: transition_source_ok_def)
  with load vis aff have shown: "gs_status s' \<noteq> Draft \<or> state_of (at_proj (ws_store w) p) x = Some s'"
    if "x \<in> set (gid # below)" "load_grant E (at_proj (ws_store w) p) x = Inr (g', sha', s')" for x g' sha' s'
    using that published_load [of E "at_proj (ws_store w) p" x] by (cases "x = gid") auto
  have refs: "map ch_ref (map snd xs) = map Grant_ref (gid # below)"
    by (rule transition_changes(1) [OF bk xs]) (rule shown)
  have d: "distinct (map ch_ref (map snd xs))"
    using transition_targets_distinct [OF bk below] refs by (auto simp: distinct_map inj_on_def)
  have one: "\<exists>x g sha s. grant_of (ws_store w) x = Some (g, sha) \<and> p (Grant_ref x) = Some (GS s) \<and>
      c = \<lparr>ch_ref = Grant_ref x, ch_before = Some (GS s), ch_after = GS (transition_gstate ev (transition_status t) s)\<rparr> \<and>
      state_ok g sha s \<and> state_ok g sha (transition_gstate ev (transition_status t) s) \<and>
      (final_status (gs_status s) \<longrightarrow> final_status (transition_status t))" if c: "c \<in> set (map snd xs)" for c
  proof -
    have "\<exists>x \<in> set (gid # below). \<exists>g sha s. grant_of (ws_store w) x = Some (g, sha) \<and> state_ok g sha s \<and>
      load_grant E (at_proj (ws_store w) p) x = Inr (g, sha, s) \<and> p (Grant_ref x) = Some (GS s) \<and>
      c = \<lparr>ch_ref = Grant_ref x, ch_before = Some (GS s), ch_after = GS (transition_gstate ev (transition_status t) s)\<rparr>"
      by (rule transition_changes(2) [OF bk xs _ c]) (rule shown)
    then obtain x g' sha' s' where x: "x \<in> set (gid # below)" "grant_of (ws_store w) x = Some (g', sha')"
      "state_ok g' sha' s'" "load_grant E (at_proj (ws_store w) p) x = Inr (g', sha', s')" "p (Grant_ref x) = Some (GS s')"
      "c = \<lparr>ch_ref = Grant_ref x, ch_before = Some (GS s'), ch_after = GS (transition_gstate ev (transition_status t) s')\<rparr>"
      by blast
    have stat: "gs_status s' = gs_status s" if "\<not> terminal_transition t" using that below x(1,4) load by auto
    then have "final_status (gs_status s') \<longrightarrow> final_status (transition_status t)"
      using src by (cases t) (auto simp: transition_source_ok_def transition_status_def terminal_transition_def final_status_def)
    with transition_targets_ok [OF src stat x(3), of ev] x show ?thesis by blast
  qed
  note sc = status_change_books [OF bk d one]
  have "publishes (set_proj p w) ((set_proj p w)\<lparr>ws_events := dput ev te (ws_events w)\<rparr>) p
      (intent_path ''events'' ev, map snd xs)"
    using sc event_intents_publish [of "set_proj p w" ev te] new
    by (simp add: publishes_def cs books_cong [of "at_proj (ws_store w) p" "ws_store w"])
  then show ?thesis
    by (rule advance_publish [where x = te])
       (use run refs in \<open>auto simp: publish_transition_def id cs proj_def set_proj_def\<close>)
qed

lemma commit_events:
  "snd (commit cs x w) = set_proj (snd (apply_projection_changes cs (proj w))) w"
  by (simp add: commit_def Let_def)

text \<open>The grants a new event names besides the one it starts at\<close>

definition event_published :: "env \<Rightarrow> ws \<Rightarrow> string \<Rightarrow> ws \<Rightarrow> bool" where
  "event_published E w ev w' =
     (case map_of (ws_events w') ev of
        None \<Rightarrow> True
      | Some te \<Rightarrow> list_all (\<lambda>x. x = te_root_grant_id te \<or> published E (ws_store w) x) (te_affected_grant_ids te))"

lemma transition_advance:
  assumes "ledger w p0 h" and "event_published E w ev w'"
    and "transition_grants E W w gid status ev v sa at = (res, w')"
  shows "advance w w' (replay p0 h)"
proof (cases "map_of TRANSITIONS status")
  case None
  with assms(3) show ?thesis by (auto simp: transition_grants_def)
next
  case (Some t)
  let ?p = "replay p0 h"
  let ?w = "set_proj ?p w"
  from assms(3) [unfolded transition_grants_def Some option.case] show ?thesis
  proof (cases rule: lift_then)
    case (passed source)
    from passed(2) show ?thesis
    proof (cases rule: recover_then [OF assms(1), consumes 1, case_names failed recovered])
      case (recovered out)
      then show ?thesis
      proof (cases rule: lift_then)
        case (passed x)
        obtain g sha s where x: "x = (g, sha, s)" by (cases x)
        note load = passed(1) [unfolded x]
        from passed(2) [unfolded x prod.case] show ?thesis
        proof (cases rule: lift_then)
          case (passed y)
          show ?thesis
          proof (cases "map_of (ws_events w) ev")
            case None
            from passed(2) [unfolded set_proj_simps None option.case] show ?thesis
            proof (cases rule: lift_then)
              case (passed te)
              from passed(1) have te: "te_event_id te = ev" "te_root_grant_id te = gid"
                by (auto simp: make_transition_def result_simps)
              have "w' = snd (publish_transition te ?w)" using passed(2) by simp
              then have "map_of (ws_events w') ev = Some te"
                by (simp add: publish_transition_def commit_events te)
              with assms(2) te(2) have vis: "\<And>x. x \<in> set (te_affected_grant_ids te) \<Longrightarrow> x \<noteq> gid \<Longrightarrow> published E (ws_store w) x"
                by (auto simp: event_published_def list_all_iff)
              have load': "load_grant E (at_proj (ws_store w) ?p) gid = Inr (g, sha, s)" using load by simp
              show ?thesis
                by (rule publish_transition_advance [OF ledgerD(4) [OF assms(1)] load' None passed(1) vis passed(2)])
            qed simp
          qed (use passed in \<open>auto simp: liftS_def\<close>)
        qed simp
      qed simp
    qed simp
  qed simp
qed

subsection \<open>Operations that post nothing\<close>

lemma frames [simp]:
  "proj (w\<lparr>ws_decisions := a\<rparr>) = proj w" "intents_of (w\<lparr>ws_decisions := a\<rparr>) = intents_of w"
  "proj (w\<lparr>ws_verifications := b\<rparr>) = proj w" "intents_of (w\<lparr>ws_verifications := b\<rparr>) = intents_of w"
  "proj (w\<lparr>ws_evidence := c\<rparr>) = proj w" "intents_of (w\<lparr>ws_evidence := c\<rparr>) = intents_of w"
  by (simp_all add: proj_def intents_of_def reservation_intents_def use_intents_def release_intents_def
      reconciliation_intents_def event_intents_def)

lemma evaluate_and_publish_advance:
  "evaluate_and_publish E w rq ctx at = (res, w') \<Longrightarrow> advance w w' p"
  unfolding evaluate_and_publish_def Let_def
  by (erule lift_then, simp) (erule lift_then, auto simp: advance_def unposted_def)

lemma prepare_evidence_advance:
  assumes "prepare_reconciliation_evidence E w ref digest outcome ow at v = (res, w')"
  shows "advance w w' p"
proof (cases "map_of OUTCOMES outcome")
  case None
  with assms show ?thesis by (auto simp: prepare_reconciliation_evidence_def)
next
  case (Some out)
  from assms [unfolded prepare_reconciliation_evidence_def Some option.case Let_def] have "unposted w w' \<and> proj w' = proj w"
    by (auto simp: bindS_def liftS_def unposted_def split: sum.splits prod.splits)
  then show ?thesis by (simp add: advance_def)
qed

lemma create_result_advance: "create_execution_result E W w a rb vb er at ea ov = Inr (b, w') \<Longrightarrow> advance w w' p"
  using create_execution_result_frame [of E W w a rb vb er at ea ov b w']
  by (auto simp: advance_def unposted_def)

lemma verify_advance:
  assumes "ledger w p0 h" and "verify_and_publish E W w stage ref digest at v = (res, w')"
  shows "advance w w' (replay p0 h)"
proof (cases "stage \<in> {''pre_dispatch'', ''pre_commit''}")
  case False
  with assms(2) show ?thesis by (auto simp: verify_and_publish_def)
next
  case True
  let ?w = "set_proj (replay p0 h) w"
  from ledger_recover [OF assms(1), of E W]
  have "w' = w \<or> unposted w w' \<and> proj w' = replay p0 h"
  proof
    assume "\<exists>e. recover E W w = (Inl e, w)"
    with assms(2) True show ?thesis
      by (auto simp: verify_and_publish_def verify_reservation_with_recovery_def bindS_def)
  next
    assume "\<exists>out. recover E W w = (Inr out, ?w)"
    with assms(2) True have "w' = ?w \<or> (\<exists>d. w' = ?w\<lparr>ws_verifications := d\<rparr>)"
      by (auto simp: verify_and_publish_def verify_reservation_with_recovery_def bindS_def liftS_def Let_def
          split: sum.splits prod.splits)
    then show ?thesis by (auto simp: unposted_def)
  qed
  then show ?thesis by (auto simp: advance_def unposted_def)
qed

subsection \<open>Steps\<close>

text \<open>
  A complete operation. The environment (the files of the workspace, the owners' validators) may
  differ from one operation to the next. A release needs the materialization receipts of the grants
  in use to be still there, a transition those of the descendants.
\<close>

inductive completes :: "env \<Rightarrow> owner \<Rightarrow> ws \<Rightarrow> ws \<Rightarrow> bool" for E W where
  decided: "evaluate_and_publish E w rq ctx at = (d, w') \<Longrightarrow> completes E W w w'"
| reserved: "reserve E W w ref digest at key = (r, w') \<Longrightarrow> completes E W w w'"
| verified: "verify_and_publish E W w stage ref digest at v = (x, w') \<Longrightarrow> completes E W w w'"
| recorded: "create_execution_result E W w a rb vb er at ea ov = Inr (b, w') \<Longrightarrow> completes E W w w'"
| consumed: "consume_legacy E W w ref digest er pre ea at v key = (u, w') \<Longrightarrow> completes E W w w'"
| consumed_registered: "consume_registered_owner E W w ref digest er ov vb at v key = (u, w') \<Longrightarrow> completes E W w w'"
| released: "uses_published E w \<Longrightarrow> release_legacy E W w ref digest ne at v key st = (x', w') \<Longrightarrow> completes E W w w'"
| released_registered: "uses_published E w \<Longrightarrow> release_registered_owner E W w ref digest ne at v key st = (x', w') \<Longrightarrow>
    completes E W w w'"
| observed: "prepare_reconciliation_evidence E w ref digest out ow at v = (e, w') \<Longrightarrow> completes E W w w'"
| reconciled: "reconcile_quarantine E W w ref digest ee out pre at v key = (q, w') \<Longrightarrow> completes E W w w'"
| transitioned: "event_published E w ev w' \<Longrightarrow> transition_grants E W w gid st ev v sa tm = (t, w') \<Longrightarrow> completes E W w w'"

text \<open>
  A registration that stops between its two writes leaves a grant document without a state. Then
  the grant can neither be registered again nor loaded, and listing the grants fails.
\<close>

lemma incomplete_pair_stays:
  assumes "map_of (st_grants st) gid = Some x" and "state_of st gid = None"
  shows "\<exists>e. list_grants E st None = Inl e"
    and "validate_grant raw = Inr g \<Longrightarrow> g_grant_id g = gid \<Longrightarrow> \<exists>e. register_compiled_grant E fd st raw pid = (Inl e, st)"
proof -
  have "gid \<in> set (grant_ids st)" using assms(1) by (force simp: grant_ids_def dest: map_of_SomeD)
  then obtain i where "i < length (grant_ids st)" "grant_ids st ! i = gid" by (metis in_set_conv_nth)
  moreover have "list_one E st None gid = fail Missing"
    using assms by (simp add: list_one_def load_grant_def split: prod.splits)
  ultimately have "mapE (list_one E st None) (grant_ids st) \<noteq> Inr xs" for xs
    by (auto simp: mapE_eq_Inr list_all2_conv_all_nth)
  then show "\<exists>e. list_grants E st None = Inl e"
    by (cases "mapE (list_one E st None) (grant_ids st)") (auto simp: list_grants_def)
  show "\<exists>e. register_compiled_grant E fd st raw pid = (Inl e, st)" if "validate_grant raw = Inr g" "g_grant_id g = gid"
  proof (cases "register_checked E st raw pid")
    case (Inr y)
    with that assms show ?thesis by (auto simp: register_checked_def result_simps split: prod.splits)
  qed (simp add: register_compiled_grant_def)
qed

text \<open>
  Crashes: while an operation recovers, every projection is the old or the recovered one; while it
  applies its own changes, the recovered or the new one. An interrupted registration is not a step,
  see \<open>incomplete_pair_stays\<close>.
\<close>

inductive step :: "ws \<Rightarrow> ws \<Rightarrow> bool" where
  completed: "completes E W w w' \<Longrightarrow> step w w'"
| registered: "pid = None \<or> inj (env_sha256 E) \<Longrightarrow> register_grant E W w raw pid = (g, w') \<Longrightarrow> step w w'"
| recovering: "(\<And>r. q r = proj w r \<or> q r = proj (snd (recover E W w)) r) \<Longrightarrow> step w (set_proj q w)"
| applying: "completes E W w w' \<Longrightarrow> recover E W w = (Inr out, w1) \<Longrightarrow>
    (\<And>r. q r = proj w1 r \<or> q r = proj w' r) \<Longrightarrow> step w (set_proj q w')"

definition empty_ws :: ws where
  "empty_ws = \<lparr>ws_store = \<lparr>st_grants = [], st_proj = (\<lambda>_. None)\<rparr>, ws_decisions = [], ws_reservations = [],
     ws_use_receipts = [], ws_release_receipts = [], ws_reconciliation_receipts = [], ws_events = [],
     ws_verifications = [], ws_execution_results = [], ws_evidence = []\<rparr>"

inductive arises :: "ws \<Rightarrow> bool" where
  start: "arises empty_ws"
| onward: "arises w \<Longrightarrow> step w w' \<Longrightarrow> arises w'"

subsection \<open>Every step keeps the ledger\<close>

lemma completes_advance:
  assumes "completes E W w w'" and "ledger w p0 h"
  shows "advance w w' (replay p0 h)"
  using assms(1)
proof cases
  case (decided rq ctx at d)
  then show ?thesis by (rule evaluate_and_publish_advance)
next
  case (reserved ref digest at key r)
  then show ?thesis by (rule reserve_advance [OF assms(2)])
next
  case (verified stage ref digest at v x)
  then show ?thesis by (rule verify_advance [OF assms(2)])
next
  case (recorded a rb vb er at ea ov b)
  then show ?thesis by (rule create_result_advance)
next
  case (consumed ref digest er pre ea at v key u)
  then show ?thesis unfolding consume_legacy_def
    by (rule lift_then) (auto dest: consume_advance [OF assms(2)])
next
  case (consumed_registered ref digest er ov vb at v key u)
  then show ?thesis unfolding consume_registered_owner_def
    by (rule lift_then) (auto dest: consume_advance [OF assms(2)])
next
  case (released ref digest ne at v key st x')
  from released(2) show ?thesis unfolding release_legacy_def
    by (rule lift_then) (auto dest: release_advance [OF assms(2) released(1)])
next
  case (released_registered ref digest ne at v key st x')
  from released_registered(2) show ?thesis unfolding release_registered_owner_def
    by (rule lift_then) (auto dest: release_advance [OF assms(2) released_registered(1)])
next
  case (observed ref digest out ow at v e)
  then show ?thesis by (rule prepare_evidence_advance)
next
  case (reconciled ref digest ee out pre at v key q)
  then show ?thesis by (rule reconcile_advance [OF assms(2)])
next
  case (transitioned ev gid st v sa tm t)
  then show ?thesis by (rule transition_advance [OF assms(2)])
qed

lemma advance_ledger:
  assumes "ledger w p0 h" and "advance w w' (replay p0 h)"
    and "\<And>r. q r = replay p0 h r \<or> q r = proj w' r"
  obtains h' where "ledger (set_proj q w') p0 h'" "h' = h \<or> (\<exists>i. h' = h @ [i] \<and> raises (snd i))"
proof -
  note crash = ledgerD(3) [OF assms(1)] crash_state_final [of p0 h]
  show thesis
  proof (cases "unposted w w' \<and> (proj w' = proj w \<or> proj w' = replay p0 h)")
    case True
    have "crash_state p0 h q"
      using True assms(3) by (intro crash_state_pointwise [OF crash]) metis
    with True have "ledger (set_proj q w') p0 h"
      by (intro ledger_same [OF assms(1)]) (simp_all add: unposted_def)
    then show thesis by (rule that) simp
  next
    case False
    with assms(2) obtain i where i: "publishes w w' (replay p0 h) i" "proj w' = post (replay p0 h) i"
      by (auto simp: advance_def)
    with assms(3) have q: "q r = replay p0 h r \<or> q r = post (replay p0 h) i r" for r by simp
    have "publishes w (set_proj q w') (replay p0 h) i" using i(1) by (simp add: publishes_def)
    then have "ledger (set_proj q w') p0 (h @ [i])" by (rule publishes_ledger [OF assms(1)]) (use q in simp)
    moreover have "raises (snd i)" using i(1) by (simp add: publishes_def)
    ultimately show thesis by (intro that [of "h @ [i]"]) blast+
  qed
qed

subsection \<open>Registration\<close>

text \<open>A projection that is missing at the end of a history was never touched by it\<close>

lemma replay_None:
  assumes "replay p h r = None"
  shows "p r = None" "i \<in> set h \<Longrightarrow> r \<notin> ch_ref ` set (snd i)"
proof -
  have "p r = None \<and> (\<forall>i \<in> set h. r \<notin> ch_ref ` set (snd i))"
    using assms
  proof (induction h arbitrary: p)
    case (Cons i h)
    then have IH: "post p i r = None" "\<forall>i \<in> set h. r \<notin> ch_ref ` set (snd i)" by auto
    have "map_of (map (\<lambda>c. (ch_ref c, ch_after c)) (snd i)) r = None"
      using IH(1) by (auto simp: post_def split: option.splits)
    then have r: "r \<notin> ch_ref ` set (snd i)" by (force simp: map_of_eq_None_iff)
    with IH post_other [of r i p] show ?case by simp
  qed simp
  then show "p r = None" "i \<in> set h \<Longrightarrow> r \<notin> ch_ref ` set (snd i)" by blast+
qed

lemma post_upd:
  assumes "r \<notin> ch_ref ` set (snd i)"
  shows "post (p(r \<mapsto> v)) i = (post p i)(r \<mapsto> v)"
proof
  fix x
  show "post (p(r \<mapsto> v)) i x = ((post p i)(r \<mapsto> v)) x"
    using post_other [OF assms, of "p(r \<mapsto> v)"] by (cases "x = r") (simp_all add: post_def split: option.splits)
qed

lemma replay_upd:
  assumes "\<And>i. i \<in> set h \<Longrightarrow> r \<notin> ch_ref ` set (snd i)"
  shows "replay (p(r \<mapsto> v)) h = (replay p h)(r \<mapsto> v)" "lawful rank (p(r \<mapsto> v)) h = lawful rank p h"
proof -
  have "replay (p(r \<mapsto> v)) h = (replay p h)(r \<mapsto> v) \<and> lawful rank (p(r \<mapsto> v)) h = lawful rank p h"
    using assms
  proof (induction h arbitrary: p)
    case (Cons i h)
    then have r: "r \<notin> ch_ref ` set (snd i)" by simp
    then have "ready (p(r \<mapsto> v)) i = ready p i" by (auto simp: ready_def)
    moreover have "replay ((post p i)(r \<mapsto> v)) h = (replay (post p i) h)(r \<mapsto> v) \<and>
        lawful rank ((post p i)(r \<mapsto> v)) h = lawful rank (post p i) h"
      using Cons.prems by (intro Cons.IH) simp
    ultimately show ?case by (simp only: replay.simps lawful.simps post_upd [OF r])
  qed simp
  then show "replay (p(r \<mapsto> v)) h = (replay p h)(r \<mapsto> v)" "lawful rank (p(r \<mapsto> v)) h = lawful rank p h"
    by simp_all
qed

lemma registered_books:
  assumes bk: "books st rs p" and wf: "wf_store (at_proj st' (p(Grant_ref gid \<mapsto> GS s)))"
    and st': "st_grants st' = st_grants st @ [(gid, x)]" and new: "gid \<notin> fst ` set (st_grants st)"
    and s: "gs_reserved_uses s = 0" "gs_consumed_uses s = 0"
  shows "books st' rs (p(Grant_ref gid \<mapsto> GS s))"
proof -
  let ?p = "p(Grant_ref gid \<mapsto> GS s)"
  have rok: "list_all (reservation_ok st) rs" using bk by (simp add: books_def)
  then have rok': "list_all (reservation_ok st') rs" using st' by (auto simp: list_all_iff reservation_ok_def)
  have same: "weighed f ?p rs k = weighed f p rs k" for f k by (rule weighed_cong) (simp add: status_at_def)
  have "weighed f p rs gid = 0" for f
  proof -
    have "units_at (fst (snd e)) gid = 0" if "e \<in> set rs" for e
      using rok that new by (intro units_at_unused) (auto simp: list_all_iff reservation_ok_def)
    then have "map (\<lambda>e. f (status_at p (fst e)) * units_at (fst (snd e)) gid) rs = map (\<lambda>_. 0) rs" by simp
    then show ?thesis unfolding weighed_def by (simp only: sum_list_0)
  qed
  with bk s same have "balanced ?p rs" by (auto simp: books_def balanced_def)
  with bk rok' wf st' new show ?thesis by (simp add: books_def grant_refs_ok_def ref_ok_def)
qed

lemma register_ledger:
  assumes "ledger w p0 h" and "pid = None \<or> inj (env_sha256 E)" and "register_grant E W w raw pid = (res, w')"
  shows "w' = w \<or> w' = set_proj (replay p0 h) w \<or>
    (\<exists>gid s. replay p0 h (Grant_ref gid) = None \<and> ledger w' (p0(Grant_ref gid \<mapsto> GS s)) h)"
proof -
  let ?p = "replay p0 h"
  let ?w = "set_proj ?p w"
  note bk = ledgerD(4) [OF assms(1)]
  from assms(3) [unfolded register_grant_def] show ?thesis
  proof (cases rule: lift_then)
    case (passed x)
    from passed(2) show ?thesis
    proof (cases rule: recover_then [OF assms(1), consumes 1, case_names failed recovered])
      case (recovered out)
      obtain st' where run: "register_compiled_grant E (file_digest E) (at_proj (ws_store w) ?p) raw pid = (res, st')"
        and w': "w' = ?w\<lparr>ws_store := st'\<rparr>" using recovered by (auto simp: Let_def prod_eq_iff)
      from run show ?thesis
      proof (cases rule: register_cases)
        case unchanged
        with w' show ?thesis by (simp add: set_proj_def at_proj_def)
      next
        case (fresh g)
        let ?gid = "g_grant_id g" and ?sha = "file_digest E (grant_json g)"
        let ?s = "initial_state g ?sha" and ?r = "Grant_ref (g_grant_id g)"
        note new = register_checked_fresh [OF fresh(2)]
        have notin: "?gid \<notin> fst ` set (st_grants (ws_store w))" using new(3) by (simp add: map_of_eq_None_iff)
        have none: "?p ?r = None"
          using new(4) bk by (auto simp: books_def grant_refs_ok_def split: option.splits pstate.splits)
        note un = replay_None(2) [OF none]
        have grants: "st_grants st' = st_grants (ws_store w) @ [(?gid, grant_json g, ?sha)]"
          using notin by (simp add: fresh(3) dput_fresh)
        have st': "st' = at_proj st' (?p(?r \<mapsto> GS ?s))" by (simp add: fresh(3) at_proj_def)
        have wfp: "wf_store (at_proj (ws_store w) ?p)" using bk by (simp add: books_def)
        have wf': "wf_store (at_proj st' (?p(?r \<mapsto> GS ?s)))"
          using register_wf [OF assms(2) wfp run] st' by simp
        have bk': "books st' (ws_reservations w) (?p(?r \<mapsto> GS ?s))"
          by (rule registered_books [OF bk wf' grants notin]) (simp_all add: initial_state_def)
        have prefix: "replay (p0(?r \<mapsto> GS ?s)) (take k h) = (replay p0 (take k h))(?r \<mapsto> GS ?s)" for k
          using un by (intro replay_upd) (auto dest: in_set_takeD)
        have wfk: "wf_store (at_proj st' ((replay p0 (take k h))(?r \<mapsto> GS ?s)))" if k: "k \<le> length h" for k
        proof (rule wf_at_projI)
          fix gid assume gid: "gid \<in> fst ` set (st_grants st')"
          from wf_state [OF wf' gid] obtain g' sha' s' where g': "grant_of st' gid = Some (g', sha')" "g_grant_id g' = gid"
            "link_ok st' g'" "(?p(?r \<mapsto> GS ?s)) (Grant_ref gid) = Some (GS s')" "state_ok g' sha' s'" by metis
          show "entry_ok (at_proj st' ((replay p0 (take k h))(?r \<mapsto> GS ?s))) gid"
          proof (cases "gid = ?gid")
            case True
            with g' show ?thesis by (auto simp: entry_ok_at_proj)
          next
            case False
            with gid grants have old: "gid \<in> fst ` set (st_grants (ws_store w))" by auto
            have "grant_of st' gid = grant_of (ws_store w) gid" using False by (simp add: fresh(3) grant_of_def)
            with wf_state [OF ledgerD(5) [OF assms(1) k] old] g' False show ?thesis
              by (auto simp: entry_ok_at_proj)
          qed
        qed
        have "proj w' = replay (p0(?r \<mapsto> GS ?s)) h" using prefix [of "length h"] by (simp add: w' proj_def fresh(3))
        then have "crash_state (p0(?r \<mapsto> GS ?s)) h (proj w')" by (simp add: crash_state_final)
        moreover have "intents_of w' = intents_of w"
          by (simp add: w' intents_of_def reservation_intents_def use_intents_def release_intents_def
              reconciliation_intents_def event_intents_def)
        ultimately have "ledger w' (p0(?r \<mapsto> GS ?s)) h"
          using ledgerD(1,2) [OF assms(1)] replay_upd(2) [OF un, where rank = rank_of and p = p0 and v = "GS ?s"] bk' wfk prefix prefix [of "length h"]
          by (simp add: ledger_def w')
        with none show ?thesis by blast
      qed
    qed simp
  qed simp
qed

subsection \<open>The logical state\<close>

text \<open>What the projections are once every published intent is applied\<close>

definition logical :: "ws \<Rightarrow> sref \<Rightarrow> pstate option" where
  "logical w = snd (recover_projection_intents (intents_of w) (proj w))"

lemma ledger_logical: "ledger w p0 h \<Longrightarrow> logical w = replay p0 h"
  using crash_recovery [of rank_of p0 h "intents_of w" "proj w"] by (auto simp: logical_def ledger_def)

text \<open>A state stays, or a legal move with a higher version replaces it\<close>

definition grows :: "(sref \<Rightarrow> pstate option) \<Rightarrow> (sref \<Rightarrow> pstate option) \<Rightarrow> bool" where
  "grows p p' \<longleftrightarrow> (\<forall>r v. p r = Some v \<longrightarrow> p' r = Some v \<or>
     (\<exists>v'. p' r = Some v' \<and> rank_of (Some v) < rank_of (Some v') \<and> legal_move (Some v) v'))"

lemma grows_refl [simp]: "grows p p"
  by (simp add: grows_def)

lemma grows_post:
  assumes "ready p i" and "raises (snd i)"
  shows "grows p (post p i)"
  unfolding grows_def
proof (intro allI impI)
  fix r v assume v: "p r = Some v"
  show "post p i r = Some v \<or> (\<exists>v'. post p i r = Some v' \<and> rank_of (Some v) < rank_of (Some v') \<and> legal_move (Some v) v')"
  proof (cases "r \<in> ch_ref ` set (snd i)")
    case True
    then obtain c where c: "c \<in> set (snd i)" "r = ch_ref c" by auto
    with assms v have "ch_before c = Some v" "post p i r = Some (ch_after c)" by (auto simp: ready_def post_changed)
    with assms(2) c show ?thesis by (auto simp: raises_def)
  qed (use v in \<open>simp add: post_other\<close>)
qed

lemma advance_grows:
  assumes "ledger w p0 h" and "advance w v (replay p0 h)" and "\<And>r. q r = replay p0 h r \<or> q r = proj v r"
  shows "\<exists>p0' h'. ledger (set_proj q v) p0' h' \<and> grows (logical w) (logical (set_proj q v))"
proof -
  from advance_ledger [OF assms] obtain h' where
    h': "ledger (set_proj q v) p0 h'" "h' = h \<or> (\<exists>i. h' = h @ [i] \<and> raises (snd i))" by metis
  from h'(2) have "grows (replay p0 h) (replay p0 h')"
  proof
    assume "\<exists>i. h' = h @ [i] \<and> raises (snd i)"
    then obtain i where i: "h' = h @ [i]" "raises (snd i)" by blast
    with ledgerD(1) [OF h'(1)] have "ready (replay p0 h) i" by (simp add: lawful_snoc)
    with i show ?thesis by (simp add: replay_append grows_post)
  qed simp
  with h'(1) ledger_logical [OF h'(1)] ledger_logical [OF assms(1)] show ?thesis by auto
qed

lemma advance_grants: "advance w w' p \<Longrightarrow> st_grants (ws_store w') = st_grants (ws_store w)"
  by (auto simp: advance_def unposted_def publishes_def)

text \<open>
  The contract of an operation on the ledger: from a workspace with a ledger, however it runs, it
  advances the workspace. What a client may rely on follows from that alone.
\<close>

locale booked =
  fixes run :: "ws \<Rightarrow> ws \<Rightarrow> bool"
  assumes advances: "ledger w p0 h \<Longrightarrow> run w v \<Longrightarrow> advance w v (replay p0 h)"
begin

lemma interrupted:
  assumes "ledger w p0 h" and "run w v" and "\<And>r. q r = replay p0 h r \<or> q r = proj v r"
  shows "\<exists>p0' h'. ledger (set_proj q v) p0' h' \<and> grows (logical w) (logical (set_proj q v))"
  using assms(1) advances [OF assms(1,2)] assms(3) by (rule advance_grows)

lemma finished:
  assumes "ledger w p0 h" and "run w v"
  shows "\<exists>p0' h'. ledger v p0' h' \<and> grows (logical w) (logical v)"
  using interrupted [OF assms, of "proj v"] by simp

lemma keeps_grants: "ledger w p0 h \<Longrightarrow> run w v \<Longrightarrow> st_grants (ws_store v) = st_grants (ws_store w)"
  using advances by (rule advance_grants)

lemma leaves_no_work:
  assumes l: "ledger w p0 h" and "run w v" and p: "proj w = replay p0 h"
  shows "proj v = logical v"
  using advances [OF assms(1,2)] unfolding advance_def
proof (elim disjE conjE exE)
  fix i assume i: "publishes w v (replay p0 h) i" "proj v = post (replay p0 h) i"
  then have "ledger v p0 (h @ [i])" by (intro publishes_ledger [OF l]) simp_all
  from ledger_logical [OF this] i show ?thesis by (simp add: replay_append)
qed (use l p in \<open>auto simp: unposted_def intro!: ledger_logical [symmetric] ledger_same [OF l] crash_state_final\<close>)

end

interpretation reserving: booked "\<lambda>w v. \<exists>res. reserve E W w ref digest at key = (res, v)" for E W ref digest at key
  by unfold_locales (blast intro: reserve_advance)

interpretation consuming: booked "\<lambda>w v. \<exists>res. consume E W w registered ref digest er pre ea ov at n key = (res, v)"
  for E W registered ref digest er pre ea ov at n key
  by unfold_locales (blast intro: consume_advance)

interpretation releasing: booked "\<lambda>w v. uses_published E w \<and> (\<exists>res. release E W w registered ref digest ne at n key st = (res, v))"
  for E W registered ref digest ne at n key st
  by unfold_locales (blast intro: release_advance)

interpretation reconciling: booked "\<lambda>w v. \<exists>res. reconcile_quarantine E W w ref digest ee out pre at n key = (res, v)"
  for E W ref digest ee out pre at n key
  by unfold_locales (blast intro: reconcile_advance)

interpretation transitioning: booked "\<lambda>w v. event_published E w ev v \<and> (\<exists>res. transition_grants E W w gid st ev n sa tm = (res, v))"
  for E W gid st ev n sa tm
  by unfold_locales (blast intro: transition_advance)

interpretation completing: booked "completes E W" for E W
  by unfold_locales (rule completes_advance)

lemma recovered_ledger:
  assumes "ledger w p0 h" and "\<And>r. q r = proj w r \<or> q r = replay p0 h r"
  shows "ledger (set_proj q w) p0 h" "logical (set_proj q w) = logical w"
proof -
  have "crash_state p0 h q" using assms(2) by (rule crash_state_pointwise [OF ledgerD(3) [OF assms(1)] crash_state_final])
  then show l: "ledger (set_proj q w) p0 h" by (intro ledger_same [OF assms(1)]) simp_all
  show "logical (set_proj q w) = logical w" using ledger_logical [OF l] ledger_logical [OF assms(1)] by simp
qed

lemma step_ledger:
  assumes "ledger w p0 h" and "step w w'"
  shows "\<exists>p0' h'. ledger w' p0' h' \<and> grows (logical w) (logical w')"
  using assms(2)
proof cases
  case (completed E W)
  from completing.finished [OF assms(1) this] show ?thesis .
next
  case (registered E W raw pid g)
  have same: "ledger (set_proj (replay p0 h) w) p0 h" "logical (set_proj (replay p0 h) w) = logical w"
    by (rule recovered_ledger [OF assms(1)], simp)+
  from register_ledger [OF assms(1) registered] show ?thesis
  proof (elim disjE exE conjE)
    fix gid s assume none: "replay p0 h (Grant_ref gid) = None" and l: "ledger w' (p0(Grant_ref gid \<mapsto> GS s)) h"
    have "logical w' = (logical w)(Grant_ref gid \<mapsto> GS s)"
      using replay_upd(1) [OF replay_None(2) [OF none]] by (simp add: ledger_logical [OF l] ledger_logical [OF assms(1)])
    with none ledger_logical [OF assms(1)] have "grows (logical w) (logical w')" by (auto simp: grows_def)
    with l show ?thesis by blast
  next
    assume "w' = w"
    with assms(1) show ?thesis using grows_refl by metis
  next
    assume "w' = set_proj (replay p0 h) w"
    with same show ?thesis using grows_refl by metis
  qed
next
  case (recovering q E W)
  have "q r = proj w r \<or> q r = replay p0 h r" for r
    using recovering(2) [of r] ledger_recover [OF assms(1), of E W] by auto
  from recovered_ledger [OF assms(1) this] recovering(1) show ?thesis using grows_refl by metis
next
  case (applying E W v out w1 q)
  have "q r = replay p0 h r \<or> q r = proj v r" for r
    using applying(3,4) ledger_recover [OF assms(1), of E W] by auto
  from completing.interrupted [OF assms(1) applying(2) this] applying(1) show ?thesis by simp
qed

lemma empty_ledger: "ledger empty_ws (\<lambda>_. None) []"
  by (simp add: ledger_def empty_ws_def intents_of_def reservation_intents_def use_intents_def release_intents_def
      reconciliation_intents_def event_intents_def entries_def crash_state_def proj_def wf_store_def books_def
      ref_ok_def grant_refs_ok_def balanced_def)

lemma arises_ledger: "arises w \<Longrightarrow> \<exists>p0 h. ledger w p0 h"
  by (induction rule: arises.induct) (use empty_ledger step_ledger in \<open>blast+\<close>)

inductive_cases stepE: "step w w'"

text \<open>Recovery of a workspace that arises: no conflict, and the books at its end\<close>

lemma arises_recover:
  assumes "arises w" and "recover E W w = (Inr out, w')"
  shows "w' = set_proj (logical w) w" "books (ws_store w) (ws_reservations w) (logical w)"
proof -
  from arises_ledger [OF assms(1)] obtain p0 h where l: "ledger w p0 h" by blast
  from ledger_recover [OF l, of E W] assms(2) ledger_logical [OF l] show "w' = set_proj (logical w) w" by auto
  show "books (ws_store w) (ws_reservations w) (logical w)" using ledgerD(4) [OF l] ledger_logical [OF l] by simp
qed

subsection \<open>Runs\<close>

text \<open>What a state can become: a settled reservation stays as it is, a final grant stays final\<close>

fun later :: "pstate \<Rightarrow> pstate \<Rightarrow> bool" where
  "later (RS s) (RS s') = (rs_version s \<le> rs_version s' \<and> (rs_status s \<notin> {Rs_reserved, Rs_quarantined} \<longrightarrow> s' = s) \<and>
     (rs_status s \<noteq> Rs_reserved \<longrightarrow> rs_status s' \<noteq> Rs_reserved))"
| "later (GS s) (GS s') = (gs_version s \<le> gs_version s' \<and> (final_status (gs_status s) \<longrightarrow> final_status (gs_status s')))"
| "later _ _ = False"

lemma later_refl [simp]: "later v v"
  by (cases v) simp_all

lemma later_trans: "later u v \<Longrightarrow> later v v' \<Longrightarrow> later u v'"
  by (cases u; cases v; cases v') auto

lemma grows_later:
  assumes "grows p p'" and "p r = Some v"
  shows "\<exists>v'. p' r = Some v' \<and> later v v'"
proof -
  have "later v v'" if "rank_of (Some v) < rank_of (Some v')" "legal_move (Some v) v'" for v'
    using that by (cases v; cases v') (auto simp: zless_nat_conj less_imp_le)
  with assms show ?thesis by (fastforce simp: grows_def)
qed

lemma steps_arise: "step\<^sup>*\<^sup>* w w' \<Longrightarrow> arises w \<Longrightarrow> arises w'"
  by (induction rule: rtranclp_induct) (auto intro: arises.onward)

lemma step_grows: "arises w \<Longrightarrow> step w w' \<Longrightarrow> grows (logical w) (logical w')"
  using arises_ledger step_ledger by blast

lemma steps_later:
  assumes "step\<^sup>*\<^sup>* w w'" and "arises w" and "logical w r = Some v"
  shows "\<exists>v'. logical w' r = Some v' \<and> later v v'"
  using assms(1)
proof (induction rule: rtranclp_induct)
  case base
  with assms(3) show ?case by auto
next
  case (step y z)
  then obtain u where "logical y r = Some u" "later v u" by blast
  with grows_later [OF step_grows [OF steps_arise [OF step.hyps(1) assms(2)] step.hyps(2)]] show ?case
    by (blast intro: later_trans)
qed

subsection \<open>The account of a grant\<close>

text \<open>The units of a grant that open reservations hold and that consumed reservations spent\<close>

definition account :: "ws \<Rightarrow> string \<Rightarrow> int \<times> int" where
  "account w gid = (held (logical w) (ws_reservations w) gid, spent (logical w) (ws_reservations w) gid)"

lemma arises_books: "arises w \<Longrightarrow> books (ws_store w) (ws_reservations w) (logical w)"
  using arises_ledger ledgerD(4) ledger_logical by metis

lemma account_counters:
  assumes "arises w" and "logical w (Grant_ref gid) = Some (GS s)"
  shows "counters s = account w gid"
  using arises_books [OF assms(1)] assms(2) by (simp add: books_def balanced_def counters_def account_def)

lemma logical_state:
  assumes "arises w" and "grant_of (ws_store w) gid = Some (g, sha)"
  obtains s where "logical w (Grant_ref gid) = Some (GS s)" "state_ok g sha s"
  using arises_books [OF assms(1)] assms(2) grant_of_stored [OF assms(2)]
  by (auto simp: books_def elim!: wf_state)

text \<open>Grants are never removed or changed\<close>

lemma recover_grants: "st_grants (ws_store (snd (recover E W w))) = st_grants (ws_store w)"
  by (simp add: recover_def Let_def split: sum.splits)

lemma register_grant_cases:
  assumes "register_grant E W w raw pid = (res, w')"
  obtains (kept) "st_grants (ws_store w') = st_grants (ws_store w)"
  | (ran) w1 :: ws where "st_grants (ws_store w1) = st_grants (ws_store w)"
      "register_compiled_grant E (file_digest E) (ws_store w1) raw pid = (res, ws_store w')"
  using assms [unfolded register_grant_def]
proof (cases rule: lift_then)
  case (passed y)
  obtain r w1 where rec: "recover E W w = (r, w1)" by (cases "recover E W w")
  with recover_grants [of E W w] have same: "st_grants (ws_store w1) = st_grants (ws_store w)" by simp
  show thesis
  proof (cases r)
    case (Inl e)
    with passed(2) rec same kept show thesis by simp
  next
    case (Inr out)
    with passed(2) rec ran [OF same] show thesis by (auto simp: Let_def prod_eq_iff)
  qed
qed (use kept in simp)

lemma register_grant_of:
  assumes "register_grant E W w raw pid = (res, w')" and "grant_of (ws_store w) gid = Some x"
  shows "grant_of (ws_store w') gid = Some x"
  using assms(1)
proof (cases rule: register_grant_cases)
  case kept
  with assms(2) show ?thesis by (simp add: grant_of_def)
next
  case (ran w1)
  with assms(2) have g1: "grant_of (ws_store w1) gid = Some x" by (simp add: grant_of_def)
  from ran(2) show ?thesis
  proof (cases rule: register_cases)
    case (fresh g)
    with register_checked_fresh [OF fresh(2)] g1 show ?thesis by (auto simp: grant_of_def split: if_splits)
  qed (use g1 in simp)
qed

lemma step_grant_of:
  assumes "arises w" and "step w w'" and "grant_of (ws_store w) gid = Some x"
  shows "grant_of (ws_store w') gid = Some x"
proof -
  obtain p0 h where l: "ledger w p0 h" using arises_ledger [OF assms(1)] by blast
  from assms(2) show ?thesis
  proof cases
    case (completed E W)
    from completing.keeps_grants [OF l this] assms(3) show ?thesis by (simp add: grant_of_def)
  next
    case (registered E W raw pid g)
    from register_grant_of [OF registered(2) assms(3)] show ?thesis .
  next
    case (recovering q E W)
    with assms(3) show ?thesis by simp
  next
    case (applying E W v out w1 q)
    from completing.keeps_grants [OF l applying(2)] applying(1) assms(3) show ?thesis by (simp add: grant_of_def)
  qed
qed

lemma account_refines:
  assumes "arises w" and "step w w'" and "grant_of (ws_store w) gid = Some (g, sha)"
  shows "account_step (g_max_uses g) (account w gid) (account w' gid)"
proof -
  have w': "arises w'" using assms(1,2) by (rule arises.onward)
  have g': "grant_of (ws_store w') gid = Some (g, sha)" by (rule step_grant_of [OF assms])
  from assms(1,3) obtain s where s: "logical w (Grant_ref gid) = Some (GS s)" by (rule logical_state)
  from w' g' obtain s' where s': "logical w' (Grant_ref gid) = Some (GS s')" by (rule logical_state)
  have "account_step None (counters s) (counters s')"
    using step_grows [OF assms(1,2), unfolded grows_def, rule_format, OF s] s' by (auto intro: account_step.idle)
  moreover have "fst (counters s') + snd (counters s') \<le> m" if "g_max_uses g = Some m" for m
    using books_within_budget(3) [OF arises_books [OF w'] g' that] account_counters [OF w' s'] by (simp add: account_def)
  ultimately have "account_step (g_max_uses g) (counters s) (counters s')" by (rule account_step_budget)
  then show ?thesis using account_counters [OF assms(1) s] account_counters [OF w' s'] by simp
qed

end
