(* ===== verification/Acceptance.thy ===== *)
theory Acceptance
  imports Reach
begin

text \<open>
  What an operation publishes is what recovery accepts. Every later operation validates all
  published intents again, so an intent that its validator rejects would stop the workspace. A
  reservation that \<^verbatim>\<open>reserve\<close> publishes validates; a release receipt of a grant that is not active
  does not. Repeating a reservation gives the same result, or the error of recovery.
\<close>

subsection \<open>States that validate\<close>

definition event_ok :: "gstate \<Rightarrow> bool" where
  "event_ok s = (case gs_last_event_id s of None \<Rightarrow> True | Some e \<Rightarrow> is_identifier e)"

lemma grant_status_name: "enum_str (JStr (enum_name GRANT_STATUSES s)) GRANT_STATUSES = Inr s"
  by (cases s) (simp_all add: enum_str_def enum_name_def GRANT_STATUSES_def py_str_def)

lemma grant_state_ok_iff: "grant_state_ok g sha s \<longleftrightarrow> state_ok g sha s \<and> event_ok s"
proof -
  have keys: "closed_obj (JObj (gstate_json s)) GRANT_STATE_KEYS = Inr (gstate_json s)"
    by (simp add: closed_obj_def exact_keys_def jkeys_def gstate_json_def GRANT_STATE_KEYS_def)
  have rem: "state_ok g sha s \<Longrightarrow> case gs_remaining_uses s of None \<Rightarrow> True | Some n \<Rightarrow> 0 \<le> n"
    by (auto simp: state_ok_def accounting_ok_def split: option.splits)
  show ?thesis
  proof
    assume "grant_state_ok g sha s"
    from this [unfolded grant_state_ok_def validate_grant_state_def keys bindE_simps Let_def result_simps]
    show "state_ok g sha s \<and> event_ok s"
      by (auto simp: gstate_json_def state_ok_def event_ok_def opt_str_def opt_int_def nonnegative_int_def
          exact_identifier_def result_simps grant_status_name split: option.splits if_splits)
  next
    assume ok: "state_ok g sha s \<and> event_ok s"
    with rem have "case gs_remaining_uses s of None \<Rightarrow> True | Some n \<Rightarrow> 0 \<le> n" by blast
    with ok show "grant_state_ok g sha s"
      unfolding grant_state_ok_def validate_grant_state_def keys bindE_simps Let_def
      by (cases s) (auto simp: gstate_json_def state_ok_def event_ok_def opt_str_def opt_int_def nonnegative_int_def
          exact_identifier_def grant_status_name split: option.splits)
  qed
qed

lemma reserved_state_accepted:
  assumes "grant_state_ok g sha s" and "0 < n" and "\<And>rem. gs_remaining_uses s = Some rem \<Longrightarrow> n \<le> rem - gs_reserved_uses s"
    and "is_identifier ev"
  shows "grant_state_ok g sha (reserved_gstate ev n s)"
  using assms reserved_state_ok [of g sha s n ev] unfolding grant_state_ok_iff
  by (simp add: event_ok_def reserved_gstate_def)

subsection \<open>References\<close>

lemma strip_artifact_ref: "strip (artifact_ref directory k) = artifact_ref directory k"
proof -
  have "dropWhile is_space (artifact_ref directory k) = artifact_ref directory k"
    by (simp add: artifact_ref_def is_space_def code_def)
  moreover have "dropWhile is_space (rev (artifact_ref directory k)) = rev (artifact_ref directory k)"
    by (simp add: artifact_ref_def is_space_def code_def)
  ultimately show ?thesis by (simp add: strip_def)
qed

lemma artifact_ref_inj [simp]: "artifact_ref directory k = artifact_ref directory k' \<longleftrightarrow> k = k'"
  by (simp add: artifact_ref_def)

lemma find_ref_again:
  assumes "find_ref directory d ref = Inr (k, v)"
  shows "find_ref directory d (artifact_ref directory k) = Inr (k, v)"
proof -
  from assms have f: "List.find (\<lambda>e. artifact_ref directory (fst e) = strip ref) d = Some (k, v)"
    by (auto simp: find_ref_def split: option.splits)
  then obtain i where "(k, v) = d ! i" "artifact_ref directory (fst (d ! i)) = strip ref"
    by (auto simp: find_Some_iff)
  then have "artifact_ref directory k = strip ref" by (metis fst_conv)
  with f show ?thesis by (simp add: find_ref_def strip_artifact_ref)
qed

subsection \<open>Validation reads only the grant documents\<close>

lemma load_grant_artifact_at [simp]: "load_grant_artifact (at_proj st p) = load_grant_artifact st"
  by (simp add: load_grant_artifact_def fun_eq_iff)

lemma ancestors_from_at [simp]: "ancestors_from (at_proj st p) seen x = ancestors_from st seen x"
  by (induction st seen x rule: ancestors_from.induct) (auto intro: bindE_cong)

lemma validate_grant_bindings_at [simp]:
  "validate_grant_bindings E (at_proj st p) seen bs = validate_grant_bindings E st seen bs"
  by (induction E st seen bs rule: validate_grant_bindings.induct) (auto intro!: bindE_cong)

lemma validate_decision_at_at [simp]: "validate_decision_at E (at_proj st p) k did a = validate_decision_at E st k did a"
  unfolding validate_decision_at_def validate_decision_artifact_def validate_decision_grant_closure_def
    selected_artifact_def [abs_def] Let_def load_grant_artifact_at ancestors_from_at validate_grant_bindings_at ..

lemma grant_change_at [simp]: "grant_change (at_proj st p) = grant_change st"
  by (simp add: grant_change_def fun_eq_iff)

lemma same_grants: "st_grants st' = st_grants st \<Longrightarrow> st' = at_proj st (st_proj st')"
  by (simp add: at_proj_def)

lemma validate_use_at [simp]: "validate_use (at_proj st p) = validate_use st"
  by (intro ext) (unfold validate_use_def load_grant_artifact_at grant_change_at, rule refl)

lemma validate_reserved_decision_at [simp]:
  "validate_reserved_decision E (at_proj st p) = validate_reserved_decision E st"
  by (intro ext) (unfold validate_reserved_decision_def load_grant_artifact_at validate_decision_at_at, rule refl)

lemma validate_reservation_cong:
  assumes "ws_decisions w' = ws_decisions w" and "st_grants (ws_store w') = st_grants (ws_store w)"
  shows "validate_reservation E w' k rv = validate_reservation E w k rv"
proof -
  obtain p where st: "ws_store w' = at_proj (ws_store w) p" using same_grants [OF assms(2)] by blast
  have bd: "bound_decision w' b = bound_decision w b" for b using assms(1) by (simp add: bound_decision_def)
  show ?thesis unfolding validate_reservation_def Let_def st bd validate_use_at validate_reserved_decision_at ..
qed

subsection \<open>Reservations are accepted\<close>

lemma validate_grant_bindings_facts:
  assumes "validate_grant_bindings E st seen bs = Inr ()" and "b \<in> set bs"
  shows "is_identifier (gb_grant_id b) \<and> is_sha (gb_grant_sha256 b) \<and> 0 \<le> gb_state_version b"
  using assms by (induction E st seen bs rule: validate_grant_bindings.induct) (auto simp: result_simps)

lemma change_at_member:
  assumes "distinct (map ch_ref cs)" and "c \<in> set cs"
  shows "change_at cs (ch_ref c) = Some c"
  using assms by (induction cs) (auto simp: change_at_def image_iff)

lemma validate_selected_grant_facts:
  assumes "validate_selected_grant E st None r now b = Inr x"
  shows "load_grant E st (gb_grant_id b) = Inr x" "fst (snd x) = gb_grant_sha256 b"
    "root_grant_request_binding_covers (env_digest E) (fst x) r" "gs_version (snd (snd x)) = gb_state_version b"
    "gs_status (snd (snd x)) = Active"
  using assms by (auto simp: validate_selected_grant_def result_simps split: prod.splits)

lemma load_grant_sha: "load_grant E st gid = Inr (g, sha, s) \<Longrightarrow> gs_grant_sha256 s = sha"
  by (auto simp: load_grant_def result_simps effective_root_grant_state_def Let_def
      split: option.splits materialization.splits if_splits)

lemma grant_artifact_of:
  assumes "grant_of st gid = Some (g, sha)" and "g_grant_id g = gid" and "is_identifier gid"
  shows "load_grant_artifact st gid = Inr (g, sha)"
  using assms by (auto simp: load_grant_artifact_def grant_of_def split: option.splits sum.splits)

text \<open>One use of a planned reservation, with everything its validator looks at\<close>

definition planned_use :: "env \<Rightarrow> store \<Rightarrow> string \<Rightarrow> decision_artifact \<Rightarrow> grant_use \<times> (sref, pstate) change \<Rightarrow> bool" where
  "planned_use E st rid a x \<longleftrightarrow> (\<exists>b g s. b \<in> set (da_selected_grants a @ da_lineage_grants a) \<and>
     load_grant_artifact st (gb_grant_id b) = Inr (g, gb_grant_sha256 b) \<and>
     root_grant_request_binding_covers (env_digest E) g (da_request a) \<and>
     gs_status s = Active \<and> gs_version s = gb_state_version b \<and>
     grant_state_ok g (gb_grant_sha256 b) s \<and> grant_state_ok g (gb_grant_sha256 b) (reserved_gstate rid (gu_units (fst x)) s) \<and>
     fst x = \<lparr>gu_grant_id = gb_grant_id b, gu_grant_sha256 = gb_grant_sha256 b, gu_units = reservation_units (da_request a),
       gu_state_version_before = gs_version s, gu_state_version_after = gs_version s + 1\<rparr> \<and>
     snd x = \<lparr>ch_ref = Grant_ref (gb_grant_id b), ch_before = Some (GS s),
       ch_after = GS (reserved_gstate rid (gu_units (fst x)) s)\<rparr>)"

lemma planned_uses:
  assumes bk: "books st rs p" and sel: "validate_selected_grants E (at_proj st p) None (da_request a) now bs = Inr records"
    and xs: "mapE (reserve_one rid (reservation_units (da_request a))) records = Inr xs"
    and bs: "set bs = set (da_selected_grants a @ da_lineage_grants a)"
    and dec: "validate_grant_bindings E st [] (da_selected_grants a @ da_lineage_grants a) = Inr ()"
    and pos: "0 < reservation_units (da_request a)" and rid: "is_identifier rid"
    and ok: "\<And>gid g sha s. load_grant E (at_proj st p) gid = Inr (g, sha, s) \<Longrightarrow> event_ok s"
    and x: "x \<in> set xs"
  shows "planned_use E st rid a x"
proof -
  from mapE_set [OF xs x] obtain y where y: "y \<in> set records" "reserve_one rid (reservation_units (da_request a)) y = Inr x" by blast
  from mapE_set [OF sel [unfolded validate_selected_grants_def] y(1)] obtain b where
    b: "b \<in> set bs" "validate_selected_grant E (at_proj st p) None (da_request a) now b = Inr y" by blast
  obtain g sha s where t: "y = (g, sha, s)" by (cases y)
  note f = validate_selected_grant_facts [OF b(2), unfolded t fst_conv snd_conv]
  note v = load_visible [OF bk f(1)]
  have st: "grant_of st (gb_grant_id b) = Some (g, sha)" "g_grant_id g = gb_grant_id b" "state_ok g sha s"
    using v f(5) by simp_all
  have sok: "grant_state_ok g sha s" using st(3) ok [OF f(1)] by (simp add: grant_state_ok_iff)
  have id: "is_identifier (gb_grant_id b)" using validate_grant_bindings_facts [OF dec] b(1) bs by auto
  from y(2) have room: "\<And>rem. gs_remaining_uses s = Some rem \<Longrightarrow> reservation_units (da_request a) \<le> rem - gs_reserved_uses s"
    and fx: "fst x = \<lparr>gu_grant_id = gb_grant_id b, gu_grant_sha256 = sha, gu_units = reservation_units (da_request a),
       gu_state_version_before = gs_version s, gu_state_version_after = gs_version s + 1\<rparr>"
    and sx: "snd x = \<lparr>ch_ref = Grant_ref (gb_grant_id b), ch_before = Some (GS s),
       ch_after = GS (reserved_gstate rid (reservation_units (da_request a)) s)\<rparr>"
    using st(2) load_grant_sha [OF f(1)] by (auto simp: reserve_one_def t Let_def split: option.splits if_splits)
  have "grant_state_ok g sha (reserved_gstate rid (reservation_units (da_request a)) s)"
    by (rule reserved_state_accepted [OF sok pos room rid])
  with f sok fx sx grant_artifact_of [OF st(1,2) id] b(1) bs show ?thesis
    unfolding planned_use_def by (intro exI [of _ b] exI [of _ g] exI [of _ s]) simp
qed

lemma planned_use_valid:
  assumes u: "planned_use E st rid a x" and x: "x \<in> set xs"
    and cs: "rv_state_changes rv = map snd xs @ cs'" and d: "distinct (map ch_ref (rv_state_changes rv))"
    and rid: "rv_reservation_id rv = rid" and uniq: "inj_on gb_grant_id (set (da_selected_grants a @ da_lineage_grants a))"
  shows "validate_use st rv (da_request a) (da_selected_grants a @ da_lineage_grants a) (fst x) = Inr ()"
proof -
  let ?bs = "da_selected_grants a @ da_lineage_grants a"
  from u obtain b g s where b: "b \<in> set ?bs" "load_grant_artifact st (gb_grant_id b) = Inr (g, gb_grant_sha256 b)"
    "gs_status s = Active" "gs_version s = gb_state_version b" "grant_state_ok g (gb_grant_sha256 b) s"
    "grant_state_ok g (gb_grant_sha256 b) (reserved_gstate rid (gu_units (fst x)) s)"
    and fx: "fst x = \<lparr>gu_grant_id = gb_grant_id b, gu_grant_sha256 = gb_grant_sha256 b,
       gu_units = reservation_units (da_request a), gu_state_version_before = gs_version s,
       gu_state_version_after = gs_version s + 1\<rparr>"
    and sx: "snd x = \<lparr>ch_ref = Grant_ref (gb_grant_id b), ch_before = Some (GS s),
       ch_after = GS (reserved_gstate rid (gu_units (fst x)) s)\<rparr>"
    unfolding planned_use_def by blast
  have "change_at (rv_state_changes rv) (ch_ref (snd x)) = Some (snd x)"
    using x cs by (intro change_at_member [OF d]) auto
  then have ch: "change_at (rv_state_changes rv) (Grant_ref (gb_grant_id b)) = Some (snd x)" by (simp add: sx)
  have "List.find (\<lambda>c. gb_grant_id c = gb_grant_id b) ?bs = Some b"
  proof (cases "List.find (\<lambda>c. gb_grant_id c = gb_grant_id b) ?bs")
    case None
    with b(1) show ?thesis by (auto simp: find_None_iff)
  next
    case (Some c)
    then obtain i where "i < length ?bs" "gb_grant_id (?bs ! i) = gb_grant_id b" "c = ?bs ! i" by (auto simp: find_Some_iff)
    with uniq b(1) have "c = b" by (metis inj_on_contraD nth_mem)
    with Some show ?thesis by simp
  qed
  moreover have "grant_change st (rv_state_changes rv) (gb_grant_id b) =
      Inr (s, reserved_gstate rid (gu_units (fst x)) s)"
    using b(2,5,6) ch by (simp add: grant_change_def sx)
  moreover have "gs_version (reserved_gstate rid n s) = gs_version s + 1" for n by (simp add: reserved_gstate_def)
  ultimately show ?thesis using b fx rid by (simp add: validate_use_def)
qed

lemma load_reservable_facts:
  assumes "load_reservable_decision E w ref digest key = Inr (k, a, rid)"
  obtains did where "find_ref ''decisions'' (ws_decisions w) ref = Inr (k, did, a, digest)"
    "validate_decision_at E (ws_store w) k did a = Inr ()" "da_decision a = Allowed" "da_selected_grants a \<noteq> []"
    "rid = reservation_id (env_digest E) (da_request_sha256 a) key"
  using assms by (auto simp: load_reservable_decision_def load_bound_decision_def result_simps split: prod.splits)

lemma planned_reservation_accepted:
  assumes bk: "books (ws_store w) rs p"
    and load: "load_reservable_decision E w ref digest key = Inr (k, a, rid)"
    and plan: "plan_reservation E (set_proj p w) \<lparr>b_ref = artifact_ref ''decisions'' k, b_sha256 = digest\<rparr> a rid reserved_at key = Inr rv"
    and new: "map_of rs rid = None"
    and ids: "is_identifier key" "is_identifier rid" "binding_ok \<lparr>b_ref = artifact_ref ''decisions'' k, b_sha256 = digest\<rparr>"
    and ok: "\<And>gid g sha s. load_grant E (at_proj (ws_store w) p) gid = Inr (g, sha, s) \<Longrightarrow> event_ok s"
  shows "validate_reservation E w rid rv = Inr ()"
proof -
  let ?st = "ws_store w" and ?bs = "da_selected_grants a @ da_lineage_grants a" and ?r = "da_request a"
  from load obtain did where find: "find_ref ''decisions'' (ws_decisions w) ref = Inr (k, did, a, digest)"
    and at: "validate_decision_at E ?st k did a = Inr ()" and dec: "da_decision a = Allowed" "da_selected_grants a \<noteq> []"
    and rid: "rid = reservation_id (env_digest E) (da_request_sha256 a) key" by (rule load_reservable_facts)
  have req: "validate_request (request_json ?r) = Inr ?r" using load by (rule load_reservable_request)
  have vb: "validate_grant_bindings E ?st [] ?bs = Inr ()"
    using at by (auto simp: validate_decision_at_def validate_decision_artifact_def Let_def result_simps)
  from plan have fields: "rv_request_id rv = rq_request_id ?r" "rv_request_sha256 rv = da_request_sha256 a"
    "rv_fingerprint rv = da_fingerprint a" "rv_idempotency_key rv = key"
    "rv_decision rv = \<lparr>b_ref = artifact_ref ''decisions'' k, b_sha256 = digest\<rparr>"
    by (auto simp: plan_reservation_def Let_def result_simps)
  from plan obtain bs t records xs where bs: "decision_grant_bindings a = Inr bs"
    and sel: "validate_selected_grants E (at_proj ?st p) None ?r t bs = Inr records"
    and xs: "mapE (reserve_one rid (reservation_units ?r)) records = Inr xs"
    and id: "rv_reservation_id rv = rid" and uses: "rv_grant_uses rv = map fst xs"
    and cs: "rv_state_changes rv = map snd xs @ [move rid None (reserved_rstate rid)]"
    by (rule plan_reservation_facts) simp
  note b = decision_grant_bindings_facts [OF bs]
  have use: "planned_use E ?st rid a x" if "x \<in> set xs" for x
    by (rule planned_uses [OF bk sel xs b(2) vb reservation_units_pos [OF req] ids(2) ok that])
  have ready: "ready p (path, rv_state_changes rv)" "rv_state_changes rv \<noteq> []"
    using plan_reservation_posts(1,3) [OF bk _ new req plan] by simp_all
  then have d: "distinct (map ch_ref (rv_state_changes rv))" by (simp add: ready_def)
  have refs: "map ch_ref (map snd xs) = map (\<lambda>u. Grant_ref (gu_grant_id u)) (map fst xs)"
    using use by (fastforce simp: planned_use_def)
  have names: "map gu_grant_id (map fst xs) = map gb_grant_id bs"
    using reserve_posts(2) [OF xs, of p] selected_records [OF bk sel b(1)] by simp
  have uniq: "inj_on gb_grant_id (set ?bs)" using b by (simp add: distinct_map)
  have bd: "bound_decision w (rv_decision rv) = Inr (k, did, a)"
    using find_ref_again [OF find] ids(3) fields(5) by (simp add: bound_decision_def)
  have covered: "mapE (\<lambda>gid. bindE (load_grant_artifact ?st gid) (\<lambda>x.
       if root_grant_request_binding_covers (env_digest E) (fst x) ?r then Inr () else fail Forged))
       (sort (map gb_grant_id ?bs)) = Inr (map (\<lambda>_. ()) (sort (map gb_grant_id ?bs)))"
  proof -
    have "bindE (load_grant_artifact ?st gid) (\<lambda>x. if root_grant_request_binding_covers (env_digest E) (fst x) ?r
        then Inr () else fail Forged) = Inr ()" if "gid \<in> set (map gb_grant_id ?bs)" for gid
    proof -
      from that b(2) names have "gid \<in> set (map gu_grant_id (map fst xs))" by auto
      then obtain x where "x \<in> set xs" "gid = gu_grant_id (fst x)" by auto
      with use [of x] show ?thesis by (auto simp: planned_use_def)
    qed
    then show ?thesis unfolding mapE_eq_Inr by (simp add: list_all2_map2 list_all2_same)
  qed
  have rd: "validate_reserved_decision E ?st k did a = Inr ?bs"
    using at dec covered by (simp add: validate_reserved_decision_def)
  have "list_all grant_use_ok (map fst xs)"
  proof -
    have "grant_use_ok (fst x)" if "x \<in> set xs" for x
    proof -
      from use [OF that] obtain c and s :: gstate where "c \<in> set ?bs" "gs_version s = gb_state_version c" "fst x = \<lparr>gu_grant_id = gb_grant_id c,
        gu_grant_sha256 = gb_grant_sha256 c, gu_units = reservation_units ?r, gu_state_version_before = gs_version s,
        gu_state_version_after = gs_version s + 1\<rparr>" unfolding planned_use_def by blast
      with validate_grant_bindings_facts [OF vb, of c] reservation_units_pos [OF req] show ?thesis
        by (simp add: grant_use_ok_def)
    qed
    then show ?thesis by (auto simp: list_all_iff)
  qed
  moreover have "map fst xs \<noteq> []" using names dec(2) b(2) by (metis append_is_Nil_conv list.map_disc_iff set_empty)
  moreover have "set (map gu_grant_id (map fst xs)) = set (map gb_grant_id ?bs)"
    using arg_cong [OF names, of set] b(2) by auto
  moreover have "distinct (map gu_grant_id (map fst xs))" using names b(1) by simp
  moreover have "mapE (validate_use ?st rv ?r ?bs) (map fst xs) = Inr (map (\<lambda>_. ()) xs)"
    unfolding mapE_eq_Inr using planned_use_valid [OF use _ cs d id uniq] by (auto simp: list_all2_map1 list_all2_map2 list_all2_same)
  moreover have "change_at (rv_state_changes rv) (Reservation_ref rid) = Some (move rid None (reserved_rstate rid))"
    using change_at_member [OF d, of "move rid None (reserved_rstate rid)"] cs by (simp add: move_def)
  moreover have "set (map ch_ref (rv_state_changes rv)) = set (Reservation_ref rid # map (\<lambda>u. Grant_ref (gu_grant_id u)) (map fst xs))"
    using arg_cong [OF refs, of set] by (simp add: cs move_def insert_commute)
  ultimately show ?thesis
    using bd rd ids d ready(2) fields id uses rid
    by (simp add: validate_reservation_def Let_def intent_changes_def move_def image_Un)
qed

text \<open>The steps of a reservation that did not exist before\<close>

lemma reserve_fresh:
  assumes "ledger w p0 h" and "reserve E W w ref digest at key = (Inr (rv, b, s), w')"
    and "map_of (ws_reservations w) (rv_reservation_id rv) = None"
  obtains k a rid where "load_reservable_decision E w ref digest key = Inr (k, a, rid)"
    "map_of (ws_reservations w) rid = None" "rv_reservation_id rv = rid"
    "rv_decision rv = \<lparr>b_ref = artifact_ref ''decisions'' k, b_sha256 = digest\<rparr>" "rv_idempotency_key rv = key"
    "plan_reservation E (set_proj (replay p0 h) w) (rv_decision rv) a rid at key = Inr rv"
    "publish_reservation E rv (set_proj (replay p0 h) w) = (Inr (rv, b, s), w')"
proof -
  let ?p = "replay p0 h"
  from assms(2) [unfolded reserve_def] obtain k a rid where
    load: "load_reservable_decision E w ref digest key = Inr (k, a, rid)"
    by (cases "load_reservable_decision E w ref digest key") (auto simp: liftS_def)
  let ?d = "\<lparr>b_ref = artifact_ref ''decisions'' k, b_sha256 = digest\<rparr>"
  from assms(2) load obtain out where rec: "recover E W w = (Inr out, set_proj ?p w)"
    using ledger_recover [OF assms(1), of E W] by (auto simp: reserve_def liftS_def Let_def)
  have run: "(case map_of (ws_reservations w) rid of
       Some x \<Rightarrow> liftS (replay_reservation E W (set_proj ?p w) ?d rid key x) (set_proj ?p w)
     | None \<Rightarrow> bindS (liftS (plan_reservation E (set_proj ?p w) ?d a rid at key) (set_proj ?p w))
         (\<lambda>rv w. publish_reservation E rv w)) = (Inr (rv, b, s), w')"
    using assms(2) load rec by (simp add: reserve_def liftS_def Let_def)
  have new: "map_of (ws_reservations w) rid = None"
  proof (rule ccontr)
    assume "map_of (ws_reservations w) rid \<noteq> None"
    then obtain x where x: "map_of (ws_reservations w) rid = Some x" by auto
    with run have "replay_reservation E W (set_proj ?p w) ?d rid key x = Inr (rv, b, s)" by (auto simp: liftS_def)
    then have "rv = fst x" "validate_reservation E (set_proj ?p w) rid rv = Inr ()"
      by (auto simp: replay_reservation_def result_simps split: option.splits)
    then have "rv_reservation_id rv = rid" by (auto simp: validate_reservation_def Let_def result_simps)
    with x assms(3) show False by simp
  qed
  with run obtain rv' where plan: "plan_reservation E (set_proj ?p w) ?d a rid at key = Inr rv'"
    and pub: "publish_reservation E rv' (set_proj ?p w) = (Inr (rv, b, s), w')"
    by (cases "plan_reservation E (set_proj ?p w) ?d a rid at key") (auto simp: liftS_def)
  have same: "rv' = rv" using pub by (auto simp: publish_reservation_def commit_def Let_def result_simps)
  have "rv_reservation_id rv = rid" "rv_decision rv = ?d" "rv_idempotency_key rv = key"
    using plan by (auto simp: same plan_reservation_def Let_def result_simps)
  with load new plan pub same that show thesis by simp
qed

lemma publish_reservation_frame:
  assumes "publish_reservation E rv w = (res, w')"
  shows "ws_decisions w' = ws_decisions w" "st_grants (ws_store w') = st_grants (ws_store w)"
    "ws_reservations w' = dput (rv_reservation_id rv) (rv, file_digest E (reservation_json rv)) (ws_reservations w)"
proof -
  have w': "w' = snd (publish_reservation E rv w)" using assms by simp
  show "ws_decisions w' = ws_decisions w" "st_grants (ws_store w') = st_grants (ws_store w)"
    "ws_reservations w' = dput (rv_reservation_id rv) (rv, file_digest E (reservation_json rv)) (ws_reservations w)"
    by (simp_all add: w' publish_reservation_def commit_events Let_def)
qed

text \<open>The workspace after a reservation was published accepts it\<close>

lemma published_reservation_accepted:
  assumes "ledger w p0 h" and "reserve E W w ref digest at key = (Inr (rv, b, s), w')"
    and "map_of (ws_reservations w) (rv_reservation_id rv) = None"
    and "is_identifier key" "is_identifier (rv_reservation_id rv)" "binding_ok (rv_decision rv)"
    and "\<And>gid g sha s. load_grant E (at_proj (ws_store w) (replay p0 h)) gid = Inr (g, sha, s) \<Longrightarrow> event_ok s"
  shows "validate_reservation E w' (rv_reservation_id rv) rv = Inr ()"
proof -
  from assms(1-3) obtain k a rid where load: "load_reservable_decision E w ref digest key = Inr (k, a, rid)"
    and new: "map_of (ws_reservations w) rid = None" and rid: "rv_reservation_id rv = rid"
    and d: "rv_decision rv = \<lparr>b_ref = artifact_ref ''decisions'' k, b_sha256 = digest\<rparr>"
    and plan: "plan_reservation E (set_proj (replay p0 h) w) (rv_decision rv) a rid at key = Inr rv"
    and pub: "publish_reservation E rv (set_proj (replay p0 h) w) = (Inr (rv, b, s), w')"
    by (rule reserve_fresh)
  have "validate_reservation E w rid rv = Inr ()"
    using assms(4-6) unfolding rid d
    by (rule planned_reservation_accepted [OF ledgerD(4) [OF assms(1)] load plan [unfolded d] new _ _ _ assms(7)])
  with validate_reservation_cong [of w' w] publish_reservation_frame [OF pub] rid show ?thesis by simp
qed

subsection \<open>Recovered workspaces\<close>

definition at_rest :: "ws \<Rightarrow> bool" where
  "at_rest w \<longleftrightarrow> arises w \<and> proj w = logical w"

text \<open>A complete operation leaves no work for the next recovery\<close>

lemma completed_at_rest:
  assumes "at_rest w" and "completes E W w w'"
  shows "at_rest w'"
proof -
  obtain p0 h where l: "ledger w p0 h" using assms(1) arises_ledger [of w] by (auto simp: at_rest_def)
  with assms(1) have p: "proj w = replay p0 h" by (simp add: at_rest_def ledger_logical)
  have "arises w'" using assms by (auto simp: at_rest_def intro: arises.onward step.completed)
  moreover have "proj w' = logical w'" using l assms(2) p by (rule completing.leaves_no_work)
  ultimately show ?thesis by (simp add: at_rest_def)
qed

lemma recover_at_rest:
  assumes "at_rest w" and "validate_intents E W w True = Inr ()"
  shows "\<exists>out. recover E W w = (Inr out, w)"
proof -
  obtain p0 h where l: "ledger w p0 h" using assms(1) arises_ledger [of w] by (auto simp: at_rest_def)
  with assms(1) have "set_proj (replay p0 h) w = w" by (metis at_rest_def ledger_logical at_own_proj(2))
  with crash_recovery [OF ledgerD(1-3) [OF l]] assms(2) show ?thesis by (auto simp: recover_def load_intents_def)
qed

subsection \<open>A release of an inactive grant is never accepted\<close>

lemma validate_intents_release:
  assumes "validate_intents E W w legacy = Inr ()" and "(k, rr) \<in> set (ws_release_receipts w)"
  shows "validate_release_receipt E W w legacy k rr = Inr ()"
proof -
  from assms(1) obtain xs where xs: "mapE (\<lambda>(k, rr). validate_release_receipt E W w legacy k rr) (entries (ws_release_receipts w)) = Inr xs"
    by (auto simp: validate_intents_def result_simps)
  have "(k, rr) \<in> set (entries (ws_release_receipts w))" using assms(2) by (simp add: entries_def)
  with xs obtain i where "i < length (entries (ws_release_receipts w))" "entries (ws_release_receipts w) ! i = (k, rr)"
    by (auto simp: in_set_conv_nth)
  with list_all2_nthD [OF xs [unfolded mapE_eq_Inr]] show ?thesis by fastforce
qed

lemma released_grants_active:
  assumes "validate_release_receipt E W w legacy k rr = Inr ()" and "rr_effect_status rr \<noteq> Unknown_effect"
    and "c \<in> set (rr_state_changes rr)" and "ch_ref c = Grant_ref gid" and "ch_before c = Some (GS s)"
  shows "gs_status s = Active"
proof -
  let ?cs = "rr_state_changes rr"
  from assms(1,2) obtain rv :: reservation and rid xs where d: "intent_changes ?cs = Inr ()"
    and xs: "mapE (release_settled (ws_store w) ?cs rid) (rv_grant_uses rv) = Inr xs"
    and refs: "ch_ref ` set ?cs = insert (Reservation_ref (rv_reservation_id rv)) (set (use_refs (rv_grant_uses rv)))"
    by (auto simp: validate_release_receipt_def Let_def result_simps split: prod.splits)
  have "Grant_ref gid \<in> ch_ref ` set ?cs" using assms(3,4) by force
  with refs obtain u where u: "u \<in> set (rv_grant_uses rv)" "gu_grant_id u = gid" by (auto simp: use_refs_def)
  from u(1) obtain i where "i < length (rv_grant_uses rv)" "rv_grant_uses rv ! i = u" by (auto simp: in_set_conv_nth)
  with list_all2_nthD [OF xs [unfolded mapE_eq_Inr]] have "\<exists>x. release_settled (ws_store w) ?cs rid u = Inr x" by blast
  moreover have "change_at ?cs (Grant_ref gid) = Some c"
    using change_at_member [of ?cs c] d assms(3,4) by (auto simp: intent_changes_def split: if_splits)
  ultimately show ?thesis using assms(5) u(2)
    by (cases "ch_after c") (auto simp: release_settled_def grant_change_def result_simps split: pstate.splits prod.splits if_splits)
qed

lemma inactive_release_rejected:
  assumes "(k, rr) \<in> set (ws_release_receipts w)" and "rr_effect_status rr \<noteq> Unknown_effect"
    and "c \<in> set (rr_state_changes rr)" and "ch_ref c = Grant_ref gid" and "ch_before c = Some (GS s)"
    and "gs_status s \<noteq> Active"
  shows "\<exists>e. recover E W w = (Inl e, w)"
proof (cases "validate_intents E W w True")
  case (Inr u)
  with validate_intents_release [of E W w True k rr] released_grants_active [of E W w True k rr c gid s] assms show ?thesis
    by auto
qed (simp add: recover_def load_intents_def)

lemma commit_receipts: "ws_release_receipts (snd (commit cs x w)) = ws_release_receipts w"
  by (simp add: commit_def Let_def)

lemma release_publishes:
  assumes "release E W w registered ref digest ne at v key effect_status = (Inr rr, w')"
    and "recover E W w = (Inr out, w1)" and "load_reservation E w1 ref digest = Inr (k, rv, s)"
    and "map_of (ws_release_receipts w1) (rr_receipt_id rr) = None"
  obtains rb where "make_release_receipt E w1 rv s rb ne (rr_effect_status rr) at v key (rr_receipt_id rr) = Inr rr"
    and "(rr_receipt_id rr, rr) \<in> set (ws_release_receipts w')"
proof -
  let ?id = "settlement_id (env_digest E) ''authx-'' digest key"
  let ?rb = "\<lparr>b_ref = artifact_ref ''reservations'' k, b_sha256 = digest\<rparr>"
  from assms(1) obtain status where status: "map_of EFFECT_STATUSES effect_status = Some status"
    by (cases "map_of EFFECT_STATUSES effect_status") (auto simp: release_def Let_def)
  obtain x where "verify_binding (env_files E) ne = Inr x"
    using assms(1) status by (cases "verify_binding (env_files E) ne") (auto simp: release_def Let_def liftS_def)
  note run = assms(1) [unfolded release_def Let_def status this liftS_def bindS_simps option.case assms(2,3) prod.case]
  then obtain y where "bindE (registered_release_required E w1 rv) (\<lambda>is_registered.
        if registered \<noteq> is_registered then fail BadRoute
        else if registered
        then validate_registered_release E W w1 rv ?rb ne status v (map_of (ws_release_receipts w1) ?id = None)
        else Inr ()) = Inr y"
    by (auto simp: bindS_def split: sum.splits)
  note run = run [unfolded this bindS_simps]
  show thesis
  proof (cases "map_of (ws_release_receipts w1) ?id")
    case None
    from run [unfolded None option.case] obtain rr' where make: "make_release_receipt E w1 rv s ?rb ne status at v key ?id = Inr rr'"
      and pub: "publish_release_receipt rr' w1 = (Inr rr, w')"
      by (auto simp: bindS_def split: sum.splits)
    have rr: "rr' = rr" using pub by (auto simp: publish_release_receipt_def commit_def Let_def result_simps)
    have fields: "rr_receipt_id rr = ?id" "rr_effect_status rr = status"
      using make by (auto simp: rr make_release_receipt_def result_simps Let_def split: if_splits)
    have "w' = snd (publish_release_receipt rr w1)" using pub rr by simp
    then have "map_of (ws_release_receipts w') (rr_receipt_id rr) = Some rr"
      by (simp add: publish_release_receipt_def commit_receipts)
    then have "(rr_receipt_id rr, rr) \<in> set (ws_release_receipts w')" by (rule map_of_SomeD)
    with make show thesis by (intro that [of ?rb]) (simp_all add: rr fields)
  next
    case (Some rr')
    from run [unfolded Some option.case] have "replay_release_receipt E W w1 ?id ne status key rr' = Inr rr" by (rule Pair_inject)
    then have "rr = rr'" "validate_release_receipt E W w1 False ?id rr' = Inr ()"
      by (auto simp: replay_release_receipt_def validated_settled_intent_def result_simps)
    then have "rr_receipt_id rr = ?id" by (auto simp: validate_release_receipt_def Let_def result_simps)
    with Some assms(4) show thesis by simp
  qed
qed

lemma inactive_release_stops:
  assumes "release E W w registered ref digest ne at v key effect_status = (Inr rr, w')"
    and "recover E W w = (Inr out, w1)" and "load_reservation E w1 ref digest = Inr (k, rv, s)"
    and "map_of (ws_release_receipts w1) (rr_receipt_id rr) = None" and "rr_effect_status rr \<noteq> Unknown_effect"
    and "u \<in> set (rv_grant_uses rv)" and "load_grant E (ws_store w1) (gu_grant_id u) = Inr (g, sha, gs)"
    and "gs_status gs \<noteq> Active"
  shows "\<exists>e. recover E' W' w' = (Inl e, w')"
proof -
  from assms(1-4) obtain rb where
    make: "make_release_receipt E w1 rv s rb ne (rr_effect_status rr) at v key (rr_receipt_id rr) = Inr rr"
    and mem: "(rr_receipt_id rr, rr) \<in> set (ws_release_receipts w')" by (rule release_publishes)
  from make obtain us xs where us: "us = (if rr_effect_status rr = Unknown_effect then [] else rv_grant_uses rv)"
    and xs: "mapE (settle_change E (ws_store w1) (released_gstate (rr_receipt_id rr))) us = Inr xs"
    and cs: "rr_state_changes rr = map snd xs @
      [settle_reservation (rr_receipt_id rr) (release_status (rr_effect_status rr)) s (rv_reservation_id rv)]"
    by (rule make_release_receipt_facts)
  from us assms(5,6) obtain i where i: "i < length us" "us ! i = u" by (auto simp: in_set_conv_nth)
  with xs have "i < length xs" "settle_change E (ws_store w1) (released_gstate (rr_receipt_id rr)) u = Inr (xs ! i)"
    by (auto simp: mapE_eq_Inr list_all2_conv_all_nth)
  with assms(7) have "snd (xs ! i) \<in> set (rr_state_changes rr)" "ch_ref (snd (xs ! i)) = Grant_ref (gu_grant_id u)"
    "ch_before (snd (xs ! i)) = Some (GS gs)"
    by (auto simp: cs settle_change_def Let_def dest: sym)
  from inactive_release_rejected [OF mem assms(5) this assms(8)] show ?thesis .
qed

subsection \<open>Replays\<close>

lemma settled_at_rest:
  assumes "at_rest w" and "validate_intents E W w True = Inr ()"
  shows "validated_settled_intent E W w r = r"
proof -
  obtain p0 h where l: "ledger w p0 h" using assms(1) arises_ledger [of w] by (auto simp: at_rest_def)
  with assms(1) have p: "replay p0 h = proj w" by (simp add: at_rest_def ledger_logical)
  from crash_recovery [OF ledgerD(1-3) [OF l]] obtain out where
    "recover_projection_intents (intents_of w) (proj w) = (Inr out, proj w)" unfolding p by blast
  from recover_settles [OF this] assms(2) show ?thesis
    by (simp add: validated_settled_intent_def load_intents_def)
qed

lemma load_reservable_cong:
  assumes "ws_decisions w' = ws_decisions w" and "st_grants (ws_store w') = st_grants (ws_store w)"
  shows "load_reservable_decision E w' ref digest key = load_reservable_decision E w ref digest key"
proof -
  obtain p where st: "ws_store w' = at_proj (ws_store w) p" using same_grants [OF assms(2)] by blast
  show ?thesis
    unfolding load_reservable_decision_def load_bound_decision_def assms(1) st validate_decision_at_at ..
qed

lemma validate_intents_reservation:
  assumes "validate_intents E W w legacy = Inr ()" and "map_of (ws_reservations w) k = Some (rv, sha)"
  shows "validate_reservation E w k rv = Inr ()"
proof -
  from assms(1) obtain xs where xs: "mapE (\<lambda>(k, rv, _). validate_reservation E w k rv) (entries (ws_reservations w)) = Inr xs"
    by (auto simp: validate_intents_def result_simps)
  have "(k, rv, sha) \<in> set (entries (ws_reservations w))" using assms(2) by (auto simp: entries_def dest: map_of_SomeD)
  with xs obtain i where "i < length (entries (ws_reservations w))" "entries (ws_reservations w) ! i = (k, rv, sha)"
    by (auto simp: in_set_conv_nth)
  with list_all2_nthD [OF xs [unfolded mapE_eq_Inr]] show ?thesis by fastforce
qed

lemma publish_reservation_state:
  assumes "publish_reservation E rv w = (Inr (x, b, s), w')" and "plan_reservation E w d a (rv_reservation_id rv) at key = Inr rv"
  shows "s = reserved_rstate (rv_reservation_id rv)" "b = \<lparr>b_ref = artifact_ref ''reservations'' (rv_reservation_id rv),
      b_sha256 = file_digest E (reservation_json rv)\<rparr>"
  using assms(1) by (auto simp: publish_reservation_def commit_def Let_def result_simps)

text \<open>A reservation that returns leaves a recovered workspace\<close>

lemma reserve_at_rest:
  assumes "arises w" and "reserve E W w ref digest at key = (Inr (rv, b, s), w')"
    and "map_of (ws_reservations w) (rv_reservation_id rv) = None"
  shows "at_rest w'"
proof -
  obtain p0 h where l: "ledger w p0 h" using arises_ledger [OF assms(1)] by blast
  have "arises w'" using assms(1) step.completed [OF completes.reserved [OF assms(2)]] by (rule arises.onward)
  moreover from l assms(2,3) obtain k a rid where
    "publish_reservation E rv (set_proj (replay p0 h) w) = (Inr (rv, b, s), w')"
    by (rule reserve_fresh)
  from publish_reservation_frame(3) [OF this] have "map_of (ws_reservations w') (rv_reservation_id rv) \<noteq> None"
    by simp
  with assms(3) have "ws_reservations w' \<noteq> ws_reservations w" by auto
  then have "\<not> unposted w w'" by (simp add: unposted_def)
  with reserve_advance [OF l assms(2)] obtain i where
    i: "publishes w w' (replay p0 h) i" "proj w' = post (replay p0 h) i" by (auto simp: advance_def)
  then have "ledger w' p0 (h @ [i])" by (intro publishes_ledger [OF l]) simp_all
  from ledger_logical [OF this] i have "proj w' = logical w'" by (simp add: replay_append)
  ultimately show ?thesis by (simp add: at_rest_def)
qed

text \<open>Reserving again with the same decision and key returns the reservation and changes nothing\<close>

lemma reserve_again:
  assumes "arises w" and "reserve E W w ref digest at key = (Inr (rv, b, s), w')"
    and "map_of (ws_reservations w) (rv_reservation_id rv) = None" and "validate_intents E W w' True = Inr ()"
  shows "reserve E W w' ref digest at' key = (Inr (rv, b, s), w')"
proof -
  obtain p0 h where l: "ledger w p0 h" using arises_ledger [OF assms(1)] by blast
  let ?w = "set_proj (replay p0 h) w"
  from l assms(2,3) obtain k a rid where load: "load_reservable_decision E w ref digest key = Inr (k, a, rid)"
    and new: "map_of (ws_reservations w) rid = None" and rid: "rv_reservation_id rv = rid"
    and d: "rv_decision rv = \<lparr>b_ref = artifact_ref ''decisions'' k, b_sha256 = digest\<rparr>" "rv_idempotency_key rv = key"
    and plan: "plan_reservation E ?w (rv_decision rv) a rid at key = Inr rv"
    and pub: "publish_reservation E rv ?w = (Inr (rv, b, s), w')"
    by (rule reserve_fresh)
  note frame = publish_reservation_frame [OF pub, simplified] and res = publish_reservation_state [OF pub plan [folded rid]]
  have rest: "at_rest w'" by (rule reserve_at_rest [OF assms(1-3)])
  then obtain out where rec: "recover E W w' = (Inr out, w')" using recover_at_rest [OF _ assms(4)] by blast
  have stored: "map_of (ws_reservations w') rid = Some (rv, b_sha256 b)" by (simp add: frame rid res)
  have state: "rstate_of w' rid = Some s"
  proof -
    note posts = plan_reservation_posts [OF ledgerD(4) [OF l] _ new load_reservable_request [OF load] plan, simplified]
    let ?w1 = "?w\<lparr>ws_reservations := dput rid (rv, file_digest E (reservation_json rv)) (ws_reservations w)\<rparr>"
    have "proj ?w1 = replay p0 h" by (simp add: proj_def set_proj_def)
    with commit_ready [of ?w1 "[]" "rv_state_changes rv" "(rv, b, s)"] posts(1,3) pub
    have "proj w' = post (replay p0 h) ([], rv_state_changes rv)"
      by (simp add: publish_reservation_def Let_def rid res) (metis proj_set_proj)
    moreover have "distinct (map ch_ref (rv_state_changes rv))" using posts(1) by (simp add: ready_def)
    moreover have "move rid None s \<in> set (rv_state_changes rv)"
      using plan_reservation_facts [OF plan] by (metis in_set_conv_decomp res(1) rid)
    ultimately show ?thesis
      using post_changed [of "([], rv_state_changes rv)" "move rid None s" "replay p0 h"] by (simp add: rstate_of_def move_def)
  qed
  have "load_reservable_decision E w' ref digest key = Inr (k, a, rid)"
    using load load_reservable_cong [OF frame(1,2)] by simp
  moreover have "replay_reservation E W w' (rv_decision rv) rid key (rv, b_sha256 b) = Inr (rv, b, s)"
    using settled_at_rest [OF rest assms(4)] validate_intents_reservation [OF assms(4) stored] state d
    by (simp add: replay_reservation_def res rid)
  ultimately show ?thesis by (simp add: reserve_def liftS_def rec Let_def stored d)
qed

text \<open>A reservation that existed before is returned as it is, and so it is the next time\<close>

lemma reserve_existing_again:
  assumes "arises w" and "reserve E W w ref digest at key = (Inr (rv, b, s), w')"
    and "map_of (ws_reservations w) (rv_reservation_id rv) \<noteq> None"
  shows "reserve E W w' ref digest at' key = (Inr (rv, b, s), w')" and "validate_intents E W w' True = Inr ()"
    and "at_rest w'"
proof -
  obtain p0 h where l: "ledger w p0 h" using arises_ledger [OF assms(1)] by blast
  let ?w = "set_proj (replay p0 h) w"
  from assms(2) obtain k a rid where load: "load_reservable_decision E w ref digest key = Inr (k, a, rid)"
    by (cases "load_reservable_decision E w ref digest key") (auto simp: reserve_def liftS_def)
  let ?d = "\<lparr>b_ref = artifact_ref ''decisions'' k, b_sha256 = digest\<rparr>"
  from assms(2) load obtain out where rec: "recover E W w = (Inr out, ?w)"
    using ledger_recover [OF l, of E W] by (auto simp: reserve_def liftS_def Let_def)
  have old: "map_of (ws_reservations w) rid \<noteq> None"
  proof
    assume "map_of (ws_reservations w) rid = None"
    with assms(2) load rec obtain rv' where
      "plan_reservation E ?w ?d a rid at key = Inr rv'" "publish_reservation E rv' ?w = (Inr (rv, b, s), w')"
      by (cases "plan_reservation E ?w ?d a rid at key") (auto simp: reserve_def liftS_def Let_def)
    then have "rv_reservation_id rv = rid"
      by (auto simp: publish_reservation_def commit_def plan_reservation_def Let_def result_simps)
    with \<open>map_of (ws_reservations w) rid = None\<close> assms(3) show False by simp
  qed
  then obtain x where x: "map_of (ws_reservations w) rid = Some x" by blast
  with assms(2) load rec have again: "replay_reservation E W ?w ?d rid key x = Inr (rv, b, s)" and w': "w' = ?w"
    by (auto simp: reserve_def liftS_def Let_def)
  from again show valid: "validate_intents E W w' True = Inr ()"
    by (auto simp: replay_reservation_def validated_settled_intent_def load_intents_def result_simps w')
  have "arises w'" using assms(1) step.completed [OF completes.reserved [OF assms(2)]] by (rule arises.onward)
  moreover have "proj w' = logical w'"
    using ledger_logical [OF recovered_ledger(1) [OF l, of "replay p0 h"]] by (simp add: w')
  ultimately show rest: "at_rest w'" by (simp add: at_rest_def)
  from recover_at_rest [OF this valid] obtain out' where "recover E W w' = (Inr out', w')" by blast
  moreover have "load_reservable_decision E w' ref digest key = Inr (k, a, rid)"
    using load load_reservable_cong [of w' w] by (simp add: w')
  ultimately show "reserve E W w' ref digest at' key = (Inr (rv, b, s), w')"
    using again x by (simp add: reserve_def liftS_def Let_def w')
qed

lemma reserve_existing_recovers:
  assumes "arises w" and "reserve E W w ref digest at key = (Inr (rv, b, s), w')"
    and "map_of (ws_reservations w) (rv_reservation_id rv) \<noteq> None"
  shows "\<exists>out. recover E W w' = (Inr out, w')"
  using reserve_existing_again(3,2) [OF assms] by (rule recover_at_rest)

text \<open>Whatever the first reservation met, the second one meets recovery and then the first result\<close>

lemma reserve_repeated:
  assumes "arises w" and run: "reserve E W w ref digest at key = (Inr (rv, b, s), w')"
  shows "reserve E W w' ref digest at' key =
    (case recover E W w' of (Inl e, _) \<Rightarrow> (Inl e, w') | (Inr _, _) \<Rightarrow> (Inr (rv, b, s), w'))"
proof (cases "validate_intents E W w' True")
  case (Inl e)
  then have new: "map_of (ws_reservations w) (rv_reservation_id rv) = None"
    using reserve_existing_again(2) [OF assms] by (cases "map_of (ws_reservations w) (rv_reservation_id rv)") auto
  from arises_ledger [OF assms(1)] obtain p0 h where l: "ledger w p0 h" by blast
  from l run new obtain k a rid where load: "load_reservable_decision E w ref digest key = Inr (k, a, rid)"
    and pub: "publish_reservation E rv (set_proj (replay p0 h) w) = (Inr (rv, b, s), w')"
    by (rule reserve_fresh)
  have "load_reservable_decision E w' ref digest key = Inr (k, a, rid)"
    using load load_reservable_cong [OF publish_reservation_frame(1,2) [OF pub, simplified]] by simp
  moreover from Inl have "recover E W w' = (Inl e, w')" by (simp add: recover_def load_intents_def)
  ultimately show ?thesis by (simp add: reserve_def liftS_def Let_def)
next
  case (Inr u)
  note valid = this [simplified]
  have rest: "at_rest w'" and again: "reserve E W w' ref digest at' key = (Inr (rv, b, s), w')"
    by (cases "map_of (ws_reservations w) (rv_reservation_id rv) = None",
        rule reserve_at_rest [OF assms], assumption, rule reserve_existing_again(3) [OF assms], assumption)
       (cases "map_of (ws_reservations w) (rv_reservation_id rv) = None",
        rule reserve_again [OF assms _ valid], assumption, rule reserve_existing_again(1) [OF assms], assumption)
  from recover_at_rest [OF rest valid] obtain out where "recover E W w' = (Inr out, w')" by blast
  then show ?thesis by (simp add: again)
qed

subsection \<open>A key that is not an identifier\<close>

lemma bad_key_rejected:
  assumes "map_of (ws_reservations w) k = Some (rv, sha)" and "\<not> is_identifier (rv_idempotency_key rv)"
  shows "\<exists>e. recover E W w = (Inl e, w)"
proof (cases "validate_intents E W w True")
  case (Inr u)
  with assms(1) have "validate_reservation E w k rv = Inr ()" by (intro validate_intents_reservation) simp_all
  then have "is_identifier (rv_idempotency_key rv)" by (auto simp: validate_reservation_def Let_def result_simps)
  with assms(2) show ?thesis by simp
qed (simp add: recover_def load_intents_def)

lemma bad_key_stops:
  assumes "arises w" and "reserve E W w ref digest at key = (Inr (rv, b, s), w')"
    and "map_of (ws_reservations w) (rv_reservation_id rv) = None" and "\<not> is_identifier key"
  shows "\<exists>e. recover E' W' w' = (Inl e, w')"
proof -
  obtain p0 h where l: "ledger w p0 h" using arises_ledger [OF assms(1)] by blast
  from l assms(2,3) have "rv_idempotency_key rv = key \<and> publish_reservation E rv (set_proj (replay p0 h) w) = (Inr (rv, b, s), w')"
    by (rule reserve_fresh) blast
  then have pub: "publish_reservation E rv (set_proj (replay p0 h) w) = (Inr (rv, b, s), w')"
    and bad: "\<not> is_identifier (rv_idempotency_key rv)" using assms(4) by simp_all
  have "map_of (ws_reservations w') (rv_reservation_id rv) = Some (rv, file_digest E (reservation_json rv))"
    using publish_reservation_frame(3) [OF pub] by simp
  from bad_key_rejected [OF this bad] show ?thesis .
qed

end
