(* ===== verification/Walkthrough.thy ===== *)
theory Walkthrough
  imports Scenario Acceptance
begin

text \<open>
  One run of the lifecycle on concrete files: a root grant is registered in the empty workspace, a
  decision is published and reserved, and the reservation is consumed; or the grant is suspended
  and the reservation released. The digests are all the same text, which is enough for a run.
\<close>

subsection \<open>The grant and its registration\<close>

definition env1 :: env where
  "env1 = the_env\<lparr>env_sha256 := (\<lambda>_. sha_a)\<rparr>"

definition owner1 :: owner where
  "owner1 = \<lparr>ow_read = (\<lambda>_. fail Missing), ow_validate = (\<lambda>_ _ _ _ _. fail Missing), ow_invoke = (\<lambda>_ _ _ _. fail Missing)\<rparr>"

definition solo :: grant where
  "solo = the_child\<lparr>g_grant_id := ''solo'', g_parent_grant_id := None, g_source_approval := file_b ''approval.json''\<rparr>"

lemma solo_ok: "validate_grant (grant_json solo) = Inr solo"
proof (rule scoped_grant [where m = 2 and n = 10])
  show "binding_field (binding_json (g_source_approval solo)) = Inr (g_source_approval solo)" by code_simp
qed (simp_all add: scoped_def solo_def the_child_def the_root_def, code_simp+)

lemma solo_fields: "g_grant_id solo = ''solo''" "g_parent_grant_id solo = None" "g_materialization solo = Schema2"
  "g_max_uses solo = Some 2" "g_expires_at solo = Some (day 10)" "g_policy_snapshot solo = file_b ''policy.json''"
  "g_source_approval solo = file_b ''approval.json''" "g_created_at solo = day 1"
  by (simp_all add: solo_def the_child_def the_root_def)

definition solo_store :: "(sref \<Rightarrow> pstate option) \<Rightarrow> store" where
  "solo_store p = \<lparr>st_grants = [(''solo'', grant_json solo, sha_a)], st_proj = p\<rparr>"

definition solo_state :: gstate where
  "solo_state = initial_state solo sha_a"

definition p1 :: "sref \<Rightarrow> pstate option" where
  "p1 = [Grant_ref ''solo'' \<mapsto> GS solo_state]"

definition ws1 :: ws where
  "ws1 = empty_ws\<lparr>ws_store := solo_store p1\<rparr>"

lemma digest1 [simp]: "env_digest env1 v = sha_a" "file_digest env1 d = sha_a"
  by (simp_all add: env_digest_def object_sha256_def file_digest_def env1_def)

lemma env1_fields [simp]: "env_files env1 = the_files" "env_skills env1 = env_skills the_env"
  "env_receipts env1 = (\<lambda>_. None)" "env_source_for_grant env1 = (\<lambda>_ _. Inr ())"
  "env_source_for_transition env1 = (\<lambda>_ _ _ _. Inr ())" "env_activation env1 = (\<lambda>_ _. True)"
  by (simp_all add: env1_def the_env_def)

lemma the_bindings:
  "verify_binding the_files (file_b ''approval.json'') = Inr (Some (JObj []))"
  "verify_binding the_files (file_b ''policy.json'') = Inr (Some (JObj []))"
  "verify_binding the_files (file_b ''goal.json'') = Inr (Some (JObj []))"
  "verify_binding the_files (file_b ''result.json'') = Inr (Some (JObj []))"
  by code_simp+

lemma recover_no_intents:
  assumes "validate_intents E W w True = Inr ()" and "intents_of w = []"
  shows "recover E W w = (Inr [], w)"
  using assms by (simp add: recover_def load_intents_def recover_projection_intents_def state_graph_def recover_loop.simps)

lemma empty_intents: "validate_intents E W empty_ws l = Inr ()" "intents_of empty_ws = []"
  by (simp_all add: validate_intents_def empty_ws_def entries_def intents_of_def reservation_intents_def
      use_intents_def release_intents_def reconciliation_intents_def event_intents_def)

lemma solo_registered: "register_grant env1 owner1 empty_ws (grant_json solo) None = (Inr (solo, sha_a, solo_state), ws1)"
proof -
  have checked: "register_checked env1 (ws_store empty_ws) (grant_json solo) None = Inr (solo, None)"
    by (simp add: register_checked_def solo_ok solo_fields the_bindings empty_ws_def state_of_def check_new_grant_def)
  have "recover env1 owner1 empty_ws = (Inr [], empty_ws)" by (rule recover_no_intents [OF empty_intents])
  then show ?thesis
    using checked
    by (simp add: register_grant_def liftS_def solo_ok solo_fields the_bindings register_compiled_grant_def Let_def
        ws1_def solo_store_def p1_def solo_state_def) (simp add: empty_ws_def)
qed

lemma ws1_arises: "arises ws1"
  by (rule arises.onward [OF arises.start]) (rule step.registered [OF disjI1 [OF refl] solo_registered])

subsection \<open>The decision\<close>

lemma solo_load:
  assumes "p (Grant_ref ''solo'') = Some (GS s)" and "gs_grant_sha256 s = sha_a"
  shows "load_grant env1 (solo_store p) ''solo'' = Inr (solo, sha_a, s)"
  using assms by (simp add: load_grant_def solo_store_def state_of_def solo_ok effective_root_grant_state_def solo_fields)

lemma solo_store_fields [simp]: "st_proj (solo_store p) = p" "at_proj (solo_store p) q = solo_store q"
  "grant_ids (solo_store p) = [''solo'']" "solo_store p\<lparr>st_proj := q\<rparr> = solo_store q"
  by (simp_all add: solo_store_def at_proj_def grant_ids_def)

lemma solo_state_fields: "gs_grant_id solo_state = ''solo''" "gs_grant_sha256 solo_state = sha_a"
  "gs_status solo_state = Active" "gs_remaining_uses solo_state = Some 2" "gs_reserved_uses solo_state = 0"
  "gs_consumed_uses solo_state = 0" "gs_version solo_state = 0" "gs_last_event_id solo_state = None"
  by (simp_all add: solo_state_def initial_state_def solo_fields)

lemma solo_list: "list_grants env1 (solo_store p1) (Some (day 5)) = Inr [(solo, sha_a, solo_state)]"
proof -
  have "\<not> instant (day 5) < instant (day 1)" using instant_day [of 1 5] by simp
  moreover have "load_grant env1 (solo_store p1) ''solo'' = Inr (solo, sha_a, solo_state)"
    by (rule solo_load) (simp_all add: p1_def solo_state_fields)
  moreover have "map_of (st_grants (solo_store p1)) ''solo'' = Some (grant_json solo, sha_a)" by (simp add: solo_store_def)
  ultimately show ?thesis by (simp add: list_grants_def list_one_def solo_ok solo_fields)
qed

lemma solo_covers: "covers env1 the_request solo solo_state (day 5) S2 ''ev''"
  unfolding covers_iff
  by (simp add: schema4_eligible_def solo_state_def initial_state_def solo_def the_child_def the_root_def the_request_def
    root_grant_request_binding_covers_def expired_at_def instant_day request_operation_def
    scope_mismatch_def budget_short_def units_short_def reservation_units_def DECISION_CLASSES_def enum_name_def)

definition verdict1 :: verdict where
  "verdict1 = \<lparr>vd_decision = Allowed, vd_reasons = [], vd_selected = [selected_binding (solo, sha_a, solo_state)], vd_lineage = []\<rparr>"

lemma solo_decision: "grant_decision env1 (solo_store p1) the_request the_operation (day 5) ''ev'' = Inr verdict1"
proof -
  have fl: "op_source_rank_floor the_operation = S2" by (simp add: the_operation_def)
  have "lineage_records env1 (solo_store p1) solo = Inr []" by (simp add: lineage_records_def solo_fields)
  then have "candidate env1 (solo_store p1) the_request (day 5) S2 ''ev'' (solo, sha_a, solo_state) =
      Inr [((solo, sha_a, solo_state), [])]"
    using solo_covers by (simp add: candidate_def lineage_covers_def)
  then show ?thesis by (simp add: grant_decision_def solo_list fl verdict1_def)
qed

definition dec1 :: decision_artifact where
  "dec1 = decision_of (env_digest env1) the_request the_context (Some the_manifest_binding) (day 5) verdict1"

lemma the_files1:
  "verify_request_evidence the_files the_request = Inr ()"
  "validate_evaluation_context the_files (eval_context_json the_context) = Inr the_context"
  using the_files_ok by (simp_all add: the_env_def)

lemma the_operation1:
  "load_operation (env_skills the_env) (rq_skill_id the_request) (rq_skill_version the_request)
      (rq_operation_id the_request) (rq_operation_version the_request) = Inr (Some the_operation, Some the_manifest_binding)"
  using the_load_operation by (simp add: the_request_def)

lemma solo_evaluation:
  "evaluate env1 (solo_store p1) (request_json the_request) (eval_context_json the_context) (JStr (isoformat (day 5))) = Inr dec1"
proof -
  have "manifest_reasons the_request the_operation = []" by code_simp
  moreover have "context_decision the_request the_context = None"
    using the_context_permits by (simp add: context_decision_None)
  moreover have "op_authorization_mechanism the_operation = Mech_grant" by (simp add: the_operation_def)
  moreover have "sc_evidence_id (ec_session_ceiling the_context) = ''ev''" by (simp add: the_context_def)
  ultimately have "verdict_of env1 (solo_store p1) the_request the_context (day 5) (Some the_operation) = Inr verdict1"
    by (simp add: verdict_of_def solo_decision)
  then show ?thesis
    by (simp add: evaluate_def the_request_ok the_files1 day_time the_operation1 dec1_def)
qed

definition id1 :: "string \<Rightarrow> string" where
  "id1 prefix = prefix @ replicate 24 (CHR ''a'')"

lemma take_sha [simp]: "take 24 sha_a = replicate 24 (CHR ''a'')"
  by (simp add: sha_a_def)

definition ws2 :: ws where
  "ws2 = ws1\<lparr>ws_decisions := [(id1 ''authd-'', id1 ''authd-'', dec1, sha_a)]\<rparr>"

definition decision_b :: binding where
  "decision_b = \<lparr>b_ref = artifact_ref ''decisions'' (id1 ''authd-''), b_sha256 = sha_a\<rparr>"

lemma ws1_fields: "ws_store ws1 = solo_store p1" "ws_decisions ws1 = []" "ws_reservations ws1 = []" "ws_verifications ws1 = []"
  by (simp_all add: ws1_def empty_ws_def)

lemma solo_decided:
  "evaluate_and_publish env1 ws1 (request_json the_request) (eval_context_json the_context) (JStr (isoformat (day 5))) =
     (Inr (dec1, decision_b), ws2)"
proof -
  have id: "decision_id (env_digest env1) dec1 = id1 ''authd-''" by (simp add: decision_id_def id1_def)
  show ?thesis
    by (simp add: evaluate_and_publish_def liftS_def ws1_fields solo_evaluation id publish_immutable_def decision_b_def ws2_def Let_def)
qed

lemma ws2_arises: "arises ws2"
  by (rule arises.onward [OF ws1_arises]) (rule step.completed [OF completes.decided [OF solo_decided]])

subsection \<open>The reservation\<close>

lemma ids1: "is_identifier (id1 ''authd-'')" "is_identifier (id1 ''authz-'')" "is_identifier (id1 ''authu-'')"
  "is_identifier (id1 ''authv-'')" "is_identifier (id1 ''authx-'')" "is_identifier ''solo''" "is_identifier ''event''" "is_identifier ''key''" "is_sha sha_a"
  by code_simp+

definition reservation_b :: binding where
  "reservation_b = \<lparr>b_ref = artifact_ref ''reservations'' (id1 ''authz-''), b_sha256 = sha_a\<rparr>"

lemma bindings1: "binding_ok decision_b" "binding_ok the_manifest_binding" "binding_ok (file_b ''policy.json'')"
  "binding_ok (file_b ''result.json'')" "binding_ok (file_b ''approval.json'')" "binding_ok reservation_b"
  by code_simp+

lemma solo_artifact: "load_grant_artifact (solo_store p) ''solo'' = Inr (solo, sha_a)"
  by (simp add: load_grant_artifact_def solo_store_def ids1 solo_ok solo_fields)

definition binding1 :: grant_binding where
  "binding1 = selected_binding (solo, sha_a, solo_state)"

lemma binding1_fields: "gb_grant_id binding1 = ''solo''" "gb_grant_sha256 binding1 = sha_a" "gb_state_version binding1 = 0"
  "gb_policy_snapshot binding1 = file_b ''policy.json''"
  by (simp_all add: binding1_def selected_binding_def solo_fields solo_state_fields)

lemma dec1_fields: "da_request dec1 = the_request" "da_evaluation_context dec1 = the_context" "da_decision dec1 = Allowed"
  "da_reason_codes dec1 = []" "da_approval_projection dec1 = None" "da_selected_grants dec1 = [binding1]"
  "da_lineage_grants dec1 = []" "da_operation_manifest dec1 = Some the_manifest_binding" "da_fingerprint dec1 = sha_a"
  "da_request_sha256 dec1 = sha_a" "da_evaluation_context_sha256 dec1 = sha_a"
  by (simp_all add: dec1_def decision_of_def verdict1_def binding1_def effective_authority_fingerprint_def)

lemma covers1: "root_grant_request_binding_covers (env_digest env1) solo the_request"
  by (simp add: root_grant_request_binding_covers_def solo_fields)

lemma dec1_valid: "validate_decision_at env1 (solo_store p) (id1 ''authd-'') (id1 ''authd-'') dec1 = Inr ()"
proof -
  have ctx: "normalize_evaluation_context (eval_context_json the_context) = Inr the_context"
    using the_files1(2) by (auto simp: validate_evaluation_context_def result_simps)
  have m: "binding_matches binding1 (solo, sha_a)" by (simp add: binding_matches_def binding1_fields solo_fields)
  have "validate_grant_bindings env1 (solo_store p) [] [binding1] = Inr ()"
    using m by (simp add: binding1_fields ids1 verify_file_binding_def bindings1 the_bindings solo_artifact)
  moreover have "validate_decision_grant_closure env1 (solo_store p) dec1 the_request = Inr ()"
    using m covers1 by (simp add: validate_decision_grant_closure_def dec1_fields selected_artifact_def binding1_fields
      solo_artifact effective_authority_fingerprint_def solo_fields)
  moreover have "decision_id (env_digest env1) dec1 = id1 ''authd-''" by (simp add: decision_id_def id1_def)
  ultimately show ?thesis
    by (simp add: validate_decision_at_def validate_decision_artifact_def Let_def ids1 dec1_fields the_request_ok the_files1 ctx
      bindings1 sort_uniq_def)
qed

lemma strip_decision: "strip (artifact_ref ''decisions'' k) = artifact_ref ''decisions'' k"
  by (rule strip_artifact_ref)

lemma dec1_load:
  assumes "ws_decisions w = ws_decisions ws2"
  shows "load_bound_decision env1 w (b_ref decision_b) sha_a = Inr (id1 ''authd-'', id1 ''authd-'', dec1)"
  using assms by (simp add: load_bound_decision_def find_ref_def ws2_def decision_b_def strip_decision dec1_fields)

lemma ws2_fields: "ws_store ws2 = solo_store p1" "ws_reservations ws2 = []" "ws_verifications ws2 = []"
  by (simp_all add: ws2_def ws1_fields)

definition rv1 :: reservation where
  "rv1 = \<lparr>rv_reservation_id = id1 ''authz-'', rv_request_id = rq_request_id the_request,
     rv_request_sha256 = sha_a, rv_decision = decision_b, rv_fingerprint = sha_a,
     rv_grant_uses = [\<lparr>gu_grant_id = ''solo'', gu_grant_sha256 = sha_a, gu_units = 1,
        gu_state_version_before = 0, gu_state_version_after = 1\<rparr>],
     rv_state_changes = [\<lparr>ch_ref = Grant_ref ''solo'', ch_before = Some (GS solo_state),
        ch_after = GS (reserved_gstate (id1 ''authz-'') 1 solo_state)\<rparr>,
        \<lparr>ch_ref = Reservation_ref (id1 ''authz-''), ch_before = None, ch_after = RS (reserved_rstate (id1 ''authz-''))\<rparr>],
     rv_reserved_at = day 5, rv_idempotency_key = ''key''\<rparr>"

lemma units1: "reservation_units the_request = 1"
  by code_simp

lemma solo_selected:
  assumes "p (Grant_ref ''solo'') = Some (GS s)" and "gs_grant_sha256 s = sha_a" and "gs_status s = Active"
    and "case vs of None \<Rightarrow> gs_version s = 0 | Some f \<Rightarrow> f ''solo'' = Some n \<and> n \<le> gs_version s" and "1 \<le> k" "k < 10"
  shows "validate_selected_grants env1 (solo_store p) vs the_request (day k) [binding1] = Inr [(solo, sha_a, s)]"
proof -
  have "\<not> expired_at solo (day k)" using assms(5,6) by (simp add: expired_at_def solo_fields instant_day)
  with assms show ?thesis
    by (auto simp: validate_selected_grants_def validate_selected_grant_def binding1_fields solo_load covers1 solo_fields
      the_bindings split: option.splits)
qed

definition p3 :: "sref \<Rightarrow> pstate option" where
  "p3 = p1(Grant_ref ''solo'' \<mapsto> GS (reserved_gstate (id1 ''authz-'') 1 solo_state),
     Reservation_ref (id1 ''authz-'') \<mapsto> RS (reserved_rstate (id1 ''authz-'')))"

definition ws3 :: ws where
  "ws3 = ws2\<lparr>ws_reservations := [(id1 ''authz-'', rv1, sha_a)], ws_store := solo_store p3\<rparr>"

lemma solo_plan: "plan_reservation env1 ws2 decision_b dec1 (id1 ''authz-'') (JStr (isoformat (day 5))) key =
    Inr (rv1\<lparr>rv_idempotency_key := key\<rparr>)"
proof -
  have "subject_preflight env1 the_request = Inr ()" by (simp add: subject_preflight_def) code_simp
  moreover have "verify_manifest env1 dec1 = Inr ()" by (simp add: verify_manifest_def dec1_fields the_operation1)
  moreover have "decision_grant_bindings dec1 = Inr [binding1]"
    by (simp add: decision_grant_bindings_def dec1_fields)
  moreover have "validate_selected_grants env1 (solo_store p1) None the_request (day 5) [binding1] = Inr [(solo, sha_a, solo_state)]"
    by (rule solo_selected) (simp_all add: p1_def solo_state_fields)
  moreover have "reserve_one (id1 ''authz-'') 1 (solo, sha_a, solo_state) = Inr (hd (rv_grant_uses rv1), hd (rv_state_changes rv1))"
    by (simp add: reserve_one_def solo_state_fields solo_fields rv1_def)
  ultimately show ?thesis
    using solo_evaluation
    by (simp add: plan_reservation_def Let_def dec1_fields ws2_fields day_time units1) (simp add: rv1_def)
qed

lemma no_intents2: "intents_of ws2 = []" "validate_intents env1 owner1 ws2 True = Inr ()"
proof -
  show "intents_of ws2 = []"
    by (simp add: ws2_def ws1_def empty_ws_def entries_def intents_of_def reservation_intents_def
      use_intents_def release_intents_def reconciliation_intents_def event_intents_def)
  show "validate_intents env1 owner1 ws2 True = Inr ()"
    by (simp add: validate_intents_def ws2_def ws1_def empty_ws_def entries_def)
qed

lemma solo_load_decision:
  "load_reservable_decision env1 ws2 (b_ref decision_b) sha_a key = Inr (id1 ''authd-'', dec1, id1 ''authz-'')"
  by (simp add: load_reservable_decision_def dec1_load ws2_fields dec1_valid dec1_fields reservation_id_def id1_def [symmetric])

lemma decision_b_eq: "\<lparr>b_ref = artifact_ref ''decisions'' (id1 ''authd-''), b_sha256 = sha_a\<rparr> = decision_b"
  by (simp add: decision_b_def)

lemma solo_reserved:
  "reserve env1 owner1 ws2 (b_ref decision_b) sha_a (JStr (isoformat (day 5))) ''key'' =
     (Inr (rv1, reservation_b, reserved_rstate (id1 ''authz-'')), ws3)"
proof -
  have "rv1\<lparr>rv_idempotency_key := ''key''\<rparr> = rv1" by (simp add: rv1_def)
  moreover have "publish_reservation env1 rv1 ws2 = (Inr (rv1, reservation_b, reserved_rstate (id1 ''authz-'')), ws3)"
    by (simp add: publish_reservation_def commit_def rv1_def reservation_b_def Let_def apply_projection_changes_def
       proj_def set_proj_def ws2_fields p1_def ws3_def p3_def)
  ultimately show ?thesis
    by (simp add: reserve_def liftS_def recover_no_intents [OF no_intents2(2,1)] ws2_fields solo_plan Let_def
      solo_load_decision decision_b_eq)
qed

text \<open>Any text is taken as the key\<close>

lemma solo_reserved_any:
  "\<exists>b s w'. reserve env1 owner1 ws2 (b_ref decision_b) sha_a (JStr (isoformat (day 5))) key =
     (Inr (rv1\<lparr>rv_idempotency_key := key\<rparr>, b, s), w')"
proof -
  have "\<exists>b s w'. publish_reservation env1 (rv1\<lparr>rv_idempotency_key := key\<rparr>) ws2 =
      (Inr (rv1\<lparr>rv_idempotency_key := key\<rparr>, b, s), w')"
    by (simp add: publish_reservation_def commit_def rv1_def Let_def apply_projection_changes_def proj_def ws2_fields p1_def)
  then show ?thesis
    by (simp add: reserve_def liftS_def recover_no_intents [OF no_intents2(2,1)] ws2_fields solo_plan Let_def
      solo_load_decision decision_b_eq)
qed

lemma ws3_arises: "arises ws3"
  by (rule arises.onward [OF ws2_arises]) (rule step.completed [OF completes.reserved [OF solo_reserved]])

text \<open>Nothing is left to recover, and the reservation that was published is accepted\<close>

lemma ws1_rest: "at_rest ws1"
proof -
  have "intents_of ws1 = []"
    by (simp add: ws1_def empty_ws_def entries_def intents_of_def reservation_intents_def
      use_intents_def release_intents_def reconciliation_intents_def event_intents_def)
  then show ?thesis
    by (simp add: at_rest_def ws1_arises logical_def recover_projection_intents_def state_graph_def recover_loop.simps)
qed

lemma ws2_rest: "at_rest ws2"
  by (rule completed_at_rest [OF ws1_rest completes.decided [OF solo_decided]])

lemma ws3_rest: "at_rest ws3"
  by (rule completed_at_rest [OF ws2_rest completes.reserved [OF solo_reserved]])

lemma rv1_accepted:
  assumes "ws_decisions w = ws_decisions ws3" and "ws_store w = solo_store p"
  shows "validate_reservation env1 w (id1 ''authz-'') rv1 = Inr ()"
proof -
  obtain p0 h where l: "ledger ws2 p0 h" using arises_ledger [OF ws2_arises] by blast
  have p: "replay p0 h = p1"
    using ws2_rest ledger_logical [OF l] by (simp add: at_rest_def proj_def ws2_fields)
  have id: "rv_reservation_id rv1 = id1 ''authz-''" "rv_decision rv1 = decision_b" by (simp_all add: rv1_def)
  have "event_ok s" if "load_grant env1 (solo_store p1) gid = Inr (g, sha, s)" for gid g sha s
  proof -
    have "gid = ''solo''" using that by (auto simp: load_grant_def solo_store_def result_simps split: if_splits)
    with that solo_load [of p1 solo_state] show ?thesis
      by (simp add: p1_def solo_state_fields event_ok_def)
  qed
  then have "validate_reservation env1 ws3 (id1 ''authz-'') rv1 = Inr ()"
    using published_reservation_accepted(1) [OF l solo_reserved] by (simp add: id ws2_fields ids1 bindings1 p)
  with validate_reservation_cong [of w ws3] assms show ?thesis by (simp add: ws3_def solo_store_def)
qed

lemma ws3_fields: "ws_store ws3 = solo_store p3" "ws_reservations ws3 = [(id1 ''authz-'', rv1, sha_a)]"
  "ws_verifications ws3 = []" "ws_release_receipts ws3 = []" "ws_use_receipts ws3 = []" "ws_events ws3 = []"
  "ws_reconciliation_receipts ws3 = []" "ws_execution_results ws3 = []" "ws_decisions ws3 = ws_decisions ws2"
  by (simp_all add: ws3_def ws2_def ws1_def empty_ws_def)

lemma rv1_load:
  assumes "ws_decisions w = ws_decisions ws2" and "ws_store w = solo_store p" and "ws_reservations w = ws_reservations ws3"
    and "p (Reservation_ref (id1 ''authz-'')) = Some (RS s)"
  shows "load_reservation env1 w (b_ref reservation_b) sha_a = Inr (id1 ''authz-'', rv1, s)"
proof -
  have "rv_reservation_id rv1 = id1 ''authz-''" by (simp add: rv1_def)
  with assms rv1_accepted [of w p] show ?thesis
    by (simp add: load_reservation_def find_ref_def ws3_fields reservation_b_def strip_artifact_ref rstate_of_def proj_def)
qed

lemma ws3_recover: "\<exists>out. recover env1 owner1 ws3 = (Inr out, ws3)"
  by (rule recover_at_rest [OF ws3_rest])
    (simp add: validate_intents_def ws3_fields entries_def rv1_accepted)

subsection \<open>Suspended, then released\<close>

definition s3 :: gstate where
  "s3 = reserved_gstate (id1 ''authz-'') 1 solo_state"

definition s4 :: gstate where
  "s4 = transition_gstate ''event'' Suspended s3"

lemma s3_fields: "gs_grant_id s3 = ''solo''" "gs_grant_sha256 s3 = sha_a" "gs_status s3 = Active" "gs_version s3 = 1"
  "gs_remaining_uses s3 = Some 2" "gs_reserved_uses s3 = 1" "gs_consumed_uses s3 = 0" "gs_last_event_id s3 = Some (id1 ''authz-'')"
  by (simp_all add: s3_def reserved_gstate_def solo_state_fields)

lemma s4_fields: "gs_grant_id s4 = ''solo''" "gs_grant_sha256 s4 = sha_a" "gs_status s4 = Suspended" "gs_version s4 = 2"
  "gs_remaining_uses s4 = Some 2" "gs_reserved_uses s4 = 1" "gs_consumed_uses s4 = 0" "gs_last_event_id s4 = Some ''event''"
  by (simp_all add: s4_def transition_gstate_def s3_fields)

lemma p3_at: "p3 (Grant_ref ''solo'') = Some (GS s3)"
  "p3 (Reservation_ref (id1 ''authz-'')) = Some (RS (reserved_rstate (id1 ''authz-'')))"
  by (simp_all add: p3_def s3_def)

definition te1 :: transition_event where
  "te1 = \<lparr>te_event_id = ''event'', te_root_grant_id = ''solo'', te_transition = To_suspended,
     te_source_approval = file_b ''approval.json'', te_transitioned_at = isoformat (day 6),
     te_affected_before = [(''solo'', Active, 1)], te_affected_grant_ids = [''solo''],
     te_state_changes = [\<lparr>ch_ref = Grant_ref ''solo'', ch_before = Some (GS s3), ch_after = GS s4\<rparr>]\<rparr>"

definition p4 :: "sref \<Rightarrow> pstate option" where
  "p4 = p3(Grant_ref ''solo'' \<mapsto> GS s4)"

definition ws4 :: ws where
  "ws4 = ws3\<lparr>ws_events := [(''event'', te1)], ws_store := solo_store p4\<rparr>"

lemma solo_suspended:
  "transition_grants env1 owner1 ws3 ''solo'' ''suspended'' ''event'' 1 (file_b ''approval.json'') (isoformat (day 6)) =
     (Inr te1, ws4)"
proof -
  obtain out where rec: "recover env1 owner1 ws3 = (Inr out, ws3)" using ws3_recover by blast
  have load: "load_grant env1 (solo_store p3) ''solo'' = Inr (solo, sha_a, s3)"
    by (rule solo_load) (simp_all add: p3_at s3_fields)
  have make: "make_transition env1 ws3 s3 ''solo'' To_suspended ''event'' 1 (file_b ''approval.json'') (isoformat (day 6)) = Inr te1"
    by (simp add: make_transition_def transition_change_def s3_fields ws3_fields load te1_def s4_def
      transition_source_ok_def terminal_transition_def transition_status_def)
  have pub: "publish_transition te1 ws3 = (Inr te1, ws4)"
  proof -
    have "s3 \<noteq> s4" using s3_fields s4_fields by (metis numeral_eq_one_iff num.distinct(1))
    then show ?thesis
    by (simp add: publish_transition_def commit_def te1_def Let_def apply_projection_changes_def
       proj_def set_proj_def ws3_fields p3_at ws4_def p4_def)
  qed
  show ?thesis
    by (simp add: transition_grants_def TRANSITIONS_def liftS_def the_bindings rec load ws3_fields day_time make pub)
qed

lemma ws4_rest: "at_rest ws4"
  by (rule completed_at_rest [OF ws3_rest completes.transitioned [OF _ solo_suspended]])
    (simp add: event_published_def ws4_def te1_def)

lemma ws4_fields: "ws_store ws4 = solo_store p4" "ws_reservations ws4 = ws_reservations ws3"
  "ws_verifications ws4 = []" "ws_release_receipts ws4 = []" "ws_use_receipts ws4 = []" "ws_events ws4 = [(''event'', te1)]"
  "ws_reconciliation_receipts ws4 = []" "ws_execution_results ws4 = []" "ws_decisions ws4 = ws_decisions ws2"
  by (simp_all add: ws4_def ws3_fields)

lemma solo_states_ok: "grant_state_ok solo sha_a s3" "grant_state_ok solo sha_a s4"
  by (simp_all add: grant_state_ok_iff state_ok_def accounting_ok_def event_ok_def s3_fields s4_fields solo_fields ids1)

lemma te1_accepted:
  assumes "ws_store w = solo_store p"
  shows "validate_transition env1 w ''event'' te1 = Inr ()"
proof -
  have all: "all_grants (solo_store p) = Inr [(''solo'', solo)]"
    by (simp add: all_grants_def) (simp add: solo_store_def solo_ok solo_fields)
  have "grant_change (solo_store p) (te_state_changes te1) ''solo'' = Inr (s3, s4)"
    by (simp add: grant_change_def solo_artifact te1_def change_at_def solo_states_ok)
  then have "transition_settled (solo_store p) te1 0 (''solo'', ''solo'', Active, 1) = Inr ()"
    by (simp add: transition_settled_def Let_def) (simp add: te1_def s3_fields s4_def transition_status_def transition_source_ok_def)
  then show ?thesis
    using all
    by (simp add: validate_transition_def assms Let_def) (simp add: te1_def ids1 bindings1 the_bindings day_time
      terminal_transition_def intent_changes_def)
qed

lemma ws4_recover: "\<exists>out. recover env1 owner1 ws4 = (Inr out, ws4)"
  by (rule recover_at_rest [OF ws4_rest])
    (simp add: validate_intents_def ws4_fields ws3_fields entries_def rv1_accepted te1_accepted)

definition rr1 :: release_receipt where
  "rr1 = \<lparr>rr_receipt_id = id1 ''authx-'', rr_reservation = reservation_b, rr_no_effect_evidence = file_b ''result.json'',
     rr_effect_status = Verified_no_effect, rr_release_applied = True, rr_released_at = day 7,
     rr_idempotency_key = ''key'',
     rr_state_changes = [\<lparr>ch_ref = Grant_ref ''solo'', ch_before = Some (GS s4),
          ch_after = GS (released_gstate (id1 ''authx-'') 1 s4)\<rparr>,
        settle_reservation (id1 ''authx-'') Rs_released (reserved_rstate (id1 ''authz-'')) (id1 ''authz-'')]\<rparr>"

lemma p4_at: "p4 (Grant_ref ''solo'') = Some (GS s4)"
  "p4 (Reservation_ref (id1 ''authz-'')) = Some (RS (reserved_rstate (id1 ''authz-'')))"
  by (simp_all add: p4_def p3_at)

lemma solo_released:
  "\<exists>ws5. release env1 owner1 ws4 False (b_ref reservation_b) sha_a (file_b ''result.json'') (JStr (isoformat (day 7)))
     0 ''key'' ''verified_no_effect'' = (Inr rr1, ws5)"
proof -
  obtain out where rec: "recover env1 owner1 ws4 = (Inr out, ws4)" using ws4_recover by blast
  have load: "load_grant env1 (solo_store p4) ''solo'' = Inr (solo, sha_a, s4)"
    by (rule solo_load) (simp_all add: p4_at s4_fields)
  have rload: "load_reservation env1 ws4 (b_ref reservation_b) sha_a = Inr (id1 ''authz-'', rv1, reserved_rstate (id1 ''authz-''))"
    by (rule rv1_load [where p = p4]) (simp_all add: ws4_fields p4_at)
  have reg: "registered_release_required env1 ws4 rv1 = Inr False"
    using dec1_load [of ws4] by (simp add: registered_release_required_def rv1_def decision_b_def ws4_fields dec1_fields
      owner_operation_def Let_def the_request_def OWNER_VALIDATORS_def)
  have id: "settlement_id (env_digest env1) ''authx-'' sha_a ''key'' = id1 ''authx-''" by (simp add: settlement_id_def id1_def)
  have make: "make_release_receipt env1 ws4 rv1 (reserved_rstate (id1 ''authz-'')) reservation_b (file_b ''result.json'')
      Verified_no_effect (JStr (isoformat (day 7))) 0 ''key'' (id1 ''authx-'') = Inr rr1"
    by (simp add: make_release_receipt_def Let_def ws4_fields day_time settle_change_def load rr1_def rv1_def release_status_def)
       (simp add: reserved_rstate_def)
  have "fst (publish_release_receipt rr1 ws4) = Inr rr1"
    by (simp add: publish_release_receipt_def commit_def rr1_def Let_def apply_projection_changes_def
       proj_def set_proj_def ws4_fields p4_at settle_reservation_def)
  then show ?thesis
    by (simp add: release_def EFFECT_STATUSES_def id liftS_def the_bindings rec rload reg ws4_fields make
      reservation_b_def [symmetric] prod_eq_iff)
qed

subsection \<open>Verified, then consumed\<close>

abbreviation reserved1 :: rstate where
  "reserved1 \<equiv> reserved_rstate (id1 ''authz-'')"

lemma reserved1_fields: "rs_status reserved1 = Rs_reserved" "rs_version reserved1 = 0" "rs_reservation_id reserved1 = id1 ''authz-''"
  by (simp_all add: reserved_rstate_def)

lemma rv1_fields: "rv_reservation_id rv1 = id1 ''authz-''" "rv_decision rv1 = decision_b" "rv_fingerprint rv1 = sha_a"
  "rv_request_id rv1 = ''rq''" "rv_grant_uses rv1 = [\<lparr>gu_grant_id = ''solo'', gu_grant_sha256 = sha_a, gu_units = 1,
        gu_state_version_before = 0, gu_state_version_after = 1\<rparr>]"
  by (simp_all add: rv1_def the_request_def)

lemma decision_b_sha: "b_sha256 decision_b = sha_a"
  by (simp add: decision_b_def)

lemma unregistered1:
  assumes "ws_decisions w = ws_decisions ws2"
  shows "registered_release_required env1 w rv1 = Inr False"
  using dec1_load [OF assms] by (simp add: registered_release_required_def rv1_fields decision_b_sha dec1_fields
    owner_operation_def Let_def the_request_def OWNER_VALIDATORS_def)

lemma rv1_verified:
  assumes "ws_decisions w = ws_decisions ws2" and "ws_store w = solo_store p3" and "ws_reservations w = ws_reservations ws3"
    and "1 \<le> k" "k < 10"
  shows "verify_reservation env1 w rv1 reserved1 (JStr (isoformat (day k))) 0 vs = Inr (dec1, [grant_view_of (solo, sha_a, s3)])"
proof -
  have "validate_stored_reservation env1 w rv1 = Inr ()"
    using rv1_accepted [of w p3] assms by (simp add: validate_stored_reservation_def rv1_fields ws3_fields)
  moreover have "subject_preflight env1 the_request = Inr ()" by (simp add: subject_preflight_def) code_simp
  moreover have "verify_manifest env1 dec1 = Inr ()" by (simp add: verify_manifest_def dec1_fields the_operation1)
  moreover have "decision_grant_bindings dec1 = Inr [binding1]" by (simp add: decision_grant_bindings_def dec1_fields)
  moreover have "verify_bound_decision_evidence env1 dec1 = Inr ()"
    by (simp add: verify_bound_decision_evidence_def dec1_fields the_files1)
  moreover have "validate_selected_grants env1 (solo_store p3) (Some [''solo'' \<mapsto> 1]) the_request (day k) [binding1] = Inr [(solo, sha_a, s3)]"
    using assms(4,5) by (intro solo_selected [where n = 1]) (simp_all add: p3_at s3_fields)
  moreover have "units_held (rv_grant_uses rv1) (solo, sha_a, s3) = Inr ()"
    by (simp add: units_held_def rv1_fields solo_fields s3_fields)
  ultimately show ?thesis
    using assms dec1_load [OF assms(1)]
    by (simp add: verify_reservation_def reserved1_fields rv1_fields decision_b_sha dec1_fields day_time Let_def)
qed

definition vf1 :: verification where
  "vf1 = \<lparr>vf_stage = ''pre_commit'', vf_reservation = reservation_b,
     vf_state_ref = state_ref (Reservation_ref (id1 ''authz-'')), vf_state_sha256 = sha_a, vf_state_version = 0,
     vf_state_status = Rs_reserved, vf_grant_states = [grant_view_of (solo, sha_a, s3)], vf_request_id = ''rq'',
     vf_fingerprint = sha_a, vf_verified_at = day 6\<rparr>"

definition verification_b :: binding where
  "verification_b = \<lparr>b_ref = artifact_ref ''verifications'' (id1 ''authv-''), b_sha256 = sha_a\<rparr>"

definition ws5 :: ws where
  "ws5 = ws3\<lparr>ws_verifications := [(id1 ''authv-'', id1 ''authv-'', vf1, sha_a)]\<rparr>"

lemma solo_verified:
  "verify_and_publish env1 owner1 ws3 ''pre_commit'' (b_ref reservation_b) sha_a (JStr (isoformat (day 6))) 0 =
     (Inr (vf1, verification_b), ws5)"
proof -
  obtain out where rec: "recover env1 owner1 ws3 = (Inr out, ws3)" using ws3_recover by blast
  have load: "load_reservation env1 ws3 (b_ref reservation_b) sha_a = Inr (id1 ''authz-'', rv1, reserved1)"
    by (rule rv1_load [where p = p3]) (simp_all add: ws3_fields p3_at)
  have id: "verification_id (env_digest env1) v = id1 ''authv-''" for v by (simp add: verification_id_def id1_def)
  have "\<lparr>b_ref = b_ref reservation_b, b_sha256 = sha_a\<rparr> = reservation_b" by (simp add: reservation_b_def)
  then show ?thesis
    using rv1_verified [of ws3 6 True]
    by (simp add: verify_and_publish_def verify_reservation_with_recovery_def rec liftS_def load ws3_fields day_time Let_def
      id publish_immutable_def vf1_def verification_b_def ws5_def rv1_fields dec1_fields reserved1_fields)
       (simp add: the_request_def)
qed

lemma ws5_rest: "at_rest ws5"
  by (rule completed_at_rest [OF ws3_rest completes.verified [OF solo_verified]])

lemma ws5_fields: "ws_store ws5 = solo_store p3" "ws_reservations ws5 = ws_reservations ws3"
  "ws_verifications ws5 = [(id1 ''authv-'', id1 ''authv-'', vf1, sha_a)]" "ws_release_receipts ws5 = []"
  "ws_use_receipts ws5 = []" "ws_events ws5 = []" "ws_reconciliation_receipts ws5 = []" "ws_execution_results ws5 = []"
  "ws_decisions ws5 = ws_decisions ws2"
  by (simp_all add: ws5_def ws3_fields)

lemma ws5_recover: "\<exists>out. recover env1 owner1 ws5 = (Inr out, ws5)"
  by (rule recover_at_rest [OF ws5_rest])
    (simp add: validate_intents_def ws5_fields ws3_fields entries_def rv1_accepted)

definition er1 :: execution_result where
  "er1 = \<lparr>er_reservation = reservation_b, er_pre_commit_verification = verification_b,
     er_owner_result = file_b ''result.json'', er_owner_validation = None, er_subject_before = rq_subject the_request,
     er_subject_after = \<lparr>b_ref = sub_ref (rq_subject the_request), b_sha256 = sha_a\<rparr>, er_expected_subject_after = sha_a,
     er_completed_at = day 7\<rparr>"

definition result_b :: binding where
  "result_b = \<lparr>b_ref = artifact_ref ''execution_results'' (id1 ''authr-''), b_sha256 = sha_a\<rparr>"

definition s6 :: gstate where
  "s6 = consumed_gstate (id1 ''authu-'') 1 s3"

lemma s6_fields: "gs_grant_id s6 = ''solo''" "gs_grant_sha256 s6 = sha_a" "gs_status s6 = Active" "gs_version s6 = 2"
  "gs_remaining_uses s6 = Some 1" "gs_reserved_uses s6 = 0" "gs_consumed_uses s6 = 1"
  by (simp_all add: s6_def consumed_gstate_def Let_def s3_fields)

definition ur1 :: use_receipt where
  "ur1 = \<lparr>ur_receipt_id = id1 ''authu-'', ur_reservation = reservation_b, ur_execution_result = result_b,
     ur_typed = Some (file_b ''result.json'', verification_b), ur_consumed_at = day 7,
     ur_grant_versions_after = [(''solo'', 2)],
     ur_state_changes = [\<lparr>ch_ref = Grant_ref ''solo'', ch_before = Some (GS s3), ch_after = GS s6\<rparr>,
        settle_reservation (id1 ''authu-'') Rs_consumed reserved1 (id1 ''authz-'')], ur_idempotency_key = ''key''\<rparr>"

definition p6 :: "sref \<Rightarrow> pstate option" where
  "p6 = p3(Grant_ref ''solo'' \<mapsto> GS s6, Reservation_ref (id1 ''authz-'') \<mapsto> RS (settled_rstate (id1 ''authu-'') Rs_consumed reserved1))"

definition ws6 :: ws where
  "ws6 = ws5\<lparr>ws_execution_results := [(id1 ''authr-'', id1 ''authr-'', er1, sha_a)],
     ws_use_receipts := [(id1 ''authu-'', ur1)], ws_store := solo_store p6\<rparr>"

lemma vf1_accepted: "validate_pre_commit_verification env1 ws5 rv1 reservation_b verification_b 0 True = Inr vf1"
  by (simp add: validate_pre_commit_verification_def find_ref_def ws5_fields verification_b_def strip_artifact_ref
    vf1_def verification_id_def id1_def [symmetric] Let_def rv1_fields rstate_of_def proj_def p3_at)

lemma solo_result:
  "create_execution_result env1 owner1 ws5 dec1 reservation_b verification_b (file_b ''result.json'') (JStr (isoformat (day 7)))
     (Some sha_a) None = Inr (result_b, ws5\<lparr>ws_execution_results := [(id1 ''authr-'', id1 ''authr-'', er1, sha_a)]\<rparr>)"
proof -
  have "read_file the_files (sub_ref (rq_subject the_request)) = Inr (sha_a, Some (JObj []))" by code_simp
  then show ?thesis
    by (simp add: create_execution_result_def read_bound_object_def the_bindings result_after_def dec1_fields Let_def day_time
      result_id_def id1_def [symmetric] publish_immutable_def ws5_fields result_b_def er1_def)
qed

lemma solo_consumed:
  "consume_legacy env1 owner1 ws5 (b_ref reservation_b) sha_a (file_b ''result.json'') (Some verification_b) (Some sha_a)
     (JStr (isoformat (day 7))) 0 ''key'' = (Inr ur1, ws6)"
proof -
  obtain out where rec: "recover env1 owner1 ws5 = (Inr out, ws5)" using ws5_recover by blast
  have load: "load_reservation env1 ws5 (b_ref reservation_b) sha_a = Inr (id1 ''authz-'', rv1, reserved1)"
    by (rule rv1_load [where p = p3]) (simp_all add: ws5_fields p3_at)
  have id: "settlement_id (env_digest env1) ''authu-'' sha_a ''key'' = id1 ''authu-''" by (simp add: settlement_id_def id1_def)
  have check: "check_consume env1 owner1 ws5 False rv1 reserved1 reservation_b (file_b ''result.json'') (Some verification_b) None
      (JStr (isoformat (day 7))) 0 = Inr (dec1, verification_b)"
    using rv1_verified [of ws5 7 False]
    by (simp add: check_consume_def ws5_fields unregistered1 resolve_pre_commit_verification_def vf1_accepted)
  have gload: "load_grant env1 (solo_store p3) ''solo'' = Inr (solo, sha_a, s3)"
    by (rule solo_load) (simp_all add: p3_at s3_fields)
  let ?w = "ws5\<lparr>ws_execution_results := [(id1 ''authr-'', id1 ''authr-'', er1, sha_a)]\<rparr>"
  have make: "make_use_receipt env1 ?w rv1 reserved1 reservation_b result_b (file_b ''result.json'') verification_b
      (JStr (isoformat (day 7))) ''key'' (id1 ''authu-'') = Inr ur1"
    using s6_fields by (simp add: make_use_receipt_def consume_projection_changes_def rv1_fields settle_change_def ws5_fields gload
      day_time ur1_def Let_def s6_def [symmetric])
  have "s3 \<noteq> s6" using s3_fields s6_fields by auto
  moreover have "reserved1 \<noteq> settled_rstate (id1 ''authu-'') Rs_consumed reserved1"
    by (simp add: settled_rstate_def reserved_rstate_def)
  ultimately have pub: "publish_use_receipt ur1 ?w = (Inr ur1, ws6)"
    by (simp add: publish_use_receipt_def commit_def ur1_def Let_def apply_projection_changes_def settle_reservation_def
       proj_def set_proj_def ws5_fields p3_at ws6_def p6_def)
  have "reject_registered env1 ws5 (b_ref reservation_b) sha_a False = Inr ()"
    by (simp add: reject_registered_def load unregistered1 ws5_fields)
  then show ?thesis
    by (simp add: consume_legacy_def liftS_def consume_def id the_bindings rec load ws5_fields check
      reservation_b_def [symmetric] solo_result make pub)
qed

lemma ws6_rest: "at_rest ws6"
  by (rule completed_at_rest [OF ws5_rest completes.consumed [OF solo_consumed]])

subsection \<open>The states of the run\<close>

lemma solo_grant_of: "grant_of (solo_store p) ''solo'' = Some (solo, sha_a)"
  by (simp add: grant_of_def solo_store_def solo_ok)

lemma logical_ws: "logical ws2 = p1" "logical ws3 = p3" "logical ws4 = p4" "logical ws6 = p6"
  using ws2_rest ws3_rest ws4_rest ws6_rest by (simp_all add: at_rest_def proj_def ws2_fields ws3_fields ws4_fields ws6_def)

lemma arises_ws: "arises ws4" "arises ws5" "arises ws6"
  using ws4_rest ws5_rest ws6_rest by (simp_all add: at_rest_def)

lemma ws3_account: "account ws3 ''solo'' = (1, 0)"
proof -
  have "logical ws3 (Grant_ref ''solo'') = Some (GS s3)" by (simp add: logical_ws p3_at)
  from account_counters [OF ws3_arises this] show ?thesis by (simp add: counters_def s3_fields)
qed

lemma ws6_account: "account ws6 ''solo'' = (0, 1)"
proof -
  have "logical ws6 (Grant_ref ''solo'') = Some (GS s6)" by (simp add: logical_ws p6_def)
  from account_counters [OF arises_ws(3) this] show ?thesis by (simp add: counters_def s6_fields)
qed

lemma ws4_step: "step ws3 ws4"
  by (rule step.completed [OF completes.transitioned [OF _ solo_suspended]])
    (simp add: event_published_def ws4_def te1_def)

text \<open>The reservation was published, and the crash came before its first state was written\<close>

definition crashed1 :: ws where
  "crashed1 = set_proj p1 ws3"

lemma crashed1_arises: "arises crashed1"
proof -
  have "proj ws2 = p1" by (simp add: proj_def ws2_fields)
  then have "step ws2 (set_proj p1 ws3)"
    by (intro step.applying [OF completes.reserved [OF solo_reserved] recover_no_intents [OF no_intents2(2,1)]]) simp
  then show ?thesis unfolding crashed1_def by (rule arises.onward [OF ws2_arises])
qed

lemma crashed1_valid: "validate_intents env1 owner1 crashed1 True = Inr ()"
proof -
  have "ws_store crashed1 = solo_store p1" by (simp add: crashed1_def set_proj_def ws3_fields)
  moreover have "ws_decisions crashed1 = ws_decisions ws3" by (simp add: crashed1_def)
  ultimately have "validate_reservation env1 crashed1 (id1 ''authz-'') rv1 = Inr ()" by (intro rv1_accepted) simp_all
  then show ?thesis by (simp add: validate_intents_def entries_def) (simp add: crashed1_def ws3_fields)
qed

lemma solo_events_ok: "load_grant env1 (solo_store p1) gid = Inr (g, sha, s) \<Longrightarrow> event_ok s"
proof -
  assume load: "load_grant env1 (solo_store p1) gid = Inr (g, sha, s)"
  then have "gid = ''solo''" by (auto simp: load_grant_def solo_store_def result_simps split: if_splits)
  with load solo_load [of p1 solo_state] show ?thesis by (simp add: p1_def solo_state_fields event_ok_def)
qed

lemma ws4_load: "load_reservation env1 ws4 (b_ref reservation_b) sha_a = Inr (id1 ''authz-'', rv1, reserved1)"
  by (rule rv1_load [where p = p4]) (simp_all add: ws4_fields p4_at)

lemma ws4_grant: "load_grant env1 (solo_store p4) ''solo'' = Inr (solo, sha_a, s4)"
  by (rule solo_load) (simp_all add: p4_at s4_fields)

lemma the_list_all: "list_grants the_env the_store None =
    Inr [(the_child, sha_b, initial_state the_child sha_b), (the_root, sha_a, initial_state the_root sha_a)]"
  by (simp add: list_grants_def the_grant_ids list_one_def the_load)

end
