(* ===== verification/Source_Approval.thy ===== *)
theory Source_Approval
  imports Operations "HOL-Library.Multiset"
begin

text \<open>
  Source approvals: the closed contracts of \<^verbatim>\<open>source_approval_contract.py\<close> (schema versions 2 to 5)
  and \<^verbatim>\<open>source_activation_contract.py\<close> (schema version 6). A source approval is what a person or a
  policy grants; a root grant must stay inside one. Versions 4 and 5 carry one projection per
  grant, whose union must be exactly the coverage of the approval; version 6 carries the projection
  of a single mode-activation child.
\<close>

subsection \<open>Fields\<close>

definition SOURCE_KINDS :: "(string \<times> source_rank) list" where
  "SOURCE_KINDS = [(''platform_session_ceiling'', S4), (''explicit_user_instruction'', S3),
     (''delegated_policy_steward'', S2), (''cycle_coordination_grant'', S1)]"

definition APPROVAL_BASE_KEYS :: "string list" where
  "APPROVAL_BASE_KEYS =
    [''schema_version'', ''artifact_kind'', ''approval_id'', ''source_kind'', ''source_rank'',
     ''decision_type'', ''capabilities'', ''subjects'', ''operations'', ''risk_ceiling'',
     ''decision_classes'', ''cardinalities'', ''max_uses'', ''grant_ids'', ''request_digests'',
     ''lineage_ids'', ''delegation_binding'', ''not_before'', ''expires_at'', ''evidence_id'']"

definition APPROVAL_V2_KEYS :: "string list" where
  "APPROVAL_V2_KEYS = APPROVAL_BASE_KEYS @ [''integrity_status'']"

definition APPROVAL_V3_KEYS :: "string list" where
  "APPROVAL_V3_KEYS = APPROVAL_BASE_KEYS @ [''decision_binding'', ''decision_trust_class'']"

definition APPROVAL_V4_KEYS :: "string list" where
  "APPROVAL_V4_KEYS = APPROVAL_V3_KEYS @ [''grant_projections'']"

definition APPROVAL_V6_KEYS :: "string list" where
  "APPROVAL_V6_KEYS = APPROVAL_V3_KEYS @ [''activation_plan'', ''activation_evidence'',
     ''activation_materialization'', ''activation_child'']"

definition DECISION_TRUST_CLASSES :: "string list" where
  "DECISION_TRUST_CLASSES = [''caller_asserted_exact_echo'', ''caller_asserted_plan_decision'',
     ''host_user_signed_exact_plan'', ''host_user_signed_mode_activation_child'']"

text \<open>\<^verbatim>\<open>_unique_strings\<close>\<close>

definition unique_strings :: "json \<Rightarrow> string list res" where
  "unique_strings v =
     (case v of
        JList xs \<Rightarrow>
          (let normalized = sort_uniq (map py_str xs) in
           if xs = [] \<or> length normalized \<noteq> length xs
              \<or> \<not> list_all (\<lambda>s. s \<noteq> [] \<and> CHR ''*'' \<notin> set s) normalized
           then fail BadList else Inr normalized)
      | _ \<Rightarrow> fail BadList)"

text \<open>\<^verbatim>\<open>_digests\<close>, which accepts an empty list\<close>

definition digests_field :: "json \<Rightarrow> string list res" where
  "digests_field v =
     (case v of
        JList xs \<Rightarrow>
          (let normalized = sort_uniq (map py_str xs) in
           if length normalized \<noteq> length xs \<or> \<not> list_all is_sha normalized
           then fail BadSha else Inr normalized)
      | _ \<Rightarrow> fail BadList)"

text \<open>\<^verbatim>\<open>_operations\<close>\<close>

definition exact_text :: "json \<Rightarrow> string res" where
  "exact_text v =
     (let s = str_or_empty v in if s = [] \<or> CHR ''*'' \<in> set s then fail BadScope else Inr s)"

definition exact_operation :: "json \<Rightarrow> operation_scope res" where
  "exact_operation v =
     (case v of
        JObj d \<Rightarrow>
          bindE (exact_keys d OPERATION_SCOPE_KEYS) (\<lambda>_.
          bindE (exact_text (jat d ''operation_id'')) (\<lambda>oi.
          bindE (exact_text (jat d ''operation_version'')) (\<lambda>ov.
          bindE (exact_text (jat d ''skill_id'')) (\<lambda>si.
          bindE (exact_text (jat d ''skill_version'')) (\<lambda>sv.
            Inr \<lparr>os_operation_id = oi, os_operation_version = ov, os_skill_id = si,
                 os_skill_version = sv\<rparr>)))))
      | _ \<Rightarrow> fail NotClosed)"

definition exact_operations :: "json \<Rightarrow> operation_scope list res" where
  "exact_operations v =
     (case v of
        JList xs \<Rightarrow>
          if xs = [] then fail BadScope
          else
            bindE (mapE exact_operation xs) (\<lambda>ops.
            if \<not> distinct (map operation_key ops) then fail BadScope
            else Inr (sort_key operation_key ops))
      | _ \<Rightarrow> fail BadScope)"

text \<open>\<^verbatim>\<open>_delegation_binding\<close>; unlike \<^verbatim>\<open>_binding\<close> it does not normalize the digest\<close>

definition exact_binding :: "json \<Rightarrow> binding res" where
  "exact_binding v =
     (case v of
        JObj d \<Rightarrow>
          bindE (exact_keys d BINDING_KEYS) (\<lambda>_.
          let ref = strip (str_or_empty (jat d ''ref'')); sha = str_or_empty (jat d ''sha256'') in
          if ref = [] \<or> path_like_unsafe ref then fail BadBinding
          else if \<not> is_sha sha then fail BadSha
          else Inr \<lparr>b_ref = ref, b_sha256 = sha\<rparr>)
      | _ \<Rightarrow> fail BadBinding)"

definition delegation_binding :: "bool \<Rightarrow> json \<Rightarrow> binding option res" where
  "delegation_binding required v =
     (if v = JNull then (if required then fail Missing else Inr None)
      else bindE (exact_binding v) (\<lambda>b. Inr (Some b)))"

text \<open>\<^verbatim>\<open>_exact_identifier\<close>\<close>

definition bounded_identifier :: "json \<Rightarrow> string res" where
  "bounded_identifier v =
     (if v = JNull then fail Missing
      else let s = strip (str_or_empty v) in
        if s = [] \<or> 128 < length s \<or> CHR ''*'' \<in> set s \<or> CHR ''/'' \<in> set s
        then fail BadIdentifier else Inr s)"

definition nullable_bounded :: "json \<Rightarrow> string option res" where
  "nullable_bounded v =
     (if v = JNull then Inr None else bindE (bounded_identifier v) (\<lambda>s. Inr (Some s)))"

subsection \<open>Projections\<close>

text \<open>
  The projection of one grant: an item of \<^verbatim>\<open>grant_projections\<close>, or the \<^verbatim>\<open>activation_child\<close> of
  version 6, which has the same fields but for the name of the materialization reference
\<close>

record projection =
  pj_grant_id :: string
  pj_lineage_id :: string
  pj_idempotency_key :: string
  pj_request_sha256 :: string
  pj_holder_rank :: source_rank
  pj_capabilities :: "string list"
  pj_subject :: subject
  pj_operation :: operation_scope
  pj_risk_ceiling :: risk_tier
  pj_decision_classes :: "string list"
  pj_cardinality :: cardinality
  pj_max_uses :: int
  pj_session_id :: "string option"
  pj_task_id :: "string option"
  pj_improvement_id :: "string option"
  pj_policy_snapshot :: binding
  pj_materialization_ref :: string

definition PROJECTION_KEYS :: "string \<Rightarrow> string list" where
  "PROJECTION_KEYS ref_key =
    [''grant_id'', ''lineage_id'', ''grant_idempotency_key'', ''request_sha256'', ''holder_rank'',
     ''capabilities'', ''subjects'', ''operations'', ''risk_ceiling'', ''decision_classes'',
     ''cardinality'', ''max_uses'', ''session_id'', ''task_id'', ''improvement_id'',
     ''policy_snapshot'', ref_key]"

text \<open>The only item of a list with exactly one item\<close>

definition single_item :: "json \<Rightarrow> json res" where
  "single_item v = (case v of JList [x] \<Rightarrow> Inr x | _ \<Rightarrow> fail BadScope)"

definition single_operation :: "json \<Rightarrow> operation_scope res" where
  "single_operation v = bindE (single_item v) exact_operation"

definition positive_count :: "json \<Rightarrow> int res" where
  "positive_count v = (case v of JInt n \<Rightarrow> (if n < 1 then fail BadInteger else Inr n) | _ \<Rightarrow> fail BadInteger)"

definition sha_text :: "json \<Rightarrow> string res" where
  "sha_text v = (if is_sha (py_str v) then Inr (py_str v) else fail BadSha)"

text \<open>
  \<open>materialization_path\<close> is the check of \<^verbatim>\<open>root_materialization_ref\<close> or
  \<^verbatim>\<open>activation_materialization_ref\<close>; the prefix excludes an absolute path
\<close>

definition materialization_path :: "string \<Rightarrow> json \<Rightarrow> string res" where
  "materialization_path pre v =
     (let ref = strip (str_or_empty v) in
      if \<not> starts_with ref pre \<or> \<not> ends_with ref ''/receipt.json'' \<or> CHR ''*'' \<in> set ref
         \<or> ''..'' \<in> set (split_on (CHR ''/'') ref)
      then fail BadPath else Inr ref)"

definition projection_field :: "string \<Rightarrow> string \<Rightarrow> json \<Rightarrow> projection res" where
  "projection_field ref_key pre v =
     (case v of
        JObj d \<Rightarrow>
          bindE (exact_keys d (PROJECTION_KEYS ref_key)) (\<lambda>_.
          bindE (sha_text (jat d ''request_sha256'')) (\<lambda>request_sha256.
          bindE (enum_str (jat d ''holder_rank'') SOURCE_RANKS) (\<lambda>holder_rank.
          bindE (enum_str (jat d ''risk_ceiling'') RISK_TIERS) (\<lambda>risk_ceiling.
          bindE (enum_str (jat d ''cardinality'') CARDINALITIES) (\<lambda>crd.
          bindE (positive_count (jat d ''max_uses'')) (\<lambda>max_uses.
          bindE (single_item (jat d ''subjects'')) (\<lambda>raw_subject.
          bindE (single_operation (jat d ''operations'')) (\<lambda>operation.
          bindE (materialization_path pre (jat d ref_key)) (\<lambda>ref.
          bindE (bounded_identifier (jat d ''grant_id'')) (\<lambda>grant_id.
          bindE (bounded_identifier (jat d ''lineage_id'')) (\<lambda>lineage_id.
          bindE (bounded_identifier (jat d ''grant_idempotency_key'')) (\<lambda>key.
          bindE (unique_strings (jat d ''capabilities'')) (\<lambda>capabilities.
          bindE (validate_subject raw_subject) (\<lambda>subject.
          bindE (unique_strings (jat d ''decision_classes'')) (\<lambda>decision_classes.
          bindE (nullable_bounded (jat d ''session_id'')) (\<lambda>session_id.
          bindE (nullable_bounded (jat d ''task_id'')) (\<lambda>task_id.
          bindE (nullable_bounded (jat d ''improvement_id'')) (\<lambda>improvement_id.
          bindE (exact_binding (jat d ''policy_snapshot'')) (\<lambda>policy_snapshot.
          Inr \<lparr>pj_grant_id = grant_id, pj_lineage_id = lineage_id, pj_idempotency_key = key,
               pj_request_sha256 = request_sha256, pj_holder_rank = holder_rank,
               pj_capabilities = capabilities, pj_subject = subject, pj_operation = operation,
               pj_risk_ceiling = risk_ceiling, pj_decision_classes = decision_classes,
               pj_cardinality = crd, pj_max_uses = max_uses, pj_session_id = session_id,
               pj_task_id = task_id, pj_improvement_id = improvement_id,
               pj_policy_snapshot = policy_snapshot, pj_materialization_ref = ref\<rparr>)))))))))))))))))))
      | _ \<Rightarrow> fail NotClosed)"

definition root_grant_projections :: "json \<Rightarrow> projection list res" where
  "root_grant_projections v =
     (case v of
        JList xs \<Rightarrow>
          if xs = [] then fail BadList
          else
            bindE (mapE (projection_field ''root_materialization_ref''
              ''.task/authorization/root_grant_materializations/'') xs) (\<lambda>ps.
            if \<not> distinct (map pj_grant_id ps) \<or> \<not> distinct (map pj_lineage_id ps)
               \<or> \<not> distinct (map pj_request_sha256 ps)
            then fail Conflict else Inr (sort_key pj_request_sha256 ps))
      | _ \<Rightarrow> fail BadList)"

text \<open>\<^verbatim>\<open>_child\<close>, the projection of the single child of version 6\<close>

definition activation_child_field :: "json \<Rightarrow> projection res" where
  "activation_child_field v =
     bindE (projection_field ''activation_materialization_ref''
       ''.task/authorization/authority_interaction_activations/'' v) (\<lambda>p.
     if pj_holder_rank p \<notin> {S0, S1} then fail BadScope else Inr p)"

subsection \<open>Approvals\<close>

text \<open>
  The normalized approval of every version. \<open>sa_decision\<close> is the decision binding with its trust
  class (\<open>None\<close> for the integrity mark of version 2), \<open>sa_projections\<close> is empty before version 4,
  and \<open>sa_activation\<close> holds the plan, the evidence, the materialization and the child of version 6.
\<close>

record source_approval =
  sa_version :: int
  sa_approval_id :: string
  sa_source_kind :: string
  sa_source_rank :: source_rank
  sa_capabilities :: "string list"
  sa_subjects :: "subject list"
  sa_operations :: "operation_scope list"
  sa_risk_ceiling :: risk_tier
  sa_decision_classes :: "string list"
  sa_cardinalities :: "string list"
  sa_max_uses :: "int option"
  sa_grant_ids :: "string list"
  sa_request_digests :: "string list"
  sa_lineage_ids :: "string list"
  sa_delegation_binding :: "binding option"
  sa_not_before :: datetime
  sa_expires_at :: "datetime option"
  sa_evidence_id :: string
  sa_decision :: "(binding \<times> string) option"
  sa_projections :: "projection list"
  sa_activation :: "(binding \<times> binding \<times> binding \<times> projection) option"

text \<open>
  \<^verbatim>\<open>_validate_projection_coverage\<close>; \<open>with_issue\<close> adds the capability to issue grants, and the
  maxima start at values that no projection goes below
\<close>

definition with_issue :: "string list \<Rightarrow> string list" where
  "with_issue cs = sort_uniq (''authority.grant.issue'' # cs)"

definition highest_risk :: "projection list \<Rightarrow> risk_tier" where
  "highest_risk ps =
     foldr (\<lambda>p r. if risk_value r < risk_value (pj_risk_ceiling p) then pj_risk_ceiling p else r) ps R0"

definition highest_uses :: "projection list \<Rightarrow> int" where
  "highest_uses ps = foldr (\<lambda>p n. max (pj_max_uses p) n) ps 1"

definition same_items :: "'a list \<Rightarrow> 'a list \<Rightarrow> bool" where
  "same_items actual items \<longleftrightarrow> set actual = set items \<and> length actual = length (remdups items)"

definition projection_coverage :: "source_approval \<Rightarrow> projection list \<Rightarrow> bool" where
  "projection_coverage a ps \<longleftrightarrow>
     sa_capabilities a = with_issue (concat (map pj_capabilities ps)) \<and>
     same_items (sa_subjects a) (map pj_subject ps) \<and>
     same_items (sa_operations a) (map pj_operation ps) \<and>
     sa_risk_ceiling a = highest_risk ps \<and>
     sa_decision_classes a = sort_uniq (concat (map pj_decision_classes ps)) \<and>
     sa_cardinalities a = sort_uniq (map (enum_name CARDINALITIES \<circ> pj_cardinality) ps) \<and>
     sa_max_uses a = Some (highest_uses ps) \<and>
     sa_grant_ids a = sort (map pj_grant_id ps) \<and>
     sa_request_digests a = sort (map pj_request_sha256 ps) \<and>
     sa_lineage_ids a = sort (map pj_lineage_id ps)"

text \<open>Times that count as absent when Python finds them false\<close>

definition optional_time :: "json \<Rightarrow> datetime option res" where
  "optional_time v = (if truthy v then bindE (parse_time v) (\<lambda>t. Inr (Some t)) else Inr None)"

definition source_kind_rank :: "obj \<Rightarrow> (string \<times> source_rank) res" where
  "source_kind_rank d =
     (case map_of SOURCE_KINDS (py_str (jat d ''source_kind'')) of
        None \<Rightarrow> fail BadRank
      | Some r \<Rightarrow>
          if py_str (jat d ''source_rank'') \<noteq> enum_name SOURCE_RANKS r then fail BadRank
          else Inr (py_str (jat d ''source_kind''), r))"

text \<open>The decision fields: the integrity mark of version 2, or a bound decision with its trust class\<close>

definition decision_fields :: "obj \<Rightarrow> (binding \<times> string) option res" where
  "decision_fields d =
     (if jat d ''schema_version'' = JInt 2 then
        (if jat d ''integrity_status'' \<noteq> JStr ''verified'' then fail Forged else Inr None)
      else
        bindE (delegation_binding True (jat d ''decision_binding'')) (\<lambda>b.
        let trust = py_str (jat d ''decision_trust_class'') in
        if trust \<notin> set DECISION_TRUST_CLASSES then fail BadEnum
        else Inr (Option.bind b (\<lambda>x. Some (x, trust)))))"

definition approval_keys :: "json \<Rightarrow> string list" where
  "approval_keys version =
     (if version = JInt 2 then APPROVAL_V2_KEYS else if version = JInt 3 then APPROVAL_V3_KEYS
      else if version \<in> {JInt 4, JInt 5} then APPROVAL_V4_KEYS else [])"

text \<open>
  \<^verbatim>\<open>validate_source_approval\<close> for versions 2 to 5: the checks of the scalar fields, the normalized
  lists, and for the last two versions the projections with their trust class and coverage
\<close>

definition approval_base :: "obj \<Rightarrow> int \<Rightarrow> source_approval res" where
  "approval_base d version =
     bindE (source_kind_rank d) (\<lambda>(kind, rank).
     if jat d ''decision_type'' \<noteq> JStr ''grant_authority'' then fail BadContract
     else
     bindE (decision_fields d) (\<lambda>decision.
     bindE (unique_strings (jat d ''decision_classes'')) (\<lambda>decisions.
     bindE (unique_strings (jat d ''cardinalities'')) (\<lambda>cardinalities.
     if \<not> list_all (\<lambda>x. x \<in> set (map fst DECISION_CLASSES)) decisions then fail BadEnum
     else if \<not> list_all (\<lambda>x. x \<in> set (map fst CARDINALITIES)) cardinalities then fail BadEnum
     else
     bindE (enum_str (jat d ''risk_ceiling'') RISK_TIERS) (\<lambda>risk.
     bindE (max_uses_field (jat d ''max_uses'')) (\<lambda>max_uses.
     bindE (nonempty_list_field (jat d ''subjects'')) (\<lambda>raw_subjects.
     bindE (unique_strings (jat d ''capabilities'')) (\<lambda>capabilities.
     bindE (mapE validate_subject raw_subjects) (\<lambda>subjects.
     bindE (exact_operations (jat d ''operations'')) (\<lambda>operations.
     bindE (unique_strings (jat d ''grant_ids'')) (\<lambda>grant_ids.
     bindE (digests_field (jat d ''request_digests'')) (\<lambda>request_digests.
     bindE (unique_strings (jat d ''lineage_ids'')) (\<lambda>lineage_ids.
     bindE (delegation_binding (rank \<in> {S1, S2}) (jat d ''delegation_binding'')) (\<lambda>delegation.
     bindE (parse_time (jat d ''not_before'')) (\<lambda>not_before.
     bindE (optional_time (jat d ''expires_at'')) (\<lambda>expires_at.
     Inr \<lparr>sa_version = version, sa_approval_id = py_str (jat d ''approval_id''),
          sa_source_kind = kind, sa_source_rank = rank, sa_capabilities = capabilities,
          sa_subjects = subjects, sa_operations = operations, sa_risk_ceiling = risk,
          sa_decision_classes = decisions, sa_cardinalities = cardinalities,
          sa_max_uses = max_uses, sa_grant_ids = grant_ids,
          sa_request_digests = request_digests, sa_lineage_ids = lineage_ids,
          sa_delegation_binding = delegation, sa_not_before = not_before,
          sa_expires_at = expires_at, sa_evidence_id = py_str (jat d ''evidence_id''),
          sa_decision = decision, sa_projections = [], sa_activation = None\<rparr>))))))))))))))))"

definition plan_trust_class :: "int \<Rightarrow> string" where
  "plan_trust_class version =
     (if version = 5 then ''host_user_signed_exact_plan'' else ''caller_asserted_plan_decision'')"

definition approval_plan :: "obj \<Rightarrow> source_approval \<Rightarrow> source_approval res" where
  "approval_plan d a =
     (if sa_version a \<notin> {4, 5} then Inr a
      else
        bindE (root_grant_projections (jat d ''grant_projections'')) (\<lambda>ps.
        if map_option snd (sa_decision a) \<noteq> Some (plan_trust_class (sa_version a)) then fail BadContract
        else if \<not> projection_coverage a ps then fail BadScope
        else Inr (a\<lparr>sa_projections := ps\<rparr>)))"

text \<open>
  \<^verbatim>\<open>validate_activation_source_approval\<close>. The list of subjects is iterated without a type check,
  so a value that is no iterable raises \<^verbatim>\<open>TypeError\<close>; the use budget is compared with Python's
  equality, for which \<^verbatim>\<open>True\<close> is 1.
\<close>

definition iterated_subjects :: "json \<Rightarrow> subject list res" where
  "iterated_subjects v =
     (case v of JList xs \<Rightarrow> mapE validate_subject xs
      | JStr s \<Rightarrow> (if s = [] then Inr [] else fail NotAnObject)
      | JObj d \<Rightarrow> (if d = [] then Inr [] else fail NotAnObject)
      | _ \<Rightarrow> Inl TypeError)"

definition child_scope_matches :: "obj \<Rightarrow> projection \<Rightarrow> unit res" where
  "child_scope_matches d c =
     bindE (unique_strings (jat d ''grant_ids'')) (\<lambda>gs. if gs \<noteq> [pj_grant_id c] then fail BadScope else
     bindE (unique_strings (jat d ''lineage_ids'')) (\<lambda>ls. if ls \<noteq> [pj_lineage_id c] then fail BadScope else
     bindE (digests_field (jat d ''request_digests'')) (\<lambda>rs. if rs \<noteq> [pj_request_sha256 c] then fail BadScope else
     bindE (unique_strings (jat d ''capabilities'')) (\<lambda>cs. if cs \<noteq> with_issue (pj_capabilities c) then fail BadScope else
     bindE (iterated_subjects (jat d ''subjects'')) (\<lambda>ss. if ss \<noteq> [pj_subject c] then fail BadScope else
     bindE (exact_operations (jat d ''operations'')) (\<lambda>os. if os \<noteq> [pj_operation c] then fail BadScope else
     if jat d ''risk_ceiling'' \<noteq> JStr (enum_name RISK_TIERS (pj_risk_ceiling c)) then fail BadScope else
     bindE (unique_strings (jat d ''decision_classes'')) (\<lambda>ds. if ds \<noteq> pj_decision_classes c then fail BadScope else
     bindE (unique_strings (jat d ''cardinalities'')) (\<lambda>ks.
     if ks \<noteq> [enum_name CARDINALITIES (pj_cardinality c)] then fail BadScope
     else if \<not> equals_int (jat d ''max_uses'') (pj_max_uses c) then fail BadScope
     else Inr ()))))))))"

definition validate_activation_source_approval :: "obj \<Rightarrow> source_approval res" where
  "validate_activation_source_approval d =
     bindE (exact_keys d APPROVAL_V6_KEYS) (\<lambda>_.
     if jat d ''artifact_kind'' \<noteq> JStr ''authority_source_approval''
        \<or> jat d ''schema_version'' \<noteq> JInt 6 then fail BadContract
     else if jat d ''source_kind'' \<noteq> JStr ''delegated_policy_steward''
             \<or> jat d ''source_rank'' \<noteq> JStr ''S2''
             \<or> jat d ''decision_type'' \<noteq> JStr ''grant_authority''
             \<or> jat d ''decision_trust_class'' \<noteq> JStr ''host_user_signed_mode_activation_child''
     then fail BadContract
     else
     bindE (activation_child_field (jat d ''activation_child'')) (\<lambda>c.
     bindE (exact_binding (jat d ''delegation_binding'')) (\<lambda>delegation.
     bindE (exact_binding (jat d ''decision_binding'')) (\<lambda>decision.
     bindE (exact_binding (jat d ''activation_plan'')) (\<lambda>plan.
     bindE (exact_binding (jat d ''activation_evidence'')) (\<lambda>evidence.
     bindE (exact_binding (jat d ''activation_materialization'')) (\<lambda>materialization.
     if delegation \<noteq> plan \<or> decision \<noteq> evidence then fail BadBinding
     else
     bindE (child_scope_matches d c) (\<lambda>_.
     if jat d ''expires_at'' \<noteq> JNull then fail BadTime
     else
     bindE (bounded_identifier (jat d ''approval_id'')) (\<lambda>approval_id.
     bindE (parse_time (jat d ''not_before'')) (\<lambda>not_before.
     bindE (bounded_identifier (jat d ''evidence_id'')) (\<lambda>evidence_id.
     Inr \<lparr>sa_version = 6, sa_approval_id = approval_id,
          sa_source_kind = ''delegated_policy_steward'', sa_source_rank = S2,
          sa_capabilities = with_issue (pj_capabilities c), sa_subjects = [pj_subject c],
          sa_operations = [pj_operation c], sa_risk_ceiling = pj_risk_ceiling c,
          sa_decision_classes = pj_decision_classes c,
          sa_cardinalities = [enum_name CARDINALITIES (pj_cardinality c)],
          sa_max_uses = Some (pj_max_uses c), sa_grant_ids = [pj_grant_id c],
          sa_request_digests = [pj_request_sha256 c], sa_lineage_ids = [pj_lineage_id c],
          sa_delegation_binding = Some delegation, sa_not_before = not_before,
          sa_expires_at = None, sa_evidence_id = evidence_id,
          sa_decision = Some (decision, ''host_user_signed_mode_activation_child''),
          sa_projections = [], sa_activation = Some (plan, evidence, materialization, c)\<rparr>)))))))))))"

definition validate_source_approval :: "obj \<Rightarrow> source_approval res" where
  "validate_source_approval d =
     (let version = jat d ''schema_version'' in
      if version = JInt 6 then validate_activation_source_approval d
      else
      bindE (exact_keys d (approval_keys version)) (\<lambda>_.
      case version of
        JInt n \<Rightarrow>
          if n \<notin> {2, 3, 4, 5} \<or> jat d ''artifact_kind'' \<noteq> JStr ''authority_source_approval''
          then fail BadContract
          else bindE (approval_base d n) (approval_plan d)
      | _ \<Rightarrow> fail BadContract))"

definition load_source_approval :: "json option \<Rightarrow> source_approval res" where
  "load_source_approval doc = (case doc of Some (JObj d) \<Rightarrow> validate_source_approval d | _ \<Rightarrow> fail NotAnObject)"

subsection \<open>What validation gives\<close>

lemma distinct_map_sorted_by: "distinct (map f (sort_key k xs)) \<longleftrightarrow> distinct (map f xs)"
  by (rule mset_eq_imp_distinct_iff) simp

lemma unique_strings_set:
  "unique_strings v = Inr xs \<Longrightarrow> xs \<noteq> [] \<and> sorted xs \<and> distinct xs \<and> [] \<notin> set xs \<and> (\<forall>s \<in> set xs. CHR ''*'' \<notin> set s)"
  by (fastforce simp: unique_strings_def Let_def list_all_iff split: json.splits if_splits)

lemma delegation_binding_required: "delegation_binding True v = Inr b \<Longrightarrow> b \<noteq> None"
  by (auto simp: delegation_binding_def bindE_eq_Inr split: if_splits)

lemma root_grant_projections_distinct:
  assumes "root_grant_projections v = Inr ps"
  shows "ps \<noteq> []" and "distinct (map pj_grant_id ps)" and "distinct (map pj_lineage_id ps)"
    and "distinct (map pj_request_sha256 ps)"
proof -
  obtain xs qs where "xs \<noteq> []" and qs: "mapE (projection_field ''root_materialization_ref''
      ''.task/authorization/root_grant_materializations/'') xs = Inr qs"
    and d: "distinct (map pj_grant_id qs)" "distinct (map pj_lineage_id qs)" "distinct (map pj_request_sha256 qs)"
    and ps: "ps = sort_key pj_request_sha256 qs"
    using assms by (cases v) (simp_all add: root_grant_projections_def result_simps, blast)
  from qs have "length qs = length xs" by (rule mapE_length)
  with \<open>xs \<noteq> []\<close> show "ps \<noteq> []" by (auto simp: ps simp flip: length_greater_0_conv)
  from d show "distinct (map pj_grant_id ps)" "distinct (map pj_lineage_id ps)" "distinct (map pj_request_sha256 ps)"
    by (simp_all add: ps distinct_map_sorted_by)
qed

text \<open>An approval of versions 4 and 5 is the exact union of its projections\<close>

lemma approval_plan_coverage:
  assumes "approval_plan d a = Inr a'" and "sa_version a' \<in> {4, 5}"
  obtains "projection_coverage a' (sa_projections a')" "sa_projections a' \<noteq> []"
    "distinct (map pj_grant_id (sa_projections a'))" "distinct (map pj_lineage_id (sa_projections a'))"
    "distinct (map pj_request_sha256 (sa_projections a'))"
    "map_option snd (sa_decision a') = Some (plan_trust_class (sa_version a'))"
proof -
  have v: "sa_version a \<in> {4, 5}"
  proof (rule ccontr)
    assume n: "sa_version a \<notin> {4, 5}"
    with assms(1) have "a' = a" by (simp only: approval_plan_def if_True simp_thms sum.inject not_False_eq_True)
    with n assms(2) show False by simp
  qed
  then have "bindE (root_grant_projections (jat d ''grant_projections'')) (\<lambda>ps.
        if map_option snd (sa_decision a) \<noteq> Some (plan_trust_class (sa_version a)) then fail BadContract
        else if \<not> projection_coverage a ps then fail BadScope
        else Inr (a\<lparr>sa_projections := ps\<rparr>)) = Inr a'"
    using assms(1) by (simp only: approval_plan_def if_False simp_thms)
  then obtain ps where ps: "root_grant_projections (jat d ''grant_projections'') = Inr ps"
    and c: "projection_coverage a ps" "map_option snd (sa_decision a) = Some (plan_trust_class (sa_version a))"
    and a': "a' = a\<lparr>sa_projections := ps\<rparr>"
    by (auto simp only: result_simps)
  show thesis
    using c root_grant_projections_distinct [OF ps] by (intro that) (simp_all add: a' projection_coverage_def)
qed

lemma validate_source_approval_cases:
  assumes "validate_source_approval d = Inr a"
  obtains (plain) n b where "jat d ''schema_version'' = JInt n" "n \<in> {2, 3, 4, 5}"
      "approval_base d n = Inr b" "approval_plan d b = Inr a"
    | (activation) "validate_activation_source_approval d = Inr a"
proof (cases "jat d ''schema_version'' = JInt 6")
  case True
  with assms activation show thesis by (simp add: validate_source_approval_def)
next
  case False
  with assms plain show thesis
    by (cases "jat d ''schema_version''") (simp_all add: validate_source_approval_def result_simps, blast)
qed

lemma activation_version: "validate_activation_source_approval d = Inr a \<Longrightarrow> sa_version a = 6"
  unfolding validate_activation_source_approval_def by (auto simp only: result_simps source_approval.simps)

lemma plan_coverage:
  assumes "load_source_approval doc = Inr a" and "sa_version a \<in> {4, 5}"
  shows "projection_coverage a (sa_projections a)" and "sa_projections a \<noteq> []"
    and "distinct (map pj_grant_id (sa_projections a))"
    and "map_option snd (sa_decision a) = Some (plan_trust_class (sa_version a))"
proof -
  obtain d where d: "validate_source_approval d = Inr a"
    using assms(1) by (auto simp: load_source_approval_def split: option.splits json.splits)
  have "projection_coverage a (sa_projections a) \<and> sa_projections a \<noteq> [] \<and> distinct (map pj_grant_id (sa_projections a))
      \<and> map_option snd (sa_decision a) = Some (plan_trust_class (sa_version a))"
    using d
  proof (cases rule: validate_source_approval_cases)
    case (plain n b)
    from approval_plan_coverage [OF plain(4) assms(2)] show ?thesis by blast
  next
    case activation
    with activation_version assms(2) show ?thesis by fastforce
  qed
  then show "projection_coverage a (sa_projections a)" and "sa_projections a \<noteq> []"
    and "distinct (map pj_grant_id (sa_projections a))"
    and "map_option snd (sa_decision a) = Some (plan_trust_class (sa_version a))" by blast+
qed

lemma highest_risk_ge: "p \<in> set ps \<Longrightarrow> risk_value (pj_risk_ceiling p) \<le> risk_value (highest_risk ps)"
  by (induction ps) (auto simp: highest_risk_def)

lemma highest_risk_met: "ps \<noteq> [] \<Longrightarrow> \<exists>p \<in> set ps. pj_risk_ceiling p = highest_risk ps"
proof (induction ps)
  case (Cons p ps)
  show ?case
  proof (cases "ps = []")
    case True
    then show ?thesis by (cases "pj_risk_ceiling p") (simp_all add: highest_risk_def)
  next
    case False
    with Cons.IH show ?thesis by (auto simp: highest_risk_def)
  qed
qed simp

lemma highest_uses_ge: "p \<in> set ps \<Longrightarrow> pj_max_uses p \<le> highest_uses ps"
  by (induction ps) (auto simp: highest_uses_def)

lemma with_issue_set [simp]: "set (with_issue cs) = insert ''authority.grant.issue'' (set cs)"
  by (simp add: with_issue_def)

end
