(* ===== verification/Source_Validation.thy ===== *)
theory Source_Validation
  imports Source_Approval Grant_Store
begin

text \<open>
  What a source approval authorizes (\<^verbatim>\<open>source_authorization_validation.py\<close>): the delegation
  lineage of an approval up to a user or platform source, the check of a root grant against its
  approval, and the check of a grant transition. The two checks that other modules provide are
  arguments: \<open>D\<close> reopens the decision of an approval (\<^verbatim>\<open>validate_source_decision_binding\<close>) and
  gives its kind, \<open>M\<close> checks a mode-activation child (\<^verbatim>\<open>validate_mode_child_source\<close>).
\<close>

subsection \<open>Delegation\<close>

definition delegated_subset :: "source_approval \<Rightarrow> source_approval \<Rightarrow> unit res" where
  "delegated_subset a p =
     (if rank_value (sa_source_rank p) \<le> rank_value (sa_source_rank a) then fail BadRank
      else if \<not> set (sa_capabilities a) \<subseteq> set (sa_capabilities p)
              \<or> \<not> set (sa_decision_classes a) \<subseteq> set (sa_decision_classes p)
              \<or> \<not> set (sa_cardinalities a) \<subseteq> set (sa_cardinalities p)
              \<or> \<not> set (sa_grant_ids a) \<subseteq> set (sa_grant_ids p)
              \<or> \<not> set (sa_request_digests a) \<subseteq> set (sa_request_digests p)
              \<or> \<not> set (sa_lineage_ids a) \<subseteq> set (sa_lineage_ids p) then fail BadScope
      else if \<not> set (sa_subjects a) \<subseteq> set (sa_subjects p)
              \<or> \<not> set (sa_operations a) \<subseteq> set (sa_operations p) then fail BadScope
      else if risk_value (sa_risk_ceiling a) > risk_value (sa_risk_ceiling p) then fail BadScope
      else if (case sa_max_uses p of None \<Rightarrow> False
               | Some pb \<Rightarrow> (case sa_max_uses a of None \<Rightarrow> True | Some ab \<Rightarrow> ab > pb)) then fail BadScope
      else if instant (sa_not_before a) < instant (sa_not_before p) then fail BadTime
      else if (case sa_expires_at p of None \<Rightarrow> False
               | Some pe \<Rightarrow> (case sa_expires_at a of None \<Rightarrow> True | Some ae \<Rightarrow> instant ae > instant pe))
      then fail BadTime
      else Inr ())"

definition approval_expired :: "datetime \<Rightarrow> source_approval \<Rightarrow> bool" where
  "approval_expired now a = (case sa_expires_at a of None \<Rightarrow> False | Some e \<Rightarrow> instant now \<ge> instant e)"

text \<open>The approval that a delegation binding names: its file, read, compared with its digest and validated\<close>

definition bound_approval :: "files \<Rightarrow> binding \<Rightarrow> source_approval res" where
  "bound_approval fs b = bindE (verify_binding fs b) load_source_approval"

lemma delegated_subset_rank:
  "delegated_subset a p = Inr () \<Longrightarrow> rank_value (sa_source_rank a) < rank_value (sa_source_rank p)"
  by (simp add: delegated_subset_def split: if_splits)

lemma rank_value_le: "rank_value r \<le> 4"
  by (cases r) simp_all

text \<open>
  The loop of \<^verbatim>\<open>validate_delegation_lineage\<close>, with the approvals and the bindings seen so far.
  It ends because the rank goes up in every round.
\<close>

function delegation_lineage ::
  "files \<Rightarrow> datetime \<Rightarrow> string list \<Rightarrow> binding list \<Rightarrow> source_approval \<Rightarrow> unit res" where
  "delegation_lineage fs now seen_approvals seen_bindings current =
     (if sa_approval_id current \<in> set seen_approvals then fail Circular
      else if instant now < instant (sa_not_before current) then fail BadTime
      else if approval_expired now current then fail ExpiredGrant
      else if sa_source_rank current \<in> {S3, S4} then Inr ()
      else case sa_delegation_binding current of
        None \<Rightarrow> fail BadBinding
      | Some b \<Rightarrow>
          if b \<in> set seen_bindings then fail Circular
          else
            bindE (bound_approval fs b) (\<lambda>parent.
            bindE (delegated_subset current parent) (\<lambda>_.
            delegation_lineage fs now (sa_approval_id current # seen_approvals) (b # seen_bindings) parent)))"
  by pat_completeness auto

termination
proof (relation "measure (\<lambda>(fs :: files, now :: datetime, ids :: string list, bs :: binding list, a).
    4 - rank_value (sa_source_rank a))")
  show "wf (measure (\<lambda>(fs :: files, now :: datetime, ids :: string list, bs :: binding list, a).
      4 - rank_value (sa_source_rank a)))" by simp
next
  fix fs now ids a and bs :: "binding list" and b p u
  assume "delegated_subset a p = Inr u"
  then have "rank_value (sa_source_rank a) < rank_value (sa_source_rank p)"
    by (intro delegated_subset_rank) simp
  then show "((fs, now, sa_approval_id a # ids, b # bs, p), fs, now, ids, bs, a)
      \<in> measure (\<lambda>(fs :: files, now :: datetime, ids :: string list, bs :: binding list, a).
        4 - rank_value (sa_source_rank a))"
    using rank_value_le [of "sa_source_rank p"] by simp
qed

definition validate_delegation_lineage :: "files \<Rightarrow> source_approval \<Rightarrow> datetime \<Rightarrow> unit res" where
  "validate_delegation_lineage fs a now = delegation_lineage fs now [] [] a"

declare delegation_lineage.simps [simp del]

subsection \<open>Grants\<close>

definition DECISION_ECHO :: string where
  "DECISION_ECHO = ''authority_root_approval_decision''"

text \<open>The use of an approval for a new grant, which historical approvals do not allow\<close>

definition check_prospective :: "(source_approval \<Rightarrow> string option res) \<Rightarrow> source_approval \<Rightarrow> unit res" where
  "check_prospective D a =
     (if sa_version a \<in> {2, 4} then fail Stale
      else bindE (D a) (\<lambda>kind. if kind = Some DECISION_ECHO then fail Stale else Inr ()))"

definition grant_within :: "source_approval \<Rightarrow> grant \<Rightarrow> unit res" where
  "grant_within a g =
     (if ''authority.grant.issue'' \<notin> set (sa_capabilities a) then fail BadScope
      else if sa_source_rank a \<noteq> g_issuer_rank g then fail BadRank
      else if g_grant_id g \<notin> set (sa_grant_ids a) then fail BadScope
      else if g_lineage_id g \<notin> set (sa_lineage_ids a) then fail BadScope
      else if \<not> set (g_capabilities g) \<subseteq> set (sa_capabilities a) then fail BadScope
      else if \<not> set (g_subjects g) \<subseteq> set (sa_subjects a) then fail BadScope
      else if \<not> set (g_operations g) \<subseteq> set (sa_operations a) then fail BadScope
      else if risk_value (g_risk_ceiling g) > risk_value (sa_risk_ceiling a) then fail BadScope
      else if \<not> set (g_decision_classes g) \<subseteq> set (sa_decision_classes a) then fail BadScope
      else if enum_name CARDINALITIES (g_cardinality g) \<notin> set (sa_cardinalities a) then fail BadCardinality
      else if (case sa_max_uses a of None \<Rightarrow> False
               | Some ab \<Rightarrow> (case g_max_uses g of None \<Rightarrow> True | Some gb \<Rightarrow> gb > ab)) then fail BadScope
      else if instant (g_not_before g) < instant (sa_not_before a) then fail BadTime
      else if instant (g_created_at g) < instant (sa_not_before a) then fail BadTime
      else if approval_expired (g_created_at g) a then fail ExpiredGrant
      else if (case sa_expires_at a of None \<Rightarrow> False
               | Some ae \<Rightarrow> (case g_expires_at g of None \<Rightarrow> True | Some ge \<Rightarrow> instant ge > instant ae))
      then fail BadTime
      else Inr ())"

text \<open>The fields of the projection that a plan-bound grant must repeat, and its lifecycle scope\<close>

definition projection_matches :: "projection \<Rightarrow> grant \<Rightarrow> bool" where
  "projection_matches p g \<longleftrightarrow>
     pj_grant_id p = g_grant_id g \<and> pj_lineage_id p = g_lineage_id g \<and>
     pj_idempotency_key p = g_idempotency_key g \<and>
     g_materialization g = Schema3 (pj_request_sha256 p) (pj_materialization_ref p) \<and>
     pj_holder_rank p = g_holder_rank g \<and> pj_capabilities p = g_capabilities g \<and>
     [pj_subject p] = g_subjects g \<and> [pj_operation p] = g_operations g \<and>
     pj_risk_ceiling p = g_risk_ceiling g \<and> pj_decision_classes p = g_decision_classes g \<and>
     pj_cardinality p = g_cardinality g \<and> Some (pj_max_uses p) = g_max_uses g \<and>
     pj_session_id p = g_session_id g \<and> pj_task_id p = g_task_id g \<and>
     pj_improvement_id p = g_improvement_id g \<and> pj_policy_snapshot p = g_policy_snapshot g"

definition root_lifecycle_scope :: "source_approval \<Rightarrow> grant \<Rightarrow> bool" where
  "root_lifecycle_scope a g \<longleftrightarrow>
     g_parent_grant_id g = None \<and> g_issuer_rank g = sa_source_rank a \<and>
     g_not_before g = sa_not_before a \<and> g_created_at g = sa_not_before a \<and>
     g_expires_at g = sa_expires_at a"

definition plan_bound :: "source_approval \<Rightarrow> grant \<Rightarrow> unit res" where
  "plan_bound a g =
     (if sa_version a \<notin> {4, 5} then Inr ()
      else if grant_version g \<noteq> 3 then fail BadContract
      else case filter (\<lambda>p. pj_grant_id p = g_grant_id g) (sa_projections a) of
        [p] \<Rightarrow> if projection_matches p g \<and> root_lifecycle_scope a g then Inr () else fail Forged
      | _ \<Rightarrow> fail Missing)"

definition validate_for_grant ::
  "files \<Rightarrow> (source_approval \<Rightarrow> string option res) \<Rightarrow> (source_approval \<Rightarrow> grant \<Rightarrow> unit res) \<Rightarrow>
   bool \<Rightarrow> source_approval \<Rightarrow> grant \<Rightarrow> unit res" where
  "validate_for_grant fs D M prospective a g =
     (if sa_version a = 6 then M a g
      else
        bindE (if prospective then check_prospective D a else Inr ()) (\<lambda>_.
        bindE (grant_within a g) (\<lambda>_.
        bindE (plan_bound a g) (\<lambda>_.
        validate_delegation_lineage fs a (g_created_at g)))))"

subsection \<open>Transitions\<close>

definition transition_delegation :: "files \<Rightarrow> source_approval \<Rightarrow> grant \<Rightarrow> datetime \<Rightarrow> unit res" where
  "transition_delegation fs a g now =
     (if rank_value (g_issuer_rank g) \<le> rank_value (sa_source_rank a) then Inr ()
      else case sa_delegation_binding a of
        None \<Rightarrow> fail BadBinding
      | Some b \<Rightarrow>
          bindE (bound_approval fs b) (\<lambda>parent.
          if rank_value (sa_source_rank parent) \<le> rank_value (sa_source_rank a) then fail BadRank
          else if ''authority.grant.transition'' \<notin> set (sa_capabilities parent)
                  \<or> g_grant_id g \<notin> set (sa_grant_ids parent)
                  \<or> g_lineage_id g \<notin> set (sa_lineage_ids parent) then fail BadScope
          else if instant now < instant (sa_not_before parent) then fail BadTime
          else if approval_expired now parent then fail ExpiredGrant
          else Inr ()))"

definition validate_for_transition ::
  "files \<Rightarrow> (source_approval \<Rightarrow> string option res) \<Rightarrow> bool \<Rightarrow> source_approval \<Rightarrow> grant \<Rightarrow> string \<Rightarrow> unit res" where
  "validate_for_transition fs D prospective a g at =
     bindE (if \<not> prospective then Inr ()
            else if sa_version a = 2 then fail Stale else bindE (D a) (\<lambda>_. Inr ())) (\<lambda>_.
     bindE (parse_time (JStr at)) (\<lambda>now.
     bindE (validate_delegation_lineage fs a now) (\<lambda>_.
     if ''authority.grant.transition'' \<notin> set (sa_capabilities a) then fail BadScope
     else if g_grant_id g \<notin> set (sa_grant_ids a) then fail BadScope
     else if g_lineage_id g \<notin> set (sa_lineage_ids a) then fail BadScope
     else if rank_value (sa_source_rank a) \<le> rank_value (g_holder_rank g) then fail BadRank
     else
       bindE (transition_delegation fs a g now) (\<lambda>_.
       if instant now < instant (sa_not_before a) then fail BadTime
       else if approval_expired now a then fail ExpiredGrant
       else Inr ()))))"

text \<open>An environment whose two approval checks are the ones above\<close>

definition with_sources ::
  "(source_approval \<Rightarrow> string option res) \<Rightarrow> (source_approval \<Rightarrow> grant \<Rightarrow> unit res) \<Rightarrow> env \<Rightarrow> env" where
  "with_sources D M E =
     E\<lparr>env_source_for_grant := (\<lambda>doc g.
         bindE (load_source_approval doc) (\<lambda>a. validate_for_grant (env_files E) D M True a g)),
       env_source_for_transition := (\<lambda>prospective doc g at.
         bindE (load_source_approval doc) (\<lambda>a. validate_for_transition (env_files E) D prospective a g at))\<rparr>"

subsection \<open>The order of approvals\<close>

text \<open>Everything an approval allows is allowed by the source it was delegated from\<close>

definition narrows :: "source_approval \<Rightarrow> source_approval \<Rightarrow> bool" where
  "narrows a p \<longleftrightarrow>
     rank_value (sa_source_rank a) \<le> rank_value (sa_source_rank p) \<and>
     set (sa_capabilities a) \<subseteq> set (sa_capabilities p) \<and>
     set (sa_decision_classes a) \<subseteq> set (sa_decision_classes p) \<and>
     set (sa_cardinalities a) \<subseteq> set (sa_cardinalities p) \<and>
     set (sa_grant_ids a) \<subseteq> set (sa_grant_ids p) \<and>
     set (sa_request_digests a) \<subseteq> set (sa_request_digests p) \<and>
     set (sa_lineage_ids a) \<subseteq> set (sa_lineage_ids p) \<and>
     set (sa_subjects a) \<subseteq> set (sa_subjects p) \<and>
     set (sa_operations a) \<subseteq> set (sa_operations p) \<and>
     risk_value (sa_risk_ceiling a) \<le> risk_value (sa_risk_ceiling p) \<and>
     bounded_by (\<le>) (sa_max_uses a) (sa_max_uses p) \<and>
     instant (sa_not_before p) \<le> instant (sa_not_before a) \<and>
     bounded_by (\<lambda>x y. instant x \<le> instant y) (sa_expires_at a) (sa_expires_at p)"

interpretation narrowing: lineage_order narrows
proof unfold_locales
  show "narrows x x" for x by (simp add: narrows_def bounded_by_refl)
next
  fix x y z assume "narrows x y" "narrows y z"
  then show "narrows x z"
    unfolding narrows_def
    by (elim conjE, intro conjI) ((rule bounded_by_trans; (assumption | simp)) | blast | simp)+
qed

lemma not_above:
  "\<not> (case p of None \<Rightarrow> False | Some y \<Rightarrow> (case a of None \<Rightarrow> True | Some x \<Rightarrow> f x > f y)) \<longleftrightarrow>
   bounded_by (\<lambda>x y. f x \<le> (f y :: 'b :: linorder)) a p"
  by (auto simp: bounded_by_def not_less split: option.splits)

lemma delegated_subset_iff:
  "delegated_subset a p = Inr () \<longleftrightarrow>
     narrows a p \<and> rank_value (sa_source_rank a) < rank_value (sa_source_rank p)"
  using not_above [where p = "sa_max_uses p" and a = "sa_max_uses a" and f = "\<lambda>n. n"]
    not_above [where p = "sa_expires_at p" and a = "sa_expires_at a" and f = instant]
  unfolding delegated_subset_def narrows_def if_raise_eq_Inr by (auto simp: not_less not_le)

subsection \<open>The delegation lineage\<close>

definition in_effect :: "datetime \<Rightarrow> source_approval \<Rightarrow> bool" where
  "in_effect now a \<longleftrightarrow> instant (sa_not_before a) \<le> instant now \<and> \<not> approval_expired now a"

definition delegates :: "files \<Rightarrow> source_approval \<Rightarrow> source_approval \<Rightarrow> bool" where
  "delegates fs a p \<longleftrightarrow>
     (\<exists>b. sa_delegation_binding a = Some b \<and> bound_approval fs b = Inr p) \<and> delegated_subset a p = Inr ()"

text \<open>
  What the loop establishes, as a chain: every approval is in effect and delegated from the next one
  by its bound file, no identifier occurs twice, and the last one comes from a user or the platform
\<close>

inductive traces :: "files \<Rightarrow> datetime \<Rightarrow> source_approval list \<Rightarrow> bool" for fs now where
  source: "in_effect now a \<Longrightarrow> sa_source_rank a \<in> {S3, S4} \<Longrightarrow> traces fs now [a]"
| delegated: "in_effect now a \<Longrightarrow> sa_source_rank a \<notin> {S3, S4} \<Longrightarrow> delegates fs a p \<Longrightarrow>
    sa_approval_id a \<notin> sa_approval_id ` set (p # xs) \<Longrightarrow> traces fs now (p # xs) \<Longrightarrow>
    traces fs now (a # p # xs)"

inductive_cases traces_ConsE: "traces fs now (a # xs)"

lemma delegates_det: "delegates fs a p \<Longrightarrow> delegates fs a q \<Longrightarrow> p = q"
  by (auto simp: delegates_def)

lemma traces_next:
  assumes "traces fs now l" and "x \<in> set l" and "sa_source_rank x \<notin> {S3, S4}"
  shows "\<exists>y \<in> set (tl l). delegates fs x y"
  using assms by (induction rule: traces.induct) (auto dest: list.set_sel(2) split: if_splits)

lemma traces_fresh: "traces fs now (a # xs) \<Longrightarrow> sa_approval_id a \<notin> sa_approval_id ` set xs"
  by (erule traces_ConsE) auto

lemma lineage_traces:
  assumes "delegation_lineage fs now ids bs a = Inr ()"
  shows "\<exists>xs. traces fs now (a # xs) \<and> sa_approval_id ` set (a # xs) \<inter> set ids = {}"
  using assms
proof (induction fs now ids bs a rule: delegation_lineage.induct)
  case (1 fs now ids bs a)
  note run = 1(2) [unfolded delegation_lineage.simps [of fs now ids bs a] if_raise_eq_Inr]
  from run have now: "in_effect now a" and new: "sa_approval_id a \<notin> set ids"
    by (simp_all add: in_effect_def not_less)
  show ?case
  proof (cases "sa_source_rank a \<in> {S3, S4}")
    case True
    with now new source show ?thesis by fastforce
  next
    case False
    with run obtain b p where b: "sa_delegation_binding a = Some b" "b \<notin> set bs"
      and p: "bound_approval fs b = Inr p" "delegated_subset a p = Inr ()"
      and rest: "delegation_lineage fs now (sa_approval_id a # ids) (b # bs) p = Inr ()"
      by (auto simp: bindE_eq_Inr split: option.splits if_splits)
    from run False have "\<not> sa_approval_id a \<in> set ids" "\<not> instant now < instant (sa_not_before a)" "\<not> approval_expired now a"
      by simp_all
    from 1(1) [OF this False b(1) _ p(1,2) rest] b(2) obtain xs where
      xs: "traces fs now (p # xs)" "sa_approval_id ` set (p # xs) \<inter> set (sa_approval_id a # ids) = {}" by blast
    have "delegates fs a p" using b p by (auto simp: delegates_def)
    with xs now False have "traces fs now (a # p # xs)" by (intro delegated) auto
    with xs(2) new show ?thesis by (intro exI [of _ "p # xs"]) auto
  qed
qed

lemma traces_lineage:
  assumes "traces fs now l" and "sa_approval_id ` set l \<inter> set ids = {}"
    and "\<And>x b. x \<in> set l \<Longrightarrow> sa_source_rank x \<notin> {S3, S4} \<Longrightarrow> sa_delegation_binding x = Some b \<Longrightarrow> b \<notin> set bs"
  shows "delegation_lineage fs now ids bs (hd l) = Inr ()"
  using assms
proof (induction arbitrary: ids bs rule: traces.induct)
  case (source a)
  then show ?case by (simp add: delegation_lineage.simps [of fs now ids bs a] in_effect_def)
next
  case (delegated a p xs)
  from delegated(3) obtain b where b: "sa_delegation_binding a = Some b" "bound_approval fs b = Inr p"
    "delegated_subset a p = Inr ()" by (auto simp: delegates_def)
  have "b' \<notin> set (b # bs)"
    if x: "x \<in> set (p # xs)" "sa_source_rank x \<notin> {S3, S4}" "sa_delegation_binding x = Some b'" for x b'
  proof -
    from traces_next [OF delegated(5) x(1,2)] obtain y where y: "y \<in> set xs" "delegates fs x y" by auto
    have "b' \<noteq> b"
    proof
      assume "b' = b"
      with y(2) x(3) b(2) have "y = p" by (auto simp: delegates_def)
      with y(1) traces_fresh [OF delegated(5)] show False by auto
    qed
    with delegated.prems(2) [of x b'] x show ?thesis by auto
  qed
  moreover have "sa_approval_id ` set (p # xs) \<inter> set (sa_approval_id a # ids) = {}"
    using delegated(4) delegated.prems(1) by auto
  ultimately have "delegation_lineage fs now (sa_approval_id a # ids) (b # bs) (hd (p # xs)) = Inr ()"
    by (intro delegated.IH)
  moreover have "b \<notin> set bs" using delegated.prems(2) [of a b] delegated(2) b(1) by simp
  ultimately show ?case using b delegated(1,2) delegated.prems(1)
    by (simp add: delegation_lineage.simps [of fs now ids bs a] in_effect_def)
qed

lemma validate_delegation_lineage_iff:
  "validate_delegation_lineage fs a now = Inr () \<longleftrightarrow> (\<exists>xs. traces fs now (a # xs))"
  using lineage_traces [of fs now "[]" "[]" a] traces_lineage [of fs now "a # xs" "[]" "[]" for xs]
  by (auto simp: validate_delegation_lineage_def)


text \<open>The chain narrows towards its head and has at most four approvals\<close>

lemma traces_successively: "traces fs now l \<Longrightarrow> successively narrows l"
  by (induction rule: traces.induct) (auto simp: delegates_def delegated_subset_iff)

lemma traces_in_effect: "traces fs now l \<Longrightarrow> x \<in> set l \<Longrightarrow> in_effect now x"
  by (induction rule: traces.induct) auto

lemma traces_last: "traces fs now l \<Longrightarrow> sa_source_rank (last l) \<in> {S3, S4}"
  by (induction rule: traces.induct) auto

lemma traces_distinct: "traces fs now l \<Longrightarrow> distinct (map sa_approval_id l)"
  by (induction rule: traces.induct) auto

lemma traces_length: "traces fs now l \<Longrightarrow> length l + rank_value (sa_source_rank (hd l)) \<le> 5"
proof (induction rule: traces.induct)
  case (source a)
  then show ?case using rank_value_le [of "sa_source_rank a"] by simp
next
  case (delegated a p xs)
  then have "rank_value (sa_source_rank a) < rank_value (sa_source_rank p)"
    by (auto simp: delegates_def intro: delegated_subset_rank)
  with delegated.IH show ?case by simp
qed

lemma traces_narrows: "traces fs now (a # xs) \<Longrightarrow> s \<in> set (a # xs) \<Longrightarrow> narrows a s"
  by (rule narrowing.chain_refl [OF traces_successively])

subsection \<open>Grants within an approval\<close>

definition covers_grant :: "source_approval \<Rightarrow> grant \<Rightarrow> bool" where
  "covers_grant a g \<longleftrightarrow>
     g_lineage_id g \<in> set (sa_lineage_ids a) \<and>
     rank_value (g_issuer_rank g) \<le> rank_value (sa_source_rank a) \<and>
     set (g_capabilities g) \<subseteq> set (sa_capabilities a) \<and>
     set (g_subjects g) \<subseteq> set (sa_subjects a) \<and>
     set (g_operations g) \<subseteq> set (sa_operations a) \<and>
     risk_value (g_risk_ceiling g) \<le> risk_value (sa_risk_ceiling a) \<and>
     set (g_decision_classes g) \<subseteq> set (sa_decision_classes a) \<and>
     bounded_by (\<le>) (g_max_uses g) (sa_max_uses a) \<and>
     instant (sa_not_before a) \<le> instant (g_not_before g) \<and>
     bounded_by (\<lambda>x y. instant x \<le> instant y) (g_expires_at g) (sa_expires_at a)"

text \<open>The fields that only the root grant repeats\<close>

definition names_grant :: "source_approval \<Rightarrow> grant \<Rightarrow> bool" where
  "names_grant a g \<longleftrightarrow>
     ''authority.grant.issue'' \<in> set (sa_capabilities a) \<and> g_grant_id g \<in> set (sa_grant_ids a) \<and>
     enum_name CARDINALITIES (g_cardinality g) \<in> set (sa_cardinalities a)"

lemma grant_within_iff:
  "grant_within a g = Inr () \<longleftrightarrow>
     covers_grant a g \<and> names_grant a g \<and> sa_source_rank a = g_issuer_rank g \<and> in_effect (g_created_at g) a"
  using not_above [where p = "sa_max_uses a" and a = "g_max_uses g" and f = "\<lambda>n. n"]
    not_above [where p = "sa_expires_at a" and a = "g_expires_at g" and f = instant]
  unfolding grant_within_def covers_grant_def names_grant_def in_effect_def if_raise_eq_Inr
  by (auto simp: not_less not_le)

lemma covers_grant_narrows: "covers_grant a g \<Longrightarrow> narrows a s \<Longrightarrow> covers_grant s g"
  unfolding covers_grant_def narrows_def
  by (elim conjE, intro conjI) ((rule bounded_by_trans; (assumption | simp)) | blast | simp)+

lemma names_grant_narrows: "names_grant a g \<Longrightarrow> narrows a s \<Longrightarrow> names_grant s g"
  by (auto simp: names_grant_def narrows_def)

lemma covers_grant_attenuates: "covers_grant s g \<Longrightarrow> attenuates c g \<Longrightarrow> covers_grant s c"
  unfolding covers_grant_def attenuates_def
  by (elim conjE, intro conjI) ((rule bounded_by_trans; (assumption | simp)) | blast | simp)+

text \<open>What the check of a root grant establishes; a mode-activation child is checked elsewhere\<close>

lemma validate_for_grant_facts:
  assumes "validate_for_grant fs D M prospective a g = Inr ()" and "sa_version a \<noteq> 6"
  shows "grant_within a g = Inr ()" and "plan_bound a g = Inr ()"
    and "validate_delegation_lineage fs a (g_created_at g) = Inr ()"
    and "prospective \<Longrightarrow> check_prospective D a = Inr ()"
  using assms by (auto simp: validate_for_grant_def bindE_eq_Inr)

lemma validate_for_grant_chain:
  assumes "validate_for_grant fs D M prospective a g = Inr ()" and "sa_version a \<noteq> 6"
  obtains xs where "traces fs (g_created_at g) (a # xs)"
    "\<And>s. s \<in> set (a # xs) \<Longrightarrow> covers_grant s g \<and> names_grant s g"
proof -
  note facts = validate_for_grant_facts [OF assms]
  from facts(3) obtain xs where xs: "traces fs (g_created_at g) (a # xs)"
    by (auto simp: validate_delegation_lineage_iff)
  show thesis
  proof (rule that [OF xs])
    fix s assume "s \<in> set (a # xs)"
    from traces_narrows [OF xs this] facts(1) show "covers_grant s g \<and> names_grant s g"
      by (auto simp: grant_within_iff intro: covers_grant_narrows names_grant_narrows)
  qed
qed

text \<open>A plan-bound grant repeats exactly one projection\<close>

lemma plan_bound_iff:
  assumes "sa_version a \<in> {4, 5}" and "distinct (map pj_grant_id (sa_projections a))"
  shows "plan_bound a g = Inr () \<longleftrightarrow>
    (\<exists>p \<in> set (sa_projections a). projection_matches p g) \<and> root_lifecycle_scope a g"
proof
  assume "plan_bound a g = Inr ()"
  with assms(1) obtain p where p: "filter (\<lambda>p. pj_grant_id p = g_grant_id g) (sa_projections a) = [p]"
    and ok: "projection_matches p g" "root_lifecycle_scope a g"
    by (auto simp: plan_bound_def split: if_splits list.splits)
  have "p \<in> set (filter (\<lambda>p. pj_grant_id p = g_grant_id g) (sa_projections a))" by (simp only: p list.set_intros)
  with ok show "(\<exists>p \<in> set (sa_projections a). projection_matches p g) \<and> root_lifecycle_scope a g" by auto
next
  assume "(\<exists>p \<in> set (sa_projections a). projection_matches p g) \<and> root_lifecycle_scope a g"
  then obtain p where p: "p \<in> set (sa_projections a)" "projection_matches p g" "root_lifecycle_scope a g" by blast
  have only: "filter (\<lambda>q. pj_grant_id q = pj_grant_id p) ps = [p]"
    if "distinct (map pj_grant_id ps)" "p \<in> set ps" for ps
    using that by (induction ps) (auto simp: filter_empty_conv rev_image_eqI)
  from p(2) have "g_grant_id g = pj_grant_id p" "grant_version g = 3"
    by (simp_all add: projection_matches_def grant_version_def)
  with only [OF assms(2) p(1)] p assms(1) show "plan_bound a g = Inr ()" by (auto simp: plan_bound_def)
qed

subsection \<open>Authorized transitions\<close>

text \<open>The approval names the grant for transitions and ranks above its holder\<close>

definition governs :: "source_approval \<Rightarrow> grant \<Rightarrow> bool" where
  "governs a g \<longleftrightarrow>
     ''authority.grant.transition'' \<in> set (sa_capabilities a) \<and> g_grant_id g \<in> set (sa_grant_ids a) \<and>
     g_lineage_id g \<in> set (sa_lineage_ids a) \<and> rank_value (g_holder_rank g) < rank_value (sa_source_rank a)"

lemma governs_narrows: "governs a g \<Longrightarrow> narrows a s \<Longrightarrow> governs s g"
  by (auto simp: governs_def narrows_def)

lemma transition_delegation_parent:
  assumes "transition_delegation fs a g now = Inr ()" and "rank_value (sa_source_rank a) < rank_value (g_issuer_rank g)"
    and "governs a g"
  obtains b p where "sa_delegation_binding a = Some b" "bound_approval fs b = Inr p" "governs p g" "in_effect now p"
    "rank_value (sa_source_rank a) < rank_value (sa_source_rank p)"
proof -
  from assms(1,2) obtain b p where b: "sa_delegation_binding a = Some b" "bound_approval fs b = Inr p"
    and p: "rank_value (sa_source_rank a) < rank_value (sa_source_rank p)"
      "''authority.grant.transition'' \<in> set (sa_capabilities p)" "g_grant_id g \<in> set (sa_grant_ids p)"
      "g_lineage_id g \<in> set (sa_lineage_ids p)" "in_effect now p"
    by (cases "sa_delegation_binding a")
       (auto simp: transition_delegation_def bindE_eq_Inr if_raise_eq_Inr in_effect_def not_less)
  with assms(3) that [OF b] show thesis by (simp add: governs_def)
qed

lemma validate_for_transition_chain:
  assumes "validate_for_transition fs D prospective a g at = Inr ()"
  obtains now xs where "parse_time (JStr at) = Inr now" "traces fs now (a # xs)"
    "\<And>s. s \<in> set (a # xs) \<Longrightarrow> governs s g" "transition_delegation fs a g now = Inr ()"
proof -
  note run = assms [unfolded validate_for_transition_def bindE_eq_Inr]
  from run obtain now where now: "parse_time (JStr at) = Inr now"
    and lin: "validate_delegation_lineage fs a now = Inr ()" and g: "governs a g"
    and del: "transition_delegation fs a g now = Inr ()"
    by (auto simp: bindE_eq_Inr if_raise_eq_Inr governs_def not_le)
  from lin obtain xs where xs: "traces fs now (a # xs)" by (auto simp: validate_delegation_lineage_iff)
  from that [OF now xs governs_narrows [OF g traces_narrows [OF xs]] del] show thesis .
qed

end
