(* ===== verification/Provenance.thy ===== *)
theory Provenance
  imports Walkthrough Source_Validation
begin

text \<open>
  Where authority comes from: runs in which every registration checks the source approval of a root
  grant as \<open>Source_Validation\<close> does. Every grant of such a run, at any depth of delegation, stays
  inside an approval of a user or of the platform that was in effect when the root of its lineage
  was created, or below a root that the mode-activation check admitted.
\<close>

subsection \<open>Governed runs\<close>

text \<open>The steps of \<open>Reach.step\<close>, with the environment of registrations fixed to the approval checks\<close>

inductive governed ::
  "(source_approval \<Rightarrow> string option res) \<Rightarrow> (source_approval \<Rightarrow> grant \<Rightarrow> unit res) \<Rightarrow> ws \<Rightarrow> bool"
  for D M where
  start: "governed D M empty_ws"
| registered: "governed D M w \<Longrightarrow> pid = None \<or> inj (env_sha256 E) \<Longrightarrow>
    register_grant (with_sources D M E) W w raw pid = (g, w') \<Longrightarrow> governed D M w'"
| completed: "governed D M w \<Longrightarrow> completes E W w w' \<Longrightarrow> governed D M w'"
| recovering: "governed D M w \<Longrightarrow> (\<And>r. q r = proj w r \<or> q r = proj (snd (recover E W w)) r) \<Longrightarrow>
    governed D M (set_proj q w)"
| applying: "governed D M w \<Longrightarrow> completes E W w w' \<Longrightarrow> recover E W w = (Inr out, w1) \<Longrightarrow>
    (\<And>r. q r = proj w1 r \<or> q r = proj w' r) \<Longrightarrow> governed D M (set_proj q w')"

lemma with_sources_fields [simp]:
  "env_files (with_sources D M E) = env_files E" "env_sha256 (with_sources D M E) = env_sha256 E"
  by (simp_all add: with_sources_def)

lemma governed_arises: "governed D M w \<Longrightarrow> arises w"
proof (induction rule: governed.induct)
  case start
  show ?case by (rule arises.start)
next
  case (registered w pid E W raw g w')
  from registered(2) have "pid = None \<or> inj (env_sha256 (with_sources D M E))" by simp
  from step.registered [OF this registered(3)] registered.IH show ?case by (rule arises.onward [rotated])
next
  case (completed w E W w')
  from step.completed [OF completed(2)] completed.IH show ?case by (rule arises.onward [rotated])
next
  case (recovering w q E W)
  from step.recovering [OF recovering(2)] recovering.IH show ?case by (rule arises.onward [rotated])
next
  case (applying w E W w' out w1 q)
  from step.applying [OF applying(2-4)] applying.IH show ?case by (rule arises.onward [rotated])
qed

subsection \<open>Backed grants\<close>

text \<open>
  A root grant is backed when the file it names as its source was, when it was registered, an accepted
  approval, and either the approval traces to a source that covers the grant or it is the approval of a
  mode-activation child that the check of that component admitted
\<close>

definition backed ::
  "(source_approval \<Rightarrow> string option res) \<Rightarrow> (source_approval \<Rightarrow> grant \<Rightarrow> unit res) \<Rightarrow> grant \<Rightarrow> bool" where
  "backed D M g \<longleftrightarrow>
     (\<exists>fs a. bound_approval fs (g_source_approval g) = Inr a \<and> validate_for_grant fs D M True a g = Inr ())"

definition all_backed ::
  "(source_approval \<Rightarrow> string option res) \<Rightarrow> (source_approval \<Rightarrow> grant \<Rightarrow> unit res) \<Rightarrow> store \<Rightarrow> bool" where
  "all_backed D M st \<longleftrightarrow>
     (\<forall>gid g sha. grant_of st gid = Some (g, sha) \<longrightarrow> g_parent_grant_id g = None \<longrightarrow> backed D M g)"

lemma check_new_grant_backed:
  assumes "verify_binding (env_files E) (g_source_approval g) = Inr src"
    and "check_new_grant (with_sources D M E) st src g = Inr ()" and "g_parent_grant_id g = None"
  shows "backed D M g"
proof -
  from assms(2,3) obtain a where a: "load_source_approval src = Inr a"
    "validate_for_grant (env_files E) D M True a g = Inr ()"
    by (auto simp: check_new_grant_def with_sources_def bindE_eq_Inr)
  with assms(1) have "bound_approval (env_files E) (g_source_approval g) = Inr a"
    by (simp add: bound_approval_def)
  with a(2) show ?thesis unfolding backed_def by blast
qed

lemma register_backed:
  assumes "register_compiled_grant (with_sources D M E) fd st raw pid = (res, st')" and "all_backed D M st"
  shows "all_backed D M st'"
  using assms(1)
proof (cases rule: register_cases)
  case unchanged
  with assms(2) show ?thesis by simp
next
  case (fresh g)
  note new = register_checked_fresh [OF fresh(2), simplified]
  have idem: "validate_grant (grant_json g) = Inr g" using new(1) by (rule validate_grant_idem)
  have "backed D M g" if "g_parent_grant_id g = None"
    using new(2) check_new_grant_backed [OF _ _ that] by blast
  with assms(2) idem show ?thesis by (simp add: all_backed_def fresh(3) grant_of_dput split: if_splits)
qed

lemma all_backed_cong: "st_grants st' = st_grants st \<Longrightarrow> all_backed D M st' \<longleftrightarrow> all_backed D M st"
  by (simp add: all_backed_def grant_of_def)

lemma governed_backed: "governed D M w \<Longrightarrow> all_backed D M (ws_store w)"
proof (induction rule: governed.induct)
  case start
  show ?case by (simp add: all_backed_def grant_of_def empty_ws_def)
next
  case (registered w pid E W raw g w')
  from registered(3) show ?case
  proof (cases rule: register_grant_cases)
    case kept
    with registered.IH show ?thesis by (simp add: all_backed_def grant_of_def)
  next
    case (ran w1)
    from registered.IH have "all_backed D M (ws_store w1)" by (simp add: all_backed_def grant_of_def ran(1))
    with ran(2) show ?thesis by (rule register_backed)
  qed
next
  case (completed w E W w')
  obtain p0 h where "ledger w p0 h" using arises_ledger [OF governed_arises [OF completed(1)]] by blast
  from completing.keeps_grants [OF this completed(2)] completed.IH show ?case by (simp cong: all_backed_cong)
next
  case (recovering w q E W)
  then show ?case by (simp add: all_backed_def grant_of_def)
next
  case (applying w E W w' out w1 q)
  obtain p0 h where "ledger w p0 h" using arises_ledger [OF governed_arises [OF applying(1)]] by blast
  from completing.keeps_grants [OF this applying(2)] applying.IH show ?case
    by (simp add: all_backed_def grant_of_def)
qed

text \<open>The walk from a stored grant to the root of its lineage\<close>

lemma lineage_root:
  assumes "wf_store st" and "grant_of st gid = Some (g, sha)"
  shows "\<exists>rid r rsha. grant_of st rid = Some (r, rsha) \<and> g_parent_grant_id r = None \<and> attenuates g r"
  using assms(2)
proof (induction "4 - rank_value (g_issuer_rank g)" arbitrary: gid g sha rule: less_induct)
  case less
  show ?case
  proof (cases "g_parent_grant_id g")
    case None
    with less.prems show ?thesis using attenuation.refl by blast
  next
    case (Some pid)
    from wf_storeD [OF assms(1) less.prems] have "link_ok st g" by blast
    with Some obtain p psha where p: "grant_of st pid = Some (p, psha)" "attenuates g p"
      "rank_value (g_issuer_rank g) < rank_value (g_issuer_rank p)"
      by (auto simp: link_ok_def split: option.splits)
    then have "4 - rank_value (g_issuer_rank p) < 4 - rank_value (g_issuer_rank g)"
      using rank_value_le [of "g_issuer_rank p"] by simp
    from less.hyps [OF this p(1)] p(2) show ?thesis by (blast intro: attenuation.trans)
  qed
qed

lemma backed_source:
  assumes "backed D M r" and "attenuates g r"
  obtains (approved) fs a xs where "bound_approval fs (g_source_approval r) = Inr a"
      "traces fs (g_created_at r) (a # xs)" "names_grant (last (a # xs)) r" "covers_grant (last (a # xs)) g"
    | (activated) fs a where "bound_approval fs (g_source_approval r) = Inr a" "sa_version a = 6" "M a r = Inr ()"
proof -
  from assms(1) obtain fs a where a: "bound_approval fs (g_source_approval r) = Inr a"
    and ok: "validate_for_grant fs D M True a r = Inr ()" unfolding backed_def by blast
  show thesis
  proof (cases "sa_version a = 6")
    case True
    with a ok activated show thesis by (simp add: validate_for_grant_def)
  next
    case False
    from validate_for_grant_chain [OF ok False] obtain xs where
      xs: "traces fs (g_created_at r) (a # xs)" "\<And>s. s \<in> set (a # xs) \<Longrightarrow> covers_grant s r \<and> names_grant s r" by blast
    have "last (a # xs) \<in> set (a # xs)" by (rule last_in_set) simp
    from xs(2) [OF this] assms(2) approved [OF a xs(1)] show thesis by (blast intro: covers_grant_attenuates)
  qed
qed

subsection \<open>Transitions\<close>

lemma transition_sourced:
  assumes "transition_grants (with_sources D M E) W w gid status ev v sa tm = (Inr te, w')"
  obtains g sha a where "grant_of (ws_store w) gid = Some (g, sha)" "bound_approval (env_files E) sa = Inr a"
    "validate_for_transition (env_files E) D True a g tm = Inr ()"
proof -
  let ?E = "with_sources D M E"
  obtain t where t: "map_of TRANSITIONS status = Some t"
    using assms by (cases "map_of TRANSITIONS status") (simp_all add: transition_grants_def)
  obtain src where src: "verify_binding (env_files E) sa = Inr src"
    using assms t by (cases "verify_binding (env_files E) sa") (simp_all add: transition_grants_def liftS_def)
  obtain out w1 where rec: "recover ?E W w = (Inr out, w1)"
    using assms t src by (cases "recover ?E W w"; cases "fst (recover ?E W w)") (simp_all add: transition_grants_def liftS_def)
  obtain g sha s where load: "load_grant ?E (ws_store w1) gid = Inr (g, sha, s)"
    using assms t src rec by (cases "load_grant ?E (ws_store w1) gid") (auto simp: transition_grants_def liftS_def)
  have check: "env_source_for_transition ?E True src g tm = Inr ()"
    using assms t src rec load by (cases "env_source_for_transition ?E True src g tm") (simp_all add: transition_grants_def liftS_def)
  then obtain a where a: "load_source_approval src = Inr a" "validate_for_transition (env_files E) D True a g tm = Inr ()"
    by (auto simp: with_sources_def bindE_eq_Inr)
  have "grant_of (ws_store w) gid = Some (g, sha)"
    using load_grant_grant_of [OF load] recover_grants [of ?E W w] rec by (simp add: grant_of_def)
  moreover have "bound_approval (env_files E) sa = Inr a" using src a(1) by (simp add: bound_approval_def)
  ultimately show thesis using a(2) by (rule that)
qed

end
