(* ===== verification/Source_Scenario.thy ===== *)
theory Source_Scenario
  imports Provenance
begin

text \<open>
  Concrete approvals: a user approval, a steward's approval delegated from it, and a root grant that
  the steward's approval authorizes; and a plan-bound approval with one projection.
\<close>

subsection \<open>Documents\<close>

definition the_operation_scope :: operation_scope where
  "the_operation_scope = \<lparr>os_operation_id = ''op'', os_operation_version = ''1'', os_skill_id = ''sk'',
     os_skill_version = ''1''\<rparr>"

definition source_caps :: "string list" where
  "source_caps = [''authority.grant.issue'', ''authority.grant.transition'', ''file.write'']"

definition approval_doc ::
  "int \<Rightarrow> string \<Rightarrow> string \<Rightarrow> string \<Rightarrow> int \<Rightarrow> json \<Rightarrow> datetime \<Rightarrow> string \<Rightarrow> string list \<Rightarrow> string list \<Rightarrow> string list \<Rightarrow> obj" where
  "approval_doc version aid kind rank uses delegation expiry trust caps ids digests =
    [(''schema_version'', JInt version), (''artifact_kind'', JStr ''authority_source_approval''),
     (''approval_id'', JStr aid), (''source_kind'', JStr kind), (''source_rank'', JStr rank),
     (''decision_type'', JStr ''grant_authority''), (''capabilities'', JList (map JStr caps)),
     (''subjects'', JList [subject_json the_subject]),
     (''operations'', JList [operation_json the_operation_scope]), (''risk_ceiling'', JStr ''R1''),
     (''decision_classes'', JList [JStr ''D2'']), (''cardinalities'', JList [JStr ''bounded_reusable'']),
     (''max_uses'', JInt uses), (''grant_ids'', JList (map JStr ids)),
     (''request_digests'', JList (map JStr digests)), (''lineage_ids'', JList [JStr ''lin'']),
     (''delegation_binding'', delegation), (''not_before'', JStr (isoformat (day 1))),
     (''expires_at'', JStr (isoformat expiry)), (''evidence_id'', JStr ''ev''),
     (''decision_binding'', binding_json (file_b ''result.json'')), (''decision_trust_class'', JStr trust)]"

definition approval_of ::
  "int \<Rightarrow> string \<Rightarrow> string \<Rightarrow> source_rank \<Rightarrow> int \<Rightarrow> binding option \<Rightarrow> datetime \<Rightarrow> string \<Rightarrow> string list \<Rightarrow> string list \<Rightarrow>
   string list \<Rightarrow> source_approval" where
  "approval_of version aid kind rank uses delegation expiry trust caps ids digests =
    \<lparr>sa_version = version, sa_approval_id = aid, sa_source_kind = kind, sa_source_rank = rank,
     sa_capabilities = caps, sa_subjects = [the_subject], sa_operations = [the_operation_scope],
     sa_risk_ceiling = R1, sa_decision_classes = [''D2''], sa_cardinalities = [''bounded_reusable''],
     sa_max_uses = Some uses, sa_grant_ids = ids, sa_request_digests = digests, sa_lineage_ids = [''lin''],
     sa_delegation_binding = delegation, sa_not_before = day 1, sa_expires_at = Some expiry,
     sa_evidence_id = ''ev'', sa_decision = Some (file_b ''result.json'', trust), sa_projections = [],
     sa_activation = None\<rparr>"

definition user_doc :: obj where
  "user_doc = approval_doc 3 ''user'' ''explicit_user_instruction'' ''S3'' 3 JNull (day 20)
     ''caller_asserted_exact_echo'' source_caps [''solo''] []"

definition user_approval :: source_approval where
  "user_approval = approval_of 3 ''user'' ''explicit_user_instruction'' S3 3 None (day 20)
     ''caller_asserted_exact_echo'' source_caps [''solo''] []"

definition steward_doc :: obj where
  "steward_doc = approval_doc 3 ''steward'' ''delegated_policy_steward'' ''S2'' 2 (binding_json (file_b ''user.json''))
     (day 10) ''caller_asserted_exact_echo'' source_caps [''solo''] []"

definition steward_approval :: source_approval where
  "steward_approval = approval_of 3 ''steward'' ''delegated_policy_steward'' S2 2 (Some (file_b ''user.json''))
     (day 10) ''caller_asserted_exact_echo'' source_caps [''solo''] []"

lemma scope_fields:
  "unique_strings (JList [JStr ''D2'']) = Inr [''D2'']"
  "unique_strings (JList [JStr ''bounded_reusable'']) = Inr [''bounded_reusable'']"
  "unique_strings (JList [JStr ''lin'']) = Inr [''lin'']"
  "unique_strings (JList (map JStr [''solo''])) = Inr [''solo'']"
  "unique_strings (JList (map JStr source_caps)) = Inr source_caps"
  "digests_field (JList (map JStr [])) = Inr []"
  "validate_subject (subject_json the_subject) = Inr the_subject"
  "exact_operations (JList [operation_json the_operation_scope]) = Inr [the_operation_scope]"
  "exact_binding (binding_json (file_b ''result.json'')) = Inr (file_b ''result.json'')"
  "exact_binding (binding_json (file_b ''user.json'')) = Inr (file_b ''user.json'')"
  "enum_str (JStr ''R1'') RISK_TIERS = Inr R1"
  by code_simp+

lemma approval_doc_fields:
  "jat (approval_doc n i k r u del x t c g q) ''schema_version'' = JInt n"
  "jat (approval_doc n i k r u del x t c g q) ''artifact_kind'' = JStr ''authority_source_approval''"
  "jat (approval_doc n i k r u del x t c g q) ''approval_id'' = JStr i"
  "jat (approval_doc n i k r u del x t c g q) ''source_kind'' = JStr k"
  "jat (approval_doc n i k r u del x t c g q) ''source_rank'' = JStr r"
  "jat (approval_doc n i k r u del x t c g q) ''decision_type'' = JStr ''grant_authority''"
  "jat (approval_doc n i k r u del x t c g q) ''capabilities'' = JList (map JStr c)"
  "jat (approval_doc n i k r u del x t c g q) ''subjects'' = JList [subject_json the_subject]"
  "jat (approval_doc n i k r u del x t c g q) ''operations'' = JList [operation_json the_operation_scope]"
  "jat (approval_doc n i k r u del x t c g q) ''risk_ceiling'' = JStr ''R1''"
  "jat (approval_doc n i k r u del x t c g q) ''decision_classes'' = JList [JStr ''D2'']"
  "jat (approval_doc n i k r u del x t c g q) ''cardinalities'' = JList [JStr ''bounded_reusable'']"
  "jat (approval_doc n i k r u del x t c g q) ''max_uses'' = JInt u"
  "jat (approval_doc n i k r u del x t c g q) ''grant_ids'' = JList (map JStr g)"
  "jat (approval_doc n i k r u del x t c g q) ''request_digests'' = JList (map JStr q)"
  "jat (approval_doc n i k r u del x t c g q) ''lineage_ids'' = JList [JStr ''lin'']"
  "jat (approval_doc n i k r u del x t c g q) ''delegation_binding'' = del"
  "jat (approval_doc n i k r u del x t c g q) ''not_before'' = JStr (isoformat (day 1))"
  "jat (approval_doc n i k r u del x t c g q) ''expires_at'' = JStr (isoformat x)"
  "jat (approval_doc n i k r u del x t c g q) ''evidence_id'' = JStr ''ev''"
  "jat (approval_doc n i k r u del x t c g q) ''decision_binding'' = binding_json (file_b ''result.json'')"
  "jat (approval_doc n i k r u del x t c g q) ''decision_trust_class'' = JStr t"
  by (simp_all add: approval_doc_def)

lemma approval_doc_keys: "jkeys (approval_doc n i k r u del x t c g q) = APPROVAL_V3_KEYS"
  by (simp add: jkeys_def approval_doc_def APPROVAL_V3_KEYS_def APPROVAL_BASE_KEYS_def)

lemma exact_keys_same: "jkeys d = ks \<Longrightarrow> exact_keys d ks = Inr ()"
  by (simp add: exact_keys_def list_all_iff)

lemma optional_day: "1 \<le> n \<Longrightarrow> n \<le> 31 \<Longrightarrow> optional_time (JStr (isoformat (day n))) = Inr (Some (day n))"
  by (simp add: optional_time_def day_time) (simp add: isoformat_def)

lemma approval_doc_base:
  assumes "map_of SOURCE_KINDS k = Some rank" and "r = enum_name SOURCE_RANKS rank" and "n \<noteq> 2"
    and "t \<in> set DECISION_TRUST_CLASSES" and "1 \<le> u" and "1 \<le> m" "m \<le> 31"
    and "unique_strings (JList (map JStr c)) = Inr c" and "unique_strings (JList (map JStr g)) = Inr g"
    and "digests_field (JList (map JStr q)) = Inr q"
    and "delegation_binding (rank \<in> {S1, S2}) del = Inr b"
    and d: "\<And>x. x \<noteq> ''grant_projections'' \<Longrightarrow> jat d x = jat (approval_doc n i k r u del (day m) t c g q) x"
  shows "approval_base d n = Inr (approval_of n i k rank u b (day m) t c g q)"
proof -
  have "source_kind_rank d = Inr (k, rank)"
    using assms(1,2) by (simp add: source_kind_rank_def d approval_doc_fields)
  moreover have "decision_fields d = Inr (Some (file_b ''result.json'', t))"
    using assms(3,4) scope_fields(9) by (simp add: decision_fields_def d approval_doc_fields delegation_binding_def binding_json_def)
  moreover have "max_uses_field (JInt u) = Inr (Some u)" using assms(5) by (simp add: max_uses_field_def)
  moreover have "parse_time (JStr (isoformat (day 1))) = Inr (day 1)" by (simp add: day_time)
  moreover note optional_day [OF assms(6,7)] assms(8-11) scope_fields
  ultimately show ?thesis
    by (simp add: approval_base_def d approval_doc_fields nonempty_list_field_def approval_of_def DECISION_CLASSES_def CARDINALITIES_def)
qed

lemma approval_doc_ok:
  assumes "approval_base (approval_doc 3 i k r u del x t c g q) 3 = Inr a" and "sa_version a = 3"
  shows "load_source_approval (Some (JObj (approval_doc 3 i k r u del x t c g q))) = Inr a"
  using assms exact_keys_same [OF approval_doc_keys]
  by (simp add: load_source_approval_def validate_source_approval_def approval_doc_fields approval_keys_def approval_plan_def)

lemma user_ok: "load_source_approval (Some (JObj user_doc)) = Inr user_approval"
proof -
  have "approval_base user_doc 3 = Inr user_approval"
    unfolding user_doc_def user_approval_def
    by (rule approval_doc_base)
       (simp_all add: SOURCE_KINDS_def scope_fields [simplified] delegation_binding_def DECISION_TRUST_CLASSES_def, code_simp+)
  then show ?thesis unfolding user_doc_def by (rule approval_doc_ok) (simp add: user_approval_def approval_of_def)
qed

lemma steward_ok: "load_source_approval (Some (JObj steward_doc)) = Inr steward_approval"
proof -
  have "approval_base steward_doc 3 = Inr steward_approval"
    unfolding steward_doc_def steward_approval_def
    by (rule approval_doc_base)
       (simp_all add: SOURCE_KINDS_def scope_fields [simplified] delegation_binding_def DECISION_TRUST_CLASSES_def, code_simp+)
  then show ?thesis unfolding steward_doc_def by (rule approval_doc_ok) (simp add: steward_approval_def approval_of_def)
qed

subsection \<open>A governed registration\<close>

definition source_files :: files where
  "source_files = the_files(''approval.json'' := File sha_a (Some (JObj steward_doc)),
     ''user.json'' := File sha_a (Some (JObj user_doc)))"

definition decision0 :: "source_approval \<Rightarrow> string option res" where
  "decision0 a = Inr (Some ''authority_recovery_user_decision'')"

definition mode0 :: "source_approval \<Rightarrow> grant \<Rightarrow> unit res" where
  "mode0 a g = fail Missing"

definition env2 :: env where
  "env2 = env1\<lparr>env_files := source_files\<rparr>"

definition env3 :: env where
  "env3 = with_sources decision0 mode0 env2"

lemma source_bindings:
  "verify_binding source_files (file_b ''approval.json'') = Inr (Some (JObj steward_doc))"
  "verify_binding source_files (file_b ''user.json'') = Inr (Some (JObj user_doc))"
  "verify_binding source_files (file_b ''policy.json'') = Inr (Some (JObj []))"
  by (simp_all add: verify_binding_def read_file_def file_b_def source_files_def the_files_def strip_no_space starts_with_def
      is_space_def code_def)

lemma source_bound:
  "bound_approval source_files (file_b ''approval.json'') = Inr steward_approval"
  "bound_approval source_files (file_b ''user.json'') = Inr user_approval"
  by (simp_all add: bound_approval_def source_bindings steward_ok user_ok)

lemmas approval_facts = user_approval_def steward_approval_def approval_of_def

lemma steward_delegated: "delegates source_files steward_approval user_approval"
proof -
  have "narrows steward_approval user_approval"
    by (simp add: narrows_def approval_facts bounded_by_def instant_day)
  then show ?thesis using source_bound(2) by (simp add: delegates_def delegated_subset_iff approval_facts)
qed

lemma sources_in_effect:
  assumes "1 \<le> n" and "n < 10"
  shows "in_effect (day n) steward_approval" and "in_effect (day n) user_approval"
  using assms by (simp_all add: in_effect_def approval_expired_def approval_facts instant_day)

lemma steward_traces:
  assumes "1 \<le> n" and "n < 10"
  shows "traces source_files (day n) [steward_approval, user_approval]"
proof (rule traces.delegated [OF sources_in_effect(1) [OF assms] _ steward_delegated])
  show "traces source_files (day n) [user_approval]"
    by (rule traces.source [OF sources_in_effect(2) [OF assms]]) (simp add: approval_facts)
qed (simp_all add: approval_facts)

lemma steward_covers_solo: "grant_within steward_approval solo = Inr ()"
  using sources_in_effect(1) [of 1]
  by (simp add: grant_within_iff covers_grant_def names_grant_def approval_facts source_caps_def solo_def the_child_def
      the_root_def bounded_by_def instant_day the_operation_scope_def) code_simp

lemma solo_authorized: "validate_for_grant source_files decision0 mode0 True steward_approval solo = Inr ()"
proof -
  have "validate_delegation_lineage source_files steward_approval (day 1) = Inr ()"
    using steward_traces [of 1] by (auto simp: validate_delegation_lineage_iff)
  then show ?thesis
    using steward_covers_solo
    by (simp add: validate_for_grant_def check_prospective_def plan_bound_def decision0_def solo_fields DECISION_ECHO_def
        approval_facts)
qed

lemma env3_fields [simp]: "env_files env3 = source_files" "env_sha256 env3 = (\<lambda>_. sha_a)" "env_receipts env3 = (\<lambda>_. None)"
  by (simp_all add: env3_def env2_def env1_def with_sources_def the_env_def)

lemma digest3 [simp]: "env_digest env3 v = sha_a" "file_digest env3 d = sha_a"
  by (simp_all add: env_digest_def object_sha256_def file_digest_def)

lemma solo_governed: "register_grant env3 owner1 empty_ws (grant_json solo) None = (Inr (solo, sha_a, solo_state), ws1)"
proof -
  have "env_source_for_grant env3 (Some (JObj steward_doc)) solo = Inr ()"
    by (simp add: env3_def with_sources_def steward_ok env2_def solo_authorized)
  then have checked: "register_checked env3 (ws_store empty_ws) (grant_json solo) None = Inr (solo, None)"
    by (simp add: register_checked_def solo_ok solo_fields source_bindings empty_ws_def state_of_def check_new_grant_def)
  have "recover env3 owner1 empty_ws = (Inr [], empty_ws)" by (rule recover_no_intents [OF empty_intents])
  then show ?thesis
    using checked
    by (simp add: register_grant_def liftS_def solo_ok solo_fields source_bindings register_compiled_grant_def Let_def
        ws1_def solo_store_def p1_def solo_state_def) (simp add: empty_ws_def)
qed

lemma ws1_governed: "governed decision0 mode0 ws1"
  by (rule governed.registered [OF governed.start disjI1 [OF refl] solo_governed [unfolded env3_def]])

subsection \<open>A governed transition\<close>

lemma steward_governs: "governs steward_approval solo"
  by (simp add: governs_def approval_facts source_caps_def solo_def the_child_def the_root_def)

lemma suspension_authorized:
  "validate_for_transition source_files decision0 True steward_approval solo (isoformat (day 5)) = Inr ()"
proof -
  have "validate_delegation_lineage source_files steward_approval (day 5) = Inr ()"
    using steward_traces [of 5] by (auto simp: validate_delegation_lineage_iff)
  moreover have "transition_delegation source_files steward_approval solo (day 5) = Inr ()"
    by (simp add: transition_delegation_def approval_facts solo_def the_child_def)
  ultimately show ?thesis
    using steward_governs sources_in_effect(1) [of 5]
    by (simp add: validate_for_transition_def day_time governs_def in_effect_def decision0_def)
       (simp add: approval_facts)
qed

definition suspended_state :: gstate where
  "suspended_state = transition_gstate ''event'' (transition_status To_suspended) solo_state"

definition suspension :: transition_event where
  "suspension = \<lparr>te_event_id = ''event'', te_root_grant_id = ''solo'', te_transition = To_suspended,
     te_source_approval = file_b ''approval.json'', te_transitioned_at = isoformat (day 5),
     te_affected_before = [(''solo'', Active, 0)], te_affected_grant_ids = [''solo''],
     te_state_changes = [\<lparr>ch_ref = Grant_ref ''solo'', ch_before = Some (GS solo_state), ch_after = GS suspended_state\<rparr>]\<rparr>"

lemma ws1_recover: "recover env3 owner1 ws1 = (Inr [], ws1)"
proof (rule recover_no_intents)
  show "validate_intents env3 owner1 ws1 True = Inr ()" "intents_of ws1 = []"
    using empty_intents
    by (simp_all add: validate_intents_def ws1_def empty_ws_def entries_def intents_of_def reservation_intents_def
      use_intents_def release_intents_def reconciliation_intents_def event_intents_def)
qed

lemma solo_suspended_governed:
  "\<exists>w. transition_grants env3 owner1 ws1 ''solo'' ''suspended'' ''event'' 0 (file_b ''approval.json'') (isoformat (day 5)) =
     (Inr suspension, w)"
proof -
  have store: "ws_store ws1 = solo_store p1" "ws_events ws1 = []" by (simp_all add: ws1_def empty_ws_def)
  have load: "load_grant env3 (solo_store p1) ''solo'' = Inr (solo, sha_a, solo_state)"
    by (simp add: load_grant_def solo_store_def state_of_def solo_ok effective_root_grant_state_def solo_fields p1_def
        solo_state_fields)
  have make: "make_transition env3 ws1 solo_state ''solo'' To_suspended ''event'' 0 (file_b ''approval.json'') (isoformat (day 5))
      = Inr suspension"
    by (simp add: make_transition_def transition_change_def solo_state_fields store load suspension_def suspended_state_def
      transition_source_ok_def terminal_transition_def)
  have source: "env_source_for_transition env3 True (Some (JObj steward_doc)) solo (isoformat (day 5)) = Inr ()"
    by (simp add: env3_def with_sources_def steward_ok env2_def suspension_authorized)
  obtain w where "publish_transition suspension ws1 = (Inr suspension, w)"
  proof
    have "proj ws1 (Grant_ref ''solo'') = Some (GS solo_state)" by (simp add: proj_def store p1_def)
    then show "publish_transition suspension ws1 = (Inr suspension, snd (publish_transition suspension ws1))"
      by (simp add: publish_transition_def commit_def suspension_def Let_def apply_projection_changes_def proj_def)
  qed
  then show ?thesis
    by (simp add: transition_grants_def TRANSITIONS_def liftS_def source_bindings ws1_recover load store day_time source make)
qed

subsection \<open>A plan-bound grant\<close>

definition plan_projection_doc :: json where
  "plan_projection_doc = JObj
    [(''grant_id'', JStr ''plan''), (''lineage_id'', JStr ''lin''), (''grant_idempotency_key'', JStr ''k''),
     (''request_sha256'', JStr sha_b), (''holder_rank'', JStr ''S2''), (''capabilities'', JList [JStr ''file.write'']),
     (''subjects'', JList [subject_json the_subject]), (''operations'', JList [operation_json the_operation_scope]),
     (''risk_ceiling'', JStr ''R1''), (''decision_classes'', JList [JStr ''D2'']),
     (''cardinality'', JStr ''bounded_reusable''), (''max_uses'', JInt 2), (''session_id'', JNull),
     (''task_id'', JNull), (''improvement_id'', JNull), (''policy_snapshot'', binding_json (file_b ''policy.json'')),
     (''root_materialization_ref'', JStr ''.task/authorization/root_grant_materializations/x/receipt.json'')]"

definition plan_projection :: projection where
  "plan_projection =
    \<lparr>pj_grant_id = ''plan'', pj_lineage_id = ''lin'', pj_idempotency_key = ''k'', pj_request_sha256 = sha_b,
     pj_holder_rank = S2, pj_capabilities = [''file.write''], pj_subject = the_subject,
     pj_operation = the_operation_scope, pj_risk_ceiling = R1, pj_decision_classes = [''D2''],
     pj_cardinality = Bounded_reusable, pj_max_uses = 2, pj_session_id = None, pj_task_id = None,
     pj_improvement_id = None, pj_policy_snapshot = file_b ''policy.json'',
     pj_materialization_ref = ''.task/authorization/root_grant_materializations/x/receipt.json''\<rparr>"

definition plan_caps :: "string list" where
  "plan_caps = [''authority.grant.issue'', ''file.write'']"

definition plan_doc :: obj where
  "plan_doc = approval_doc 5 ''plan'' ''explicit_user_instruction'' ''S3'' 2 JNull (day 20)
     ''host_user_signed_exact_plan'' plan_caps [''plan''] [sha_b] @ [(''grant_projections'', JList [plan_projection_doc])]"

definition plan_approval :: source_approval where
  "plan_approval = approval_of 5 ''plan'' ''explicit_user_instruction'' S3 2 None (day 20)
     ''host_user_signed_exact_plan'' plan_caps [''plan''] [sha_b]\<lparr>sa_projections := [plan_projection]\<rparr>"

definition plan_grant :: grant where
  "plan_grant = the_root\<lparr>g_grant_id := ''plan'', g_risk_ceiling := R1, g_max_uses := Some 2,
     g_materialization := Schema3 sha_b ''.task/authorization/root_grant_materializations/x/receipt.json''\<rparr>"

lemma plan_projection_ok: "root_grant_projections (JList [plan_projection_doc]) = Inr [plan_projection]"
  by code_simp

lemma plan_doc_jat:
  "k \<noteq> ''grant_projections'' \<Longrightarrow> jat plan_doc k = jat (approval_doc 5 ''plan'' ''explicit_user_instruction'' ''S3'' 2 JNull
     (day 20) ''host_user_signed_exact_plan'' plan_caps [''plan''] [sha_b]) k"
  by (simp add: plan_doc_def jat_def map_add_def split: option.split)

lemma plan_doc_base:
  "approval_base plan_doc 5 = Inr (approval_of 5 ''plan'' ''explicit_user_instruction'' S3 2 None (day 20)
     ''host_user_signed_exact_plan'' plan_caps [''plan''] [sha_b])"
  by (rule approval_doc_base [OF _ _ _ _ _ _ _ _ _ _ _ plan_doc_jat])
     (simp_all add: SOURCE_KINDS_def delegation_binding_def DECISION_TRUST_CLASSES_def, code_simp+)

lemma plan_covered: "projection_coverage (approval_of 5 ''plan'' ''explicit_user_instruction'' S3 2 None (day 20)
     ''host_user_signed_exact_plan'' plan_caps [''plan''] [sha_b]) [plan_projection]"
  by code_simp

lemma plan_ok: "load_source_approval (Some (JObj plan_doc)) = Inr plan_approval"
proof -
  have "jkeys plan_doc = APPROVAL_V4_KEYS"
    using approval_doc_keys by (simp add: plan_doc_def jkeys_def APPROVAL_V4_KEYS_def)
  then have keys: "exact_keys plan_doc APPROVAL_V4_KEYS = Inr ()" by (rule exact_keys_same)
  have fields: "jat plan_doc ''schema_version'' = JInt 5" "jat plan_doc ''artifact_kind'' = JStr ''authority_source_approval''"
    by (simp_all add: plan_doc_jat approval_doc_fields)
  have ps: "jat plan_doc ''grant_projections'' = JList [plan_projection_doc]"
    by (simp add: plan_doc_def approval_doc_def)
  have "approval_plan plan_doc (approval_of 5 ''plan'' ''explicit_user_instruction'' S3 2 None (day 20)
     ''host_user_signed_exact_plan'' plan_caps [''plan''] [sha_b]) = Inr plan_approval"
    using plan_covered by (simp add: approval_plan_def ps plan_projection_ok plan_approval_def approval_of_def plan_trust_class_def)
  then show ?thesis
    using keys plan_doc_base by (simp add: load_source_approval_def validate_source_approval_def fields approval_keys_def)
qed

lemma plan_authorized: "validate_for_grant source_files decision0 mode0 True plan_approval plan_grant = Inr ()"
proof -
  have "in_effect (day 1) plan_approval"
    by (simp add: in_effect_def approval_expired_def plan_approval_def approval_of_def instant_day)
  moreover from this have "traces source_files (day 1) [plan_approval]"
    by (rule traces.source) (simp add: plan_approval_def approval_of_def)
  then have "validate_delegation_lineage source_files plan_approval (day 1) = Inr ()"
    by (auto simp: validate_delegation_lineage_iff)
  moreover have "enum_name CARDINALITIES Bounded_reusable = ''bounded_reusable''" by code_simp
  ultimately have "grant_within plan_approval plan_grant = Inr ()"
    by (simp add: grant_within_iff covers_grant_def names_grant_def plan_approval_def approval_of_def plan_caps_def
        plan_grant_def the_root_def bounded_by_def instant_day the_operation_scope_def)
  moreover have "plan_bound plan_approval plan_grant = Inr ()"
    by (simp add: plan_bound_def plan_approval_def approval_of_def plan_grant_def the_root_def plan_projection_def
        grant_version_def projection_matches_def root_lifecycle_scope_def the_operation_scope_def)
  moreover have "g_created_at plan_grant = day 1" "sa_version plan_approval = 5"
    by (simp_all add: plan_grant_def the_root_def plan_approval_def approval_of_def)
  ultimately show ?thesis using \<open>validate_delegation_lineage source_files plan_approval (day 1) = Inr ()\<close>
    by (simp add: validate_for_grant_def check_prospective_def decision0_def DECISION_ECHO_def)
qed

end
