(* ===== verification/Effect_Lease.thy ===== *)
theory Effect_Lease
  imports Acceptance
begin

text \<open>
  Effect leases (\<^verbatim>\<open>effect_lease.py\<close>): the proof that an owner takes before its first effect. Acquiring
  one recovers, checks that the reservation is in its expected state, that its decision is for the
  operation and the subject, and that the pre-commit verification describes the current state, and
  publishes the lease. Closing it checks that the state file is still the one of the verification. The
  owner's effect between the two is not part of the model; the authority lock that spans it is, as
  everywhere, the sequence of the operations. Arguments are typed, so that \<^verbatim>\<open>_binding\<close> is left with
  the digest; references are plain, without \<^verbatim>\<open>..\<close>.
\<close>

subsection \<open>Leases\<close>

record effect_lease =
  el_operation :: string
  el_subject :: subject
  el_reservation :: binding
  el_state_ref :: string
  el_state_sha256 :: string
  el_state_version :: int
  el_state_status :: reservation_status
  el_pre_commit_verification :: binding
  el_acquired_at :: datetime

type_synonym effect_leases = "(string \<times> effect_lease \<times> string) dir"

definition effect_lease_core :: "effect_lease \<Rightarrow> obj" where
  "effect_lease_core x =
    [(''schema_version'', JInt 1), (''artifact_kind'', JStr ''authority_effect_lease''),
     (''operation'', JStr (el_operation x)), (''subject'', subject_json (el_subject x)),
     (''reservation'', binding_json (el_reservation x)),
     (''reservation_state'', JObj
        [(''ref'', JStr (el_state_ref x)), (''sha256'', JStr (el_state_sha256 x)),
         (''version'', JInt (el_state_version x)),
         (''status'', JStr (enum_name RESERVATION_STATUSES (el_state_status x)))]),
     (''pre_commit_verification'', binding_json (el_pre_commit_verification x)),
     (''acquired_at'', JStr (isoformat (el_acquired_at x)))]"

definition effect_lease_id :: "(json \<Rightarrow> string) \<Rightarrow> effect_lease \<Rightarrow> string" where
  "effect_lease_id H x = ''authe-'' @ take 24 (H (JObj (effect_lease_core x)))"

definition lease_request :: "env \<Rightarrow> ws \<Rightarrow> reservation \<Rightarrow> string \<Rightarrow> subject \<Rightarrow> unit res" where
  "lease_request E w rv operation subj =
     bindE (load_bound_decision E w (b_ref (rv_decision rv)) (b_sha256 (rv_decision rv))) (\<lambda>(_, _, a).
     if rq_operation_id (da_request a) \<noteq> operation \<or> rq_subject (da_request a) \<noteq> subj then fail BadBinding
     else Inr ())"

definition validate_effect_lease ::
  "env \<Rightarrow> effect_leases \<Rightarrow> binding \<Rightarrow> string \<Rightarrow> subject \<Rightarrow> binding \<Rightarrow> binding \<Rightarrow> effect_lease res" where
  "validate_effect_lease E leases b operation subj rb vb =
     (if \<not> is_sha (b_sha256 b) then fail BadBinding
      else case List.find (\<lambda>e. artifact_ref ''effect_leases'' (fst e) = b_ref b) leases of
        None \<Rightarrow> fail BadPath
      | Some (k, lid, x, sha) \<Rightarrow>
          if sha \<noteq> b_sha256 b then fail DigestMismatch
          else if el_operation x \<noteq> operation \<or> el_subject x \<noteq> subj \<or> el_reservation x \<noteq> rb
                  \<or> el_pre_commit_verification x \<noteq> vb \<or> k \<noteq> lid then fail BadContract
          else if lid \<noteq> effect_lease_id (env_digest E) x then fail Forged
          else Inr x)"

text \<open>The first half of \<^verbatim>\<open>acquire_effect_lease\<close>, up to the \<^verbatim>\<open>yield\<close>; the state of the reservation is named by its identifier\<close>

definition acquire_effect_lease ::
  "env \<Rightarrow> owner \<Rightarrow> ws \<Rightarrow> effect_leases \<Rightarrow> string \<Rightarrow> subject \<Rightarrow> binding \<Rightarrow> binding \<Rightarrow> int
   \<Rightarrow> (binding \<times> string \<times> effect_lease \<times> effect_leases) op" where
  "acquire_effect_lease E W w leases operation subj rb vb expected_version =
     (if \<not> is_sha (b_sha256 rb) \<or> \<not> is_sha (b_sha256 vb) then (fail BadBinding, w)
      else
      bindS (recover E W w) (\<lambda>_ w.
      bindS (liftS (load_reservation E w (b_ref rb) (b_sha256 rb)) w) (\<lambda>(k, rv, s) w.
      if artifact_ref ''reservations'' k \<noteq> b_ref rb then (fail BadPath, w)
      else if rs_status s \<noteq> Rs_reserved \<or> rs_version s \<noteq> expected_version then (fail CasConflict, w)
      else
      bindS (liftS (lease_request E w rv operation subj) w) (\<lambda>_ w.
      bindS (liftS (validate_pre_commit_verification E w rv rb vb expected_version True) w) (\<lambda>v w.
      let x = \<lparr>el_operation = operation, el_subject = subj, el_reservation = rb, el_state_ref = vf_state_ref v,
               el_state_sha256 = vf_state_sha256 v, el_state_version = vf_state_version v,
               el_state_status = vf_state_status v, el_pre_commit_verification = vb,
               el_acquired_at = vf_verified_at v\<rparr>;
          lid = effect_lease_id (env_digest E) x;
          sha = file_digest E ((''lease_id'', JStr lid) # effect_lease_core x);
          b = \<lparr>b_ref = artifact_ref ''effect_leases'' lid, b_sha256 = sha\<rparr> in
      bindS (liftS (publish_immutable lid (lid, x, sha) leases) w) (\<lambda>leases w.
      bindS (liftS (validate_effect_lease E leases b operation subj rb vb) w) (\<lambda>_ w.
      (Inr (b, rv_reservation_id rv, x, leases), w))))))))"

text \<open>The check after the \<^verbatim>\<open>yield\<close>\<close>

definition close_effect_lease :: "env \<Rightarrow> ws \<Rightarrow> string \<Rightarrow> effect_lease \<Rightarrow> unit res" where
  "close_effect_lease E w rid x =
     (case rstate_of w rid of
        None \<Rightarrow> fail Missing
      | Some s \<Rightarrow> if file_digest E (rstate_json s) \<noteq> el_state_sha256 x then fail Stale else Inr ())"

subsection \<open>What a lease proves\<close>

lemma find_name: "List.find (\<lambda>e. fst e = j) d = map_option (\<lambda>v. (j, v)) (map_of d j)"
  by (induction d) auto

lemma find_published:
  assumes "publish_immutable k e d = Inr d'"
  shows "List.find (\<lambda>e. fst e = k) d' = Some (k, e)"
    and "List.find (\<lambda>e. fst e = j) d = Some y \<Longrightarrow> List.find (\<lambda>e. fst e = j) d' = Some y"
  using assms by (auto simp: find_name publish_immutable_def split: option.splits if_splits)

lemma bindS_Inr: "bindS m f = (Inr y, w') \<longleftrightarrow> (\<exists>x w0. m = (Inr x, w0) \<and> f x w0 = (Inr y, w'))"
  by (cases m; cases "fst m") auto

lemma liftS_Inr: "liftS r w = (Inr x, w0) \<longleftrightarrow> r = Inr x \<and> w0 = w"
  by (auto simp: liftS_def)

lemma reservation_decision:
  assumes "validate_reservation E w k rv = Inr ()"
    and "load_bound_decision E w (b_ref (rv_decision rv)) (b_sha256 (rv_decision rv)) = Inr (dk, did, a)"
  shows "k = rv_reservation_id rv" and "da_decision a = Allowed"
proof -
  from assms(1) obtain dk' did' a' bs where bound: "bound_decision w (rv_decision rv) = Inr (dk', did', a')"
    and ok: "validate_reserved_decision E (ws_store w) dk' did' a' = Inr bs" and k: "k = rv_reservation_id rv"
    by (auto simp: validate_reservation_def Let_def result_simps split: prod.splits if_splits)
  from bound assms(2) have "a' = a"
    by (auto simp: bound_decision_def load_bound_decision_def result_simps split: prod.splits if_splits)
  with ok show "da_decision a = Allowed" by (auto simp: validate_reserved_decision_def result_simps split: if_splits)
  show "k = rv_reservation_id rv" by (rule k)
qed

lemma acquired_lease:
  assumes "acquire_effect_lease E W w leases operation subj rb vb n = (Inr (b, rid, x, leases'), w1)"
  obtains out :: "string list" and rv :: reservation and s dk did a and v :: verification where
    "recover E W w = (Inr out, w1)" "load_reservation E w1 (b_ref rb) (b_sha256 rb) = Inr (rid, rv, s)"
    "rid = rv_reservation_id rv" "rstate_of w1 rid = Some s" "rs_status s = Rs_reserved" "rs_version s = n"
    "load_bound_decision E w1 (b_ref (rv_decision rv)) (b_sha256 (rv_decision rv)) = Inr (dk, did, a)"
    "da_decision a = Allowed" "rq_operation_id (da_request a) = operation" "rq_subject (da_request a) = subj"
    "validate_pre_commit_verification E w1 rv rb vb n True = Inr v"
    "file_digest E (rstate_json s) = el_state_sha256 x"
    "validate_effect_lease E leases' b operation subj rb vb = Inr x"
    "publish_immutable (effect_lease_id (env_digest E) x) (effect_lease_id (env_digest E) x, x,
       file_digest E ((''lease_id'', JStr (effect_lease_id (env_digest E) x)) # effect_lease_core x)) leases = Inr leases'"
    "is_sha (b_sha256 rb)" "is_sha (b_sha256 vb)" "artifact_ref ''reservations'' rid = b_ref rb"
    "x = \<lparr>el_operation = operation, el_subject = subj, el_reservation = rb, el_state_ref = vf_state_ref v,
       el_state_sha256 = vf_state_sha256 v, el_state_version = vf_state_version v, el_state_status = vf_state_status v,
       el_pre_commit_verification = vb, el_acquired_at = vf_verified_at v\<rparr>"
    "b = \<lparr>b_ref = artifact_ref ''effect_leases'' (effect_lease_id (env_digest E) x), b_sha256 =
       file_digest E ((''lease_id'', JStr (effect_lease_id (env_digest E) x)) # effect_lease_core x)\<rparr>"
proof -
  from assms obtain out k rv s v where
    refs: "is_sha (b_sha256 rb)" "is_sha (b_sha256 vb)" "artifact_ref ''reservations'' k = b_ref rb" and
    parts: "recover E W w = (Inr out, w1)" "load_reservation E w1 (b_ref rb) (b_sha256 rb) = Inr (k, rv, s)"
      "rs_status s = Rs_reserved" "rs_version s = n" "lease_request E w1 rv operation subj = Inr ()"
      "validate_pre_commit_verification E w1 rv rb vb n True = Inr v" "rid = rv_reservation_id rv"
    and x: "x = \<lparr>el_operation = operation, el_subject = subj, el_reservation = rb, el_state_ref = vf_state_ref v,
               el_state_sha256 = vf_state_sha256 v, el_state_version = vf_state_version v,
               el_state_status = vf_state_status v, el_pre_commit_verification = vb,
               el_acquired_at = vf_verified_at v\<rparr>"
    and b: "b = \<lparr>b_ref = artifact_ref ''effect_leases'' (effect_lease_id (env_digest E) x), b_sha256 =
        file_digest E ((''lease_id'', JStr (effect_lease_id (env_digest E) x)) # effect_lease_core x)\<rparr>"
    and pub: "publish_immutable (effect_lease_id (env_digest E) x) (effect_lease_id (env_digest E) x, x, b_sha256 b) leases = Inr leases'"
    and val: "\<exists>y. validate_effect_lease E leases' b operation subj rb vb = Inr y"
    by (auto simp: acquire_effect_lease_def bindS_Inr liftS_Inr Let_def split: if_splits)
  from parts(2) have ok: "validate_reservation E w1 k rv = Inr ()" and st: "rstate_of w1 rid = Some s"
    by (auto simp: load_reservation_def result_simps parts(7) split: prod.splits if_splits option.splits)
  from parts(5) obtain dk did a where
    dec: "load_bound_decision E w1 (b_ref (rv_decision rv)) (b_sha256 (rv_decision rv)) = Inr (dk, did, a)"
      "rq_operation_id (da_request a) = operation" "rq_subject (da_request a) = subj"
    by (auto simp: lease_request_def result_simps split: prod.splits if_splits)
  from parts(6) st have sha: "file_digest E (rstate_json s) = vf_state_sha256 v"
    by (auto simp: validate_pre_commit_verification_def Let_def result_simps parts(7) split: prod.splits if_splits)
  from val find_published(1) [OF pub] have "validate_effect_lease E leases' b operation subj rb vb = Inr x"
    by (auto simp: validate_effect_lease_def b split: if_splits)
  then show thesis
    using parts dec sha st pub refs reservation_decision [OF ok dec(1)] by (intro that) (simp_all add: x b)
qed


text \<open>A recovered workspace arises, with nothing left to recover\<close>

lemma recovered_at_rest:
  assumes "arises w" and "recover E W w = (Inr out, w1)"
  shows "at_rest w1" and "logical w1 = logical w"
proof -
  have w1: "w1 = set_proj (logical w) w" by (rule arises_recover(1) [OF assms])
  obtain p0 h where l: "ledger w p0 h" using arises_ledger [OF assms(1)] by blast
  have "step w (set_proj (logical w) w)" using assms(2) w1 by (intro step.recovering [where E = E and W = W]) auto
  with assms(1) w1 have "arises w1" by (auto intro: arises.onward)
  moreover show same: "logical w1 = logical w"
    unfolding w1 using ledger_logical [OF l] by (intro recovered_ledger(2) [OF l]) auto
  ultimately show "at_rest w1" by (simp add: at_rest_def w1)
qed

text \<open>A state that is reserved at the end of a run was reserved all along\<close>

lemma reserved_before:
  assumes "arises w" and "step\<^sup>*\<^sup>* w w'" and "status_at (logical w') rid = Some Rs_reserved"
    and "logical w (Reservation_ref rid) = Some (RS s)"
  shows "status_at (logical w) rid = Some Rs_reserved"
proof -
  from steps_later [OF assms(2,1,4)] obtain v where v: "logical w' (Reservation_ref rid) = Some v" "later (RS s) v" by blast
  with assms(3) have "rs_status s = Rs_reserved" by (cases v) (auto simp: status_at_def)
  with assms(4) show ?thesis by (simp add: status_at_def)
qed

lemma closed_lease_reserved:
  assumes "arises w" and "rstate_of w rid = Some s" and "rs_status s = Rs_reserved" and "proj w = logical w"
    and "step\<^sup>*\<^sup>* w w'" and "step\<^sup>*\<^sup>* w' w2" and "proj w2 = logical w2"
    and "close_effect_lease E w2 rid x = Inr ()" and "file_digest E (rstate_json s) = el_state_sha256 x"
  shows "(\<exists>s'. s' \<noteq> s \<and> file_digest E (rstate_json s') = file_digest E (rstate_json s)) \<or>
    status_at (logical w') rid = Some Rs_reserved"
proof -
  from assms(8) obtain s2 where s2: "rstate_of w2 rid = Some s2" "file_digest E (rstate_json s2) = el_state_sha256 x"
    by (auto simp: close_effect_lease_def split: option.splits if_splits)
  have l: "logical w (Reservation_ref rid) = Some (RS s)"
    using assms(2,4) by (auto simp: rstate_of_def split: option.splits pstate.splits)
  from steps_later [OF assms(5,1) l] obtain v where v: "logical w' (Reservation_ref rid) = Some v" "later (RS s) v" by blast
  then obtain s' where s': "logical w' (Reservation_ref rid) = Some (RS s')" by (cases v) auto
  show ?thesis
  proof (cases "s2 = s")
    case True
    with s2(1) assms(3,7) have "status_at (logical w2) rid = Some Rs_reserved"
      by (auto simp: rstate_of_def status_at_def split: option.splits pstate.splits)
    with reserved_before [OF steps_arise [OF assms(5,1)] assms(6) _ s'] show ?thesis by blast
  next
    case False
    with s2(2) assms(9) show ?thesis by metis
  qed
qed

text \<open>A lease stays valid when others are published, and acquiring it again gives the same\<close>

lemma lease_stays:
  assumes "validate_effect_lease E leases b operation subj rb vb = Inr x" and "publish_immutable k e leases = Inr leases'"
  shows "validate_effect_lease E leases' b operation subj rb vb = Inr x"
proof -
  from assms(1) obtain y where y: "List.find (\<lambda>e. artifact_ref ''effect_leases'' (fst e) = b_ref b) leases = Some y"
    by (auto simp: validate_effect_lease_def split: if_splits option.splits)
  then have "b_ref b = artifact_ref ''effect_leases'' (fst y)" by (auto simp: find_Some_iff)
  with find_published(2) [OF assms(2)] y have "List.find (\<lambda>e. artifact_ref ''effect_leases'' (fst e) = b_ref b) leases' = Some y"
    by simp
  with assms(1) y show ?thesis by (cases "is_sha (b_sha256 b)") (simp_all add: validate_effect_lease_def)
qed

lemma acquire_again:
  assumes "at_rest w" and "acquire_effect_lease E W w leases operation subj rb vb n = (Inr (b, rid, x, leases'), w1)"
  shows "w1 = w" and "acquire_effect_lease E W w leases' operation subj rb vb n = (Inr (b, rid, x, leases'), w)"
proof -
  from assms(2) obtain out :: "string list" and rv :: reservation and s dk did a and v :: verification where
    parts: "recover E W w = (Inr out, w1)" "load_reservation E w1 (b_ref rb) (b_sha256 rb) = Inr (rid, rv, s)"
      "rid = rv_reservation_id rv" "rs_status s = Rs_reserved" "rs_version s = n"
      "load_bound_decision E w1 (b_ref (rv_decision rv)) (b_sha256 (rv_decision rv)) = Inr (dk, did, a)"
      "rq_operation_id (da_request a) = operation" "rq_subject (da_request a) = subj"
      "validate_pre_commit_verification E w1 rv rb vb n True = Inr v"
      "validate_effect_lease E leases' b operation subj rb vb = Inr x"
      "is_sha (b_sha256 rb)" "is_sha (b_sha256 vb)" "artifact_ref ''reservations'' rid = b_ref rb"
    and pub: "publish_immutable (effect_lease_id (env_digest E) x) (effect_lease_id (env_digest E) x, x,
       file_digest E ((''lease_id'', JStr (effect_lease_id (env_digest E) x)) # effect_lease_core x)) leases = Inr leases'"
    and x: "x = \<lparr>el_operation = operation, el_subject = subj, el_reservation = rb, el_state_ref = vf_state_ref v,
       el_state_sha256 = vf_state_sha256 v, el_state_version = vf_state_version v, el_state_status = vf_state_status v,
       el_pre_commit_verification = vb, el_acquired_at = vf_verified_at v\<rparr>"
    and b: "b = \<lparr>b_ref = artifact_ref ''effect_leases'' (effect_lease_id (env_digest E) x), b_sha256 =
       file_digest E ((''lease_id'', JStr (effect_lease_id (env_digest E) x)) # effect_lease_core x)\<rparr>"
    by (rule acquired_lease)
  have "w1 = set_proj (logical w) w" using assms(1) parts(1) by (intro arises_recover(1)) (simp_all add: at_rest_def)
  with assms(1) show w1: "w1 = w" by (metis at_rest_def at_own_proj(2))
  have "publish_immutable (effect_lease_id (env_digest E) x) (effect_lease_id (env_digest E) x, x,
       file_digest E ((''lease_id'', JStr (effect_lease_id (env_digest E) x)) # effect_lease_core x)) leases' = Inr leases'"
    using find_published(1) [OF pub] by (auto simp: publish_immutable_def find_name)
  with parts show "acquire_effect_lease E W w leases' operation subj rb vb n = (Inr (b, rid, x, leases'), w)"
    unfolding acquire_effect_lease_def w1 Let_def
    by (simp add: liftS_def lease_request_def flip: x b)
qed

lemma lease_holds:
  assumes "arises w" and "acquire_effect_lease E W w leases operation subj rb vb n = (Inr (b, rid, x, leases'), w1)"
  obtains rv s dk did a where "map_of (ws_reservations w1) rid = Some (rv, b_sha256 rb)" "at_rest w1"
    "rstate_of w1 rid = Some s" "rs_status s = Rs_reserved" "rs_version s = n"
    "load_bound_decision E w1 (b_ref (rv_decision rv)) (b_sha256 (rv_decision rv)) = Inr (dk, did, a)"
    "da_decision a = Allowed" "rq_operation_id (da_request a) = operation" "rq_subject (da_request a) = subj"
    "\<forall>u \<in> set (rv_grant_uses rv). gu_units u \<le> fst (account w1 (gu_grant_id u))"
    "validate_effect_lease E leases' b operation subj rb vb = Inr x" "file_digest E (rstate_json s) = el_state_sha256 x"
proof -
  from assms(2) obtain out :: "string list" and rv :: reservation and s dk did a where
    parts: "recover E W w = (Inr out, w1)" "load_reservation E w1 (b_ref rb) (b_sha256 rb) = Inr (rid, rv, s)"
    "rstate_of w1 rid = Some s" "rs_status s = Rs_reserved" "rs_version s = n"
    "load_bound_decision E w1 (b_ref (rv_decision rv)) (b_sha256 (rv_decision rv)) = Inr (dk, did, a)"
    "da_decision a = Allowed" "rq_operation_id (da_request a) = operation" "rq_subject (da_request a) = subj"
    "validate_effect_lease E leases' b operation subj rb vb = Inr x" "file_digest E (rstate_json s) = el_state_sha256 x"
    by (rule acquired_lease)
  note rest = recovered_at_rest(1) [OF assms(1) parts(1)]
  then have ar: "arises w1" and p: "proj w1 = logical w1" by (simp_all add: at_rest_def)
  note books = arises_books [OF ar]
  from parts(2) have "find_ref ''reservations'' (ws_reservations w1) (b_ref rb) = Inr (rid, rv, b_sha256 rb)"
    by (auto simp: load_reservation_def result_simps split: prod.splits if_splits option.splits)
  then have stored: "(rid, rv, b_sha256 rb) \<in> set (ws_reservations w1)"
    by (auto simp: find_ref_def find_Some_iff in_set_conv_nth split: option.splits)
  then have at: "map_of (ws_reservations w1) rid = Some (rv, b_sha256 rb)" using books by (simp add: books_def)
  have "open_weight (status_at (logical w1) rid) = 1"
    using parts(3,4) by (auto simp: rstate_of_def p status_at_def open_weight_def split: option.splits pstate.splits)
  from held_ge [OF books stored _ this] have "\<forall>u \<in> set (rv_grant_uses rv). gu_units u \<le> fst (account w1 (gu_grant_id u))"
    by (simp add: account_def)
  with at rest parts show thesis by (intro that)
qed

end
