(* ===== verification/Lease_Scenario.thy ===== *)
theory Lease_Scenario
  imports Walkthrough Effect_Lease
begin

text \<open>A concrete effect lease: the owner of the reservation of the walk-through takes it before its effect.\<close>

definition el1 :: effect_lease where
  "el1 = \<lparr>el_operation = rq_operation_id the_request, el_subject = rq_subject the_request, el_reservation = reservation_b,
     el_state_ref = state_ref (Reservation_ref (id1 ''authz-'')), el_state_sha256 = sha_a, el_state_version = 0,
     el_state_status = Rs_reserved, el_pre_commit_verification = verification_b, el_acquired_at = day 6\<rparr>"

definition effect_lease_b :: binding where
  "effect_lease_b = \<lparr>b_ref = artifact_ref ''effect_leases'' (id1 ''authe-''), b_sha256 = sha_a\<rparr>"

lemma lease_acquired:
  "acquire_effect_lease env1 owner1 ws5 [] (rq_operation_id the_request) (rq_subject the_request) reservation_b verification_b 0 =
     (Inr (effect_lease_b, id1 ''authz-'', el1, [(id1 ''authe-'', id1 ''authe-'', el1, sha_a)]), ws5)"
proof -
  obtain out where rec: "recover env1 owner1 ws5 = (Inr out, ws5)" using ws5_recover by blast
  have load: "load_reservation env1 ws5 (b_ref reservation_b) sha_a = Inr (id1 ''authz-'', rv1, reserved1)"
    by (rule rv1_load [where p = p3]) (simp_all add: ws5_fields p3_at)
  have id: "effect_lease_id (env_digest env1) x = id1 ''authe-''" for x by (simp add: effect_lease_id_def id1_def)
  have sha: "is_sha sha_a" by code_simp
  have "lease_request env1 ws5 rv1 (rq_operation_id the_request) (rq_subject the_request) = Inr ()"
    using dec1_load [of ws5] by (simp add: lease_request_def rv1_fields decision_b_def dec1_fields ws5_fields)
  then show ?thesis
    using vf1_accepted load
    by (simp add: acquire_effect_lease_def rec id sha liftS_def reserved1_fields reservation_b_def verification_b_def
        publish_immutable_def validate_effect_lease_def Let_def rv1_fields vf1_def effect_lease_b_def el1_def)
qed

end
