(* ===== verification/Composition.thy ===== *)
theory Composition
  imports Acceptance Source_Approval
begin

text \<open>
  Creating grant compositions (\<^verbatim>\<open>composition.py\<close>): a composition receipt lets an evaluation use several
  grants for one request. It is made under a source approval that names the request and every grant,
  while the grants are active, and is published as an immutable file, which the evaluator reads again
  (\<open>load_bound_composition\<close>). The capability object that only internal producers hold has no counterpart;
  composition identifiers are plain file names.
\<close>

text \<open>The normalized document, in the order of its keys\<close>

definition composition_json :: "composition \<Rightarrow> obj" where
  "composition_json c =
    [(''artifact_kind'', JStr ''authority_grant_composition''), (''composition_id'', JStr (cp_composition_id c)),
     (''created_at'', JStr (isoformat (cp_created_at c))), (''grant_ids'', JList (map JStr (cp_grant_ids c))),
     (''idempotency_key'', JStr (cp_idempotency_key c)), (''request_sha256'', JStr (cp_request_sha256 c)),
     (''schema_version'', JInt 2),
     (''source_approval'', JObj [(''ref'', JStr (b_ref (cp_source_approval c))), (''sha256'', JStr (b_sha256 (cp_source_approval c)))])]"

definition composition_entry :: "env \<Rightarrow> composition \<Rightarrow> file_entry" where
  "composition_entry E c = File (file_digest E (composition_json c)) (Some (JObj (composition_json c)))"

definition composition_binding :: "env \<Rightarrow> composition \<Rightarrow> binding" where
  "composition_binding E c =
     \<lparr>b_ref = artifact_ref ''compositions'' (cp_composition_id c), b_sha256 = file_digest E (composition_json c)\<rparr>"

text \<open>\<^verbatim>\<open>create_composition\<close>: only the exact replay of a stored composition\<close>

definition create_composition :: "files \<Rightarrow> obj \<Rightarrow> (composition \<times> binding) res" where
  "create_composition fs raw =
     bindE (validate_composition raw) (\<lambda>c.
     let ref = artifact_ref ''compositions'' (cp_composition_id c) in
     case fs ref of
       File sha (Some (JObj d)) \<Rightarrow>
         bindE (validate_composition d) (\<lambda>existing.
         if existing \<noteq> c then fail Conflict else Inr (existing, \<lparr>b_ref = ref, b_sha256 = sha\<rparr>))
     | File sha _ \<Rightarrow> fail NotAnObject
     | _ \<Rightarrow> fail Missing)"

text \<open>\<^verbatim>\<open>write_immutable_json\<close> among the files of the workspace\<close>

definition publish_composition :: "env \<Rightarrow> files \<Rightarrow> composition \<Rightarrow> files res" where
  "publish_composition E fs c =
     (let ref = artifact_ref ''compositions'' (cp_composition_id c) in
      case fs ref of
        Unsafe \<Rightarrow> fail EscapesBoundary
      | Absent \<Rightarrow> Inr (fs(ref := composition_entry E c))
      | File sha d \<Rightarrow> if fs ref = composition_entry E c then Inr fs else fail Conflict)"

definition composable :: "env \<Rightarrow> store \<Rightarrow> source_approval \<Rightarrow> string \<Rightarrow> unit res" where
  "composable E st a gid =
     bindE (load_grant E st gid) (\<lambda>(g, _, s).
     if gs_status s \<noteq> Active then fail NotActive
     else if rank_value (sa_source_rank a) < rank_value (g_issuer_rank g) then fail BadRank
     else Inr ())"

definition create_compiled_composition :: "env \<Rightarrow> store \<Rightarrow> obj \<Rightarrow> (composition \<times> binding \<times> files) res" where
  "create_compiled_composition E st raw =
     bindE (validate_composition raw) (\<lambda>c.
     bindE (verify_binding (env_files E) (cp_source_approval c)) (\<lambda>doc.
     bindE (load_source_approval doc) (\<lambda>a.
     if ''authority.grant.compose'' \<notin> set (sa_capabilities a) then fail BadScope
     else if rank_value (sa_source_rank a) < rank_value S3 then fail BadRank
     else if cp_request_sha256 c \<notin> set (sa_request_digests a) then fail BadScope
     else if \<not> set (cp_grant_ids c) \<subseteq> set (sa_grant_ids a) then fail BadScope
     else if instant (cp_created_at c) < instant (sa_not_before a) then fail Stale
     else if (case sa_expires_at a of None \<Rightarrow> False | Some e \<Rightarrow> instant e \<le> instant (cp_created_at c)) then fail Stale
     else
     bindE (mapE (composable E st a) (cp_grant_ids c)) (\<lambda>_.
     bindE (publish_composition E (env_files E) c) (\<lambda>fs.
     Inr (c, composition_binding E c, fs))))))"

subsection \<open>Normal form\<close>

lemma composition_ids_again:
  assumes "composition_ids v = Inr ids"
  shows "composition_ids (JList (map JStr ids)) = Inr ids"
proof -
  have str: "map py_str (map JStr ids) = ids" by (induction ids) simp_all
  from assms obtain xs where "v = JList xs" by (cases v) (auto simp: composition_ids_def)
  with assms have xs: "2 \<le> length xs" "ids = sort_uniq (map py_str xs)" "map JStr ids = xs"
    by (auto simp: composition_ids_def Let_def split: if_splits)
  have "length ids = length xs" using xs(3) by auto
  with xs have "2 \<le> length ids" "sorted ids" "distinct ids" by auto
  then show ?thesis by (simp add: composition_ids_def str sort_uniq_idem Let_def del: map_map)
qed

lemma validate_composition_facts:
  assumes "validate_composition d = Inr c"
  obtains v w where "composition_ids v = Inr (cp_grant_ids c)" "parse_time w = Inr (cp_created_at c)"
  using assms by (cases "jat d ''source_approval''") (auto simp: validate_composition_def result_simps split: if_splits)

lemma composition_again:
  assumes "validate_composition d = Inr c"
  shows "validate_composition (composition_json c) = Inr c"
proof -
  obtain v w where v: "composition_ids v = Inr (cp_grant_ids c)" and w: "parse_time w = Inr (cp_created_at c)"
    using assms by (rule validate_composition_facts)
  have keys: "exact_keys (composition_json c) COMPOSITION_KEYS = Inr ()"
    by (simp add: exact_keys_def composition_json_def COMPOSITION_KEYS_def jkeys_def)
  show ?thesis
    using composition_ids_again [OF v] parse_time_again [OF w]
    by (simp add: validate_composition_def keys) (simp add: composition_json_def BINDING_KEYS_def jkeys_def)
qed

interpretation composition_norm: normalizer validate_composition composition_json
  by unfold_locales (rule composition_again)

subsection \<open>A created composition is read back\<close>

lemma published_composition:
  assumes "publish_composition E fs c = Inr fs'"
  shows "fs' (artifact_ref ''compositions'' (cp_composition_id c)) = composition_entry E c"
    and "fs r \<noteq> Absent \<Longrightarrow> fs' r = fs r"
  using assms by (auto simp: publish_composition_def Let_def split: file_entry.splits if_splits)

lemma verify_binding_mono:
  assumes "verify_binding fs b = Inr doc" and "\<And>r. fs r \<noteq> Absent \<Longrightarrow> fs' r = fs r"
  shows "verify_binding fs' b = Inr doc"
  using assms(1) assms(2) [of "strip (b_ref b)"]
  by (auto simp: verify_binding_def read_file_def result_simps split: if_splits file_entry.splits)

lemma created_composition:
  assumes "create_compiled_composition E st raw = Inr (c, b, fs')"
  obtains doc a where "validate_composition raw = Inr c" "verify_binding (env_files E) (cp_source_approval c) = Inr doc"
    "load_source_approval doc = Inr a" "''authority.grant.compose'' \<in> set (sa_capabilities a)"
    "cp_request_sha256 c \<in> set (sa_request_digests a)" "set (cp_grant_ids c) \<subseteq> set (sa_grant_ids a)"
    "\<forall>gid \<in> set (cp_grant_ids c). composable E st a gid = Inr ()" "b = composition_binding E c"
    "publish_composition E (env_files E) c = Inr fs'"
proof -
  from assms obtain doc a xs where
    parts: "validate_composition raw = Inr c" "verify_binding (env_files E) (cp_source_approval c) = Inr doc"
      "load_source_approval doc = Inr a" "''authority.grant.compose'' \<in> set (sa_capabilities a)"
      "cp_request_sha256 c \<in> set (sa_request_digests a)" "set (cp_grant_ids c) \<subseteq> set (sa_grant_ids a)"
      "mapE (composable E st a) (cp_grant_ids c) = Inr xs" "b = composition_binding E c"
      "publish_composition E (env_files E) c = Inr fs'"
    by (auto simp: create_compiled_composition_def result_simps split: if_splits)
  have "composable E st a gid = Inr ()" if "gid \<in> set (cp_grant_ids c)" for gid
    using parts(7) that by (auto simp: mapE_eq_Inr list_all2_conv_all_nth in_set_conv_nth)
  with parts show thesis by (intro that) blast+
qed

lemma composition_file:
  assumes "fs (artifact_ref ''compositions'' (cp_composition_id c)) = composition_entry E c"
  shows "verify_binding fs (composition_binding E c) = Inr (Some (JObj (composition_json c)))"
  using assms strip_artifact_ref [of "''compositions''" "cp_composition_id c"]
  by (simp add: verify_binding_def read_file_def composition_binding_def composition_entry_def)
     (simp add: artifact_ref_def starts_with_def)

lemma composition_loads:
  assumes "create_compiled_composition E st raw = Inr (c, b, fs')"
  shows "load_bound_composition fs' b (cp_request_sha256 c) = Inr c"
    and "create_composition fs' (composition_json c) = Inr (c, b)"
proof -
  from assms obtain doc where
    parts: "validate_composition raw = Inr c" "verify_binding (env_files E) (cp_source_approval c) = Inr doc"
      "b = composition_binding E c" "publish_composition E (env_files E) c = Inr fs'"
    by (rule created_composition)
  note again = composition_again [OF parts(1)] and pub = published_composition [OF parts(4)]
  have "verify_binding fs' (cp_source_approval c) = Inr doc" using parts(2) pub(2) by (rule verify_binding_mono)
  with composition_file [of fs' c E, OF pub(1)] again show "load_bound_composition fs' b (cp_request_sha256 c) = Inr c"
    by (simp add: load_bound_composition_def parts(3))
  show "create_composition fs' (composition_json c) = Inr (c, b)"
    by (simp add: create_composition_def again pub(1) composition_entry_def parts(3) composition_binding_def)
qed

end
