(* ===== verification/Utc_Time.thy ===== *)
theory Utc_Time
  imports Datetime
begin

text \<open>
  Times in UTC, as \<^verbatim>\<open>_time\<close> of \<^verbatim>\<open>session_lease.py\<close> normalizes them:
  \<^verbatim>\<open>astimezone(timezone.utc)\<close>, and \<^verbatim>\<open>isoformat()\<close> with \<^verbatim>\<open>Z\<close> for the zone. The instant that a time
  denotes does not change.
\<close>

subsection \<open>The day before and after\<close>

fun next_day :: "nat \<times> nat \<times> nat \<Rightarrow> nat \<times> nat \<times> nat" where
  "next_day (y, m, d) =
     (if d < days_in_month y m then (y, m, d + 1) else if m < 12 then (y, m + 1, 1) else (y + 1, 1, 1))"

fun prev_day :: "nat \<times> nat \<times> nat \<Rightarrow> nat \<times> nat \<times> nat" where
  "prev_day (y, m, d) =
     (if 1 < d then (y, m, d - 1) else if 1 < m then (y, m - 1, days_in_month y (m - 1)) else (y - 1, 12, 31))"

definition valid_date :: "nat \<times> nat \<times> nat \<Rightarrow> bool" where
  "valid_date = (\<lambda>(y, m, d). 1 \<le> m \<and> m \<le> 12 \<and> 1 \<le> d \<and> d \<le> days_in_month y m)"

definition ordinal3 :: "nat \<times> nat \<times> nat \<Rightarrow> int" where
  "ordinal3 = (\<lambda>(y, m, d). ordinal y m d)"

lemma days_before_month:
  assumes "1 \<le> m"
  shows "sum_list (map (days_in_month y) [1..<m + 1]) = sum_list (map (days_in_month y) [1..<m]) + days_in_month y m"
  using assms by simp

lemma ordinal_new_month: "1 \<le> m \<Longrightarrow> ordinal y (m + 1) 1 = ordinal y m (days_in_month y m) + 1"
  by (simp add: ordinal_def)

lemma year_days: "sum_list (map (days_in_month y) [1..<12]) = (if is_leap y then 335 else 334)"
  by (simp add: upt_rec days_in_month_def)

lemma leap_step:
  fixes y :: int
  shows "y div 4 - y div 100 + y div 400 =
    (y - 1) div 4 - (y - 1) div 100 + (y - 1) div 400 + (if y mod 4 = 0 \<and> (y mod 100 \<noteq> 0 \<or> y mod 400 = 0) then 1 else 0)"
proof -
  have step: "y div k = (y - 1) div k + (if y mod k = 0 then 1 else 0)" if "1 < k" for k :: int
  proof (cases "y mod k = 0")
    case True
    then obtain q where q: "y = q * k" by (auto simp: mod_eq_0_iff_dvd dvd_def mult.commute)
    have "(q * k - 1) div k = q - 1" using that by (intro int_div_pos_eq [where r = "k - 1"]) (auto simp: algebra_simps)
    with q that show ?thesis by simp
  next
    case False
    have m: "0 \<le> y mod k" "y mod k < k" using that by simp_all
    have "(y - 1) div k = y div k"
      using False m by (intro int_div_pos_eq [where r = "y mod k - 1"])
        (auto simp: algebra_simps div_mult_mod_eq minus_div_mult_eq_mod [symmetric])
    with False show ?thesis by simp
  qed
  have count: "a4 - a100 + a400 = b4 - b100 + b400 + (if A \<and> (\<not> B \<or> C) then 1 else 0)"
    if "a4 = b4 + (if A then 1 else 0)" "a100 = b100 + (if B then 1 else 0)" "a400 = b400 + (if C then 1 else 0)"
      "B \<Longrightarrow> A" "C \<Longrightarrow> B" for a4 a100 a400 b4 b100 b400 :: int and A B C
    using that by (cases A; cases B; cases C) simp_all
  have dvd: "y mod 100 = 0 \<Longrightarrow> y mod 4 = 0" "y mod 400 = 0 \<Longrightarrow> y mod 100 = 0" by presburger+
  show ?thesis by (rule count [OF step step step]) (simp | rule dvd, assumption)+
qed

lemma ordinal_new_year: "ordinal (y + 1) 1 1 = ordinal y 12 31 + 1"
proof -
  have leap: "is_leap y \<longleftrightarrow> int y mod 4 = 0 \<and> (int y mod 100 \<noteq> 0 \<or> int y mod 400 = 0)"
  proof -
    have "int y mod k = 0 \<longleftrightarrow> y mod nat k = 0" if "0 < k" for k
      using that zmod_int [of y "nat k"] by (metis int_nat_eq less_imp_le of_nat_eq_0_iff)
    from this [of 4] this [of 100] this [of 400] show ?thesis by (simp add: is_leap_def)
  qed
  define a where "a = int y div 4 - int y div 100 + int y div 400"
  define b where "b = (int y - 1) div 4 - (int y - 1) div 100 + (int y - 1) div 400"
  have "a = b + (if is_leap y then 1 else 0)" unfolding a_def b_def leap by (rule leap_step)
  moreover have "ordinal y 12 31 = (int y - 1) * 365 + b + (if is_leap y then 366 else 365)"
    unfolding ordinal_def year_days Let_def b_def by simp
  moreover have "ordinal (y + 1) 1 1 = int y * 365 + a + 1" unfolding ordinal_def Let_def a_def by simp
  ultimately show ?thesis by simp
qed

lemma next_day_ordinal: "valid_date x \<Longrightarrow> valid_date (next_day x) \<and> ordinal3 (next_day x) = ordinal3 x + 1"
proof (cases x)
  case (fields y m d)
  assume v: "valid_date x"
  show ?thesis
  proof (cases "d < days_in_month y m")
    case True
    with v fields show ?thesis by (simp add: valid_date_def ordinal3_def ordinal_def)
  next
    case False
    with v fields have d: "d = days_in_month y m" by (simp add: valid_date_def)
    show ?thesis
    proof (cases "m < 12")
      case True
      with v fields d ordinal_new_month [of m y] show ?thesis
        by (simp add: valid_date_def ordinal3_def days_in_month_def)
    next
      case m: False
      with v fields have "m = 12" by (simp add: valid_date_def)
      with v fields d ordinal_new_year [of y] show ?thesis
        by (simp add: valid_date_def ordinal3_def days_in_month_def)
    qed
  qed
qed

lemma prev_day_ordinal:
  assumes "valid_date x" and "1 \<le> fst x"
  shows "valid_date (prev_day x) \<and> ordinal3 (prev_day x) = ordinal3 x - 1"
proof (cases x)
  case (fields y m d)
  show ?thesis
  proof (cases "1 < d")
    case True
    with assms fields show ?thesis by (auto simp: valid_date_def ordinal3_def ordinal_def of_nat_diff)
  next
    case False
    with assms fields have d: "d = 1" by (simp add: valid_date_def)
    show ?thesis
    proof (cases "1 < m")
      case True
      with assms fields d ordinal_new_month [of "m - 1" y] show ?thesis
        by (auto simp: valid_date_def ordinal3_def days_in_month_def)
    next
      case m: False
      with assms fields have "m = 1" by (simp add: valid_date_def)
      with assms fields d ordinal_new_year [of "y - 1"] show ?thesis
        by (simp add: valid_date_def ordinal3_def days_in_month_def)
    qed
  qed
qed

subsection \<open>Conversion to UTC\<close>

definition civil_micros :: "datetime \<Rightarrow> int" where
  "civil_micros t =
     ((int (dt_hour t) * 60 + int (dt_minute t)) * 60 + int (dt_second t)) * 1000000 + int (dt_micro t)"

definition at_micros :: "nat \<times> nat \<times> nat \<Rightarrow> nat \<Rightarrow> datetime" where
  "at_micros = (\<lambda>(y, m, d) r.
     \<lparr>dt_year = y, dt_month = m, dt_day = d, dt_hour = r div 3600000000, dt_minute = r div 60000000 mod 60,
      dt_second = r div 1000000 mod 60, dt_micro = r mod 1000000, dt_offset = 0\<rparr>)"

text \<open>\<^verbatim>\<open>astimezone(timezone.utc)\<close>; the offset is less than a day, so the date moves by one day at most\<close>

definition astimezone_utc :: "datetime \<Rightarrow> datetime res" where
  "astimezone_utc t =
     (let total = civil_micros t - dt_offset t;
          date = (dt_year t, dt_month t, dt_day t);
          date' = (if total < 0 then prev_day date else if 86400000000 \<le> total then next_day date else date)
      in if fst date' < 1 \<or> 9999 < fst date' then Inl OverflowError
         else Inr (at_micros date' (nat (total mod 86400000000))))"

definition replace_z :: "string \<Rightarrow> string" where
  "replace_z s = concat (map (\<lambda>c. if c = CHR ''Z'' then ''+00:00'' else [c]) s)"

text \<open>\<^verbatim>\<open>isoformat().replace("+00:00", "Z")\<close> of a UTC time, where the zone is the only place of a plus\<close>

definition utc_text :: "datetime \<Rightarrow> string" where
  "utc_text t = takeWhile (\<lambda>c. c \<noteq> CHR ''+'') (isoformat t) @ ''Z''"

definition utc_time :: "json \<Rightarrow> datetime res" where
  "utc_time v =
     (case fromisoformat (replace_z (str_or_empty v)) of None \<Rightarrow> refuse BadTime | Some t \<Rightarrow> astimezone_utc t)"

definition is_utc :: "datetime \<Rightarrow> bool" where
  "is_utc t \<longleftrightarrow> valid_datetime t \<and> dt_offset t = 0"

lemma day_split:
  fixes r :: nat
  assumes "r < 86400000000"
  shows "((int (r div 3600000000) * 60 + int (r div 60000000 mod 60)) * 60 + int (r div 1000000 mod 60)) * 1000000
      + int (r mod 1000000) = int r" and "r div 3600000000 \<le> 23"
proof -
  have e: "r div 1000000 div 60 = r div 60000000" "r div 1000000 div 3600 = r div 3600000000"
    by (simp_all add: div_mult2_eq [symmetric])
  from offset_split(1) [OF assms] have "r = ((r div 3600000000 * 60 + r div 60000000 mod 60) * 60 + r div 1000000 mod 60) * 1000000 + r mod 1000000"
    by (simp only: e)
  then have "int r = int (((r div 3600000000 * 60 + r div 60000000 mod 60) * 60 + r div 1000000 mod 60) * 1000000 + r mod 1000000)"
    by (rule arg_cong)
  then show "((int (r div 3600000000) * 60 + int (r div 60000000 mod 60)) * 60 + int (r div 1000000 mod 60)) * 1000000
      + int (r mod 1000000) = int r" by (simp only: of_nat_add of_nat_mult of_nat_numeral)
  from offset_split(2) [OF assms] show "r div 3600000000 \<le> 23" by (simp only: e)
qed

lemma at_micros_utc:
  assumes "valid_date x" and "1 \<le> fst x" "fst x \<le> 9999" and "r < 86400000000"
  shows "is_utc (at_micros x r)" and "instant (at_micros x r) = ordinal3 x * 86400000000 + int r"
proof -
  obtain y m d where x: "x = (y, m, d)" by (cases x)
  show "is_utc (at_micros x r)"
    using assms day_split(2) [OF assms(4)]
    by (simp add: x at_micros_def is_utc_def valid_datetime_def valid_date_def less_Suc_eq_le [symmetric])
  show "instant (at_micros x r) = ordinal3 x * 86400000000 + int r"
    using day_split(1) [OF assms(4)] by (simp add: x at_micros_def instant_def ordinal3_def algebra_simps)
qed

lemma astimezone_utc_ok:
  assumes "valid_datetime t" and "astimezone_utc t = Inr u"
  shows "is_utc u" and "instant u = instant t"
proof -
  define total where "total = civil_micros t - dt_offset t"
  define x where "x = (dt_year t, dt_month t, dt_day t)"
  define x' where "x' = (if total < 0 then prev_day x else if 86400000000 \<le> total then next_day x else x)"
  have u: "u = at_micros x' (nat (total mod 86400000000))" and y: "1 \<le> fst x'" "fst x' \<le> 9999"
    using assms(2) by (auto simp: astimezone_utc_def total_def x_def x'_def Let_def split: if_splits)
  have v: "valid_date x" "1 \<le> fst x" using assms(1) by (simp_all add: x_def valid_date_def valid_datetime_def)
  have o: "\<bar>dt_offset t\<bar> < 86400000000" using assms(1) by (simp add: valid_datetime_def)
  have c: "0 \<le> civil_micros t" "civil_micros t < 86400000000"
    using assms(1) by (auto simp: civil_micros_def valid_datetime_def)
  have day: "valid_date x' \<and> ordinal3 x' * 86400000000 + total mod 86400000000 = ordinal3 x * 86400000000 + total"
  proof (cases "total < 0")
    case True
    then have "total mod 86400000000 = total + 86400000000"
      using o c by (intro mod_pos_pos_trivial [of "total + 86400000000" 86400000000, simplified]) (auto simp: total_def)
    with True prev_day_ordinal [OF v] show ?thesis by (simp add: x'_def algebra_simps)
  next
    case nonneg: False
    show ?thesis
    proof (cases "86400000000 \<le> total")
      case True
      then have "total mod 86400000000 = total - 86400000000"
        using o c mod_pos_pos_trivial [of "total - 86400000000" 86400000000] by (simp add: total_def)
      with True nonneg next_day_ordinal [OF v(1)] show ?thesis by (simp add: x'_def algebra_simps)
    next
      case False
      with nonneg v show ?thesis by (simp add: x'_def)
    qed
  qed
  have r: "nat (total mod 86400000000) < 86400000000" by (simp add: nat_less_iff)
  from day y r show "is_utc u" unfolding u by (intro at_micros_utc) auto
  have "instant u = ordinal3 x' * 86400000000 + total mod 86400000000"
    unfolding u using at_micros_utc(2) [OF _ y r] day by simp
  with day show "instant u = instant t"
    by (simp add: x_def ordinal3_def total_def instant_def civil_micros_def algebra_simps)
qed

lemma at_micros_again:
  assumes "is_utc t"
  shows "at_micros (dt_year t, dt_month t, dt_day t) (nat (civil_micros t)) = t"
proof -
  have b: "dt_minute t < 60" "dt_second t < 60" "dt_micro t < 1000000" "dt_offset t = 0"
    using assms by (simp_all add: is_utc_def valid_datetime_def)
  define q where "q = dt_hour t * 60 + dt_minute t"
  define p where "p = q * 60 + dt_second t"
  define r where "r = p * 1000000 + dt_micro t"
  have r: "r mod 1000000 = dt_micro t" "r div 1000000 = p" using b by (simp_all add: r_def)
  have p: "p mod 60 = dt_second t" "p div 60 = q" using b by (simp_all add: p_def)
  have q: "q mod 60 = dt_minute t" "q div 60 = dt_hour t" using b by (simp_all add: q_def)
  have "nat (civil_micros t) = r" by (simp add: civil_micros_def nat_add_distrib nat_mult_distrib r_def p_def q_def)
  moreover have "r div 60000000 = q" "r div 3600000000 = dt_hour t"
    using r p q div_mult2_eq [of r 1000000 60] div_mult2_eq [of r 1000000 3600] div_mult2_eq [of p 60 60] by simp_all
  ultimately show ?thesis using b r p q by (simp add: at_micros_def)
qed

lemma astimezone_utc_again: "is_utc t \<Longrightarrow> astimezone_utc t = Inr t"
proof -
  assume t: "is_utc t"
  have "0 \<le> civil_micros t" "civil_micros t < 86400000000" "dt_offset t = 0" "1 \<le> dt_year t" "dt_year t \<le> 9999"
    using t by (auto simp: civil_micros_def is_utc_def valid_datetime_def)
  then show ?thesis using at_micros_again [OF t] by (simp add: astimezone_utc_def Let_def)
qed

lemma fromisoformat_valid: "fromisoformat s = Some t \<Longrightarrow> valid_datetime t"
  by (auto simp: fromisoformat_def Let_def split: if_splits option.splits prod.splits)

lemma utc_time_ok: "utc_time v = Inr t \<Longrightarrow> is_utc t"
  by (auto simp: utc_time_def split: option.splits dest: fromisoformat_valid intro: astimezone_utc_ok(1))

lemma utc_text_zone:
  assumes "is_utc t"
  shows "replace_z (utc_text t) = isoformat t"
proof -
  have r: "dt_year t < 10000" "dt_month t < 100" "dt_day t < 100" "dt_hour t < 100"
    "dt_minute t < 100" "dt_second t < 100" "dt_micro t < 1000000" "dt_offset t = 0"
    using assms by (auto simp: is_utc_def valid_datetime_def days_in_month_def split: if_splits)
  define pre where "pre = pad4 (dt_year t) @ ''-'' @ pad2 (dt_month t) @ ''-'' @ pad2 (dt_day t) @ ''T''
     @ pad2 (dt_hour t) @ '':'' @ pad2 (dt_minute t) @ '':'' @ pad2 (dt_second t)
     @ (if dt_micro t = 0 then [] else ''.'' @ pad6 (dt_micro t))"
  have zone: "offset_string 0 = ''+00:00''" by (simp add: offset_string_def pad2_def digit_char_def)
  have iso: "isoformat t = pre @ ''+00:00''" by (simp add: isoformat_def pre_def r(8) zone)
  have plain_set: "CHR ''+'' \<notin> set xs \<and> CHR ''Z'' \<notin> set xs" if "plain xs" for xs
    using that by (auto simp: plain_def list_all_iff)
  have "CHR ''+'' \<notin> set pre \<and> CHR ''Z'' \<notin> set pre"
    using r plain_set [OF plain_pad4 [OF r(1)]] plain_set [OF plain_pad2 [OF r(2)]] plain_set [OF plain_pad2 [OF r(3)]]
      plain_set [OF plain_pad2 [OF r(4)]] plain_set [OF plain_pad2 [OF r(5)]] plain_set [OF plain_pad2 [OF r(6)]]
      plain_set [OF plain_pad6 [OF r(7)]]
    by (simp add: pre_def)
  then have cut: "takeWhile (\<lambda>c. c \<noteq> CHR ''+'') (isoformat t) = pre" and same: "replace_z pre = pre"
  proof -
    assume a: "CHR ''+'' \<notin> set pre \<and> CHR ''Z'' \<notin> set pre"
    then have "\<forall>x \<in> set pre. x \<noteq> CHR ''+''" by auto
    then show "takeWhile (\<lambda>c. c \<noteq> CHR ''+'') (isoformat t) = pre" by (simp add: iso takeWhile_append2)
    have "replace_z xs = xs" if "CHR ''Z'' \<notin> set xs" for xs using that by (induction xs) (auto simp: replace_z_def)
    with a show "replace_z pre = pre" by blast
  qed
  then show ?thesis by (simp add: utc_text_def iso) (simp add: replace_z_def)
qed

lemma utc_time_text: "is_utc t \<Longrightarrow> utc_time (JStr (utc_text t)) = Inr t"
  using utc_text_zone [of t] fromisoformat_isoformat [of t] astimezone_utc_again [of t]
  by (simp add: utc_time_def is_utc_def)

lemma utc_time_again: "utc_time v = Inr t \<Longrightarrow> utc_time (JStr (utc_text t)) = Inr t"
  by (rule utc_time_text [OF utc_time_ok])

end
