(* ===== verification/Session_Lease.thy ===== *)
theory Session_Lease
  imports Operations Utc_Time Canonical
begin

text \<open>
  Session leases: the identity of a session (\<^verbatim>\<open>session_binding.py\<close>) and the lease that narrows a
  signed activation to one session (\<^verbatim>\<open>session_lease.py\<close>), with its lifecycle and its budgets. A
  lease carries the digest of its own state, so every operation validates the document it is given
  and the one it returns. \<open>H\<close> is the hash behind \<^verbatim>\<open>hashlib.sha256(...).hexdigest()\<close>.
\<close>

subsection \<open>Fields\<close>

definition opaque_char :: "char \<Rightarrow> bool" where
  "opaque_char c = (is_alnum c \<or> c \<in> set ''._:@-'')"

text \<open>\<^verbatim>\<open>^[A-Za-z0-9][A-Za-z0-9._:@-]{0,255}$\<close> matched against the whole string\<close>

definition is_opaque :: "string \<Rightarrow> bool" where
  "is_opaque s =
     (case s of [] \<Rightarrow> False | c # cs \<Rightarrow> is_alnum c \<and> length cs \<le> 255 \<and> list_all opaque_char cs)"

definition opaque :: "json \<Rightarrow> string res" where
  "opaque v = (let s = strip (str_or_empty v) in if is_opaque s then Inr s else refuse BadIdentifier)"

definition same_keys :: "obj \<Rightarrow> string list \<Rightarrow> bool" where
  "same_keys d ks \<longleftrightarrow> set (jkeys d) = set ks"

definition digest_secret :: "(string \<Rightarrow> string) \<Rightarrow> string \<Rightarrow> string res" where
  "digest_secret H s = (if s = [] then refuse Missing else Inr (H (utf8 s)))"

definition session_sha :: "json \<Rightarrow> string res" where
  "session_sha v =
     (let s = lower (removeprefix ''sha256:'' (str_or_empty v)) in if is_sha s then Inr s else refuse BadSha)"

subsection \<open>Session bindings\<close>

record session_identity =
  si_workspace_identity :: string
  si_provider :: string
  si_thread_binding_sha256 :: string
  si_activation_evidence_id :: string
  si_trust_class :: string
  si_approval_receipt_sha256 :: string

record session_binding =
  sb_session_id :: string
  sb_identity :: session_identity
  sb_session_ref :: string

definition TRUST_CLASSES :: "string list" where
  "TRUST_CLASSES = [''platform_host_receipt'', ''agent_mediated_tty_narrowing'']"

definition SESSION_BINDING_FIELDS :: "string list" where
  "SESSION_BINDING_FIELDS =
    [''schema_version'', ''artifact_kind'', ''session_id'', ''workspace_identity'', ''provider'',
     ''thread_binding_sha256'', ''activation_evidence_id'', ''trust_class'', ''approval_receipt_sha256'',
     ''session_ref'']"

definition identity_fields :: "session_identity \<Rightarrow> obj" where
  "identity_fields i =
    [(''workspace_identity'', JStr (si_workspace_identity i)), (''provider'', JStr (si_provider i)),
     (''thread_binding_sha256'', JStr (si_thread_binding_sha256 i)),
     (''activation_evidence_id'', JStr (si_activation_evidence_id i)),
     (''trust_class'', JStr (si_trust_class i)),
     (''approval_receipt_sha256'', JStr (si_approval_receipt_sha256 i))]"

definition derived_session_id :: "(string \<Rightarrow> string) \<Rightarrow> session_identity \<Rightarrow> string" where
  "derived_session_id H i = ''session-'' @ take 32 (object_sha256 H (JObj (identity_fields i)))"

text \<open>The path has no component that the path library would rewrite, because an identifier starts with a letter or digit\<close>

definition session_ref :: "string \<Rightarrow> string res" where
  "session_ref session_id =
     bindE (opaque (JStr session_id)) (\<lambda>i. Inr (''.task/authorization/sessions/'' @ i @ ''/session-lease.json''))"

definition bind_identity :: "(string \<Rightarrow> string) \<Rightarrow> session_identity \<Rightarrow> session_binding res" where
  "bind_identity H i =
     bindE (session_ref (derived_session_id H i)) (\<lambda>ref.
     Inr \<lparr>sb_session_id = derived_session_id H i, sb_identity = i, sb_session_ref = ref\<rparr>)"

definition build_session_binding ::
  "(string \<Rightarrow> string) \<Rightarrow> string \<Rightarrow> string \<Rightarrow> string \<Rightarrow> string \<Rightarrow> string \<Rightarrow> string \<Rightarrow> string option \<Rightarrow> session_binding res" where
  "build_session_binding H workspace provider thread evidence trust receipt session_id =
     (if session_id \<noteq> None then refuse Forged
      else
      bindE (opaque (JStr workspace)) (\<lambda>w.
      bindE (opaque (JStr provider)) (\<lambda>p.
      bindE (opaque (JStr evidence)) (\<lambda>e.
      if trust \<notin> set TRUST_CLASSES then refuse BadEnum
      else
      bindE (digest_secret H thread) (\<lambda>t.
      bindE (digest_secret H receipt) (\<lambda>r.
      bind_identity H \<lparr>si_workspace_identity = w, si_provider = p, si_thread_binding_sha256 = t,
        si_activation_evidence_id = e, si_trust_class = trust, si_approval_receipt_sha256 = r\<rparr>))))))"

definition validate_session_binding :: "(string \<Rightarrow> string) \<Rightarrow> json \<Rightarrow> session_binding res" where
  "validate_session_binding H v =
     (case v of
        JObj d \<Rightarrow>
          if \<not> same_keys d SESSION_BINDING_FIELDS then refuse NotClosed
          else if \<not> equals_int (jat d ''schema_version'') 1
                  \<or> jat d ''artifact_kind'' \<noteq> JStr ''authority_session_binding'' then refuse BadContract
          else let trust = str_or_empty (jat d ''trust_class'') in
          if trust \<notin> set TRUST_CLASSES then refuse BadEnum
          else
          bindE (opaque (jat d ''workspace_identity'')) (\<lambda>w.
          bindE (opaque (jat d ''provider'')) (\<lambda>p.
          bindE (session_sha (jat d ''thread_binding_sha256'')) (\<lambda>t.
          bindE (opaque (jat d ''activation_evidence_id'')) (\<lambda>e.
          bindE (session_sha (jat d ''approval_receipt_sha256'')) (\<lambda>r.
          let i = \<lparr>si_workspace_identity = w, si_provider = p, si_thread_binding_sha256 = t,
                   si_activation_evidence_id = e, si_trust_class = trust, si_approval_receipt_sha256 = r\<rparr> in
          if jat d ''session_id'' \<noteq> JStr (derived_session_id H i) then refuse Forged
          else
            bindE (bind_identity H i) (\<lambda>b.
            if jat d ''session_ref'' \<noteq> JStr (sb_session_ref b) then refuse BadPath else Inr b))))))
      | _ \<Rightarrow> refuse NotAnObject)"

definition session_binding_json :: "session_binding \<Rightarrow> json" where
  "session_binding_json b = JObj
    ([(''schema_version'', JInt 1), (''artifact_kind'', JStr ''authority_session_binding''),
      (''session_id'', JStr (sb_session_id b))] @ identity_fields (sb_identity b)
     @ [(''session_ref'', JStr (sb_session_ref b))])"

subsection \<open>Leases\<close>

datatype session_status = Session_live | Session_stopped | Session_lost

definition SESSION_STATUSES :: "(string \<times> session_status) list" where
  "SESSION_STATUSES = [(''live'', Session_live), (''stopped'', Session_stopped), (''lost'', Session_lost)]"

record budgets =
  bg_max_cycles :: int
  bg_max_agent_actions :: int
  bg_max_concurrent_long_runs :: int
  bg_max_commits_per_cycle :: int

record lifecycle =
  lc_status :: session_status
  lc_host_receipt_live :: bool
  lc_stopped_at :: "datetime option"
  lc_last_seen_at :: datetime

record usage =
  us_cycles :: int
  us_agent_actions :: int
  us_active_long_runs :: "string list"
  us_commits_by_cycle :: "(string \<times> int) list"

record lease =
  ls_binding :: session_binding
  ls_goal_id :: string
  ls_task_family :: string
  ls_activation_mode :: string
  ls_risk_ceiling :: risk_tier
  ls_operations :: "string list"
  ls_goal_digest :: string
  ls_policy_digest :: string
  ls_manifest_digest :: string
  ls_issued_at :: datetime
  ls_expires_at :: "datetime option"
  ls_budgets :: budgets
  ls_lifecycle :: lifecycle
  ls_usage :: usage
  ls_lease_id :: string
  ls_state_sha256 :: string

definition DEFAULT_BUDGETS :: budgets where
  "DEFAULT_BUDGETS = \<lparr>bg_max_cycles = 3, bg_max_agent_actions = 72, bg_max_concurrent_long_runs = 1,
     bg_max_commits_per_cycle = 1\<rparr>"

definition FORBIDDEN_OPERATIONS :: "string list" where
  "FORBIDDEN_OPERATIONS =
    [''activate_authority'', ''raise_authority_mode'', ''change_authority_policy'', ''change_goal_design'',
     ''push_git'', ''external_mutation'', ''destructive_mutation'', ''access_credentials'']"

definition ACTIVATION_MODES :: "string list" where
  "ACTIVATION_MODES = [''workspace'', ''governed'']"

text \<open>What a \<^verbatim>\<open>for\<close> loop gives for a JSON value\<close>

definition iter_items :: "json \<Rightarrow> json list res" where
  "iter_items v =
     (case v of JList xs \<Rightarrow> Inr xs | JStr s \<Rightarrow> Inr (map (\<lambda>c. JStr [c]) s)
      | JObj d \<Rightarrow> Inr (map JStr (jkeys d)) | _ \<Rightarrow> Inl TypeError)"

definition unique_opaques :: "json list \<Rightarrow> string list res" where
  "unique_opaques vs =
     (let items = map (\<lambda>v. strip (str_or_empty v)) vs in
      if items = [] \<or> \<not> list_all is_opaque items \<or> \<not> distinct items then refuse BadList
      else Inr (sort items))"

definition nullable_utc :: "json \<Rightarrow> datetime option res" where
  "nullable_utc v = (if v = JNull then Inr None else bindE (utc_time v) (\<lambda>t. Inr (Some t)))"

definition budget_item :: "json \<Rightarrow> int res" where
  "budget_item v = (case v of JInt n \<Rightarrow> (if n < 1 then refuse BadInteger else Inr n) | _ \<Rightarrow> refuse BadInteger)"

definition BUDGET_FIELDS :: "string list" where
  "BUDGET_FIELDS = [''max_cycles'', ''max_agent_actions'', ''max_concurrent_long_runs'', ''max_commits_per_cycle'']"

definition budgets_field :: "json \<Rightarrow> budgets res" where
  "budgets_field v =
     (case v of
        JObj d \<Rightarrow>
          if \<not> same_keys d BUDGET_FIELDS then refuse NotClosed
          else
          bindE (budget_item (jat d ''max_cycles'')) (\<lambda>a.
          bindE (budget_item (jat d ''max_agent_actions'')) (\<lambda>b.
          bindE (budget_item (jat d ''max_concurrent_long_runs'')) (\<lambda>c.
          bindE (budget_item (jat d ''max_commits_per_cycle'')) (\<lambda>e.
          Inr \<lparr>bg_max_cycles = a, bg_max_agent_actions = b, bg_max_concurrent_long_runs = c,
               bg_max_commits_per_cycle = e\<rparr>))))
      | _ \<Rightarrow> refuse NotClosed)"

definition counter_item :: "json \<Rightarrow> int res" where
  "counter_item v = (case v of JInt n \<Rightarrow> (if n < 0 then refuse BadInteger else Inr n) | _ \<Rightarrow> refuse BadInteger)"

text \<open>The loop over the commits of each cycle; a key that meets an earlier one after stripping replaces it\<close>

fun commit_items :: "(string \<times> json) list \<Rightarrow> (string \<times> int) list \<Rightarrow> (string \<times> int) list res" where
  "commit_items [] acc = Inr acc"
| "commit_items ((k, v) # xs) acc =
     bindE (opaque (JStr k)) (\<lambda>key. bindE (counter_item v) (\<lambda>n. commit_items xs (dput key n acc)))"

definition USAGE_FIELDS :: "string list" where
  "USAGE_FIELDS = [''cycles'', ''agent_actions'', ''active_long_runs'', ''commits_by_cycle'']"

definition long_runs_field :: "json \<Rightarrow> string list res" where
  "long_runs_field v = (if truthy v then bindE (iter_items v) unique_opaques else Inr [])"

definition usage_field :: "json \<Rightarrow> usage res" where
  "usage_field v =
     (case v of
        JObj d \<Rightarrow>
          if \<not> same_keys d USAGE_FIELDS then refuse NotClosed
          else
          bindE (counter_item (jat d ''cycles'')) (\<lambda>cycles.
          bindE (counter_item (jat d ''agent_actions'')) (\<lambda>actions.
          bindE (long_runs_field (jat d ''active_long_runs'')) (\<lambda>runs.
          case jat d ''commits_by_cycle'' of
            JObj cs \<Rightarrow>
              bindE (commit_items cs []) (\<lambda>commits.
              Inr \<lparr>us_cycles = cycles, us_agent_actions = actions, us_active_long_runs = runs,
                   us_commits_by_cycle = sort_key fst commits\<rparr>)
          | _ \<Rightarrow> refuse NotAnObject)))
      | _ \<Rightarrow> refuse NotClosed)"

definition LIFECYCLE_FIELDS :: "string list" where
  "LIFECYCLE_FIELDS = [''status'', ''host_receipt_live'', ''stopped_at'', ''last_seen_at'']"

definition lifecycle_field :: "json \<Rightarrow> lifecycle res" where
  "lifecycle_field v =
     (case v of
        JObj d \<Rightarrow>
          if \<not> same_keys d LIFECYCLE_FIELDS then refuse NotClosed
          else if \<not> hashable (jat d ''status'') then Inl TypeError
          else
          (case (case jat d ''status'' of JStr s \<Rightarrow> map_of SESSION_STATUSES s | _ \<Rightarrow> None) of
             None \<Rightarrow> refuse BadEnum
           | Some status \<Rightarrow>
               (case jat d ''host_receipt_live'' of
                  JBool live \<Rightarrow>
                    if status = Session_live \<and> \<not> live then refuse BadContract
                    else
                    bindE (nullable_utc (jat d ''stopped_at'')) (\<lambda>stopped_at.
                    bindE (utc_time (jat d ''last_seen_at'')) (\<lambda>last_seen_at.
                    Inr \<lparr>lc_status = status, lc_host_receipt_live = live, lc_stopped_at = stopped_at,
                         lc_last_seen_at = last_seen_at\<rparr>))
                | _ \<Rightarrow> refuse BadContract))
      | _ \<Rightarrow> refuse NotClosed)"

subsection \<open>Documents and digests\<close>

definition opt_utc :: "datetime option \<Rightarrow> json" where
  "opt_utc x = (case x of None \<Rightarrow> JNull | Some t \<Rightarrow> JStr (utc_text t))"

definition budgets_json :: "budgets \<Rightarrow> json" where
  "budgets_json b = JObj
    [(''max_cycles'', JInt (bg_max_cycles b)), (''max_agent_actions'', JInt (bg_max_agent_actions b)),
     (''max_concurrent_long_runs'', JInt (bg_max_concurrent_long_runs b)),
     (''max_commits_per_cycle'', JInt (bg_max_commits_per_cycle b))]"

definition lifecycle_json :: "lifecycle \<Rightarrow> json" where
  "lifecycle_json l = JObj
    [(''status'', JStr (enum_name SESSION_STATUSES (lc_status l))),
     (''host_receipt_live'', JBool (lc_host_receipt_live l)), (''stopped_at'', opt_utc (lc_stopped_at l)),
     (''last_seen_at'', JStr (utc_text (lc_last_seen_at l)))]"

definition usage_json :: "usage \<Rightarrow> json" where
  "usage_json u = JObj
    [(''cycles'', JInt (us_cycles u)), (''agent_actions'', JInt (us_agent_actions u)),
     (''active_long_runs'', JList (map JStr (us_active_long_runs u))),
     (''commits_by_cycle'', JObj (map (\<lambda>(k, n). (k, JInt n)) (us_commits_by_cycle u)))]"

definition lease_identity :: "lease \<Rightarrow> obj" where
  "lease_identity l =
    [(''schema_version'', JInt 1), (''artifact_kind'', JStr ''authority_session_lease''),
     (''session_binding'', session_binding_json (ls_binding l)), (''goal_id'', JStr (ls_goal_id l)),
     (''task_family'', JStr (ls_task_family l)), (''activation_mode'', JStr (ls_activation_mode l)),
     (''risk_ceiling'', JStr (enum_name RISK_TIERS (ls_risk_ceiling l))),
     (''allowed_operation_groups'', JList (map JStr (ls_operations l))),
     (''goal_digest'', JStr (ls_goal_digest l)), (''policy_digest'', JStr (ls_policy_digest l)),
     (''manifest_digest'', JStr (ls_manifest_digest l)), (''issued_at'', JStr (utc_text (ls_issued_at l))),
     (''expires_at'', opt_utc (ls_expires_at l)), (''budgets'', budgets_json (ls_budgets l))]"

definition state_material :: "lease \<Rightarrow> obj" where
  "state_material l =
     lease_identity l @ [(''lifecycle'', lifecycle_json (ls_lifecycle l)), (''usage'', usage_json (ls_usage l))]"

definition lease_json :: "lease \<Rightarrow> json" where
  "lease_json l = JObj
     (state_material l @ [(''lease_id'', JStr (ls_lease_id l)), (''state_sha256'', JStr (ls_state_sha256 l))])"

definition derived_lease_id :: "(string \<Rightarrow> string) \<Rightarrow> lease \<Rightarrow> string" where
  "derived_lease_id H l = ''lease-'' @ take 32 (object_sha256 H (JObj (lease_identity l)))"

definition derived_state :: "(string \<Rightarrow> string) \<Rightarrow> lease \<Rightarrow> string" where
  "derived_state H l = object_sha256 H (JObj (state_material l))"

definition LEASE_FIELDS :: "string list" where
  "LEASE_FIELDS =
    [''schema_version'', ''artifact_kind'', ''session_binding'', ''goal_id'', ''task_family'',
     ''activation_mode'', ''risk_ceiling'', ''allowed_operation_groups'', ''goal_digest'', ''policy_digest'',
     ''manifest_digest'', ''issued_at'', ''expires_at'', ''budgets'', ''lifecycle'', ''usage'', ''lease_id'',
     ''state_sha256'']"

definition lease_operations :: "json \<Rightarrow> string list res" where
  "lease_operations v =
     bindE (if truthy v then iter_items v else Inr []) (\<lambda>items.
     bindE (unique_opaques items) (\<lambda>ops.
     if list_ex (\<lambda>x. x \<in> set FORBIDDEN_OPERATIONS) ops then refuse BadScope else Inr ops))"

definition validate_session_lease :: "(string \<Rightarrow> string) \<Rightarrow> json \<Rightarrow> lease res" where
  "validate_session_lease H v =
     (case v of
        JObj d \<Rightarrow>
          if \<not> same_keys d LEASE_FIELDS then refuse NotClosed
          else if \<not> equals_int (jat d ''schema_version'') 1
                  \<or> jat d ''artifact_kind'' \<noteq> JStr ''authority_session_lease'' then refuse BadContract
          else
          bindE (validate_session_binding H (jat d ''session_binding'')) (\<lambda>binding.
          let mode = str_or_empty (jat d ''activation_mode'') in
          if mode \<notin> set ACTIVATION_MODES then refuse BadEnum
          else case map_of RISK_TIERS (str_or_empty (jat d ''risk_ceiling'')) of
            None \<Rightarrow> refuse BadEnum
          | Some risk \<Rightarrow>
          if risk_value risk > risk_value R2 then refuse BadScope
          else
          bindE (lease_operations (jat d ''allowed_operation_groups'')) (\<lambda>operations.
          bindE (lifecycle_field (jat d ''lifecycle'')) (\<lambda>lc.
          bindE (opaque (jat d ''goal_id'')) (\<lambda>goal_id.
          bindE (opaque (jat d ''task_family'')) (\<lambda>task_family.
          bindE (opaque (jat d ''goal_digest'')) (\<lambda>goal_digest.
          bindE (opaque (jat d ''policy_digest'')) (\<lambda>policy_digest.
          bindE (opaque (jat d ''manifest_digest'')) (\<lambda>manifest_digest.
          bindE (utc_time (jat d ''issued_at'')) (\<lambda>issued_at.
          bindE (nullable_utc (jat d ''expires_at'')) (\<lambda>expires_at.
          bindE (budgets_field (jat d ''budgets'')) (\<lambda>budgets.
          bindE (usage_field (jat d ''usage'')) (\<lambda>usage.
          let l = \<lparr>ls_binding = binding, ls_goal_id = goal_id, ls_task_family = task_family,
                   ls_activation_mode = mode, ls_risk_ceiling = risk, ls_operations = operations,
                   ls_goal_digest = goal_digest, ls_policy_digest = policy_digest,
                   ls_manifest_digest = manifest_digest, ls_issued_at = issued_at,
                   ls_expires_at = expires_at, ls_budgets = budgets, ls_lifecycle = lc, ls_usage = usage,
                   ls_lease_id = [], ls_state_sha256 = []\<rparr> in
          if jat d ''lease_id'' \<noteq> JStr (derived_lease_id H l) then refuse Forged
          else if jat d ''state_sha256'' \<noteq> JStr (derived_state H l) then refuse DigestMismatch
          else Inr (l\<lparr>ls_lease_id := derived_lease_id H l, ls_state_sha256 := derived_state H l\<rparr>)))))))))))))
      | _ \<Rightarrow> refuse NotAnObject)"

subsection \<open>Operations\<close>

definition build_session_lease ::
  "(string \<Rightarrow> string) \<Rightarrow> json \<Rightarrow> string \<Rightarrow> string \<Rightarrow> string \<Rightarrow> string \<Rightarrow> json \<Rightarrow> string \<Rightarrow> string \<Rightarrow> string \<Rightarrow> string \<Rightarrow>
   json \<Rightarrow> json \<Rightarrow> lease res" where
  "build_session_lease H binding goal_id task_family mode ceiling groups goal_digest policy_digest manifest_digest
      issued_at expires_at budgets =
     bindE (validate_session_binding H binding) (\<lambda>b.
     if mode \<notin> set ACTIVATION_MODES then refuse BadEnum
     else case map_of RISK_TIERS ceiling of
       None \<Rightarrow> refuse BadEnum
     | Some activation_risk \<Rightarrow>
     bindE (bindE (iter_items groups) unique_opaques) (\<lambda>operations.
     if list_ex (\<lambda>x. x \<in> set FORBIDDEN_OPERATIONS) operations then refuse BadScope
     else
     bindE (opaque (JStr goal_id)) (\<lambda>goal.
     bindE (opaque (JStr task_family)) (\<lambda>family.
     bindE (opaque (JStr goal_digest)) (\<lambda>gd.
     bindE (opaque (JStr policy_digest)) (\<lambda>pd.
     bindE (opaque (JStr manifest_digest)) (\<lambda>md.
     bindE (utc_time (JStr issued_at)) (\<lambda>issued.
     bindE (nullable_utc expires_at) (\<lambda>expires.
     bindE (if truthy budgets then budgets_field budgets else Inr DEFAULT_BUDGETS) (\<lambda>bg.
     let l = \<lparr>ls_binding = b, ls_goal_id = goal, ls_task_family = family, ls_activation_mode = mode,
              ls_risk_ceiling = (if risk_value activation_risk \<le> risk_value R2 then activation_risk else R2),
              ls_operations = operations, ls_goal_digest = gd, ls_policy_digest = pd, ls_manifest_digest = md,
              ls_issued_at = issued, ls_expires_at = expires, ls_budgets = bg,
              ls_lifecycle = \<lparr>lc_status = Session_live, lc_host_receipt_live = True, lc_stopped_at = None,
                lc_last_seen_at = issued\<rparr>,
              ls_usage = \<lparr>us_cycles = 0, us_agent_actions = 0, us_active_long_runs = [], us_commits_by_cycle = []\<rparr>,
              ls_lease_id = [], ls_state_sha256 = []\<rparr> in
     validate_session_lease H (lease_json
       (l\<lparr>ls_lease_id := derived_lease_id H l, ls_state_sha256 := derived_state H l\<rparr>))))))))))))"

definition refresh :: "(string \<Rightarrow> string) \<Rightarrow> lease \<Rightarrow> lease res" where
  "refresh H l = validate_session_lease H (lease_json (l\<lparr>ls_state_sha256 := derived_state H l\<rparr>))"

definition assert_dispatch_allowed ::
  "(string \<Rightarrow> string) \<Rightarrow> json \<Rightarrow> string \<Rightarrow> string \<Rightarrow> string \<Rightarrow> string \<Rightarrow> string \<Rightarrow> string \<Rightarrow> lease res" where
  "assert_dispatch_allowed H v at goal_digest policy_digest manifest_digest operation_group risk_tier =
     bindE (validate_session_lease H v) (\<lambda>l.
     bindE (utc_time (JStr at)) (\<lambda>observed.
     if lc_status (ls_lifecycle l) \<noteq> Session_live then refuse NotActive
     else if (case ls_expires_at l of None \<Rightarrow> False | Some e \<Rightarrow> instant e \<le> instant observed) then refuse ExpiredGrant
     else if ls_goal_digest l \<noteq> goal_digest \<or> ls_policy_digest l \<noteq> policy_digest
             \<or> ls_manifest_digest l \<noteq> manifest_digest then refuse Stale
     else
     bindE (opaque (JStr operation_group)) (\<lambda>operation.
     if operation \<notin> set (ls_operations l) then refuse BadScope
     else case map_of RISK_TIERS risk_tier of
       None \<Rightarrow> refuse BadEnum
     | Some r \<Rightarrow> if risk_value r > risk_value (ls_risk_ceiling l) then refuse BadScope else Inr l)))"

text \<open>The branches of \<^verbatim>\<open>consume_budget\<close>; \<open>None\<close> is the run that is already counted\<close>

definition charge :: "budgets \<Rightarrow> usage \<Rightarrow> string \<Rightarrow> json \<Rightarrow> usage option res" where
  "charge b u kind identifier =
     (if kind = ''cycle'' then
        (if us_cycles u \<ge> bg_max_cycles b then refuse Insufficient
         else Inr (Some (u\<lparr>us_cycles := us_cycles u + 1\<rparr>)))
      else if kind = ''agent_action'' then
        (if us_agent_actions u \<ge> bg_max_agent_actions b then refuse Insufficient
         else Inr (Some (u\<lparr>us_agent_actions := us_agent_actions u + 1\<rparr>)))
      else if kind = ''long_run'' then
        bindE (opaque identifier) (\<lambda>run_id.
        if run_id \<in> set (us_active_long_runs u) then Inr None
        else if int (length (us_active_long_runs u)) \<ge> bg_max_concurrent_long_runs b then refuse Insufficient
        else Inr (Some (u\<lparr>us_active_long_runs := sort (us_active_long_runs u @ [run_id])\<rparr>)))
      else if kind = ''commit'' then
        bindE (opaque identifier) (\<lambda>cycle_id.
        let count = (case map_of (us_commits_by_cycle u) cycle_id of None \<Rightarrow> 0 | Some n \<Rightarrow> n) in
        if count \<ge> bg_max_commits_per_cycle b then refuse Insufficient
        else Inr (Some (u\<lparr>us_commits_by_cycle := sort_key fst (dput cycle_id (count + 1) (us_commits_by_cycle u))\<rparr>)))
      else refuse BadEnum)"

definition consume_budget :: "(string \<Rightarrow> string) \<Rightarrow> json \<Rightarrow> string \<Rightarrow> json \<Rightarrow> lease res" where
  "consume_budget H v kind identifier =
     bindE (validate_session_lease H v) (\<lambda>l.
     bindE (charge (ls_budgets l) (ls_usage l) kind identifier) (\<lambda>u.
     case u of None \<Rightarrow> Inr l | Some usage \<Rightarrow> refresh H (l\<lparr>ls_usage := usage\<rparr>)))"

definition settle_long_run :: "(string \<Rightarrow> string) \<Rightarrow> json \<Rightarrow> string \<Rightarrow> lease res" where
  "settle_long_run H v run_id =
     bindE (validate_session_lease H v) (\<lambda>l.
     bindE (opaque (JStr run_id)) (\<lambda>identifier.
     if identifier \<notin> set (us_active_long_runs (ls_usage l)) then Inr l
     else refresh H (l\<lparr>ls_usage := (ls_usage l)
       \<lparr>us_active_long_runs := filter (\<lambda>x. x \<noteq> identifier) (us_active_long_runs (ls_usage l))\<rparr>\<rparr>)))"

definition update_liveness :: "(string \<Rightarrow> string) \<Rightarrow> json \<Rightarrow> string \<Rightarrow> bool \<Rightarrow> bool \<Rightarrow> lease res" where
  "update_liveness H v at host_receipt_live stop =
     bindE (validate_session_lease H v) (\<lambda>l.
     bindE (utc_time (JStr at)) (\<lambda>observed.
     refresh H (l\<lparr>ls_lifecycle :=
       \<lparr>lc_status = (if stop then Session_stopped else if host_receipt_live then Session_live else Session_lost),
        lc_host_receipt_live = (host_receipt_live \<and> \<not> stop),
        lc_stopped_at = (if stop then Some observed else lc_stopped_at (ls_lifecycle l)),
        lc_last_seen_at = observed\<rparr>\<rparr>)))"

subsection \<open>Normal leases\<close>

lemma opaque_char_not_space: "opaque_char c \<Longrightarrow> \<not> is_space c"
  by (auto simp: opaque_char_def code_not_space) (simp_all add: is_space_def code_def)

lemma strip_opaque: "is_opaque s \<Longrightarrow> strip s = s"
  by (rule strip_no_space)
     (auto simp: is_opaque_def list_all_iff code_not_space opaque_char_not_space split: list.splits)

lemma opaque_ok: "opaque v = Inr s \<Longrightarrow> is_opaque s"
  by (simp add: opaque_def Let_def split: if_splits)

lemma opaque_JStr [simp]: "is_opaque s \<Longrightarrow> opaque (JStr s) = Inr s"
  by (simp add: opaque_def strip_opaque)

lemma opaque_again: "opaque v = Inr s \<Longrightarrow> opaque (JStr s) = Inr s"
  by (simp add: opaque_ok)

lemma session_sha_again: "session_sha v = Inr s \<Longrightarrow> session_sha (JStr s) = Inr s"
  by (auto simp: session_sha_def Let_def lower_sha removeprefix_sha split: if_splits)

lemma same_keys_map: "same_keys d ks \<longleftrightarrow> set (map fst d) = set ks"
  by (simp add: same_keys_def jkeys_def)

lemma bind_identity_ok: "bind_identity H i = Inr b \<Longrightarrow> sb_identity b = i \<and> sb_session_id b = derived_session_id H i"
  by (auto simp: bind_identity_def bindE_eq_Inr)

lemma session_binding_json_fields:
  "\<exists>d. session_binding_json b = JObj d \<and> same_keys d SESSION_BINDING_FIELDS \<and>
    jat d ''schema_version'' = JInt 1 \<and> jat d ''artifact_kind'' = JStr ''authority_session_binding'' \<and>
    jat d ''session_id'' = JStr (sb_session_id b) \<and>
    jat d ''workspace_identity'' = JStr (si_workspace_identity (sb_identity b)) \<and>
    jat d ''provider'' = JStr (si_provider (sb_identity b)) \<and>
    jat d ''thread_binding_sha256'' = JStr (si_thread_binding_sha256 (sb_identity b)) \<and>
    jat d ''activation_evidence_id'' = JStr (si_activation_evidence_id (sb_identity b)) \<and>
    jat d ''trust_class'' = JStr (si_trust_class (sb_identity b)) \<and>
    jat d ''approval_receipt_sha256'' = JStr (si_approval_receipt_sha256 (sb_identity b)) \<and>
    jat d ''session_ref'' = JStr (sb_session_ref b)"
  by (simp add: session_binding_json_def identity_fields_def same_keys_map SESSION_BINDING_FIELDS_def insert_commute)

definition binding_normal :: "(string \<Rightarrow> string) \<Rightarrow> session_binding \<Rightarrow> bool" where
  "binding_normal H b \<longleftrightarrow> validate_session_binding H (session_binding_json b) = Inr b"

lemma identity_normal:
  assumes "bind_identity H i = Inr b" and "si_trust_class i \<in> set TRUST_CLASSES"
    and "is_opaque (si_workspace_identity i)" "is_opaque (si_provider i)" "is_opaque (si_activation_evidence_id i)"
    and "session_sha (JStr (si_thread_binding_sha256 i)) = Inr (si_thread_binding_sha256 i)"
    and "session_sha (JStr (si_approval_receipt_sha256 i)) = Inr (si_approval_receipt_sha256 i)"
  shows "binding_normal H b"
proof -
  from bind_identity_ok [OF assms(1)] have b: "sb_identity b = i" "sb_session_id b = derived_session_id H i" by auto
  have i: "\<lparr>si_workspace_identity = si_workspace_identity i, si_provider = si_provider i,
      si_thread_binding_sha256 = si_thread_binding_sha256 i, si_activation_evidence_id = si_activation_evidence_id i,
      si_trust_class = si_trust_class i, si_approval_receipt_sha256 = si_approval_receipt_sha256 i\<rparr> = i" by simp
  from session_binding_json_fields [of b] obtain d where d: "session_binding_json b = JObj d"
    and f: "same_keys d SESSION_BINDING_FIELDS" "jat d ''schema_version'' = JInt 1"
      "jat d ''artifact_kind'' = JStr ''authority_session_binding''" "jat d ''session_id'' = JStr (sb_session_id b)"
      "jat d ''workspace_identity'' = JStr (si_workspace_identity (sb_identity b))"
      "jat d ''provider'' = JStr (si_provider (sb_identity b))"
      "jat d ''thread_binding_sha256'' = JStr (si_thread_binding_sha256 (sb_identity b))"
      "jat d ''activation_evidence_id'' = JStr (si_activation_evidence_id (sb_identity b))"
      "jat d ''trust_class'' = JStr (si_trust_class (sb_identity b))"
      "jat d ''approval_receipt_sha256'' = JStr (si_approval_receipt_sha256 (sb_identity b))"
      "jat d ''session_ref'' = JStr (sb_session_ref b)" by blast
  show ?thesis
    using assms(2-) by (simp add: binding_normal_def validate_session_binding_def d f b equals_int_def i assms(1) Let_def)
qed

lemma validate_binding_normal:
  assumes "validate_session_binding H v = Inr b"
  shows "binding_normal H b"
proof (cases v)
  case (JObj d)
  from assms [unfolded JObj validate_session_binding_def json.case Let_def result_simps]
  obtain w p t e r where parts: "opaque (jat d ''workspace_identity'') = Inr w" "opaque (jat d ''provider'') = Inr p"
    "session_sha (jat d ''thread_binding_sha256'') = Inr t" "opaque (jat d ''activation_evidence_id'') = Inr e"
    "session_sha (jat d ''approval_receipt_sha256'') = Inr r"
    and trust: "str_or_empty (jat d ''trust_class'') \<in> set TRUST_CLASSES"
    and b: "bind_identity H \<lparr>si_workspace_identity = w, si_provider = p, si_thread_binding_sha256 = t,
      si_activation_evidence_id = e, si_trust_class = str_or_empty (jat d ''trust_class''), si_approval_receipt_sha256 = r\<rparr> = Inr b"
    by blast
  from parts trust show ?thesis
    by (intro identity_normal [OF b]) (simp_all add: opaque_ok session_sha_again)
qed (use assms in \<open>simp_all add: validate_session_binding_def\<close>)

definition opaques_normal :: "string list \<Rightarrow> bool" where
  "opaques_normal xs \<longleftrightarrow> list_all is_opaque xs \<and> distinct xs \<and> sorted xs"

lemma unique_opaques_ok:
  assumes "unique_opaques vs = Inr xs"
  shows "xs \<noteq> []" and "opaques_normal xs"
proof -
  define items where "items = map (\<lambda>v. strip (str_or_empty v)) vs"
  have "items \<noteq> []" "list_all is_opaque items" "distinct items" "xs = sort items"
    using assms unfolding unique_opaques_def items_def [symmetric] Let_def by (simp_all split: if_splits)
  then show "xs \<noteq> []" "opaques_normal xs"
    by (simp_all add: opaques_normal_def list_all_iff) (metis length_0_conv length_sort)
qed

lemma unique_opaques_again:
  assumes "xs \<noteq> []" and "opaques_normal xs"
  shows "unique_opaques (map JStr xs) = Inr xs"
proof -
  have "map (\<lambda>v. strip (str_or_empty v)) (map JStr xs) = map (\<lambda>x. x) xs"
    unfolding map_map using assms(2) by (intro map_cong) (auto simp: opaques_normal_def list_all_iff strip_opaque)
  with assms show ?thesis unfolding unique_opaques_def opaques_normal_def by (simp add: sorted_sort_id)
qed

lemma long_runs_ok: "long_runs_field v = Inr xs \<Longrightarrow> opaques_normal xs"
  using unique_opaques_ok(2) by (auto simp: long_runs_field_def bindE_eq_Inr opaques_normal_def split: if_splits)

lemma long_runs_again: "opaques_normal xs \<Longrightarrow> long_runs_field (JList (map JStr xs)) = Inr xs"
  using unique_opaques_again [of xs] by (simp add: long_runs_field_def iter_items_def)

definition budgets_normal :: "budgets \<Rightarrow> bool" where
  "budgets_normal b \<longleftrightarrow> 1 \<le> bg_max_cycles b \<and> 1 \<le> bg_max_agent_actions b \<and> 1 \<le> bg_max_concurrent_long_runs b \<and>
     1 \<le> bg_max_commits_per_cycle b"

lemma budget_item_ok: "budget_item v = Inr n \<Longrightarrow> 1 \<le> n"
  by (auto simp: budget_item_def split: json.splits if_splits)

lemma budgets_field_ok: "budgets_field v = Inr b \<Longrightarrow> budgets_normal b"
  by (auto simp: budgets_field_def budgets_normal_def bindE_eq_Inr dest!: budget_item_ok split: json.splits if_splits)

lemma budgets_field_again: "budgets_normal b \<Longrightarrow> budgets_field (budgets_json b) = Inr b"
  by (simp add: budgets_field_def budgets_json_def budgets_normal_def same_keys_map BUDGET_FIELDS_def budget_item_def
      insert_commute)

definition commits_normal :: "(string \<times> int) list \<Rightarrow> bool" where
  "commits_normal xs \<longleftrightarrow> list_all (\<lambda>(k, n). is_opaque k \<and> 0 \<le> n) xs \<and> distinct (map fst xs) \<and> sorted (map fst xs)"

lemma counter_item_ok: "counter_item v = Inr n \<Longrightarrow> 0 \<le> n"
  by (auto simp: counter_item_def split: json.splits if_splits)

lemma dput_all: "list_all P xs \<Longrightarrow> P (k, v) \<Longrightarrow> list_all P (dput k v xs)"
  by (induction xs) auto

lemma commit_items_ok:
  "commit_items xs acc = Inr ys \<Longrightarrow> list_all (\<lambda>(k, n). is_opaque k \<and> 0 \<le> n) acc \<Longrightarrow> distinct (map fst acc) \<Longrightarrow>
   list_all (\<lambda>(k, n). is_opaque k \<and> 0 \<le> n) ys \<and> distinct (map fst ys)"
proof (induction xs acc rule: commit_items.induct)
  case (2 k v xs acc)
  from 2(2) obtain key n where "opaque (JStr k) = Inr key" "counter_item v = Inr n"
    and "commit_items xs (dput key n acc) = Inr ys" by (auto simp: bindE_eq_Inr)
  with 2(1) [of key n] 2(3,4) show ?case by (simp add: dput_all dput_distinct opaque_ok counter_item_ok)
qed simp

lemma commit_items_again:
  "list_all (\<lambda>(k, n). is_opaque k \<and> 0 \<le> n) xs \<Longrightarrow> distinct (map fst (acc @ xs)) \<Longrightarrow>
   commit_items (map (\<lambda>(k, n). (k, JInt n)) xs) acc = Inr (acc @ xs)"
  by (induction xs arbitrary: acc) (auto simp: counter_item_def dput_fresh)

lemma sort_commits: "list_all P xs \<Longrightarrow> distinct (map fst xs) \<Longrightarrow> list_all P (sort_key fst xs) \<and> distinct (map fst (sort_key fst xs))"
  by (simp add: list_all_iff distinct_map_sort_key)

definition usage_normal :: "usage \<Rightarrow> bool" where
  "usage_normal u \<longleftrightarrow> 0 \<le> us_cycles u \<and> 0 \<le> us_agent_actions u \<and> opaques_normal (us_active_long_runs u) \<and>
     commits_normal (us_commits_by_cycle u)"

lemma usage_field_ok:
  assumes "usage_field v = Inr u"
  shows "usage_normal u"
proof (cases v)
  case (JObj d)
  obtain cs where cs: "jat d ''commits_by_cycle'' = JObj cs"
    using assms by (cases "jat d ''commits_by_cycle''") (auto simp: JObj usage_field_def bindE_eq_Inr split: if_splits)
  from assms [unfolded JObj usage_field_def json.case cs result_simps] obtain n m runs commits where
    parts: "counter_item (jat d ''cycles'') = Inr n" "counter_item (jat d ''agent_actions'') = Inr m"
      "commit_items cs [] = Inr commits" "long_runs_field (jat d ''active_long_runs'') = Inr runs"
    and u: "u = \<lparr>us_cycles = n, us_agent_actions = m, us_active_long_runs = runs, us_commits_by_cycle = sort_key fst commits\<rparr>"
    by blast
  have "opaques_normal runs" using parts(4) by (rule long_runs_ok)
  moreover have "commits_normal (sort_key fst commits)"
    using commit_items_ok [OF parts(3)] by (simp add: commits_normal_def sort_commits distinct_map_sort_key)
  ultimately show ?thesis using parts(1,2) by (simp add: u usage_normal_def counter_item_ok)
qed (use assms in \<open>simp_all add: usage_field_def\<close>)

lemma usage_field_again:
  assumes "usage_normal u"
  shows "usage_field (usage_json u) = Inr u"
proof -
  have "long_runs_field (JList (map JStr (us_active_long_runs u))) = Inr (us_active_long_runs u)"
    using assms by (simp add: usage_normal_def long_runs_again)
  moreover have "commit_items (map (\<lambda>(k, n). (k, JInt n)) (us_commits_by_cycle u)) [] = Inr (us_commits_by_cycle u)"
    using assms commit_items_again [of "us_commits_by_cycle u" "[]"] by (simp add: usage_normal_def commits_normal_def)
  moreover have "sort_key fst (us_commits_by_cycle u) = us_commits_by_cycle u"
    using assms by (simp add: usage_normal_def commits_normal_def sort_key_id_if_sorted)
  ultimately show ?thesis
    using assms by (simp add: usage_field_def usage_json_def same_keys_map USAGE_FIELDS_def insert_commute usage_normal_def
        counter_item_def)
qed

definition lifecycle_normal :: "lifecycle \<Rightarrow> bool" where
  "lifecycle_normal l \<longleftrightarrow> (lc_status l = Session_live \<longrightarrow> lc_host_receipt_live l) \<and>
     (case lc_stopped_at l of None \<Rightarrow> True | Some t \<Rightarrow> is_utc t) \<and> is_utc (lc_last_seen_at l)"

lemma nullable_utc_ok: "nullable_utc v = Inr x \<Longrightarrow> (case x of None \<Rightarrow> True | Some t \<Rightarrow> is_utc t)"
  by (auto simp: nullable_utc_def bindE_eq_Inr dest: utc_time_ok split: if_splits)

lemma nullable_utc_again: "(case x of None \<Rightarrow> True | Some t \<Rightarrow> is_utc t) \<Longrightarrow> nullable_utc (opt_utc x) = Inr x"
  by (cases x) (simp_all add: nullable_utc_def opt_utc_def utc_time_text)

lemma lifecycle_field_ok:
  assumes "lifecycle_field v = Inr l"
  shows "lifecycle_normal l"
proof (cases v)
  case (JObj d)
  with assms show ?thesis
    by (auto simp: lifecycle_field_def lifecycle_normal_def bindE_eq_Inr dest!: nullable_utc_ok utc_time_ok
        split: if_splits option.splits json.splits)
qed (use assms in \<open>simp_all add: lifecycle_field_def\<close>)

lemma lifecycle_field_again:
  assumes "lifecycle_normal l"
  shows "lifecycle_field (lifecycle_json l) = Inr l"
proof -
  have "map_of SESSION_STATUSES (enum_name SESSION_STATUSES (lc_status l)) = Some (lc_status l)"
    by (cases "lc_status l") (simp_all add: SESSION_STATUSES_def enum_name_def)
  with assms show ?thesis
    by (simp add: lifecycle_field_def lifecycle_json_def lifecycle_normal_def same_keys_map LIFECYCLE_FIELDS_def
        insert_commute nullable_utc_again utc_time_text)
qed

definition lease_body_normal :: "(string \<Rightarrow> string) \<Rightarrow> lease \<Rightarrow> bool" where
  "lease_body_normal H l \<longleftrightarrow>
     binding_normal H (ls_binding l) \<and> ls_activation_mode l \<in> set ACTIVATION_MODES \<and>
     risk_value (ls_risk_ceiling l) \<le> risk_value R2 \<and>
     ls_operations l \<noteq> [] \<and> opaques_normal (ls_operations l) \<and> set (ls_operations l) \<inter> set FORBIDDEN_OPERATIONS = {} \<and>
     is_opaque (ls_goal_id l) \<and> is_opaque (ls_task_family l) \<and> is_opaque (ls_goal_digest l) \<and>
     is_opaque (ls_policy_digest l) \<and> is_opaque (ls_manifest_digest l) \<and>
     is_utc (ls_issued_at l) \<and> (case ls_expires_at l of None \<Rightarrow> True | Some t \<Rightarrow> is_utc t) \<and>
     budgets_normal (ls_budgets l) \<and> lifecycle_normal (ls_lifecycle l) \<and> usage_normal (ls_usage l)"

definition lease_normal :: "(string \<Rightarrow> string) \<Rightarrow> lease \<Rightarrow> bool" where
  "lease_normal H l \<longleftrightarrow>
     lease_body_normal H l \<and> ls_lease_id l = derived_lease_id H l \<and> ls_state_sha256 l = derived_state H l"

lemma derived_frame [simp]:
  "derived_lease_id H (l\<lparr>ls_lease_id := i\<rparr>) = derived_lease_id H l"
  "derived_lease_id H (l\<lparr>ls_state_sha256 := s\<rparr>) = derived_lease_id H l"
  "derived_lease_id H (l\<lparr>ls_usage := u\<rparr>) = derived_lease_id H l"
  "derived_lease_id H (l\<lparr>ls_lifecycle := c\<rparr>) = derived_lease_id H l"
  "derived_state H (l\<lparr>ls_lease_id := i\<rparr>) = derived_state H l"
  "derived_state H (l\<lparr>ls_state_sha256 := s\<rparr>) = derived_state H l"
  by (simp_all add: derived_lease_id_def derived_state_def lease_identity_def state_material_def)

lemma risk_name: "map_of RISK_TIERS (enum_name RISK_TIERS r) = Some r"
  by (cases r) (simp_all add: RISK_TIERS_def enum_name_def)

lemma lease_operations_ok:
  assumes "lease_operations v = Inr ops"
  shows "ops \<noteq> []" and "opaques_normal ops" and "set ops \<inter> set FORBIDDEN_OPERATIONS = {}"
  using assms unique_opaques_ok
  by (auto simp: lease_operations_def bindE_eq_Inr list_ex_iff split: if_splits)

lemma lease_operations_again:
  "ops \<noteq> [] \<Longrightarrow> opaques_normal ops \<Longrightarrow> set ops \<inter> set FORBIDDEN_OPERATIONS = {} \<Longrightarrow>
   lease_operations (JList (map JStr ops)) = Inr ops"
  by (auto simp: lease_operations_def iter_items_def unique_opaques_again list_ex_iff)

lemma lease_json_fields:
  "\<exists>d. lease_json l = JObj d \<and> same_keys d LEASE_FIELDS \<and> jat d ''schema_version'' = JInt 1 \<and>
    jat d ''artifact_kind'' = JStr ''authority_session_lease'' \<and>
    jat d ''session_binding'' = session_binding_json (ls_binding l) \<and> jat d ''goal_id'' = JStr (ls_goal_id l) \<and>
    jat d ''task_family'' = JStr (ls_task_family l) \<and> jat d ''activation_mode'' = JStr (ls_activation_mode l) \<and>
    jat d ''risk_ceiling'' = JStr (enum_name RISK_TIERS (ls_risk_ceiling l)) \<and>
    jat d ''allowed_operation_groups'' = JList (map JStr (ls_operations l)) \<and>
    jat d ''goal_digest'' = JStr (ls_goal_digest l) \<and> jat d ''policy_digest'' = JStr (ls_policy_digest l) \<and>
    jat d ''manifest_digest'' = JStr (ls_manifest_digest l) \<and>
    jat d ''issued_at'' = JStr (utc_text (ls_issued_at l)) \<and> jat d ''expires_at'' = opt_utc (ls_expires_at l) \<and>
    jat d ''budgets'' = budgets_json (ls_budgets l) \<and> jat d ''lifecycle'' = lifecycle_json (ls_lifecycle l) \<and>
    jat d ''usage'' = usage_json (ls_usage l) \<and> jat d ''lease_id'' = JStr (ls_lease_id l) \<and>
    jat d ''state_sha256'' = JStr (ls_state_sha256 l)"
  by (simp add: lease_json_def state_material_def lease_identity_def same_keys_map LEASE_FIELDS_def insert_commute)

lemma validate_lease_again:
  assumes "lease_normal H l"
  shows "validate_session_lease H (lease_json l) = Inr l"
proof -
  from lease_json_fields [of l] obtain d where d: "lease_json l = JObj d" and f: "same_keys d LEASE_FIELDS"
    "jat d ''schema_version'' = JInt 1" "jat d ''artifact_kind'' = JStr ''authority_session_lease''"
    "jat d ''session_binding'' = session_binding_json (ls_binding l)" "jat d ''goal_id'' = JStr (ls_goal_id l)"
    "jat d ''task_family'' = JStr (ls_task_family l)" "jat d ''activation_mode'' = JStr (ls_activation_mode l)"
    "jat d ''risk_ceiling'' = JStr (enum_name RISK_TIERS (ls_risk_ceiling l))"
    "jat d ''allowed_operation_groups'' = JList (map JStr (ls_operations l))"
    "jat d ''goal_digest'' = JStr (ls_goal_digest l)" "jat d ''policy_digest'' = JStr (ls_policy_digest l)"
    "jat d ''manifest_digest'' = JStr (ls_manifest_digest l)" "jat d ''issued_at'' = JStr (utc_text (ls_issued_at l))"
    "jat d ''expires_at'' = opt_utc (ls_expires_at l)" "jat d ''budgets'' = budgets_json (ls_budgets l)"
    "jat d ''lifecycle'' = lifecycle_json (ls_lifecycle l)" "jat d ''usage'' = usage_json (ls_usage l)"
    "jat d ''lease_id'' = JStr (ls_lease_id l)" "jat d ''state_sha256'' = JStr (ls_state_sha256 l)" by blast
  note n = assms [unfolded lease_normal_def lease_body_normal_def]
  have b: "validate_session_binding H (session_binding_json (ls_binding l)) = Inr (ls_binding l)"
    using n by (simp add: binding_normal_def)
  have e: "\<lparr>ls_binding = ls_binding l, ls_goal_id = ls_goal_id l, ls_task_family = ls_task_family l,
      ls_activation_mode = ls_activation_mode l, ls_risk_ceiling = ls_risk_ceiling l, ls_operations = ls_operations l,
      ls_goal_digest = ls_goal_digest l, ls_policy_digest = ls_policy_digest l,
      ls_manifest_digest = ls_manifest_digest l, ls_issued_at = ls_issued_at l, ls_expires_at = ls_expires_at l,
      ls_budgets = ls_budgets l, ls_lifecycle = ls_lifecycle l, ls_usage = ls_usage l, ls_lease_id = [],
      ls_state_sha256 = []\<rparr> = l\<lparr>ls_lease_id := [], ls_state_sha256 := []\<rparr>" by simp
  have l: "l\<lparr>ls_lease_id := derived_lease_id H l, ls_state_sha256 := derived_state H l\<rparr> = l" using n by simp
  show ?thesis
    using n b lease_operations_again [of "ls_operations l"]
    by (simp add: validate_session_lease_def d f equals_int_def risk_name lifecycle_field_again utc_time_text nullable_utc_again
        budgets_field_again usage_field_again Let_def e l)
qed


lemma sealed_normal:
  assumes "lease_body_normal H m"
  shows "lease_normal H (m\<lparr>ls_lease_id := derived_lease_id H m, ls_state_sha256 := derived_state H m\<rparr>)"
proof -
  from assms have "lease_body_normal H (m\<lparr>ls_lease_id := derived_lease_id H m, ls_state_sha256 := derived_state H m\<rparr>)"
    by (simp add: lease_body_normal_def)
  then show ?thesis by (simp add: lease_normal_def)
qed

lemma validate_lease_normal:
  assumes "validate_session_lease H v = Inr l"
  shows "lease_normal H l"
proof (cases v)
  case (JObj d)
  obtain risk where risk: "map_of RISK_TIERS (str_or_empty (jat d ''risk_ceiling'')) = Some risk"
    using assms by (cases "map_of RISK_TIERS (str_or_empty (jat d ''risk_ceiling''))")
      (auto simp: JObj validate_session_lease_def bindE_eq_Inr Let_def split: if_splits)
  from assms [unfolded JObj validate_session_lease_def json.case Let_def risk option.case result_simps]
  obtain b ops lc gid fam gd pd md iss ex bg us where
    parts: "validate_session_binding H (jat d ''session_binding'') = Inr b"
      "lease_operations (jat d ''allowed_operation_groups'') = Inr ops"
      "lifecycle_field (jat d ''lifecycle'') = Inr lc" "opaque (jat d ''goal_id'') = Inr gid"
      "opaque (jat d ''task_family'') = Inr fam" "opaque (jat d ''goal_digest'') = Inr gd"
      "opaque (jat d ''policy_digest'') = Inr pd" "opaque (jat d ''manifest_digest'') = Inr md"
      "utc_time (jat d ''issued_at'') = Inr iss" "nullable_utc (jat d ''expires_at'') = Inr ex"
      "budgets_field (jat d ''budgets'') = Inr bg" "usage_field (jat d ''usage'') = Inr us"
    and mode: "str_or_empty (jat d ''activation_mode'') \<in> set ACTIVATION_MODES"
    and r2: "\<not> risk_value risk > risk_value R2"
    and l: "l = (let m = \<lparr>ls_binding = b, ls_goal_id = gid, ls_task_family = fam,
        ls_activation_mode = str_or_empty (jat d ''activation_mode''), ls_risk_ceiling = risk, ls_operations = ops,
        ls_goal_digest = gd, ls_policy_digest = pd, ls_manifest_digest = md, ls_issued_at = iss, ls_expires_at = ex,
        ls_budgets = bg, ls_lifecycle = lc, ls_usage = us, ls_lease_id = [], ls_state_sha256 = []\<rparr>
      in m\<lparr>ls_lease_id := derived_lease_id H m, ls_state_sha256 := derived_state H m\<rparr>)"
    unfolding Let_def by blast
  show ?thesis
    unfolding l Let_def using parts mode r2
    by (intro sealed_normal) (simp add: lease_body_normal_def validate_binding_normal lease_operations_ok opaque_ok
        utc_time_ok nullable_utc_ok budgets_field_ok lifecycle_field_ok usage_field_ok not_less)
qed (use assms in \<open>simp_all add: validate_session_lease_def\<close>)

interpretation lease_norm: normalizer "validate_session_lease H" lease_json for H
  by unfold_locales (rule validate_lease_again [OF validate_lease_normal])

lemma refresh_ok:
  assumes "lease_body_normal H l" and "ls_lease_id l = derived_lease_id H l"
  shows "refresh H l = Inr (l\<lparr>ls_state_sha256 := derived_state H l\<rparr>)"
proof -
  from assms have "lease_normal H (l\<lparr>ls_state_sha256 := derived_state H l\<rparr>)"
    by (simp add: lease_normal_def lease_body_normal_def)
  then show ?thesis unfolding refresh_def by (rule validate_lease_again)
qed

subsection \<open>Budgets\<close>

lemma opaques_insert:
  "opaques_normal xs \<Longrightarrow> is_opaque x \<Longrightarrow> x \<notin> set xs \<Longrightarrow> opaques_normal (sort (xs @ [x]))"
  by (auto simp: opaques_normal_def list_all_iff)

lemma opaques_filter: "opaques_normal xs \<Longrightarrow> opaques_normal (filter P xs)"
  by (auto simp: opaques_normal_def list_all_iff sorted_wrt_filter)

lemma commits_dput:
  assumes "commits_normal xs" and "is_opaque k" and "0 \<le> n"
  shows "commits_normal (sort_key fst (dput k n xs))"
  using assms by (simp add: commits_normal_def sort_commits dput_all dput_distinct distinct_map_sort_key)

text \<open>The usage of a lease never exceeds its budgets\<close>

definition within_budget :: "budgets \<Rightarrow> usage \<Rightarrow> bool" where
  "within_budget b u \<longleftrightarrow>
     us_cycles u \<le> bg_max_cycles b \<and> us_agent_actions u \<le> bg_max_agent_actions b \<and>
     int (length (us_active_long_runs u)) \<le> bg_max_concurrent_long_runs b \<and>
     (\<forall>(k, n) \<in> set (us_commits_by_cycle u). n \<le> bg_max_commits_per_cycle b)"

lemma map_of_commits: "commits_normal xs \<Longrightarrow> map_of xs k = Some n \<Longrightarrow> 0 \<le> n"
  by (auto simp: commits_normal_def list_all_iff dest: map_of_SomeD)

lemma set_dput: "set (dput k v xs) \<subseteq> insert (k, v) (set xs)"
  by (induction xs) (auto split: if_splits)

lemma charge_ok:
  assumes "charge b u kind i = Inr (Some u')" and "usage_normal u"
  shows "usage_normal u'" and "within_budget b u \<Longrightarrow> within_budget b u'"
proof -
  let ?count = "\<lambda>k. case map_of (us_commits_by_cycle u) k of None \<Rightarrow> 0 | Some n \<Rightarrow> n"
  have c: "0 \<le> ?count k" for k
    using assms(2) map_of_commits by (auto simp: usage_normal_def split: option.splits)
  consider (cycle) "u' = u\<lparr>us_cycles := us_cycles u + 1\<rparr>" "us_cycles u < bg_max_cycles b"
    | (action) "u' = u\<lparr>us_agent_actions := us_agent_actions u + 1\<rparr>" "us_agent_actions u < bg_max_agent_actions b"
    | (run) r where "u' = u\<lparr>us_active_long_runs := sort (us_active_long_runs u @ [r])\<rparr>" "is_opaque r"
        "r \<notin> set (us_active_long_runs u)" "int (length (us_active_long_runs u)) < bg_max_concurrent_long_runs b"
    | (commit) k where "u' = u\<lparr>us_commits_by_cycle := sort_key fst (dput k (?count k + 1) (us_commits_by_cycle u))\<rparr>"
        "is_opaque k" "?count k < bg_max_commits_per_cycle b"
    using assms(1) by (auto simp: charge_def bindE_eq_Inr Let_def not_le dest!: opaque_ok split: if_splits)
  then have "usage_normal u' \<and> (within_budget b u \<longrightarrow> within_budget b u')"
  proof cases
    case (commit k)
    have "commits_normal (sort_key fst (dput k (?count k + 1) (us_commits_by_cycle u)))"
      using assms(2) commit(2) c [of k] by (intro commits_dput) (simp_all add: usage_normal_def)
    with assms(2) commit set_dput [of k "?count k + 1" "us_commits_by_cycle u"] show ?thesis
      by (fastforce simp: usage_normal_def within_budget_def)
  qed (use assms(2) in \<open>auto simp: usage_normal_def within_budget_def opaques_insert\<close>)
  then show "usage_normal u'" and "within_budget b u \<Longrightarrow> within_budget b u'" by blast+
qed

subsection \<open>Runs of a session\<close>

text \<open>Every operation on the document that the previous one returned\<close>

inductive session_step :: "(string \<Rightarrow> string) \<Rightarrow> lease \<Rightarrow> lease \<Rightarrow> bool" for H where
  consumed: "consume_budget H (lease_json l) kind i = Inr l' \<Longrightarrow> session_step H l l'"
| settled: "settle_long_run H (lease_json l) run = Inr l' \<Longrightarrow> session_step H l l'"
| observed: "update_liveness H (lease_json l) at live stop = Inr l' \<Longrightarrow> session_step H l l'"

definition restated :: "(string \<Rightarrow> string) \<Rightarrow> lease \<Rightarrow> lease" where
  "restated H l = l\<lparr>ls_state_sha256 := derived_state H l\<rparr>"

lemma refresh_usage:
  "lease_normal H l \<Longrightarrow> usage_normal u \<Longrightarrow> refresh H (l\<lparr>ls_usage := u\<rparr>) = Inr (restated H (l\<lparr>ls_usage := u\<rparr>))"
  unfolding restated_def by (intro refresh_ok) (simp_all add: lease_normal_def lease_body_normal_def)

lemma refresh_lifecycle:
  "lease_normal H l \<Longrightarrow> lifecycle_normal c \<Longrightarrow> refresh H (l\<lparr>ls_lifecycle := c\<rparr>) = Inr (restated H (l\<lparr>ls_lifecycle := c\<rparr>))"
  unfolding restated_def by (intro refresh_ok) (simp_all add: lease_normal_def lease_body_normal_def)

lemma restated_normal:
  "lease_body_normal H l \<Longrightarrow> ls_lease_id l = derived_lease_id H l \<Longrightarrow> lease_normal H (restated H l)"
  by (simp add: restated_def lease_normal_def lease_body_normal_def)

lemma usage_step_normal: "lease_normal H l \<Longrightarrow> usage_normal u \<Longrightarrow> lease_normal H (restated H (l\<lparr>ls_usage := u\<rparr>))"
  by (rule restated_normal) (simp_all add: lease_normal_def lease_body_normal_def)

lemma lifecycle_step_normal: "lease_normal H l \<Longrightarrow> lifecycle_normal c \<Longrightarrow> lease_normal H (restated H (l\<lparr>ls_lifecycle := c\<rparr>))"
  by (rule restated_normal) (simp_all add: lease_normal_def lease_body_normal_def)

text \<open>The exact result of each operation on a normal lease\<close>

lemma consume_budget_result:
  assumes "lease_normal H l"
  shows "consume_budget H (lease_json l) kind i =
    bindE (charge (ls_budgets l) (ls_usage l) kind i) (\<lambda>u.
      case u of None \<Rightarrow> Inr l | Some us \<Rightarrow> Inr (restated H (l\<lparr>ls_usage := us\<rparr>)))"
proof (cases "charge (ls_budgets l) (ls_usage l) kind i")
  case (Inr x)
  show ?thesis
  proof (cases x)
    case None
    then show ?thesis using Inr by (simp add: consume_budget_def validate_lease_again [OF assms])
  next
    case (Some u)
    have "usage_normal u"
      using charge_ok(1) Inr Some assms by (auto simp: lease_normal_def lease_body_normal_def)
    then show ?thesis using Inr Some by (simp add: consume_budget_def validate_lease_again [OF assms] refresh_usage [OF assms])
  qed
qed (simp add: consume_budget_def validate_lease_again [OF assms])

lemma settle_result:
  assumes "lease_normal H l" and "is_opaque run"
  shows "settle_long_run H (lease_json l) run =
    Inr (if run \<in> set (us_active_long_runs (ls_usage l))
      then restated H (l\<lparr>ls_usage := (ls_usage l)\<lparr>us_active_long_runs :=
        filter (\<lambda>x. x \<noteq> run) (us_active_long_runs (ls_usage l))\<rparr>\<rparr>) else l)"
proof -
  have "usage_normal ((ls_usage l)\<lparr>us_active_long_runs := filter (\<lambda>x. x \<noteq> run) (us_active_long_runs (ls_usage l))\<rparr>)"
    using assms(1) by (simp add: lease_normal_def lease_body_normal_def usage_normal_def opaques_filter)
  then show ?thesis using assms(2) by (simp add: settle_long_run_def validate_lease_again [OF assms(1)] refresh_usage [OF assms(1)])
qed

lemma update_liveness_result:
  assumes "lease_normal H l" and "utc_time (JStr at) = Inr t"
  shows "update_liveness H (lease_json l) at live stop = Inr (restated H (l\<lparr>ls_lifecycle :=
       \<lparr>lc_status = (if stop then Session_stopped else if live then Session_live else Session_lost),
        lc_host_receipt_live = (live \<and> \<not> stop),
        lc_stopped_at = (if stop then Some t else lc_stopped_at (ls_lifecycle l)), lc_last_seen_at = t\<rparr>\<rparr>))"
proof -
  have "lifecycle_normal (ls_lifecycle l)" using assms(1) by (simp add: lease_normal_def lease_body_normal_def)
  then have "lifecycle_normal \<lparr>lc_status = (if stop then Session_stopped else if live then Session_live else Session_lost),
        lc_host_receipt_live = (live \<and> \<not> stop),
        lc_stopped_at = (if stop then Some t else lc_stopped_at (ls_lifecycle l)), lc_last_seen_at = t\<rparr>"
    using utc_time_ok [OF assms(2)] by (simp add: lifecycle_normal_def)
  from refresh_lifecycle [OF assms(1) this] assms(2) show ?thesis
    by (simp add: update_liveness_def validate_lease_again [OF assms(1)])
qed


lemma session_step_keeps:
  assumes "session_step H l l'" and "lease_normal H l"
  shows "lease_normal H l' \<and> lease_identity l' = lease_identity l \<and>
    (within_budget (ls_budgets l) (ls_usage l) \<longrightarrow> within_budget (ls_budgets l) (ls_usage l'))"
  using assms(1)
proof cases
  case (consumed kind i)
  from consumed [unfolded consume_budget_result [OF assms(2)]]
  obtain x where x: "charge (ls_budgets l) (ls_usage l) kind i = Inr x"
    and l': "l' = (case x of None \<Rightarrow> l | Some u \<Rightarrow> restated H (l\<lparr>ls_usage := u\<rparr>))"
    by (auto simp: bindE_eq_Inr split: option.splits)
  have n: "usage_normal (ls_usage l)" using assms(2) by (simp add: lease_normal_def lease_body_normal_def)
  show ?thesis
  proof (cases x)
    case (Some u)
    with charge_ok [OF x [unfolded Some] n] usage_step_normal [OF assms(2)] l' show ?thesis
      by (simp add: restated_def lease_identity_def)
  qed (use l' assms(2) in simp)
next
  case (settled run)
  then obtain r where r: "opaque (JStr run) = Inr r" by (auto simp: settle_long_run_def bindE_eq_Inr)
  have "settle_long_run H (lease_json l) run = settle_long_run H (lease_json l) r"
    using r opaque_again [OF r] by (simp add: settle_long_run_def)
  with settled settle_result [OF assms(2) opaque_ok [OF r]] have l': "l' = (if r \<in> set (us_active_long_runs (ls_usage l))
      then restated H (l\<lparr>ls_usage := (ls_usage l)\<lparr>us_active_long_runs :=
        filter (\<lambda>x. x \<noteq> r) (us_active_long_runs (ls_usage l))\<rparr>\<rparr>) else l)" by simp
  have "usage_normal ((ls_usage l)\<lparr>us_active_long_runs := filter (\<lambda>x. x \<noteq> r) (us_active_long_runs (ls_usage l))\<rparr>)"
    using assms(2) by (simp add: lease_normal_def lease_body_normal_def usage_normal_def opaques_filter)
  moreover have "int (length (filter P xs)) \<le> n" if "int (length xs) \<le> n" for P n and xs :: "string list"
    by (rule order_trans [OF _ that]) simp
  ultimately show ?thesis
    using usage_step_normal [OF assms(2)] assms(2) l' by (auto simp: restated_def lease_identity_def within_budget_def)
next
  case (observed at live stop)
  then obtain t where t: "utc_time (JStr at) = Inr t" by (auto simp: update_liveness_def bindE_eq_Inr)
  from observed [unfolded update_liveness_result [OF assms(2) t]] obtain c where
    l': "l' = restated H (l\<lparr>ls_lifecycle := c\<rparr>)" and c: "c = \<lparr>lc_status = (if stop then Session_stopped else if live then Session_live else Session_lost),
        lc_host_receipt_live = (live \<and> \<not> stop),
        lc_stopped_at = (if stop then Some t else lc_stopped_at (ls_lifecycle l)), lc_last_seen_at = t\<rparr>" by auto
  have "lifecycle_normal (ls_lifecycle l)" using assms(2) by (simp add: lease_normal_def lease_body_normal_def)
  then have "lifecycle_normal c" using utc_time_ok [OF t] by (simp add: c lifecycle_normal_def)
  from lifecycle_step_normal [OF assms(2) this] l' show ?thesis by (simp add: restated_def lease_identity_def)
qed

lemma session_run_keeps:
  assumes "(session_step H)\<^sup>*\<^sup>* l l'" and "lease_normal H l"
  shows "lease_normal H l' \<and> lease_identity l' = lease_identity l \<and>
    (within_budget (ls_budgets l) (ls_usage l) \<longrightarrow> within_budget (ls_budgets l') (ls_usage l'))"
  using assms(1)
proof induction
  case (step y z)
  have "ls_budgets y = ls_budgets z" if "lease_identity y = lease_identity z"
    using that by (auto simp: lease_identity_def budgets_json_def)
  with step.IH session_step_keeps [OF step.hyps(2)] show ?case by simp
qed (use assms(2) in simp)

lemma build_lease_facts:
  assumes "build_session_lease H binding goal_id family mode ceiling groups gd pd md issued expires bg = Inr l"
  obtains b ar items where "validate_session_binding H binding = Inr b" "ls_binding l = b"
    "map_of RISK_TIERS ceiling = Some ar" "risk_value (ls_risk_ceiling l) \<le> risk_value ar"
    "iter_items groups = Inr items" "unique_opaques items = Inr (ls_operations l)"
    "nullable_utc expires = Inr (ls_expires_at l)" "lc_status (ls_lifecycle l) = Session_live"
    "lease_normal H l" "within_budget (ls_budgets l) (ls_usage l)"
proof -
  obtain ar where ar: "map_of RISK_TIERS ceiling = Some ar"
    using assms by (cases "map_of RISK_TIERS ceiling") (auto simp: build_session_lease_def bindE_eq_Inr split: if_splits)
  from assms [unfolded build_session_lease_def ar option.case Let_def result_simps]
  obtain b items ops goal fam g p m iss ex budgets where
    parts: "validate_session_binding H binding = Inr b" "mode \<in> set ACTIVATION_MODES" "iter_items groups = Inr items"
      "unique_opaques items = Inr ops" "\<not> list_ex (\<lambda>x. x \<in> set FORBIDDEN_OPERATIONS) ops"
      "opaque (JStr goal_id) = Inr goal" "opaque (JStr family) = Inr fam" "opaque (JStr gd) = Inr g"
      "opaque (JStr pd) = Inr p" "opaque (JStr md) = Inr m" "utc_time (JStr issued) = Inr iss"
      "nullable_utc expires = Inr ex" "(if truthy bg then budgets_field bg else Inr DEFAULT_BUDGETS) = Inr budgets"
    and run: "validate_session_lease H (lease_json (let n = \<lparr>ls_binding = b, ls_goal_id = goal, ls_task_family = fam,
        ls_activation_mode = mode, ls_risk_ceiling = (if risk_value ar \<le> risk_value R2 then ar else R2),
        ls_operations = ops, ls_goal_digest = g, ls_policy_digest = p, ls_manifest_digest = m, ls_issued_at = iss,
        ls_expires_at = ex, ls_budgets = budgets,
        ls_lifecycle = \<lparr>lc_status = Session_live, lc_host_receipt_live = True, lc_stopped_at = None, lc_last_seen_at = iss\<rparr>,
        ls_usage = \<lparr>us_cycles = 0, us_agent_actions = 0, us_active_long_runs = [], us_commits_by_cycle = []\<rparr>,
        ls_lease_id = [], ls_state_sha256 = []\<rparr>
      in n\<lparr>ls_lease_id := derived_lease_id H n, ls_state_sha256 := derived_state H n\<rparr>)) = Inr l"
    unfolding Let_def by blast
  have bn: "budgets_normal budgets"
    using parts(13) by (auto split: if_splits dest: budgets_field_ok) (simp_all add: DEFAULT_BUDGETS_def budgets_normal_def)
  define n where "n = \<lparr>ls_binding = b, ls_goal_id = goal, ls_task_family = fam,
        ls_activation_mode = mode, ls_risk_ceiling = (if risk_value ar \<le> risk_value R2 then ar else R2),
        ls_operations = ops, ls_goal_digest = g, ls_policy_digest = p, ls_manifest_digest = m, ls_issued_at = iss,
        ls_expires_at = ex, ls_budgets = budgets,
        ls_lifecycle = \<lparr>lc_status = Session_live, lc_host_receipt_live = True, lc_stopped_at = None, lc_last_seen_at = iss\<rparr>,
        ls_usage = \<lparr>us_cycles = 0, us_agent_actions = 0, us_active_long_runs = [], us_commits_by_cycle = []\<rparr>,
        ls_lease_id = [], ls_state_sha256 = []\<rparr>"
  have "lease_body_normal H n"
    using parts bn unique_opaques_ok [OF parts(4)]
    by (auto simp: n_def lease_body_normal_def validate_binding_normal opaque_ok utc_time_ok nullable_utc_ok list_ex_iff
        lifecycle_normal_def usage_normal_def opaques_normal_def commits_normal_def)
  from sealed_normal [OF this] have sealed: "lease_normal H (n\<lparr>ls_lease_id := derived_lease_id H n, ls_state_sha256 := derived_state H n\<rparr>)" .
  with run have l: "l = n\<lparr>ls_lease_id := derived_lease_id H n, ls_state_sha256 := derived_state H n\<rparr>"
    unfolding Let_def n_def [symmetric] by (simp add: validate_lease_again)
  show thesis
  proof (rule that [OF parts(1) _ ar _ parts(3)])
    show "within_budget (ls_budgets l) (ls_usage l)" using bn by (simp add: l n_def within_budget_def budgets_normal_def)
    show "lease_normal H l" using sealed by (simp only: l)
  qed (use parts in \<open>simp_all add: l n_def\<close>)
qed

lemma dispatch_result:
  assumes "lease_normal H l"
  shows "assert_dispatch_allowed H (lease_json l) at goal policy manifest op risk = Inr l' \<longleftrightarrow>
    l' = l \<and> lc_status (ls_lifecycle l) = Session_live \<and>
    (\<exists>t. utc_time (JStr at) = Inr t \<and> (\<forall>e. ls_expires_at l = Some e \<longrightarrow> instant t < instant e)) \<and>
    ls_goal_digest l = goal \<and> ls_policy_digest l = policy \<and> ls_manifest_digest l = manifest \<and>
    (\<exists>g \<in> set (ls_operations l). opaque (JStr op) = Inr g) \<and>
    (\<exists>r. map_of RISK_TIERS risk = Some r \<and> risk_value r \<le> risk_value (ls_risk_ceiling l))"
  unfolding assert_dispatch_allowed_def validate_lease_again [OF assms]
  by (cases "utc_time (JStr at)"; cases "opaque (JStr op)"; cases "map_of RISK_TIERS risk")
     (auto simp: not_le split: option.splits if_splits)

lemma operations_listed: "unique_opaques items = Inr ops \<Longrightarrow> set ops = (\<lambda>v. strip (str_or_empty v)) ` set items"
  by (auto simp: unique_opaques_def Let_def split: if_splits)

lemma identity_fields_of:
  assumes "lease_identity l = lease_identity m"
  shows "ls_risk_ceiling l = ls_risk_ceiling m" and "ls_operations l = ls_operations m"
proof -
  from assms have names: "enum_name RISK_TIERS (ls_risk_ceiling l) = enum_name RISK_TIERS (ls_risk_ceiling m)"
    and ops: "map JStr (ls_operations l) = map JStr (ls_operations m)"
    by (simp_all add: lease_identity_def)
  from arg_cong [OF names, of "map_of RISK_TIERS"] show "ls_risk_ceiling l = ls_risk_ceiling m" by (simp add: risk_name)
  show "ls_operations l = ls_operations m" by (rule map_injective [OF ops]) (simp add: inj_def)
qed

end
