(* ===== verification/Continuation_Action.thy ===== *)
theory Continuation_Action
  imports Session_Lease
begin

text \<open>
  The actions of the session continuation of the task-cycle skill
  (\<^verbatim>\<open>src/orchestrate-task-cycle/scripts/orchestrate_task_cycle/continuation\<close>): the shared field contracts
  (\<^verbatim>\<open>contracts.py\<close>), the closed action contract (\<^verbatim>\<open>actions.py\<close>), the effect class of a stage
  (\<^verbatim>\<open>stage/executor_registry.py\<close>) and the builders of the actions (\<^verbatim>\<open>action_builders.py\<close>). The identifiers,
  digests and times of \<^verbatim>\<open>contracts.py\<close> are those of the session leases.
\<close>

subsection \<open>Fields\<close>

text \<open>\<^verbatim>\<open>PurePosixPath(ref)\<close>: its parts and \<^verbatim>\<open>as_posix()\<close>, for relative paths\<close>

definition posix_parts :: "string \<Rightarrow> string list" where
  "posix_parts ref = filter (\<lambda>p. p \<noteq> [] \<and> p \<noteq> ''.'') (split_on (CHR ''/'') ref)"

definition posix_text :: "string \<Rightarrow> string" where
  "posix_text ref = (if posix_parts ref = [] then ''.'' else join ''/'' (posix_parts ref))"

definition closed_binding :: "json \<Rightarrow> binding res" where
  "closed_binding v =
     (case v of
        JObj d \<Rightarrow>
          if \<not> same_keys d [''ref'', ''sha256''] then refuse BadBinding
          else
          let ref = strip (str_or_empty (jat d ''ref'')) in
          if ref = [] \<or> length ref > 512 \<or> starts_with ref ''/'' \<or> ''..'' \<in> set (posix_parts ref)
             \<or> CHR 0x5C \<in> set ref then refuse BadPath
          else bindE (session_sha (jat d ''sha256'')) (\<lambda>s. Inr \<lparr>b_ref = posix_text ref, b_sha256 = s\<rparr>)
      | _ \<Rightarrow> refuse BadBinding)"

definition nullable :: "(json \<Rightarrow> 'a res) \<Rightarrow> json \<Rightarrow> 'a option res" where
  "nullable f v = (if v = JNull then Inr None else bindE (f v) (\<lambda>x. Inr (Some x)))"

definition closed_object :: "json \<Rightarrow> obj res" where
  "closed_object v = (case v of JObj d \<Rightarrow> Inr d | _ \<Rightarrow> refuse NotAnObject)"

definition positive_version :: "json \<Rightarrow> int res" where
  "positive_version v = (case v of JInt n \<Rightarrow> (if n < 1 then refuse BadInteger else Inr n) | _ \<Rightarrow> refuse BadInteger)"

subsection \<open>Actions\<close>

datatype continuation_actor = By_system | By_agent | By_user | By_host | By_external

datatype action_kind = Run_owner | Run_hybrid | Request_approval | Request_host_approval | Wait_external | Monitor_run
  | Complete_action | Stop_action

datatype action_effect = Observe_only | Local_reversible | Local_long_run | Local_commit | Outside_effect | Unclear_effect

definition ACTORS :: "(string \<times> continuation_actor) list" where
  "ACTORS = [(''system'', By_system), (''agent'', By_agent), (''user'', By_user), (''host'', By_host),
     (''external'', By_external)]"

definition KINDS :: "(string \<times> action_kind) list" where
  "KINDS = [(''run_owner'', Run_owner), (''run_hybrid'', Run_hybrid), (''request_approval'', Request_approval),
     (''request_host_approval'', Request_host_approval), (''wait_external'', Wait_external),
     (''monitor_run'', Monitor_run), (''complete'', Complete_action), (''stop'', Stop_action)]"

definition EFFECT_CLASSES :: "(string \<times> action_effect) list" where
  "EFFECT_CLASSES = [(''observe_only'', Observe_only), (''local_reversible'', Local_reversible),
     (''local_long_run'', Local_long_run), (''local_commit'', Local_commit), (''external'', Outside_effect),
     (''unknown'', Unclear_effect)]"

fun actor_kinds :: "continuation_actor \<Rightarrow> action_kind list" where
  "actor_kinds By_system = [Monitor_run, Complete_action, Stop_action]"
| "actor_kinds By_agent = [Run_owner, Run_hybrid, Monitor_run]"
| "actor_kinds By_user = [Request_approval, Stop_action]"
| "actor_kinds By_host = [Request_host_approval]"
| "actor_kinds By_external = [Wait_external]"

record action_token =
  at_state_version :: int
  at_state_sha256 :: string

record action =
  ca_actor :: continuation_actor
  ca_kind :: action_kind
  ca_session_id :: string
  ca_cycle_id :: string
  ca_task_id :: string
  ca_target :: string
  ca_owner_skill :: "string option"
  ca_preparation_binding :: "binding option"
  ca_work_order_binding :: "binding option"
  ca_routing :: obj
  ca_token :: action_token
  ca_effect_class :: action_effect
  ca_result_contract :: obj
  ca_reason :: "string option"
  ca_action_id :: string

definition token_json :: "action_token \<Rightarrow> json" where
  "token_json t = JObj [(''state_version'', JInt (at_state_version t)), (''state_sha256'', JStr (at_state_sha256 t))]"

text \<open>The guards on actor, kind and effect of \<^verbatim>\<open>_normalize_action\<close>; \<open>to_run\<close> is the raw comparison of the target\<close>

definition action_allowed ::
  "continuation_actor \<Rightarrow> action_kind \<Rightarrow> action_effect \<Rightarrow> string option \<Rightarrow> bool \<Rightarrow> bool" where
  "action_allowed actor kind eff owner to_run =
     (kind \<in> set (actor_kinds actor) \<and>
      \<not> (eff \<in> {Outside_effect, Unclear_effect} \<and> actor = By_agent) \<and>
      (eff = Local_long_run \<longrightarrow>
         actor = By_agent \<and> kind = Run_owner \<and> to_run \<and> owner = Some ''run-task-code-and-log'') \<and>
      (kind \<in> {Run_owner, Run_hybrid} \<longrightarrow> owner \<noteq> None) \<and>
      (kind \<notin> {Run_owner, Run_hybrid, Monitor_run} \<longrightarrow> owner = None))"

definition normalize_action :: "obj \<Rightarrow> action res" where
  "normalize_action d =
     (case (map_of ACTORS (str_or_empty (jat d ''actor'')), map_of KINDS (str_or_empty (jat d ''kind''))) of
        (Some actor, Some kind) \<Rightarrow>
          if kind \<notin> set (actor_kinds actor) then refuse BadEnum
          else (case map_of EFFECT_CLASSES (str_or_empty (jat d ''effect_class'')) of
            None \<Rightarrow> refuse BadEnum
          | Some eff \<Rightarrow>
              if eff \<in> {Outside_effect, Unclear_effect} \<and> actor = By_agent then refuse BadScope
              else
              bindE (nullable opaque (jat d ''owner_skill'')) (\<lambda>owner.
              if \<not> action_allowed actor kind eff owner (jat d ''target'' = JStr ''run'') then refuse BadScope
              else
              bindE (closed_object (jat d ''continuation_token'')) (\<lambda>tk.
              if \<not> same_keys tk [''state_version'', ''state_sha256''] then refuse NotClosed
              else
              bindE (positive_version (jat tk ''state_version'')) (\<lambda>version.
              bindE (nullable opaque (jat d ''reason'')) (\<lambda>reason.
              bindE (opaque (jat d ''session_id'')) (\<lambda>sid.
              bindE (opaque (jat d ''cycle_id'')) (\<lambda>cid.
              bindE (opaque (jat d ''task_id'')) (\<lambda>tid.
              bindE (opaque (jat d ''target'')) (\<lambda>target.
              bindE (nullable closed_binding (jat d ''preparation_binding'')) (\<lambda>prep.
              bindE (nullable closed_binding (jat d ''work_order_binding'')) (\<lambda>work.
              bindE (closed_object (jat d ''routing'')) (\<lambda>routing.
              bindE (session_sha (jat tk ''state_sha256'')) (\<lambda>sha.
              bindE (closed_object (jat d ''required_result_contract'')) (\<lambda>contract.
              Inr \<lparr>ca_actor = actor, ca_kind = kind, ca_session_id = sid, ca_cycle_id = cid, ca_task_id = tid,
                   ca_target = target, ca_owner_skill = owner, ca_preparation_binding = prep,
                   ca_work_order_binding = work, ca_routing = routing,
                   ca_token = \<lparr>at_state_version = version, at_state_sha256 = sha\<rparr>, ca_effect_class = eff,
                   ca_result_contract = contract, ca_reason = reason, ca_action_id = []\<rparr>))))))))))))))
      | _ \<Rightarrow> refuse BadEnum)"

definition action_core :: "action \<Rightarrow> obj" where
  "action_core a =
    [(''contract_id'', JStr ''continuation_action@v1''), (''actor'', JStr (enum_name ACTORS (ca_actor a))),
     (''kind'', JStr (enum_name KINDS (ca_kind a))), (''session_id'', JStr (ca_session_id a)),
     (''cycle_id'', JStr (ca_cycle_id a)), (''task_id'', JStr (ca_task_id a)), (''target'', JStr (ca_target a)),
     (''owner_skill'', opt_str (ca_owner_skill a)),
     (''preparation_binding'', opt_binding_json (ca_preparation_binding a)),
     (''work_order_binding'', opt_binding_json (ca_work_order_binding a)), (''routing'', JObj (ca_routing a)),
     (''continuation_token'', token_json (ca_token a)),
     (''effect_class'', JStr (enum_name EFFECT_CLASSES (ca_effect_class a))),
     (''required_result_contract'', JObj (ca_result_contract a)), (''reason'', opt_str (ca_reason a))]"

definition derived_action_id :: "(string \<Rightarrow> string) \<Rightarrow> action \<Rightarrow> string" where
  "derived_action_id H a = ''action-'' @ take 32 (object_sha256 H (JObj (action_core a)))"

definition action_json :: "action \<Rightarrow> json" where
  "action_json a = JObj (action_core a @ [(''action_id'', JStr (ca_action_id a))])"

definition ACTION_FIELDS :: "string list" where
  "ACTION_FIELDS =
    [''contract_id'', ''action_id'', ''actor'', ''kind'', ''session_id'', ''cycle_id'', ''task_id'', ''target'',
     ''owner_skill'', ''preparation_binding'', ''work_order_binding'', ''routing'', ''continuation_token'',
     ''effect_class'', ''required_result_contract'', ''reason'']"

definition validate_action :: "(string \<Rightarrow> string) \<Rightarrow> json \<Rightarrow> action res" where
  "validate_action H v =
     (case v of
        JObj d \<Rightarrow>
          if \<not> same_keys d ACTION_FIELDS \<or> jat d ''contract_id'' \<noteq> JStr ''continuation_action@v1'' then refuse NotClosed
          else
          bindE (normalize_action d) (\<lambda>a.
          if jat d ''action_id'' \<noteq> JStr (derived_action_id H a) then refuse Forged
          else Inr (a\<lparr>ca_action_id := derived_action_id H a\<rparr>))
      | _ \<Rightarrow> refuse NotAnObject)"

definition build_action :: "(string \<Rightarrow> string) \<Rightarrow> obj \<Rightarrow> action res" where
  "build_action H d =
     bindE (normalize_action d) (\<lambda>a. validate_action H (action_json (a\<lparr>ca_action_id := derived_action_id H a\<rparr>)))"

subsection \<open>Effect classes of stages\<close>

text \<open>\<^verbatim>\<open>OWNER_EFFECT_MATRIX\<close>: for an owner or hybrid target the side effect of its executor and the effect of its action\<close>

definition LOCAL_TARGETS :: "string list" where
  "LOCAL_TARGETS =
    [''authority'', ''acceptance'', ''validation_scope_plan'', ''validation_set_plan'', ''visible_increment'',
     ''validation_scope_finalize'', ''index_pre_validate'', ''issue'', ''schema_pre_derive'', ''schema_post_derive'',
     ''index'', ''loopback_audit'', ''derive'', ''validate'']"

definition OWNER_EFFECTS :: "(string \<times> string \<times> action_effect) list" where
  "OWNER_EFFECTS =
    map (\<lambda>t. (t, ''workspace_metadata_write'', Local_reversible)) LOCAL_TARGETS @
    [(''governance'', ''workspace_mutation'', Local_reversible),
     (''run'', ''external_or_long_running_effect'', Unclear_effect),
     (''validation_set_build'', ''workspace_mutation'', Local_reversible),
     (''commit'', ''git_mutation'', Local_commit), (''closeout_commit'', ''git_mutation'', Local_commit),
     (''qualitative_review'', ''observe_only'', Observe_only)]"

definition HYBRID_TARGETS :: "string list" where
  "HYBRID_TARGETS = [''qualitative_review'', ''loopback_audit'', ''derive'', ''validate'']"

text \<open>
  \<^verbatim>\<open>continuation_effect_class\<close>; the registry covers exactly the targets of the matrix and the
  deterministic ones, which an import-time check enforces
\<close>

definition continuation_effect_class :: "string \<Rightarrow> string \<Rightarrow> string \<Rightarrow> bool \<Rightarrow> action_effect" where
  "continuation_effect_class target kind side long_run_authorized =
     (case map_of OWNER_EFFECTS target of
        None \<Rightarrow> Unclear_effect
      | Some (policy_side, eff) \<Rightarrow>
          if kind \<noteq> (if target \<in> set HYBRID_TARGETS then ''hybrid'' else ''owner'') \<or> side \<noteq> policy_side
          then Unclear_effect
          else if target = ''run'' \<and> long_run_authorized then Local_long_run
          else eff)"

definition preparation_kind :: "obj \<Rightarrow> obj \<Rightarrow> string" where
  "preparation_kind prep executor =
     (if truthy (jat prep ''executor_kind'') then py_str (jat prep ''executor_kind'')
      else str_or_empty (jat executor ''executor_kind''))"

definition effect_class :: "obj \<Rightarrow> bool \<Rightarrow> action_effect" where
  "effect_class prep long_run_authorized =
     (case jat prep ''executor_spec'' of
        JObj executor \<Rightarrow>
          continuation_effect_class (str_or_empty (jat prep ''target'')) (preparation_kind prep executor)
            (str_or_empty (jat executor ''side_effect_class'')) long_run_authorized
      | _ \<Rightarrow> Unclear_effect)"

subsection \<open>Builders\<close>

text \<open>The place of an action in its session: session, cycle and task, and the token of the state\<close>

record action_site =
  as_session_id :: string
  as_cycle_id :: string
  as_task_id :: string
  as_token :: action_token

definition raw_action ::
  "action_site \<Rightarrow> continuation_actor \<Rightarrow> action_kind \<Rightarrow> string \<Rightarrow> json \<Rightarrow> json \<Rightarrow> json \<Rightarrow> json \<Rightarrow> action_effect \<Rightarrow> json \<Rightarrow> json \<Rightarrow> obj" where
  "raw_action site actor kind target owner prep work routing eff contract reason =
    [(''contract_id'', JStr ''continuation_action@v1''), (''actor'', JStr (enum_name ACTORS actor)),
     (''kind'', JStr (enum_name KINDS kind)), (''session_id'', JStr (as_session_id site)),
     (''cycle_id'', JStr (as_cycle_id site)), (''task_id'', JStr (as_task_id site)), (''target'', JStr target),
     (''owner_skill'', owner), (''preparation_binding'', prep), (''work_order_binding'', work), (''routing'', routing),
     (''continuation_token'', token_json (as_token site)), (''effect_class'', JStr (enum_name EFFECT_CLASSES eff)),
     (''required_result_contract'', contract), (''reason'', reason)]"

text \<open>\<^verbatim>\<open>sorted(str(item) for item in allowed_profiles)[0]\<close> when there is one\<close>

definition routing_profile :: "json \<Rightarrow> json" where
  "routing_profile v =
     (case v of
        JList (x # xs) \<Rightarrow>
          let profile = hd (sort (map py_str (x # xs))) in
          if profile = [] then JObj [] else JObj [(''profile_id'', JStr profile)]
      | _ \<Rightarrow> JObj [])"

text \<open>\<^verbatim>\<open>dict(value or {})\<close>; result contracts are objects, and the reading of a list of pairs as one is left out\<close>

definition dict_or_empty :: "json \<Rightarrow> json res" where
  "dict_or_empty v = (if \<not> truthy v then Inr (JObj []) else case v of JObj d \<Rightarrow> Inr v | _ \<Rightarrow> Inl TypeError)"

definition owner_action :: "(string \<Rightarrow> string) \<Rightarrow> action_site \<Rightarrow> obj \<Rightarrow> action_effect \<Rightarrow> action res" where
  "owner_action H site result eff =
     (case jat result ''preparation'' of
        JObj prep \<Rightarrow>
          (case jat prep ''executor_spec'' of
             JObj executor \<Rightarrow>
               let kind = preparation_kind prep executor in
               if kind \<notin> {''owner'', ''hybrid''} then refuse BadEnum
               else (case jat result ''preparation_publication'' of
                 JObj publication \<Rightarrow>
                   bindE (dict_or_empty (jat prep ''result_contract'')) (\<lambda>contract.
                   build_action H (raw_action site By_agent (if kind = ''hybrid'' then Run_hybrid else Run_owner)
                     (str_or_empty (jat prep ''target'')) (JStr (str_or_empty (jat executor ''owner_id'')))
                     (JObj [(''ref'', jat publication ''preparation_ref''), (''sha256'', jat publication ''preparation_sha256'')])
                     (case jat prep ''work_order_binding'' of
                        JObj work \<Rightarrow> JObj [(''ref'', jat work ''ref''), (''sha256'', jat work ''sha256'')] | _ \<Rightarrow> JNull)
                     (routing_profile (jat executor ''allowed_routing_profiles'')) eff contract
                     (JStr (if truthy (jat result ''stop_reason'') then py_str (jat result ''stop_reason'') else ''owner_boundary''))))
               | _ \<Rightarrow> refuse Missing)
           | _ \<Rightarrow> refuse Missing)
      | _ \<Rightarrow> refuse Missing)"

definition boundary_action ::
  "(string \<Rightarrow> string) \<Rightarrow> action_site \<Rightarrow> continuation_actor \<Rightarrow> action_kind \<Rightarrow> string \<Rightarrow> string \<Rightarrow> string option \<Rightarrow> action res" where
  "boundary_action H site actor kind reason target evidence =
     build_action H (raw_action site actor kind target JNull JNull JNull
       (JObj (case evidence of None \<Rightarrow> [] | Some e \<Rightarrow> [(''boundary_evidence_sha256'', JStr e)]))
       (if actor = By_external then Outside_effect else Unclear_effect) (JObj []) (JStr reason))"

definition complete_action :: "(string \<Rightarrow> string) \<Rightarrow> action_site \<Rightarrow> string \<Rightarrow> action res" where
  "complete_action H site reason =
     build_action H (raw_action site By_system Complete_action ''cycle'' JNull JNull JNull (JObj []) Observe_only
       (JObj []) (JStr reason))"

definition monitor_action :: "(string \<Rightarrow> string) \<Rightarrow> action_site \<Rightarrow> string \<Rightarrow> action res" where
  "monitor_action H site reason =
     build_action H (raw_action site By_agent Monitor_run ''run'' (JStr ''monitor-running-execution'') JNull JNull
       (JObj []) Observe_only (JObj []) (JStr reason))"

definition reissue_action :: "(string \<Rightarrow> string) \<Rightarrow> action_site \<Rightarrow> action \<Rightarrow> action res" where
  "reissue_action H site a =
     build_action H (raw_action site (ca_actor a) (ca_kind a) (ca_target a) (opt_str (ca_owner_skill a))
       (opt_binding_json (ca_preparation_binding a)) (opt_binding_json (ca_work_order_binding a))
       (JObj (ca_routing a)) (ca_effect_class a) (JObj (ca_result_contract a)) (opt_str (ca_reason a)))"

subsection \<open>What validation keeps\<close>

lemma actor_again [simp]: "map_of ACTORS (enum_name ACTORS x) = Some x"
  by (cases x) (simp_all add: ACTORS_def enum_name_def)

lemma kind_again [simp]: "map_of KINDS (enum_name KINDS x) = Some x"
  by (cases x) (simp_all add: KINDS_def enum_name_def)

lemma effect_again [simp]: "map_of EFFECT_CLASSES (enum_name EFFECT_CLASSES x) = Some x"
  by (cases x) (simp_all add: EFFECT_CLASSES_def enum_name_def)

lemma nullable_ok: "nullable f v = Inr x \<longleftrightarrow> (v = JNull \<and> x = None \<or> v \<noteq> JNull \<and> (\<exists>y. f v = Inr y \<and> x = Some y))"
  by (auto simp: nullable_def bindE_eq_Inr)

lemma normalize_action_cases:
  assumes "normalize_action d = Inr a"
  shows "map_of ACTORS (str_or_empty (jat d ''actor'')) = Some (ca_actor a)"
    and "map_of KINDS (str_or_empty (jat d ''kind'')) = Some (ca_kind a)"
    and "map_of EFFECT_CLASSES (str_or_empty (jat d ''effect_class'')) = Some (ca_effect_class a)"
    and "action_allowed (ca_actor a) (ca_kind a) (ca_effect_class a) (ca_owner_skill a) (jat d ''target'' = JStr ''run'')"
    and "nullable opaque (jat d ''owner_skill'') = Inr (ca_owner_skill a)"
    and "opaque (jat d ''target'') = Inr (ca_target a)"
    and "nullable opaque (jat d ''reason'') = Inr (ca_reason a)"
    and "\<exists>tk. jat d ''continuation_token'' = JObj tk \<and> jat tk ''state_version'' = JInt (at_state_version (ca_token a))"
    and "closed_object (jat d ''routing'') = Inr (ca_routing a)"
proof -
  obtain actor kind eff where tables: "map_of ACTORS (str_or_empty (jat d ''actor'')) = Some actor"
    "map_of KINDS (str_or_empty (jat d ''kind'')) = Some kind"
    "map_of EFFECT_CLASSES (str_or_empty (jat d ''effect_class'')) = Some eff"
    using assms by (auto simp: normalize_action_def split: option.splits if_splits)
  from assms [unfolded normalize_action_def tables prod.case option.case result_simps]
  obtain owner tk version reason sid cid tid target prep work routing sha contract where
    parts: "nullable opaque (jat d ''owner_skill'') = Inr owner"
      "action_allowed actor kind eff owner (jat d ''target'' = JStr ''run'')"
      "closed_object (jat d ''continuation_token'') = Inr tk" "positive_version (jat tk ''state_version'') = Inr version"
      "nullable opaque (jat d ''reason'') = Inr reason" "opaque (jat d ''target'') = Inr target"
      "closed_object (jat d ''routing'') = Inr routing"
    and a: "a = \<lparr>ca_actor = actor, ca_kind = kind, ca_session_id = sid, ca_cycle_id = cid, ca_task_id = tid,
       ca_target = target, ca_owner_skill = owner, ca_preparation_binding = prep, ca_work_order_binding = work,
       ca_routing = routing, ca_token = \<lparr>at_state_version = version, at_state_sha256 = sha\<rparr>, ca_effect_class = eff,
       ca_result_contract = contract, ca_reason = reason, ca_action_id = []\<rparr>" by blast
  from parts(3,4) have "\<exists>tk. jat d ''continuation_token'' = JObj tk \<and> jat tk ''state_version'' = JInt version"
    by (auto simp: closed_object_def positive_version_def split: json.splits if_splits)
  with parts tables a show "map_of ACTORS (str_or_empty (jat d ''actor'')) = Some (ca_actor a)"
    "map_of KINDS (str_or_empty (jat d ''kind'')) = Some (ca_kind a)"
    "map_of EFFECT_CLASSES (str_or_empty (jat d ''effect_class'')) = Some (ca_effect_class a)"
    "action_allowed (ca_actor a) (ca_kind a) (ca_effect_class a) (ca_owner_skill a) (jat d ''target'' = JStr ''run'')"
    "nullable opaque (jat d ''owner_skill'') = Inr (ca_owner_skill a)" "opaque (jat d ''target'') = Inr (ca_target a)"
    "nullable opaque (jat d ''reason'') = Inr (ca_reason a)"
    "\<exists>tk. jat d ''continuation_token'' = JObj tk \<and> jat tk ''state_version'' = JInt (at_state_version (ca_token a))"
    "closed_object (jat d ''routing'') = Inr (ca_routing a)"
    by simp_all
qed

definition action_tidy :: "action \<Rightarrow> bool" where
  "action_tidy a \<longleftrightarrow>
     is_opaque (ca_target a) \<and> (\<forall>s. ca_owner_skill a = Some s \<longrightarrow> is_opaque s) \<and>
     (\<forall>s. ca_reason a = Some s \<longrightarrow> is_opaque s) \<and>
     action_allowed (ca_actor a) (ca_kind a) (ca_effect_class a) (ca_owner_skill a) (ca_target a = ''run'')"

lemma nullable_opaque_ok: "nullable opaque v = Inr x \<Longrightarrow> x = Some s \<Longrightarrow> is_opaque s"
  by (auto simp: nullable_ok dest: opaque_ok)

lemma nullable_opaque_again: "nullable opaque (opt_str x) = Inr y \<Longrightarrow> (\<And>s. x = Some s \<Longrightarrow> is_opaque s) \<Longrightarrow> y = x"
  by (cases x) (auto simp: nullable_ok opt_str_def)

lemma opaque_run: "opaque (JStr ''run'') = Inr ''run''"
  by (rule opaque_JStr) code_simp

lemma normalize_action_tidy:
  assumes "normalize_action d = Inr a"
  shows "action_tidy a"
proof -
  note n = normalize_action_cases [OF assms]
  have "jat d ''target'' = JStr ''run'' \<Longrightarrow> ca_target a = ''run''" using n(6) opaque_run by simp
  with n(4) have "action_allowed (ca_actor a) (ca_kind a) (ca_effect_class a) (ca_owner_skill a) (ca_target a = ''run'')"
    by (auto simp: action_allowed_def)
  with opaque_ok [OF n(6)] nullable_opaque_ok [OF n(5)] nullable_opaque_ok [OF n(7)] show ?thesis
    by (simp add: action_tidy_def)
qed

lemma tidy_id [simp]: "action_tidy (a\<lparr>ca_action_id := i\<rparr>) = action_tidy a"
  by (simp add: action_tidy_def)

lemma validate_action_ok:
  assumes "validate_action H v = Inr a"
  shows "action_tidy a"
  using assms by (auto simp: validate_action_def result_simps dest: normalize_action_tidy split: json.splits if_splits)

lemma action_json_at:
  "\<exists>d. action_json a = JObj d \<and> jat d ''actor'' = JStr (enum_name ACTORS (ca_actor a)) \<and>
    jat d ''kind'' = JStr (enum_name KINDS (ca_kind a)) \<and> jat d ''target'' = JStr (ca_target a) \<and>
    jat d ''owner_skill'' = opt_str (ca_owner_skill a) \<and> jat d ''continuation_token'' = token_json (ca_token a) \<and>
    jat d ''effect_class'' = JStr (enum_name EFFECT_CLASSES (ca_effect_class a)) \<and> jat d ''reason'' = opt_str (ca_reason a) \<and>
    jat d ''routing'' = JObj (ca_routing a) \<and> jat d ''action_id'' = JStr (ca_action_id a)"
  by (simp add: action_json_def action_core_def)

lemma validate_action_keeps:
  assumes "validate_action H (action_json a) = Inr b"
  shows "ca_actor b = ca_actor a" and "ca_kind b = ca_kind a" and "ca_effect_class b = ca_effect_class a"
    and "ca_action_id b = ca_action_id a" and "at_state_version (ca_token b) = at_state_version (ca_token a)"
    and "ca_routing b = ca_routing a" and "opaque (JStr (ca_target a)) = Inr (ca_target b)"
    and "action_tidy a \<Longrightarrow> ca_target b = ca_target a \<and> ca_owner_skill b = ca_owner_skill a \<and> ca_reason b = ca_reason a"
proof -
  from action_json_at [of a] obtain d where d: "action_json a = JObj d"
    and f: "jat d ''actor'' = JStr (enum_name ACTORS (ca_actor a))" "jat d ''kind'' = JStr (enum_name KINDS (ca_kind a))"
      "jat d ''target'' = JStr (ca_target a)" "jat d ''owner_skill'' = opt_str (ca_owner_skill a)"
      "jat d ''continuation_token'' = token_json (ca_token a)"
      "jat d ''effect_class'' = JStr (enum_name EFFECT_CLASSES (ca_effect_class a))"
      "jat d ''reason'' = opt_str (ca_reason a)" "jat d ''routing'' = JObj (ca_routing a)"
      "jat d ''action_id'' = JStr (ca_action_id a)" by blast
  from assms [unfolded d] obtain c where c: "normalize_action d = Inr c" and b: "b = c\<lparr>ca_action_id := ca_action_id a\<rparr>"
    by (auto simp: validate_action_def f result_simps split: if_splits)
  note n = normalize_action_cases [OF c, unfolded f]
  show "ca_actor b = ca_actor a" "ca_kind b = ca_kind a" "ca_effect_class b = ca_effect_class a"
    "ca_action_id b = ca_action_id a" "at_state_version (ca_token b) = at_state_version (ca_token a)"
    "ca_routing b = ca_routing a" "opaque (JStr (ca_target a)) = Inr (ca_target b)"
    using n by (simp_all add: b token_json_def closed_object_def)
  show "ca_target b = ca_target a \<and> ca_owner_skill b = ca_owner_skill a \<and> ca_reason b = ca_reason a" if "action_tidy a"
    using n(6) nullable_opaque_again [OF n(5)] nullable_opaque_again [OF n(7)] that by (simp add: b action_tidy_def)
qed

lemma build_action_keeps:
  assumes "build_action H (raw_action site actor kind target owner prep work routing eff contract reason) = Inr a"
  shows "action_tidy a" and "ca_actor a = actor" and "ca_kind a = kind" and "ca_effect_class a = eff"
    and "at_state_version (ca_token a) = at_state_version (as_token site)" and "opaque (JStr target) = Inr (ca_target a)"
    and "nullable opaque owner = Inr (ca_owner_skill a)" and "nullable opaque reason = Inr (ca_reason a)"
proof -
  let ?d = "raw_action site actor kind target owner prep work routing eff contract reason"
  from assms obtain c where c: "normalize_action ?d = Inr c"
    and v: "validate_action H (action_json (c\<lparr>ca_action_id := derived_action_id H c\<rparr>)) = Inr a"
    by (auto simp: build_action_def bindE_eq_Inr)
  note n = normalize_action_cases [OF c]
  have raw: "ca_actor c = actor" "ca_kind c = kind" "ca_effect_class c = eff" "opaque (JStr target) = Inr (ca_target c)"
      "nullable opaque owner = Inr (ca_owner_skill c)" "nullable opaque reason = Inr (ca_reason c)"
      "at_state_version (ca_token c) = at_state_version (as_token site)"
    using n by (simp_all add: raw_action_def token_json_def)
  note k = validate_action_keeps [OF v]
  show "action_tidy a" by (rule validate_action_ok [OF v])
  show "ca_actor a = actor" "ca_kind a = kind" "ca_effect_class a = eff"
    "at_state_version (ca_token a) = at_state_version (as_token site)" "opaque (JStr target) = Inr (ca_target a)"
    "nullable opaque owner = Inr (ca_owner_skill a)" "nullable opaque reason = Inr (ca_reason a)"
    using k raw normalize_action_tidy [OF c] by simp_all
qed

text \<open>Two actions for the same effect: a pending action, its copy after validation, and a reissued one\<close>

definition same_effect :: "action \<Rightarrow> action \<Rightarrow> bool" where
  "same_effect a b \<longleftrightarrow> ca_actor b = ca_actor a \<and> ca_kind b = ca_kind a \<and> ca_effect_class b = ca_effect_class a \<and>
     ca_target b = ca_target a \<and> ca_owner_skill b = ca_owner_skill a"

lemma same_effect_refl [simp]: "same_effect a a"
  by (simp add: same_effect_def)

lemma same_effect_trans: "same_effect a b \<Longrightarrow> same_effect b c \<Longrightarrow> same_effect a c"
  by (simp add: same_effect_def)

lemma validated_same_effect: "validate_action H (action_json a) = Inr b \<Longrightarrow> action_tidy a \<Longrightarrow> same_effect a b"
  by (simp add: same_effect_def validate_action_keeps)

lemma reissued_same_effect:
  assumes "reissue_action H site a = Inr b" and "action_tidy a"
  shows "same_effect a b" and "action_tidy b" and "at_state_version (ca_token b) = at_state_version (as_token site)"
proof -
  note k = build_action_keeps [OF assms(1) [unfolded reissue_action_def]]
  show "action_tidy b" "at_state_version (ca_token b) = at_state_version (as_token site)" by (rule k(1), rule k(5))
  from assms(2) k(6) nullable_opaque_again [OF k(7)] have "ca_target b = ca_target a" "ca_owner_skill b = ca_owner_skill a"
    by (auto simp: action_tidy_def)
  with k(2-4) show "same_effect a b" by (simp add: same_effect_def)
qed

end
