(* ===== verification/Continuation_State.thy ===== *)
theory Continuation_State
  imports Continuation_Action
begin

text \<open>
  The state of a session continuation (\<^verbatim>\<open>continuation/state.py\<close>), the accounting of its budgets
  (\<^verbatim>\<open>continuation/usage.py\<close>) and its start and stop (\<^verbatim>\<open>continuation/lifecycle.py\<close>). A state carries_on its
  own digest and a version; \<open>evolve\<close> is the only way to change it.
\<close>

subsection \<open>States\<close>

datatype continuation_status = Cs_active | Cs_waiting | Cs_stopped | Cs_complete | Cs_quarantined | Cs_host_boundary

definition CONTINUATION_STATUSES :: "(string \<times> continuation_status) list" where
  "CONTINUATION_STATUSES = [(''active'', Cs_active), (''waiting'', Cs_waiting), (''stopped'', Cs_stopped),
     (''complete'', Cs_complete), (''quarantined'', Cs_quarantined), (''host_boundary'', Cs_host_boundary)]"

record cstate =
  cs_session_id :: string
  cs_lease_binding :: binding
  cs_goal_id :: string
  cs_task_family :: string
  cs_cycle_ids :: "string list"
  cs_active_cycle_id :: string
  cs_active_task_id :: string
  cs_status :: continuation_status
  cs_host_live :: bool
  cs_closure_only :: bool
  cs_budgets :: budgets
  cs_usage :: usage
  cs_pending :: "action option"
  cs_accepted :: "(string \<times> string) list"
  cs_stop_reason :: "string option"
  cs_created_at :: datetime
  cs_updated_at :: datetime
  cs_version :: int
  cs_sha256 :: string

definition STATE_FIELDS :: "string list" where
  "STATE_FIELDS =
    [''schema_version'', ''artifact_kind'', ''profile_id'', ''session_id'', ''session_lease_binding'', ''goal_id'',
     ''task_family'', ''cycle_ids'', ''active_cycle_id'', ''active_task_id'', ''status'', ''host_session_live'',
     ''closure_only'', ''budgets'', ''usage'', ''pending_action'', ''accepted_actions'', ''last_stop_reason'',
     ''created_at'', ''updated_at'', ''state_version'', ''state_sha256'']"

definition cstate_core :: "cstate \<Rightarrow> obj" where
  "cstate_core s =
    [(''schema_version'', JInt 1), (''artifact_kind'', JStr ''orchestrate_continuation_session''),
     (''profile_id'', JStr ''adaptive_session_v1''), (''session_id'', JStr (cs_session_id s)),
     (''session_lease_binding'', binding_json (cs_lease_binding s)), (''goal_id'', JStr (cs_goal_id s)),
     (''task_family'', JStr (cs_task_family s)), (''cycle_ids'', JList (map JStr (cs_cycle_ids s))),
     (''active_cycle_id'', JStr (cs_active_cycle_id s)), (''active_task_id'', JStr (cs_active_task_id s)),
     (''status'', JStr (enum_name CONTINUATION_STATUSES (cs_status s))), (''host_session_live'', JBool (cs_host_live s)),
     (''closure_only'', JBool (cs_closure_only s)), (''budgets'', budgets_json (cs_budgets s)),
     (''usage'', usage_json (cs_usage s)),
     (''pending_action'', case cs_pending s of None \<Rightarrow> JNull | Some a \<Rightarrow> action_json a),
     (''accepted_actions'', JObj (map (\<lambda>(k, v). (k, JStr v)) (cs_accepted s))),
     (''last_stop_reason'', opt_str (cs_stop_reason s)), (''created_at'', JStr (utc_text (cs_created_at s))),
     (''updated_at'', JStr (utc_text (cs_updated_at s))), (''state_version'', JInt (cs_version s))]"

definition derived_cstate_sha :: "(string \<Rightarrow> string) \<Rightarrow> cstate \<Rightarrow> string" where
  "derived_cstate_sha H s = object_sha256 H (JObj (cstate_core s))"

definition cstate_json :: "cstate \<Rightarrow> json" where
  "cstate_json s = JObj (cstate_core s @ [(''state_sha256'', JStr (cs_sha256 s))])"

text \<open>\<^verbatim>\<open>_normalize_usage\<close>: unlike a lease, the runs are iterated as they are\<close>

definition c_usage_field :: "json \<Rightarrow> usage res" where
  "c_usage_field v =
     (case v of
        JObj d \<Rightarrow>
          if \<not> same_keys d USAGE_FIELDS then refuse NotClosed
          else
          bindE (counter_item (jat d ''cycles'')) (\<lambda>cycles.
          bindE (counter_item (jat d ''agent_actions'')) (\<lambda>actions.
          bindE (bindE (iter_items (jat d ''active_long_runs'')) (mapE opaque)) (\<lambda>runs.
          if \<not> distinct runs then refuse BadList
          else case jat d ''commits_by_cycle'' of
            JObj cs \<Rightarrow>
              bindE (commit_items cs []) (\<lambda>commits.
              Inr \<lparr>us_cycles = cycles, us_agent_actions = actions, us_active_long_runs = sort runs,
                   us_commits_by_cycle = sort_key fst commits\<rparr>)
          | _ \<Rightarrow> refuse NotAnObject)))
      | _ \<Rightarrow> refuse NotClosed)"

fun accepted_items :: "(string \<times> json) list \<Rightarrow> (string \<times> string) list \<Rightarrow> (string \<times> string) list res" where
  "accepted_items [] acc = Inr acc"
| "accepted_items ((k, v) # xs) acc =
     bindE (opaque (JStr k)) (\<lambda>key. bindE (session_sha v) (\<lambda>sha. accepted_items xs (dput key sha acc)))"

definition bool_item :: "json \<Rightarrow> bool res" where
  "bool_item v = (case v of JBool b \<Rightarrow> Inr b | _ \<Rightarrow> refuse BadContract)"

definition validate_state :: "(string \<Rightarrow> string) \<Rightarrow> json \<Rightarrow> cstate res" where
  "validate_state H v =
     (case v of
        JObj d \<Rightarrow>
          if \<not> same_keys d STATE_FIELDS then refuse NotClosed
          else if \<not> equals_int (jat d ''schema_version'') 1
                  \<or> jat d ''artifact_kind'' \<noteq> JStr ''orchestrate_continuation_session''
                  \<or> jat d ''profile_id'' \<noteq> JStr ''adaptive_session_v1'' then refuse BadContract
          else (case map_of CONTINUATION_STATUSES (str_or_empty (jat d ''status'')) of
            None \<Rightarrow> refuse BadEnum
          | Some status \<Rightarrow>
              bindE (bool_item (jat d ''host_session_live'')) (\<lambda>live.
              bindE (bool_item (jat d ''closure_only'')) (\<lambda>closure.
              bindE (bindE (if truthy (jat d ''cycle_ids'') then iter_items (jat d ''cycle_ids'') else Inr []) (mapE opaque)) (\<lambda>cycles.
              if cycles = [] \<or> \<not> distinct cycles then refuse BadList
              else
              bindE (opaque (jat d ''active_cycle_id'')) (\<lambda>active.
              if active \<notin> set cycles then refuse BadScope
              else
              bindE (nullable (validate_action H) (jat d ''pending_action'')) (\<lambda>pending.
              case jat d ''accepted_actions'' of
                JObj as \<Rightarrow>
                  bindE (accepted_items as []) (\<lambda>accepted.
                  bindE (positive_version (jat d ''state_version'')) (\<lambda>version.
                  bindE (opaque (jat d ''session_id'')) (\<lambda>sid.
                  bindE (closed_binding (jat d ''session_lease_binding'')) (\<lambda>lease.
                  bindE (opaque (jat d ''goal_id'')) (\<lambda>goal.
                  bindE (opaque (jat d ''task_family'')) (\<lambda>family.
                  bindE (opaque (jat d ''active_task_id'')) (\<lambda>task.
                  bindE (budgets_field (jat d ''budgets'')) (\<lambda>budgets.
                  bindE (c_usage_field (jat d ''usage'')) (\<lambda>usage.
                  bindE (nullable opaque (jat d ''last_stop_reason'')) (\<lambda>reason.
                  bindE (utc_time (jat d ''created_at'')) (\<lambda>created.
                  bindE (utc_time (jat d ''updated_at'')) (\<lambda>updated.
                  let s = \<lparr>cs_session_id = sid, cs_lease_binding = lease, cs_goal_id = goal, cs_task_family = family,
                           cs_cycle_ids = cycles, cs_active_cycle_id = active, cs_active_task_id = task,
                           cs_status = status, cs_host_live = live, cs_closure_only = closure, cs_budgets = budgets,
                           cs_usage = usage, cs_pending = pending, cs_accepted = sort_key fst accepted,
                           cs_stop_reason = reason, cs_created_at = created, cs_updated_at = updated,
                           cs_version = version, cs_sha256 = []\<rparr> in
                  if jat d ''state_sha256'' \<noteq> JStr (derived_cstate_sha H s) then refuse DigestMismatch
                  else Inr (s\<lparr>cs_sha256 := derived_cstate_sha H s\<rparr>)))))))))))))
              | _ \<Rightarrow> refuse NotAnObject))))))
      | _ \<Rightarrow> refuse NotAnObject)"

text \<open>The digest of the state as it is written, then validation\<close>

definition seal :: "(string \<Rightarrow> string) \<Rightarrow> cstate \<Rightarrow> cstate res" where
  "seal H s = validate_state H (cstate_json (s\<lparr>cs_sha256 := derived_cstate_sha H s\<rparr>))"

definition build_state ::
  "(string \<Rightarrow> string) \<Rightarrow> string \<Rightarrow> json \<Rightarrow> string \<Rightarrow> string \<Rightarrow> string \<Rightarrow> string \<Rightarrow> string \<Rightarrow> budgets \<Rightarrow> cstate res" where
  "build_state H session_id lease_binding goal_id task_family cycle_id task_id created_at budgets =
     bindE (opaque (JStr session_id)) (\<lambda>sid.
     bindE (closed_binding lease_binding) (\<lambda>lease.
     bindE (opaque (JStr goal_id)) (\<lambda>goal.
     bindE (opaque (JStr task_family)) (\<lambda>family.
     bindE (opaque (JStr cycle_id)) (\<lambda>cid.
     bindE (opaque (JStr task_id)) (\<lambda>task.
     bindE (budgets_field (budgets_json budgets)) (\<lambda>bg.
     bindE (utc_time (JStr created_at)) (\<lambda>t.
     seal H \<lparr>cs_session_id = sid, cs_lease_binding = lease, cs_goal_id = goal, cs_task_family = family,
       cs_cycle_ids = [cid], cs_active_cycle_id = cid, cs_active_task_id = task, cs_status = Cs_active,
       cs_host_live = True, cs_closure_only = False, cs_budgets = bg,
       cs_usage = \<lparr>us_cycles = 1, us_agent_actions = 0, us_active_long_runs = [], us_commits_by_cycle = []\<rparr>,
       cs_pending = None, cs_accepted = [], cs_stop_reason = None, cs_created_at = t, cs_updated_at = t,
       cs_version = 1, cs_sha256 = []\<rparr>))))))))"

text \<open>\<open>f\<close> writes the changed fields; the fields that must not change are left alone by every caller\<close>

definition evolve :: "(string \<Rightarrow> string) \<Rightarrow> string \<Rightarrow> (cstate \<Rightarrow> cstate) \<Rightarrow> cstate \<Rightarrow> cstate res" where
  "evolve H at f s =
     bindE (validate_state H (cstate_json s)) (\<lambda>current.
     bindE (utc_time (JStr at)) (\<lambda>t.
     seal H ((f current)\<lparr>cs_updated_at := t, cs_version := cs_version current + 1\<rparr>)))"

subsection \<open>Usage\<close>

definition COMMITTED :: "string list" where
  "COMMITTED = [''committed'', ''created'', ''passed'', ''success'']"

definition LIVE_RUN_STATUSES :: "string list" where
  "LIVE_RUN_STATUSES = [''launching'', ''running'', ''completed_pending_validation'']"

definition TERMINAL_RUN_STATUSES :: "string list" where
  "TERMINAL_RUN_STATUSES =
    [''blocked_no_execution'', ''cancelled'', ''canceled'', ''complete'', ''completed'', ''failed'', ''failed_closed'',
     ''no_execution'', ''not_running'', ''not_applicable'', ''skipped'', ''stopped'', ''succeeded'', ''success'', ''terminated'']"

text \<open>\<^verbatim>\<open>str(a or b or ... or "").lower()\<close>\<close>

definition first_text :: "json list \<Rightarrow> string" where
  "first_text vs = (case filter truthy vs of [] \<Rightarrow> [] | v # _ \<Rightarrow> lower (py_str v))"

definition commit_usage :: "cstate \<Rightarrow> string \<Rightarrow> obj \<Rightarrow> usage res" where
  "commit_usage s target result =
     (let u = cs_usage s; committed = first_text [jat result ''commit_status'', jat result ''status''] \<in> set COMMITTED in
      if target = ''commit'' \<and> committed then refuse BadScope
      else if target = ''closeout_commit'' \<and> committed then
        let count = (case map_of (us_commits_by_cycle u) (cs_active_cycle_id s) of None \<Rightarrow> 0 | Some n \<Rightarrow> n) in
        if count \<ge> bg_max_commits_per_cycle (cs_budgets s) then refuse Insufficient
        else Inr (u\<lparr>us_commits_by_cycle := sort_key fst (dput (cs_active_cycle_id s) (count + 1) (us_commits_by_cycle u))\<rparr>)
      else Inr u)"

text \<open>A run takes a slot until its end is verified\<close>

definition take_slot :: "int \<Rightarrow> string \<Rightarrow> usage \<Rightarrow> usage res" where
  "take_slot slots identifier u =
     (let active = us_active_long_runs u in
      if identifier \<in> set active then Inr (u\<lparr>us_active_long_runs := sort_uniq active\<rparr>)
      else if int (card (set active)) \<ge> slots then refuse Insufficient
      else Inr (u\<lparr>us_active_long_runs := sort_uniq (identifier # active)\<rparr>))"

definition free_slot :: "string \<Rightarrow> usage \<Rightarrow> usage" where
  "free_slot identifier u = u\<lparr>us_active_long_runs := filter (\<lambda>x. x \<noteq> identifier) (us_active_long_runs u)\<rparr>"

definition run_usage :: "cstate \<Rightarrow> action_kind \<Rightarrow> obj \<Rightarrow> obj \<Rightarrow> usage \<Rightarrow> usage res" where
  "run_usage s kind result outcome u =
     (let terminal = jat outcome ''run_terminal_status''; terminal_id = jat outcome ''run_terminal_run_id'' in
      if terminal \<noteq> JNull \<and> kind = Monitor_run \<and> \<not> hashable terminal then Inl TypeError
      else if terminal \<noteq> JNull \<and> (kind \<noteq> Monitor_run \<or> terminal \<notin> {JStr ''succeeded'', JStr ''failed_closed''}
              \<or> \<not> truthy terminal_id) then refuse BadEvidence
      else
        let run_status = first_text [terminal, jat result ''execution_status'', jat result ''status''];
            run_id = (if truthy terminal_id then terminal_id else jat result ''run_id'') in
        if run_status \<in> set LIVE_RUN_STATUSES \<and> \<not> truthy run_id then refuse Missing
        else if truthy run_id \<and> terminal = JNull then
          take_slot (bg_max_concurrent_long_runs (cs_budgets s)) (py_str run_id) u
        else Inr (if truthy run_id \<and> run_status \<in> set TERMINAL_RUN_STATUSES then free_slot (py_str run_id) u else u))"

definition usage_after_result :: "cstate \<Rightarrow> action \<Rightarrow> obj \<Rightarrow> obj \<Rightarrow> usage res" where
  "usage_after_result s a result outcome =
     bindE (commit_usage s (ca_target a) result) (\<lambda>u.
     if ca_target a = ''run'' then run_usage s (ca_kind a) result outcome u else Inr u)"

subsection \<open>Start and stop\<close>

definition start_continuation ::
  "(string \<Rightarrow> string) \<Rightarrow> json \<Rightarrow> json \<Rightarrow> string \<Rightarrow> string \<Rightarrow> string \<Rightarrow> cstate res" where
  "start_continuation H lease_document lease_binding cycle_id task_id created_at =
     bindE (validate_session_lease H lease_document) (\<lambda>l.
     if lc_status (ls_lifecycle l) \<noteq> Session_live then refuse NotActive
     else build_state H (sb_session_id (ls_binding l)) lease_binding (ls_goal_id l) (ls_task_family l) cycle_id task_id
       created_at (ls_budgets l))"

definition stop_continuation :: "(string \<Rightarrow> string) \<Rightarrow> string \<Rightarrow> string \<Rightarrow> cstate \<Rightarrow> cstate res" where
  "stop_continuation H at reason s =
     bindE (validate_state H (cstate_json s)) (\<lambda>state.
     evolve H at (\<lambda>c. c\<lparr>cs_status := Cs_stopped, cs_host_live := False, cs_pending := cs_pending state,
       cs_stop_reason := Some reason\<rparr>) state)"

definition continuation_token :: "cstate \<Rightarrow> action_token" where
  "continuation_token s = \<lparr>at_state_version = cs_version s, at_state_sha256 = cs_sha256 s\<rparr>"

definition site_of :: "cstate \<Rightarrow> action_site" where
  "site_of s = \<lparr>as_session_id = cs_session_id s, as_cycle_id = cs_active_cycle_id s, as_task_id = cs_active_task_id s,
     as_token = continuation_token s\<rparr>"

subsection \<open>What validation keeps\<close>

lemma status_again [simp]: "map_of CONTINUATION_STATUSES (enum_name CONTINUATION_STATUSES x) = Some x"
  by (cases x) (simp_all add: CONTINUATION_STATUSES_def enum_name_def)

lemma mapE_opaque: "mapE opaque vs = Inr xs \<Longrightarrow> list_all is_opaque xs \<and> length xs = length vs"
  by (auto simp: list_all_iff mapE_length dest!: mapE_set opaque_ok)

lemma mapE_opaque_again: "list_all is_opaque xs \<Longrightarrow> mapE opaque (map JStr xs) = Inr xs"
  by (rule mapE_map_Inr) (simp add: list_all_iff)

lemma c_usage_ok:
  assumes "c_usage_field v = Inr u"
  shows "usage_normal u"
proof (cases v)
  case (JObj d)
  obtain cs where cs: "jat d ''commits_by_cycle'' = JObj cs"
    using assms by (cases "jat d ''commits_by_cycle''") (auto simp: JObj c_usage_field_def bindE_eq_Inr split: if_splits)
  from assms [unfolded JObj c_usage_field_def json.case cs result_simps] obtain n m items runs commits where
    parts: "counter_item (jat d ''cycles'') = Inr n" "counter_item (jat d ''agent_actions'') = Inr m"
      "commit_items cs [] = Inr commits" "mapE opaque items = Inr runs" "distinct runs"
    and u: "u = \<lparr>us_cycles = n, us_agent_actions = m, us_active_long_runs = sort runs, us_commits_by_cycle = sort_key fst commits\<rparr>"
    by blast
  have "opaques_normal (sort runs)" using mapE_opaque [OF parts(4)] parts(5) by (simp add: opaques_normal_def list_all_iff)
  moreover have "commits_normal (sort_key fst commits)"
    using commit_items_ok [OF parts(3)] by (simp add: commits_normal_def sort_commits distinct_map_sort_key)
  ultimately show ?thesis using parts(1,2) by (simp add: u usage_normal_def counter_item_ok)
qed (use assms in \<open>simp_all add: c_usage_field_def\<close>)

lemma commit_items_counts:
  "commit_items (map (\<lambda>(k, n). (k, JInt n)) xs) acc = Inr ys \<Longrightarrow> snd ` set ys \<subseteq> snd ` set xs \<union> snd ` set acc"
proof (induction xs arbitrary: acc)
  case (Cons x xs)
  obtain k n where x: "x = (k, n)" by (cases x)
  from Cons.prems obtain key where "commit_items (map (\<lambda>(k, n). (k, JInt n)) xs) (dput key n acc) = Inr ys"
    by (auto simp: x bindE_eq_Inr counter_item_def split: if_splits)
  from Cons.IH [OF this] have "snd ` set ys \<subseteq> snd ` set xs \<union> snd ` set (dput key n acc)" .
  moreover have "snd ` set (dput key n acc) \<subseteq> insert n (snd ` set acc)"
    using image_mono [OF set_dput, of snd key n acc] by simp
  ultimately show ?case by (auto simp: x)
qed simp

lemma c_usage_keeps:
  assumes "c_usage_field (usage_json u) = Inr v"
  shows "us_cycles v = us_cycles u" and "us_agent_actions v = us_agent_actions u"
    and "length (us_active_long_runs v) = length (us_active_long_runs u)"
    and "snd ` set (us_commits_by_cycle v) \<subseteq> snd ` set (us_commits_by_cycle u)"
    and "usage_normal u \<Longrightarrow> v = u"
proof -
  from assms obtain runs commits where
    parts: "mapE opaque (map JStr (us_active_long_runs u)) = Inr runs"
      "commit_items (map (\<lambda>(k, n). (k, JInt n)) (us_commits_by_cycle u)) [] = Inr commits"
    and v: "v = \<lparr>us_cycles = us_cycles u, us_agent_actions = us_agent_actions u, us_active_long_runs = sort runs,
      us_commits_by_cycle = sort_key fst commits\<rparr>"
    by (auto simp: c_usage_field_def usage_json_def bindE_eq_Inr iter_items_def counter_item_def split: if_splits)
  show "us_cycles v = us_cycles u" "us_agent_actions v = us_agent_actions u"
    "length (us_active_long_runs v) = length (us_active_long_runs u)"
    "snd ` set (us_commits_by_cycle v) \<subseteq> snd ` set (us_commits_by_cycle u)"
    using mapE_opaque [OF parts(1)] commit_items_counts [OF parts(2)] by (simp_all add: v)
  show "v = u" if n: "usage_normal u"
  proof -
    have "runs = us_active_long_runs u"
      using n parts(1) mapE_opaque_again [of "us_active_long_runs u"] by (simp add: usage_normal_def opaques_normal_def)
    moreover have "commits = us_commits_by_cycle u"
      using n parts(2) commit_items_again [of "us_commits_by_cycle u" "[]"] by (simp add: usage_normal_def commits_normal_def)
    ultimately show ?thesis
      using n by (simp add: v usage_normal_def opaques_normal_def commits_normal_def sorted_sort_id sort_key_id_if_sorted)
  qed
qed

definition accepted_keys :: "cstate \<Rightarrow> string set" where
  "accepted_keys s = fst ` set (cs_accepted s)"

lemma accepted_items_keys:
  assumes "accepted_items (map (\<lambda>(k, v). (k, JStr v)) xs) acc = Inr ys"
  shows "fst ` set ys = fst ` set acc \<union> {k'. \<exists>k \<in> fst ` set xs. opaque (JStr k) = Inr k'}"
  using assms
proof (induction xs arbitrary: acc)
  case (Cons x xs)
  obtain k v where x: "x = (k, v)" by (cases x)
  from Cons.prems obtain key sha where "opaque (JStr k) = Inr key"
    "accepted_items (map (\<lambda>(k, v). (k, JStr v)) xs) (dput key sha acc) = Inr ys" by (auto simp: x bindE_eq_Inr)
  with Cons.IH [of "dput key sha acc"] show ?case by (auto simp: x dput_keys)
qed simp

lemma accepted_items_distinct: "accepted_items xs acc = Inr ys \<Longrightarrow> distinct (map fst acc) \<Longrightarrow> distinct (map fst ys)"
  by (induction xs acc rule: accepted_items.induct) (auto simp: bindE_eq_Inr dput_distinct)

lemma accepted_items_opaque: "accepted_items xs acc = Inr ys \<Longrightarrow> list_all (\<lambda>(k, v). is_opaque k \<and> is_sha v) acc \<Longrightarrow>
  list_all (\<lambda>(k, v). is_opaque k \<and> is_sha v) ys"
proof (induction xs acc rule: accepted_items.induct)
  case (2 k v xs acc)
  then obtain key sha where "opaque (JStr k) = Inr key" "session_sha v = Inr sha"
    "accepted_items xs (dput key sha acc) = Inr ys" by (auto simp: bindE_eq_Inr)
  moreover have "is_sha sha" using \<open>session_sha v = Inr sha\<close> by (auto simp: session_sha_def Let_def split: if_splits)
  ultimately show ?case using 2 by (simp add: dput_all opaque_ok)
qed simp

lemma accepted_items_again:
  "list_all (\<lambda>(k, v). is_opaque k \<and> is_sha v) xs \<Longrightarrow> distinct (map fst (acc @ xs)) \<Longrightarrow>
   accepted_items (map (\<lambda>(k, v). (k, JStr v)) xs) acc = Inr (acc @ xs)"
  by (induction xs arbitrary: acc) (auto simp: dput_fresh session_sha_def Let_def lower_sha removeprefix_sha)

text \<open>The fields of a validated state, except the reference of the lease binding and the times, are in normal form\<close>

definition state_tidy :: "cstate \<Rightarrow> bool" where
  "state_tidy s \<longleftrightarrow>
     is_opaque (cs_session_id s) \<and> is_opaque (cs_goal_id s) \<and> is_opaque (cs_task_family s) \<and>
     is_opaque (cs_active_task_id s) \<and> list_all is_opaque (cs_cycle_ids s) \<and> distinct (cs_cycle_ids s) \<and>
     cs_active_cycle_id s \<in> set (cs_cycle_ids s) \<and> (\<forall>a. cs_pending s = Some a \<longrightarrow> action_tidy a) \<and>
     (\<forall>r. cs_stop_reason s = Some r \<longrightarrow> is_opaque r) \<and> usage_normal (cs_usage s) \<and>
     list_all (\<lambda>(k, v). is_opaque k \<and> is_sha v) (cs_accepted s) \<and> distinct (map fst (cs_accepted s)) \<and>
     sorted (map fst (cs_accepted s)) \<and> 1 \<le> cs_version s"

lemma bool_item_ok: "bool_item v = Inr b \<longleftrightarrow> v = JBool b"
  by (cases v) (auto simp: bool_item_def)

lemma positive_version_ok: "positive_version v = Inr n \<longleftrightarrow> v = JInt n \<and> 1 \<le> n"
  by (cases v) (auto simp: positive_version_def)

lemma validate_state_cases:
  assumes "validate_state H (JObj d) = Inr t"
  shows "map_of CONTINUATION_STATUSES (str_or_empty (jat d ''status'')) = Some (cs_status t)"
    and "jat d ''host_session_live'' = JBool (cs_host_live t)" and "jat d ''closure_only'' = JBool (cs_closure_only t)"
    and "\<exists>items. (if truthy (jat d ''cycle_ids'') then iter_items (jat d ''cycle_ids'') else Inr []) = Inr items \<and>
           mapE opaque items = Inr (cs_cycle_ids t)"
    and "distinct (cs_cycle_ids t)" and "cs_active_cycle_id t \<in> set (cs_cycle_ids t)"
    and "opaque (jat d ''active_cycle_id'') = Inr (cs_active_cycle_id t)"
    and "nullable (validate_action H) (jat d ''pending_action'') = Inr (cs_pending t)"
    and "\<exists>as acc. jat d ''accepted_actions'' = JObj as \<and> accepted_items as [] = Inr acc \<and> cs_accepted t = sort_key fst acc"
    and "jat d ''state_version'' = JInt (cs_version t)" and "1 \<le> cs_version t"
    and "opaque (jat d ''session_id'') = Inr (cs_session_id t)" and "opaque (jat d ''goal_id'') = Inr (cs_goal_id t)"
    and "opaque (jat d ''task_family'') = Inr (cs_task_family t)"
    and "opaque (jat d ''active_task_id'') = Inr (cs_active_task_id t)"
    and "budgets_field (jat d ''budgets'') = Inr (cs_budgets t)" and "c_usage_field (jat d ''usage'') = Inr (cs_usage t)"
    and "nullable opaque (jat d ''last_stop_reason'') = Inr (cs_stop_reason t)"
    and "jat d ''state_sha256'' = JStr (cs_sha256 t)"
    and "cs_sha256 t = derived_cstate_sha H (t\<lparr>cs_sha256 := []\<rparr>)"
proof -
  obtain status where st: "map_of CONTINUATION_STATUSES (str_or_empty (jat d ''status'')) = Some status"
    using assms by (auto simp: validate_state_def split: option.splits if_splits)
  obtain as where as: "jat d ''accepted_actions'' = JObj as"
    using assms by (cases "jat d ''accepted_actions''") (auto simp: validate_state_def st bindE_eq_Inr split: if_splits)
  from assms [unfolded validate_state_def json.case st as option.case Let_def result_simps]
  obtain live closure items cycles active pending accepted version sid lease goal family task budgets usage reason created updated where
    parts: "bool_item (jat d ''host_session_live'') = Inr live" "bool_item (jat d ''closure_only'') = Inr closure"
      "(if truthy (jat d ''cycle_ids'') then iter_items (jat d ''cycle_ids'') else Inr []) = Inr items"
      "mapE opaque items = Inr cycles" "distinct cycles" "opaque (jat d ''active_cycle_id'') = Inr active"
      "active \<in> set cycles" "nullable (validate_action H) (jat d ''pending_action'') = Inr pending"
      "accepted_items as [] = Inr accepted" "positive_version (jat d ''state_version'') = Inr version"
      "opaque (jat d ''session_id'') = Inr sid" "opaque (jat d ''goal_id'') = Inr goal"
      "opaque (jat d ''task_family'') = Inr family" "opaque (jat d ''active_task_id'') = Inr task"
      "budgets_field (jat d ''budgets'') = Inr budgets" "c_usage_field (jat d ''usage'') = Inr usage"
      "nullable opaque (jat d ''last_stop_reason'') = Inr reason"
    and sha: "jat d ''state_sha256'' = JStr (derived_cstate_sha H \<lparr>cs_session_id = sid, cs_lease_binding = lease,
           cs_goal_id = goal, cs_task_family = family, cs_cycle_ids = cycles, cs_active_cycle_id = active,
           cs_active_task_id = task, cs_status = status, cs_host_live = live, cs_closure_only = closure,
           cs_budgets = budgets, cs_usage = usage, cs_pending = pending, cs_accepted = sort_key fst accepted,
           cs_stop_reason = reason, cs_created_at = created, cs_updated_at = updated, cs_version = version, cs_sha256 = []\<rparr>)"
    and t: "t = \<lparr>cs_session_id = sid, cs_lease_binding = lease,
           cs_goal_id = goal, cs_task_family = family, cs_cycle_ids = cycles, cs_active_cycle_id = active,
           cs_active_task_id = task, cs_status = status, cs_host_live = live, cs_closure_only = closure,
           cs_budgets = budgets, cs_usage = usage, cs_pending = pending, cs_accepted = sort_key fst accepted,
           cs_stop_reason = reason, cs_created_at = created, cs_updated_at = updated, cs_version = version,
           cs_sha256 = derived_cstate_sha H \<lparr>cs_session_id = sid, cs_lease_binding = lease,
           cs_goal_id = goal, cs_task_family = family, cs_cycle_ids = cycles, cs_active_cycle_id = active,
           cs_active_task_id = task, cs_status = status, cs_host_live = live, cs_closure_only = closure,
           cs_budgets = budgets, cs_usage = usage, cs_pending = pending, cs_accepted = sort_key fst accepted,
           cs_stop_reason = reason, cs_created_at = created, cs_updated_at = updated, cs_version = version, cs_sha256 = []\<rparr>\<rparr>"
    by (auto split: if_splits)
  note p = parts [unfolded bool_item_ok positive_version_ok]
  show "map_of CONTINUATION_STATUSES (str_or_empty (jat d ''status'')) = Some (cs_status t)"
    "jat d ''host_session_live'' = JBool (cs_host_live t)" "jat d ''closure_only'' = JBool (cs_closure_only t)"
    "distinct (cs_cycle_ids t)" "cs_active_cycle_id t \<in> set (cs_cycle_ids t)"
    "opaque (jat d ''active_cycle_id'') = Inr (cs_active_cycle_id t)"
    "nullable (validate_action H) (jat d ''pending_action'') = Inr (cs_pending t)"
    "jat d ''state_version'' = JInt (cs_version t)" "1 \<le> cs_version t"
    "opaque (jat d ''session_id'') = Inr (cs_session_id t)" "opaque (jat d ''goal_id'') = Inr (cs_goal_id t)"
    "opaque (jat d ''task_family'') = Inr (cs_task_family t)" "opaque (jat d ''active_task_id'') = Inr (cs_active_task_id t)"
    "budgets_field (jat d ''budgets'') = Inr (cs_budgets t)" "c_usage_field (jat d ''usage'') = Inr (cs_usage t)"
    "nullable opaque (jat d ''last_stop_reason'') = Inr (cs_stop_reason t)" "jat d ''state_sha256'' = JStr (cs_sha256 t)"
    "cs_sha256 t = derived_cstate_sha H (t\<lparr>cs_sha256 := []\<rparr>)"
    "\<exists>items. (if truthy (jat d ''cycle_ids'') then iter_items (jat d ''cycle_ids'') else Inr []) = Inr items \<and>
       mapE opaque items = Inr (cs_cycle_ids t)"
    "\<exists>as acc. jat d ''accepted_actions'' = JObj as \<and> accepted_items as [] = Inr acc \<and> cs_accepted t = sort_key fst acc"
    using p st as sha by (simp_all add: t)
qed

lemma validate_state_tidy:
  assumes "validate_state H v = Inr t"
  shows "state_tidy t"
proof -
  from assms obtain d where d: "v = JObj d" by (cases v) (simp_all add: validate_state_def)
  note c = validate_state_cases [OF assms [unfolded d]]
  from c(4) have "list_all is_opaque (cs_cycle_ids t)" by (auto dest: mapE_opaque)
  moreover from c(8) have "\<forall>a. cs_pending t = Some a \<longrightarrow> action_tidy a" by (auto simp: nullable_ok dest: validate_action_ok)
  moreover from c(9) obtain as acc where acc: "accepted_items as [] = Inr acc" "cs_accepted t = sort_key fst acc" by blast
  have "list_all (\<lambda>(k, v). is_opaque k \<and> is_sha v) acc" using accepted_items_opaque [OF acc(1)] by simp
  then have "list_all (\<lambda>(k, v). is_opaque k \<and> is_sha v) (cs_accepted t)" by (simp add: acc(2) list_all_iff)
  moreover have "distinct (map fst (cs_accepted t))"
    using accepted_items_distinct [OF acc(1)] by (simp add: acc(2) distinct_map_sort_key)
  moreover have "sorted (map fst (cs_accepted t))" by (simp add: acc(2))
  ultimately show ?thesis
    using c nullable_opaque_ok [OF c(18)] c_usage_ok [OF c(17)] by (simp add: state_tidy_def opaque_ok)
qed

lemma cstate_json_at:
  "\<exists>d. cstate_json s = JObj d \<and> jat d ''status'' = JStr (enum_name CONTINUATION_STATUSES (cs_status s)) \<and>
    jat d ''host_session_live'' = JBool (cs_host_live s) \<and> jat d ''closure_only'' = JBool (cs_closure_only s) \<and>
    jat d ''cycle_ids'' = JList (map JStr (cs_cycle_ids s)) \<and> jat d ''active_cycle_id'' = JStr (cs_active_cycle_id s) \<and>
    jat d ''pending_action'' = (case cs_pending s of None \<Rightarrow> JNull | Some a \<Rightarrow> action_json a) \<and>
    jat d ''accepted_actions'' = JObj (map (\<lambda>(k, v). (k, JStr v)) (cs_accepted s)) \<and>
    jat d ''state_version'' = JInt (cs_version s) \<and> jat d ''session_id'' = JStr (cs_session_id s) \<and>
    jat d ''goal_id'' = JStr (cs_goal_id s) \<and> jat d ''task_family'' = JStr (cs_task_family s) \<and>
    jat d ''active_task_id'' = JStr (cs_active_task_id s) \<and> jat d ''budgets'' = budgets_json (cs_budgets s) \<and>
    jat d ''usage'' = usage_json (cs_usage s) \<and> jat d ''last_stop_reason'' = opt_str (cs_stop_reason s) \<and>
    jat d ''state_sha256'' = JStr (cs_sha256 s)"
  by (simp add: cstate_json_def cstate_core_def)

lemma action_json_not_null: "action_json a \<noteq> JNull"
  by (simp add: action_json_def)

lemma budgets_keeps: "budgets_field (budgets_json b) = Inr c \<Longrightarrow> c = b"
  by (auto simp: budgets_field_def budgets_json_def bindE_eq_Inr budget_item_def split: if_splits)

lemma validate_state_keeps:
  assumes "validate_state H (cstate_json s) = Inr t"
  shows "cs_status t = cs_status s" and "cs_host_live t = cs_host_live s" and "cs_closure_only t = cs_closure_only s"
    and "cs_budgets t = cs_budgets s" and "cs_version t = cs_version s" and "cs_sha256 t = cs_sha256 s"
    and "opaque (JStr (cs_session_id s)) = Inr (cs_session_id t)" and "opaque (JStr (cs_goal_id s)) = Inr (cs_goal_id t)"
    and "opaque (JStr (cs_task_family s)) = Inr (cs_task_family t)"
    and "opaque (JStr (cs_active_cycle_id s)) = Inr (cs_active_cycle_id t)"
    and "opaque (JStr (cs_active_task_id s)) = Inr (cs_active_task_id t)"
    and "mapE opaque (map JStr (cs_cycle_ids s)) = Inr (cs_cycle_ids t)"
    and "rel_option (\<lambda>a b. validate_action H (action_json a) = Inr b) (cs_pending s) (cs_pending t)"
    and "\<exists>acc. accepted_items (map (\<lambda>(k, v). (k, JStr v)) (cs_accepted s)) [] = Inr acc \<and> cs_accepted t = sort_key fst acc"
    and "c_usage_field (usage_json (cs_usage s)) = Inr (cs_usage t)"
    and "nullable opaque (opt_str (cs_stop_reason s)) = Inr (cs_stop_reason t)"
proof -
  from cstate_json_at [of s] obtain d where d: "cstate_json s = JObj d"
    and f: "jat d ''status'' = JStr (enum_name CONTINUATION_STATUSES (cs_status s))"
    "jat d ''host_session_live'' = JBool (cs_host_live s)" "jat d ''closure_only'' = JBool (cs_closure_only s)"
    "jat d ''cycle_ids'' = JList (map JStr (cs_cycle_ids s))" "jat d ''active_cycle_id'' = JStr (cs_active_cycle_id s)"
    "jat d ''pending_action'' = (case cs_pending s of None \<Rightarrow> JNull | Some a \<Rightarrow> action_json a)"
    "jat d ''accepted_actions'' = JObj (map (\<lambda>(k, v). (k, JStr v)) (cs_accepted s))"
    "jat d ''state_version'' = JInt (cs_version s)" "jat d ''session_id'' = JStr (cs_session_id s)"
    "jat d ''goal_id'' = JStr (cs_goal_id s)" "jat d ''task_family'' = JStr (cs_task_family s)"
    "jat d ''active_task_id'' = JStr (cs_active_task_id s)" "jat d ''budgets'' = budgets_json (cs_budgets s)"
    "jat d ''usage'' = usage_json (cs_usage s)" "jat d ''last_stop_reason'' = opt_str (cs_stop_reason s)"
    "jat d ''state_sha256'' = JStr (cs_sha256 s)" by blast
  note c = validate_state_cases [OF assms [unfolded d], unfolded f]
  show "cs_status t = cs_status s" "cs_host_live t = cs_host_live s" "cs_closure_only t = cs_closure_only s"
    "cs_version t = cs_version s" "cs_sha256 t = cs_sha256 s"
    "opaque (JStr (cs_session_id s)) = Inr (cs_session_id t)" "opaque (JStr (cs_goal_id s)) = Inr (cs_goal_id t)"
    "opaque (JStr (cs_task_family s)) = Inr (cs_task_family t)"
    "opaque (JStr (cs_active_cycle_id s)) = Inr (cs_active_cycle_id t)"
    "opaque (JStr (cs_active_task_id s)) = Inr (cs_active_task_id t)"
    "c_usage_field (usage_json (cs_usage s)) = Inr (cs_usage t)"
    "nullable opaque (opt_str (cs_stop_reason s)) = Inr (cs_stop_reason t)"
    using c by simp_all
  show "cs_budgets t = cs_budgets s" by (rule budgets_keeps [OF c(16)])
  show "mapE opaque (map JStr (cs_cycle_ids s)) = Inr (cs_cycle_ids t)" using c(4) by (auto simp: iter_items_def split: if_splits)
  show "rel_option (\<lambda>a b. validate_action H (action_json a) = Inr b) (cs_pending s) (cs_pending t)"
    using c(8) by (cases "cs_pending s") (auto simp: nullable_ok action_json_not_null)
  show "\<exists>acc. accepted_items (map (\<lambda>(k, v). (k, JStr v)) (cs_accepted s)) [] = Inr acc \<and> cs_accepted t = sort_key fst acc"
    using c(9) by auto
qed

subsection \<open>Copies and evolution\<close>

text \<open>A state and the copy that validation makes of it\<close>

definition copied :: "cstate \<Rightarrow> cstate \<Rightarrow> bool" where
  "copied s t \<longleftrightarrow>
     cs_session_id t = cs_session_id s \<and> cs_goal_id t = cs_goal_id s \<and> cs_task_family t = cs_task_family s \<and>
     cs_cycle_ids t = cs_cycle_ids s \<and> cs_active_cycle_id t = cs_active_cycle_id s \<and>
     cs_active_task_id t = cs_active_task_id s \<and> cs_status t = cs_status s \<and> cs_host_live t = cs_host_live s \<and>
     cs_closure_only t = cs_closure_only s \<and> cs_budgets t = cs_budgets s \<and> cs_usage t = cs_usage s \<and>
     rel_option same_effect (cs_pending s) (cs_pending t) \<and> cs_accepted t = cs_accepted s \<and>
     cs_stop_reason t = cs_stop_reason s \<and> cs_version t = cs_version s"

lemma pending_again:
  assumes "rel_option (\<lambda>a b. validate_action H (action_json a) = Inr b) p q" and "\<And>a. p = Some a \<Longrightarrow> action_tidy a"
  shows "rel_option same_effect p q"
  using assms by (cases p; cases q) (auto dest: validated_same_effect)

lemma validate_state_copies:
  assumes "validate_state H (cstate_json s) = Inr t" and "state_tidy s"
  shows "copied s t"
proof -
  note k = validate_state_keeps [OF assms(1)]
  from assms(2) have tidy: "is_opaque (cs_session_id s)" "is_opaque (cs_goal_id s)" "is_opaque (cs_task_family s)"
    "is_opaque (cs_active_task_id s)" "list_all is_opaque (cs_cycle_ids s)" "is_opaque (cs_active_cycle_id s)"
    by (auto simp: state_tidy_def list_all_iff)
  have "cs_accepted t = cs_accepted s"
    using k(14) assms(2) accepted_items_again [of "cs_accepted s" "[]"]
    by (auto simp: state_tidy_def sort_key_id_if_sorted)
  moreover have "rel_option same_effect (cs_pending s) (cs_pending t)"
    using pending_again [OF k(13)] assms(2) by (auto simp: state_tidy_def)
  moreover have "cs_stop_reason t = cs_stop_reason s"
    using nullable_opaque_again [OF k(16)] assms(2) by (auto simp: state_tidy_def)
  moreover have "cs_usage t = cs_usage s" using c_usage_keeps(5) [OF k(15)] assms(2) by (simp add: state_tidy_def)
  ultimately show ?thesis using k tidy mapE_opaque_again [OF tidy(5)] by (simp add: copied_def)
qed

lemma seal_ok:
  assumes "seal H s = Inr t"
  shows "state_tidy t" and "validate_state H (cstate_json (s\<lparr>cs_sha256 := derived_cstate_sha H s\<rparr>)) = Inr t"
  using assms by (simp_all add: seal_def validate_state_tidy)

lemma evolve_ok:
  assumes "evolve H at f s = Inr t" and "state_tidy s"
  obtains c g where "copied s c" and "state_tidy c" and "state_tidy t" and "validate_state H (cstate_json g) = Inr t"
    and "\<exists>u h. g = (f c)\<lparr>cs_updated_at := u, cs_version := cs_version c + 1, cs_sha256 := h\<rparr>"
proof -
  from assms(1) obtain c u where c: "validate_state H (cstate_json s) = Inr c"
    and t: "seal H ((f c)\<lparr>cs_updated_at := u, cs_version := cs_version c + 1\<rparr>) = Inr t"
    by (auto simp: evolve_def bindE_eq_Inr)
  show thesis
    by (rule that [OF validate_state_copies [OF c assms(2)] validate_state_tidy [OF c] seal_ok [OF t]]) blast
qed

text \<open>
  How a session moves: what it is bound to stays, its cycles and accepted actions only grow, and a
  session within its budgets stays within them
\<close>

definition capped :: "int \<Rightarrow> (string \<times> int) list \<Rightarrow> bool" where
  "capped m xs \<longleftrightarrow> (\<forall>n \<in> snd ` set xs. n \<le> m)"

lemma capped_sort [simp]: "capped m (sort_key f xs) = capped m xs"
  by (simp add: capped_def)

lemma capped_dput: "capped m xs \<Longrightarrow> n \<le> m \<Longrightarrow> capped m (dput k n xs)"
  using image_mono [OF set_dput, of snd k n xs] unfolding capped_def image_insert snd_conv by blast

definition bounded :: "cstate \<Rightarrow> bool" where
  "bounded s \<longleftrightarrow>
     us_cycles (cs_usage s) \<le> bg_max_cycles (cs_budgets s) \<and>
     int (length (us_active_long_runs (cs_usage s))) \<le> bg_max_concurrent_long_runs (cs_budgets s) \<and>
     capped (bg_max_commits_per_cycle (cs_budgets s)) (us_commits_by_cycle (cs_usage s))"

definition moves :: "cstate \<Rightarrow> cstate \<Rightarrow> bool" where
  "moves s t \<longleftrightarrow>
     cs_session_id t = cs_session_id s \<and> cs_goal_id t = cs_goal_id s \<and> cs_task_family t = cs_task_family s \<and>
     cs_budgets t = cs_budgets s \<and> cs_version s \<le> cs_version t \<and> (\<exists>zs. cs_cycle_ids t = cs_cycle_ids s @ zs) \<and>
     us_cycles (cs_usage t) - int (length (cs_cycle_ids t)) = us_cycles (cs_usage s) - int (length (cs_cycle_ids s)) \<and>
     accepted_keys s \<subseteq> accepted_keys t \<and> (cs_closure_only s \<longrightarrow> cs_closure_only t) \<and>
     us_agent_actions (cs_usage s) \<le> us_agent_actions (cs_usage t) \<and> (bounded s \<longrightarrow> bounded t)"

lemma moves_refl [simp]: "moves s s"
  by (simp add: moves_def)

lemma moves_trans [trans]:
  assumes "moves s t" and "moves t u"
  shows "moves s u"
proof -
  from assms have "\<exists>zs. cs_cycle_ids u = cs_cycle_ids s @ zs" by (auto simp: moves_def)
  with assms show ?thesis by (auto simp: moves_def)
qed

lemma copied_moves: "copied s t \<Longrightarrow> moves s t"
  by (simp add: copied_def moves_def accepted_keys_def bounded_def)

lemma mapE_opaque_prefix:
  "mapE opaque (map JStr (xs @ ys)) = Inr zs \<Longrightarrow> list_all is_opaque xs \<Longrightarrow> \<exists>ws. zs = xs @ ws"
  by (induction xs arbitrary: zs) (auto simp: bindE_eq_Inr)

lemma sealed_moves:
  assumes "validate_state H (cstate_json g) = Inr t" and "state_tidy c" and "moves c g"
  shows "moves c t"
proof -
  note k = validate_state_keeps [OF assms(1)] and u = c_usage_keeps [OF validate_state_keeps(15) [OF assms(1)]]
  from k(14) obtain acc where acc: "accepted_items (map (\<lambda>(k, v). (k, JStr v)) (cs_accepted g)) [] = Inr acc"
    "cs_accepted t = sort_key fst acc" by blast
  have "accepted_keys t = {k'. \<exists>k \<in> accepted_keys g. opaque (JStr k) = Inr k'}"
    using accepted_items_keys [OF acc(1)] by (simp add: accepted_keys_def acc(2))
  moreover have "\<And>k. k \<in> accepted_keys c \<Longrightarrow> opaque (JStr k) = Inr k"
    using assms(2) by (auto simp: state_tidy_def accepted_keys_def list_all_iff)
  ultimately have keys: "accepted_keys c \<subseteq> accepted_keys t" using assms(3) by (force simp: moves_def)
  obtain zs where "cs_cycle_ids g = cs_cycle_ids c @ zs" using assms(3) by (auto simp: moves_def)
  with k(12) assms(2) have cycles: "\<exists>ws. cs_cycle_ids t = cs_cycle_ids c @ ws"
    by (auto simp: state_tidy_def intro!: mapE_opaque_prefix)
  have "length (cs_cycle_ids t) = length (cs_cycle_ids g)" using mapE_opaque [OF k(12)] by simp
  moreover have "bounded g \<Longrightarrow> bounded t" unfolding bounded_def capped_def u(1,3) k(4) using u(4) by blast
  moreover have "cs_session_id t = cs_session_id c" "cs_goal_id t = cs_goal_id c" "cs_task_family t = cs_task_family c"
    using k(7-9) assms(2,3) by (simp_all add: moves_def state_tidy_def)
  ultimately show ?thesis using keys cycles k u(1,2) assms(3) by (simp add: moves_def)
qed

lemma moves_stamp:
  assumes "moves c g" and "cs_version c \<le> v"
  shows "moves c (g\<lparr>cs_updated_at := u, cs_version := v, cs_sha256 := h\<rparr>)"
proof -
  let ?g = "g\<lparr>cs_updated_at := u, cs_version := v, cs_sha256 := h\<rparr>"
  have "bounded ?g = bounded g" "accepted_keys ?g = accepted_keys g" by (simp_all add: bounded_def accepted_keys_def)
  with assms show ?thesis by (simp add: moves_def)
qed

lemma evolve_moves:
  assumes "evolve H at f s = Inr t" and "state_tidy s" and "\<And>c. copied s c \<Longrightarrow> state_tidy c \<Longrightarrow> moves c (f c)"
  shows "moves s t" and "state_tidy t" and "cs_version t = cs_version s + 1"
proof -
  obtain c g where c: "copied s c" "state_tidy c" "state_tidy t" and g: "validate_state H (cstate_json g) = Inr t"
    "\<exists>u h. g = (f c)\<lparr>cs_updated_at := u, cs_version := cs_version c + 1, cs_sha256 := h\<rparr>"
    by (rule evolve_ok [OF assms(1,2)])
  from g(2) obtain u h where u: "g = (f c)\<lparr>cs_updated_at := u, cs_version := cs_version c + 1, cs_sha256 := h\<rparr>" by blast
  have "moves c g" unfolding u by (rule moves_stamp [OF assms(3) [OF c(1,2)]]) simp
  with sealed_moves [OF g(1) c(2)] copied_moves [OF c(1)] show "moves s t" by (blast intro: moves_trans)
  show "state_tidy t" by (rule c(3))
  show "cs_version t = cs_version s + 1" using validate_state_keeps(5) [OF g(1)] g(2) c(1) by (auto simp: copied_def)
qed

text \<open>What \<open>evolve\<close> writes\<close>

lemma evolve_writes:
  assumes "evolve H at f s = Inr t" and "state_tidy s"
    and "\<And>c. copied s c \<Longrightarrow> cs_status (f c) = st" and "\<And>c. copied s c \<Longrightarrow> cs_host_live (f c) = live"
  shows "cs_status t = st" and "cs_host_live t = live"
    and "(\<And>c. copied s c \<Longrightarrow> rel_option same_effect q (cs_pending (f c))) \<Longrightarrow> (\<And>c. copied s c \<Longrightarrow> state_tidy c \<Longrightarrow> \<forall>a. cs_pending (f c) = Some a \<longrightarrow> action_tidy a) \<Longrightarrow>
      rel_option same_effect q (cs_pending t)"
proof -
  obtain c g where c: "copied s c" "state_tidy c" "state_tidy t" and g: "validate_state H (cstate_json g) = Inr t"
    "\<exists>u h. g = (f c)\<lparr>cs_updated_at := u, cs_version := cs_version c + 1, cs_sha256 := h\<rparr>"
    by (rule evolve_ok [OF assms(1,2)])
  note k = validate_state_keeps [OF g(1)]
  show "cs_status t = st" "cs_host_live t = live" using k(1,2) g(2) assms(3,4) [OF c(1)] by auto
  assume q: "\<And>c. copied s c \<Longrightarrow> rel_option same_effect q (cs_pending (f c))"
    "\<And>c. copied s c \<Longrightarrow> state_tidy c \<Longrightarrow> \<forall>a. cs_pending (f c) = Some a \<longrightarrow> action_tidy a"
  have "cs_pending g = cs_pending (f c)" using g(2) by auto
  with pending_again [OF k(13)] q(2) [OF c(1,2)] have "rel_option same_effect (cs_pending (f c)) (cs_pending t)" by auto
  with q(1) [OF c(1)] show "rel_option same_effect q (cs_pending t)"
    by (cases q; cases "cs_pending (f c)"; cases "cs_pending t") (auto intro: same_effect_trans)
qed

end
