(* ===== verification/Session_Store.thy ===== *)
theory Session_Store
  imports Session_Lease
begin

text \<open>
  The registry of session leases (\<^verbatim>\<open>session_registry.py\<close>, \<^verbatim>\<open>session_store.py\<close>): one directory per
  session with its lease document, reading the valid leases of a thread, the lease that a scope may
  reuse, compare-and-swap writes, the choice of an activation, and starting and stopping a session. A scope is a workspace, a
  thread and an activation. The signed activation that a start narrows is an argument.
\<close>

subsection \<open>The registry\<close>

text \<open>What a session directory holds: something that is no plain directory or file, no lease file, or a document (\<open>None\<close> when its bytes are no JSON)\<close>

datatype session_entry = Se_unsafe | Se_absent | Se_doc "json option"

type_synonym registry = "session_entry dir"

text \<open>\<^verbatim>\<open>_read_lease_from_parent\<close>: documents that do not validate are skipped, other exceptions are not caught\<close>

definition read_lease :: "(string \<Rightarrow> string) \<Rightarrow> session_entry \<Rightarrow> lease option res" where
  "read_lease H x =
     (case x of
        Se_unsafe \<Rightarrow> refuse EscapesBoundary
      | Se_absent \<Rightarrow> Inr None
      | Se_doc None \<Rightarrow> Inr None
      | Se_doc (Some v) \<Rightarrow>
          (case validate_session_lease H v of
             Inr l \<Rightarrow> Inr (Some l)
           | Inl (ValueError _) \<Rightarrow> Inr None
           | Inl e \<Rightarrow> Inl e))"

definition lease_row :: "(string \<Rightarrow> string) \<Rightarrow> string option \<Rightarrow> string \<times> session_entry \<Rightarrow> (string \<times> lease) list res" where
  "lease_row H thread_sha x =
     bindE (read_lease H (snd x)) (\<lambda>r.
     case r of
       None \<Rightarrow> Inr []
     | Some l \<Rightarrow>
         if thread_sha \<noteq> None \<and> Some (si_thread_binding_sha256 (sb_identity (ls_binding l))) \<noteq> thread_sha
         then Inr [] else Inr [(fst x, l)])"

definition thread_digest :: "(string \<Rightarrow> string) \<Rightarrow> string \<Rightarrow> string" where
  "thread_digest H thread = H (utf8 thread)"

definition matching_session_leases :: "(string \<Rightarrow> string) \<Rightarrow> registry \<Rightarrow> string option \<Rightarrow> (string \<times> lease) list res" where
  "matching_session_leases H reg thread =
     (let sha = (case thread of None \<Rightarrow> None | Some t \<Rightarrow> if t = [] then None else Some (thread_digest H t)) in
      bindE (mapE (lease_row H sha) (sort_key fst reg)) (\<lambda>rows. Inr (concat rows)))"

definition in_scope :: "string \<Rightarrow> string \<Rightarrow> string \<Rightarrow> lease \<Rightarrow> bool" where
  "in_scope workspace thread_sha activation l \<longleftrightarrow>
     si_workspace_identity (sb_identity (ls_binding l)) = workspace \<and>
     si_thread_binding_sha256 (sb_identity (ls_binding l)) = thread_sha \<and>
     si_activation_evidence_id (sb_identity (ls_binding l)) = activation"

definition scope_rows ::
  "(string \<Rightarrow> string) \<Rightarrow> (string \<times> lease) list \<Rightarrow> string \<Rightarrow> string \<Rightarrow> string \<Rightarrow> (string \<times> lease) list" where
  "scope_rows H rows workspace thread activation =
     filter (\<lambda>r. in_scope workspace (thread_digest H thread) activation (snd r)) rows"

definition is_live :: "lease \<Rightarrow> bool" where
  "is_live l \<longleftrightarrow> lc_status (ls_lifecycle l) = Session_live"

definition reusable_scope_lease ::
  "(string \<Rightarrow> string) \<Rightarrow> (string \<times> lease) list \<Rightarrow> string \<Rightarrow> string \<Rightarrow> string option \<Rightarrow> lease option res" where
  "reusable_scope_lease H rows provider trust receipt =
     (case filter is_live (map snd rows) of
        [] \<Rightarrow> if rows \<noteq> [] then refuse NotActive else Inr None
      | [l] \<Rightarrow>
          let i = sb_identity (ls_binding l);
              receipt_sha = (case receipt of None \<Rightarrow> None | Some r \<Rightarrow> if r = [] then None else Some (H (utf8 r))) in
          if si_provider i = provider \<and> trust = ''agent_mediated_tty_narrowing'' \<and> si_trust_class i = trust
          then Inr (Some l)
          else if si_provider i = provider \<and> si_trust_class i = trust \<and> Some (si_approval_receipt_sha256 i) = receipt_sha
          then Inr (Some l)
          else refuse Conflict
      | _ \<Rightarrow> refuse Conflict)"

definition write_session_lease ::
  "(string \<Rightarrow> string) \<Rightarrow> registry \<Rightarrow> json \<Rightarrow> string option \<Rightarrow> registry res" where
  "write_session_lease H reg v expected =
     bindE (validate_session_lease H v) (\<lambda>l.
     let name = sb_session_id (ls_binding l); new = dput name (Se_doc (Some (lease_json l))) reg in
     case (case map_of reg name of None \<Rightarrow> Se_absent | Some x \<Rightarrow> x) of
       Se_unsafe \<Rightarrow> refuse EscapesBoundary
     | Se_doc doc \<Rightarrow>
         (case (case doc of None \<Rightarrow> refuse BadContract | Some w \<Rightarrow> validate_session_lease H w) of
            Inl (ValueError _) \<Rightarrow> refuse BadContract
          | Inl e \<Rightarrow> Inl e
          | Inr current \<Rightarrow>
              if current = l then Inr reg
              else if expected = None then refuse Conflict
              else if Some (ls_state_sha256 current) \<noteq> expected then refuse CasConflict
              else Inr new)
     | Se_absent \<Rightarrow> if expected \<noteq> None then refuse Missing else Inr new)"

subsection \<open>Starting and stopping\<close>

text \<open>The fields of the activation row and of its plan that a start reads\<close>

record activation =
  ac_activation_id :: string
  ac_workspace_identity :: string
  ac_mode :: string
  ac_max_risk :: string
  ac_operation_groups :: json
  ac_final_goal_sha256 :: string
  ac_goal_contract_sha256 :: string
  ac_policy_sha256 :: string
  ac_manifest_bindings :: json
  ac_expires_at :: string
  ac_max_total_uses :: int
  ac_max_concurrent_long_runs :: int

definition goal_identifiers :: "(string \<Rightarrow> string) \<Rightarrow> activation \<Rightarrow> string \<times> string" where
  "goal_identifiers H a =
     (let digest = (if ac_final_goal_sha256 a = ''absent'' then ac_goal_contract_sha256 a else ac_final_goal_sha256 a);
          identity = take 24 (H (utf8 digest)) in
      (''goal-'' @ identity, ''goal-family-'' @ identity))"

definition session_budgets :: "activation \<Rightarrow> json" where
  "session_budgets a = budgets_json
     \<lparr>bg_max_cycles = 3, bg_max_agent_actions = min (bg_max_agent_actions DEFAULT_BUDGETS) (ac_max_total_uses a),
      bg_max_concurrent_long_runs = ac_max_concurrent_long_runs a, bg_max_commits_per_cycle = 1\<rparr>"

definition start_session ::
  "(string \<Rightarrow> string) \<Rightarrow> registry \<Rightarrow> activation \<Rightarrow> string \<Rightarrow> string \<Rightarrow> string \<Rightarrow> string \<Rightarrow> string \<Rightarrow> (lease \<times> registry) res" where
  "start_session H reg a thread provider receipt issued_at trust =
     bindE (matching_session_leases H reg (Some thread)) (\<lambda>rows.
     let scoped = scope_rows H rows (ac_workspace_identity a) thread (ac_activation_id a) in
     bindE (reusable_scope_lease H scoped provider trust (Some receipt)) (\<lambda>existing.
     case existing of
       Some l \<Rightarrow> Inr (l, reg)
     | None \<Rightarrow>
         bindE (build_session_binding H (ac_workspace_identity a) provider thread (ac_activation_id a) trust receipt None) (\<lambda>b.
         bindE (build_session_lease H (session_binding_json b) (fst (goal_identifiers H a)) (snd (goal_identifiers H a))
             (ac_mode a) (ac_max_risk a) (ac_operation_groups a) (ac_final_goal_sha256 a) (ac_policy_sha256 a)
             (object_sha256 H (ac_manifest_bindings a)) issued_at (JStr (ac_expires_at a)) (session_budgets a)) (\<lambda>l.
         bindE (write_session_lease H reg (lease_json l) None) (\<lambda>reg'.
         Inr (l, reg'))))))"

definition stop_matching_session ::
  "(string \<Rightarrow> string) \<Rightarrow> registry \<Rightarrow> string \<Rightarrow> string \<Rightarrow> (lease \<times> registry) res" where
  "stop_matching_session H reg thread stopped_at =
     bindE (matching_session_leases H reg (Some thread)) (\<lambda>rows.
     case filter (\<lambda>r. is_live (snd r)) rows of
       [r] \<Rightarrow>
         bindE (update_liveness H (lease_json (snd r)) stopped_at False True) (\<lambda>stopped.
         bindE (write_session_lease H reg (lease_json stopped) (Some (ls_state_sha256 (snd r)))) (\<lambda>reg'.
         Inr (stopped, reg')))
     | _ \<Rightarrow> refuse Conflict)"

subsection \<open>The activation that a session narrows\<close>

text \<open>
  A row of the status of the activations, with the plan that loads for it and the time when the plan was
  prepared; \<open>None\<close> when there is no plan binding or the plan does not load.
\<close>

record activation_row =
  ar_eligible :: bool
  ar_plan :: "(string \<times> activation) option"

definition candidate_plan :: "string \<Rightarrow> activation_row \<Rightarrow> (string \<times> activation) list" where
  "candidate_plan current row =
     (if \<not> ar_eligible row then []
      else case ar_plan row of
        None \<Rightarrow> []
      | Some p \<Rightarrow>
          if ac_mode (snd p) \<notin> set ACTIVATION_MODES then []
          else if current = ''governed'' \<and> ac_mode (snd p) \<noteq> ''governed'' then []
          else [p])"

definition plan_rank :: "string \<Rightarrow> string \<times> activation \<Rightarrow> nat" where
  "plan_rank current p = (if ac_mode (snd p) = current then 0 else 1)"

text \<open>\<^verbatim>\<open>max\<close> by the time of preparation, where the first of equal rows wins\<close>

fun latest_plan :: "string \<times> activation \<Rightarrow> (string \<times> activation) list \<Rightarrow> string \<times> activation" where
  "latest_plan best [] = best"
| "latest_plan best (p # ps) = latest_plan (if fst best < fst p then p else best) ps"

definition eligible_activation :: "string \<Rightarrow> activation_row list \<Rightarrow> activation res" where
  "eligible_activation current rows =
     (let plans = concat (map (candidate_plan current) rows) in
      if plans = [] then refuse Missing
      else
        let best = min_list (map (plan_rank current) plans);
            ranked = filter (\<lambda>p. plan_rank current p = best) plans in
        Inr (snd (latest_plan (hd ranked) (tl ranked))))"

definition reusable_session_lease ::
  "(string \<Rightarrow> string) \<Rightarrow> registry \<Rightarrow> string \<Rightarrow> activation_row list \<Rightarrow> string \<Rightarrow> string \<Rightarrow> string \<Rightarrow> string option \<Rightarrow>
   lease option res" where
  "reusable_session_lease H reg current rows thread provider trust receipt =
     bindE (eligible_activation current rows) (\<lambda>a.
     bindE (matching_session_leases H reg (Some thread)) (\<lambda>leases.
     reusable_scope_lease H (scope_rows H leases (ac_workspace_identity a) thread (ac_activation_id a))
       provider trust receipt))"

definition build_session_lease_from_approval ::
  "(string \<Rightarrow> string) \<Rightarrow> registry \<Rightarrow> string \<Rightarrow> activation_row list \<Rightarrow> string \<Rightarrow> string \<Rightarrow> string \<Rightarrow> string \<Rightarrow> string \<Rightarrow>
   (lease \<times> registry) res" where
  "build_session_lease_from_approval H reg current rows thread provider receipt issued_at trust =
     bindE (eligible_activation current rows) (\<lambda>a. start_session H reg a thread provider receipt issued_at trust)"

subsection \<open>Well-formed registries\<close>

definition registered_lease :: "(string \<Rightarrow> string) \<Rightarrow> registry \<Rightarrow> lease \<Rightarrow> bool" where
  "registered_lease H reg l \<longleftrightarrow>
     lease_normal H l \<and> map_of reg (sb_session_id (ls_binding l)) = Some (Se_doc (Some (lease_json l)))"

definition registry_ok :: "(string \<Rightarrow> string) \<Rightarrow> registry \<Rightarrow> bool" where
  "registry_ok H reg \<longleftrightarrow> distinct (map fst reg) \<and>
     (\<forall>n x. (n, x) \<in> set reg \<longrightarrow>
       (\<exists>l. x = Se_doc (Some (lease_json l)) \<and> lease_normal H l \<and> n = sb_session_id (ls_binding l)))"

definition same_scope :: "lease \<Rightarrow> lease \<Rightarrow> bool" where
  "same_scope l m \<longleftrightarrow>
     in_scope (si_workspace_identity (sb_identity (ls_binding m))) (si_thread_binding_sha256 (sb_identity (ls_binding m)))
       (si_activation_evidence_id (sb_identity (ls_binding m))) l"

definition scopes_unique :: "(string \<Rightarrow> string) \<Rightarrow> registry \<Rightarrow> bool" where
  "scopes_unique H reg \<longleftrightarrow>
     (\<forall>l m. registered_lease H reg l \<longrightarrow> registered_lease H reg m \<longrightarrow> same_scope l m \<longrightarrow> l = m)"

lemma lease_json_inj: "lease_normal H l \<Longrightarrow> lease_normal H m \<Longrightarrow> lease_json l = lease_json m \<Longrightarrow> l = m"
  using lease_norm.render_inj [OF validate_lease_again validate_lease_again] by blast

lemma registered_entry:
  assumes "registry_ok H reg" and "(n, x) \<in> set reg"
  obtains l where "x = Se_doc (Some (lease_json l))" "registered_lease H reg l" "n = sb_session_id (ls_binding l)"
  using assms unfolding registry_ok_def registered_lease_def by (metis map_of_is_SomeI)

lemma lease_row_entry:
  assumes "lease_normal H l"
  shows "lease_row H sha (n, Se_doc (Some (lease_json l))) =
    Inr (if sha \<noteq> None \<and> Some (si_thread_binding_sha256 (sb_identity (ls_binding l))) \<noteq> sha then [] else [(n, l)])"
  by (simp add: lease_row_def read_lease_def validate_lease_again [OF assms])

lemma mapE_image: "mapE f xs = Inr ys \<Longrightarrow> y \<in> set ys \<longleftrightarrow> (\<exists>x \<in> set xs. f x = Inr y)"
  by (induction xs arbitrary: ys) (auto simp: bindE_eq_Inr)

lemma matching_rows:
  assumes "registry_ok H reg" and "matching_session_leases H reg (Some thread) = Inr rows"
  shows "(n, l) \<in> set rows \<longleftrightarrow> registered_lease H reg l \<and> n = sb_session_id (ls_binding l) \<and>
    (thread = [] \<or> si_thread_binding_sha256 (sb_identity (ls_binding l)) = thread_digest H thread)"
proof -
  define sha where "sha = (if thread = [] then None else Some (thread_digest H thread))"
  have hit: "(thread = [] \<or> si_thread_binding_sha256 (sb_identity (ls_binding l)) = thread_digest H thread) \<longleftrightarrow>
    \<not> (sha \<noteq> None \<and> Some (si_thread_binding_sha256 (sb_identity (ls_binding l))) \<noteq> sha)" for l
    by (simp add: sha_def)
  obtain rs where rs: "mapE (lease_row H sha) (sort_key fst reg) = Inr rs" and rows: "rows = concat rs"
    using assms(2) by (auto simp: matching_session_leases_def sha_def bindE_eq_Inr)
  have "ys \<in> set rs \<longleftrightarrow> (\<exists>x \<in> set reg. lease_row H sha x = Inr ys)" for ys
    using mapE_image [OF rs, of ys] by simp
  then have "(n, l) \<in> set rows \<longleftrightarrow> (\<exists>x \<in> set reg. \<exists>ys. lease_row H sha x = Inr ys \<and> (n, l) \<in> set ys)"
    by (simp add: rows) blast
  also have "\<dots> \<longleftrightarrow> registered_lease H reg l \<and> n = sb_session_id (ls_binding l) \<and>
    \<not> (sha \<noteq> None \<and> Some (si_thread_binding_sha256 (sb_identity (ls_binding l))) \<noteq> sha)" (is "?L \<longleftrightarrow> ?R")
  proof
    assume ?L
    then obtain k x ys where x: "(k, x) \<in> set reg" and ys: "lease_row H sha (k, x) = Inr ys" "(n, l) \<in> set ys" by auto
    from assms(1) x obtain m where m: "x = Se_doc (Some (lease_json m))" "registered_lease H reg m" "k = sb_session_id (ls_binding m)"
      by (rule registered_entry)
    from m(2) have "lease_normal H m" by (simp add: registered_lease_def)
    from ys m lease_row_entry [OF this] show ?R by (auto split: if_splits)
  next
    assume r: ?R
    then have "lease_normal H l" "(n, Se_doc (Some (lease_json l))) \<in> set reg"
      by (auto simp: registered_lease_def dest: map_of_SomeD)
    with r lease_row_entry [OF this(1)] show ?L
      by (intro bexI [of _ "(n, Se_doc (Some (lease_json l)))"]) auto
  qed
  finally show ?thesis unfolding hit .
qed

lemma registry_put:
  assumes "registry_ok H reg" and "lease_normal H l"
  defines "reg' \<equiv> dput (sb_session_id (ls_binding l)) (Se_doc (Some (lease_json l))) reg"
  shows "registry_ok H reg'"
    and "registered_lease H reg' m \<longleftrightarrow> m = l \<or> registered_lease H reg m \<and> sb_session_id (ls_binding m) \<noteq> sb_session_id (ls_binding l)"
proof -
  have sub: "set reg' \<subseteq> insert (sb_session_id (ls_binding l), Se_doc (Some (lease_json l))) (set reg)"
    unfolding reg'_def by (rule set_dput)
  show "registry_ok H reg'"
    unfolding registry_ok_def
  proof (intro conjI allI impI)
    show "distinct (map fst reg')" using assms(1) by (simp add: reg'_def registry_ok_def dput_distinct)
    fix n x assume "(n, x) \<in> set reg'"
    with sub have "(n, x) = (sb_session_id (ls_binding l), Se_doc (Some (lease_json l))) \<or> (n, x) \<in> set reg" by blast
    then show "\<exists>l. x = Se_doc (Some (lease_json l)) \<and> lease_normal H l \<and> n = sb_session_id (ls_binding l)"
      using assms(1,2) by (auto simp: registry_ok_def)
  qed
  show "registered_lease H reg' m \<longleftrightarrow> m = l \<or> registered_lease H reg m \<and> sb_session_id (ls_binding m) \<noteq> sb_session_id (ls_binding l)"
    using assms(2) lease_json_inj [of H m l] by (auto simp: registered_lease_def reg'_def)
qed

lemma write_cases:
  assumes "registry_ok H reg" and "lease_normal H l" and "write_session_lease H reg (lease_json l) expected = Inr reg'"
  obtains (same) "reg' = reg" "registered_lease H reg l"
  | (created) "expected = None" "map_of reg (sb_session_id (ls_binding l)) = None"
      "reg' = dput (sb_session_id (ls_binding l)) (Se_doc (Some (lease_json l))) reg"
  | (replaced) m where "registered_lease H reg m" "sb_session_id (ls_binding m) = sb_session_id (ls_binding l)"
      "expected = Some (ls_state_sha256 m)"
      "reg' = dput (sb_session_id (ls_binding l)) (Se_doc (Some (lease_json l))) reg"
proof (cases "map_of reg (sb_session_id (ls_binding l))")
  case None
  with assms(3) created show thesis
    by (auto simp: write_session_lease_def validate_lease_again [OF assms(2)] Let_def split: if_splits)
next
  case (Some x)
  from registered_entry [OF assms(1) map_of_SomeD [OF Some]] obtain m where
    m: "x = Se_doc (Some (lease_json m))" "registered_lease H reg m" "sb_session_id (ls_binding l) = sb_session_id (ls_binding m)"
    by blast
  then have "lease_normal H m" by (simp add: registered_lease_def)
  then have "write_session_lease H reg (lease_json l) expected =
      (if m = l then Inr reg else if expected = None then refuse Conflict
       else if Some (ls_state_sha256 m) \<noteq> expected then refuse CasConflict
       else Inr (dput (sb_session_id (ls_binding l)) (Se_doc (Some (lease_json l))) reg))"
    by (simp add: write_session_lease_def validate_lease_again [OF assms(2)] validate_lease_again Let_def Some m(1))
  with assms(3) have "m = l \<and> reg' = reg \<or> expected = Some (ls_state_sha256 m)
      \<and> reg' = dput (sb_session_id (ls_binding l)) (Se_doc (Some (lease_json l))) reg"
    by (simp split: if_splits)
  with same m(2) replaced [OF m(2) m(3) [symmetric]] show thesis by blast
qed

subsection \<open>Steps of the registry\<close>

text \<open>
  Starts and stops, of any thread and activation. The identities that the workspace and the activation
  bring are identifiers, as their producers make them; for a text with blanks around it the scope that
  is looked up and the scope that is stored would differ.
\<close>

inductive registry_step :: "(string \<Rightarrow> string) \<Rightarrow> registry \<Rightarrow> registry \<Rightarrow> bool" for H where
  started: "is_opaque (ac_workspace_identity a) \<Longrightarrow> is_opaque (ac_activation_id a) \<Longrightarrow>
    start_session H reg a thread provider receipt issued trust = Inr (l, reg') \<Longrightarrow> registry_step H reg reg'"
| stopped: "stop_matching_session H reg thread at = Inr (l, reg') \<Longrightarrow> registry_step H reg reg'"

definition hex_digests :: "(string \<Rightarrow> string) \<Rightarrow> bool" where
  "hex_digests H \<longleftrightarrow> (\<forall>s. is_sha (H s))"

lemma session_sha_hex: "hex_digests H \<Longrightarrow> session_sha (JStr (H s)) = Inr (H s)"
  by (simp add: hex_digests_def session_sha_def lower_sha removeprefix_sha)

lemma built_binding:
  assumes "hex_digests H" and "build_session_binding H w p thread e trust receipt None = Inr b"
    and "is_opaque w" and "is_opaque e"
  shows "binding_normal H b" and "thread \<noteq> []" and "si_workspace_identity (sb_identity b) = w"
    and "si_activation_evidence_id (sb_identity b) = e" and "si_thread_binding_sha256 (sb_identity b) = thread_digest H thread"
proof -
  from assms(2) [unfolded build_session_binding_def digest_secret_def result_simps] assms(3,4)
  obtain p' where p': "opaque (JStr p) = Inr p'" and trust: "trust \<in> set TRUST_CLASSES" and thread: "thread \<noteq> []"
    and b: "bind_identity H \<lparr>si_workspace_identity = w, si_provider = p', si_thread_binding_sha256 = H (utf8 thread),
      si_activation_evidence_id = e, si_trust_class = trust, si_approval_receipt_sha256 = H (utf8 receipt)\<rparr> = Inr b"
    by (auto simp: result_simps)
  show "binding_normal H b"
    using assms(1,3,4) p' trust by (intro identity_normal [OF b]) (simp_all add: opaque_ok session_sha_hex)
  show "thread \<noteq> []" by (rule thread)
  show "si_workspace_identity (sb_identity b) = w" "si_activation_evidence_id (sb_identity b) = e"
    "si_thread_binding_sha256 (sb_identity b) = thread_digest H thread"
    using bind_identity_ok [OF b] by (simp_all add: thread_digest_def)
qed

lemma reusable_None: "reusable_scope_lease H rows provider trust receipt = Inr None \<Longrightarrow> rows = []"
  by (auto simp: reusable_scope_lease_def Let_def split: list.splits if_splits)

lemma start_effect:
  assumes "hex_digests H" and "registry_ok H reg" and "is_opaque (ac_workspace_identity a)" and "is_opaque (ac_activation_id a)"
    and "start_session H reg a thread provider receipt issued trust = Inr (l, reg')"
  obtains (kept) "reg' = reg"
  | (created) "lease_normal H l" "map_of reg (sb_session_id (ls_binding l)) = None"
      "reg' = dput (sb_session_id (ls_binding l)) (Se_doc (Some (lease_json l))) reg" "is_live l"
      "\<And>m. registered_lease H reg m \<Longrightarrow> \<not> same_scope m l"
proof -
  from assms(5) [unfolded start_session_def Let_def result_simps] obtain rows existing where
    rows: "matching_session_leases H reg (Some thread) = Inr rows"
    and ex: "reusable_scope_lease H (scope_rows H rows (ac_workspace_identity a) thread (ac_activation_id a)) provider trust (Some receipt)
      = Inr existing"
    and rest: "(case existing of Some l \<Rightarrow> Inr (l, reg)
     | None \<Rightarrow>
         bindE (build_session_binding H (ac_workspace_identity a) provider thread (ac_activation_id a) trust receipt None) (\<lambda>b.
         bindE (build_session_lease H (session_binding_json b) (fst (goal_identifiers H a)) (snd (goal_identifiers H a))
             (ac_mode a) (ac_max_risk a) (ac_operation_groups a) (ac_final_goal_sha256 a) (ac_policy_sha256 a)
             (object_sha256 H (ac_manifest_bindings a)) issued (JStr (ac_expires_at a)) (session_budgets a)) (\<lambda>l.
         bindE (write_session_lease H reg (lease_json l) None) (\<lambda>reg'. Inr (l, reg'))))) = Inr (l, reg')"
    by blast
  show thesis
  proof (cases existing)
    case (Some x)
    with rest kept show thesis by simp
  next
    case None
    from rest [unfolded None option.case result_simps prod.inject] obtain b where
      b: "build_session_binding H (ac_workspace_identity a) provider thread (ac_activation_id a) trust receipt None = Inr b"
      and l: "build_session_lease H (session_binding_json b) (fst (goal_identifiers H a)) (snd (goal_identifiers H a))
             (ac_mode a) (ac_max_risk a) (ac_operation_groups a) (ac_final_goal_sha256 a) (ac_policy_sha256 a)
             (object_sha256 H (ac_manifest_bindings a)) issued (JStr (ac_expires_at a)) (session_budgets a) = Inr l"
      and w: "write_session_lease H reg (lease_json l) None = Inr reg'" by blast
    note bound = built_binding [OF assms(1) b assms(3,4)]
    from build_lease_facts [OF l] bound(1) have lb: "ls_binding l = b" and n: "lease_normal H l" and live: "is_live l"
      by (auto simp: binding_normal_def is_live_def)
    have none: "\<not> same_scope m l" if "registered_lease H reg m" for m
      using matching_rows [OF assms(2) rows, of "sb_session_id (ls_binding m)" m] that reusable_None [OF ex [unfolded None]]
      by (auto simp: same_scope_def in_scope_def scope_rows_def lb bound filter_empty_conv)
    from assms(2) n w show thesis
    proof (cases rule: write_cases)
      case same
      with none [OF same(2)] show thesis by (simp add: same_scope_def in_scope_def)
    next
      case created': created
      with n live none created show thesis by blast
    next
      case (replaced m)
      then show thesis by simp
    qed
  qed
qed

lemma stop_effect:
  assumes "registry_ok H reg" and "stop_matching_session H reg thread at = Inr (l, reg')"
  obtains m where "registered_lease H reg m" "is_live m" "lease_normal H l" "lease_identity l = lease_identity m" "\<not> is_live l"
    "reg' = dput (sb_session_id (ls_binding l)) (Se_doc (Some (lease_json l))) reg"
proof -
  from assms(2) [unfolded stop_matching_session_def result_simps] obtain rows where
    rows: "matching_session_leases H reg (Some thread) = Inr rows"
    and run: "(case filter (\<lambda>r. is_live (snd r)) rows of
       [r] \<Rightarrow>
         bindE (update_liveness H (lease_json (snd r)) at False True) (\<lambda>stopped.
         bindE (write_session_lease H reg (lease_json stopped) (Some (ls_state_sha256 (snd r)))) (\<lambda>reg'.
         Inr (stopped, reg')))
     | _ \<Rightarrow> refuse Conflict) = Inr (l, reg')" by blast
  obtain r where r: "filter (\<lambda>r. is_live (snd r)) rows = [r]"
    using run by (cases "filter (\<lambda>r. is_live (snd r)) rows"; cases "tl (filter (\<lambda>r. is_live (snd r)) rows)") auto
  from run [unfolded r list.case result_simps prod.inject] have
    u: "update_liveness H (lease_json (snd r)) at False True = Inr l"
    and w: "write_session_lease H reg (lease_json l) (Some (ls_state_sha256 (snd r))) = Inr reg'" by blast+
  have "r \<in> set (filter (\<lambda>r. is_live (snd r)) rows)" by (simp add: r)
  with matching_rows [OF assms(1) rows, of "fst r" "snd r"] have m: "registered_lease H reg (snd r)" "is_live (snd r)" by auto
  then have n: "lease_normal H (snd r)" by (simp add: registered_lease_def)
  have l: "lease_normal H l \<and> lease_identity l = lease_identity (snd r)"
    using session_step_keeps [OF session_step.observed [OF u] n] by simp
  obtain t where "utc_time (JStr at) = Inr t" using u by (auto simp: update_liveness_def bindE_eq_Inr)
  from u [unfolded update_liveness_result [OF n this]] have dead: "\<not> is_live l" by (auto simp: is_live_def restated_def)
  from assms(1) conjunct1 [OF l] w show thesis
  proof (cases rule: write_cases)
    case same
    from same(2) m(1) l have "lease_json l = lease_json (snd r)"
      by (auto simp: registered_lease_def lease_identity_def session_binding_json_def)
    with lease_json_inj [OF _ n this] l dead m(2) show thesis by auto
  qed (use that [OF m] l dead in auto)
qed

subsection \<open>One lease per scope\<close>

lemma identity_binding: "lease_identity l = lease_identity m \<Longrightarrow> ls_binding l = ls_binding m"
  by (simp add: lease_identity_def session_binding_json_def identity_fields_def)

lemma same_scope_binding: "ls_binding l = ls_binding l' \<Longrightarrow> same_scope l m \<longleftrightarrow> same_scope l' m"
  and same_scope_sym: "same_scope l m \<longleftrightarrow> same_scope m l"
  and same_scope_refl: "ls_binding l = ls_binding m \<Longrightarrow> same_scope l m"
  by (auto simp: same_scope_def in_scope_def)

text \<open>A registered lease stays, changes only its state, and keeps that once it is not live\<close>

definition carries_leases :: "(string \<Rightarrow> string) \<Rightarrow> registry \<Rightarrow> registry \<Rightarrow> bool" where
  "carries_leases H reg reg' \<longleftrightarrow>
     (\<forall>l. registered_lease H reg l \<longrightarrow>
       (\<exists>m. registered_lease H reg' m \<and> lease_identity m = lease_identity l \<and> (\<not> is_live l \<longrightarrow> m = l)))"

lemma carries_refl: "carries_leases H reg reg"
  by (auto simp: carries_leases_def)

lemma carries_trans: "carries_leases H a b \<Longrightarrow> carries_leases H b c \<Longrightarrow> carries_leases H a c"
  unfolding carries_leases_def by metis

lemma create_step:
  assumes "registry_ok H reg" and "scopes_unique H reg" and "lease_normal H l"
    and "map_of reg (sb_session_id (ls_binding l)) = None" and "\<And>m. registered_lease H reg m \<Longrightarrow> \<not> same_scope m l"
  defines "reg' \<equiv> dput (sb_session_id (ls_binding l)) (Se_doc (Some (lease_json l))) reg"
  shows "registry_ok H reg' \<and> scopes_unique H reg' \<and> carries_leases H reg reg'"
proof -
  note put = registry_put [OF assms(1,3), folded reg'_def]
  have old: "sb_session_id (ls_binding m) \<noteq> sb_session_id (ls_binding l)" if "registered_lease H reg m" for m
    using that assms(4) by (auto simp: registered_lease_def)
  have "scopes_unique H reg'"
    unfolding scopes_unique_def put(2) using assms(2,5) same_scope_sym unfolding scopes_unique_def by blast
  moreover have "carries_leases H reg reg'" unfolding carries_leases_def put(2) using old by blast
  ultimately show ?thesis using put(1) by blast
qed

lemma replace_step:
  assumes "registry_ok H reg" and "scopes_unique H reg" and "lease_normal H l" and "registered_lease H reg m"
    and "is_live m" and "lease_identity l = lease_identity m"
  defines "reg' \<equiv> dput (sb_session_id (ls_binding l)) (Se_doc (Some (lease_json l))) reg"
  shows "registry_ok H reg' \<and> scopes_unique H reg' \<and> carries_leases H reg reg'"
proof -
  note put = registry_put [OF assms(1,3), folded reg'_def]
  note b = identity_binding [OF assms(6)]
  have same: "x = m" if "registered_lease H reg x" "sb_session_id (ls_binding x) = sb_session_id (ls_binding m)" for x
    using that assms(4) lease_json_inj [of H x m] by (auto simp: registered_lease_def)
  have apart: "\<not> same_scope x l" if "registered_lease H reg x" "sb_session_id (ls_binding x) \<noteq> sb_session_id (ls_binding l)" for x
  proof
    assume "same_scope x l"
    then have "same_scope x m" by (simp add: same_scope_def b)
    with that assms(2,4) have "x = m" by (auto simp: scopes_unique_def)
    with that(2) b show False by simp
  qed
  have "scopes_unique H reg'"
    unfolding scopes_unique_def put(2) using assms(2) apart same_scope_sym unfolding scopes_unique_def by blast
  moreover have "carries_leases H reg reg'"
    unfolding carries_leases_def put(2) using same assms(5,6) b by metis
  ultimately show ?thesis using put(1) by blast
qed

lemma registry_step_ok:
  assumes "registry_step H reg reg'" and "hex_digests H" and "registry_ok H reg" and "scopes_unique H reg"
  shows "registry_ok H reg' \<and> scopes_unique H reg' \<and> carries_leases H reg reg'"
  using assms(1)
proof cases
  case (started a thread provider receipt issued trust l)
  from assms(2,3) started show ?thesis
  proof (cases rule: start_effect)
    case created
    then show ?thesis using create_step [OF assms(3,4)] by simp
  qed (use assms carries_refl in simp)
next
  case (stopped thread at l)
  from assms(3) stopped show ?thesis
    by (rule stop_effect) (use replace_step [OF assms(3,4)] in simp)
qed

lemma registry_run_ok:
  assumes "(registry_step H)\<^sup>*\<^sup>* reg reg'" and "hex_digests H" and "registry_ok H reg" and "scopes_unique H reg"
  shows "registry_ok H reg' \<and> scopes_unique H reg' \<and> carries_leases H reg reg'"
  using assms(1)
proof induction
  case (step y z)
  with registry_step_ok [OF step.hyps(2) assms(2)] carries_trans show ?case by blast
qed (use assms carries_refl in simp)

lemma empty_registry: "registry_ok H []" "scopes_unique H []"
  by (simp_all add: registry_ok_def scopes_unique_def registered_lease_def)

subsection \<open>Choosing the activation\<close>

lemma latest_plan_ok:
  "latest_plan best ps \<in> insert best (set ps) \<and> (\<forall>p \<in> insert best (set ps). fst p \<le> fst (latest_plan best ps))"
proof (induction ps arbitrary: best)
  case (Cons p ps)
  have "latest_plan best (p # ps) = latest_plan (if fst best < fst p then p else best) ps" by simp
  with Cons [of "if fst best < fst p then p else best"] show ?case
    by (auto split: if_splits intro: order_trans less_imp_le)
qed simp

lemma candidate_plan_iff:
  "p \<in> set (candidate_plan current row) \<longleftrightarrow>
     ar_eligible row \<and> ar_plan row = Some p \<and> ac_mode (snd p) \<in> set ACTIVATION_MODES \<and>
     (current = ''governed'' \<longrightarrow> ac_mode (snd p) = ''governed'')"
  by (cases p; cases "ar_plan row") (auto simp: candidate_plan_def)

lemma eligible_activation_fails:
  "(\<exists>e. eligible_activation current rows = Inl e) \<longleftrightarrow> (\<forall>row \<in> set rows. candidate_plan current row = [])"
  by (simp add: eligible_activation_def Let_def)

text \<open>The chosen plan is eligible; no eligible plan fits the mode better, and among those that fit as well none is later\<close>

lemma eligible_activation_best:
  assumes "eligible_activation current rows = Inr a"
  obtains prepared row where "row \<in> set rows" "(prepared, a) \<in> set (candidate_plan current row)"
    "\<And>row' q. row' \<in> set rows \<Longrightarrow> q \<in> set (candidate_plan current row') \<Longrightarrow>
       plan_rank current (prepared, a) < plan_rank current q \<or>
       plan_rank current (prepared, a) = plan_rank current q \<and> fst q \<le> prepared"
proof -
  define plans where "plans = concat (map (candidate_plan current) rows)"
  define best where "best = min_list (map (plan_rank current) plans)"
  define ranked where "ranked = filter (\<lambda>p. plan_rank current p = best) plans"
  from assms have ne: "plans \<noteq> []" and a: "a = snd (latest_plan (hd ranked) (tl ranked))"
    by (auto simp: eligible_activation_def Let_def plans_def best_def ranked_def split: if_splits)
  have best: "best = Min (plan_rank current ` set plans)" using ne by (simp add: best_def min_list_Min)
  have "best \<in> plan_rank current ` set plans" unfolding best using ne by (intro Min_in) simp_all
  then have "ranked \<noteq> []" by (auto simp: ranked_def filter_empty_conv)
  then have split: "insert (hd ranked) (set (tl ranked)) = set ranked" by (cases ranked) simp_all
  define p where "p = latest_plan (hd ranked) (tl ranked)"
  from latest_plan_ok [of "hd ranked" "tl ranked"] have p: "p \<in> set ranked" "\<forall>q \<in> set ranked. fst q \<le> fst p"
    unfolding split p_def by blast+
  then have in_plans: "p \<in> set plans" "plan_rank current p = best" by (simp_all add: ranked_def)
  then obtain row where row: "row \<in> set rows" "p \<in> set (candidate_plan current row)" by (auto simp: plans_def)
  have le: "best \<le> plan_rank current q" if "q \<in> set plans" for q using that by (simp add: best)
  have p_eq: "p = (fst p, a)" by (simp add: a p_def)
  show thesis
  proof (rule that [OF row(1)])
    show "(fst p, a) \<in> set (candidate_plan current row)" using row(2) p_eq by simp
    fix row' q assume "row' \<in> set rows" "q \<in> set (candidate_plan current row')"
    then have q: "q \<in> set plans" by (auto simp: plans_def)
    then have "fst q \<le> fst p" if "plan_rank current q = best"
      using that by (intro p(2) [rule_format]) (simp add: ranked_def)
    with le [OF q] in_plans(2) show "plan_rank current (fst p, a) < plan_rank current q \<or>
      plan_rank current (fst p, a) = plan_rank current q \<and> fst q \<le> fst p"
      unfolding p_eq [symmetric] by linarith
  qed
qed

lemma started_from_approval:
  assumes "build_session_lease_from_approval H reg current rows thread provider receipt issued trust = Inr (l, reg')"
    and "\<And>row p. row \<in> set rows \<Longrightarrow> ar_plan row = Some p \<Longrightarrow>
      is_opaque (ac_workspace_identity (snd p)) \<and> is_opaque (ac_activation_id (snd p))"
  shows "registry_step H reg reg'"
proof -
  from assms(1) obtain a where a: "eligible_activation current rows = Inr a"
    and run: "start_session H reg a thread provider receipt issued trust = Inr (l, reg')"
    by (auto simp: build_session_lease_from_approval_def bindE_eq_Inr)
  from a obtain row prepared where "row \<in> set rows" "ar_plan row = Some (prepared, a)"
    by (rule eligible_activation_best) (auto simp: candidate_plan_iff)
  from assms(2) [OF this] run show ?thesis by (intro registry_step.started) simp_all
qed

end
