(* ===== verification/Continuation_Service.thy ===== *)
theory Continuation_Service
  imports Continuation_State Session_Store
begin

text \<open>
  The driver of a session continuation (\<^verbatim>\<open>continuation/service.py\<close>), the recheck of its boundaries
  (\<^verbatim>\<open>continuation/boundary_recheck.py\<close>), its status card (\<^verbatim>\<open>continuation/lifecycle.py\<close>) and the refreshes and
  commands around it (\<^verbatim>\<open>continuation/cli.py\<close>). The workflow behind the driver is the protocol
  \<^verbatim>\<open>ContinuationAdapter\<close> of the source: a record of calls that may raise and that change a world \<^typ>\<open>'w\<close> of which
  nothing is assumed.
\<close>

subsection \<open>Programs over a world\<close>

text \<open>A program may not return (\<^const>\<open>None\<close>), raise, or yield a value; the world it leaves is kept when it raises\<close>

type_synonym ('w, 'a) prog = "'w \<Rightarrow> ('a res \<times> 'w) option"

definition bindW :: "('w, 'a) prog \<Rightarrow> ('a \<Rightarrow> ('w, 'b) prog) \<Rightarrow> ('w, 'b) prog" where
  "bindW m f w =
     (case m w of
        None \<Rightarrow> None
      | Some (Inl e, w') \<Rightarrow> Some (Inl e, w')
      | Some (Inr x, w') \<Rightarrow> f x w')"

definition pureW :: "'a res \<Rightarrow> ('w, 'a) prog" where
  "pureW r w = Some (r, w)"

definition callW :: "('w \<Rightarrow> 'a res \<times> 'w) \<Rightarrow> ('w, 'a) prog" where
  "callW f w = Some (f w)"

abbreviation yieldW :: "'a \<Rightarrow> ('w, 'a) prog" where
  "yieldW x \<equiv> pureW (Inr x)"

record 'w adapter =
  ad_advance :: "string \<Rightarrow> bool \<Rightarrow> 'w \<Rightarrow> obj res \<times> 'w"
  ad_accept :: "action \<Rightarrow> obj \<Rightarrow> 'w \<Rightarrow> obj res \<times> 'w"
  ad_recover :: "action \<Rightarrow> 'w \<Rightarrow> obj res \<times> 'w"
  ad_successor :: "string \<Rightarrow> 'w \<Rightarrow> obj option res \<times> 'w"
  ad_classify :: "(cstate \<Rightarrow> obj \<Rightarrow> string \<Rightarrow> 'w \<Rightarrow> json res \<times> 'w) option"

text \<open>Python's \<^verbatim>\<open>==\<close> on decoded documents: objects as mappings, and truth values as the numbers 0 and 1\<close>

function (sequential) py_equal :: "json \<Rightarrow> json \<Rightarrow> bool" where
  "py_equal JNull JNull = True"
| "py_equal (JBool a) (JBool b) = (a = b)"
| "py_equal (JBool a) (JInt n) = (n = of_bool a)"
| "py_equal (JInt n) (JBool b) = (n = of_bool b)"
| "py_equal (JInt n) (JInt m) = (n = m)"
| "py_equal (JStr s) (JStr t) = (s = t)"
| "py_equal (JList xs) (JList ys) = (length xs = length ys \<and> list_all (\<lambda>(x, y). py_equal x y) (zip xs ys))"
| "py_equal (JObj d) (JObj e) =
     (length d = length e \<and> list_all (\<lambda>(k, v). case map_of e k of None \<Rightarrow> False | Some u \<Rightarrow> py_equal v u) d)"
| "py_equal _ _ = False"
  by pat_completeness auto

lemma size_zip: "(x, y) \<in> set (zip xs ys) \<Longrightarrow> size x < Suc (size_list size xs)"
  by (auto dest!: set_zip_leftD intro: le_imp_less_Suc size_list_estimation')

lemma size_entry: "(k, v) \<in> set d \<Longrightarrow> size v < Suc (size_list (size_prod (\<lambda>x. 0) size) d)"
  by (induction d) auto

termination py_equal
  by (relation "measure (\<lambda>(x, y). size x)") (auto simp: size_zip size_entry)

definition text_or :: "string option \<Rightarrow> string \<Rightarrow> string" where
  "text_or r d = (case r of None \<Rightarrow> d | Some s \<Rightarrow> if s = [] then d else s)"

definition str_or :: "json \<Rightarrow> string \<Rightarrow> string" where
  "str_or v d = (if truthy v then py_str v else d)"

text \<open>The changes of \<open>evolve\<close> that the driver makes at several places\<close>

definition clear_pending :: "cstate \<Rightarrow> cstate" where
  "clear_pending c = c\<lparr>cs_status := Cs_active, cs_pending := None, cs_stop_reason := None\<rparr>"

definition quarantine :: "string \<Rightarrow> cstate \<Rightarrow> cstate" where
  "quarantine reason c = c\<lparr>cs_status := Cs_quarantined, cs_pending := None, cs_stop_reason := Some reason\<rparr>"

definition await_action :: "action \<Rightarrow> string \<Rightarrow> cstate \<Rightarrow> cstate" where
  "await_action a reason c = c\<lparr>cs_status := Cs_waiting, cs_pending := Some a, cs_stop_reason := Some reason\<rparr>"

definition mark :: "continuation_status \<Rightarrow> string \<Rightarrow> cstate \<Rightarrow> cstate" where
  "mark status reason c = c\<lparr>cs_status := status, cs_stop_reason := Some reason\<rparr>"

definition record_result :: "cstate \<Rightarrow> string \<Rightarrow> string \<Rightarrow> usage \<Rightarrow> bool \<Rightarrow> cstate \<Rightarrow> cstate" where
  "record_result s action_id result_sha usage failed c =
     c\<lparr>cs_status := Cs_active, cs_pending := None, cs_accepted := dput action_id result_sha (cs_accepted s),
       cs_usage := usage, cs_closure_only := (cs_closure_only s \<or> failed), cs_stop_reason := None\<rparr>"

definition next_cycle_state :: "cstate \<Rightarrow> string \<Rightarrow> string \<Rightarrow> cstate \<Rightarrow> cstate" where
  "next_cycle_state s cycle task c =
     c\<lparr>cs_cycle_ids := cs_cycle_ids s @ [cycle], cs_active_cycle_id := cycle, cs_active_task_id := task,
       cs_status := Cs_active, cs_usage := (cs_usage s)\<lparr>us_cycles := us_cycles (cs_usage s) + 1\<rparr>, cs_stop_reason := None\<rparr>"

definition count_action :: "cstate \<Rightarrow> cstate \<Rightarrow> cstate" where
  "count_action s c = c\<lparr>cs_usage := (cs_usage s)\<lparr>us_agent_actions := us_agent_actions (cs_usage s) + 1\<rparr>\<rparr>"

subsection \<open>Boundaries\<close>

definition resolve_effect_class :: "'w adapter \<Rightarrow> string \<Rightarrow> cstate \<Rightarrow> obj \<Rightarrow> ('w, action_effect) prog" where
  "resolve_effect_class ad at s prep =
     (let resolved = effect_class prep False in
      if resolved \<noteq> Unclear_effect \<or> jat prep ''target'' \<noteq> JStr ''run'' then yieldW resolved
      else case ad_classify ad of
        None \<Rightarrow> yieldW resolved
      | Some classify \<Rightarrow>
          bindW (callW (classify s prep at)) (\<lambda>candidate.
          yieldW (if candidate = JStr ''local_long_run'' then Local_long_run else resolved)))"

definition obj_or_empty :: "json \<Rightarrow> obj" where
  "obj_or_empty v = (case v of JObj d \<Rightarrow> d | _ \<Rightarrow> [])"

definition projected :: "string list \<Rightarrow> obj \<Rightarrow> json" where
  "projected keys d = JObj (map (\<lambda>k. (k, jat d k)) (filter (\<lambda>k. k \<in> set (jkeys d)) keys))"

definition boundary_evidence_sha256 :: "(string \<Rightarrow> string) \<Rightarrow> obj \<Rightarrow> string" where
  "boundary_evidence_sha256 H result =
     object_sha256 H (JObj
       [(''status'', jat result ''status''), (''stop_reason'', jat result ''stop_reason''),
        (''blocked_target'', jat result ''blocked_target''), (''closure_only'', jat result ''closure_only''),
        (''preparation'', projected [''schema_version'', ''preparation_id'', ''target'', ''state_fingerprint'', ''next_action'']
           (obj_or_empty (jat result ''preparation''))),
        (''preparation_publication'', projected [''preparation_ref'', ''preparation_sha256'', ''preparation_body_sha256'']
           (obj_or_empty (jat result ''preparation_publication'')))])"

definition USER_REASONS :: "string list" where
  "USER_REASONS = [''awaiting_exact_approval'', ''awaiting_risk_acceptance'', ''awaiting_goal_truth'', ''awaiting_design_selection'']"

definition descriptor :: "obj \<Rightarrow> action_effect option \<Rightarrow> (continuation_actor \<times> action_kind \<times> string \<times> string) option" where
  "descriptor result resolved =
     (let reason = str_or (jat result ''stop_reason'') ''workflow_blocked'';
          otherwise = (if reason \<in> set USER_REASONS then Some (By_user, Request_approval, reason, ''session'')
                       else if reason = ''awaiting_external_input'' then Some (By_external, Wait_external, reason, ''session'')
                       else None) in
      case jat result ''preparation'' of
        JObj prep \<Rightarrow>
          if str_or_empty (jat result ''status'') = ''waiting'' \<and> resolved \<in> {Some Outside_effect, Some Unclear_effect}
          then Some (By_user, Request_approval, ''awaiting_effect_classification'', str_or (jat prep ''target'') ''session'')
          else otherwise
      | _ \<Rightarrow> otherwise)"

definition same_pending_boundary :: "(string \<Rightarrow> string) \<Rightarrow> action \<Rightarrow> obj \<Rightarrow> action_effect option \<Rightarrow> bool" where
  "same_pending_boundary H pending result resolved =
     (case descriptor result resolved of
        None \<Rightarrow> False
      | Some (actor, kind, reason, target) \<Rightarrow>
          ca_actor pending = actor \<and> ca_kind pending = kind \<and> ca_reason pending = Some reason \<and>
          ca_target pending = target \<and>
          ca_routing pending = [(''boundary_evidence_sha256'', JStr (boundary_evidence_sha256 H result))])"

text \<open>The result is the state, the advance that was made, the action that still stands and the effect class\<close>

definition recheck_pending_boundary ::
  "(string \<Rightarrow> string) \<Rightarrow> 'w adapter \<Rightarrow> string \<Rightarrow> cstate \<Rightarrow>
   ('w, cstate \<times> obj option \<times> action option \<times> action_effect option) prog" where
  "recheck_pending_boundary H ad at s =
     (case cs_pending s of
        None \<Rightarrow> yieldW (s, None, None, None)
      | Some pending \<Rightarrow>
          if \<not> cs_host_live s then yieldW (s, None, None, None)
          else if ca_actor pending \<notin> {By_user, By_external} then yieldW (s, None, Some pending, None)
          else
          bindW (callW (ad_advance ad (cs_active_cycle_id s) (cs_closure_only s))) (\<lambda>advanced.
          bindW (case jat advanced ''preparation'' of
                   JObj prep \<Rightarrow> bindW (resolve_effect_class ad at s prep) (\<lambda>e. yieldW (Some e))
                 | _ \<Rightarrow> yieldW None) (\<lambda>resolved.
          if same_pending_boundary H pending advanced resolved then yieldW (s, None, Some pending, resolved)
          else
          bindW (pureW (evolve H at clear_pending s)) (\<lambda>t.
          yieldW (t, Some advanced, None, resolved)))))"

subsection \<open>Accept and recover\<close>

definition accept_action ::
  "(string \<Rightarrow> string) \<Rightarrow> 'w adapter \<Rightarrow> string \<Rightarrow> cstate \<Rightarrow> json \<Rightarrow> obj \<Rightarrow> ('w, cstate \<times> obj) prog" where
  "accept_action H ad at value act result =
     bindW (pureW (validate_state H (cstate_json value))) (\<lambda>s.
     bindW (pureW (validate_action H act)) (\<lambda>a.
     let result_sha = object_sha256 H (JObj result) in
     case map_of (cs_accepted s) (ca_action_id a) of
       Some prior \<Rightarrow>
         if prior \<noteq> result_sha then pureW (refuse Conflict)
         else yieldW (s, [(''status'', JStr ''reused''), (''result_sha256'', JStr result_sha)])
     | None \<Rightarrow>
         if \<not> (case cs_pending s of None \<Rightarrow> False | Some p \<Rightarrow> py_equal (action_json p) (action_json a)) then pureW (refuse Missing)
         else if at_state_version (ca_token a) \<noteq> cs_version s - 1 then pureW (refuse Stale)
         else if at_state_sha256 (ca_token a) = cs_sha256 s then pureW (refuse Circular)
         else
         bindW (callW (ad_accept ad a result)) (\<lambda>outcome.
         if \<not> hashable (jat outcome ''status'') then pureW (Inl TypeError)
         else if jat outcome ''status'' \<notin> {JStr ''accepted'', JStr ''reused''} then
           if jat outcome ''effect_status'' = JStr ''unknown'' then
             bindW (pureW (evolve H at (quarantine ''unknown_effect'') s)) (\<lambda>t. yieldW (t, outcome))
           else pureW (refuse NotSettled)
         else
         bindW (pureW (usage_after_result s a result outcome)) (\<lambda>usage.
         bindW (pureW (evolve H at (record_result s (ca_action_id a) result_sha usage
             (jat outcome ''run_terminal_status'' = JStr ''failed_closed'')) s)) (\<lambda>t. yieldW (t, outcome))))))"

text \<open>A found result is accepted, for a reissued action when the token of the pending one is no longer current\<close>

definition accept_recovered ::
  "(string \<Rightarrow> string) \<Rightarrow> 'w adapter \<Rightarrow> string \<Rightarrow> cstate \<Rightarrow> action \<Rightarrow> obj \<Rightarrow> ('w, cstate \<times> obj) prog" where
  "accept_recovered H ad at s a result =
     (if at_state_version (ca_token a) \<noteq> cs_version s - 1 then
        bindW (pureW (evolve H at clear_pending s)) (\<lambda>cleared.
        bindW (pureW (reissue_action H (site_of cleared) a)) (\<lambda>b.
        bindW (pureW (evolve H at (await_action b (text_or (ca_reason b) ''owner_boundary'')) cleared)) (\<lambda>t.
        accept_action H ad at t (action_json b) result)))
      else accept_action H ad at s (action_json a) result)"

definition recover_unaccepted :: "(string \<Rightarrow> string) \<Rightarrow> string \<Rightarrow> cstate \<Rightarrow> obj \<Rightarrow> (cstate \<times> obj) res" where
  "recover_unaccepted H at s recovery =
     (if \<not> hashable (jat recovery ''status'') then Inl TypeError
      else if jat recovery ''status'' \<in> {JStr ''not_dispatched'', JStr ''pending'', JStr ''settled''} then Inr (s, recovery)
      else
        bindE (evolve H at (quarantine ''unknown_effect'') s) (\<lambda>t.
        Inr (t, [(''status'', JStr ''quarantined''), (''reason'', JStr ''unknown_effect'')])))"

definition found_result :: "obj \<Rightarrow> obj option" where
  "found_result recovery =
     (if jat recovery ''status'' = JStr ''result_found''
      then (case jat recovery ''result'' of JObj result \<Rightarrow> Some result | _ \<Rightarrow> None) else None)"

definition recover_session ::
  "(string \<Rightarrow> string) \<Rightarrow> 'w adapter \<Rightarrow> string \<Rightarrow> cstate \<Rightarrow> ('w, cstate \<times> obj) prog" where
  "recover_session H ad at value =
     bindW (pureW (validate_state H (cstate_json value))) (\<lambda>s.
     case cs_pending s of
       None \<Rightarrow> yieldW (s, [(''status'', JStr ''nothing_to_recover'')])
     | Some a \<Rightarrow>
         bindW (callW (ad_recover ad a)) (\<lambda>recovery.
         case found_result recovery of
           Some result \<Rightarrow> accept_recovered H ad at s a result
         | None \<Rightarrow> pureW (recover_unaccepted H at s recovery)))"

subsection \<open>The driver\<close>

definition SUCCESSOR_FIELDS :: "string list" where
  "SUCCESSOR_FIELDS = [''outcome'', ''cycle_id'', ''task_id'', ''goal_id'', ''task_family'', ''risk_envelope_match'']"

definition choose_successor :: "cstate \<Rightarrow> obj \<Rightarrow> (string \<times> string) option res" where
  "choose_successor s d =
     (if d = [] \<or> jat d ''outcome'' \<noteq> JStr ''selected'' then Inr None
      else if \<not> same_keys d SUCCESSOR_FIELDS then refuse NotClosed
      else if jat d ''goal_id'' \<noteq> JStr (cs_goal_id s) \<or> jat d ''task_family'' \<noteq> JStr (cs_task_family s)
              \<or> jat d ''risk_envelope_match'' \<noteq> JBool True then Inr None
      else if us_cycles (cs_usage s) \<ge> bg_max_cycles (cs_budgets s) then Inr None
      else if py_str (jat d ''cycle_id'') \<in> set (cs_cycle_ids s) then Inr None
      else Inr (Some (py_str (jat d ''cycle_id''), py_str (jat d ''task_id''))))"

definition selected_successor ::
  "(string \<Rightarrow> string) \<Rightarrow> 'w adapter \<Rightarrow> string \<Rightarrow> cstate \<Rightarrow> ('w, cstate option) prog" where
  "selected_successor H ad at s =
     bindW (callW (ad_successor ad (cs_active_cycle_id s))) (\<lambda>found.
     case found of
       None \<Rightarrow> yieldW None
     | Some d \<Rightarrow>
         bindW (pureW (choose_successor s d)) (\<lambda>chosen.
         case chosen of
           None \<Rightarrow> yieldW None
         | Some (cycle, task) \<Rightarrow>
             pureW (bindE (evolve H at (next_cycle_state s cycle task) s) (\<lambda>t. Inr (Some t)))))"

definition host_boundary :: "(string \<Rightarrow> string) \<Rightarrow> string \<Rightarrow> cstate \<Rightarrow> (cstate \<times> action) res" where
  "host_boundary H at s =
     (if cs_status s = Cs_host_boundary then
        bindE (boundary_action H (site_of s) By_host Request_host_approval ''host_session_not_live'' ''session'' None) (\<lambda>a.
        Inr (s, a))
      else
        bindE (evolve H at (\<lambda>c. (mark Cs_host_boundary ''host_session_not_live'' c)\<lparr>cs_pending := cs_pending s\<rparr>) s) (\<lambda>t.
        bindE (boundary_action H (site_of t) By_host Request_host_approval ''host_session_not_live'' ''session'' None) (\<lambda>a.
        Inr (t, a))))"

text \<open>An action that was not dispatched is offered again, bound to the state without it\<close>

definition reoffer :: "(string \<Rightarrow> string) \<Rightarrow> string \<Rightarrow> cstate \<Rightarrow> (cstate \<times> action) res" where
  "reoffer H at recovered =
     (case cs_pending recovered of
        None \<Rightarrow> refuse Missing
      | Some original \<Rightarrow>
          bindE (evolve H at clear_pending recovered) (\<lambda>cleared.
          bindE (reissue_action H (site_of cleared) original) (\<lambda>a.
          bindE (evolve H at (await_action a (text_or (ca_reason a) ''owner_boundary'')) cleared) (\<lambda>waiting.
          Inr (waiting, a)))))"

text \<open>What follows the recovery of a host session; \<open>again\<close> is the recursive call of \<^verbatim>\<open>continue_session\<close>\<close>

definition after_recovery ::
  "(string \<Rightarrow> string) \<Rightarrow> string \<Rightarrow> (cstate \<Rightarrow> ('w, cstate \<times> action) prog) \<Rightarrow> action \<Rightarrow> cstate \<times> obj \<Rightarrow>
   ('w, cstate \<times> action) prog" where
  "after_recovery H at again pending = (\<lambda>(recovered, outcome).
     let disposition = str_or_empty (jat outcome ''status'') in
     if disposition = ''not_dispatched'' then pureW (reoffer H at recovered)
     else if cs_status recovered = Cs_quarantined then
       pureW (bindE (complete_action H (site_of recovered) (text_or (cs_stop_reason recovered) ''unknown_effect'')) (\<lambda>a.
         Inr (recovered, a)))
     else if disposition = ''pending'' then
       pureW (bindE (evolve H at (mark Cs_host_boundary ''awaiting_effect_settlement'') recovered) (\<lambda>waiting.
         bindE (boundary_action H (site_of waiting) By_external Wait_external ''awaiting_effect_settlement''
           (text_or (Some (ca_target pending)) ''session'') None) (\<lambda>a.
         Inr (waiting, a))))
     else if disposition = ''settled'' then
       pureW (bindE (evolve H at (quarantine ''effect_result_missing_after_host_loss'') recovered) (\<lambda>quarantined.
         bindE (complete_action H (site_of quarantined) ''effect_result_missing_after_host_loss'') (\<lambda>a.
         Inr (quarantined, a))))
     else again recovered)"

definition resume_after_host_boundary ::
  "(string \<Rightarrow> string) \<Rightarrow> 'w adapter \<Rightarrow> string \<Rightarrow> (cstate \<Rightarrow> ('w, cstate \<times> action) prog) \<Rightarrow> cstate \<Rightarrow>
   ('w, (cstate \<times> action) option) prog" where
  "resume_after_host_boundary H ad at again s =
     (case cs_pending s of
        None \<Rightarrow> yieldW None
      | Some pending \<Rightarrow>
          if ca_actor pending \<noteq> By_agent then yieldW None
          else
          bindW (pureW (evolve H at (mark Cs_waiting (text_or (ca_reason pending) ''owner_boundary'')) s)) (\<lambda>resumed.
          bindW (recover_session H ad at resumed) (\<lambda>found.
          bindW (after_recovery H at again pending found) (\<lambda>r. yieldW (Some r)))))"

definition queue_agent_action ::
  "(string \<Rightarrow> string) \<Rightarrow> string \<Rightarrow> cstate \<Rightarrow> action \<Rightarrow> string \<Rightarrow> (cstate \<times> action) res" where
  "queue_agent_action H at s a reason =
     (let usage = cs_usage s in
      if us_agent_actions usage \<ge> bg_max_agent_actions (cs_budgets s) then
        bindE (evolve H at (mark Cs_stopped ''agent_action_budget_exhausted'') s) (\<lambda>t.
        bindE (complete_action H (site_of t) ''agent_action_budget_exhausted'') (\<lambda>b. Inr (t, b)))
      else
        bindE (evolve H at (\<lambda>c. await_action a reason (count_action s c)) s) (\<lambda>t.
        Inr (t, a)))"

text \<open>A boundary action becomes the pending action of a waiting session\<close>

definition wait_at_boundary ::
  "(string \<Rightarrow> string) \<Rightarrow> string \<Rightarrow> cstate \<Rightarrow> continuation_actor \<Rightarrow> action_kind \<Rightarrow> string \<Rightarrow> string \<Rightarrow> obj \<Rightarrow> (cstate \<times> action) res" where
  "wait_at_boundary H at s actor kind reason target result =
     bindE (boundary_action H (site_of s) actor kind reason target (Some (boundary_evidence_sha256 H result))) (\<lambda>a.
     bindE (evolve H at (await_action a reason) s) (\<lambda>t.
     Inr (t, a)))"

text \<open>The dispatch on the result of an advance (lines 282--360), after the completed cycle was handled\<close>

definition block_session :: "(string \<Rightarrow> string) \<Rightarrow> string \<Rightarrow> cstate \<Rightarrow> obj \<Rightarrow> (cstate \<times> action) res" where
  "block_session H at s result =
     (let reason = str_or (jat result ''stop_reason'') ''workflow_blocked'' in
      if reason = ''awaiting_running_execution'' then
        bindE (monitor_action H (site_of s) reason) (\<lambda>a. queue_agent_action H at s a reason)
      else if reason \<in> set USER_REASONS then wait_at_boundary H at s By_user Request_approval reason ''session'' result
      else if reason = ''awaiting_external_input'' then
        wait_at_boundary H at s By_external Wait_external reason ''session'' result
      else
        bindE (evolve H at (mark Cs_quarantined reason) s) (\<lambda>t.
        bindE (complete_action H (site_of t) reason) (\<lambda>a. Inr (t, a))))"

definition offer_preparation ::
  "(string \<Rightarrow> string) \<Rightarrow> string \<Rightarrow> cstate \<Rightarrow> obj \<Rightarrow> obj \<Rightarrow> action_effect \<Rightarrow> (cstate \<times> action) res" where
  "offer_preparation H at s result prep resolved =
     (if resolved \<in> {Outside_effect, Unclear_effect} then
        wait_at_boundary H at s By_user Request_approval ''awaiting_effect_classification''
          (str_or (jat prep ''target'') ''session'') result
      else
        bindE (owner_action H (site_of s) result resolved) (\<lambda>a.
        queue_agent_action H at s a (str_or (jat result ''stop_reason'') ''owner_boundary'')))"

definition dispatch_advance ::
  "(string \<Rightarrow> string) \<Rightarrow> 'w adapter \<Rightarrow> string \<Rightarrow> cstate \<Rightarrow> obj \<Rightarrow> action_effect option \<Rightarrow> ('w, cstate \<times> action) prog" where
  "dispatch_advance H ad at s result known =
     (case jat result ''preparation'' of
        JObj prep \<Rightarrow>
          if str_or_empty (jat result ''status'') \<noteq> ''waiting'' then pureW (block_session H at s result)
          else
          bindW (case known of Some e \<Rightarrow> yieldW e | None \<Rightarrow> resolve_effect_class ad at s prep) (\<lambda>resolved.
          pureW (offer_preparation H at s result prep resolved))
      | _ \<Rightarrow> pureW (block_session H at s result))"

text \<open>A completed cycle: the session goes on with the selected successor, or ends\<close>

definition complete_cycle ::
  "(string \<Rightarrow> string) \<Rightarrow> 'w adapter \<Rightarrow> string \<Rightarrow> (cstate \<Rightarrow> ('w, cstate \<times> action) prog) \<Rightarrow> cstate \<Rightarrow> ('w, cstate \<times> action) prog" where
  "complete_cycle H ad at again s =
     bindW (pureW (evolve H at (mark Cs_complete ''cycle_complete'') s)) (\<lambda>completed.
     bindW (selected_successor H ad at completed) (\<lambda>successor.
     case successor of
       Some t \<Rightarrow> again t
     | None \<Rightarrow> pureW (bindE (complete_action H (site_of completed) ''cycle_complete'') (\<lambda>a. Inr (completed, a)))))"

text \<open>
  The advance of a live session (lines 265--281); an advance made by the recheck is used again unless it is
  empty, which Python takes for absent
\<close>

definition advance_session ::
  "(string \<Rightarrow> string) \<Rightarrow> 'w adapter \<Rightarrow> string \<Rightarrow> (cstate \<Rightarrow> ('w, cstate \<times> action) prog) \<Rightarrow> cstate \<Rightarrow> obj option \<Rightarrow>
   action_effect option \<Rightarrow> ('w, cstate \<times> action) prog" where
  "advance_session H ad at again s advanced known =
     (if \<not> cs_host_live s then pureW (host_boundary H at s)
      else
        let reused = (case advanced of None \<Rightarrow> False | Some d \<Rightarrow> d \<noteq> []) in
        bindW (if reused then yieldW (the advanced)
               else callW (ad_advance ad (cs_active_cycle_id s) (cs_closure_only s))) (\<lambda>result.
        if str_or_empty (jat result ''status'') = ''complete'' then
          complete_cycle H ad at again s
        else dispatch_advance H ad at s result (if reused then known else None)))"

text \<open>The session off its host boundary (lines 255--281): its pending boundary is rechecked, then it advances\<close>

definition drive_from ::
  "(string \<Rightarrow> string) \<Rightarrow> 'w adapter \<Rightarrow> string \<Rightarrow> (cstate \<Rightarrow> ('w, cstate \<times> action) prog) \<Rightarrow> cstate \<Rightarrow> ('w, cstate \<times> action) prog" where
  "drive_from H ad at again s1 =
     bindW (recheck_pending_boundary H ad at s1) (\<lambda>(s, advanced, preserved, known).
     case preserved of
       Some p \<Rightarrow> yieldW (s, p)
     | None \<Rightarrow>
         if cs_status s = Cs_complete then
           bindW (selected_successor H ad at s) (\<lambda>successor.
           case successor of
             None \<Rightarrow> pureW (bindE (complete_action H (site_of s) ''session_complete'') (\<lambda>a. Inr (s, a)))
           | Some t \<Rightarrow> advance_session H ad at again t advanced known)
         else advance_session H ad at again s advanced known)"

definition continue_step ::
  "(string \<Rightarrow> string) \<Rightarrow> 'w adapter \<Rightarrow> string \<Rightarrow> (cstate \<Rightarrow> ('w, cstate \<times> action) prog) \<Rightarrow> cstate \<Rightarrow> ('w, cstate \<times> action) prog" where
  "continue_step H ad at again s =
     (if cs_status s \<in> {Cs_stopped, Cs_quarantined} then
        pureW (bindE (complete_action H (site_of s)
          (text_or (cs_stop_reason s) (enum_name CONTINUATION_STATUSES (cs_status s)))) (\<lambda>a. Inr (s, a)))
      else if cs_status s \<noteq> Cs_host_boundary then drive_from H ad at again s
      else if \<not> cs_host_live s then pureW (host_boundary H at s)
      else
        bindW (resume_after_host_boundary H ad at again s) (\<lambda>resumed.
        case resumed of
          Some r \<Rightarrow> yieldW r
        | None \<Rightarrow> bindW (pureW (evolve H at clear_pending s)) (drive_from H ad at again)))"

primrec continue_session ::
  "nat \<Rightarrow> (string \<Rightarrow> string) \<Rightarrow> 'w adapter \<Rightarrow> string \<Rightarrow> cstate \<Rightarrow> ('w, cstate \<times> action) prog" where
  "continue_session 0 H ad at value = (\<lambda>w. None)"
| "continue_session (Suc fuel) H ad at value =
     bindW (pureW (validate_state H (cstate_json value))) (continue_step H ad at (continue_session fuel H ad at))"

subsection \<open>Rules for programs\<close>

text \<open>What holds of every value a program yields, and that a program returns\<close>

definition ensures :: "('w, 'a) prog \<Rightarrow> ('a \<Rightarrow> bool) \<Rightarrow> bool" where
  "ensures m Q \<longleftrightarrow> (\<forall>w x w'. m w = Some (Inr x, w') \<longrightarrow> Q x)"

definition returns :: "('w, 'a) prog \<Rightarrow> bool" where
  "returns m \<longleftrightarrow> (\<forall>w. m w \<noteq> None)"

lemma ensuresD: "ensures m Q \<Longrightarrow> m w = Some (Inr x, w') \<Longrightarrow> Q x"
  by (auto simp: ensures_def)

lemma bindW_yields [result_simps]:
  "bindW m f w = Some (Inr y, w') \<longleftrightarrow> (\<exists>x v. m w = Some (Inr x, v) \<and> f x v = Some (Inr y, w'))"
  by (auto simp: bindW_def split: option.splits sum.splits prod.splits)

lemma pureW_yields [result_simps]: "pureW r w = Some (Inr y, w') \<longleftrightarrow> r = Inr y \<and> w' = w"
  by (auto simp: pureW_def)

lemma ensures_weaken: "ensures m P \<Longrightarrow> (\<And>x. P x \<Longrightarrow> Q x) \<Longrightarrow> ensures m Q"
  by (simp add: ensures_def)

lemma ensures_bind: "ensures m P \<Longrightarrow> (\<And>x. P x \<Longrightarrow> ensures (f x) Q) \<Longrightarrow> ensures (bindW m f) Q"
  by (fastforce simp: ensures_def bindW_def split: option.splits sum.splits prod.splits)

lemma ensures_pure [intro]: "(\<And>x. r = Inr x \<Longrightarrow> Q x) \<Longrightarrow> ensures (pureW r) Q"
  by (simp add: ensures_def pureW_def)

lemma ensures_bind_pure: "(\<And>x. r = Inr x \<Longrightarrow> ensures (f x) Q) \<Longrightarrow> ensures (bindW (pureW r) f) Q"
  by (rule ensures_bind [where P = "\<lambda>x. r = Inr x"]) auto

lemma ensures_bind_run: "(\<And>x w w'. m w = Some (Inr x, w') \<Longrightarrow> ensures (f x) Q) \<Longrightarrow> ensures (bindW m f) Q"
  unfolding ensures_def bindW_yields by blast

lemma ensures_any: "ensures m (\<lambda>_. True)"
  by (simp add: ensures_def)

lemma ensures_bind_any: "(\<And>x. ensures (f x) Q) \<Longrightarrow> ensures (bindW m f) Q"
  by (rule ensures_bind [OF ensures_any])

lemma ensures_if: "(b \<Longrightarrow> ensures m Q) \<Longrightarrow> (\<not> b \<Longrightarrow> ensures n Q) \<Longrightarrow> ensures (if b then m else n) Q"
  by simp

lemma ensures_none [simp]: "ensures (\<lambda>w. None) Q"
  by (simp add: ensures_def)

lemma ensures_raise [simp]: "ensures (pureW (Inl e)) Q"
  by (simp add: ensures_def pureW_def)

lemma ensures_yield [simp]: "ensures (yieldW x) Q = Q x"
  by (simp add: ensures_def pureW_def)

lemma returns_pure [simp]: "returns (pureW r)" and returns_call [simp]: "returns (callW f)"
  by (simp_all add: returns_def pureW_def callW_def)

lemma returns_bind: "returns m \<Longrightarrow> ensures m P \<Longrightarrow> (\<And>x. P x \<Longrightarrow> returns (f x)) \<Longrightarrow> returns (bindW m f)"
  by (fastforce simp: returns_def ensures_def bindW_def split: option.splits sum.splits prod.splits)

lemma returns_bind_any: "returns m \<Longrightarrow> (\<And>x. returns (f x)) \<Longrightarrow> returns (bindW m f)"
  by (rule returns_bind [OF _ ensures_any])

end
