(* ===== verification/Continuation_Command.thy ===== *)
theory Continuation_Command
  imports Continuation_Service
begin

text \<open>
  The session commands of the task-cycle skill (\<^verbatim>\<open>continuation/cli.py\<close>) on the file that holds the state of one
  session (\<^verbatim>\<open>write_state\<close> and \<^verbatim>\<open>load_state\<close> of \<^verbatim>\<open>continuation/state.py\<close>), with its status card
  (\<^verbatim>\<open>continuation/lifecycle.py\<close>). The verdict of \<^verbatim>\<open>verify_live_state_lease\<close> and the count of the child grants of the
  session are arguments of the commands; symbolic links, locks and temporary files are left out.
\<close>

subsection \<open>Status card\<close>

definition next_step :: "cstate \<Rightarrow> string option \<times> string option \<times> string option" where
  "next_step s =
     (let target = map_option ca_target (cs_pending s) in
      if cs_status s \<in> {Cs_stopped, Cs_complete, Cs_quarantined} then (None, None, None)
      else if cs_status s = Cs_host_boundary \<and> cs_stop_reason s = Some ''awaiting_effect_settlement''
      then (Some ''external'', Some ''wait_external'', target)
      else if cs_status s = Cs_host_boundary then (Some ''host'', Some ''request_host_approval'', Some ''session'')
      else (map_option (\<lambda>a. enum_name ACTORS (ca_actor a)) (cs_pending s),
            map_option (\<lambda>a. enum_name KINDS (ca_kind a)) (cs_pending s), target))"

record card =
  cd_session :: string
  cd_status :: continuation_status
  cd_goal :: string
  cd_task_family :: string
  cd_cycle :: string
  cd_task :: string
  cd_next :: "string option \<times> string option \<times> string option"
  cd_reason :: "string option"
  cd_cycles_left :: int
  cd_agent_actions_left :: int
  cd_long_run_slots :: int

definition status_card :: "(string \<Rightarrow> string) \<Rightarrow> json \<Rightarrow> card res" where
  "status_card H value =
     bindE (validate_state H value) (\<lambda>s.
     Inr \<lparr>cd_session = cs_session_id s, cd_status = cs_status s, cd_goal = cs_goal_id s, cd_task_family = cs_task_family s,
          cd_cycle = cs_active_cycle_id s, cd_task = cs_active_task_id s, cd_next = next_step s, cd_reason = cs_stop_reason s,
          cd_cycles_left = max 0 (bg_max_cycles (cs_budgets s) - us_cycles (cs_usage s)),
          cd_agent_actions_left = max 0 (bg_max_agent_actions (cs_budgets s) - us_agent_actions (cs_usage s)),
          cd_long_run_slots =
            max 0 (bg_max_concurrent_long_runs (cs_budgets s) - int (length (us_active_long_runs (cs_usage s))))\<rparr>)"

subsection \<open>The state file\<close>

type_synonym state_file = "json option"

definition load_state :: "(string \<Rightarrow> string) \<Rightarrow> state_file \<Rightarrow> cstate res" where
  "load_state H file = (case file of None \<Rightarrow> refuse Missing | Some v \<Rightarrow> validate_state H v)"

definition write_state :: "(string \<Rightarrow> string) \<Rightarrow> state_file \<Rightarrow> cstate \<Rightarrow> string option \<Rightarrow> state_file res" where
  "write_state H file value expected =
     bindE (validate_state H (cstate_json value)) (\<lambda>s.
     case file of
       Some v \<Rightarrow>
         (case validate_state H v of
            Inl (ValueError _) \<Rightarrow> refuse Forged
          | Inl e \<Rightarrow> Inl e
          | Inr current \<Rightarrow>
              if py_equal (cstate_json current) (cstate_json s) then Inr file
              else (case expected of
                None \<Rightarrow> refuse Conflict
              | Some sha \<Rightarrow> if cs_sha256 current \<noteq> sha then refuse CasConflict else Inr (Some (cstate_json s))))
     | None \<Rightarrow> if expected \<noteq> None then refuse Missing else Inr (Some (cstate_json s)))"

subsection \<open>Refreshes\<close>

definition pending_actor :: "cstate \<Rightarrow> continuation_actor option" where
  "pending_actor s = map_option ca_actor (cs_pending s)"

definition refresh_liveness :: "(string \<Rightarrow> string) \<Rightarrow> string \<Rightarrow> bool \<Rightarrow> cstate \<Rightarrow> cstate res" where
  "refresh_liveness H at live s =
     (let boundary_actor = (pending_actor s \<in> {Some By_user, Some By_external}) in
      if live \<and> cs_status s = Cs_host_boundary \<and> pending_actor s = Some By_agent then
        (if cs_host_live s then Inr s else evolve H at (\<lambda>c. c\<lparr>cs_host_live := True\<rparr>) s)
      else if live \<and> (cs_status s = Cs_host_boundary \<or> \<not> cs_host_live s) then
        evolve H at (\<lambda>c. c\<lparr>cs_status := (if boundary_actor then Cs_waiting else Cs_active), cs_host_live := True,
          cs_pending := cs_pending s,
          cs_stop_reason := (if boundary_actor then Option.bind (cs_pending s) ca_reason else None)\<rparr>) s
      else if \<not> live \<and> (cs_host_live s \<or> cs_stop_reason s \<noteq> Some ''host_session_not_live'') then
        evolve H at (\<lambda>c. c\<lparr>cs_host_live := False, cs_stop_reason := Some ''host_session_not_live''\<rparr>) s
      else Inr s)"

definition refresh_authority_usage :: "(string \<Rightarrow> string) \<Rightarrow> string \<Rightarrow> int \<Rightarrow> cstate \<Rightarrow> cstate res" where
  "refresh_authority_usage H at direct_actions s =
     (if cs_pending s \<noteq> None \<or> direct_actions \<le> us_agent_actions (cs_usage s) then Inr s
      else evolve H at (\<lambda>c. c\<lparr>cs_usage := (cs_usage s)\<lparr>us_agent_actions := direct_actions\<rparr>\<rparr>) s)"

subsection \<open>Commands\<close>

definition start_command ::
  "(string \<Rightarrow> string) \<Rightarrow> json \<Rightarrow> binding \<Rightarrow> string option \<Rightarrow> string \<times> string \<Rightarrow> string \<Rightarrow> state_file \<Rightarrow> state_file res" where
  "start_command H lease lease_binding requested current_cycle at file =
     (if file \<noteq> None then
        bindE (load_state H file) (\<lambda>existing.
        if cs_lease_binding existing \<noteq> lease_binding then refuse Conflict
        else if text_or requested [] \<noteq> [] \<and> text_or requested [] \<notin> set (cs_cycle_ids existing) then refuse Conflict
        else Inr file)
      else
        bindE (start_continuation H lease (binding_json lease_binding) (fst current_cycle) (snd current_cycle) at) (\<lambda>s.
        write_state H file s None))"

definition continue_command ::
  "nat \<Rightarrow> (string \<Rightarrow> string) \<Rightarrow> 'w adapter \<Rightarrow> string \<Rightarrow> bool res \<Rightarrow> int \<Rightarrow> state_file \<Rightarrow> ('w, state_file \<times> action) prog" where
  "continue_command fuel H ad at live direct_actions file =
     bindW (pureW (load_state H file)) (\<lambda>original.
     bindW (pureW live) (\<lambda>lease_live.
     bindW (pureW (refresh_liveness H at lease_live original)) (\<lambda>s1.
     bindW (pureW (refresh_authority_usage H at direct_actions s1)) (\<lambda>s2.
     bindW (continue_session fuel H ad at s2) (\<lambda>(t, a).
     bindW (pureW (write_state H file t (Some (cs_sha256 original)))) (\<lambda>file'.
     yieldW (file', a)))))))"

definition accept_pending ::
  "nat \<Rightarrow> (string \<Rightarrow> string) \<Rightarrow> 'w adapter \<Rightarrow> string \<Rightarrow> int \<Rightarrow> action \<Rightarrow> obj \<Rightarrow> cstate \<Rightarrow> ('w, cstate \<times> action) prog" where
  "accept_pending fuel H ad at direct_actions pending result original =
     bindW (pureW (validate_action H (action_json pending))) (\<lambda>_.
     bindW (accept_action H ad at original (action_json pending) result) (\<lambda>(s1, _).
     bindW (pureW (refresh_authority_usage H at direct_actions s1)) (\<lambda>s2.
     continue_session fuel H ad at s2)))"

definition accept_command ::
  "nat \<Rightarrow> (string \<Rightarrow> string) \<Rightarrow> 'w adapter \<Rightarrow> string \<Rightarrow> bool res \<Rightarrow> int \<Rightarrow> string \<Rightarrow> obj \<Rightarrow> state_file \<Rightarrow>
   ('w, state_file \<times> action option) prog" where
  "accept_command fuel H ad at live direct_actions action_id result file =
     bindW (pureW (load_state H file)) (\<lambda>original.
     case map_of (cs_accepted original) action_id of
       Some prior \<Rightarrow>
         if prior \<noteq> object_sha256 H (JObj result) then pureW (refuse Conflict)
         else yieldW (file, cs_pending original)
     | None \<Rightarrow>
         bindW (pureW live) (\<lambda>lease_live.
         if \<not> lease_live then pureW (refuse NotActive)
         else case cs_pending original of
           None \<Rightarrow> pureW (refuse Missing)
         | Some pending \<Rightarrow>
             if ca_action_id pending \<noteq> action_id then pureW (refuse Missing)
             else
             bindW (accept_pending fuel H ad at direct_actions pending result original) (\<lambda>(t, a).
             pureW (bindE (write_state H file t (Some (cs_sha256 original))) (\<lambda>file'. Inr (file', Some a))))))"

definition stop_command :: "(string \<Rightarrow> string) \<Rightarrow> string \<Rightarrow> state_file \<Rightarrow> state_file res" where
  "stop_command H at file =
     bindE (load_state H file) (\<lambda>original.
     bindE (stop_continuation H at ''user_stop'' original) (\<lambda>s.
     write_state H file s (Some (cs_sha256 original))))"

definition recover_command ::
  "(string \<Rightarrow> string) \<Rightarrow> 'w adapter \<Rightarrow> string \<Rightarrow> bool res \<Rightarrow> state_file \<Rightarrow> ('w, state_file \<times> obj) prog" where
  "recover_command H ad at live file =
     bindW (pureW (load_state H file)) (\<lambda>original.
     if cs_status original = Cs_stopped then pureW (refuse NotActive)
     else
     bindW (pureW live) (\<lambda>lease_live.
     if \<not> lease_live then pureW (refuse NotActive)
     else
     bindW (recover_session H ad at original) (\<lambda>(t, outcome).
     bindW (pureW (write_state H file t (Some (cs_sha256 original)))) (\<lambda>file'.
     yieldW (file', outcome)))))"

end
