(* ===== verification/Continuation_Safety.thy ===== *)
theory Continuation_Safety
  imports Continuation_Service
begin

text \<open>
  What every call of the continuation service keeps: the session moves forward within its budgets, and
  a pending agent action, which may be an effect in flight, is never dropped.
\<close>

subsection \<open>Every operation moves the session forward\<close>

text \<open>One call of the service: the session moves, and issues no agent action beyond its budget\<close>

definition drives :: "cstate \<Rightarrow> cstate \<Rightarrow> bool" where
  "drives s t \<longleftrightarrow> state_tidy t \<and> moves s t \<and>
     us_agent_actions (cs_usage t) \<le> max (us_agent_actions (cs_usage s)) (bg_max_agent_actions (cs_budgets s))"

lemma drives_refl: "state_tidy s \<Longrightarrow> drives s s"
  by (simp add: drives_def)

lemma drives_trans:
  assumes "drives s t" and "drives t u"
  shows "drives s u"
proof -
  have "cs_budgets t = cs_budgets s" using assms(1) by (simp add: drives_def moves_def)
  with assms moves_trans [of s t u] show ?thesis by (auto simp: drives_def)
qed

lemma validated_drives: "validate_state H (cstate_json s) = Inr t \<Longrightarrow> state_tidy s \<Longrightarrow> drives s t"
  using validate_state_copies [of H s t] copied_moves [of s t] by (simp add: drives_def validate_state_tidy copied_def)

lemma evolve_drives:
  assumes "evolve H at f s = Inr t" and "state_tidy s"
    and "\<And>c. copied s c \<Longrightarrow> state_tidy c \<Longrightarrow> moves c (f c)"
    and "\<And>c. copied s c \<Longrightarrow> us_agent_actions (cs_usage (f c)) \<le> max (us_agent_actions (cs_usage s)) (bg_max_agent_actions (cs_budgets s))"
  shows "drives s t"
proof -
  obtain c g where c: "copied s c" "state_tidy c" "state_tidy t" and g: "validate_state H (cstate_json g) = Inr t"
    "\<exists>u h. g = (f c)\<lparr>cs_updated_at := u, cs_version := cs_version c + 1, cs_sha256 := h\<rparr>"
    by (rule evolve_ok [OF assms(1,2)])
  have "cs_usage g = cs_usage (f c)" using g(2) by auto
  then have "us_agent_actions (cs_usage t) = us_agent_actions (cs_usage (f c))"
    using c_usage_keeps(2) [OF validate_state_keeps(15) [OF g(1)]] by simp
  with assms(4) [OF c(1)] c(3) evolve_moves(1) [OF assms(1-3)] show ?thesis by (simp add: drives_def)
qed

text \<open>The changes of the driver that leave cycles, usage and accepted actions alone\<close>

definition only_flags :: "(cstate \<Rightarrow> cstate) \<Rightarrow> bool" where
  "only_flags f \<longleftrightarrow> (\<forall>c. cs_session_id (f c) = cs_session_id c \<and> cs_goal_id (f c) = cs_goal_id c \<and>
     cs_task_family (f c) = cs_task_family c \<and> cs_budgets (f c) = cs_budgets c \<and> cs_version (f c) = cs_version c \<and>
     cs_cycle_ids (f c) = cs_cycle_ids c \<and> cs_usage (f c) = cs_usage c \<and> cs_accepted (f c) = cs_accepted c \<and>
     cs_closure_only (f c) = cs_closure_only c)"

lemma flags_drive:
  assumes "evolve H at f s = Inr t" and "state_tidy s" and "only_flags f"
  shows "drives s t"
proof (rule evolve_drives [OF assms(1,2)])
  show "moves c (f c)" for c
    using assms(3) by (simp add: only_flags_def moves_def accepted_keys_def bounded_def)
  show "copied s c \<Longrightarrow> us_agent_actions (cs_usage (f c)) \<le> max (us_agent_actions (cs_usage s)) (bg_max_agent_actions (cs_budgets s))" for c
    using assms(3) by (simp add: only_flags_def copied_def)
qed

lemma length_sort_uniq: "length (sort_uniq xs) = card (set xs)"
  by (simp add: sort_uniq_def length_remdups_card_conv)

text \<open>Usage that a session may hold after a result: cycles and agent actions are as before\<close>

definition usage_within :: "cstate \<Rightarrow> usage \<Rightarrow> bool" where
  "usage_within s u \<longleftrightarrow> us_cycles u = us_cycles (cs_usage s) \<and> us_agent_actions u = us_agent_actions (cs_usage s) \<and>
     (bounded s \<longrightarrow> bounded (s\<lparr>cs_usage := u\<rparr>))"

lemma commit_usage_within:
  assumes "commit_usage s target result = Inr u"
  shows "usage_within s u" and "us_active_long_runs u = us_active_long_runs (cs_usage s)"
    and "us_commits_by_cycle u = us_commits_by_cycle (cs_usage s) \<or> target = ''closeout_commit''"
  using assms
  by (auto simp: commit_usage_def usage_within_def bounded_def Let_def capped_dput split: if_splits option.splits)

lemma take_slot_within:
  assumes "take_slot (bg_max_concurrent_long_runs (cs_budgets s)) x v = Inr u" and "usage_within s v"
    and "us_active_long_runs v = us_active_long_runs (cs_usage s)"
  shows "usage_within s u"
  using assms card_length [of "us_active_long_runs (cs_usage s)"]
  by (auto simp: take_slot_def Let_def usage_within_def bounded_def length_sort_uniq not_le split: if_splits)

lemma free_slot_within:
  assumes "usage_within s v" and "us_active_long_runs v = us_active_long_runs (cs_usage s)"
  shows "usage_within s (free_slot x v)"
proof -
  let ?runs = "us_active_long_runs (cs_usage s)"
  have "int (length (filter P ?runs)) \<le> m" if "int (length ?runs) \<le> m" for P m
    using that by (rule order_trans [rotated]) simp
  with assms show ?thesis by (auto simp: free_slot_def usage_within_def bounded_def)
qed

lemma slot_choice: "(if c then r else Inr (if d then x else y)) = Inr u \<Longrightarrow> r = Inr u \<or> u = x \<or> u = y"
  by (simp split: if_split_asm)

lemma run_usage_within:
  assumes "run_usage s kind result outcome v = Inr u" and "usage_within s v"
    and "us_active_long_runs v = us_active_long_runs (cs_usage s)"
  shows "usage_within s u"
proof -
  have "\<exists>x. take_slot (bg_max_concurrent_long_runs (cs_budgets s)) x v = Inr u \<or> u = free_slot x v \<or> u = v"
    using assms(1) unfolding run_usage_def Let_def if_raise_eq_Inr by (elim conjE) (drule slot_choice, blast)
  then show ?thesis using take_slot_within [OF _ assms(2,3)] free_slot_within [OF assms(2,3)] assms(2) by auto
qed

lemma usage_after_result_within: "usage_after_result s a result outcome = Inr u \<Longrightarrow> usage_within s u"
  using commit_usage_within(1,2) run_usage_within by (auto simp: usage_after_result_def bindE_eq_Inr split: if_splits)

lemma flags [simp]:
  "only_flags clear_pending" "only_flags (quarantine r)" "only_flags (await_action a r)" "only_flags (mark st r)"
  "only_flags (\<lambda>c. (mark st r c)\<lparr>cs_pending := p\<rparr>)"
  by (simp_all add: only_flags_def clear_pending_def quarantine_def await_action_def mark_def)

lemma record_result_drives:
  assumes "evolve H at (record_result s i h u failed) s = Inr t" and "state_tidy s" and "usage_within s u"
  shows "drives s t"
proof (rule evolve_drives [OF assms(1,2)])
  show "copied s c \<Longrightarrow> moves c (record_result s i h u failed c)" for c
    using assms(3) by (auto simp: record_result_def usage_within_def moves_def copied_def accepted_keys_def dput_keys bounded_def)
  show "us_agent_actions (cs_usage (record_result s i h u failed c))
      \<le> max (us_agent_actions (cs_usage s)) (bg_max_agent_actions (cs_budgets s))" for c
    using assms(3) by (simp add: record_result_def usage_within_def)
qed

lemma next_cycle_drives:
  assumes "evolve H at (next_cycle_state s cycle task) s = Inr t" and "state_tidy s"
    and "us_cycles (cs_usage s) < bg_max_cycles (cs_budgets s)"
  shows "drives s t"
proof (rule evolve_drives [OF assms(1,2)])
  show "copied s c \<Longrightarrow> moves c (next_cycle_state s cycle task c)" for c
    using assms(3) by (simp add: next_cycle_state_def moves_def copied_def accepted_keys_def bounded_def)
  show "us_agent_actions (cs_usage (next_cycle_state s cycle task c))
      \<le> max (us_agent_actions (cs_usage s)) (bg_max_agent_actions (cs_budgets s))" for c
    by (simp add: next_cycle_state_def)
qed

lemma count_action_drives:
  assumes "evolve H at (\<lambda>c. await_action a r (count_action s c)) s = Inr t" and "state_tidy s"
    and "us_agent_actions (cs_usage s) < bg_max_agent_actions (cs_budgets s)"
  shows "drives s t"
proof (rule evolve_drives [OF assms(1,2)])
  show "copied s c \<Longrightarrow> moves c (await_action a r (count_action s c))" for c
    by (simp add: await_action_def count_action_def moves_def copied_def accepted_keys_def bounded_def)
  show "us_agent_actions (cs_usage (await_action a r (count_action s c)))
      \<le> max (us_agent_actions (cs_usage s)) (bg_max_agent_actions (cs_budgets s))" for c
    using assms(3) by (simp add: await_action_def count_action_def)
qed

lemma accept_cases:
  assumes "accept_action H ad at value act result w = Some (Inr (t, outcome), w')"
  obtains (reused) s a where "validate_state H (cstate_json value) = Inr s" "validate_action H act = Inr a"
      "map_of (cs_accepted s) (ca_action_id a) = Some (object_sha256 H (JObj result))" "t = s" "w' = w"
      "outcome = [(''status'', JStr ''reused''), (''result_sha256'', JStr (object_sha256 H (JObj result)))]"
    | (unknown) s a where "validate_state H (cstate_json value) = Inr s" "validate_action H act = Inr a"
      "evolve H at (quarantine ''unknown_effect'') s = Inr t"
      "jat outcome ''status'' \<notin> {JStr ''accepted'', JStr ''reused''}"
    | (accepted) s a p u where "validate_state H (cstate_json value) = Inr s" "validate_action H act = Inr a"
      "map_of (cs_accepted s) (ca_action_id a) = None" "cs_pending s = Some p" "py_equal (action_json p) (action_json a)"
      "at_state_version (ca_token a) = cs_version s - 1" "at_state_sha256 (ca_token a) \<noteq> cs_sha256 s"
      "jat outcome ''status'' \<in> {JStr ''accepted'', JStr ''reused''}" "usage_after_result s a result outcome = Inr u"
      "evolve H at (record_result s (ca_action_id a) (object_sha256 H (JObj result)) u
         (jat outcome ''run_terminal_status'' = JStr ''failed_closed'')) s = Inr t"
proof -
  from assms obtain s a where sa: "validate_state H (cstate_json value) = Inr s" "validate_action H act = Inr a"
    by (auto simp: accept_action_def bindW_yields pureW_yields)
  show thesis
  proof (cases "map_of (cs_accepted s) (ca_action_id a)")
    case (Some prior)
    with assms sa show thesis
      by (intro reused [OF sa]) (auto simp: accept_action_def bindW_yields pureW_yields Let_def split: if_splits)
  next
    case None
    note run = assms [unfolded accept_action_def bindW_yields pureW_yields Let_def]
    from run sa None obtain p where p: "cs_pending s = Some p" "py_equal (action_json p) (action_json a)"
      "at_state_version (ca_token a) = cs_version s - 1" "at_state_sha256 (ca_token a) \<noteq> cs_sha256 s"
      by (cases "cs_pending s") (auto simp: pureW_yields split: if_splits)
    show thesis
    proof (cases "jat outcome ''status'' \<in> {JStr ''accepted'', JStr ''reused''}")
      case True
      with run sa None p obtain u where "usage_after_result s a result outcome = Inr u"
        "evolve H at (record_result s (ca_action_id a) (object_sha256 H (JObj result)) u
           (jat outcome ''run_terminal_status'' = JStr ''failed_closed'')) s = Inr t"
        by (auto simp: bindW_yields pureW_yields split: if_splits)
      then show thesis by (rule accepted [OF sa None p True])
    next
      case False
      with run sa None p have "evolve H at (quarantine ''unknown_effect'') s = Inr t"
        by (auto simp: bindW_yields pureW_yields split: if_splits)
      then show thesis by (rule unknown [OF sa _ False])
    qed
  qed
qed

lemma accept_drives:
  assumes "accept_action H ad at value act result w = Some (Inr (t, outcome), w')" and "state_tidy value"
  shows "drives value t"
  using assms(1)
proof (cases rule: accept_cases)
  case (reused s a)
  then show ?thesis using assms(2) by (simp add: validated_drives)
next
  case (unknown s a)
  show ?thesis
    by (rule drives_trans [OF validated_drives [OF unknown(1) assms(2)] flags_drive [OF unknown(3) validate_state_tidy [OF unknown(1)]]])
      simp
next
  case (accepted s a p u)
  show ?thesis
    by (rule drives_trans [OF validated_drives [OF accepted(1) assms(2)] record_result_drives [OF accepted(10) validate_state_tidy [OF accepted(1)]]])
      (rule usage_after_result_within [OF accepted(9)])
qed

subsection \<open>A pending effect is kept\<close>

definition effect_kept :: "action \<Rightarrow> cstate \<Rightarrow> cstate \<Rightarrow> bool" where
  "effect_kept a s t \<longleftrightarrow> (\<exists>b. cs_pending t = Some b \<and> same_effect a b) \<or> (\<exists>k \<in> accepted_keys t. k \<notin> accepted_keys s) \<or>
     cs_status t = Cs_quarantined \<and> cs_pending t = None"

definition held :: "cstate \<Rightarrow> cstate \<Rightarrow> bool" where
  "held s t \<longleftrightarrow> drives s t \<and> rel_option same_effect (cs_pending s) (cs_pending t)"

lemma held_refl: "state_tidy s \<Longrightarrow> held s s"
  by (cases "cs_pending s") (simp_all add: held_def drives_refl)

lemma held_kept: "held s t \<Longrightarrow> cs_pending s = Some a \<Longrightarrow> effect_kept a s t"
  by (cases "cs_pending t") (auto simp: held_def effect_kept_def)

lemma kept_after:
  assumes "held s t" and "cs_pending s = Some a" and "\<And>b. cs_pending t = Some b \<Longrightarrow> same_effect a b \<Longrightarrow> effect_kept b t u"
  shows "effect_kept a s u"
proof -
  obtain b where b: "cs_pending t = Some b" "same_effect a b" using assms(1,2) by (cases "cs_pending t") (auto simp: held_def)
  have "accepted_keys s \<subseteq> accepted_keys t" using assms(1) by (simp add: held_def drives_def moves_def)
  with assms(3) [OF b] b(2) show ?thesis by (auto simp: effect_kept_def intro: same_effect_trans)
qed

lemma validated_held: "validate_state H (cstate_json s) = Inr t \<Longrightarrow> state_tidy s \<Longrightarrow> held s t"
  using validate_state_copies [of H s t] by (simp add: held_def validated_drives copied_def)

lemma evolve_held:
  assumes "evolve H at f s = Inr t" and "state_tidy s" and "only_flags f" and "\<And>c. cs_pending (f c) = cs_pending c"
  shows "held s t"
proof -
  obtain c g where c: "copied s c" "state_tidy c" "state_tidy t" and g: "validate_state H (cstate_json g) = Inr t"
    "\<exists>u h. g = (f c)\<lparr>cs_updated_at := u, cs_version := cs_version c + 1, cs_sha256 := h\<rparr>"
    by (rule evolve_ok [OF assms(1,2)])
  have "cs_pending g = cs_pending c" using g(2) assms(4) by auto
  with pending_again [OF validate_state_keeps(13) [OF g(1)]] c(2)
  have "rel_option same_effect (cs_pending c) (cs_pending t)" by (auto simp: state_tidy_def)
  then have "rel_option same_effect (cs_pending s) (cs_pending t)" using c(1)
    by (cases "cs_pending s"; cases "cs_pending c"; cases "cs_pending t") (auto simp: copied_def intro: same_effect_trans)
  then show ?thesis by (simp add: held_def flags_drive [OF assms(1-3)])
qed

lemma evolve_status: "evolve H at f s = Inr t \<Longrightarrow> state_tidy s \<Longrightarrow> (\<And>c. cs_status (f c) = st) \<Longrightarrow> cs_status t = st"
  by (erule evolve_ok) (auto dest: validate_state_keeps(1))

lemma action_id_opaque:
  assumes "hex_digests H"
  shows "is_opaque (derived_action_id H a)"
proof -
  have "is_sha (object_sha256 H (JObj (action_core a)))" using assms by (simp add: hex_digests_def object_sha256_def)
  then have "list_all opaque_char (take 32 (object_sha256 H (JObj (action_core a))))"
    by (auto simp: is_sha_def list_all_iff is_hex_def opaque_char_def is_alnum_def is_digit_def is_lower_def dest!: in_set_takeD)
  then show ?thesis by (simp add: derived_action_id_def is_opaque_def opaque_char_def is_alnum_def is_digit_def is_lower_def is_upper_def code_def)
qed

lemma validated_id: "hex_digests H \<Longrightarrow> validate_action H v = Inr a \<Longrightarrow> is_opaque (ca_action_id a)"
  by (auto simp: validate_action_def bindE_eq_Inr action_id_opaque split: json.splits if_splits)

lemma evolve_pending:
  assumes "evolve H at f s = Inr t" and "state_tidy s" and "\<And>c. cs_pending (f c) = p" and "\<And>a. p = Some a \<Longrightarrow> action_tidy a"
  shows "rel_option same_effect p (cs_pending t)"
proof -
  obtain c g where c: "copied s c" "state_tidy c" "state_tidy t" and g: "validate_state H (cstate_json g) = Inr t"
    "\<exists>u h. g = (f c)\<lparr>cs_updated_at := u, cs_version := cs_version c + 1, cs_sha256 := h\<rparr>"
    by (rule evolve_ok [OF assms(1,2)])
  have "cs_pending g = p" using g(2) assms(3) by auto
  with pending_again [OF validate_state_keeps(13) [OF g(1)]] assms(4) show ?thesis by auto
qed

lemma change_pending [simp]:
  "cs_pending (clear_pending c) = None" "cs_pending (quarantine r c) = None" "cs_pending (await_action a r c) = Some a"
  "cs_pending (mark st r c) = cs_pending c" "cs_pending (record_result s i h u b c) = None"
  "cs_pending (next_cycle_state s y k c) = cs_pending c" "cs_pending (count_action s c) = cs_pending c"
  by (simp_all add: clear_pending_def quarantine_def await_action_def mark_def record_result_def next_cycle_state_def count_action_def)

lemma change_status [simp]:
  "cs_status (clear_pending c) = Cs_active" "cs_status (quarantine r c) = Cs_quarantined"
  "cs_status (await_action a r c) = Cs_waiting" "cs_status (mark st r c) = st"
  "cs_status (record_result s i h u b c) = Cs_active" "cs_status (next_cycle_state s y k c) = Cs_active"
  by (simp_all add: clear_pending_def quarantine_def await_action_def mark_def record_result_def next_cycle_state_def)

lemma quarantined_kept:
  assumes "evolve H at (quarantine r) s = Inr t" and "state_tidy s"
  shows "effect_kept a v t" and "cs_status t = Cs_quarantined" and "cs_pending t = None"
  using evolve_pending [OF assms, of None] evolve_status [OF assms, of Cs_quarantined] by (simp_all add: effect_kept_def)

lemma recorded_key:
  assumes "evolve H at (record_result s i h u b) s = Inr t" and "state_tidy s" and "is_opaque i"
  shows "i \<in> accepted_keys t"
proof -
  obtain c g where g: "validate_state H (cstate_json g) = Inr t"
    "\<exists>u' h'. g = (record_result s i h u b c)\<lparr>cs_updated_at := u', cs_version := cs_version c + 1, cs_sha256 := h'\<rparr>"
    by (rule evolve_ok [OF assms(1,2)])
  then have "i \<in> fst ` set (cs_accepted g)" by (auto simp: record_result_def dput_keys)
  moreover obtain acc where "accepted_items (map (\<lambda>(k, v). (k, JStr v)) (cs_accepted g)) [] = Inr acc" "cs_accepted t = sort_key fst acc"
    using validate_state_keeps(14) [OF g(1)] by blast
  ultimately show ?thesis using accepted_items_keys [of "cs_accepted g" "[]" acc] opaque_JStr [OF assms(3)]
    by (auto simp: accepted_keys_def intro!: bexI [of _ i])
qed

lemma accept_kept:
  assumes "accept_action H ad at value act result w = Some (Inr (t, outcome), w')" and "state_tidy value" and "hex_digests H"
    and "cs_pending value = Some a"
  shows "effect_kept a value t"
  using assms(1)
proof (cases rule: accept_cases)
  case (reused s b)
  then show ?thesis using held_kept [OF validated_held [OF reused(1) assms(2)] assms(4)] by simp
next
  case (unknown s b)
  show ?thesis by (rule quarantined_kept(1) [OF unknown(3) validate_state_tidy [OF unknown(1)]])
next
  case (accepted s b p u)
  have "ca_action_id b \<in> accepted_keys t"
    by (rule recorded_key [OF accepted(10) validate_state_tidy [OF accepted(1)] validated_id [OF assms(3) accepted(2)]])
  moreover have "ca_action_id b \<notin> accepted_keys s" using accepted(3) by (simp add: accepted_keys_def map_of_eq_None_iff)
  moreover have "accepted_keys s = accepted_keys value"
    using validate_state_copies [OF accepted(1) assms(2)] by (simp add: copied_def accepted_keys_def)
  ultimately show ?thesis by (auto simp: effect_kept_def)
qed

text \<open>An action accepted for a session of another status than at a host boundary leaves it off that boundary\<close>

lemma accept_status:
  assumes "accept_action H ad at value act result w = Some (Inr (t, outcome), w')"
  shows "cs_status t \<in> {cs_status value, Cs_quarantined, Cs_active}"
  using assms
proof (cases rule: accept_cases)
  case (reused s b)
  then show ?thesis using validate_state_keeps(1) [OF reused(1)] by simp
next
  case (unknown s b)
  then show ?thesis using quarantined_kept(2) [OF unknown(3) validate_state_tidy [OF unknown(1)]] by simp
next
  case (accepted s b p u)
  then show ?thesis using evolve_status [OF accepted(10) validate_state_tidy [OF accepted(1)]] by simp
qed

lemma reissue_held:
  assumes "evolve H at clear_pending s = Inr c" and "reissue_action H (site_of c) a = Inr b"
    and "evolve H at (await_action b r) c = Inr t" and "state_tidy s" and "cs_pending s = Some a"
  shows "held s t" and "cs_status t = Cs_waiting"
proof -
  have c: "drives s c" "state_tidy c" using flags_drive [OF assms(1,4)] by (simp_all add: drives_def)
  have "action_tidy a" using assms(4,5) by (simp add: state_tidy_def)
  note b = reissued_same_effect [OF assms(2) this]
  have "drives s t" by (rule drives_trans [OF c(1) flags_drive [OF assms(3) c(2)]]) simp
  moreover have "rel_option same_effect (Some b) (cs_pending t)"
    by (rule evolve_pending [OF assms(3) c(2)]) (use b(2) in auto)
  ultimately show "held s t" using assms(5) b(1) by (cases "cs_pending t") (auto simp: held_def intro: same_effect_trans)
  show "cs_status t = Cs_waiting" by (rule evolve_status [OF assms(3) c(2)]) simp
qed

text \<open>
  Recovery: a session without a pending action is left as it is; otherwise the pending action is held, its
  result is accepted, or the session is quarantined
\<close>

lemma accept_recovered_kept:
  assumes "accept_recovered H ad at s a result w = Some (Inr (t, outcome), w')" and "state_tidy s" and "cs_pending s = Some a"
  shows "drives s t" and "hex_digests H \<Longrightarrow> effect_kept a s t"
    and "cs_status t \<in> {cs_status s, Cs_waiting, Cs_quarantined, Cs_active}"
proof -
  have "drives s t \<and> (hex_digests H \<longrightarrow> effect_kept a s t) \<and> cs_status t \<in> {cs_status s, Cs_waiting, Cs_quarantined, Cs_active}"
  proof (cases "at_state_version (ca_token a) = cs_version s - 1")
    case True
    with assms(1) have run: "accept_action H ad at s (action_json a) result w = Some (Inr (t, outcome), w')"
      by (simp add: accept_recovered_def)
    with accept_drives [OF run assms(2)] accept_kept [OF run assms(2) _ assms(3)] accept_status [OF run] show ?thesis by auto
  next
    case False
    with assms(1) obtain c b v x where v: "evolve H at clear_pending s = Inr c" "reissue_action H (site_of c) a = Inr b"
      "evolve H at (await_action b (text_or (ca_reason b) ''owner_boundary'')) c = Inr v"
      and run: "accept_action H ad at v (action_json b) result x = Some (Inr (t, outcome), w')"
      by (auto simp: accept_recovered_def bindW_yields pureW_yields)
    note v = reissue_held [OF v assms(2,3)]
    then have tidy: "state_tidy v" "drives s v" by (simp_all add: held_def drives_def)
    have "hex_digests H \<Longrightarrow> effect_kept a s t"
      by (rule kept_after [OF v(1) assms(3)]) (rule accept_kept [OF run tidy(1)])
    with drives_trans [OF tidy(2) accept_drives [OF run tidy(1)]] accept_status [OF run] v(2) show ?thesis by auto
  qed
  then show "drives s t" "hex_digests H \<Longrightarrow> effect_kept a s t"
    "cs_status t \<in> {cs_status s, Cs_waiting, Cs_quarantined, Cs_active}" by simp_all
qed

lemma recover_unaccepted_kept:
  assumes "recover_unaccepted H at s recovery = Inr (t, outcome)" and "state_tidy s" and "cs_pending s = Some a"
  shows "drives s t" and "effect_kept a s t" and "cs_status t \<in> {cs_status s, Cs_quarantined}"
proof -
  consider "t = s" | "evolve H at (quarantine ''unknown_effect'') s = Inr t"
    using assms(1) by (auto simp: recover_unaccepted_def bindE_eq_Inr split: if_splits)
  then have "drives s t \<and> effect_kept a s t \<and> cs_status t \<in> {cs_status s, Cs_quarantined}"
  proof cases
    case 1
    then show ?thesis using assms(2,3) held_kept [OF held_refl] by (simp add: drives_refl)
  next
    case 2
    then show ?thesis using quarantined_kept [OF 2 assms(2)] flags_drive [OF 2 assms(2)] by simp
  qed
  then show "drives s t" "effect_kept a s t" "cs_status t \<in> {cs_status s, Cs_quarantined}" by simp_all
qed

lemma recover_kept:
  assumes "recover_session H ad at value w = Some (Inr (t, outcome), w')" and "state_tidy value"
  shows "drives value t" and "hex_digests H \<Longrightarrow> cs_pending value = Some a \<Longrightarrow> effect_kept a value t"
    and "cs_status t \<in> {cs_status value, Cs_waiting, Cs_quarantined, Cs_active}"
proof -
  from assms(1) obtain s where s: "validate_state H (cstate_json value) = Inr s"
    by (auto simp: recover_session_def bindW_yields pureW_yields)
  note h = validated_held [OF s assms(2)] and tidy = validate_state_tidy [OF s] and st = validate_state_keeps(1) [OF s]
  have dr: "drives value s" using h by (simp add: held_def)
  have "drives value t \<and> (hex_digests H \<and> cs_pending value = Some a \<longrightarrow> effect_kept a value t) \<and>
    cs_status t \<in> {cs_status value, Cs_waiting, Cs_quarantined, Cs_active}"
  proof (cases "cs_pending s")
    case None
    with assms(1) s have "t = s" by (auto simp: recover_session_def bindW_yields pureW_yields)
    then show ?thesis using dr st held_kept [OF h] by simp
  next
    case (Some b)
    with assms(1) s obtain recovery x where
      "(case found_result recovery of Some result \<Rightarrow> accept_recovered H ad at s b result
        | None \<Rightarrow> pureW (recover_unaccepted H at s recovery)) x = Some (Inr (t, outcome), w')"
      by (auto simp: recover_session_def bindW_yields pureW_yields)
    then consider result where "accept_recovered H ad at s b result x = Some (Inr (t, outcome), w')"
      | "recover_unaccepted H at s recovery = Inr (t, outcome)"
      by (cases "found_result recovery") (auto simp: pureW_yields)
    then have c: "drives s t \<and> (hex_digests H \<longrightarrow> effect_kept b s t) \<and> cs_status t \<in> {cs_status s, Cs_waiting, Cs_quarantined, Cs_active}"
    proof cases
      case 1
      with accept_recovered_kept [OF 1 tidy Some] show ?thesis by blast
    next
      case 2
      with recover_unaccepted_kept [OF 2 tidy Some] show ?thesis by blast
    qed
    have "hex_digests H \<and> cs_pending value = Some a \<longrightarrow> effect_kept a value t"
      using c Some by (auto intro!: kept_after [OF h])
    then show ?thesis using drives_trans [OF dr] c st by simp
  qed
  then show "drives value t" "hex_digests H \<Longrightarrow> cs_pending value = Some a \<Longrightarrow> effect_kept a value t"
    "cs_status t \<in> {cs_status value, Cs_waiting, Cs_quarantined, Cs_active}" by simp_all
qed

subsection \<open>The driver\<close>

definition no_agent_pending :: "cstate \<Rightarrow> bool" where
  "no_agent_pending s \<longleftrightarrow> (\<forall>a. cs_pending s = Some a \<longrightarrow> ca_actor a \<noteq> By_agent)"

definition safe :: "(string \<Rightarrow> string) \<Rightarrow> cstate \<Rightarrow> cstate \<Rightarrow> bool" where
  "safe H s t \<longleftrightarrow> drives s t \<and>
     (\<forall>a. hex_digests H \<longrightarrow> cs_pending s = Some a \<longrightarrow> ca_actor a = By_agent \<longrightarrow> effect_kept a s t)"

lemma unattended_safe: "drives s t \<Longrightarrow> no_agent_pending s \<Longrightarrow> safe H s t"
  by (simp add: safe_def no_agent_pending_def)

lemma held_is_safe: "held s t \<Longrightarrow> safe H s t"
  by (simp add: safe_def held_kept) (simp add: held_def)

lemma held_safe:
  assumes "held s t" and "safe H t u"
  shows "safe H s u"
proof -
  have "effect_kept a s u" if a: "hex_digests H" "cs_pending s = Some a" "ca_actor a = By_agent" for a
  proof (rule kept_after [OF assms(1) a(2)])
    show "cs_pending t = Some b \<Longrightarrow> same_effect a b \<Longrightarrow> effect_kept b t u" for b
      using assms(2) a by (simp add: safe_def same_effect_def)
  qed
  then show ?thesis using assms drives_trans [of s t u] by (simp add: safe_def held_def)
qed

text \<open>Steps after which the effect is already kept, as long as the session is not in quarantine\<close>

lemma kept_held:
  assumes "effect_kept a s t" and "held t u" and "cs_pending t \<noteq> None \<or> cs_status t \<noteq> Cs_quarantined"
  shows "effect_kept a s u"
proof -
  have keys: "accepted_keys t \<subseteq> accepted_keys u" using assms(2) by (simp add: held_def drives_def moves_def)
  consider b where "cs_pending t = Some b" "same_effect a b" | k where "k \<in> accepted_keys t" "k \<notin> accepted_keys s"
    using assms(1,3) by (auto simp: effect_kept_def)
  then show ?thesis
  proof cases
    case 1
    then obtain c where "cs_pending u = Some c" "same_effect b c" using assms(2) by (cases "cs_pending u") (auto simp: held_def)
    then show ?thesis using 1 by (auto simp: effect_kept_def intro: same_effect_trans)
  next
    case 2
    then show ?thesis using keys by (auto simp: effect_kept_def)
  qed
qed

lemma kept_safe:
  assumes "effect_kept a s t" and "drives s t" and "safe H t u" and "hex_digests H" and "ca_actor a = By_agent"
    and "cs_status t \<noteq> Cs_quarantined"
  shows "effect_kept a s u"
proof -
  have keys: "accepted_keys s \<subseteq> accepted_keys t" "accepted_keys t \<subseteq> accepted_keys u"
    using assms(2,3) by (simp_all add: safe_def drives_def moves_def)
  consider b where "cs_pending t = Some b" "same_effect a b" | k where "k \<in> accepted_keys t" "k \<notin> accepted_keys s"
    using assms(1,6) by (auto simp: effect_kept_def)
  then show ?thesis
  proof cases
    case 1
    then have "effect_kept b t u" using assms(3-5) by (simp add: safe_def same_effect_def)
    then show ?thesis using keys(1) 1(2) by (auto simp: effect_kept_def intro: same_effect_trans)
  next
    case 2
    then show ?thesis using keys(2) by (auto simp: effect_kept_def)
  qed
qed

lemma queue_drives: "queue_agent_action H at s a r = Inr (t, b) \<Longrightarrow> state_tidy s \<Longrightarrow> drives s t"
  by (auto simp: queue_agent_action_def Let_def bindE_eq_Inr not_le split: if_splits
      dest: count_action_drives flags_drive [where f = "mark _ _", OF _ _ flags(4)])

lemma wait_drives: "wait_at_boundary H at s actor k r target result = Inr (t, b) \<Longrightarrow> state_tidy s \<Longrightarrow> drives s t"
  by (auto simp: wait_at_boundary_def bindE_eq_Inr dest: flags_drive [where f = "await_action _ _", OF _ _ flags(3)])

lemma block_drives: "block_session H at s result = Inr (t, a) \<Longrightarrow> state_tidy s \<Longrightarrow> drives s t"
  by (auto simp: block_session_def Let_def bindE_eq_Inr split: if_split_asm
      dest: queue_drives wait_drives flags_drive [where f = "mark _ _", OF _ _ flags(4)])

lemma offer_drives: "offer_preparation H at s result prep e = Inr (t, a) \<Longrightarrow> state_tidy s \<Longrightarrow> drives s t"
  by (auto simp: offer_preparation_def bindE_eq_Inr split: if_split_asm dest: queue_drives wait_drives)

lemma dispatch_drives: "state_tidy s \<Longrightarrow> ensures (dispatch_advance H ad at s result known) (\<lambda>(t, a). drives s t)"
  by (auto simp: dispatch_advance_def split: json.split intro!: ensures_pure ensures_bind_any intro: block_drives offer_drives)

lemma host_boundary_held:
  assumes "host_boundary H at s = Inr (t, a)" and "state_tidy s"
  shows "held s t"
proof (cases "cs_status s = Cs_host_boundary")
  case True
  with assms show ?thesis by (auto simp: host_boundary_def bindE_eq_Inr held_refl)
next
  case False
  with assms(1) have e: "evolve H at (\<lambda>c. (mark Cs_host_boundary ''host_session_not_live'' c)\<lparr>cs_pending := cs_pending s\<rparr>) s = Inr t"
    by (auto simp: host_boundary_def bindE_eq_Inr)
  have "rel_option same_effect (cs_pending s) (cs_pending t)"
    by (rule evolve_pending [OF e assms(2)]) (use assms(2) in \<open>simp_all add: state_tidy_def\<close>)
  then show ?thesis by (simp add: held_def flags_drive [OF e assms(2)])
qed

lemma choose_ok: "choose_successor s d = Inr (Some c) \<Longrightarrow> us_cycles (cs_usage s) < bg_max_cycles (cs_budgets s)"
  by (simp add: choose_successor_def not_le split: if_split_asm)

lemma successor_held:
  assumes "selected_successor H ad at s w = Some (Inr (Some t), w')" and "state_tidy s"
  shows "held s t" and "cs_host_live t = cs_host_live s" and "cs_status t = Cs_active"
    and "us_cycles (cs_usage s) < bg_max_cycles (cs_budgets s)" and "us_cycles (cs_usage t) = us_cycles (cs_usage s) + 1"
    and "cs_budgets t = cs_budgets s"
proof -
  from assms(1) obtain cycle task where less: "us_cycles (cs_usage s) < bg_max_cycles (cs_budgets s)"
    and e: "evolve H at (next_cycle_state s cycle task) s = Inr t"
    by (auto simp: selected_successor_def bindW_yields pureW_yields bindE_eq_Inr split: option.splits prod.splits dest!: choose_ok)
  show "us_cycles (cs_usage s) < bg_max_cycles (cs_budgets s)" by (rule less)
  obtain c g where c: "copied s c" "state_tidy c" "state_tidy t" and g: "validate_state H (cstate_json g) = Inr t"
    "\<exists>u h. g = (next_cycle_state s cycle task c)\<lparr>cs_updated_at := u, cs_version := cs_version c + 1, cs_sha256 := h\<rparr>"
    by (rule evolve_ok [OF e assms(2)])
  note k = validate_state_keeps [OF g(1)]
  have g': "cs_pending g = cs_pending c" "cs_host_live g = cs_host_live s" "us_cycles (cs_usage g) = us_cycles (cs_usage s) + 1"
    "cs_budgets g = cs_budgets s" using g(2) c(1) by (auto simp: next_cycle_state_def copied_def)
  have "rel_option same_effect (cs_pending c) (cs_pending t)"
    using pending_again [OF k(13)] c(2) g'(1) by (auto simp: state_tidy_def)
  then have "rel_option same_effect (cs_pending s) (cs_pending t)" using c(1)
    by (cases "cs_pending s"; cases "cs_pending c"; cases "cs_pending t") (auto simp: copied_def intro: same_effect_trans)
  then show "held s t" by (simp add: held_def next_cycle_drives [OF e assms(2) less])
  show "cs_host_live t = cs_host_live s" "cs_budgets t = cs_budgets s" using k(2,4) g' by simp_all
  show "us_cycles (cs_usage t) = us_cycles (cs_usage s) + 1" using c_usage_keeps(1) [OF k(15)] g'(3) by simp
  show "cs_status t = Cs_active" by (rule evolve_status [OF e assms(2)]) simp
qed

lemma held_no_agent: "held s t \<Longrightarrow> no_agent_pending s \<Longrightarrow> no_agent_pending t"
  by (cases "cs_pending s"; cases "cs_pending t") (auto simp: held_def no_agent_pending_def same_effect_def)

lemma mark_held: "evolve H at (mark st r) s = Inr t \<Longrightarrow> state_tidy s \<Longrightarrow> held s t"
  by (erule evolve_held) simp_all

lemma tidy_after: "held s t \<Longrightarrow> state_tidy t" "drives s t \<Longrightarrow> state_tidy t"
  by (simp_all add: held_def drives_def)

lemma held_drives: "held s t \<Longrightarrow> drives s t"
  by (simp add: held_def)

lemma continued_safe:
  assumes "held s t" and "ensures m (\<lambda>(u, a). safe H t u)"
  shows "ensures m (\<lambda>(u, a). safe H s u)"
  by (rule ensures_weaken [OF assms(2)]) (auto intro: held_safe [OF assms(1)])

text \<open>The recursive call keeps what every call keeps\<close>

definition sound_call :: "(string \<Rightarrow> string) \<Rightarrow> (cstate \<Rightarrow> ('w, cstate \<times> action) prog) \<Rightarrow> bool" where
  "sound_call H again \<longleftrightarrow> (\<forall>v. state_tidy v \<longrightarrow> ensures (again v) (\<lambda>(t, a). safe H v t))"

lemma held_trans: "held s t \<Longrightarrow> held t u \<Longrightarrow> held s u"
  by (cases "cs_pending s"; cases "cs_pending t"; cases "cs_pending u")
    (auto simp: held_def intro: drives_trans same_effect_trans)

lemma complete_safe:
  assumes "sound_call H again" and "state_tidy s"
  shows "ensures (complete_cycle H ad at again s) (\<lambda>(t, a). safe H s t)"
  unfolding complete_cycle_def
proof (rule ensures_bind_pure)
  fix c assume "evolve H at (mark Cs_complete ''cycle_complete'') s = Inr c"
  then have h: "held s c" by (rule mark_held [OF _ assms(2)])
  note c = tidy_after(1) [OF h]
  let ?next = "\<lambda>successor. case successor of Some t \<Rightarrow> again t
      | None \<Rightarrow> pureW (bindE (complete_action H (site_of c) ''cycle_complete'') (\<lambda>a. Inr (c, a)))"
  have found: "ensures (selected_successor H ad at c) (\<lambda>x. \<forall>t. x = Some t \<longrightarrow> held s t)"
    using held_trans [OF h successor_held(1) [OF _ c]] by (auto simp: ensures_def)
  show "ensures (bindW (selected_successor H ad at c) ?next) (\<lambda>(t, a). safe H s t)"
  proof (rule ensures_bind [OF found])
    fix x assume x: "\<forall>t. x = Some t \<longrightarrow> held s t"
    show "ensures (?next x) (\<lambda>(t, a). safe H s t)"
    proof (cases x)
      case None
      then show ?thesis using held_is_safe [OF h] by (auto simp: bindE_eq_Inr intro!: ensures_pure)
    next
      case (Some t)
      then show ?thesis using assms(1) x continued_safe [of s t] by (auto simp: sound_call_def dest: tidy_after)
    qed
  qed
qed

lemma advance_safe:
  assumes "sound_call H again" and "state_tidy s" and "cs_host_live s \<Longrightarrow> no_agent_pending s"
  shows "ensures (advance_session H ad at again s advanced known) (\<lambda>(t, a). safe H s t)"
proof (cases "cs_host_live s")
  case False
  then show ?thesis using host_boundary_held [OF _ assms(2)]
    by (auto simp: advance_session_def intro!: ensures_pure held_is_safe)
next
  case True
  have dispatch: "ensures (dispatch_advance H ad at s result k) (\<lambda>(t, a). safe H s t)" for result k
    by (rule ensures_weaken [OF dispatch_drives [OF assms(2)]]) (auto intro: unattended_safe [OF _ assms(3) [OF True]])
  show ?thesis using True complete_safe [OF assms(1,2)] dispatch
    by (auto simp: advance_session_def Let_def intro!: ensures_bind_any)
qed

lemma cleared:
  assumes "evolve H at clear_pending s = Inr t" and "state_tidy s"
  shows "drives s t" and "cs_pending t = None" and "no_agent_pending t" and "cs_status t = Cs_active"
proof -
  show "drives s t" by (rule flags_drive [OF assms]) simp
  show "cs_pending t = None" using evolve_pending [OF assms, of None] by simp
  then show "no_agent_pending t" by (simp add: no_agent_pending_def)
  show "cs_status t = Cs_active" by (rule evolve_status [OF assms]) simp
qed

definition rechecked :: "cstate \<Rightarrow> cstate \<times> obj option \<times> action option \<times> action_effect option \<Rightarrow> bool" where
  "rechecked s1 = (\<lambda>(s, advanced, preserved, known).
     (s = s1 \<or> drives s1 s \<and> cs_status s = Cs_active \<and> no_agent_pending s1 \<and> no_agent_pending s) \<and>
     (if preserved \<noteq> None then s = s1 else cs_host_live s \<longrightarrow> no_agent_pending s))"

lemma recheck_ok:
  assumes "state_tidy s1"
  shows "ensures (recheck_pending_boundary H ad at s1) (rechecked s1)"
proof (cases "cs_pending s1")
  case None
  then show ?thesis by (simp add: recheck_pending_boundary_def rechecked_def no_agent_pending_def)
next
  case (Some p)
  show ?thesis
  proof (cases "cs_host_live s1 \<and> ca_actor p \<in> {By_user, By_external}")
    case False
    with Some show ?thesis by (auto simp: recheck_pending_boundary_def rechecked_def)
  next
    case True
    then have "no_agent_pending s1" using Some by (auto simp: no_agent_pending_def)
    then have "evolve H at clear_pending s1 = Inr t \<Longrightarrow> rechecked s1 (t, Some d, None, e)" for t d e
      using cleared [OF _ assms] by (simp add: rechecked_def)
    moreover have "rechecked s1 (s1, None, Some p, e)" for e by (simp add: rechecked_def)
    ultimately show ?thesis using Some True
      by (auto simp: recheck_pending_boundary_def intro!: ensures_bind_any ensures_bind_pure)
  qed
qed

lemma drive_from_safe:
  assumes "sound_call H again" and "state_tidy s1"
  shows "ensures (drive_from H ad at again s1) (\<lambda>(t, a). safe H s1 t)"
  unfolding drive_from_def
proof (rule ensures_bind [OF recheck_ok [OF assms(2)]])
  fix r assume r: "rechecked s1 r"
  obtain s advanced preserved known where eq: "r = (s, advanced, preserved, known)" by (cases r)
  have tidy: "state_tidy s" using r assms(2) by (auto simp: rechecked_def eq drives_def)
  have onward: "safe H s t \<Longrightarrow> safe H s1 t" for t
    using r drives_trans [of s1 s t] unattended_safe [of s1 t] by (auto simp: rechecked_def eq safe_def)
  have adv: "ensures (advance_session H ad at again t advanced known) (\<lambda>(u, a). safe H s1 u)"
    if "held s t" "cs_host_live t = cs_host_live s" "preserved = None" for t
  proof (rule ensures_weaken [OF advance_safe [OF assms(1) tidy_after(1) [OF that(1)]]])
    show "cs_host_live t \<Longrightarrow> no_agent_pending t"
      using held_no_agent [OF that(1)] that(2,3) r by (simp add: rechecked_def eq)
    show "(case x of (u, a) \<Rightarrow> safe H t u) \<Longrightarrow> (case x of (u, a) \<Rightarrow> safe H s1 u)" for x
      using held_safe [OF that(1)] onward by auto
  qed
  have self: "safe H s1 s" by (rule onward [OF held_is_safe [OF held_refl [OF tidy]]])
  have successor: "ensures (selected_successor H ad at s) (\<lambda>x. \<forall>t. x = Some t \<longrightarrow> held s t \<and> cs_host_live t = cs_host_live s)"
    unfolding ensures_def by (metis successor_held(1) [OF _ tidy] successor_held(2) [OF _ tidy])
  show "ensures (case r of (s, advanced, preserved, known) \<Rightarrow> case preserved of Some p \<Rightarrow> yieldW (s, p)
     | None \<Rightarrow> if cs_status s = Cs_complete then
           bindW (selected_successor H ad at s) (\<lambda>successor. case successor of
             None \<Rightarrow> pureW (bindE (complete_action H (site_of s) ''session_complete'') (\<lambda>a. Inr (s, a)))
           | Some t \<Rightarrow> advance_session H ad at again t advanced known)
         else advance_session H ad at again s advanced known) (\<lambda>(t, a). safe H s1 t)"
    using self adv [OF held_refl [OF tidy]] adv
    by (auto simp: eq bindE_eq_Inr split: option.split intro!: ensures_bind [OF successor] ensures_pure)
qed

lemma reoffer_ok:
  assumes "reoffer H at s = Inr (t, b)" and "state_tidy s"
  shows "held s t" and "cs_status t = Cs_waiting" and "cs_pending s \<noteq> None"
proof -
  from assms(1) obtain a c where a: "cs_pending s = Some a" and c: "evolve H at clear_pending s = Inr c"
    and b: "reissue_action H (site_of c) a = Inr b"
    and t: "evolve H at (await_action b (text_or (ca_reason b) ''owner_boundary'')) c = Inr t"
    by (auto simp: reoffer_def bindE_eq_Inr split: option.splits)
  show "held s t" "cs_status t = Cs_waiting" using reissue_held [OF c b t assms(2) a] by simp_all
  show "cs_pending s \<noteq> None" using a by simp
qed

lemma after_recovery_safe:
  assumes "sound_call H again" and "drives s t" and "ca_actor a = By_agent"
    and "hex_digests H \<longrightarrow> effect_kept a s t"
  shows "ensures (after_recovery H at again p (t, outcome)) (\<lambda>(u, b). drives s u \<and> (hex_digests H \<longrightarrow> effect_kept a s u))"
proof -
  note tidy = tidy_after(2) [OF assms(2)]
  let ?Q = "\<lambda>u. drives s u \<and> (hex_digests H \<longrightarrow> effect_kept a s u)"
  have itself: "?Q t" using assms(2,4) by simp
  have held: "?Q u" if "held t u" "cs_pending t \<noteq> None \<or> cs_status t \<noteq> Cs_quarantined" for u
    using drives_trans [OF assms(2) held_drives [OF that(1)]] assms(4) kept_held [OF _ that] by simp
  have again: "?Q u" if "safe H t u" "cs_status t \<noteq> Cs_quarantined" for u
    using that drives_trans [OF assms(2)] assms(3,4) kept_safe [OF _ assms(2) that(1)] by (auto simp: safe_def)
  have quarantined: "?Q u" if "evolve H at (quarantine r) t = Inr u" for u r
    using drives_trans [OF assms(2) flags_drive [OF that tidy]] quarantined_kept(1) [OF that tidy] by simp
  have settled: "?Q u" if "evolve H at (mark Cs_host_boundary r) t = Inr u" "cs_status t \<noteq> Cs_quarantined" for u r
    by (rule held [OF mark_held [OF that(1) tidy]]) (simp add: that(2))
  have reoffered: "?Q u" if "reoffer H at t = Inr (u, b)" for u b
    using held [OF reoffer_ok(1) [OF that tidy]] reoffer_ok(3) [OF that tidy] by simp
  have called: "ensures (again t) (\<lambda>(u, b). ?Q u)" if "cs_status t \<noteq> Cs_quarantined"
    using assms(1) tidy again [OF _ that] by (auto simp: sound_call_def intro: ensures_weaken)
  show ?thesis
    unfolding after_recovery_def prod.case Let_def
    by (intro ensures_if ensures_pure)
      (auto simp: bindE_eq_Inr dest: reoffered quarantined settled intro: called itself [THEN conjunct1] itself [THEN conjunct2, rule_format])
qed

lemma resume_safe:
  assumes "sound_call H again" and "state_tidy s"
  shows "ensures (resume_after_host_boundary H ad at again s)
    (\<lambda>r. case r of None \<Rightarrow> no_agent_pending s | Some (t, a) \<Rightarrow> safe H s t)"
proof (cases "\<exists>a. cs_pending s = Some a \<and> ca_actor a = By_agent")
  case False
  then show ?thesis by (auto simp: resume_after_host_boundary_def no_agent_pending_def split: option.split)
next
  case True
  then obtain a where a: "cs_pending s = Some a" "ca_actor a = By_agent" by blast
  let ?Q = "\<lambda>u. drives s u \<and> (hex_digests H \<longrightarrow> effect_kept a s u)"
  have tail: "ensures (bindW (after_recovery H at again a found) (\<lambda>r. yieldW (Some r)))
      (\<lambda>r. case r of None \<Rightarrow> no_agent_pending s | Some (t, b) \<Rightarrow> safe H s t)"
    if e: "evolve H at (mark Cs_waiting r) s = Inr resumed" and run: "recover_session H ad at resumed w = Some (Inr found, w')"
    for r resumed found w w'
  proof -
    have h: "held s resumed" by (rule mark_held [OF e assms(2)])
    note tidy = tidy_after(1) [OF h]
    obtain t outcome where found: "found = (t, outcome)" by (cases found)
    note rec = recover_kept [OF run [unfolded found] tidy]
    have "drives s t" by (rule drives_trans [OF held_drives [OF h] rec(1)])
    moreover have "hex_digests H \<longrightarrow> effect_kept a s t" using kept_after [OF h a(1) rec(2)] by blast
    ultimately have "ensures (after_recovery H at again a (t, outcome)) (\<lambda>(u, b). ?Q u)"
      by (intro after_recovery_safe [OF assms(1) _ a(2)])
    then show ?thesis unfolding found by (rule ensures_bind) (use a in \<open>auto simp: safe_def\<close>)
  qed
  show ?thesis
    by (simp add: resume_after_host_boundary_def a) (rule ensures_bind_pure, rule ensures_bind_run, erule (1) tail)
qed

lemma continue_sound: "sound_call H (continue_session fuel H ad at)"
proof (induction fuel)
  case 0
  then show ?case by (simp add: sound_call_def)
next
  case (Suc fuel)
  let ?again = "continue_session fuel H ad at"
  show ?case unfolding sound_call_def
  proof (intro allI impI)
    fix v assume v: "state_tidy v"
    show "ensures (continue_session (Suc fuel) H ad at v) (\<lambda>(t, a). safe H v t)"
      unfolding continue_session.simps
    proof (rule ensures_bind_pure)
      fix s assume s: "validate_state H (cstate_json v) = Inr s"
      note h = validated_held [OF s v] and tidy = validate_state_tidy [OF s]
      have self: "safe H v s" by (rule held_is_safe [OF h])
      have drive: "ensures (drive_from H ad at ?again s) (\<lambda>(t, a). safe H v t)"
        by (rule continued_safe [OF h drive_from_safe [OF Suc tidy]])
      have boundary: "host_boundary H at s = Inr (t, a) \<Longrightarrow> safe H v t" for t a
        by (rule held_safe [OF h held_is_safe [OF host_boundary_held [OF _ tidy]]])
      have cleared: "ensures (drive_from H ad at ?again c) (\<lambda>(t, a). safe H v t)"
        if e: "evolve H at clear_pending s = Inr c" and n: "no_agent_pending s" for c
      proof (rule ensures_weaken [OF drive_from_safe [OF Suc tidy_after(2) [OF cleared(1) [OF e tidy]]]])
        fix x :: "cstate \<times> action" assume "case x of (t, a) \<Rightarrow> safe H c t"
        then show "case x of (t, a) \<Rightarrow> safe H v t"
          using held_safe [OF h unattended_safe [OF drives_trans [OF cleared(1) [OF e tidy]] n]] by (cases x) (simp add: safe_def)
      qed
      show "ensures (continue_step H ad at ?again s) (\<lambda>(t, a). safe H v t)"
        unfolding continue_step_def
        using self drive boundary cleared
        by (auto simp: bindE_eq_Inr intro: held_safe [OF h] split: option.splits
            intro!: ensures_pure ensures_bind [OF resume_safe [OF Suc tidy]] ensures_bind_pure)
    qed
  qed
qed

end
