(* ===== verification/Continuation_Return.thy ===== *)
theory Continuation_Return
  imports Continuation_Safety
begin

text \<open>
  The driver returns: every recursive call of \<^verbatim>\<open>continue_session\<close> spends a cycle of the budget, except the one
  after a host boundary, from which the session leaves the boundary.
\<close>

definition cycles_left :: "cstate \<Rightarrow> nat" where
  "cycles_left s = nat (bg_max_cycles (cs_budgets s) - us_cycles (cs_usage s))"

lemma drives_left: "drives s t \<Longrightarrow> cycles_left t \<le> cycles_left s"
  by (auto simp: drives_def moves_def cycles_left_def)

lemma successor_left:
  assumes "selected_successor H ad at s w = Some (Inr (Some t), w')" and "state_tidy s"
  shows "cycles_left t < cycles_left s"
  using successor_held(4-6) [OF assms] by (simp add: cycles_left_def)

definition returns_below :: "(cstate \<Rightarrow> ('w, cstate \<times> action) prog) \<Rightarrow> nat \<Rightarrow> bool" where
  "returns_below again n \<longleftrightarrow>
     (\<forall>t. state_tidy t \<and> cs_status t \<noteq> Cs_host_boundary \<and> cycles_left t < n \<longrightarrow> returns (again t))"

lemma returns_bind_pure: "(\<And>x. r = Inr x \<Longrightarrow> returns (f x)) \<Longrightarrow> returns (bindW (pureW r) f)"
  by (rule returns_bind [where P = "\<lambda>x. r = Inr x"]) (auto intro: ensures_pure)

lemma returns_bind_run: "returns m \<Longrightarrow> (\<And>x w w'. m w = Some (Inr x, w') \<Longrightarrow> returns (f x)) \<Longrightarrow> returns (bindW m f)"
  by (rule returns_bind [where P = "\<lambda>x. \<exists>w w'. m w = Some (Inr x, w')"]) (auto simp: ensures_def)

lemma resolve_returns: "returns (resolve_effect_class ad at s prep)"
  by (auto simp: resolve_effect_class_def Let_def split: option.split intro!: returns_bind_any)

lemma dispatch_returns: "returns (dispatch_advance H ad at s result known)"
  by (auto simp: dispatch_advance_def resolve_returns split: json.split option.split intro!: returns_bind_any)

lemma selected_returns: "returns (selected_successor H ad at s)"
  by (auto simp: selected_successor_def split: option.split intro!: returns_bind_any)

lemma recheck_returns: "returns (recheck_pending_boundary H ad at s)"
  by (auto simp: recheck_pending_boundary_def resolve_returns split: option.split json.split intro!: returns_bind_any)

lemma accept_returns: "returns (accept_action H ad at v act result)"
  by (auto simp: accept_action_def Let_def split: option.split intro!: returns_bind_any)

lemma recover_returns: "returns (recover_session H ad at v)"
  by (auto simp: recover_session_def accept_recovered_def accept_returns split: option.split intro!: returns_bind_any)

lemma complete_returns:
  assumes "returns_below again n" and "state_tidy s" and "cycles_left s \<le> n"
  shows "returns (complete_cycle H ad at again s)"
  unfolding complete_cycle_def
proof (rule returns_bind_pure)
  fix c assume "evolve H at (mark Cs_complete ''cycle_complete'') s = Inr c"
  then have h: "held s c" by (rule mark_held [OF _ assms(2)])
  note c = tidy_after(1) [OF h] and left = drives_left [OF held_drives [OF h]]
  have "returns (again t)" if run: "selected_successor H ad at c w = Some (Inr (Some t), w')" for t w w'
    using assms(1,3) left successor_left [OF run c] successor_held(3) [OF run c] tidy_after(1) [OF successor_held(1) [OF run c]]
    by (simp add: returns_below_def)
  then show "returns (bindW (selected_successor H ad at c) (\<lambda>successor. case successor of Some t \<Rightarrow> again t
      | None \<Rightarrow> pureW (bindE (complete_action H (site_of c) ''cycle_complete'') (\<lambda>a. Inr (c, a)))))"
    by (intro returns_bind_run [OF selected_returns]) (auto split: option.split)
qed

lemma advance_returns:
  assumes "returns_below again n" and "state_tidy s" and "cycles_left s \<le> n"
  shows "returns (advance_session H ad at again s advanced known)"
  using complete_returns [OF assms] by (auto simp: advance_session_def Let_def dispatch_returns intro!: returns_bind_any)

lemma drive_from_returns:
  assumes "returns_below again n" and "state_tidy s1" and "cycles_left s1 \<le> n"
  shows "returns (drive_from H ad at again s1)"
  unfolding drive_from_def
proof (rule returns_bind [OF recheck_returns recheck_ok [OF assms(2)]])
  fix r assume r: "rechecked s1 r"
  obtain s advanced preserved known where eq: "r = (s, advanced, preserved, known)" by (cases r)
  have tidy: "state_tidy s" and "cycles_left s \<le> cycles_left s1"
    using r assms(2) drives_left [of s1 s] by (auto simp: rechecked_def eq drives_def)
  then have left: "cycles_left s \<le> n" using assms(3) by simp
  have "returns (advance_session H ad at again t advanced known)"
    if "selected_successor H ad at s w = Some (Inr (Some t), w')" for t w w'
    using successor_left [OF that tidy] left by (intro advance_returns [OF assms(1)] tidy_after(1) [OF successor_held(1) [OF that tidy]]) simp
  then show "returns (case r of (s, advanced, preserved, known) \<Rightarrow> case preserved of Some p \<Rightarrow> yieldW (s, p)
     | None \<Rightarrow> if cs_status s = Cs_complete then
           bindW (selected_successor H ad at s) (\<lambda>successor. case successor of
             None \<Rightarrow> pureW (bindE (complete_action H (site_of s) ''session_complete'') (\<lambda>a. Inr (s, a)))
           | Some t \<Rightarrow> advance_session H ad at again t advanced known)
         else advance_session H ad at again s advanced known)"
    using advance_returns [OF assms(1) tidy left]
    by (auto simp: eq split: option.split intro!: returns_bind_run [OF selected_returns])
qed

lemma resume_returns:
  assumes "returns_below again n" and "state_tidy s" and "cycles_left s < n"
  shows "returns (resume_after_host_boundary H ad at again s)"
proof -
  have "returns (after_recovery H at again p found)"
    if e: "evolve H at (mark Cs_waiting r) s = Inr resumed" and run: "recover_session H ad at resumed w = Some (Inr found, w')"
    for r resumed found w w' p
  proof -
    have h: "held s resumed" by (rule mark_held [OF e assms(2)])
    obtain t outcome where found: "found = (t, outcome)" by (cases found)
    note rec = recover_kept [OF run [unfolded found] tidy_after(1) [OF h]]
    have "cs_status t \<noteq> Cs_host_boundary" using rec(3) evolve_status [OF e assms(2), of Cs_waiting] by auto
    moreover have "cycles_left t < n"
      using drives_left [OF rec(1)] drives_left [OF held_drives [OF h]] assms(3) by simp
    ultimately have "returns (again t)" using assms(1) tidy_after(2) [OF rec(1)] by (simp add: returns_below_def)
    then show ?thesis by (simp add: after_recovery_def found Let_def)
  qed
  then show ?thesis
    by (auto simp: resume_after_host_boundary_def split: option.split
        intro!: returns_bind_pure returns_bind_run [OF recover_returns] returns_bind_any)
qed

lemma continue_off_boundary: "returns_below (continue_session fuel H ad at) fuel"
proof (induction fuel)
  case 0
  then show ?case by (simp add: returns_below_def)
next
  case (Suc fuel)
  show ?case unfolding returns_below_def
  proof (intro allI impI)
    fix v assume v: "state_tidy v \<and> cs_status v \<noteq> Cs_host_boundary \<and> cycles_left v < Suc fuel"
    show "returns (continue_session (Suc fuel) H ad at v)"
      unfolding continue_session.simps
    proof (rule returns_bind_pure)
      fix s assume s: "validate_state H (cstate_json v) = Inr s"
      have "cycles_left s \<le> cycles_left v" using drives_left [OF validated_drives [OF s]] v by simp
      then show "returns (continue_step H ad at (continue_session fuel H ad at) s)"
        using v validate_state_keeps(1) [OF s] drive_from_returns [OF Suc validate_state_tidy [OF s]]
        by (simp add: continue_step_def)
    qed
  qed
qed

lemma continue_returns:
  assumes "state_tidy v" and "cycles_left v + 1 < fuel"
  shows "returns (continue_session fuel H ad at v)"
proof -
  obtain n where n: "fuel = Suc n" "cycles_left v < n" using assms(2) by (cases fuel) auto
  let ?again = "continue_session n H ad at"
  note below = continue_off_boundary [of n H ad at]
  show ?thesis unfolding n(1) continue_session.simps
  proof (rule returns_bind_pure)
    fix s assume s: "validate_state H (cstate_json v) = Inr s"
    note tidy = validate_state_tidy [OF s]
    have left: "cycles_left s < n" using drives_left [OF validated_drives [OF s assms(1)]] n(2) by simp
    have "returns (drive_from H ad at ?again c)" if e: "evolve H at clear_pending s = Inr c" for c
      using drives_left [OF cleared(1) [OF e tidy]] left
      by (intro drive_from_returns [OF below tidy_after(2) [OF cleared(1) [OF e tidy]]]) simp
    then show "returns (continue_step H ad at ?again s)"
      unfolding continue_step_def
      using drive_from_returns [OF below tidy] resume_returns [OF below tidy left] left
      by (auto split: option.split intro!: returns_bind_any returns_bind_pure)
  qed
qed

end
