(* ===== verification/Continuation_Session.thy ===== *)
theory Continuation_Session
  imports Continuation_Command Continuation_Return
begin

text \<open>
  The life of a session file: the steps that the commands take on it, and what any sequence of them keeps.
\<close>

subsection \<open>What the calls carry over\<close>

text \<open>A session moves, keeps its pending agent effect, and stays in an empty quarantine\<close>

definition carries_on :: "(string \<Rightarrow> string) \<Rightarrow> cstate \<Rightarrow> cstate \<Rightarrow> bool" where
  "carries_on H s t \<longleftrightarrow> state_tidy t \<and> moves s t \<and>
     (\<forall>a. hex_digests H \<longrightarrow> cs_pending s = Some a \<longrightarrow> ca_actor a = By_agent \<longrightarrow> effect_kept a s t) \<and>
     (cs_status s = Cs_quarantined \<and> cs_pending s = None \<longrightarrow> cs_status t = Cs_quarantined \<and> cs_pending t = None)"

lemma kept_carries:
  assumes "effect_kept a s t" and "moves s t" and "carries_on H t u" and "hex_digests H" and "ca_actor a = By_agent"
  shows "effect_kept a s u"
proof -
  have keys: "accepted_keys s \<subseteq> accepted_keys t" "accepted_keys t \<subseteq> accepted_keys u"
    using assms(2,3) by (simp_all add: carries_on_def moves_def)
  from assms(1) consider b where "cs_pending t = Some b" "same_effect a b" | k where "k \<in> accepted_keys t" "k \<notin> accepted_keys s"
    | "cs_status t = Cs_quarantined" "cs_pending t = None" by (auto simp: effect_kept_def)
  then show ?thesis
  proof cases
    case 1
    then have "effect_kept b t u" using assms(3-5) by (simp add: carries_on_def same_effect_def)
    then show ?thesis using keys(1) 1(2) by (auto simp: effect_kept_def intro: same_effect_trans)
  next
    case 2
    then show ?thesis using keys(2) by (auto simp: effect_kept_def)
  next
    case 3
    then show ?thesis using assms(3) by (simp add: carries_on_def effect_kept_def)
  qed
qed

lemma carries_on_trans: "carries_on H s t \<Longrightarrow> carries_on H t u \<Longrightarrow> carries_on H s u"
  using kept_carries [of _ s t H u] moves_trans [of s t u] by (auto simp: carries_on_def)

lemma held_carries: "held s t \<Longrightarrow> cs_status t = cs_status s \<Longrightarrow> carries_on H s t"
  using held_kept [of s t] by (auto simp: carries_on_def held_def drives_def)

lemma validated_carries: "validate_state H (cstate_json s) = Inr t \<Longrightarrow> state_tidy s \<Longrightarrow> carries_on H s t"
  by (rule held_carries [OF validated_held]) (simp_all add: validate_state_keeps)

lemma authority_carries:
  assumes "refresh_authority_usage H at n s = Inr t" and "state_tidy s"
  shows "carries_on H s t" and "cycles_left t \<le> cycles_left s"
proof -
  have "carries_on H s t \<and> cycles_left t \<le> cycles_left s"
  proof (cases "t = s")
    case True
    then show ?thesis using held_carries [OF held_refl [OF assms(2)]] by simp
  next
    case False
    with assms(1) have none: "cs_pending s = None" and less: "us_agent_actions (cs_usage s) \<le> n"
      and e: "evolve H at (\<lambda>c. c\<lparr>cs_usage := (cs_usage s)\<lparr>us_agent_actions := n\<rparr>\<rparr>) s = Inr t"
      by (auto simp: refresh_authority_usage_def split: if_splits)
    have moved: "moves s t" "state_tidy t"
      by (rule evolve_moves [OF e assms(2)]; use less in \<open>simp add: moves_def copied_def accepted_keys_def bounded_def\<close>)+
    obtain c g where c: "copied s c" "state_tidy c" "state_tidy t" and g: "validate_state H (cstate_json g) = Inr t"
      "\<exists>u h. g = (c\<lparr>cs_usage := (cs_usage s)\<lparr>us_agent_actions := n\<rparr>\<rparr>)\<lparr>cs_updated_at := u, cs_version := cs_version c + 1, cs_sha256 := h\<rparr>"
      by (rule evolve_ok [OF e assms(2)])
    then have g': "cs_status g = cs_status s" "cs_pending g = None" using none by (auto simp: copied_def)
    have "cs_status t = cs_status s" "cs_pending t = None"
      using validate_state_keeps(1,13) [OF g(1)] g' by simp_all
    moreover have "cycles_left t \<le> cycles_left s" using moved(1) by (auto simp: moves_def cycles_left_def)
    ultimately show ?thesis using moved none by (simp add: carries_on_def)
  qed
  then show "carries_on H s t" "cycles_left t \<le> cycles_left s" by simp_all
qed

lemma continue_ended:
  assumes "continue_session fuel H ad at s w = Some (Inr (t, a), w')" and "cs_status s \<in> {Cs_stopped, Cs_quarantined}"
  shows "validate_state H (cstate_json s) = Inr t"
proof -
  from assms(1) obtain n c where n: "fuel = Suc n" and c: "validate_state H (cstate_json s) = Inr c"
    and run: "continue_step H ad at (continue_session n H ad at) c w = Some (Inr (t, a), w')"
    by (cases fuel) (auto simp: bindW_yields pureW_yields)
  from assms(2) validate_state_keeps(1) [OF c] have "cs_status c \<in> {Cs_stopped, Cs_quarantined}" by simp
  with run have "t = c" unfolding continue_step_def by (simp only: if_True pureW_yields bindE_eq_Inr) auto
  with c show ?thesis by simp
qed

lemma continue_carries:
  assumes "continue_session fuel H ad at s w = Some (Inr (t, a), w')" and "state_tidy s"
  shows "carries_on H s t" and "drives s t"
proof -
  have "ensures (continue_session fuel H ad at s) (\<lambda>(t, a). safe H s t)"
    using continue_sound [of H fuel ad at, unfolded sound_call_def] assms(2) by blast
  from ensuresD [OF this assms(1)] have "safe H s t" by simp
  then have t: "drives s t" "\<forall>a. hex_digests H \<longrightarrow> cs_pending s = Some a \<longrightarrow> ca_actor a = By_agent \<longrightarrow> effect_kept a s t"
    by (simp_all add: safe_def)
  show "drives s t" by (rule t(1))
  have "cs_status t = Cs_quarantined \<and> cs_pending t = None" if "cs_status s = Cs_quarantined" "cs_pending s = None"
    using validated_held [OF continue_ended [OF assms(1)] assms(2)] validate_state_keeps(1) [OF continue_ended [OF assms(1)]] that
    by (simp add: held_def)
  with t show "carries_on H s t" by (auto simp: carries_on_def drives_def)
qed

lemma evolve_repended:
  assumes "evolve H at f s = Inr t" and "state_tidy s" and "only_flags f" and "\<And>c. cs_pending (f c) = cs_pending s"
  shows "held s t"
proof -
  have "rel_option same_effect (cs_pending s) (cs_pending t)"
    by (rule evolve_pending [OF assms(1,2,4)]) (use assms(2) in \<open>simp add: state_tidy_def\<close>)
  then show ?thesis by (simp add: held_def flags_drive [OF assms(1-3)])
qed

lemma liveness_choice:
  "(if a then (if b then x else y) else if c then z else if d then u else x) = r \<Longrightarrow> x = r \<or> y = r \<or> z = r \<or> u = r"
  by (simp split: if_split_asm)

lemma liveness_held:
  assumes "refresh_liveness H at live s = Inr t" and "state_tidy s"
  shows "held s t"
proof -
  consider "t = s" | "evolve H at (\<lambda>c. c\<lparr>cs_host_live := True\<rparr>) s = Inr t"
    | st r where "evolve H at (\<lambda>c. c\<lparr>cs_status := st, cs_host_live := True, cs_pending := cs_pending s, cs_stop_reason := r\<rparr>) s = Inr t"
    | "evolve H at (\<lambda>c. c\<lparr>cs_host_live := False, cs_stop_reason := Some ''host_session_not_live''\<rparr>) s = Inr t"
    using liveness_choice [OF assms(1) [unfolded refresh_liveness_def Let_def]] by blast
  then show ?thesis
    by cases (auto simp: only_flags_def held_refl assms(2) intro: evolve_held [OF _ assms(2)] evolve_repended [OF _ assms(2)])
qed

lemma stop_held:
  assumes "stop_continuation H at r s = Inr t" and "state_tidy s"
  shows "held s t"
proof -
  from assms(1) obtain c where c: "validate_state H (cstate_json s) = Inr c"
    and e: "evolve H at (\<lambda>x. x\<lparr>cs_status := Cs_stopped, cs_host_live := False, cs_pending := cs_pending c, cs_stop_reason := Some r\<rparr>) c = Inr t"
    by (auto simp: stop_continuation_def bindE_eq_Inr)
  show ?thesis
    by (rule held_trans [OF validated_held [OF c assms(2)] evolve_repended [OF e validate_state_tidy [OF c]]])
      (simp_all add: only_flags_def)
qed

subsection \<open>Files\<close>

text \<open>What the file holds after a write, for a file that held the state \<open>s\<close>\<close>

lemma written:
  assumes "write_state H file t expected = Inr file'" and "load_state H file = Inr s" and "load_state H file' = Inr u"
    and "state_tidy t"
  shows "u = s \<or> carries_on H t u"
proof -
  obtain v where v: "file = Some v" "validate_state H v = Inr s"
    using assms(2) by (auto simp: load_state_def split: option.splits)
  from assms(1) obtain c where c: "validate_state H (cstate_json t) = Inr c"
    and "file' = file \<or> file' = Some (cstate_json c)"
    by (auto simp: write_state_def v bindE_eq_Inr split: option.splits if_split_asm)
  then consider "file' = file" | "validate_state H (cstate_json c) = Inr u" using assms(3) by (auto simp: load_state_def)
  then show ?thesis
  proof cases
    case 1
    with assms(2,3) show ?thesis by simp
  next
    case 2
    then show ?thesis
      using carries_on_trans [OF validated_carries [OF c assms(4)] validated_carries [OF 2 validate_state_tidy [OF c]]] by simp
  qed
qed

lemma loaded_tidy: "load_state H file = Inr s \<Longrightarrow> state_tidy s"
  by (auto simp: load_state_def validate_state_tidy split: option.splits)

text \<open>From the state of a file to that of the next one\<close>

definition passes :: "(string \<Rightarrow> string) \<Rightarrow> cstate \<Rightarrow> cstate \<Rightarrow> bool" where
  "passes H s t \<longleftrightarrow> state_tidy t \<and> moves s t \<and>
     (\<forall>a. hex_digests H \<longrightarrow> cs_pending s = Some a \<longrightarrow> ca_actor a = By_agent \<longrightarrow> effect_kept a s t)"

lemma held_passes: "held s t \<Longrightarrow> passes H s t"
  using held_kept [of s t] by (auto simp: passes_def held_def drives_def)

lemma passes_carries: "passes H s t \<Longrightarrow> carries_on H t u \<Longrightarrow> passes H s u"
  using kept_carries [of _ s t H u] moves_trans [of s t u] by (auto simp: passes_def carries_on_def)

lemma held_then_carries: "held s t \<Longrightarrow> carries_on H t u \<Longrightarrow> passes H s u"
  by (rule passes_carries [OF held_passes])

lemma written_passes:
  assumes "write_state H file t expected = Inr file'" and "load_state H file = Inr s" and "load_state H file' = Inr u"
    and "passes H s t"
  shows "passes H s u"
  using written [OF assms(1-3)] assms(4) passes_carries [OF assms(4)] held_passes [OF held_refl [OF loaded_tidy [OF assms(2)]]]
  by (auto simp: passes_def)

inductive command_step ::
  "(string \<Rightarrow> string) \<Rightarrow> 'w adapter \<Rightarrow> state_file \<times> 'w \<Rightarrow> state_file \<times> 'w \<Rightarrow> bool"
  for H ad where
  ss_continue: "continue_command fuel H ad at live n file w = Some (Inr (file', a), w') \<Longrightarrow> command_step H ad (file, w) (file', w')"
| ss_accept: "accept_command fuel H ad at live n i result file w = Some (Inr (file', a), w') \<Longrightarrow> command_step H ad (file, w) (file', w')"
| ss_recover: "recover_command H ad at live file w = Some (Inr (file', outcome), w') \<Longrightarrow> command_step H ad (file, w) (file', w')"
| ss_stop: "stop_command H at file = Inr file' \<Longrightarrow> command_step H ad (file, w) (file', w)"
| ss_world: "command_step H ad (file, w) (file, w')"

inductive_cases command_stepE: "command_step H ad (file, w) (file', w')"

lemma continue_passes:
  assumes "continue_command fuel H ad at live n file w = Some (Inr (file', a), w')"
    and "load_state H file = Inr s" and "load_state H file' = Inr u"
  shows "passes H s u"
proof -
  from assms(1,2) obtain s1 s2 t b v v' where s1: "refresh_liveness H at b s = Inr s1"
    and s2: "refresh_authority_usage H at n s1 = Inr s2" and t: "continue_session fuel H ad at s2 v = Some (Inr (t, a), v')"
    and written: "write_state H file t (Some (cs_sha256 s)) = Inr file'"
    by (auto simp: continue_command_def bindW_yields pureW_yields split: prod.splits)
  note h = liveness_held [OF s1 loaded_tidy [OF assms(2)]]
  note c = authority_carries(1) [OF s2 tidy_after(1) [OF h]]
  have "state_tidy s2" using c by (simp add: carries_on_def)
  then have "carries_on H s2 t" by (rule continue_carries(1) [OF t])
  then show ?thesis
    by (rule written_passes [OF written assms(2,3) held_then_carries [OF h carries_on_trans [OF c]]])
qed

lemma accept_passes:
  assumes "accept_command fuel H ad at live n i result file w = Some (Inr (file', a), w')"
    and "load_state H file = Inr s" and "load_state H file' = Inr u"
  shows "passes H s u"
proof (cases "map_of (cs_accepted s) i")
  case (Some prior)
  with assms(1,2) have "file' = file" by (auto simp: accept_command_def bindW_yields pureW_yields split: if_split_asm)
  with assms(2,3) show ?thesis using held_passes [OF held_refl [OF loaded_tidy [OF assms(2)]]] by simp
next
  case None
  note tidy = loaded_tidy [OF assms(2)]
  obtain p where p: "cs_pending s = Some p"
    using assms(1,2) None by (cases "cs_pending s") (auto simp: accept_command_def bindW_yields pureW_yields split: if_split_asm)
  from assms(1,2) None p obtain t b v v' where acc: "accept_pending fuel H ad at n p result s v = Some (Inr (t, b), v')"
    and written: "write_state H file t (Some (cs_sha256 s)) = Inr file'"
    by (auto simp: accept_command_def bindW_yields pureW_yields bindE_eq_Inr split: if_split_asm)
  from acc obtain s1 outcome s2 x where s1: "accept_action H ad at s (action_json p) result v = Some (Inr (s1, outcome), x)"
    and s2: "refresh_authority_usage H at n s1 = Inr s2" and t: "continue_session fuel H ad at s2 x = Some (Inr (t, b), v')"
    by (auto simp: accept_pending_def bindW_yields pureW_yields)
  have kept: "passes H s s1"
    using accept_drives [OF s1 tidy] accept_kept [OF s1 tidy] p by (simp add: passes_def drives_def)
  note c = authority_carries(1) [OF s2 tidy_after(2) [OF accept_drives [OF s1 tidy]]]
  have "state_tidy s2" using c by (simp add: carries_on_def)
  then have "carries_on H s1 t" by (rule carries_on_trans [OF c continue_carries(1) [OF t]])
  then show ?thesis by (rule written_passes [OF written assms(2,3) passes_carries [OF kept]])
qed

lemma recover_passes:
  assumes "recover_command H ad at live file w = Some (Inr (file', outcome), w')"
    and "load_state H file = Inr s" and "load_state H file' = Inr u"
  shows "passes H s u"
proof -
  note tidy = loaded_tidy [OF assms(2)]
  from assms(1,2) obtain t v v' o' where t: "recover_session H ad at s v = Some (Inr (t, o'), v')"
    and written: "write_state H file t (Some (cs_sha256 s)) = Inr file'"
    by (auto simp: recover_command_def bindW_yields pureW_yields split: if_split_asm prod.splits)
  have "passes H s t" using recover_kept(1,2) [OF t tidy] by (simp add: passes_def drives_def)
  then show ?thesis by (rule written_passes [OF written assms(2,3)])
qed

lemma stop_passes:
  assumes "stop_command H at file = Inr file'" and "load_state H file = Inr s" and "load_state H file' = Inr u"
  shows "passes H s u"
proof -
  from assms(1,2) obtain t where t: "stop_continuation H at ''user_stop'' s = Inr t"
    and written: "write_state H file t (Some (cs_sha256 s)) = Inr file'"
    by (auto simp: stop_command_def bindE_eq_Inr)
  show ?thesis
    by (rule written_passes [OF written assms(2,3) held_passes [OF stop_held [OF t loaded_tidy [OF assms(2)]]]])
qed

lemma step_passes:
  assumes "command_step H ad (file, w) (file', w')" and "load_state H file = Inr s" and "load_state H file' = Inr u"
  shows "passes H s u"
proof (rule command_stepE [OF assms(1)])
  assume "file' = file"
  with assms(2,3) show ?thesis using held_passes [OF held_refl [OF loaded_tidy [OF assms(2)]]] by simp
qed (erule continue_passes [OF _ assms(2,3)] accept_passes [OF _ assms(2,3)] recover_passes [OF _ assms(2,3)]
  stop_passes [OF _ assms(2,3)])+

subsection \<open>Sequences of commands\<close>

lemma step_loads:
  assumes "command_step H ad (file, w) (file', w')" and "load_state H file' = Inr u"
  obtains s where "load_state H file = Inr s"
  using assms(1)
  by (rule command_stepE)
    (use assms(2) that in \<open>auto simp: continue_command_def accept_command_def recover_command_def stop_command_def
      bindW_yields pureW_yields bindE_eq_Inr\<close>)

lemma reached_moves:
  assumes "(command_step H ad)\<^sup>*\<^sup>* x y" and "load_state H (fst x) = Inr s" and "load_state H (fst y) = Inr u"
  shows "moves s u"
  using assms(1,3)
proof (induction arbitrary: u rule: rtranclp_induct)
  case base
  with assms(2) show ?case by simp
next
  case (step y z)
  obtain f w f' w' where yz: "y = (f, w)" "z = (f', w')" by (cases y, cases z)
  from step_loads [of H ad f w f' w' u] step(2,4) obtain v where v: "load_state H f = Inr v" by (auto simp: yz)
  have "passes H v u" using step_passes [of H ad f w f' w'] step(2,4) v by (simp add: yz)
  moreover have "moves s v" using step.IH v by (simp add: yz)
  ultimately show ?case by (auto simp: passes_def intro: moves_trans)
qed

lemma started_bounded:
  assumes "start_command H lease lb requested cycle at None = Inr file" and "load_state H file = Inr s"
    and "validate_session_lease H lease = Inr l"
  shows "bounded s" and "us_cycles (cs_usage s) = int (length (cs_cycle_ids s))" and "cs_budgets s = ls_budgets l"
proof -
  from assms(1,3) obtain s0 where s0: "build_state H (sb_session_id (ls_binding l)) (binding_json lb) (ls_goal_id l) (ls_task_family l)
      (fst cycle) (snd cycle) at (ls_budgets l) = Inr s0"
    and w: "write_state H None s0 None = Inr file"
    by (auto simp: start_command_def start_continuation_def bindE_eq_Inr split: if_split_asm)
  from s0 obtain sid lb' goal family cid task t where s: "seal H \<lparr>cs_session_id = sid, cs_lease_binding = lb', cs_goal_id = goal,
       cs_task_family = family, cs_cycle_ids = [cid], cs_active_cycle_id = cid, cs_active_task_id = task, cs_status = Cs_active,
       cs_host_live = True, cs_closure_only = False, cs_budgets = ls_budgets l,
       cs_usage = \<lparr>us_cycles = 1, us_agent_actions = 0, us_active_long_runs = [], us_commits_by_cycle = []\<rparr>,
       cs_pending = None, cs_accepted = [], cs_stop_reason = None, cs_created_at = t, cs_updated_at = t,
       cs_version = 1, cs_sha256 = []\<rparr> = Inr s0" and b: "budgets_field (budgets_json (ls_budgets l)) = Inr (ls_budgets l)"
    unfolding build_state_def result_simps by (metis budgets_keeps)
  note k = validate_state_keeps [OF seal_ok(2) [OF s]]
  have "bounded s0 \<and> us_cycles (cs_usage s0) = int (length (cs_cycle_ids s0)) \<and> cs_budgets s0 = ls_budgets l"
    using k(4) c_usage_keeps(1,3,4) [OF k(15)] mapE_opaque [OF k(12)] budgets_field_ok [OF b]
    by (simp add: bounded_def capped_def budgets_normal_def)
  moreover obtain c where c: "validate_state H (cstate_json s0) = Inr c" "file = Some (cstate_json c)"
    using w by (auto simp: write_state_def bindE_eq_Inr split: if_split_asm)
  have "carries_on H s0 s"
    using carries_on_trans [OF validated_carries [OF c(1) seal_ok(1) [OF s]] validated_carries [OF _ validate_state_tidy [OF c(1)]]] assms(2)
    by (simp add: c(2) load_state_def)
  then have "moves s0 s" by (simp add: carries_on_def)
  ultimately show "bounded s" "us_cycles (cs_usage s) = int (length (cs_cycle_ids s))" "cs_budgets s = ls_budgets l"
    by (simp_all add: moves_def)
qed

lemma continue_command_returns:
  assumes "load_state H file = Inr s" and "cycles_left s + 1 < fuel"
  shows "returns (continue_command fuel H ad at live n file)"
proof -
  note tidy = loaded_tidy [OF assms(1)]
  have "returns (continue_session fuel H ad at s2)"
    if "refresh_liveness H at b s = Inr s1" "refresh_authority_usage H at n s1 = Inr s2" for b s1 s2
  proof -
    note h = liveness_held [OF that(1) tidy]
    note c = authority_carries [OF that(2) tidy_after(1) [OF h]]
    have "state_tidy s2" using c(1) by (simp add: carries_on_def)
    then show ?thesis
      by (rule continue_returns) (use c(2) drives_left [OF held_drives [OF h]] assms(2) in simp)
  qed
  then show ?thesis
    by (auto simp: continue_command_def assms(1) intro!: returns_bind_pure returns_bind_run split: prod.split)
qed

lemma accept_command_returns:
  assumes "load_state H file = Inr s" and "cycles_left s + 1 < fuel"
  shows "returns (accept_command fuel H ad at live n i result file)"
proof -
  note tidy = loaded_tidy [OF assms(1)]
  have "returns (continue_session fuel H ad at s2)"
    if "accept_action H ad at s act result w = Some (Inr (s1, outcome), w')" "refresh_authority_usage H at n s1 = Inr s2"
    for act w w' outcome s1 s2
  proof -
    note d = accept_drives [OF that(1) tidy]
    note c = authority_carries [OF that(2) tidy_after(2) [OF d]]
    have "state_tidy s2" using c(1) by (simp add: carries_on_def)
    then show ?thesis by (rule continue_returns) (use c(2) drives_left [OF d] assms(2) in simp)
  qed
  then have "returns (accept_pending fuel H ad at n p result s)" for p
    by (auto simp: accept_pending_def intro!: returns_bind_pure returns_bind_run [OF accept_returns] split: prod.split)
  then show ?thesis
    by (auto simp: accept_command_def assms(1) split: option.split prod.split intro!: returns_bind_pure returns_bind_any)
qed

lemma lost_liveness:
  assumes "refresh_liveness H at False s = Inr t" and "state_tidy s"
  shows "cs_status t = cs_status s \<and> \<not> cs_host_live t \<and> state_tidy t"
proof (cases "t = s \<and> \<not> cs_host_live s")
  case True
  then show ?thesis using assms(2) by simp
next
  case False
  with assms(1) have e: "evolve H at (\<lambda>c. c\<lparr>cs_host_live := False, cs_stop_reason := Some ''host_session_not_live''\<rparr>) s = Inr t"
    by (auto simp: refresh_liveness_def Let_def split: if_split_asm)
  show ?thesis
    by (rule evolve_ok [OF e assms(2)]) (auto dest: validate_state_keeps(1,2) simp: copied_def)
qed

lemma regained_liveness:
  assumes "refresh_liveness H at True s = Inr t" and "state_tidy s" and "\<not> cs_host_live s" and "cs_status s \<noteq> Cs_host_boundary"
  shows "cs_status t = (if pending_actor s \<in> {Some By_user, Some By_external} then Cs_waiting else Cs_active)"
proof -
  define b where "b \<longleftrightarrow> pending_actor s \<in> {Some By_user, Some By_external}"
  have "evolve H at (\<lambda>c. c\<lparr>cs_status := (if b then Cs_waiting else Cs_active), cs_host_live := True,
      cs_pending := cs_pending s, cs_stop_reason := (if b then Option.bind (cs_pending s) ca_reason else None)\<rparr>) s = Inr t"
    using assms(1,3,4) by (simp add: refresh_liveness_def Let_def b_def)
  then have "cs_status t = (if b then Cs_waiting else Cs_active)" by (rule evolve_status [OF _ assms(2)]) simp
  then show ?thesis by (simp add: b_def)
qed

end
