(* ===== verification/Session_Scenario.thy ===== *)
theory Session_Scenario
  imports Session_Store Scenario
begin

text \<open>A concrete session: it is started in an empty registry, takes part of its budgets and is stopped.\<close>

definition hash0 :: "string \<Rightarrow> string" where
  "hash0 s = sha_a"

definition activation0 :: activation where
  "activation0 =
    \<lparr>ac_activation_id = ''act'', ac_workspace_identity = ''ws'', ac_mode = ''workspace'', ac_max_risk = ''R3'',
     ac_operation_groups = JList [JStr ''edit''], ac_final_goal_sha256 = sha_a, ac_goal_contract_sha256 = sha_a,
     ac_policy_sha256 = sha_a, ac_manifest_bindings = JNull, ac_expires_at = utc_text (day 20),
     ac_max_total_uses = 10, ac_max_concurrent_long_runs = 1\<rparr>"

definition identity0 :: session_identity where
  "identity0 = \<lparr>si_workspace_identity = ''ws'', si_provider = ''codex'', si_thread_binding_sha256 = sha_a,
     si_activation_evidence_id = ''act'', si_trust_class = ''platform_host_receipt'', si_approval_receipt_sha256 = sha_a\<rparr>"

definition sid0 :: string where
  "sid0 = ''session-'' @ replicate 32 (CHR ''a'')"

definition binding0 :: session_binding where
  "binding0 = \<lparr>sb_session_id = sid0, sb_identity = identity0,
     sb_session_ref = ''.task/authorization/sessions/'' @ sid0 @ ''/session-lease.json''\<rparr>"

definition goal0 :: string where "goal0 = ''goal-'' @ replicate 24 (CHR ''a'')"
definition family0 :: string where "family0 = ''goal-family-'' @ replicate 24 (CHR ''a'')"

definition body0 :: lease where
  "body0 = \<lparr>ls_binding = binding0, ls_goal_id = goal0, ls_task_family = family0, ls_activation_mode = ''workspace'',
     ls_risk_ceiling = R2, ls_operations = [''edit''], ls_goal_digest = sha_a, ls_policy_digest = sha_a,
     ls_manifest_digest = sha_a, ls_issued_at = day 2, ls_expires_at = Some (day 20),
     ls_budgets = \<lparr>bg_max_cycles = 3, bg_max_agent_actions = 10, bg_max_concurrent_long_runs = 1, bg_max_commits_per_cycle = 1\<rparr>,
     ls_lifecycle = \<lparr>lc_status = Session_live, lc_host_receipt_live = True, lc_stopped_at = None, lc_last_seen_at = day 2\<rparr>,
     ls_usage = \<lparr>us_cycles = 0, us_agent_actions = 0, us_active_long_runs = [], us_commits_by_cycle = []\<rparr>,
     ls_lease_id = [], ls_state_sha256 = []\<rparr>"

definition lease0 :: lease where
  "lease0 = body0\<lparr>ls_lease_id := derived_lease_id hash0 body0, ls_state_sha256 := derived_state hash0 body0\<rparr>"

lemma hash0_hex: "hex_digests hash0"
proof -
  have "is_sha sha_a" by code_simp
  then show ?thesis by (simp add: hex_digests_def hash0_def)
qed

lemma day_utc: "1 \<le> n \<Longrightarrow> n \<le> 31 \<Longrightarrow> is_utc (day n)"
  by (simp add: is_utc_def valid_datetime_def day_def days_in_month_def)

lemma opaque0:
  "is_opaque ''ws''" "is_opaque ''codex''" "is_opaque ''act''" "is_opaque sid0" "is_opaque sha_a" "is_opaque ''edit''"
  "is_opaque goal0" "is_opaque family0"
  by code_simp+

lemma binding0_built: "bind_identity hash0 identity0 = Inr binding0"
proof -
  have "derived_session_id hash0 identity0 = sid0"
    by (simp add: derived_session_id_def object_sha256_def hash0_def sid0_def sha_a_def)
  then show ?thesis by (simp add: bind_identity_def session_ref_def opaque0 binding0_def)
qed

lemma binding0_normal: "binding_normal hash0 binding0"
  using session_sha_hex [OF hash0_hex]
  by (intro identity_normal [OF binding0_built]) (simp_all add: identity0_def TRUST_CLASSES_def opaque0 hash0_def)

lemma body0_normal: "lease_body_normal hash0 body0"
  using binding0_normal
  by (simp add: lease_body_normal_def body0_def ACTIVATION_MODES_def opaques_normal_def FORBIDDEN_OPERATIONS_def opaque0
      day_utc budgets_normal_def lifecycle_normal_def usage_normal_def commits_normal_def)

lemma lease0_normal: "lease_normal hash0 lease0"
  unfolding lease0_def by (rule sealed_normal [OF body0_normal])

lemma lease0_built:
  "build_session_lease hash0 (session_binding_json binding0) (fst (goal_identifiers hash0 activation0))
     (snd (goal_identifiers hash0 activation0)) (ac_mode activation0) (ac_max_risk activation0)
     (ac_operation_groups activation0) (ac_final_goal_sha256 activation0) (ac_policy_sha256 activation0)
     (object_sha256 hash0 (ac_manifest_bindings activation0)) (utc_text (day 2)) (JStr (ac_expires_at activation0))
     (session_budgets activation0) = Inr lease0"
proof -
  have "take 24 sha_a = replicate 24 (CHR ''a'')" "sha_a \<noteq> ''absent''" by code_simp+
  then have goals: "goal_identifiers hash0 activation0 = (goal0, family0)"
    by (simp add: goal_identifiers_def hash0_def activation0_def goal0_def family0_def Let_def)
  have budgets: "budgets_field (session_budgets activation0) = Inr (ls_budgets body0)" "truthy (session_budgets activation0)"
    by (simp_all add: session_budgets_def activation0_def DEFAULT_BUDGETS_def budgets_field_again budgets_normal_def body0_def)
       (simp add: budgets_json_def)
  have ops: "unique_opaques [JStr ''edit''] = Inr [''edit'']" by code_simp
  have md: "object_sha256 hash0 JNull = sha_a" by (simp add: object_sha256_def hash0_def)
  have times: "utc_time (JStr (utc_text (day 2))) = Inr (day 2)" "nullable_utc (JStr (utc_text (day 20))) = Inr (Some (day 20))"
    by (simp_all add: utc_time_text day_utc nullable_utc_def)
  have v: "validate_session_binding hash0 (session_binding_json binding0) = Inr binding0"
    using binding0_normal by (simp add: binding_normal_def)
  have again: "validate_session_lease hash0 (lease_json lease0) = Inr lease0" by (rule validate_lease_again [OF lease0_normal])
  have body: "\<lparr>ls_binding = binding0, ls_goal_id = goal0, ls_task_family = family0, ls_activation_mode = ''workspace'',
     ls_risk_ceiling = R2, ls_operations = [''edit''], ls_goal_digest = sha_a, ls_policy_digest = sha_a,
     ls_manifest_digest = sha_a, ls_issued_at = day 2, ls_expires_at = Some (day 20), ls_budgets = ls_budgets body0,
     ls_lifecycle = \<lparr>lc_status = Session_live, lc_host_receipt_live = True, lc_stopped_at = None, lc_last_seen_at = day 2\<rparr>,
     ls_usage = \<lparr>us_cycles = 0, us_agent_actions = 0, us_active_long_runs = [], us_commits_by_cycle = []\<rparr>,
     ls_lease_id = [], ls_state_sha256 = []\<rparr> = body0"
    by (simp add: body0_def)
  have lease: "\<lparr>ls_binding = binding0, ls_goal_id = goal0, ls_task_family = family0, ls_activation_mode = ''workspace'',
     ls_risk_ceiling = R2, ls_operations = [''edit''], ls_goal_digest = sha_a, ls_policy_digest = sha_a,
     ls_manifest_digest = sha_a, ls_issued_at = day 2, ls_expires_at = Some (day 20), ls_budgets = ls_budgets body0,
     ls_lifecycle = \<lparr>lc_status = Session_live, lc_host_receipt_live = True, lc_stopped_at = None, lc_last_seen_at = day 2\<rparr>,
     ls_usage = \<lparr>us_cycles = 0, us_agent_actions = 0, us_active_long_runs = [], us_commits_by_cycle = []\<rparr>,
     ls_lease_id = derived_lease_id hash0 body0, ls_state_sha256 = derived_state hash0 body0\<rparr> = lease0"
    unfolding lease0_def by (subst (3) body0_def) (simp add: body0_def)
  have fields: "ac_mode activation0 = ''workspace''" "ac_max_risk activation0 = ''R3''"
    "ac_operation_groups activation0 = JList [JStr ''edit'']" "ac_final_goal_sha256 activation0 = sha_a"
    "ac_policy_sha256 activation0 = sha_a" "ac_manifest_bindings activation0 = JNull"
    "ac_expires_at activation0 = utc_text (day 20)"
    by (simp_all add: activation0_def)
  show ?thesis
    unfolding build_session_lease_def goals fields
    by (simp add: v times ops budgets again md opaque0 ACTIVATION_MODES_def RISK_TIERS_def iter_items_def
        FORBIDDEN_OPERATIONS_def Let_def body lease)
qed

definition registry0 :: registry where
  "registry0 = [(sid0, Se_doc (Some (lease_json lease0)))]"

lemma lease0_fields: "ls_binding lease0 = binding0" "sb_session_id binding0 = sid0" "sb_identity binding0 = identity0"
  "ls_budgets lease0 = ls_budgets body0" "ls_usage lease0 = ls_usage body0" "ls_lifecycle lease0 = ls_lifecycle body0"
  "is_live lease0"
  by (simp_all add: lease0_def body0_def binding0_def is_live_def)

lemma start0:
  "start_session hash0 [] activation0 ''thread'' ''codex'' ''receipt'' (utc_text (day 2)) ''platform_host_receipt'' =
     Inr (lease0, registry0)"
proof -
  have b: "build_session_binding hash0 (ac_workspace_identity activation0) ''codex'' ''thread'' (ac_activation_id activation0)
      ''platform_host_receipt'' ''receipt'' None = Inr binding0"
    using binding0_built
    by (simp add: build_session_binding_def activation0_def opaque0 TRUST_CLASSES_def digest_secret_def hash0_def identity0_def)
  have "write_session_lease hash0 [] (lease_json lease0) None = Inr registry0"
    by (simp add: write_session_lease_def validate_lease_again [OF lease0_normal] registry0_def lease0_fields)
  then show ?thesis
    by (simp add: start_session_def matching_session_leases_def scope_rows_def reusable_scope_lease_def b lease0_built)
qed

lemma registry0_reached: "(registry_step hash0)\<^sup>*\<^sup>* [] registry0"
  by (rule r_into_rtranclp, rule registry_step.started [OF _ _ start0]) (simp_all add: activation0_def opaque0)

lemma lease0_registered: "registered_lease hash0 registry0 lease0"
  by (simp add: registered_lease_def lease0_normal registry0_def lease0_fields)

definition stopped0 :: lease where
  "stopped0 = restated hash0 (lease0\<lparr>ls_lifecycle := \<lparr>lc_status = Session_stopped, lc_host_receipt_live = False,
     lc_stopped_at = Some (day 5), lc_last_seen_at = day 5\<rparr>\<rparr>)"

definition registry1 :: registry where
  "registry1 = [(sid0, Se_doc (Some (lease_json stopped0)))]"

lemma stopped0_facts: "update_liveness hash0 (lease_json lease0) (utc_text (day 5)) False True = Inr stopped0"
  "lease_normal hash0 stopped0" "ls_binding stopped0 = binding0" "\<not> is_live stopped0" "stopped0 \<noteq> lease0"
proof -
  show u: "update_liveness hash0 (lease_json lease0) (utc_text (day 5)) False True = Inr stopped0"
    by (subst update_liveness_result [OF lease0_normal]) (simp_all add: stopped0_def utc_time_text day_utc)
  show "lease_normal hash0 stopped0" using session_step_keeps [OF session_step.observed [OF u] lease0_normal] by blast
  show "ls_binding stopped0 = binding0" by (simp add: stopped0_def restated_def lease0_fields)
  show dead: "\<not> is_live stopped0" by (simp add: stopped0_def restated_def is_live_def)
  show "stopped0 \<noteq> lease0" using dead lease0_fields(7) by auto
qed

lemma stop0: "stop_matching_session hash0 registry0 ''thread'' (utc_text (day 5)) = Inr (stopped0, registry1)"
proof -
  have "matching_session_leases hash0 registry0 (Some ''thread'') = Inr [(sid0, lease0)]"
    by (simp add: matching_session_leases_def registry0_def lease_row_entry [OF lease0_normal] lease0_fields identity0_def
        thread_digest_def hash0_def)
  moreover have "write_session_lease hash0 registry0 (lease_json stopped0) (Some (ls_state_sha256 lease0)) = Inr registry1"
    using stopped0_facts(5) by (simp add: write_session_lease_def validate_lease_again [OF stopped0_facts(2)]
        validate_lease_again [OF lease0_normal] stopped0_facts registry0_def registry1_def lease0_fields)
  ultimately show ?thesis by (simp add: stop_matching_session_def lease0_fields stopped0_facts(1))
qed

lemma registry1_reached: "(registry_step hash0)\<^sup>*\<^sup>* [] registry1"
  using registry0_reached registry_step.stopped [OF stop0] by (rule rtranclp.rtrancl_into_rtrancl)

lemma stopped0_registered: "registered_lease hash0 registry1 stopped0"
  by (simp add: registered_lease_def stopped0_facts registry1_def lease0_fields)

definition used0 :: lease where
  "used0 = restated hash0 (lease0\<lparr>ls_usage := (ls_usage lease0)\<lparr>us_cycles := 1\<rparr>\<rparr>)"

lemma used0_step: "(session_step hash0)\<^sup>*\<^sup>* lease0 used0"
proof (rule r_into_rtranclp, rule session_step.consumed)
  show "consume_budget hash0 (lease_json lease0) ''cycle'' JNull = Inr used0"
    unfolding consume_budget_result [OF lease0_normal] by (simp add: charge_def lease0_fields body0_def used0_def)
qed

lemma dispatch0:
  "assert_dispatch_allowed hash0 (lease_json used0) (utc_text (day 3)) sha_a sha_a sha_a ''edit'' ''R1'' = Inr used0"
proof -
  have n: "lease_normal hash0 used0" using session_run_keeps [OF used0_step lease0_normal] by blast
  show ?thesis
    by (simp add: assert_dispatch_allowed_def validate_lease_again [OF n] utc_time_text day_utc opaque0 RISK_TIERS_def)
       (simp add: used0_def restated_def lease0_def body0_def instant_day not_le)
qed

end
