(* ===== verification/Continuation_Scenario.thy ===== *)
theory Continuation_Scenario
  imports Continuation_Session Session_Scenario
begin

text \<open>
  Normal states read back to themselves; with them a concrete session is driven: it is started, an agent
  action is queued, and it is stopped; a second one is in quarantine.
\<close>

subsection \<open>Normal states read back\<close>

definition state_normal :: "(string \<Rightarrow> string) \<Rightarrow> cstate \<Rightarrow> bool" where
  "state_normal H s \<longleftrightarrow>
     state_tidy s \<and> closed_binding (binding_json (cs_lease_binding s)) = Inr (cs_lease_binding s) \<and>
     budgets_normal (cs_budgets s) \<and> is_utc (cs_created_at s) \<and> is_utc (cs_updated_at s) \<and>
     (\<forall>a. cs_pending s = Some a \<longrightarrow> validate_action H (action_json a) = Inr a) \<and>
     cs_sha256 s = derived_cstate_sha H (s\<lparr>cs_sha256 := []\<rparr>)"

lemma c_usage_again: "usage_normal u \<Longrightarrow> c_usage_field (usage_json u) = Inr u"
  using mapE_opaque_again [of "us_active_long_runs u"] commit_items_again [of "us_commits_by_cycle u" "[]"]
  by (simp add: c_usage_field_def usage_json_def usage_normal_def opaques_normal_def commits_normal_def same_keys_map
      USAGE_FIELDS_def iter_items_def counter_item_def sorted_sort_id sort_key_id_if_sorted)

lemma validate_state_again:
  assumes "state_normal H s"
  shows "validate_state H (cstate_json s) = Inr s"
proof -
  from assms have tidy: "state_tidy s" and sha: "derived_cstate_sha H (s\<lparr>cs_sha256 := []\<rparr>) = cs_sha256 s"
    by (simp_all add: state_normal_def)
  have list: "mapE opaque (map JStr (cs_cycle_ids s)) = Inr (cs_cycle_ids s)" "cs_cycle_ids s \<noteq> []" "is_opaque (cs_active_cycle_id s)"
    using tidy by (auto simp: state_tidy_def list_all_iff intro!: mapE_opaque_again)
  have pending: "nullable (validate_action H) (case cs_pending s of None \<Rightarrow> JNull | Some a \<Rightarrow> action_json a) = Inr (cs_pending s)"
    using assms by (cases "cs_pending s") (simp_all add: state_normal_def nullable_def action_json_not_null)
  have reason: "nullable opaque (opt_str (cs_stop_reason s)) = Inr (cs_stop_reason s)"
    using tidy by (cases "cs_stop_reason s") (simp_all add: nullable_def opt_str_def state_tidy_def)
  have acc: "accepted_items (map (\<lambda>(k, v). (k, JStr v)) (cs_accepted s)) [] = Inr (cs_accepted s)"
    "sort_key fst (cs_accepted s) = cs_accepted s"
    using tidy accepted_items_again [of "cs_accepted s" "[]"] by (simp_all add: state_tidy_def sort_key_id_if_sorted)
  have same: "\<lparr>cs_session_id = cs_session_id s, cs_lease_binding = cs_lease_binding s, cs_goal_id = cs_goal_id s,
      cs_task_family = cs_task_family s, cs_cycle_ids = cs_cycle_ids s, cs_active_cycle_id = cs_active_cycle_id s,
      cs_active_task_id = cs_active_task_id s, cs_status = cs_status s, cs_host_live = cs_host_live s,
      cs_closure_only = cs_closure_only s, cs_budgets = cs_budgets s, cs_usage = cs_usage s, cs_pending = cs_pending s,
      cs_accepted = cs_accepted s, cs_stop_reason = cs_stop_reason s, cs_created_at = cs_created_at s,
      cs_updated_at = cs_updated_at s, cs_version = cs_version s, cs_sha256 = []\<rparr> = s\<lparr>cs_sha256 := []\<rparr>"
    by simp
  show ?thesis
    using assms tidy list pending reason acc sha
    unfolding validate_state_def cstate_json_def cstate_core_def
    by (simp add: state_normal_def state_tidy_def same_keys_map STATE_FIELDS_def equals_int_def bool_item_def iter_items_def
        positive_version_def budgets_field_again c_usage_again utc_time_text insert_commute Let_def same)
qed

lemma derived_sha_only [simp]: "derived_cstate_sha H (s\<lparr>cs_sha256 := h\<rparr>) = derived_cstate_sha H s"
  by (simp add: derived_cstate_sha_def cstate_core_def)

lemma evolve_normal:
  assumes "state_normal H s" and "utc_time (JStr at) = Inr u"
    and "t = (f s)\<lparr>cs_updated_at := u, cs_version := cs_version s + 1\<rparr>" and "state_normal H (t\<lparr>cs_sha256 := derived_cstate_sha H t\<rparr>)"
  shows "evolve H at f s = Inr (t\<lparr>cs_sha256 := derived_cstate_sha H t\<rparr>)"
  using assms(2) validate_state_again [OF assms(1)] validate_state_again [OF assms(4)] unfolding assms(3)
  by (simp add: evolve_def seal_def)

subsection \<open>A session\<close>

definition lease_binding0 :: binding where
  "lease_binding0 = \<lparr>b_ref = ''.task/lease.json'', b_sha256 = sha_a\<rparr>"

definition state0 :: cstate where
  "state0 = \<lparr>cs_session_id = sid0, cs_lease_binding = lease_binding0, cs_goal_id = goal0, cs_task_family = family0,
     cs_cycle_ids = [''cycle-1''], cs_active_cycle_id = ''cycle-1'', cs_active_task_id = ''task-1'', cs_status = Cs_active,
     cs_host_live = True, cs_closure_only = False, cs_budgets = ls_budgets body0,
     cs_usage = \<lparr>us_cycles = 1, us_agent_actions = 0, us_active_long_runs = [], us_commits_by_cycle = []\<rparr>,
     cs_pending = None, cs_accepted = [], cs_stop_reason = None, cs_created_at = day 2, cs_updated_at = day 2,
     cs_version = 1, cs_sha256 = sha_a\<rparr>"

definition prep0 :: obj where
  "prep0 = [(''target'', JStr ''derive''), (''executor_kind'', JStr ''hybrid''),
     (''executor_spec'', JObj [(''owner_id'', JStr ''derive-task''), (''side_effect_class'', JStr ''workspace_metadata_write'')])]"

definition result0 :: obj where
  "result0 = [(''status'', JStr ''waiting''), (''preparation'', JObj prep0),
     (''preparation_publication'', JObj [(''preparation_ref'', JStr ''prep.json''), (''preparation_sha256'', JStr sha_a)])]"

definition adapter0 :: "unit adapter" where
  "adapter0 = \<lparr>ad_advance = (\<lambda>cycle closure w. (Inr result0, w)), ad_accept = (\<lambda>a r w. (Inr [(''status'', JStr ''accepted'')], w)),
     ad_recover = (\<lambda>a w. (Inr [(''status'', JStr ''not_dispatched'')], w)), ad_successor = (\<lambda>c w. (Inr None, w)),
     ad_classify = None\<rparr>"

definition action0 :: action where
  "action0 = \<lparr>ca_actor = By_agent, ca_kind = Run_hybrid, ca_session_id = sid0, ca_cycle_id = ''cycle-1'', ca_task_id = ''task-1'',
     ca_target = ''derive'', ca_owner_skill = Some ''derive-task'',
     ca_preparation_binding = Some \<lparr>b_ref = ''prep.json'', b_sha256 = sha_a\<rparr>, ca_work_order_binding = None, ca_routing = [],
     ca_token = \<lparr>at_state_version = 1, at_state_sha256 = sha_a\<rparr>, ca_effect_class = Local_reversible, ca_result_contract = [],
     ca_reason = Some ''owner_boundary'', ca_action_id = ''action-'' @ take 32 sha_a\<rparr>"

definition state1 :: cstate where
  "state1 = state0\<lparr>cs_status := Cs_waiting, cs_pending := Some action0, cs_stop_reason := Some ''owner_boundary'',
     cs_usage := (cs_usage state0)\<lparr>us_agent_actions := 1\<rparr>, cs_updated_at := day 3, cs_version := 2\<rparr>"

definition state2 :: cstate where
  "state2 = state1\<lparr>cs_status := Cs_stopped, cs_host_live := False, cs_stop_reason := Some ''user_stop'',
     cs_updated_at := day 4, cs_version := 3\<rparr>"

lemma opaque1: "is_opaque ''cycle-1''" "is_opaque ''task-1''" "is_opaque ''derive''" "is_opaque ''derive-task''"
  "is_opaque ''owner_boundary''" "is_opaque ''user_stop''"
  by code_simp+

lemma bindings_again: "closed_binding (binding_json lease_binding0) = Inr lease_binding0"
  "closed_binding (binding_json \<lparr>b_ref = ''prep.json'', b_sha256 = sha_a\<rparr>) = Inr \<lparr>b_ref = ''prep.json'', b_sha256 = sha_a\<rparr>"
  by code_simp+

lemma sha0: "object_sha256 hash0 v = sha_a" "derived_cstate_sha hash0 s = sha_a" "derived_action_id hash0 a = ''action-'' @ take 32 sha_a"
  by (simp_all add: object_sha256_def hash0_def derived_cstate_sha_def derived_action_id_def)

lemma state0_normal: "state_normal hash0 state0"
  by (simp add: state_normal_def state_tidy_def state0_def sha0 opaque0 opaque1 bindings_again day_utc body0_def budgets_normal_def
      usage_normal_def opaques_normal_def commits_normal_def)

lemma action0_again: "validate_action hash0 (action_json action0) = Inr action0"
proof -
  have "session_sha (JStr sha_a) = Inr sha_a" using session_sha_hex [OF hash0_hex] by (simp add: hash0_def)
  then show ?thesis using bindings_again(2) unfolding action0_def
    by (simp add: validate_action_def action_json_def action_core_def normalize_action_def same_keys_map ACTION_FIELDS_def
        action_allowed_def nullable_def opt_str_def opt_binding_json_def opaque0 opaque1 closed_object_def token_json_def
        positive_version_def sha0 insert_commute binding_json_def)
qed

lemma state1_normal: "state_normal hash0 state1" and state2_normal: "state_normal hash0 state2"
  using state0_normal action0_again validate_action_ok [OF action0_again]
  by (simp_all add: state_normal_def state_tidy_def state2_def state1_def sha0 opaque1 day_utc usage_normal_def)

lemmas read0 = validate_state_again [OF state0_normal] validate_state_again [OF state1_normal] validate_state_again [OF state2_normal]

definition file0 :: state_file where "file0 = Some (cstate_json state0)"
definition file1 :: state_file where "file1 = Some (cstate_json state1)"
definition file2 :: state_file where "file2 = Some (cstate_json state2)"

lemma load0: "load_state hash0 file0 = Inr state0" "load_state hash0 file1 = Inr state1" "load_state hash0 file2 = Inr state2"
  by (simp_all add: load_state_def file0_def file1_def file2_def read0)

lemma py_equal_version: "py_equal (cstate_json s) (cstate_json t) \<Longrightarrow> cs_version s = cs_version t"
  by (simp add: cstate_json_def cstate_core_def)

lemma write_changed:
  assumes "load_state H file = Inr c" and "validate_state H (cstate_json t) = Inr t" and "cs_version c \<noteq> cs_version t"
  shows "write_state H file t (Some (cs_sha256 c)) = Inr (Some (cstate_json t))"
  using assms py_equal_version [of c t] by (auto simp: write_state_def load_state_def split: option.splits)

lemma versions0: "cs_version state0 = 1" "cs_version state1 = 2" "cs_version state2 = 3"
  by (simp_all add: state2_def state1_def state0_def)

lemma file0_started: "start_command hash0 (lease_json lease0) lease_binding0 None (''cycle-1'', ''task-1'') (utc_text (day 2)) None = Inr file0"
proof -
  have sealed: "seal hash0 (state0\<lparr>cs_sha256 := []\<rparr>) = Inr state0"
    using read0(1) by (simp add: seal_def sha0) (simp add: state0_def)
  have "build_state hash0 sid0 (binding_json lease_binding0) goal0 family0 ''cycle-1'' ''task-1'' (utc_text (day 2)) (ls_budgets body0) = Inr state0"
    using sealed by (simp add: build_state_def opaque0 opaque1 bindings_again utc_time_text day_utc budgets_field_again budgets_normal_def body0_def state0_def)
  moreover have "ls_goal_id lease0 = goal0" "ls_task_family lease0 = family0" "lc_status (ls_lifecycle lease0) = Session_live"
    by (simp_all add: lease0_def body0_def)
  ultimately show ?thesis
    by (simp add: start_command_def start_continuation_def validate_lease_again [OF lease0_normal] lease0_fields write_state_def
        read0 file0_def)
qed

lemma state0_fields: "cs_host_live state0" "cs_status state0 = Cs_active" "cs_pending state0 = None" "\<not> cs_closure_only state0"
  "us_agent_actions (cs_usage state0) = 0" "bg_max_agent_actions (cs_budgets state0) = 10"
  by (simp_all add: state0_def body0_def)

lemma result0_fields: "jat result0 ''status'' = JStr ''waiting''" "jat result0 ''preparation'' = JObj prep0"
  "jat result0 ''stop_reason'' = JNull" "result0 \<noteq> []"
  by (simp_all add: result0_def)

lemma advance0: "advance_session hash0 adapter0 (utc_text (day 3)) again state0 None None () = Some (Inr (state1, action0), ())"
proof -
  have eff: "effect_class prep0 False = Local_reversible" by code_simp
  have owner: "owner_action hash0 (site_of state0) result0 Local_reversible = Inr action0"
  proof -
    have sha: "session_sha (JStr sha_a) = Inr sha_a" using session_sha_hex [OF hash0_hex] by (simp add: hash0_def)
    have "truthy (JObj prep0)" by (simp add: prep0_def)
    show ?thesis using sha bindings_again(2) action0_again
      by (simp add: owner_action_def result0_def prep0_def preparation_kind_def)
        (simp add: build_action_def raw_action_def normalize_action_def
          action_allowed_def nullable_def opaque0 opaque1 closed_object_def token_json_def dict_or_empty_def routing_profile_def
          positive_version_def sha0 same_keys_map site_of_def continuation_token_def state0_def insert_commute binding_json_def action0_def)
  qed
  have e: "evolve hash0 (utc_text (day 3)) (\<lambda>c. await_action action0 ''owner_boundary'' (count_action state0 c)) state0 = Inr state1"
    using evolve_normal [OF state0_normal, of "utc_text (day 3)" "day 3" "state1" "\<lambda>c. await_action action0 ''owner_boundary'' (count_action state0 c)"]
      state1_normal
    by (simp add: utc_time_text day_utc sha0) (simp add: state1_def state0_def await_action_def count_action_def)
  have offered: "offer_preparation hash0 (utc_text (day 3)) state0 result0 prep0 Local_reversible = Inr (state1, action0)"
    using owner e by (simp add: offer_preparation_def queue_agent_action_def state0_fields result0_fields str_or_def)
  show ?thesis
    by (simp add: advance_session_def dispatch_advance_def resolve_effect_class_def state0_fields result0_fields adapter0_def
        callW_def bindW_def pureW_def eff offered)
qed

lemma continue0: "continue_session (Suc n) hash0 adapter0 (utc_text (day 3)) state0 () = Some (Inr (state1, action0), ())"
  by (simp add: bindW_def pureW_def read0 continue_step_def drive_from_def recheck_pending_boundary_def state0_fields advance0)

lemma command0: "continue_command (Suc n) hash0 adapter0 (utc_text (day 3)) (Inr True) 0 file0 () = Some (Inr (file1, action0), ())"
proof -
  have "write_state hash0 file0 state1 (Some (cs_sha256 state0)) = Inr file1"
    unfolding file1_def by (rule write_changed [OF load0(1) read0(2)]) (simp add: versions0)
  moreover have "refresh_liveness hash0 (utc_text (day 3)) True state0 = Inr state0"
    "refresh_authority_usage hash0 (utc_text (day 3)) 0 state0 = Inr state0"
    by (simp_all add: refresh_liveness_def refresh_authority_usage_def state0_fields)
  ultimately show ?thesis by (simp add: continue_command_def bindW_def pureW_def load0 continue0 del: continue_session.simps)
qed

lemma file1_stopped: "stop_command hash0 (utc_text (day 4)) file1 = Inr file2"
proof -
  have "stop_continuation hash0 (utc_text (day 4)) ''user_stop'' state1 = Inr state2"
    using evolve_normal [OF state1_normal, of "utc_text (day 4)" "day 4" state2 "\<lambda>c. c\<lparr>cs_status := Cs_stopped, cs_host_live := False,
       cs_pending := cs_pending state1, cs_stop_reason := Some ''user_stop''\<rparr>"] state2_normal
    by (simp add: stop_continuation_def read0 utc_time_text day_utc sha0) (simp add: state2_def state1_def state0_def)
  moreover have "write_state hash0 file1 state2 (Some (cs_sha256 state1)) = Inr file2"
    unfolding file2_def by (rule write_changed [OF load0(2) read0(3)]) (simp add: versions0)
  ultimately show ?thesis by (simp add: stop_command_def load0)
qed

lemma steps0: "command_step hash0 adapter0 (file0, ()) (file1, ())" "command_step hash0 adapter0 (file1, ()) (file2, ())"
  by (rule ss_continue [OF command0], rule ss_stop [OF file1_stopped])

text \<open>A session with an accepted action is stopped\<close>

definition state3 :: cstate where
  "state3 = state0\<lparr>cs_accepted := [(''action-1'', sha_a)]\<rparr>"

definition state4 :: cstate where
  "state4 = state3\<lparr>cs_status := Cs_stopped, cs_host_live := False, cs_stop_reason := Some ''user_stop'',
     cs_updated_at := day 3, cs_version := 2\<rparr>"

definition file3 :: state_file where "file3 = Some (cstate_json state3)"
definition file4 :: state_file where "file4 = Some (cstate_json state4)"

lemma state3_normal: "state_normal hash0 state3" and state4_normal: "state_normal hash0 state4"
proof -
  have "is_opaque ''action-1''" "is_sha sha_a" by code_simp+
  then show "state_normal hash0 state3" "state_normal hash0 state4"
    using state0_normal by (simp_all add: state_normal_def state_tidy_def state4_def state3_def sha0 opaque1 day_utc)
qed

lemma load3: "load_state hash0 file3 = Inr state3" "load_state hash0 file4 = Inr state4"
  by (simp_all add: load_state_def file3_def file4_def validate_state_again [OF state3_normal] validate_state_again [OF state4_normal])

lemma fields3: "cs_accepted state3 = [(''action-1'', sha_a)]" "cs_version state3 = 1" "cs_version state4 = 2" "cs_pending state4 = None"
  "cs_accepted state4 = [(''action-1'', sha_a)]"
  by (simp_all add: state4_def state3_def state0_def)

lemma step3: "command_step hash0 adapter0 (file3, ()) (file4, ())"
proof (rule ss_stop)
  have "stop_continuation hash0 (utc_text (day 3)) ''user_stop'' state3 = Inr state4"
    using evolve_normal [OF state3_normal, of "utc_text (day 3)" "day 3" state4 "\<lambda>c. c\<lparr>cs_status := Cs_stopped, cs_host_live := False,
       cs_pending := cs_pending state3, cs_stop_reason := Some ''user_stop''\<rparr>"] state4_normal
    by (simp add: stop_continuation_def validate_state_again [OF state3_normal] utc_time_text day_utc sha0)
      (simp add: state4_def state3_def state0_def)
  moreover have "write_state hash0 file3 state4 (Some (cs_sha256 state3)) = Inr file4"
    unfolding file4_def by (rule write_changed [OF load3(1) validate_state_again [OF state4_normal]]) (simp add: fields3)
  ultimately show "stop_command hash0 (utc_text (day 3)) file3 = Inr file4" by (simp add: stop_command_def load3)
qed

text \<open>A quarantined session is continued without its host, then with it\<close>

definition state5 :: cstate where
  "state5 = state0\<lparr>cs_status := Cs_quarantined, cs_stop_reason := Some ''unknown_effect''\<rparr>"

definition state6 :: cstate where
  "state6 = state5\<lparr>cs_host_live := False, cs_stop_reason := Some ''host_session_not_live'', cs_updated_at := day 3, cs_version := 2\<rparr>"

definition state7 :: cstate where
  "state7 = state6\<lparr>cs_status := Cs_active, cs_host_live := True, cs_stop_reason := None, cs_updated_at := day 4, cs_version := 3\<rparr>"

lemma normal5: "state_normal hash0 state5" "state_normal hash0 state6" "state_normal hash0 state7"
proof -
  have "is_opaque ''unknown_effect''" "is_opaque ''host_session_not_live''" by code_simp+
  then show "state_normal hash0 state5" "state_normal hash0 state6" "state_normal hash0 state7"
    using state0_normal by (simp_all add: state_normal_def state_tidy_def state7_def state6_def state5_def sha0 day_utc)
qed

lemma fields5: "cs_status state5 = Cs_quarantined" "cs_host_live state5" "cs_pending state5 = None"
  "cs_status state6 = Cs_quarantined" "\<not> cs_host_live state6" "cs_pending state6 = None"
  "cs_stop_reason state6 = Some ''host_session_not_live''" "cs_status state7 = Cs_active"
  by (simp_all add: state7_def state6_def state5_def state0_def)

lemma liveness5: "refresh_liveness hash0 (utc_text (day 3)) False state5 = Inr state6"
  "refresh_liveness hash0 (utc_text (day 4)) True state6 = Inr state7"
proof -
  have "evolve hash0 (utc_text (day 3)) (\<lambda>c. c\<lparr>cs_host_live := False, cs_stop_reason := Some ''host_session_not_live''\<rparr>) state5 = Inr state6"
    using evolve_normal [OF normal5(1), of "utc_text (day 3)" "day 3" state6 "\<lambda>c. c\<lparr>cs_host_live := False, cs_stop_reason := Some ''host_session_not_live''\<rparr>"] normal5(2)
    by (simp add: utc_time_text day_utc sha0) (simp add: state6_def state5_def state0_def)
  moreover have "evolve hash0 (utc_text (day 4)) (\<lambda>c. c\<lparr>cs_status := Cs_active, cs_host_live := True, cs_pending := None, cs_stop_reason := None\<rparr>) state6 = Inr state7"
    using evolve_normal [OF normal5(2), of "utc_text (day 4)" "day 4" state7 "\<lambda>c. c\<lparr>cs_status := Cs_active, cs_host_live := True, cs_pending := None, cs_stop_reason := None\<rparr>"] normal5(3)
    by (simp add: utc_time_text day_utc sha0) (simp add: state7_def state6_def state5_def state0_def)
  ultimately show "refresh_liveness hash0 (utc_text (day 3)) False state5 = Inr state6"
    "refresh_liveness hash0 (utc_text (day 4)) True state6 = Inr state7"
    by (simp_all add: refresh_liveness_def pending_actor_def fields5)
qed

lemma ended5: "\<exists>a. continue_session 2 hash0 adapter0 (utc_text (day 3)) state6 () = Some (Inr (state6, a), ())"
proof -
  have opaque: "is_opaque ''cycle''" "is_opaque ''host_session_not_live''" by code_simp+
  have sha: "session_sha (JStr sha_a) = Inr sha_a" using session_sha_hex [OF hash0_hex] by (simp add: hash0_def)
  have "\<exists>a. complete_action hash0 (site_of state6) ''host_session_not_live'' = Inr a"
    using sha
    by (simp add: complete_action_def build_action_def raw_action_def normalize_action_def validate_action_def action_json_def
        action_core_def same_keys_map ACTION_FIELDS_def action_allowed_def nullable_def opt_str_def opaque opaque0 opaque1 closed_object_def
        token_json_def positive_version_def sha0 site_of_def continuation_token_def state6_def state5_def state0_def insert_commute)
  then show ?thesis
    by (auto simp: numeral_2_eq_2 bindW_def pureW_def validate_state_again [OF normal5(2)] continue_step_def fields5 text_or_def)
qed

end
