(* ===== verification/Spec2Isabelle.thy ===== *)
theory Spec2Isabelle
  imports Source_Scenario Lease_Scenario Composition Continuation_Scenario
begin

text \<open>
  \<^bold>\<open>The authority core of the workflow skills.\<close>

  The repository is a collection of skills for a coding agent. What an agent may do is decided by one
  of them, \<^verbatim>\<open>src/manage-agent-authority\<close>, and the others ask it before they change anything. This
  development models that skill, the package
  \<^verbatim>\<open>src/manage-agent-authority/scripts/manage_agent_authority\<close> (the file names below are relative to
  it), and proves the properties that make it trustworthy. It also models the driver that keeps an agent
  working within such an authority, the session continuation of the task-cycle skill
  (\<^verbatim>\<open>src/orchestrate-task-cycle/scripts/orchestrate_task_cycle/continuation\<close>).

  \<^bold>\<open>The program.\<close> A skill declares its operations in a manifest (\<^verbatim>\<open>operations.py\<close>). An agent submits
  a request (\<^verbatim>\<open>contracts.py\<close>) with an evaluation context (\<^verbatim>\<open>evaluation_context.py\<close>); the evaluator
  (\<^verbatim>\<open>evaluator.py\<close>, \<^verbatim>\<open>composition.py\<close>, \<^verbatim>\<open>grant_diagnostics.py\<close>) answers from the grants of the store
  (\<^verbatim>\<open>artifact_store.py\<close>), and the answer is published as a decision artifact
  (\<^verbatim>\<open>decision_integrity.py\<close>, \<^verbatim>\<open>decision_publication.py\<close>). An allowed decision is reserved
  (\<^verbatim>\<open>lifecycle.py\<close>), which holds units of the selected grants; the reservation is verified, the
  operation runs, and its result settles the reservation: consumed, released, or quarantined and
  later reconciled (\<^verbatim>\<open>settlement_lifecycle.py\<close>, \<^verbatim>\<open>reconciliation.py\<close>, \<^verbatim>\<open>execution_results.py\<close>).
  Grants come from source approvals of users, the platform or stewards
  (\<^verbatim>\<open>source_approval_contract.py\<close>, \<^verbatim>\<open>source_authorization_validation.py\<close>), are delegated to lower ranks,
  and are suspended, reactivated, expired or revoked by transitions. A session lease narrows a signed
  activation to one thread of the host (\<^verbatim>\<open>session_binding.py\<close>, \<^verbatim>\<open>session_lease.py\<close>,
  \<^verbatim>\<open>session_registry.py\<close>, \<^verbatim>\<open>session_store.py\<close>). Every operation publishes an
  immutable intent with the exact states before and after before it touches a state file, and every
  operation first completes the intents of operations that were cut short
  (\<^verbatim>\<open>projection_recovery.py\<close>, with the validators \<^verbatim>\<open>projection_reservations.py\<close>,
  \<^verbatim>\<open>projection_receipts.py\<close>, \<^verbatim>\<open>projection_reconciliation.py\<close>, \<^verbatim>\<open>projection_transitions.py\<close>).
  Under a session lease the task-cycle skill drives a session from one action to the next: it asks the
  workflow to advance, queues the next action for the agent, the user, the host or an external actor,
  accepts the result of the pending action once, recovers it when the host was lost, and accounts for
  cycles, actions, long runs and commits (\<^verbatim>\<open>continuation/service.py\<close>, \<^verbatim>\<open>continuation/state.py\<close>,
  \<^verbatim>\<open>continuation/cli.py\<close>).

  \<^bold>\<open>How it is modelled.\<close> A function of the code is a HOL function in the error monad \<open>res\<close>: an
  exception is a value, and a message is reduced to the check that failed. The normalized dictionary
  of a contract is a record; JSON, Python's \<^verbatim>\<open>str\<close> and truth values, and time stamps are modelled
  as the code uses them. The files below \<^verbatim>\<open>.task/authorization\<close> are the record \<open>ws\<close>: immutable
  documents by file name, and the mutable state files as the map \<open>st_proj\<close>. An operation that
  writes returns the workspace it leaves, also when it fails. What the package reads from outside is
  the record \<open>env\<close> (files with their digests, the skills directory, the hash) and the record \<open>owner\<close>
  (the validators of other skills).

  \<^item> \<open>Prelude\<close>, \<open>Python_Value\<close>, \<open>Datetime\<close>, \<open>Canonical\<close>: the monad, the values, time stamps,
    \<^verbatim>\<open>canonical.py\<close>. The locale \<open>normalizer\<close> is the contract of a validator whose output validates to
    itself.
  \<^item> \<open>Request_Contract\<close>, \<open>Grant_Contract\<close>, \<open>Operations\<close>, \<open>Eval_Context\<close>: the closed contracts and
    their normal forms (interpretations of \<open>normalizer\<close>).
  \<^item> \<open>Source_Approval\<close>, \<open>Source_Validation\<close>: approvals of schema versions 2 to 6, the lineage of a
    delegated approval, the checks of a root grant and of a transition. The approvals are a second
    instance of the locale \<open>lineage_order\<close>.
  \<^item> \<open>Grant_Store\<close>, \<open>Descendants\<close>: loading, listing, delegation, registration, ancestors and
    descendants; the invariant \<open>wf_store\<close>; the locale \<open>lineage_order\<close> with its interpretation by
    \<open>attenuates\<close>.
  \<^item> \<open>Evaluator\<close>, \<open>Decision\<close>: coverage, compositions, diagnostics, the verdict and the artifact.
  \<^item> \<open>Recovery\<close>: the write-ahead protocol on its own, over states of any type: lawful histories,
    the states a crash can leave, and that recovery finishes them whatever the order of the files.
  \<^item> \<open>Reservation\<close>, \<open>Workspace\<close>, \<open>Execution_Results\<close>, \<open>Intents\<close>, \<open>Lifecycle\<close>: the artifacts, the
    validation of every intent, and the operations of the lifecycle.
  \<^item> \<open>Ledger\<close>, \<open>Runs\<close>, \<open>Reach\<close>, \<open>Acceptance\<close>: runs of the whole workspace. \<open>arises\<close> are the workspaces
    that operations reach from the empty one, where an operation may also stop between any two writes
    of state files. The locale \<open>booked\<close> is what an operation must do to its intents; it is interpreted
    for reserving, consuming, releasing, reconciling and transitioning. From it follow that every
    reachable workspace is a lawful history of \<open>Recovery\<close> and that the abstract account of a grant
    (units held, units spent) is refined.
  \<^item> \<open>Effect_Lease\<close>: the lease that an owner holds while its effect happens (\<^verbatim>\<open>effect_lease.py\<close>).
  \<^item> \<open>Composition\<close>: the creation of the composition receipts that the evaluator reads.
  \<^item> \<open>Provenance\<close>: runs whose registrations check source approvals; every grant of such a run traces
    back to an approval.
  \<^item> \<open>Utc_Time\<close>, \<open>Session_Lease\<close>, \<open>Session_Store\<close>: the lease of a session with its budgets and its
    lifecycle, and the registry that gives a scope one lease. A lease is a further instance of
    \<open>normalizer\<close>; \<open>session_step\<close> and \<open>registry_step\<close> are the runs of a lease and of the registry.
  \<^item> \<open>Continuation_Action\<close>, \<open>Continuation_State\<close>: the closed contracts of an action and of the state of a
    continued session, the effect classes of stages, the usage accounting. \<open>copied\<close> is what validation
    keeps of a state, \<open>moves\<close> how a state may change.
  \<^item> \<open>Continuation_Service\<close>, \<open>Continuation_Command\<close>: the driver as programs over a world of which nothing is
    assumed (they may not return, may raise, and keep the world they leave), the workflow as the record
    \<open>adapter\<close>, and the commands on the state file.
  \<^item> \<open>Continuation_Safety\<close>, \<open>Continuation_Return\<close>, \<open>Continuation_Session\<close>: the rules \<open>ensures\<close> and \<open>returns\<close> applied
    to every call of the driver, and \<open>command_step\<close>, the life of a session file.
  \<^item> \<open>Scenario\<close>, \<open>Walkthrough\<close>, \<open>Source_Scenario\<close>, \<open>Session_Scenario\<close>, \<open>Lease_Scenario\<close>,
    \<open>Continuation_Scenario\<close>: concrete workspaces, approvals, sessions and a lease, on which the theorems are
    applied.

  \<^bold>\<open>What is shown here.\<close> C1 to C12: runs of the lifecycle, crashes included (budgets, refinement of
  the account, recovery, finality, idempotence, four ways in which the code stops a workspace or treats
  lineages differently in two places, and the lease of an owner effect). C13 to C16: source approvals.
  C17 and C18: sessions. C19 to C25: the continuation of a session (its lease, effects in flight,
  termination, acceptance, agent actions, and how an ended session is revived). C26 to C32: evaluation
  (soundness, completeness for single grants, least authority, diagnosis, reproducibility). C33 to C36:
  delegation, registration and lineages. C37: the recovery protocol alone. C38 to C40: normal forms,
  canonical bytes and time stamps.

  \<^bold>\<open>Loops and bounds.\<close> The ancestor walk ends because it collects stored grants, the delegation loop
  because ranks go up. The descendant walk of the code has no cycle check; its model runs
  \<open>Suc (length pm)\<close> rounds, one per grant and one for the start, and reports \<open>NoReturn\<close> when they are
  used up; in a well-formed store they never are (C11). The recovery loop ends because each round
  settles an intent or stops. The recursion of \<^verbatim>\<open>continue_session\<close> has fuel; a run without enough does not return,
  and two calls more than the cycles left are enough (C21). Integers are Python's, hence \<open>int\<close>. Where a theorem needs the digest to be
  collision free, it says so as \<open>inj\<close> of the hash.

  \<^bold>\<open>What is not modelled.\<close> Locks and atomic renames: operations run one after the other, a crash falls
  between two writes. Characters above 255 and fractional JSON numbers. The parts that are parameters:
  the receipts of the signed root-grant publication (\<open>env_receipts\<close>) and the eligibility of
  mode-activation children (\<open>env_activation\<close>), the decision behind an approval
  (\<^verbatim>\<open>source_decision_validation.py\<close>, which renders signed plans again), and the validators of the
  owners, which are other processes. Left out: key storage, signing and terminal input
  (\<^verbatim>\<open>root_*.py\<close>), the choice of the activation that a session narrows and the status view of
  sessions, the compilers of requests (\<^verbatim>\<open>operation_*.py\<close>), the
  read-only views for the workflow (\<^verbatim>\<open>workflow_*.py\<close>), and the other skills, which call this one. Of the
  task-cycle skill only the continuation is modelled: the workflow it drives (\<^verbatim>\<open>continuation/stage_adapter.py\<close>
  and the stages) is the record \<open>adapter\<close>, the verdict of \<^verbatim>\<open>verify_live_state_lease\<close> and the count of child
  grants are arguments of the commands, and the choice of the current session is left out.
\<close>

section \<open>Runs\<close>

text \<open>
  C1. Budgets. In every workspace that a run reaches, crashes included, the stored state of every
  grant matches its budget, and the units that reservations hold and have spent at the grant are not
  negative and together never exceed its \<^verbatim>\<open>max_uses\<close>.
\<close>

theorem budget_never_exceeded:
  assumes "arises w" and "grant_of (ws_store w) gid = Some (g, sha)"
  shows "(\<exists>s. state_of (ws_store w) gid = Some s \<and> state_ok g sha s) \<and>
    0 \<le> fst (account w gid) \<and> 0 \<le> snd (account w gid) \<and>
    (\<forall>m. g_max_uses g = Some m \<longrightarrow> fst (account w gid) + snd (account w gid) \<le> m)"
proof -
  obtain p0 h where "ledger w p0 h" using arises_ledger [OF assms(1)] by blast
  then have "wf_store (at_proj (ws_store w) (proj w))" using ledger_wf by simp
  with assms(2) grant_of_stored [OF assms(2)] have "\<exists>s. state_of (ws_store w) gid = Some s \<and> state_ok g sha s"
    by (elim wf_state) (auto simp: state_of_def proj_def)
  with books_within_budget [OF arises_books [OF assms(1)] assms(2)] show ?thesis by (simp add: account_def)
qed

theorem budget_never_exceeded_witness:
  "account ws3 ''solo'' = (1, 0) \<and> fst (account ws3 ''solo'') + snd (account ws3 ''solo'') \<le> 2"
proof
  show "account ws3 ''solo'' = (1, 0)" by (rule ws3_account)
  have "grant_of (ws_store ws3) ''solo'' = Some (solo, sha_a)" by (simp add: ws3_fields solo_grant_of)
  from budget_never_exceeded [OF ws3_arises this]
  show "fst (account ws3 ''solo'') + snd (account ws3 ''solo'') \<le> 2" by (simp add: solo_fields)
qed

text \<open>
  C2. Refinement of the account. Seen from one grant, every step of a run (a complete operation, a
  registration, or an operation cut short by a crash) is a step of the abstract account: nothing,
  holding units within the budget, spending held units, or freeing held units.
\<close>

theorem account_refinement:
  assumes "arises w" and "step w w'" and "grant_of (ws_store w) gid = Some (g, sha)"
  shows "account_step (g_max_uses g) (account w gid) (account w' gid)"
  using assms by (rule account_refines)

theorem account_refinement_witness:
  "account ws6 ''solo'' = (0, 1) \<and> account_step (Some 2) (account ws5 ''solo'') (account ws6 ''solo'')"
proof
  show "account ws6 ''solo'' = (0, 1)" by (rule ws6_account)
  have "grant_of (ws_store ws5) ''solo'' = Some (solo, sha_a)" by (simp add: ws5_fields solo_grant_of)
  from account_refinement [OF _ step.completed [OF completes.consumed [OF solo_consumed]] this]
  show "account_step (Some 2) (account ws5 ''solo'') (account ws6 ''solo'')"
    using arises_ws by (simp add: solo_fields)
qed

text \<open>
  C3. The counters are right. After a recovery the reserved and the consumed uses in the state of a
  grant are exactly the units of its open (reserved or quarantined) and of its consumed reservations.
\<close>

theorem counters_agree:
  assumes "arises w" and "recover E W w = (Inr out, w')" and "state_of (ws_store w') gid = Some s"
  shows "gs_reserved_uses s = weighed open_weight (proj w') (ws_reservations w') gid \<and>
    gs_consumed_uses s = weighed spent_weight (proj w') (ws_reservations w') gid"
proof -
  note w' = arises_recover(1) [OF assms(1,2)]
  with assms(3) have "logical w (Grant_ref gid) = Some (GS s)" by (auto split: option.splits pstate.splits)
  with account_counters [OF assms(1)] w' show ?thesis by (simp add: counters_def account_def)
qed

theorem counters_agree_witness: "weighed open_weight p3 (ws_reservations ws3) ''solo'' = 1"
proof -
  obtain out where rec: "recover env1 owner1 ws3 = (Inr out, ws3)" using ws3_recover by blast
  have "state_of (ws_store ws3) ''solo'' = Some s3" by (simp add: ws3_fields state_of_def p3_at)
  from counters_agree [OF ws3_arises rec this] show ?thesis by (simp add: s3_fields proj_def ws3_fields)
qed

text \<open>
  C4. Crash recovery of the lifecycle. From every workspace that a run reaches, whatever operations
  were cut short, \<^verbatim>\<open>recover\<close> succeeds once the published intents validate; it leaves the state in
  which every published intent is applied, and all intents are settled.
\<close>

theorem runs_recover:
  assumes "arises w" and "validate_intents E W w True = Inr ()"
  shows "\<exists>out. recover E W w = (Inr out, set_proj (logical w) w) \<and>
    validated_settled_intents (intents_of w) (logical w) = Inr (map fst (intents_of w))"
proof -
  obtain p0 h where l: "ledger w p0 h" using arises_ledger [OF assms(1)] by blast
  from crash_recovery [OF ledgerD(1-3) [OF l]] obtain out where
    run: "recover_projection_intents (intents_of w) (proj w) = (Inr out, logical w)"
    unfolding ledger_logical [OF l] by blast
  with assms(2) have "recover E W w = (Inr out, set_proj (logical w) w)" by (simp add: recover_def load_intents_def)
  with recover_settles [OF run] show ?thesis by blast
qed

theorem runs_recover_witness:
  "proj crashed1 (Grant_ref ''solo'') = Some (GS solo_state) \<and>
   (\<exists>out. recover env1 owner1 crashed1 = (Inr out, set_proj (logical crashed1) crashed1))"
  using runs_recover [OF crashed1_arises crashed1_valid] by (auto simp: crashed1_def p1_def)

text \<open>
  C5. Settlement is final: once a reservation is consumed or released, no run changes its state again.
\<close>

theorem settlement_final:
  assumes "arises w" and "step\<^sup>*\<^sup>* w w'" and "logical w (Reservation_ref rid) = Some (RS s)"
    and "rs_status s \<in> {Rs_consumed, Rs_released}"
  shows "logical w' (Reservation_ref rid) = Some (RS s)"
proof -
  from steps_later [OF assms(2,1,3)] obtain v where v: "logical w' (Reservation_ref rid) = Some v" "later (RS s) v" by blast
  with assms(4) show ?thesis by (cases v) auto
qed

theorem settlement_final_witness:
  "logical ws6 (Reservation_ref (id1 ''authz-'')) =
     Some (RS (settled_rstate (id1 ''authu-'') Rs_consumed (reserved_rstate (id1 ''authz-''))))"
  by (rule settlement_final [OF arises_ws(3) rtranclp.rtrancl_refl]) (simp_all add: logical_ws p6_def settled_rstate_def)

text \<open>
  C6. States never roll back: along every run a state is replaced only by a later one. Versions never
  fall, a reservation never returns to \<^verbatim>\<open>reserved\<close>, and a revoked, expired or exhausted grant never
  becomes active or suspended again.
\<close>

theorem states_never_roll_back:
  assumes "arises w" and "step\<^sup>*\<^sup>* w w'" and "logical w r = Some v"
  shows "\<exists>v'. logical w' r = Some v' \<and> later v v'"
  using assms(2,1,3) by (rule steps_later)

theorem states_never_roll_back_witness:
  "\<exists>v'. logical ws4 (Grant_ref ''solo'') = Some v' \<and> later (GS s3) v'"
proof (rule states_never_roll_back [OF ws3_arises r_into_rtranclp [of step, OF ws4_step]])
  show "logical ws3 (Grant_ref ''solo'') = Some (GS s3)" by (simp add: logical_ws p3_at)
qed

text \<open>
  What \<^verbatim>\<open>reserve\<close> publishes is accepted: the reservation validates in the workspace it leaves, so
  the next recovery does not reject it, provided that the idempotency key is an identifier (which the
  code does not check before publishing) and the stored states have identifiers as last events.
\<close>

theorem reservation_accepted:
  assumes "arises w" and "reserve E W w ref digest at key = (Inr (rv, b, s), w')"
    and "map_of (ws_reservations w) (rv_reservation_id rv) = None"
    and "is_identifier key" and "is_identifier (rv_reservation_id rv)" and "binding_ok (rv_decision rv)"
    and "\<And>gid g sha s. load_grant E (at_proj (ws_store w) (logical w)) gid = Inr (g, sha, s) \<Longrightarrow> event_ok s"
  shows "validate_reservation E w' (rv_reservation_id rv) rv = Inr ()"
proof -
  obtain p0 h where l: "ledger w p0 h" using arises_ledger [OF assms(1)] by blast
  from l assms(2-6) assms(7) [unfolded ledger_logical [OF l]] show ?thesis by (rule published_reservation_accepted)
qed

theorem reservation_accepted_witness: "validate_reservation env1 ws3 (id1 ''authz-'') rv1 = Inr ()"
  using reservation_accepted [OF ws2_arises solo_reserved]
  by (simp add: rv1_fields ws2_fields ids1 bindings1 logical_ws solo_events_ok)

text \<open>
  C7. Reserving is idempotent up to recovery: in every workspace of a run, crashed or not, when
  \<^verbatim>\<open>reserve\<close> has returned a reservation, calling it again with the same decision and key (at whatever
  time it is told) never reserves again and never changes a file. It returns the same reservation,
  binding and state when recovery accepts the workspace that the first call left, and otherwise fails
  with the error of recovery, as C9 shows for a key that is not an identifier. When the first call
  already found the reservation, recovery always accepts, so the same result is returned.
\<close>

theorem reserve_idempotent:
  assumes "arises w" and "reserve E W w ref digest at key = (Inr (rv, b, s), w')"
  shows "reserve E W w' ref digest at' key =
      (case recover E W w' of (Inl e, _) \<Rightarrow> (Inl e, w') | (Inr _, _) \<Rightarrow> (Inr (rv, b, s), w')) \<and>
    (map_of (ws_reservations w) (rv_reservation_id rv) \<noteq> None \<longrightarrow> (\<exists>out. recover E W w' = (Inr out, w')))"
  using reserve_repeated [OF assms] reserve_existing_recovers [OF assms] by blast

theorem reserve_idempotent_witness:
  "reserve env1 owner1 ws3 (b_ref decision_b) sha_a (JStr (isoformat (day 9))) ''key'' =
     (Inr (rv1, reservation_b, reserved_rstate (id1 ''authz-'')), ws3)"
  using reserve_idempotent [OF ws2_arises solo_reserved, of "JStr (isoformat (day 9))"] ws3_recover by auto

text \<open>
  C8. Releasing units of a grant that is not active stops the workspace: \<^verbatim>\<open>_release\<close> publishes a receipt
  that its own validator rejects, so every later recovery, and with it every later operation, fails.
\<close>

theorem inactive_release_stops_workspace:
  assumes "release E W w registered ref digest ne at v key effect_status = (Inr rr, w')"
    and "recover E W w = (Inr out, w1)" and "load_reservation E w1 ref digest = Inr (k, rv, s)"
    and "map_of (ws_release_receipts w1) (rr_receipt_id rr) = None" and "rr_effect_status rr \<noteq> Unknown_effect"
    and "u \<in> set (rv_grant_uses rv)" and "load_grant E (ws_store w1) (gu_grant_id u) = Inr (g, sha, gs)"
    and "gs_status gs \<noteq> Active"
  shows "\<exists>e. recover E' W' w' = (Inl e, w')"
  using assms by (rule inactive_release_stops)

theorem inactive_release_stops_workspace_witness:
  "\<exists>w'. fst (release env1 owner1 ws4 False (b_ref reservation_b) sha_a (file_b ''result.json'') (JStr (isoformat (day 7)))
     0 ''key'' ''verified_no_effect'') = Inr rr1 \<and> (\<exists>e. recover env1 owner1 w' = (Inl e, w'))"
proof -
  obtain w' where run: "release env1 owner1 ws4 False (b_ref reservation_b) sha_a (file_b ''result.json'')
      (JStr (isoformat (day 7))) 0 ''key'' ''verified_no_effect'' = (Inr rr1, w')" using solo_released by blast
  obtain out where rec: "recover env1 owner1 ws4 = (Inr out, ws4)" using ws4_recover by blast
  have "\<exists>e. recover env1 owner1 w' = (Inl e, w')"
  proof (rule inactive_release_stops_workspace [OF run rec ws4_load])
    show "load_grant env1 (ws_store ws4) (gu_grant_id (hd (rv_grant_uses rv1))) = Inr (solo, sha_a, s4)"
      by (simp add: rv1_fields ws4_fields ws4_grant)
  qed (simp_all add: ws4_fields rr1_def rv1_fields s4_fields)
  with run show ?thesis by (intro exI [of _ w']) simp
qed

text \<open>
  C9. A key that is not an identifier stops the workspace: \<^verbatim>\<open>reserve\<close> takes any text as its
  idempotency key, but the validator of its intent does not, so every later recovery fails.
\<close>

theorem bad_key_stops_workspace:
  assumes "arises w" and "reserve E W w ref digest at key = (Inr (rv, b, s), w')"
    and "map_of (ws_reservations w) (rv_reservation_id rv) = None" and "\<not> is_identifier key"
  shows "\<exists>e. recover E' W' w' = (Inl e, w')"
  using assms by (rule bad_key_stops)

theorem bad_key_stops_workspace_witness:
  "\<exists>w' e. snd (reserve env1 owner1 ws2 (b_ref decision_b) sha_a (JStr (isoformat (day 5))) ''a key'') = w' \<and>
     recover env1 owner1 w' = (Inl e, w')"
proof -
  obtain b s w' where run: "reserve env1 owner1 ws2 (b_ref decision_b) sha_a (JStr (isoformat (day 5))) ''a key'' =
      (Inr (rv1\<lparr>rv_idempotency_key := ''a key''\<rparr>, b, s), w')" using solo_reserved_any by blast
  have "\<not> is_identifier ''a key''" by code_simp
  with bad_key_stops_workspace [OF ws2_arises run] run show ?thesis by (simp add: ws2_fields)
qed

text \<open>
  C10. A registration cut between its two writes: a grant document without a state makes listing the
  grants fail and refuses to be registered again, so the workspace stays as it is.
\<close>

theorem incomplete_registration_stays:
  assumes "map_of (st_grants st) gid = Some x" and "state_of st gid = None"
    and "validate_grant raw = Inr g" and "g_grant_id g = gid"
  shows "(\<exists>e. list_grants E st None = Inl e) \<and> (\<exists>e. register_compiled_grant E fd st raw pid = (Inl e, st))"
  using incomplete_pair_stays [OF assms(1,2)] assms(3,4) by blast

theorem incomplete_registration_stays_witness:
  "\<exists>e. register_compiled_grant env1 (file_digest env1) (solo_store Map.empty) (grant_json solo) None =
     (Inl e, solo_store Map.empty)"
  using incomplete_registration_stays [OF _ _ solo_ok solo_fields(1), of "solo_store Map.empty" _ env1 "file_digest env1" None]
  by (simp add: solo_store_def state_of_def)

text \<open>
  C11. Descendants. In a well-formed store the walk of \<^verbatim>\<open>descendant_ids\<close>, which has no cycle check, and
  the checked walk of recovery (\<^verbatim>\<open>_descendants\<close>) both end, without an error and with the same list:
  exactly the transitive children of the grant, each once.
\<close>

theorem descendants_agree:
  assumes "wf_store st" and "distinct (map fst (st_grants st))" and "list_grants E st None = Inr recs"
    and "all_grants st = Inr grants"
  shows "\<exists>ds. descendant_ids E st gid = Inr ds \<and> descendants_checked grants gid = Inr ds \<and> distinct (gid # ds) \<and>
    (\<forall>c. c \<in> set ds \<longleftrightarrow> (gid, c) \<in> (child_links (parent_links st))\<^sup>+)"
proof -
  obtain ds where ds: "descendant_ids E st gid = Inr ds"
    and checked: "\<And>grants. all_grants st = Inr grants \<Longrightarrow> descendants_checked grants gid = Inr ds"
    and dist: "distinct (gid # ds)" and "set ds \<subseteq> fst ` set (st_grants st)"
    and cl: "\<And>c. c \<in> set ds \<longleftrightarrow> (\<exists>p \<in> set (gid # ds). (c, Some p) \<in> set (parent_links st))"
    by (rule descendant_walks [OF assms(1-3), of gid]) (rule that)
  have "c \<in> set ds \<longleftrightarrow> (gid, c) \<in> (child_links (parent_links st))\<^sup>+" for c
    by (rule forest_closure [OF parent_links_forest [OF assms(1,2)]]) (rule cl [unfolded list.set(2)])
  with ds dist checked [OF assms(4)] show ?thesis by blast
qed

theorem descendants_agree_witness:
  "\<exists>ds. descendant_ids the_env the_store ''root'' = Inr ds \<and> ''child'' \<in> set ds"
proof -
  have "all_grants the_store = Inr (map (\<lambda>gid. (gid, fst (the (grant_of the_store gid)))) (grant_ids the_store))"
    by (rule all_grants_wf [OF the_wf])
  from descendants_agree [OF the_wf _ the_list_all this, of "''root''"] obtain ds where
    "descendant_ids the_env the_store ''root'' = Inr ds"
    "\<forall>c. c \<in> set ds \<longleftrightarrow> (''root'', c) \<in> (child_links (parent_links the_store))\<^sup>+" by (auto simp: the_store_def)
  moreover have "(''root'', ''child'') \<in> child_links (parent_links the_store)"
    using the_grant_of by (simp add: child_links_def parent_links_def the_grant_ids child_fields)
  ultimately show ?thesis by blast
qed

text \<open>
  C12. An effect lease is exclusive proof. When \<^verbatim>\<open>acquire_effect_lease\<close> yields in a workspace that a run
  reached, the reservation is stored and reserved in exactly the expected version, its decision allows
  exactly the operation and the subject, the units of its uses are held at their grants, and the lease
  validates. When the check after the effect passes and no operation was cut short, the reservation
  was reserved at every moment in between, unless two states have the same digest.
\<close>

theorem effect_lease_exclusive:
  assumes "arises w"
    and "acquire_effect_lease E W w leases operation subj rb vb n = (Inr (b, rid, x, leases'), w1)"
  shows "\<exists>rv s dk did a. map_of (ws_reservations w1) rid = Some (rv, b_sha256 rb) \<and>
    rstate_of w1 rid = Some s \<and> rs_status s = Rs_reserved \<and> rs_version s = n \<and>
    load_bound_decision E w1 (b_ref (rv_decision rv)) (b_sha256 (rv_decision rv)) = Inr (dk, did, a) \<and>
    da_decision a = Allowed \<and> rq_operation_id (da_request a) = operation \<and> rq_subject (da_request a) = subj \<and>
    (\<forall>u \<in> set (rv_grant_uses rv). gu_units u \<le> fst (account w1 (gu_grant_id u))) \<and>
    validate_effect_lease E leases' b operation subj rb vb = Inr x \<and>
    (\<forall>w' w2. step\<^sup>*\<^sup>* w1 w' \<and> step\<^sup>*\<^sup>* w' w2 \<and> proj w2 = logical w2 \<and> close_effect_lease E w2 rid x = Inr () \<longrightarrow>
      (\<exists>s'. s' \<noteq> s \<and> file_digest E (rstate_json s') = file_digest E (rstate_json s)) \<or>
      status_at (logical w') rid = Some Rs_reserved)"
proof -
  from lease_holds [OF assms] obtain rv s dk did a where
    parts: "map_of (ws_reservations w1) rid = Some (rv, b_sha256 rb)" "at_rest w1"
      "rstate_of w1 rid = Some s" "rs_status s = Rs_reserved" "rs_version s = n"
      "load_bound_decision E w1 (b_ref (rv_decision rv)) (b_sha256 (rv_decision rv)) = Inr (dk, did, a)"
      "da_decision a = Allowed" "rq_operation_id (da_request a) = operation" "rq_subject (da_request a) = subj"
      "\<forall>u \<in> set (rv_grant_uses rv). gu_units u \<le> fst (account w1 (gu_grant_id u))"
      "validate_effect_lease E leases' b operation subj rb vb = Inr x" "file_digest E (rstate_json s) = el_state_sha256 x"
    by metis
  from parts(2) have "arises w1" "proj w1 = logical w1" by (simp_all add: at_rest_def)
  then have "(\<exists>s'. s' \<noteq> s \<and> file_digest E (rstate_json s') = file_digest E (rstate_json s)) \<or>
      status_at (logical w') rid = Some Rs_reserved"
    if "step\<^sup>*\<^sup>* w1 w'" "step\<^sup>*\<^sup>* w' w2" "proj w2 = logical w2" "close_effect_lease E w2 rid x = Inr ()" for w' w2
    using parts(3,4,12) that closed_lease_reserved by blast
  with parts show ?thesis by blast
qed

theorem effect_lease_exclusive_witness:
  "close_effect_lease env1 ws5 (id1 ''authz-'') el1 = Inr () \<and>
   validate_effect_lease env1 [(id1 ''authe-'', id1 ''authe-'', el1, sha_a)] effect_lease_b (rq_operation_id the_request)
     (rq_subject the_request) reservation_b verification_b = Inr el1 \<and>
   (\<exists>rv s. map_of (ws_reservations ws5) (id1 ''authz-'') = Some (rv, sha_a) \<and>
     rstate_of ws5 (id1 ''authz-'') = Some s \<and> rs_status s = Rs_reserved)"
proof -
  have "close_effect_lease env1 ws5 (id1 ''authz-'') el1 = Inr ()"
    by (simp add: close_effect_lease_def rstate_of_def proj_def ws5_fields p3_at el1_def)
  moreover have "b_sha256 reservation_b = sha_a" by (simp add: reservation_b_def)
  moreover have "arises ws5" using ws5_rest by (simp add: at_rest_def)
  ultimately show ?thesis using effect_lease_exclusive [OF _ lease_acquired] by metis
qed

section \<open>Source approvals\<close>

text \<open>
  C13. Authority comes from a source. In every run whose registrations check source approvals, each
  stored grant, at any depth of delegation, is an attenuation of a stored root grant. The file that
  the root names was an accepted approval when it was registered, and that approval traces, through
  approvals that were all in effect when the root was created, to one of a user or of the platform
  which names the root and covers the grant; the exception is an approval of schema version 6, where
  the mode-activation check admitted the root.
\<close>

theorem authority_traces_to_source:
  assumes "governed D M w" and "grant_of (ws_store w) gid = Some (g, sha)"
  shows "\<exists>rid r rsha fs a. grant_of (ws_store w) rid = Some (r, rsha) \<and> g_parent_grant_id r = None \<and> attenuates g r \<and>
    bound_approval fs (g_source_approval r) = Inr a \<and>
    (sa_version a = 6 \<and> M a r = Inr () \<or>
     (\<exists>xs. traces fs (g_created_at r) (a # xs) \<and> sa_source_rank (last (a # xs)) \<in> {S3, S4} \<and>
       names_grant (last (a # xs)) r \<and> covers_grant (last (a # xs)) g))"
proof -
  obtain p0 h where "ledger w p0 h" using arises_ledger [OF governed_arises [OF assms(1)]] by blast
  then have "wf_store (at_proj (ws_store w) (proj w))" using ledger_wf by simp
  from lineage_root [OF this, of gid g sha] assms(2) obtain rid r rsha where
    r: "grant_of (ws_store w) rid = Some (r, rsha)" "g_parent_grant_id r = None" "attenuates g r"
    by (auto simp: grant_of_def at_proj_def)
  with governed_backed [OF assms(1)] have "backed D M r" by (auto simp: all_backed_def)
  then show ?thesis
    using r(3)
  proof (cases rule: backed_source)
    case (approved fs a xs)
    with r traces_last [OF approved(2)] show ?thesis by blast
  next
    case (activated fs a)
    with r show ?thesis by blast
  qed
qed

theorem authority_traces_to_source_witness:
  "\<exists>rid r rsha fs a. grant_of (ws_store ws1) rid = Some (r, rsha) \<and> g_parent_grant_id r = None \<and> attenuates solo r \<and>
    bound_approval fs (g_source_approval r) = Inr a \<and>
    (\<exists>xs. traces fs (g_created_at r) (a # xs) \<and> covers_grant (last (a # xs)) solo)"
proof -
  have "grant_of (ws_store ws1) ''solo'' = Some (solo, sha_a)" by (simp add: ws1_def solo_store_def grant_of_def solo_ok)
  from authority_traces_to_source [OF ws1_governed this] show ?thesis
    unfolding mode0_def sum.distinct simp_thms by blast
qed

text \<open>
  C14. The loop of \<^verbatim>\<open>validate_delegation_lineage\<close> accepts an approval exactly when there is a chain of
  approvals from it: each in effect at the time, each but the last delegated by its bound file from
  the next one, which ranks higher and allows at least as much, with no identifier twice, ending at
  the first one of rank S3 or S4. Its second cycle check, on bindings, never decides the outcome.
\<close>

theorem delegation_lineage_chain:
  "validate_delegation_lineage fs a now = Inr () \<longleftrightarrow> (\<exists>xs. traces fs now (a # xs))"
  by (rule validate_delegation_lineage_iff)

text \<open>
  C15. Transitions are authorized from above. When \<^verbatim>\<open>transition_grants\<close> succeeds, its source approval
  and every approval that it was delegated from are in effect at the time of the transition, hold the
  capability to transition grants, name the grant and its lineage, and rank above the holder of the
  grant; and an approval that ranks below the issuer names a parent of a higher rank that does too.
\<close>

theorem transitions_authorized:
  assumes "transition_grants (with_sources D M E) W w gid status ev v sa tm = (Inr te, w')"
  shows "\<exists>g sha a now xs. grant_of (ws_store w) gid = Some (g, sha) \<and> bound_approval (env_files E) sa = Inr a \<and>
    parse_time (JStr tm) = Inr now \<and> traces (env_files E) now (a # xs) \<and> (\<forall>s \<in> set (a # xs). governs s g) \<and>
    (rank_value (sa_source_rank a) < rank_value (g_issuer_rank g) \<longrightarrow>
      (\<exists>b p. sa_delegation_binding a = Some b \<and> bound_approval (env_files E) b = Inr p \<and> governs p g \<and> in_effect now p \<and>
        rank_value (sa_source_rank a) < rank_value (sa_source_rank p)))"
proof -
  from assms obtain g sha a where g: "grant_of (ws_store w) gid = Some (g, sha)"
    and a: "bound_approval (env_files E) sa = Inr a" "validate_for_transition (env_files E) D True a g tm = Inr ()"
    by (rule transition_sourced)
  from a(2) obtain now xs where xs: "parse_time (JStr tm) = Inr now" "traces (env_files E) now (a # xs)"
    and gov: "\<And>s. s \<in> set (a # xs) \<Longrightarrow> governs s g" and del: "transition_delegation (env_files E) a g now = Inr ()"
    by (rule validate_for_transition_chain) blast
  have "\<exists>b p. sa_delegation_binding a = Some b \<and> bound_approval (env_files E) b = Inr p \<and> governs p g \<and> in_effect now p \<and>
      rank_value (sa_source_rank a) < rank_value (sa_source_rank p)"
    if "rank_value (sa_source_rank a) < rank_value (g_issuer_rank g)"
    using transition_delegation_parent [OF del that gov] by (metis list.set_intros(1))
  with g a(1) xs gov show ?thesis by blast
qed

theorem transitions_authorized_witness:
  "\<exists>te w'. transition_grants (with_sources decision0 mode0 env2) owner1 ws1 ''solo'' ''suspended'' ''event'' 0
      (file_b ''approval.json'') (isoformat (day 5)) = (Inr te, w') \<and>
    (\<exists>a xs. bound_approval source_files (file_b ''approval.json'') = Inr a \<and> traces source_files (day 5) (a # xs))"
proof -
  obtain w where w: "transition_grants (with_sources decision0 mode0 env2) owner1 ws1 ''solo'' ''suspended'' ''event'' 0
      (file_b ''approval.json'') (isoformat (day 5)) = (Inr suspension, w)"
    using solo_suspended_governed by (auto simp: env3_def)
  have "env_files env2 = source_files" by (simp add: env2_def)
  moreover have "parse_time (JStr (isoformat (day 5))) = Inr (day 5)" by (simp add: day_time)
  ultimately show ?thesis using transitions_authorized [OF w] w by auto
qed

text \<open>
  C16. A plan-bound approval (schema versions 4 and 5) authorizes only the grants of its plan: a root
  grant that it authorizes repeats one of its projections field by field, the request digest and the
  receipt path included, has no parent, and its lifetime is the lifetime of the approval.
\<close>

theorem plan_bound_grant_exact:
  assumes "load_source_approval doc = Inr a" and "sa_version a \<in> {4, 5}"
    and "validate_for_grant fs D M prospective a g = Inr ()"
  shows "(\<exists>!p. p \<in> set (sa_projections a) \<and> projection_matches p g) \<and> root_lifecycle_scope a g"
proof -
  note d = plan_coverage(3) [OF assms(1,2)]
  have "plan_bound a g = Inr ()" using assms(2) by (intro validate_for_grant_facts(2) [OF assms(3)]) auto
  then obtain p where p: "p \<in> set (sa_projections a)" "projection_matches p g" and l: "root_lifecycle_scope a g"
    using plan_bound_iff [OF assms(2) d] by blast
  have "q = p" if "q \<in> set (sa_projections a)" "projection_matches q g" for q
  proof -
    from that(2) p(2) have "pj_grant_id q = pj_grant_id p" by (simp add: projection_matches_def)
    with that(1) p(1) d show ?thesis by (auto simp: distinct_map dest: inj_onD)
  qed
  with p l show ?thesis by blast
qed

theorem plan_bound_grant_exact_witness:
  "load_source_approval (Some (JObj plan_doc)) = Inr plan_approval \<and> (\<exists>p. p \<in> set (sa_projections plan_approval) \<and> projection_matches p plan_grant)"
proof
  have "sa_version plan_approval \<in> {4, 5}" by (simp add: plan_approval_def approval_of_def)
  from plan_bound_grant_exact [OF plan_ok this plan_authorized]
  show "\<exists>p. p \<in> set (sa_projections plan_approval) \<and> projection_matches p plan_grant" by blast
qed (rule plan_ok)

text \<open>
  The coverage of a plan-bound approval is the union of its projections and nothing more: its
  capabilities are theirs and the one to issue grants, its subjects, operations, decision classes,
  grants, lineages and requests are theirs without repetition of a subject or an operation, its risk
  ceiling is the risk of one of them, and no projection exceeds its ceiling or its budget.
\<close>

theorem plan_coverage_exact:
  assumes "load_source_approval doc = Inr a" and "sa_version a \<in> {4, 5}"
  defines "P \<equiv> set (sa_projections a)"
  shows "set (sa_capabilities a) = insert ''authority.grant.issue'' (\<Union>p \<in> P. set (pj_capabilities p)) \<and>
    set (sa_subjects a) = pj_subject ` P \<and> distinct (sa_subjects a) \<and>
    set (sa_operations a) = pj_operation ` P \<and> distinct (sa_operations a) \<and>
    set (sa_decision_classes a) = (\<Union>p \<in> P. set (pj_decision_classes p)) \<and>
    set (sa_grant_ids a) = pj_grant_id ` P \<and> set (sa_lineage_ids a) = pj_lineage_id ` P \<and>
    set (sa_request_digests a) = pj_request_sha256 ` P \<and>
    (\<exists>p \<in> P. pj_risk_ceiling p = sa_risk_ceiling a) \<and>
    (\<forall>p \<in> P. risk_value (pj_risk_ceiling p) \<le> risk_value (sa_risk_ceiling a) \<and>
      (\<exists>m. sa_max_uses a = Some m \<and> pj_max_uses p \<le> m))"
proof -
  note c = plan_coverage(1) [OF assms(1,2), unfolded projection_coverage_def]
  have same: "distinct xs" if "same_items xs ys" for xs ys :: "'x list"
    using that by (auto simp: same_items_def length_remdups_card_conv intro: card_distinct)
  have "distinct (sa_subjects a)" "distinct (sa_operations a)" using c by (auto intro: same)
  moreover have "\<exists>p \<in> P. pj_risk_ceiling p = sa_risk_ceiling a"
    using c highest_risk_met [OF plan_coverage(2) [OF assms(1,2)]] by (auto simp: P_def)
  ultimately show ?thesis
    using c highest_risk_ge highest_uses_ge by (auto simp: P_def same_items_def)
qed

theorem plan_coverage_exact_witness:
  "set (sa_capabilities plan_approval) = {''authority.grant.issue'', ''file.write''}"
proof -
  have "sa_version plan_approval \<in> {4, 5}" by (simp add: plan_approval_def approval_of_def)
  from plan_coverage_exact [OF plan_ok this] show ?thesis
    by (simp add: plan_approval_def approval_of_def plan_projection_def)
qed

section \<open>Sessions\<close>

text \<open>
  C17. A session lease never widens. After any sequence of budget charges, settled runs and
  observations of the host, a lease that \<^verbatim>\<open>build_session_lease\<close> made has the identity it was made with
  and a usage within its budgets; its risk ceiling is at most that of the activation and at most R2, its
  operations are those of the activation and none of them is reserved. A dispatch is allowed exactly
  while the lease is live and not expired, for unchanged digests, one of these operations and a risk up
  to the ceiling.
\<close>

theorem session_never_widens:
  assumes "build_session_lease H binding goal_id family mode ceiling groups gd pd md issued expires bg = Inr l0"
    and "(session_step H)\<^sup>*\<^sup>* l0 l"
  shows "lease_identity l = lease_identity l0 \<and> within_budget (ls_budgets l) (ls_usage l) \<and>
    (\<exists>ar. map_of RISK_TIERS ceiling = Some ar \<and> risk_value (ls_risk_ceiling l) \<le> risk_value ar) \<and>
    risk_value (ls_risk_ceiling l) \<le> risk_value R2 \<and>
    (\<exists>items. iter_items groups = Inr items \<and> set (ls_operations l) = (\<lambda>v. strip (str_or_empty v)) ` set items) \<and>
    set (ls_operations l) \<inter> set FORBIDDEN_OPERATIONS = {} \<and>
    (\<forall>at goal policy manifest op risk l'.
      assert_dispatch_allowed H (lease_json l) at goal policy manifest op risk = Inr l' \<longleftrightarrow>
      l' = l \<and> is_live l \<and>
      (\<exists>t. utc_time (JStr at) = Inr t \<and> (\<forall>e. ls_expires_at l = Some e \<longrightarrow> instant t < instant e)) \<and>
      ls_goal_digest l = goal \<and> ls_policy_digest l = policy \<and> ls_manifest_digest l = manifest \<and>
      (\<exists>g \<in> set (ls_operations l). opaque (JStr op) = Inr g) \<and>
      (\<exists>r. map_of RISK_TIERS risk = Some r \<and> risk_value r \<le> risk_value (ls_risk_ceiling l)))"
proof -
  from assms(1) obtain ar items where made: "map_of RISK_TIERS ceiling = Some ar"
      "risk_value (ls_risk_ceiling l0) \<le> risk_value ar" "iter_items groups = Inr items"
      "unique_opaques items = Inr (ls_operations l0)" "lease_normal H l0" "within_budget (ls_budgets l0) (ls_usage l0)"
    by (rule build_lease_facts)
  from session_run_keeps [OF assms(2) made(5)] made(6) have n: "lease_normal H l"
    and same: "lease_identity l = lease_identity l0" and within: "within_budget (ls_budgets l) (ls_usage l)" by blast+
  have bounds: "risk_value (ls_risk_ceiling l) \<le> risk_value R2" "set (ls_operations l) \<inter> set FORBIDDEN_OPERATIONS = {}"
    using n by (auto simp: lease_normal_def lease_body_normal_def)
  show ?thesis
    using same within made(1-3) bounds operations_listed [OF made(4)]
    by (simp add: dispatch_result [OF n] is_live_def identity_fields_of [OF same])
qed

theorem session_never_widens_witness:
  "us_cycles (ls_usage used0) = 1 \<and> within_budget (ls_budgets used0) (ls_usage used0) \<and>
   risk_value (ls_risk_ceiling used0) \<le> risk_value R2 \<and>
   assert_dispatch_allowed hash0 (lease_json used0) (utc_text (day 3)) sha_a sha_a sha_a ''edit'' ''R1'' = Inr used0"
proof -
  have "us_cycles (ls_usage used0) = 1" by (simp add: used0_def restated_def)
  with session_never_widens [OF lease0_built used0_step] dispatch0 show ?thesis by blast
qed

text \<open>
  C18. One lease per scope, and no revival. In every registry that starts and stops of sessions reach
  from the empty one, a workspace, thread and activation have at most one valid lease. Whatever happens
  later, the lease stays registered with its identity, and once it is not live it never changes again,
  so the scope is never served by another lease.
\<close>

theorem session_scope_once:
  assumes "hex_digests H" and "(registry_step H)\<^sup>*\<^sup>* [] reg" and "(registry_step H)\<^sup>*\<^sup>* reg reg'"
    and "registered_lease H reg l"
  shows "(\<forall>m. registered_lease H reg m \<and> same_scope m l \<longrightarrow> m = l) \<and>
    (\<exists>k. registered_lease H reg' k \<and> lease_identity k = lease_identity l \<and> (\<not> is_live l \<longrightarrow> k = l) \<and>
      (\<forall>m. registered_lease H reg' m \<and> same_scope m l \<longrightarrow> m = k))"
proof -
  from registry_run_ok [OF assms(2,1) empty_registry] have r: "registry_ok H reg" "scopes_unique H reg" by blast+
  from registry_run_ok [OF assms(3,1) r] have r': "scopes_unique H reg'" "carries_leases H reg reg'" by blast+
  from r'(2) assms(4) obtain k where k: "registered_lease H reg' k" "lease_identity k = lease_identity l"
    "\<not> is_live l \<longrightarrow> k = l" unfolding carries_leases_def by blast
  have "m = k" if "registered_lease H reg' m" "same_scope m l" for m
  proof -
    have "same_scope m k" using that(2) identity_binding [OF k(2)] by (simp add: same_scope_def)
    with that(1) k(1) r'(1) show ?thesis unfolding scopes_unique_def by blast
  qed
  with k r(2) assms(4) show ?thesis unfolding scopes_unique_def by blast
qed

theorem session_scope_once_witness:
  "\<not> is_live stopped0 \<and> {m. registered_lease hash0 registry1 m \<and> same_scope m stopped0} = {stopped0} \<and>
   (\<exists>k. registered_lease hash0 registry1 k \<and> lease_identity k = lease_identity lease0 \<and>
     {m. registered_lease hash0 registry1 m \<and> same_scope m lease0} = {k})"
proof -
  have scope: "same_scope k l" if "lease_identity k = lease_identity l" for k l
    using identity_binding [OF that] by (rule same_scope_refl)
  have step: "(registry_step hash0)\<^sup>*\<^sup>* registry0 registry1" using registry_step.stopped [OF stop0] by (rule r_into_rtranclp)
  from session_scope_once [OF hash0_hex registry0_reached step lease0_registered]
  obtain k where "registered_lease hash0 registry1 k" "lease_identity k = lease_identity lease0"
    "\<forall>m. registered_lease hash0 registry1 m \<and> same_scope m lease0 \<longrightarrow> m = k" by blast
  moreover from this scope have "{m. registered_lease hash0 registry1 m \<and> same_scope m lease0} = {k}" by blast
  moreover have "{m. registered_lease hash0 registry1 m \<and> same_scope m stopped0} = {stopped0}"
    using session_scope_once [OF hash0_hex registry1_reached rtranclp.rtrancl_refl stopped0_registered]
      stopped0_registered scope [of stopped0 stopped0] by blast
  ultimately show ?thesis using stopped0_facts(4) by blast
qed

section \<open>Session continuation\<close>

text \<open>
  C19. A continued session stays within its lease. From the file that \<^verbatim>\<open>session start\<close> writes, whatever
  sequence of \<^verbatim>\<open>continue\<close>, \<^verbatim>\<open>accept-action\<close>, \<^verbatim>\<open>recover\<close> and \<^verbatim>\<open>stop\<close> follows and whatever the workflow behind
  them does, the session keeps its identity and the budgets of its lease, its cycles and accepted actions
  only grow, its cycle counter is the number of its cycles, and its cycles, long runs and commits are
  within the budgets.
\<close>

theorem continuation_within_lease:
  assumes "start_command H lease lb requested cycle at None = Inr file" and "validate_session_lease H lease = Inr l"
    and "(command_step H ad)\<^sup>*\<^sup>* (file, w) (file', w')" and "load_state H file = Inr s" and "load_state H file' = Inr u"
  shows "cs_session_id u = cs_session_id s \<and> cs_goal_id u = cs_goal_id s \<and> cs_task_family u = cs_task_family s \<and>
    cs_budgets u = ls_budgets l \<and> (\<exists>zs. cs_cycle_ids u = cs_cycle_ids s @ zs) \<and> accepted_keys s \<subseteq> accepted_keys u \<and>
    us_cycles (cs_usage u) = int (length (cs_cycle_ids u)) \<and> us_cycles (cs_usage u) \<le> bg_max_cycles (ls_budgets l) \<and>
    int (length (us_active_long_runs (cs_usage u))) \<le> bg_max_concurrent_long_runs (ls_budgets l) \<and>
    (\<forall>n \<in> snd ` set (us_commits_by_cycle (cs_usage u)). n \<le> bg_max_commits_per_cycle (ls_budgets l))"
proof -
  note s = started_bounded [OF assms(1,4,2)]
  have m: "moves s u" using reached_moves [OF assms(3)] assms(4,5) by simp
  then have "cs_budgets u = ls_budgets l" "bounded u" using s by (simp_all add: moves_def)
  then show ?thesis using m s(2) by (simp add: moves_def bounded_def capped_def)
qed

theorem continuation_within_lease_witness:
  "us_cycles (cs_usage state2) = 1 \<and> cs_budgets state2 = ls_budgets lease0 \<and> cs_session_id state2 = sid0"
proof -
  have "(command_step hash0 adapter0)\<^sup>*\<^sup>* (file0, ()) (file2, ())"
    using steps0 by (meson rtranclp.rtrancl_into_rtrancl rtranclp.rtrancl_refl)
  from continuation_within_lease [OF file0_started validate_lease_again [OF lease0_normal] this load0(1,3)]
  show ?thesis by (simp add: state2_def state1_def state0_def)
qed

text \<open>
  C20. No effect in flight is lost. When a command finds an agent action pending, which may already have
  been dispatched, then afterwards an action for the same effect is pending, or a result was accepted, or
  the session is in quarantine with nothing pending; whatever the workflow answers, the liveness of the
  host and the usage counted elsewhere.
\<close>

theorem pending_effect_never_lost:
  assumes "command_step H ad (file, w) (file', w')" and "load_state H file = Inr s" and "load_state H file' = Inr u"
    and "hex_digests H" and "cs_pending s = Some a" and "ca_actor a = By_agent"
  shows "(\<exists>b. cs_pending u = Some b \<and> same_effect a b) \<or> (\<exists>k \<in> accepted_keys u. k \<notin> accepted_keys s) \<or>
    cs_status u = Cs_quarantined \<and> cs_pending u = None"
  using step_passes [OF assms(1-3)] assms(4-6) by (simp add: passes_def effect_kept_def)

theorem pending_effect_never_lost_witness: "\<exists>b. cs_pending state2 = Some b \<and> same_effect action0 b"
proof -
  have "accepted_keys state2 = {}" "cs_status state2 = Cs_stopped" "cs_pending state1 = Some action0" "ca_actor action0 = By_agent"
    by (simp_all add: accepted_keys_def state2_def state1_def state0_def action0_def)
  with pending_effect_never_lost [OF steps0(2) load0(2,3) hash0_hex] show ?thesis by simp
qed

text \<open>
  C21. The driver returns. Every recursive call of \<^verbatim>\<open>continue_session\<close> spends a cycle, except one that
  leaves the host boundary; with two calls more than the cycles left, \<^verbatim>\<open>continue\<close> and \<^verbatim>\<open>accept-action\<close> return
  for every workflow that answers its calls.
\<close>

theorem continuation_returns:
  assumes "load_state H file = Inr s" and "nat (bg_max_cycles (cs_budgets s) - us_cycles (cs_usage s)) + 2 \<le> fuel"
  shows "continue_command fuel H ad at live n file w \<noteq> None \<and> accept_command fuel H ad at live n i result file w \<noteq> None"
proof -
  have left: "cycles_left s + 1 < fuel" using assms(2) by (simp add: cycles_left_def)
  have "returns (continue_command fuel H ad at live n file)" "returns (accept_command fuel H ad at live n i result file)"
    by (rule continue_command_returns [OF assms(1) left], rule accept_command_returns [OF assms(1) left])
  then show ?thesis unfolding returns_def by blast
qed

theorem continuation_returns_witness:
  "continue_command 4 hash0 adapter0 (utc_text (day 3)) (Inr True) 0 file0 () \<noteq> None"
proof -
  have "nat (bg_max_cycles (cs_budgets state0) - us_cycles (cs_usage state0)) + 2 \<le> 4"
    by (simp add: state0_def body0_def)
  then show ?thesis by (rule conjunct1 [OF continuation_returns [OF load0(1)]])
qed

text \<open>
  C22. A result is accepted once. When the file of a session records an accepted action, then after any
  further commands accepting a result for that action neither reaches the workflow nor changes the file:
  it repeats the answer, or refuses a result with another digest.
\<close>

theorem acceptance_once:
  assumes "load_state H file = Inr s" and "i \<in> accepted_keys s" and "(command_step H ad)\<^sup>*\<^sup>* (file, w) (file', w')"
    and "load_state H file' = Inr u"
  shows "accept_command fuel H ad' at live n i result file' v
    \<in> {Some (Inr (file', cs_pending u), v), Some (Inl (ValueError Conflict), v)}"
proof -
  have "moves s u" using reached_moves [OF assms(3)] assms(1,4) by simp
  with assms(2) have "i \<in> fst ` set (cs_accepted u)" by (auto simp: moves_def accepted_keys_def)
  then obtain prior where "map_of (cs_accepted u) i = Some prior" by (metis map_of_eq_None_iff not_None_eq)
  then show ?thesis by (simp add: accept_command_def assms(4) bindW_def pureW_def)
qed

theorem acceptance_once_witness:
  "accept_command 1 hash0 adapter0 (utc_text (day 5)) (Inr True) 0 ''action-1'' [] file4 () = Some (Inr (file4, None), ())"
proof -
  have key: "''action-1'' \<in> accepted_keys state3" by (simp add: accepted_keys_def fields3)
  from acceptance_once [OF load3(1) key r_into_rtranclp [of "command_step hash0 adapter0", OF step3] load3(2),
    of 1 adapter0 "utc_text (day 5)" "Inr True" 0 "[]" "()"]
  show ?thesis by (auto simp: accept_command_def load3 bindW_def pureW_def fields3 sha0)
qed

text \<open>
  C23. Agents act locally only. In every session file that loads, a pending action of the agent has
  neither an external nor an unknown effect, it names an owner skill unless it monitors a run, and only
  the registered run owner may start a long run.
\<close>

theorem agent_effects_local:
  assumes "load_state H file = Inr s" and "cs_pending s = Some a" and "ca_actor a = By_agent"
  shows "ca_effect_class a \<in> {Observe_only, Local_reversible, Local_long_run, Local_commit} \<and>
    ca_kind a \<in> {Run_owner, Run_hybrid, Monitor_run} \<and> (ca_kind a \<noteq> Monitor_run \<longrightarrow> ca_owner_skill a \<noteq> None) \<and>
    (ca_effect_class a = Local_long_run \<longrightarrow>
       ca_kind a = Run_owner \<and> ca_target a = ''run'' \<and> ca_owner_skill a = Some ''run-task-code-and-log'')"
proof -
  have "action_tidy a" using loaded_tidy [OF assms(1)] assms(2) by (simp add: state_tidy_def)
  with assms(3) show ?thesis by (cases "ca_effect_class a") (auto simp: action_tidy_def action_allowed_def)
qed

theorem agent_effects_local_witness:
  "cs_pending state1 = Some action0 \<and> ca_effect_class action0 \<in> {Observe_only, Local_reversible, Local_long_run, Local_commit}"
proof -
  have "cs_pending state1 = Some action0" "ca_actor action0 = By_agent" by (simp_all add: state1_def action0_def)
  with agent_effects_local [OF load0(2)] show ?thesis by blast
qed

text \<open>
  C24. The driver issues no agent action beyond the budget: after a run of \<^verbatim>\<open>continue_session\<close> the agent
  actions are at most the budget, or as many as before it (direct grants of the session may have used more).
\<close>

theorem agent_actions_bounded:
  assumes "load_state H file = Inr s" and "continue_session fuel H ad at s w = Some (Inr (t, a), w')"
  shows "us_agent_actions (cs_usage s) \<le> us_agent_actions (cs_usage t) \<and>
    us_agent_actions (cs_usage t) \<le> max (us_agent_actions (cs_usage s)) (bg_max_agent_actions (cs_budgets s))"
  using continue_carries(2) [OF assms(2) loaded_tidy [OF assms(1)]] by (simp add: drives_def moves_def)

theorem agent_actions_bounded_witness:
  "us_agent_actions (cs_usage state1) = 1 \<and> us_agent_actions (cs_usage state1) \<le> max 0 10"
  using agent_actions_bounded [OF load0(1) continue0] by (simp add: state0_fields) (simp add: state1_def)

text \<open>
  C25. A session that ended is revived by its host. The driver leaves a stopped or quarantined session as
  it is, but when \<^verbatim>\<open>continue\<close> runs once while the lease is not live and once more while it is,
  \<^verbatim>\<open>_refresh_liveness\<close> makes the session active, or waiting, again.
\<close>

theorem ended_session_revived:
  assumes "load_state H file = Inr s" and "cs_status s \<in> {Cs_stopped, Cs_quarantined}"
    and "refresh_liveness H at False s = Inr s1" and "continue_session fuel H ad at s1 w = Some (Inr (t, a), w')"
    and "refresh_liveness H at' True t = Inr s2"
  shows "cs_status t = cs_status s \<and> cs_status s2 = (if pending_actor t \<in> {Some By_user, Some By_external} then Cs_waiting else Cs_active)"
proof -
  note tidy = loaded_tidy [OF assms(1)]
  have s1: "cs_status s1 = cs_status s \<and> \<not> cs_host_live s1 \<and> state_tidy s1" by (rule lost_liveness [OF assms(3) tidy])
  with assms(2) have t: "validate_state H (cstate_json s1) = Inr t" by (intro continue_ended [OF assms(4)]) simp
  note k = validate_state_keeps(1,2) [OF t]
  show ?thesis using regained_liveness [OF assms(5) validate_state_tidy [OF t]] k s1 assms(2) by auto
qed

theorem ended_session_revived_witness: "cs_status state5 = Cs_quarantined \<and> cs_status state7 = Cs_active"
proof -
  have loaded: "load_state hash0 (Some (cstate_json state5)) = Inr state5"
    by (simp add: load_state_def validate_state_again [OF normal5(1)])
  obtain a where "continue_session 2 hash0 adapter0 (utc_text (day 3)) state6 () = Some (Inr (state6, a), ())" using ended5 by blast
  from ended_session_revived [OF loaded _ liveness5(1) this liveness5(2)]
  show ?thesis by (simp add: fields5 pending_actor_def)
qed

section \<open>Evaluation\<close>

text \<open>
  C26. Soundness of evaluation. When \<^verbatim>\<open>evaluate\<close> answers \<^verbatim>\<open>allowed\<close> on a well-formed store, the
  operation is in the manifest of the skill and demands a grant, the request does not understate it,
  the request lies inside the session ceiling and the goal envelope with every separate decision
  settled, and the bound grants are records of the store that are active, in their lifetime and
  within budget, permit the exact scope, together hold the capabilities, and come with all their
  ancestors.
\<close>

theorem evaluate_sound:
  assumes "wf_store st" and "evaluate E st raw ctx_raw t = Inr a" and "da_decision a = Allowed"
  shows "\<exists>op at v. parse_time t = Inr at \<and>
    load_operation (env_skills E) (rq_skill_id (da_request a)) (rq_skill_version (da_request a))
      (rq_operation_id (da_request a)) (rq_operation_version (da_request a))
      = Inr (Some op, da_operation_manifest a) \<and>
    op_authorization_mechanism op = Mech_grant \<and> manifest_reasons (da_request a) op = [] \<and>
    context_permits (da_request a) (da_evaluation_context a) \<and>
    authorized E st (da_request a) op at
      (sc_evidence_id (ec_session_ceiling (da_evaluation_context a))) v \<and>
    da_selected_grants a = vd_selected v \<and> da_lineage_grants a = vd_lineage v"
proof -
  from assms(2) obtain r ctx at op mb v where "validate_request raw = Inr r"
    "verify_request_evidence (env_files E) r = Inr ()"
    "validate_evaluation_context (env_files E) ctx_raw = Inr ctx" and t: "parse_time t = Inr at"
    and op: "load_operation (env_skills E) (rq_skill_id r) (rq_skill_version r) (rq_operation_id r)
       (rq_operation_version r) = Inr (op, mb)"
    and v: "verdict_of E st r ctx at op = Inr v" and a: "a = decision_of (env_digest E) r ctx mb at v"
    by (rule evaluate_steps)
  from a assms(3) have "vd_decision v = Allowed" by simp
  with assms(1) v obtain op' where "op = Some op'" "manifest_reasons r op' = []"
    "op_authorization_mechanism op' = Mech_grant" "context_permits r ctx"
    "authorized E st r op' at (sc_evidence_id (ec_session_ceiling ctx)) v" by (rule verdict_allowed)
  with op t a show ?thesis by auto
qed

lemma the_decision_allowed: "da_decision the_decision = Allowed"
  by (simp add: the_decision_def the_verdict_def)

theorem evaluate_sound_witness:
  "da_decision the_decision = Allowed \<and>
   (\<exists>op at v. authorized the_env the_store (da_request the_decision) op at
      (sc_evidence_id (ec_session_ceiling (da_evaluation_context the_decision))) v)"
  using evaluate_sound [OF the_wf the_evaluation the_decision_allowed] the_decision_allowed by blast

text \<open>
  C27. The shape of a decision. A decision is \<^verbatim>\<open>allowed\<close> exactly when it has no reason codes, and
  then it binds a selected grant; any other decision binds no grant at all. The reason codes are
  sorted and without duplicates.
\<close>

theorem evaluate_shape:
  assumes "evaluate E st raw ctx_raw t = Inr a"
  shows "(da_decision a = Allowed \<longleftrightarrow> da_reason_codes a = []) \<and>
    (da_decision a = Allowed \<longleftrightarrow> da_selected_grants a \<noteq> []) \<and>
    (da_decision a \<noteq> Allowed \<longrightarrow> da_lineage_grants a = []) \<and>
    sorted (da_reason_codes a) \<and> distinct (da_reason_codes a)"
proof -
  from assms obtain r ctx at op mb v where "validate_request raw = Inr r"
    "verify_request_evidence (env_files E) r = Inr ()"
    "validate_evaluation_context (env_files E) ctx_raw = Inr ctx" "parse_time t = Inr at"
    "load_operation (env_skills E) (rq_skill_id r) (rq_skill_version r) (rq_operation_id r)
       (rq_operation_version r) = Inr (op, mb)"
    and v: "verdict_of E st r ctx at op = Inr v" and a: "a = decision_of (env_digest E) r ctx mb at v"
    by (rule evaluate_steps)
  have "sort xs = [] \<longleftrightarrow> xs = []" for xs :: "string list" by (metis set_sort set_empty)
  with verdict_of_shape [OF v] show ?thesis
    by (auto simp: a verdict_shape_def split: if_splits)
qed

theorem evaluate_shape_witness:
  "da_reason_codes the_decision = [] \<and> da_selected_grants the_decision \<noteq> []"
  using evaluate_shape [OF the_evaluation] the_decision_allowed by simp

text \<open>
  C28. Completeness of the grant decision. When every grant of a well-formed store loads, a grant that
  covers the request together with its ancestors is never overlooked: the verdict is \<^verbatim>\<open>allowed\<close>.
\<close>

theorem covering_grant_allows:
  assumes "wf_store st" and "loads E st" and "list_grants E st (Some at) = Inr recs" and "rec \<in> set recs"
    and "covers E r (fst rec) (snd (snd rec)) at (op_source_rank_floor op) sid"
    and "lineage_records E st (fst rec) = Inr l" and "lineage_covers E l r at sid"
  shows "\<exists>v. grant_decision E st r op at sid = Inr v \<and> vd_decision v = Allowed"
  using assms by (rule grant_decision_complete)

theorem covering_grant_allows_witness:
  "\<exists>v. grant_decision the_env the_store the_request the_operation (day 5) ''ev'' = Inr v \<and>
     vd_decision v = Allowed"
proof (rule covering_grant_allows [OF the_wf the_loads the_list])
  show "covers the_env the_request (fst (the_child, sha_b, initial_state the_child sha_b))
      (snd (snd (the_child, sha_b, initial_state the_child sha_b))) (day 5)
      (op_source_rank_floor the_operation) ''ev''"
    using the_covers(1) by (simp add: the_operation_def)
  show "lineage_records the_env the_store (fst (the_child, sha_b, initial_state the_child sha_b)) =
      Inr [(the_root, sha_a, initial_state the_root sha_a)]" using the_lineage by simp
  show "lineage_covers the_env [(the_root, sha_a, initial_state the_root sha_a)] the_request (day 5) ''ev''"
    using the_covers(3) by (simp add: lineage_covers_def)
qed simp

text \<open>
  C29. Least authority. When some grant covers the request with its ancestors, the verdict binds one
  covering grant, and no covering grant precedes it in the order by risk ceiling, number of
  capabilities, subjects and operations, and identifier.
\<close>

theorem selected_grant_least:
  assumes "list_grants E st (Some at) = Inr recs"
    and "mapE (candidate E st r at (op_source_rank_floor op) sid) recs = Inr cs" and "concat cs \<noteq> []"
  shows "\<exists>best lin. grant_decision E st r op at sid =
      Inr \<lparr>vd_decision = Allowed, vd_reasons = [], vd_selected = [selected_binding best],
           vd_lineage = map selected_binding lin\<rparr> \<and>
    best \<in> set recs \<and> covers E r (fst best) (snd (snd best)) at (op_source_rank_floor op) sid \<and>
    lineage_records E st (fst best) = Inr lin \<and> lineage_covers E lin r at sid \<and>
    (\<forall>c \<in> set (concat cs). \<not> candidate_before (fst (fst c)) (fst best))"
proof -
  from assms(3) obtain c rest where cs: "concat cs = c # rest" by (cases "concat cs") auto
  obtain best lin where b: "first_candidate c rest = (best, lin)" by (cases "first_candidate c rest")
  from first_candidate_least [of c rest] cs b have mem: "(best, lin) \<in> set (concat cs)"
    and least: "\<forall>c \<in> set (concat cs). \<not> candidate_before (fst (fst c)) (fst best)" by simp_all
  have "grant_decision E st r op at sid =
      Inr \<lparr>vd_decision = Allowed, vd_reasons = [], vd_selected = [selected_binding best],
           vd_lineage = map selected_binding lin\<rparr>"
    by (simp add: grant_decision_def assms(1,2) cs b Let_def)
  with least candidates_sound [OF assms(2) mem] show ?thesis by blast
qed

lemma the_candidates:
  "mapE (candidate the_env the_store the_request (day 5) (op_source_rank_floor the_operation) ''ev'')
     [(the_child, sha_b, initial_state the_child sha_b), (the_root, sha_a, initial_state the_root sha_a)] =
   Inr [[((the_child, sha_b, initial_state the_child sha_b), [(the_root, sha_a, initial_state the_root sha_a)])], []]"
  using the_covers by (simp add: candidate_def the_lineage lineage_covers_def the_operation_def)

theorem selected_grant_least_witness:
  "\<exists>best lin. grant_decision the_env the_store the_request the_operation (day 5) ''ev'' =
      Inr \<lparr>vd_decision = Allowed, vd_reasons = [], vd_selected = [selected_binding best],
           vd_lineage = map selected_binding lin\<rparr>"
  using selected_grant_least [OF the_list the_candidates] by auto

text \<open>
  C30. The checks that need no grant. \<^verbatim>\<open>context_decision\<close> leaves a request to the grants exactly when
  the request is inside both ceilings and every separate decision is settled.
\<close>

theorem context_gate: "context_decision r ctx = None \<longleftrightarrow> context_permits r ctx"
  by (rule context_decision_None)

text \<open>
  C31. Near misses. For a validated grant, the list of failed checks that
  \<^verbatim>\<open>near_miss_reasons\<close> reports is empty exactly when \<^verbatim>\<open>_covers\<close> accepts the grant, apart
  from the eligibility of a mode-activation child, which the diagnostics do not report.
\<close>

theorem near_miss_diagnosis:
  assumes "validate_grant d = Inr g"
  shows "covers E r g s at fl sid \<longleftrightarrow>
    schema4_eligible E g at \<and> filter snd (near_miss_checks E r at fl sid (g, sha, s)) = []"
  using assms by (rule near_miss_exact)

theorem near_miss_diagnosis_witness:
  "filter snd (near_miss_checks the_env the_request (day 5) S2 ''ev''
     (the_child, sha_b, initial_state the_child sha_b)) = []"
  using near_miss_diagnosis [OF the_child_ok, of the_env the_request "initial_state the_child sha_b"
      "day 5" S2 "''ev''" sha_b] the_covers(1) by blast

text \<open>
  C32. A recorded decision can be evaluated again: evaluating the normalized request and context of a
  decision at the same time on the same store gives the same decision.
\<close>

theorem recorded_decision_reproducible:
  assumes "evaluate E st raw ctx_raw t = Inr a"
  shows "evaluate E st (request_json (da_request a)) (eval_context_json (da_evaluation_context a)) t = Inr a"
  using assms by (rule evaluate_again)

theorem recorded_decision_reproducible_witness:
  "evaluate the_env the_store (request_json (da_request the_decision))
     (eval_context_json (da_evaluation_context the_decision)) (JStr (isoformat (day 5))) = Inr the_decision"
  by (rule recorded_decision_reproducible [OF the_evaluation])

text \<open>
  The authority fingerprint binds the grants: with a collision-free digest, equal fingerprints
  come from the same selected and ancestor bindings, subject and capabilities.
\<close>

theorem fingerprint_binds:
  assumes "inj (env_sha256 E)"
    and "effective_authority_fingerprint (env_digest E) r ctx mb sel lin
       = effective_authority_fingerprint (env_digest E) r' ctx' mb' sel' lin'"
  shows "sel = sel' \<and> lin = lin' \<and> rq_subject r = rq_subject r'
    \<and> rq_required_capabilities r = rq_required_capabilities r'"
proof -
  have "env_digest E = object_sha256 (env_sha256 E)" by (simp add: env_digest_def fun_eq_iff)
  with assms fingerprint_binds_grants show ?thesis by metis
qed

lemma the_inj: "inj (env_sha256 the_env)"
  by (simp add: the_env_def inj_def)

theorem fingerprint_binds_witness:
  "da_selected_grants the_decision = vd_selected the_verdict \<and>
   effective_authority_fingerprint (env_digest the_env) the_request the_context None [] []
     \<noteq> effective_authority_fingerprint (env_digest the_env) (the_request\<lparr>rq_required_capabilities := []\<rparr>)
         the_context None [] []"
  using fingerprint_binds [OF the_inj, of the_request the_context None "[]" "[]"
      "the_request\<lparr>rq_required_capabilities := []\<rparr>" the_context None "[]" "[]"]
  by (auto simp: the_decision_def the_request_def)

section \<open>Grants\<close>

text \<open>
  C33. Delegation only attenuates. With a collision-free digest, a child that \<^verbatim>\<open>_validate_child\<close>
  accepts stays within its parent in lineage, rank, capabilities, subjects, operations, risk,
  decision classes, cardinality, lifetime, budget and bounded scopes, and its issuer ranks strictly
  below that of an active parent.
\<close>

theorem delegation_attenuates:
  assumes "inj (env_sha256 E)" and "validate_child (env_digest E) p ps c = Inr ()"
  shows "attenuates c p \<and> rank_value (g_issuer_rank c) < rank_value (g_issuer_rank p) \<and>
    g_parent_grant_id c = Some (g_grant_id p) \<and> gs_status ps = Active"
  using validate_child_attenuates [OF assms] by blast

theorem delegation_attenuates_witness:
  "attenuates the_child the_root \<and> rank_value (g_issuer_rank the_child) < rank_value (g_issuer_rank the_root)"
  using delegation_attenuates [OF the_inj the_delegation] by blast

text \<open>
  C34. Registration keeps the store well formed: every stored document is a valid grant under its own
  identifier, linked to a stored parent that it attenuates, with a state whose accounting matches the
  budget of the grant.
\<close>

theorem registration_well_formed:
  assumes "parent_id = None \<or> inj (env_sha256 E)" and "wf_store st"
    and "register_compiled_grant E fd st raw parent_id = (res, st')"
  shows "wf_store st'"
  using assms by (rule register_wf)

theorem registration_well_formed_witness:
  "wf_store (snd (register_compiled_grant the_env (\<lambda>_. sha_b) root_store (grant_json the_child) (Some ''root''))) \<and>
   fst (register_compiled_grant the_env (\<lambda>_. sha_b) root_store (grant_json the_child) (Some ''root'')) =
     Inr (the_child, sha_b, initial_state the_child sha_b)"
proof
  show "wf_store (snd (register_compiled_grant the_env (\<lambda>_. sha_b) root_store (grant_json the_child) (Some ''root'')))"
    by (rule registration_well_formed [OF disjI2 [OF the_inj] root_wf]) (rule surjective_pairing)
qed (simp add: register_compiled_grant_def the_registration Let_def)

text \<open>
  C35. Lineages. In a well-formed store every ancestor that \<^verbatim>\<open>_lineage_records\<close> reports bounds the
  grant: the grant attenuates it. A lineage has at most three ancestors.
\<close>

theorem lineage_bounded:
  assumes "wf_store st" and "grant_of st (g_grant_id g) = Some (g, sha)"
    and "lineage_records E st g = Inr recs"
  shows "(\<forall>rec \<in> set recs. attenuates g (fst rec)) \<and> length recs \<le> 3"
proof -
  have "successively attenuates (g # map fst recs)"
    using lineage_from_chain [OF assms(1,2) assms(3) [unfolded lineage_records_def]] by blast
  then have "attenuates g p" if "p \<in> set (map fst recs)" for p
    using that by (rule attenuation.chain)
  with lineage_length [OF assms] show ?thesis by simp
qed

theorem lineage_bounded_witness:
  "attenuates the_child the_root \<and> length [(the_root, sha_a, initial_state the_root sha_a)] \<le> 3"
  using lineage_bounded [OF the_wf _ the_lineage] the_grant_of(2) by (simp add: child_fields)

text \<open>
  C36. The walk to the root of a lineage ends: when every grant of a well-formed store loads,
  \<^verbatim>\<open>_lineage_records\<close> returns for every stored grant and never reports a circular lineage.
\<close>

theorem lineage_returns:
  assumes "wf_store st" and "loads E st" and "grant_of st (g_grant_id g) = Some (g, sha)"
  shows "\<exists>recs. lineage_records E st g = Inr recs"
  unfolding lineage_records_def by (rule lineage_from_returns [OF assms]) (use assms(3) in auto)

theorem lineage_returns_witness: "\<exists>recs. lineage_records the_env the_store the_child = Inr recs"
  using lineage_returns [OF the_wf the_loads] the_grant_of(2) by (simp add: child_fields)

section \<open>Recovery\<close>

text \<open>
  C37. Recovery after a crash. Take a lawful history of published intents (each ready when it was
  published and raising the version of what it changes) and any state in which every projection has
  reached some point of it. Whatever the order in which the intents are read back,
  \<^verbatim>\<open>recover_projection_intents\<close> succeeds and leaves exactly the state of the full history.
\<close>

theorem recovery_completes_history:
  assumes "lawful rank p h" and "mset is = mset h" and "crash_state p h q"
  shows "\<exists>out. recover_projection_intents is q = (Inr out, replay p h)"
  using assms by (rule crash_recovery)

theorem recovery_completes_history_witness:
  "\<exists>out. recover_projection_intents
      [(''b'', [\<lparr>ch_ref = (0::nat), ch_before = Some (1::nat), ch_after = 2\<rparr>]),
       (''a'', [\<lparr>ch_ref = 0, ch_before = None, ch_after = 1\<rparr>, \<lparr>ch_ref = 1, ch_before = None, ch_after = 1\<rparr>])]
      [0 \<mapsto> 1] = (Inr out, [0 \<mapsto> 2, 1 \<mapsto> 1])"
proof -
  let ?a = "(''a'', [\<lparr>ch_ref = (0::nat), ch_before = None, ch_after = (1::nat)\<rparr>, \<lparr>ch_ref = 1, ch_before = None, ch_after = 1\<rparr>])"
  let ?b = "(''b'', [\<lparr>ch_ref = (0::nat), ch_before = Some (1::nat), ch_after = 2\<rparr>])"
  let ?rank = "\<lambda>x. case x of None \<Rightarrow> 0 | Some n \<Rightarrow> (n::nat)"
  have law: "lawful ?rank Map.empty [?a, ?b]" by (simp add: ready_def post_def)
  have crash: "crash_state Map.empty [?a, ?b] [0 \<mapsto> 1]"
    unfolding crash_state_def
  proof
    fix r :: nat
    show "\<exists>k \<le> length [?a, ?b]. [0 \<mapsto> 1] r = replay Map.empty (take k [?a, ?b]) r"
      by (cases "r = 0") (auto simp: post_def intro: exI [of _ 1] exI [of _ 0])
  qed
  have "replay Map.empty [?a, ?b] = [0 \<mapsto> 2, 1 \<mapsto> 1]" by (auto simp: post_def fun_eq_iff)
  with recovery_completes_history [OF law _ crash, of "[?b, ?a]"] show ?thesis by simp
qed

text \<open>
  Recovery settles: after a successful recovery every intent is settled, each projection at the
  state after its change or at a later state of the same graph, so that the replay check
  \<^verbatim>\<open>_validated_settled_intents\<close> accepts all of them.
\<close>

theorem recovery_settles:
  assumes "recover_projection_intents is p = (Inr out, p')"
  shows "validated_settled_intents is p' = Inr (map fst is)"
  using assms by (rule recover_settles)

theorem recovery_settles_witness:
  "\<exists>out p'. recover_projection_intents
      [(''a'', [\<lparr>ch_ref = (0::nat), ch_before = None, ch_after = (1::nat)\<rparr>])] Map.empty = (Inr out, p')
    \<and> validated_settled_intents [(''a'', [\<lparr>ch_ref = 0, ch_before = None, ch_after = 1\<rparr>])] p' = Inr [''a'']"
proof -
  have run: "recover_projection_intents
      [(''a'', [\<lparr>ch_ref = (0::nat), ch_before = None, ch_after = (1::nat)\<rparr>])] Map.empty = (Inr [''a''], [0 \<mapsto> 1])"
    by (simp add: recover_projection_intents_def state_graph_def recover_loop.simps edges_at_def
      apply_projection_changes_def)
  from recovery_settles [OF run] run show ?thesis by auto
qed

text \<open>
  Recovery writes only what was published: every projection keeps its state or takes the exact
  state after some published change of that projection, also when recovery fails halfway.
\<close>

theorem recovery_writes_published:
  assumes "recover_projection_intents is p = (res, p')"
  shows "p' r = p r \<or> (\<exists>i \<in> set is. \<exists>c \<in> set (snd i). ch_ref c = r \<and> p' r = Some (ch_after c))"
  using assms by (rule recover_writes)

theorem recovery_writes_published_witness:
  "snd (recover_projection_intents
      [(''a'', [\<lparr>ch_ref = (0::nat), ch_before = None, ch_after = (1::nat)\<rparr>])] Map.empty) 1 = None"
  using recovery_writes_published [OF surjective_pairing,
      of "[(''a'', [\<lparr>ch_ref = (0::nat), ch_before = None, ch_after = (1::nat)\<rparr>])]" Map.empty 1] by simp

section \<open>Contracts\<close>

text \<open>
  C38. \<^verbatim>\<open>validate_request\<close> is a normalization: the normal form of an accepted request, written back as
  a document, is accepted unchanged.
\<close>

theorem request_normal_form:
  assumes "validate_request d = Inr r"
  shows "validate_request (request_json r) = Inr r"
  using assms by (rule request_form.again)

theorem request_normal_form_witness: "validate_request (request_json the_request) = Inr the_request"
  by (rule request_normal_form [OF the_request_ok])

text \<open>\<^verbatim>\<open>validate_grant\<close> is a normalization, for all three schema versions.\<close>

theorem grant_normal_form:
  assumes "validate_grant d = Inr g"
  shows "validate_grant (grant_json g) = Inr g"
  using assms by (rule grant_form.again)

theorem grant_normal_form_witness: "validate_grant (grant_json the_child) = Inr the_child"
  by (rule grant_normal_form [OF the_child_ok])

text \<open>
  A request digest identifies the request: with a collision-free digest, two accepted requests
  whose normal forms have the same \<^verbatim>\<open>object_sha256\<close> have the same canonical document.
\<close>

lemma request_digest_binds:
  assumes "inj (env_sha256 E)" and "env_digest E (JObj (request_json r)) = env_digest E (JObj (request_json r'))"
  shows "canon (JObj (request_json r)) = canon (JObj (request_json r'))"
  using assms by (simp add: env_digest_def object_sha256_def inj_eq canonical_bytes_eq)

text \<open>
  C39. Canonical bytes: two JSON documents have the same \<^verbatim>\<open>canonical_bytes\<close> exactly when they are equal
  up to the order of the keys of their objects.
\<close>

theorem canonical_bytes_identify: "canonical_bytes v = canonical_bytes w \<longleftrightarrow> canon v = canon w"
  by (rule canonical_bytes_eq)

text \<open>
  C40. Time stamps: \<^verbatim>\<open>parse_time\<close> reads back what \<^verbatim>\<open>isoformat\<close> wrote, so a stored time denotes the
  same instant when it is read again.
\<close>

theorem time_roundtrip:
  assumes "parse_time v = Inr t"
  shows "parse_time (JStr (isoformat t)) = Inr t"
  using assms by (rule parse_time_again)

theorem time_roundtrip_witness: "parse_time (JStr (isoformat (day 5))) = Inr (day 5)"
  by (rule time_roundtrip [of "JStr (isoformat (day 5))"]) (rule day_time, simp_all)

text \<open>
  Manifests: the operations of an accepted manifest have distinct identities, so
  \<^verbatim>\<open>load_operation\<close> has at most one answer.
\<close>

theorem manifest_unambiguous:
  assumes "validate_manifest d = Inr m"
  shows "distinct (map (\<lambda>e. (op_operation_id e, op_operation_version e)) (mf_operations m))"
proof -
  from assms obtain vs es where es: "manifest_entries [] vs = Inr es" and m: "mf_operations m = sort_key operation_identity es"
    by (cases "jat d ''operations''") (auto simp: validate_manifest_def result_simps Let_def)
  from manifest_entries_distinct [OF es] have "distinct (map operation_identity es)"
    by (simp add: distinct_map inj_on_def operation_identity_def)
  then have "distinct (map operation_identity (mf_operations m))" by (simp add: m distinct_map_sort_key)
  then show ?thesis by (simp add: distinct_map inj_on_def operation_identity_def)
qed

theorem manifest_unambiguous_witness:
  "distinct (map (\<lambda>e. (op_operation_id e, op_operation_version e)) [the_operation])"
  using manifest_unambiguous [OF the_manifest_ok] by simp

end
